(* ===== verification/Prelude.thy ===== *)
theory Prelude
  imports Main "HOL-Library.Word" "HOL-Library.Signed_Division"
begin

text \<open>
  Shared ground of the development: Go's 64-bit integers, its truncating division,
  byte strings with \<open>strings.TrimSpace\<close> and \<open>strconv\<close>, instants and durations, and
  results as a sum of an error and a value. The simp rules and the collections declared
  here carry the arithmetic of every component theory.
\<close>

named_theorems int64_defs "bounds of the Go integer types"
named_theorems result_simps "unfolding of results (sum type) and their sequencing"

section \<open>Results\<close>

text \<open>A fallible Go function returns \<open>(value, error)\<close>; here \<open>Inl\<close> is the error.\<close>

definition rbind :: "'e + 'a \<Rightarrow> ('a \<Rightarrow> 'e + 'b) \<Rightarrow> 'e + 'b" where
  "rbind r f = (case r of Inl e \<Rightarrow> Inl e | Inr a \<Rightarrow> f a)"

lemma rbind_simps [simp, result_simps]:
  "rbind (Inl e) f = Inl e" "rbind (Inr a) f = f a"
  by (simp_all add: rbind_def)

lemma rbind_eq_Inr [result_simps]: "rbind r f = Inr b \<longleftrightarrow> (\<exists>a. r = Inr a \<and> f a = Inr b)"
  by (cases r) auto

lemma rbind_eq_Inl [result_simps]:
  "rbind r f = Inl e \<longleftrightarrow> r = Inl e \<or> (\<exists>a. r = Inr a \<and> f a = Inl e)"
  by (cases r) auto

lemma rbind_assoc: "rbind (rbind r f) g = rbind r (\<lambda>x. rbind (f x) g)"
  by (cases r) simp_all

lemma rbind_cong [fundef_cong]:
  "r = r' \<Longrightarrow> (\<And>a. r' = Inr a \<Longrightarrow> f a = g a) \<Longrightarrow> rbind r f = rbind r' g"
  by (cases r') auto

lemma if_Inl_eq_Inr [result_simps]:
  "(if b then Inl e else r) = Inr a \<longleftrightarrow> \<not> b \<and> r = Inr a"
  by simp

section \<open>64-bit integers\<close>

type_synonym int64 = int

definition max_int64 :: int where [int64_defs]: "max_int64 = 9223372036854775807"
definition min_int64 :: int where [int64_defs]: "min_int64 = -9223372036854775808"

definition in64 :: "int \<Rightarrow> bool" where
  [int64_defs]: "in64 x \<longleftrightarrow> min_int64 \<le> x \<and> x \<le> max_int64"

text \<open>Two's complement wrap-around: what Go's \<open>+\<close>, \<open>-\<close>, \<open>*\<close> on \<open>int64\<close> store.\<close>

definition wrap64 :: "int \<Rightarrow> int" where
  "wrap64 x = (x + 9223372036854775808) mod 18446744073709551616 - 9223372036854775808"

lemma wrap64_id [simp]: "in64 x \<Longrightarrow> wrap64 x = x"
  by (simp add: wrap64_def int64_defs)

lemma in64_wrap64 [simp]: "in64 (wrap64 x)"
proof -
  have "0 \<le> (x + 9223372036854775808) mod 18446744073709551616"
    and "(x + 9223372036854775808) mod 18446744073709551616 < 18446744073709551616"
    by simp_all
  then show ?thesis by (simp add: wrap64_def int64_defs)
qed

lemma wrap64_idem [simp]: "wrap64 (wrap64 x) = wrap64 x"
  by simp

text \<open>The same operation on the machine words of the library.\<close>

lemma wrap64_sint: "wrap64 x = sint (word_of_int x :: 64 word)"
  by (simp add: wrap64_def sint_sbintrunc' signed_take_bit_eq_take_bit_shift take_bit_eq_mod)

lemma wrap64_exceeds:
  "\<not> in64 x \<Longrightarrow> - 18446744073709551616 \<le> x \<Longrightarrow> x < 18446744073709551616 \<Longrightarrow> wrap64 x \<noteq> x"
  using in64_wrap64 [of x] by metis

lemma in64_0 [simp]: "in64 0" and in64_1 [simp]: "in64 1"
  by (simp_all add: int64_defs)

lemma in64_between: "in64 a \<Longrightarrow> in64 b \<Longrightarrow> a \<le> x \<Longrightarrow> x \<le> b \<Longrightarrow> in64 x"
  by (simp add: int64_defs)

lemma in64_nonneg_le: "in64 b \<Longrightarrow> 0 \<le> x \<Longrightarrow> x \<le> b \<Longrightarrow> in64 x"
  by (simp add: int64_defs)

lemma in64_diff_nonneg: "in64 a \<Longrightarrow> in64 b \<Longrightarrow> 0 \<le> a \<Longrightarrow> 0 \<le> b \<Longrightarrow> in64 (a - b)"
  by (simp add: int64_defs)

lemma in64_uminus: "0 \<le> x \<Longrightarrow> in64 x \<Longrightarrow> in64 (- x)"
  by (simp add: int64_defs)

text \<open>
  Go's \<open>/\<close> and \<open>%\<close> truncate towards zero: \<open>sdiv\<close> and \<open>smod\<close> of the library. On a
  nonnegative dividend and a positive divisor they are \<open>div\<close> and \<open>mod\<close>.
\<close>

lemma sdiv_nonneg [simp]: "0 \<le> (a::int) \<Longrightarrow> 0 < b \<Longrightarrow> a sdiv b = a div b"
  by (simp add: signed_divide_int_def sgn_if)

lemma smod_nonneg [simp]: "0 \<le> (a::int) \<Longrightarrow> 0 < b \<Longrightarrow> a smod b = a mod b"
  by (simp add: signed_modulo_int_def minus_div_mult_eq_mod [symmetric] sgn_if signed_divide_int_def)

lemma abs_sdiv: "\<bar>(a::int) sdiv b\<bar> = \<bar>a\<bar> div \<bar>b\<bar>"
proof (cases "a = 0 \<or> b = 0")
  case True
  then show ?thesis by (auto simp: signed_divide_int_def)
next
  case False
  then show ?thesis
    by (simp add: signed_divide_int_def abs_mult abs_sgn_eq pos_imp_zdiv_nonneg_iff)
qed

lemma sdiv_neg: "(- a :: int) sdiv b = - (a sdiv b)"
  by (simp add: signed_divide_int_def)

lemma in64_sdiv_pos: "in64 a \<Longrightarrow> 0 < b \<Longrightarrow> in64 (a sdiv b)"
proof -
  assume a: "in64 a" and b: "0 < b"
  have "\<bar>a\<bar> div b \<le> \<bar>a\<bar>"
    using b zdiv_mono2 [of "\<bar>a\<bar>" 1 b] by simp
  then have "\<bar>a sdiv b\<bar> \<le> \<bar>a\<bar>"
    using b by (simp add: abs_sdiv)
  moreover have "0 \<le> a \<Longrightarrow> 0 \<le> a sdiv b" and "a \<le> 0 \<Longrightarrow> a sdiv b \<le> 0"
    using b by (simp_all add: signed_divide_int_def sgn_if pos_imp_zdiv_nonneg_iff)
  ultimately show ?thesis using a by (cases "0 \<le> a") (auto simp: int64_defs)
qed

lemma div_iff_between:
  fixes l d k :: int
  assumes "0 < d"
  shows "l div d = k \<longleftrightarrow> k * d \<le> l \<and> l < k * d + d"
proof
  assume k: "l div d = k"
  show "k * d \<le> l \<and> l < k * d + d"
    using div_mult_mod_eq [of l d] pos_mod_sign [OF assms, of l] pos_mod_bound [OF assms, of l]
    unfolding k by linarith
next
  assume b: "k * d \<le> l \<and> l < k * d + d"
  show "l div d = k"
    by (rule int_div_pos_eq [where r = "l - k * d"]) (use b in \<open>simp_all add: mult.commute\<close>)
qed

section \<open>Instants and durations\<close>

text \<open>
  A \<open>time.Time\<close> is its instant, in nanoseconds since Go's zero time (so \<open>IsZero\<close> is
  \<open>t = 0\<close>); a \<open>time.Duration\<close> is an \<open>int64\<close> of nanoseconds. \<open>t.Sub(u)\<close> saturates.
\<close>

type_synonym time = int
type_synonym duration = int

definition nanos_per_second :: int where [int64_defs]: "nanos_per_second = 1000000000"

definition time_sub :: "time \<Rightarrow> time \<Rightarrow> duration" where
  "time_sub t u = (if t - u < min_int64 then min_int64
     else if max_int64 < t - u then max_int64 else t - u)"

definition unix_seconds :: "time \<Rightarrow> int" where
  "unix_seconds t = t div nanos_per_second - 62135596800"

definition time_nanosecond :: "time \<Rightarrow> int" where
  "time_nanosecond t = t mod nanos_per_second"

lemma in64_time_sub [simp]: "in64 (time_sub t u)"
  by (auto simp: time_sub_def int64_defs)

lemma time_sub_exact: "in64 (t - u) \<Longrightarrow> time_sub t u = t - u"
  by (auto simp: time_sub_def int64_defs)

end
