(* ===== verification/Go_Strings.thy ===== *)
theory Go_Strings
  imports Prelude
begin

text \<open>
  What the components use of Go's \<open>strings\<close> and \<open>strconv\<close> packages. A Go string is its
  list of bytes; \<open>len\<close> is \<open>length\<close>. Decimal rendering (\<open>strconv.Itoa\<close>, \<open>FormatUint\<close>) and
  parsing (\<open>strconv.Atoi\<close>, \<open>ParseInt\<close> in base 10) are inverse to each other.
\<close>

type_synonym gostring = string

section \<open>Trimming\<close>

text \<open>
  \<open>strings.TrimSpace\<close> strips the code points with Unicode's White\_Space property, here
  as their UTF-8 byte sequences. A code point at the front (back) of a string is decoded
  from exactly these bytes, so matching a prefix (suffix) is what the decoder does.
\<close>

definition utf8_spaces :: "string list" where
  "utf8_spaces =
    [[CHR 0x09], [CHR 0x0A], [CHR 0x0B], [CHR 0x0C], [CHR 0x0D], [CHR 0x20],
     [CHR 0xC2, CHR 0x85], [CHR 0xC2, CHR 0xA0], [CHR 0xE1, CHR 0x9A, CHR 0x80],
     [CHR 0xE2, CHR 0x80, CHR 0x80], [CHR 0xE2, CHR 0x80, CHR 0x81],
     [CHR 0xE2, CHR 0x80, CHR 0x82], [CHR 0xE2, CHR 0x80, CHR 0x83],
     [CHR 0xE2, CHR 0x80, CHR 0x84], [CHR 0xE2, CHR 0x80, CHR 0x85],
     [CHR 0xE2, CHR 0x80, CHR 0x86], [CHR 0xE2, CHR 0x80, CHR 0x87],
     [CHR 0xE2, CHR 0x80, CHR 0x88], [CHR 0xE2, CHR 0x80, CHR 0x89],
     [CHR 0xE2, CHR 0x80, CHR 0x8A], [CHR 0xE2, CHR 0x80, CHR 0xA8],
     [CHR 0xE2, CHR 0x80, CHR 0xA9], [CHR 0xE2, CHR 0x80, CHR 0xAF],
     [CHR 0xE2, CHR 0x81, CHR 0x9F], [CHR 0xE3, CHR 0x80, CHR 0x80]]"

definition starts_with :: "string \<Rightarrow> string \<Rightarrow> bool" where
  "starts_with s p = (take (length p) s = p)"

fun strip_seqs :: "string list \<Rightarrow> nat \<Rightarrow> string \<Rightarrow> string" where
  "strip_seqs ps 0 s = s"
| "strip_seqs ps (Suc n) s =
     (case find (starts_with s) ps of None \<Rightarrow> s
      | Some p \<Rightarrow> strip_seqs ps n (drop (length p) s))"

text \<open>Each round strips at least one byte, so as many rounds as bytes are enough.\<close>

definition trim_left :: "string \<Rightarrow> string" where
  "trim_left s = strip_seqs utf8_spaces (length s) s"

definition trim_right :: "string \<Rightarrow> string" where
  "trim_right s = rev (strip_seqs (map rev utf8_spaces) (length s) (rev s))"

definition trim_space :: "string \<Rightarrow> string" where
  "trim_space s = trim_right (trim_left s)"

definition blank :: "string \<Rightarrow> bool" where
  "blank s = (trim_space s = [])"

text \<open>A string whose first and last byte begin and end no white space is left alone.\<close>

definition plain_byte :: "char \<Rightarrow> bool" where
  "plain_byte c \<longleftrightarrow> 0x20 < (of_char c :: nat) \<and> (of_char c :: nat) < 0x80"

lemma utf8_spaces_not_plain:
  "list_all (\<lambda>p. p \<noteq> [] \<and> \<not> plain_byte (hd p) \<and> \<not> plain_byte (last p)) utf8_spaces"
  by code_simp

lemma starts_with_hd: "starts_with s p \<Longrightarrow> p \<noteq> [] \<Longrightarrow> s \<noteq> [] \<and> hd s = hd p"
  by (cases s; cases p) (auto simp: starts_with_def)

lemma find_starts_with_plain:
  assumes "s = [] \<or> plain_byte (hd s)"
  shows "find (starts_with s) utf8_spaces = None"
    and "find (starts_with s) (map rev utf8_spaces) = None"
proof -
  have "\<not> starts_with s p" if "p \<in> set utf8_spaces \<or> rev p \<in> set utf8_spaces" for p
  proof
    assume st: "starts_with s p"
    have "p \<noteq> [] \<and> \<not> plain_byte (hd p)"
      using that
    proof
      assume "rev p \<in> set utf8_spaces"
      then have "rev p \<noteq> [] \<and> \<not> plain_byte (last (rev p))"
        using utf8_spaces_not_plain unfolding list_all_iff by blast
      then show ?thesis by (simp add: last_rev)
    qed (use utf8_spaces_not_plain in \<open>auto simp: list_all_iff\<close>)
    with starts_with_hd [OF st] assms show False by auto
  qed
  then show "find (starts_with s) utf8_spaces = None"
    and "find (starts_with s) (map rev utf8_spaces) = None"
    by (auto simp: find_None_iff)
qed

lemma strip_seqs_None: "find (starts_with s) ps = None \<Longrightarrow> strip_seqs ps n s = s"
  by (cases n) auto

lemma trim_space_plain:
  assumes "s \<noteq> [] \<Longrightarrow> plain_byte (hd s) \<and> plain_byte (last s)"
  shows "trim_space s = s"
proof -
  have "trim_left s = s"
    using assms unfolding trim_left_def by (intro strip_seqs_None find_starts_with_plain) auto
  moreover have "strip_seqs (map rev utf8_spaces) (length s) (rev s) = rev s"
    using assms by (intro strip_seqs_None find_starts_with_plain) (auto simp: hd_rev)
  ultimately show ?thesis by (simp add: trim_space_def trim_right_def)
qed

lemma trim_space_Nil [simp]: "trim_space [] = []"
  by (simp add: trim_space_def trim_left_def trim_right_def)

lemma blank_Nil [simp]: "blank []"
  by (simp add: blank_def)

lemma strip_seqs_length: "length (strip_seqs ps n s) \<le> length s"
proof (induction n arbitrary: s)
  case (Suc n)
  have "length (strip_seqs ps n (drop k s)) \<le> length s" for k
    using Suc.IH [of "drop k s"] by simp
  then show ?case by (auto split: option.splits)
qed simp

lemma trim_space_length: "length (trim_space s) \<le> length s"
  unfolding trim_space_def trim_right_def trim_left_def
  by (metis length_rev order_trans strip_seqs_length)

text \<open>Trimming twice is trimming once.\<close>

lemma strip_seqs_stripped:
  assumes "[] \<notin> set ps" "length s \<le> n"
  shows "find (starts_with (strip_seqs ps n s)) ps = None"
  using assms(2)
proof (induction n arbitrary: s)
  case 0
  then show ?case using assms(1) by (auto simp: find_None_iff starts_with_def)
next
  case (Suc n)
  show ?case
  proof (cases "find (starts_with s) ps")
    case (Some p)
    then have "p \<in> set ps" "starts_with s p" by (auto simp: find_Some_iff)
    then have "p \<noteq> []" using assms(1) by auto
    with \<open>starts_with s p\<close>
    have "length (drop (length p) s) \<le> n" using Suc.prems by (cases p) auto
    then show ?thesis using Some Suc.IH by simp
  qed simp
qed

lemma strip_seqs_drop: "\<exists>k. strip_seqs ps n s = drop k s"
proof (induction n arbitrary: s)
  case (Suc n)
  show ?case
  proof (cases "find (starts_with s) ps")
    case None
    then show ?thesis by (intro exI [of _ 0]) simp
  next
    case (Some p)
    then show ?thesis using Suc.IH [of "drop (length p) s"] by auto
  qed
qed (intro exI [of _ 0], simp)

lemma starts_with_take: "starts_with (take k s) p \<Longrightarrow> starts_with s p"
  by (auto simp: starts_with_def take_take min_def split: if_splits)

lemma trim_space_idem [simp]: "trim_space (trim_space s) = trim_space s"
proof -
  define t where "t = trim_left s"
  have ne: "[] \<notin> set utf8_spaces" "[] \<notin> set (map rev utf8_spaces)" by (simp_all add: utf8_spaces_def)
  have t: "find (starts_with t) utf8_spaces = None" unfolding t_def trim_left_def by (rule strip_seqs_stripped [OF ne(1)]) simp
  obtain k where k: "strip_seqs (map rev utf8_spaces) (length t) (rev t) = drop k (rev t)" using strip_seqs_drop by blast
  then have u: "trim_right t = take (length t - k) t" by (simp add: trim_right_def rev_drop)
  have "find (starts_with (trim_right t)) utf8_spaces = None"
    using t unfolding u by (auto simp: find_None_iff dest: starts_with_take)
  then have left: "trim_left (trim_right t) = trim_right t" by (simp add: trim_left_def strip_seqs_None)
  have "find (starts_with (rev (trim_right t))) (map rev utf8_spaces) = None"
    unfolding trim_right_def by (simp add: strip_seqs_stripped [OF ne(2)])
  then have "trim_right (trim_right t) = trim_right t" by (simp add: trim_right_def strip_seqs_None)
  with left show ?thesis by (simp add: trim_space_def t_def)
qed

section \<open>Searching\<close>

definition contains_any :: "string \<Rightarrow> string \<Rightarrow> bool" where
  "contains_any s cs = list_ex (\<lambda>c. c \<in> set cs) s"

text \<open>\<open>strings.Cut(s, c)\<close> for a one-byte separator: before, after, found.\<close>

definition cut_at :: "char \<Rightarrow> string \<Rightarrow> string \<times> string \<times> bool" where
  "cut_at c s = (takeWhile (\<lambda>x. x \<noteq> c) s,
     (case dropWhile (\<lambda>x. x \<noteq> c) s of [] \<Rightarrow> [] | _ # r \<Rightarrow> r), c \<in> set s)"

lemma takeWhile_neq_all: "c \<notin> set a \<Longrightarrow> takeWhile (\<lambda>x. x \<noteq> c) a = a"
  and dropWhile_neq_all: "c \<notin> set a \<Longrightarrow> dropWhile (\<lambda>x. x \<noteq> c) a = []"
  by (induction a) auto

lemma takeWhile_neq_append: "c \<notin> set a \<Longrightarrow> takeWhile (\<lambda>x. x \<noteq> c) (a @ c # b) = a"
  and dropWhile_neq_append: "c \<notin> set a \<Longrightarrow> dropWhile (\<lambda>x. x \<noteq> c) (a @ c # b) = c # b"
  by (induction a) auto

lemma cut_at_found [simp]: "c \<notin> set a \<Longrightarrow> cut_at c (a @ c # b) = (a, b, True)"
  by (simp add: cut_at_def takeWhile_neq_append dropWhile_neq_append)

lemma cut_at_none [simp]: "c \<notin> set a \<Longrightarrow> cut_at c a = (a, [], False)"
  by (simp add: cut_at_def takeWhile_neq_all dropWhile_neq_all)

section \<open>Decimal numbers\<close>

definition is_digit :: "char \<Rightarrow> bool" where
  "is_digit c \<longleftrightarrow> 48 \<le> (of_char c :: nat) \<and> (of_char c :: nat) \<le> 57"

definition digit_val :: "char \<Rightarrow> int" where
  "digit_val c = int (of_char c) - 48"

definition digit_char :: "nat \<Rightarrow> char" where
  "digit_char n = char_of (48 + n)"

definition all_digits :: "string \<Rightarrow> bool" where
  "all_digits s = list_all is_digit s"

definition dec_value :: "string \<Rightarrow> int" where
  "dec_value s = foldl (\<lambda>a c. 10 * a + digit_val c) 0 s"

fun dec_string :: "nat \<Rightarrow> string" where
  "dec_string n = (if n < 10 then [digit_char n] else dec_string (n div 10) @ [digit_char (n mod 10)])"

declare dec_string.simps [simp del]

text \<open>\<open>strconv.Atoi\<close> and \<open>ParseInt(s, 10, 64)\<close>: an optional sign, digits, in range.\<close>


definition split_sign :: "string \<Rightarrow> bool \<times> string" where
  "split_sign s = (case s of [] \<Rightarrow> (False, []) | c # r \<Rightarrow>
     if c = CHR ''-'' then (True, r) else if c = CHR ''+'' then (False, r) else (False, s))"

definition parse_int64 :: "string \<Rightarrow> int option" where
  "parse_int64 s = (let (neg, ds) = split_sign s; v = (if neg then - dec_value ds else dec_value ds) in
     if ds = [] \<or> \<not> all_digits ds \<or> \<not> in64 v then None else Some v)"

lemma all_digits_simps [simp]:
  "all_digits []" "all_digits (c # s) \<longleftrightarrow> is_digit c \<and> all_digits s"
  "all_digits (s @ t) \<longleftrightarrow> all_digits s \<and> all_digits t"
  by (simp_all add: all_digits_def)

lemma all_digits_set: "all_digits s \<longleftrightarrow> (\<forall>c \<in> set s. is_digit c)"
  by (simp add: all_digits_def list_all_iff)

lemma all_digits_replicate [simp]: "all_digits (replicate n (CHR ''0''))"
  by (simp add: all_digits_set is_digit_def)

lemma all_digits_take [simp]: "all_digits s \<Longrightarrow> all_digits (take n s)"
  by (auto simp: all_digits_set dest: in_set_takeD)

lemma is_digit_plain: "is_digit c \<Longrightarrow> plain_byte c"
  by (simp add: is_digit_def plain_byte_def)

lemma not_is_digit [simp]:
  "\<not> is_digit CHR ''.''" "\<not> is_digit CHR ''-''" "\<not> is_digit CHR ''+''"
  "\<not> is_digit CHR ''e''" "\<not> is_digit CHR ''E''" "\<not> is_digit CHR '':''"
  by (simp_all add: is_digit_def)

lemma is_digit_zero [simp]: "is_digit CHR ''0''"
  by (simp add: is_digit_def)

lemma digit_val_bounds: "is_digit c \<Longrightarrow> 0 \<le> digit_val c \<and> digit_val c \<le> 9"
  by (auto simp: is_digit_def digit_val_def)

lemma digit_char_props:
  assumes "n < 10"
  shows "is_digit (digit_char n)" and "digit_val (digit_char n) = int n"
  using assms by (simp_all add: is_digit_def digit_val_def digit_char_def of_char_of)

lemma dec_value_Nil [simp]: "dec_value [] = 0"
  by (simp add: dec_value_def)

lemma dec_value_snoc [simp]: "dec_value (s @ [c]) = 10 * dec_value s + digit_val c"
  by (simp add: dec_value_def)

lemma dec_value_append: "dec_value (s @ t) = dec_value s * 10 ^ length t + dec_value t"
proof (induction t rule: rev_induct)
  case (snoc c t)
  have "dec_value (s @ t @ [c]) = 10 * dec_value (s @ t) + digit_val c"
    using dec_value_snoc [of "s @ t" c] by simp
  then show ?case using snoc by (simp add: algebra_simps)
qed simp

lemma dec_value_single [simp]: "dec_value [c] = digit_val c"
  by (simp add: dec_value_def)

lemma dec_value_Cons: "dec_value (c # t) = digit_val c * 10 ^ length t + dec_value t"
  using dec_value_append [of "[c]" t] by simp

lemma dec_value_bounds: "all_digits s \<Longrightarrow> 0 \<le> dec_value s \<and> dec_value s < 10 ^ length s"
proof (induction s rule: rev_induct)
  case (snoc c s)
  then have "0 \<le> dec_value s" "dec_value s < 10 ^ length s" "0 \<le> digit_val c" "digit_val c \<le> 9"
    using digit_val_bounds [of c] by auto
  then show ?case by simp
qed simp

lemma dec_value_zeros [simp]: "dec_value (replicate n (CHR ''0'')) = 0"
  by (induction n) (simp_all add: dec_value_Cons digit_val_def)

lemma dec_value_trailing_zeros: "dec_value (s @ replicate n (CHR ''0'')) = dec_value s * 10 ^ n"
  by (simp add: dec_value_append)

lemma dec_value_leading_zeros [simp]: "dec_value (CHR ''0'' # s) = dec_value s"
  by (simp add: dec_value_Cons digit_val_def)

lemma dec_value_dropWhile_zeros: "dec_value (dropWhile (\<lambda>c. c = CHR ''0'') s) = dec_value s"
  by (induction s) auto

lemma dec_value_prefix_zeros: "dec_value (replicate n (CHR ''0'') @ s) = dec_value s"
  by (simp add: dec_value_append)

lemma dec_string_props:
  "all_digits (dec_string n) \<and> dec_string n \<noteq> [] \<and> dec_value (dec_string n) = int n"
proof (induction n rule: dec_string.induct)
  case (1 n)
  show ?case
  proof (cases "n < 10")
    case True
    then show ?thesis by (simp add: dec_string.simps [of n] digit_char_props)
  next
    case False
    with 1 show ?thesis
      by (simp add: dec_string.simps [of n] digit_char_props zdiv_int zmod_int)
  qed
qed

lemma all_digits_dec_string [simp]: "all_digits (dec_string n)"
  and dec_string_nonempty [simp]: "dec_string n \<noteq> []"
  and dec_value_dec_string [simp]: "dec_value (dec_string n) = int n"
  using dec_string_props by auto

lemma dec_string_length: "n < 10 ^ k \<Longrightarrow> 0 < k \<Longrightarrow> length (dec_string n) \<le> k"
proof (induction k arbitrary: n)
  case (Suc k)
  show ?case
  proof (cases "n < 10")
    case True
    then show ?thesis by (simp add: dec_string.simps [of n])
  next
    case False
    with Suc.prems have "n div 10 < 10 ^ k" and "0 < k"
      by (auto simp: less_mult_imp_div_less mult.commute intro: Nat.gr0I)
    with Suc.IH False show ?thesis by (simp add: dec_string.simps [of n])
  qed
qed simp

lemma dec_string_inject [simp]: "dec_string m = dec_string n \<longleftrightarrow> m = n"
  by (metis dec_value_dec_string of_nat_eq_iff)

lemma hd_last_digits:
  assumes "all_digits s" "s \<noteq> []"
  shows "is_digit (hd s)" and "is_digit (last s)"
  using assms by (simp_all add: all_digits_set)

lemma split_sign_signed [simp]:
  "split_sign (CHR ''-'' # r) = (True, r)" "split_sign (CHR ''+'' # r) = (False, r)"
  "split_sign [] = (False, [])"
  by (simp_all add: split_sign_def)

lemma split_sign_digits: "all_digits s \<Longrightarrow> split_sign s = (False, s)"
  by (cases s) (auto simp: split_sign_def)

lemma parse_int64_digits:
  assumes "all_digits s" "s \<noteq> []"
  shows "parse_int64 s = (if dec_value s \<le> max_int64 then Some (dec_value s) else None)"
  using assms dec_value_bounds [of s]
  by (auto simp: parse_int64_def split_sign_digits int64_defs Let_def)

lemma parse_int64_in64: "parse_int64 s = Some v \<Longrightarrow> in64 v"
  by (auto simp: parse_int64_def Let_def split: prod.splits if_splits)

text \<open>Cutting at the first separator is unambiguous.\<close>

lemma append_sep:
  "c \<notin> set a \<Longrightarrow> c \<notin> set b \<Longrightarrow> a @ c # x = b @ c # y \<longleftrightarrow> a = b \<and> x = y"
  by (auto simp: append_eq_append_conv2 append_eq_Cons_conv Cons_eq_append_conv)

end
