(* ===== verification/Money.thy ===== *)
theory Money
  imports Go_Strings
begin

text \<open>
  The platform's integer fixed-point arithmetic (package \<open>money\<close>): parsing of decimal
  amount texts into minor units (\<open>money.go\<close>), rescaling, the fixed-point ratio and the
  half-up divisions over it (\<open>ratio.go\<close>), and the amortisation arithmetic
  (\<open>amortize.go\<close>). The reference for every rounding is \<open>round_half_up\<close>; the locale
  \<open>instalment_plan\<close> is the contract the amortisation calculator relies on.
\<close>

section \<open>Amount texts (money.go)\<close>

datatype money_error = ErrFormat | ErrOverflow | ErrUnknownCurrency

definition MicroScale :: int where "MicroScale = 6"
definition maxScale :: int where "maxScale = 18"
definition maxRatioScale :: int where "maxRatioScale = 9"
definition maxAmountTextLen :: nat where "maxAmountTextLen = 40"
definition maxAmountExponent :: int where "maxAmountExponent = 30"

text \<open>
  \<open>strings.ToUpper\<close> as far as a comparison with ASCII codes can see it: ASCII letters,
  and the two code points outside ASCII whose upper case is an ASCII letter (dotless i,
  long s).
\<close>

fun to_upper :: "string \<Rightarrow> string" where
  "to_upper [] = []"
| "to_upper (c # s) =
    (if c = CHR 0xC4 \<and> s \<noteq> [] \<and> hd s = CHR 0xB1 then CHR ''I'' # to_upper (tl s)
     else if c = CHR 0xC5 \<and> s \<noteq> [] \<and> hd s = CHR 0xBF then CHR ''S'' # to_upper (tl s)
     else if 97 \<le> (of_char c :: nat) \<and> (of_char c :: nat) \<le> 122
       then char_of ((of_char c :: nat) - 32) # to_upper s
     else c # to_upper s)"

definition CurrencyScale :: "string \<Rightarrow> money_error + int" where
  "CurrencyScale code =
    (let c = to_upper (trim_space code) in
     if c \<in> set [''USD'', ''CNY'', ''EUR'', ''GBP'', ''HKD'', ''AUD'', ''CAD'', ''SGD''] then Inr 2
     else if c \<in> set [''JPY'', ''KRW'', ''VND''] then Inr 0
     else Inl ErrUnknownCurrency)"

definition RawAmount_Empty :: "string \<Rightarrow> bool" where
  "RawAmount_Empty a = (trim_space a = [])"

definition parseDigits :: "string \<Rightarrow> money_error + int64" where
  "parseDigits s =
    (let t = dropWhile (\<lambda>c. c = CHR ''0'') s in
     if t = [] then Inr 0
     else case parse_int64 t of None \<Rightarrow> Inl ErrOverflow | Some v \<Rightarrow> Inr v)"

text \<open>The scientific-notation suffix: \<open>strings.IndexAny(s, "eE")\<close>, then the exponent.\<close>

definition is_exp_mark :: "char \<Rightarrow> bool" where
  "is_exp_mark c \<longleftrightarrow> c = CHR ''e'' \<or> c = CHR ''E''"

definition split_exponent :: "string \<Rightarrow> money_error + (string \<times> int)" where
  "split_exponent s =
    (case dropWhile (\<lambda>c. \<not> is_exp_mark c) s of
       [] \<Rightarrow> Inr (s, 0)
     | _ # expText \<Rightarrow>
         (case parse_int64 expText of
            None \<Rightarrow> Inl ErrFormat
          | Some e \<Rightarrow>
              if e > maxAmountExponent \<or> e < - maxAmountExponent then Inl ErrFormat
              else Inr (takeWhile (\<lambda>c. \<not> is_exp_mark c) s, e)))"

definition five_or_more :: "char \<Rightarrow> bool" where
  "five_or_more c \<longleftrightarrow> 53 \<le> (of_char c :: nat)"

text \<open>The digits with the decimal point at \<open>point\<close>, rounded half-up to an integer.\<close>

definition scaled_value :: "string \<Rightarrow> int \<Rightarrow> money_error + int64" where
  "scaled_value digits point =
    (if point \<le> 0 then
       (if point = 0 \<and> digits \<noteq> [] \<and> five_or_more (hd digits) then Inr 1 else Inr 0)
     else
       (let ds = (if point > int (length digits)
                  then digits @ replicate (nat point - length digits) (CHR ''0'') else digits) in
        rbind (parseDigits (take (nat point) ds)) (\<lambda>v.
          if nat point < length ds \<and> five_or_more (ds ! nat point)
          then (if v = max_int64 then Inl ErrOverflow else Inr (wrap64 (v + 1)))
          else Inr v)))"

definition ParseMinorUnits :: "string \<Rightarrow> int \<Rightarrow> money_error + int64" where
  "ParseMinorUnits raw scale =
    (if scale < 0 \<or> scale > maxScale then Inl ErrFormat
     else let s = trim_space raw in
     if s = [] then Inl ErrFormat
     else if length s > maxAmountTextLen then Inl ErrFormat
     else let (negative, s1) = split_sign s in
     rbind (split_exponent s1) (\<lambda>(s2, exponent).
       let (intPart, fracPart, hasPoint) = cut_at (CHR ''.'') s2 in
       if hasPoint \<and> CHR ''.'' \<in> set fracPart then Inl ErrFormat
       else if \<not> all_digits intPart \<or> \<not> all_digits fracPart then Inl ErrFormat
       else if intPart = [] \<and> fracPart = [] then Inl ErrFormat
       else rbind (scaled_value (intPart @ fracPart) (int (length intPart) + exponent + scale))
         (\<lambda>value. Inr (if negative then wrap64 (- value) else value))))"

primrec pow10 :: "nat \<Rightarrow> int64" where
  "pow10 0 = 1"
| "pow10 (Suc n) = wrap64 (pow10 n * 10)"

definition Rescale :: "int64 \<Rightarrow> int \<Rightarrow> int \<Rightarrow> money_error + int64" where
  "Rescale v from to =
    (if from < 0 \<or> to < 0 \<or> from > maxScale \<or> to > maxScale then Inl ErrFormat
     else if from = to then Inr v
     else if from < to then
       (let factor = pow10 (nat (to - from)) in
        if v > max_int64 sdiv factor \<or> v < - (max_int64 sdiv factor) then Inl ErrOverflow
        else Inr (wrap64 (v * factor)))
     else
       (let factor = pow10 (nat (from - to)); negative = v < 0 in
        if negative \<and> v = min_int64 then Inl ErrOverflow
        else let magnitude = (if negative then wrap64 (- v) else v);
                 out = wrap64 (magnitude + factor sdiv 2) sdiv factor in
             Inr (if negative then wrap64 (- out) else out)))"

section \<open>Ratios (ratio.go)\<close>

record ratio =
  ratio_num :: int64
  ratio_scale :: int
  ratio_set :: bool

definition zero_ratio :: ratio where
  "zero_ratio = \<lparr>ratio_num = 0, ratio_scale = 0, ratio_set = False\<rparr>"

definition NewRatio :: "int64 \<Rightarrow> int \<Rightarrow> money_error + ratio" where
  "NewRatio num scale =
    (if scale < 0 \<or> scale > maxRatioScale then Inl ErrFormat
     else Inr \<lparr>ratio_num = num, ratio_scale = scale, ratio_set = True\<rparr>)"

definition ParseRatio :: "string \<Rightarrow> money_error + ratio" where
  "ParseRatio raw =
    (let s = trim_space raw in
     if s = [] then Inl ErrFormat
     else if length s > maxAmountTextLen then Inl ErrFormat
     else let (negative, s1) = split_sign s;
              (intPart, fracPart, hasPoint) = cut_at (CHR ''.'') s1 in
     if hasPoint \<and> CHR ''.'' \<in> set fracPart then Inl ErrFormat
     else if \<not> all_digits intPart \<or> \<not> all_digits fracPart then Inl ErrFormat
     else if intPart = [] \<and> fracPart = [] then Inl ErrFormat
     else if int (length fracPart) > maxRatioScale then Inl ErrFormat
     else rbind (parseDigits (intPart @ fracPart)) (\<lambda>num.
       Inr \<lparr>ratio_num = (if negative then wrap64 (- num) else num),
            ratio_scale = int (length fracPart), ratio_set = True\<rparr>))"

definition IsZero :: "ratio \<Rightarrow> bool" where "IsZero r = (\<not> ratio_set r)"
definition IsPositive :: "ratio \<Rightarrow> bool" where "IsPositive r = (ratio_num r > 0)"

definition fixedDecimalString :: "int64 \<Rightarrow> int \<Rightarrow> string" where
  "fixedDecimalString num scale =
    (let negative = num < 0;
         digits = dec_string (nat \<bar>num\<bar>);
         out = (if scale \<le> 0 then digits
                else if int (length digits) \<le> scale
                  then ''0.'' @ replicate (nat scale - length digits) (CHR ''0'') @ digits
                else take (length digits - nat scale) digits @ ''.''
                  @ drop (length digits - nat scale) digits) in
     if negative then CHR ''-'' # out else out)"

definition Ratio_String :: "ratio \<Rightarrow> string" where
  "Ratio_String r =
    (if \<not> ratio_set r then [] else fixedDecimalString (ratio_num r) (ratio_scale r))"

text \<open>Integers of \<open>math/big\<close> are unbounded; \<open>QuoRem\<close> truncates.\<close>

definition divRoundHalfUp :: "int \<Rightarrow> int \<Rightarrow> int" where
  "divRoundHalfUp num den =
    (let quotient = num sdiv den; remainder = num smod den; doubled = \<bar>remainder\<bar> * 2 in
     if doubled \<ge> den then (if num < 0 then quotient - 1 else quotient + 1) else quotient)"

definition Divide :: "int64 \<Rightarrow> ratio \<Rightarrow> money_error + int64" where
  "Divide usageMinorUnits r =
    (if \<not> IsPositive r then Inr usageMinorUnits
     else let quotient = divRoundHalfUp (usageMinorUnits * 10 ^ nat (ratio_scale r)) (ratio_num r) in
       if \<not> in64 quotient then Inl ErrOverflow else Inr quotient)"

definition DivideByUnits :: "int64 \<Rightarrow> int64 \<Rightarrow> int \<Rightarrow> money_error + int64" where
  "DivideByUnits units unitsPerWhole scale =
    (if unitsPerWhole \<le> 0 then Inl ErrFormat
     else if scale < 0 \<or> scale > maxScale then Inl ErrFormat
     else let quotient = divRoundHalfUp (units * 10 ^ nat scale) unitsPerWhole in
       if \<not> in64 quotient then Inl ErrOverflow else Inr quotient)"

definition ReciprocalString :: "ratio \<Rightarrow> int \<Rightarrow> money_error + string" where
  "ReciprocalString r scale =
    (if \<not> IsPositive r then Inl ErrFormat
     else if scale < 0 \<or> scale > maxScale then Inl ErrFormat
     else let quotient = divRoundHalfUp (10 ^ nat (scale + ratio_scale r)) (ratio_num r) in
       if \<not> in64 quotient then Inl ErrOverflow else Inr (fixedDecimalString quotient scale))"

definition RatioString :: "int64 \<Rightarrow> int64 \<Rightarrow> int \<Rightarrow> money_error + string" where
  "RatioString numerator denominator scale =
    (if denominator \<le> 0 then Inl ErrFormat
     else if scale < 0 \<or> scale > maxScale then Inl ErrFormat
     else let quotient = divRoundHalfUp (numerator * 10 ^ nat scale) denominator in
       if \<not> in64 quotient then Inl ErrOverflow else Inr (fixedDecimalString quotient scale))"

section \<open>Amortisation arithmetic (amortize.go)\<close>

definition Split :: "int64 \<Rightarrow> int \<Rightarrow> money_error + int64" where
  "Split totalMinorUnits shares =
    (if shares \<le> 0 then Inl ErrFormat else DivideByUnits totalMinorUnits shares 0)"

definition Installment :: "int64 \<Rightarrow> int \<Rightarrow> int \<Rightarrow> money_error + int64" where
  "Installment totalMinorUnits n index =
    (if n \<le> 0 then Inl ErrFormat
     else if index < 1 \<or> index > n then Inl ErrFormat
     else let base = totalMinorUnits sdiv n in
       if index < n then Inr base
       else Inr (wrap64 (totalMinorUnits - wrap64 ((n - 1) * base))))"

definition InstallmentsThrough :: "int64 \<Rightarrow> int \<Rightarrow> int \<Rightarrow> money_error + int64" where
  "InstallmentsThrough totalMinorUnits n k =
    (if n \<le> 0 then Inl ErrFormat
     else if k < 0 \<or> k > n then Inl ErrFormat
     else if k = n then Inr totalMinorUnits
     else Inr (wrap64 (k * (totalMinorUnits sdiv n))))"

section \<open>Rounding: the reference and the code's division\<close>

text \<open>Rounding a quotient to the nearest integer, halves away from zero.\<close>

definition round_half_up :: "int \<Rightarrow> int \<Rightarrow> int" where
  "round_half_up n d = sgn n * ((2 * \<bar>n\<bar> + d) div (2 * d))"

lemma half_up_quotient:
  fixes q r d :: int
  assumes "0 \<le> r" "r < d"
  shows "(2 * (q * d + r) + d) div (2 * d) = q + (if 2 * r \<ge> d then 1 else 0)"
proof -
  have "(2 * (q * d + r) + d) div (2 * d) = (q * (2 * d) + (2 * r + d)) div (2 * d)"
    by (simp add: algebra_simps)
  also have "\<dots> = q + (2 * r + d) div (2 * d)"
    using assms by simp
  also have "(2 * r + d) div (2 * d) = (if 2 * r \<ge> d then 1 else 0)"
    using assms by (auto simp: div_pos_pos_trivial int_div_pos_eq [where q = 1 and r = "2 * r - d"])
  finally show ?thesis .
qed

lemma divRoundHalfUp_eq:
  assumes "0 < d"
  shows "divRoundHalfUp n d = round_half_up n d"
proof -
  define q r where "q = \<bar>n\<bar> div d" and "r = \<bar>n\<bar> mod d"
  have r: "0 \<le> r" "r < d" and n: "\<bar>n\<bar> = q * d + r"
    using assms by (simp_all add: q_def r_def)
  have quot: "n sdiv d = sgn n * q"
    using assms by (simp add: signed_divide_int_def q_def)
  have "n smod d = sgn n * r"
    using assms by (auto simp: signed_modulo_int_def q_def r_def sgn_if minus_div_mult_eq_mod
        split: if_splits)
  then have rem: "\<bar>n smod d\<bar> = (if n = 0 then 0 else r)"
    using r by (simp add: abs_mult sgn_if)
  have "(2 * \<bar>n\<bar> + d) div (2 * d) = q + (if r * 2 \<ge> d then 1 else 0)"
    unfolding n mult.commute [of r 2] by (rule half_up_quotient [OF r])
  then have half: "round_half_up n d = sgn n * (q + (if r * 2 \<ge> d then 1 else 0))"
    by (simp only: round_half_up_def)
  show ?thesis
  proof (cases "n = 0")
    case True
    with assms show ?thesis by (simp add: divRoundHalfUp_def quot round_half_up_def)
  next
    case False
    then show ?thesis
      by (auto simp: divRoundHalfUp_def quot rem half sgn_if)
  qed
qed

lemma round_half_up_neg: "round_half_up (- n) d = - round_half_up n d"
  by (simp add: round_half_up_def)

lemma round_half_up_nonneg: "0 \<le> n \<Longrightarrow> round_half_up n d = (2 * n + d) div (2 * d)"
  if "0 < d" for d
  using that by (cases "n = 0") (simp_all add: round_half_up_def)

lemma round_half_up_nearest:
  assumes "0 < d"
  shows "2 * \<bar>round_half_up n d * d - n\<bar> \<le> d"
proof -
  have pos: "2 * \<bar>round_half_up m d * d - m\<bar> \<le> d" if "0 \<le> m" for m
  proof -
    define q where "q = (2 * m + d) div (2 * d)"
    have "2 * m + d = q * (2 * d) + (2 * m + d) mod (2 * d)"
      unfolding q_def by (rule div_mult_mod_eq [symmetric])
    moreover have "0 \<le> (2 * m + d) mod (2 * d)" "(2 * m + d) mod (2 * d) < 2 * d"
      using assms by simp_all
    ultimately have "\<bar>2 * (q * d) - 2 * m\<bar> \<le> d"
      by (simp add: algebra_simps)
    then have "2 * \<bar>q * d - m\<bar> \<le> d" by arith
    then show ?thesis using that assms by (simp add: round_half_up_nonneg q_def)
  qed
  show ?thesis
  proof (cases "0 \<le> n")
    case False
    with pos [of "- n"] show ?thesis by (simp add: round_half_up_neg abs_minus_commute)
  qed (rule pos)
qed

lemma round_half_up_1 [simp]: "round_half_up n 1 = n"
  by (simp add: round_half_up_def) (simp add: abs_mult_sgn mult.commute)

lemma round_half_up_mult_self: "0 < d \<Longrightarrow> round_half_up (n * d) d = n"
  using half_up_quotient [of 0 d "\<bar>n\<bar>"]
  by (simp add: round_half_up_def abs_mult sgn_mult abs_mult_sgn mult.commute)

lemma round_half_up_mono_nonneg:
  "0 < d \<Longrightarrow> 0 \<le> m \<Longrightarrow> m \<le> n \<Longrightarrow> round_half_up m d \<le> round_half_up n d"
  by (simp add: round_half_up_nonneg zdiv_mono1)

lemma round_half_up_abs_le:
  assumes "0 < d"
  shows "\<bar>round_half_up n d\<bar> \<le> \<bar>n\<bar>"
proof -
  have "(2 * \<bar>n\<bar> + d) div (2 * d) \<le> \<bar>n\<bar>"
  proof -
    have "2 * \<bar>n\<bar> + d < (\<bar>n\<bar> + 1) * (2 * d)"
      using assms mult_left_mono [of 1 d "2 * \<bar>n\<bar>"] by (simp add: algebra_simps)
    moreover have "(2 * \<bar>n\<bar> + d) div (2 * d) * (2 * d) \<le> 2 * \<bar>n\<bar> + d"
      using assms div_mult_mod_eq [of "2 * \<bar>n\<bar> + d" "2 * d"] pos_mod_sign [of "2 * d"]
      by (metis add_increasing2 dual_order.refl mult_pos_pos zero_less_numeral)
    ultimately have "(2 * \<bar>n\<bar> + d) div (2 * d) * (2 * d) < (\<bar>n\<bar> + 1) * (2 * d)"
      by linarith
    then have "(2 * \<bar>n\<bar> + d) div (2 * d) < \<bar>n\<bar> + 1"
      using assms mult_less_cancel_right_pos [of "2 * d"] by fastforce
    then show ?thesis by simp
  qed
  moreover have "0 \<le> (2 * \<bar>n\<bar> + d) div (2 * d)"
    using assms by (simp add: pos_imp_zdiv_nonneg_iff)
  ultimately show ?thesis by (simp add: round_half_up_def abs_mult)
qed

section \<open>The parser computes the rounded value of its text\<close>

text \<open>The value of \<open>digits\<close> times \<open>10 ^ k\<close>, rounded half-up to an integer.\<close>

definition decimal_value :: "int \<Rightarrow> int \<Rightarrow> int" where
  "decimal_value d k = (if 0 \<le> k then d * 10 ^ nat k else round_half_up d (10 ^ nat (- k)))"

lemma five_or_more_digit: "is_digit c \<Longrightarrow> five_or_more c \<longleftrightarrow> 5 \<le> digit_val c"
  by (auto simp: five_or_more_def digit_val_def is_digit_def)

lemma leading_digit_half:
  fixes C P R :: int
  assumes "0 \<le> R" "R < P" "C \<le> 9"
  shows "C * P + R < 10 * P" and "10 * P \<le> 2 * (C * P + R) \<longleftrightarrow> 5 \<le> C"
proof -
  define Q where "Q = C * P"
  have "Q \<le> 9 * P" using assms unfolding Q_def by (intro mult_right_mono) simp_all
  then show "C * P + R < 10 * P" using assms unfolding Q_def [symmetric] by linarith
  show "10 * P \<le> 2 * (C * P + R) \<longleftrightarrow> 5 \<le> C"
  proof
    assume "5 \<le> C"
    then have "5 * P \<le> Q" using assms unfolding Q_def by (intro mult_right_mono) simp_all
    then show "10 * P \<le> 2 * (C * P + R)" using assms(1) unfolding Q_def [symmetric] by presburger
  next
    assume h: "10 * P \<le> 2 * (C * P + R)"
    show "5 \<le> C"
    proof (rule ccontr)
      assume "\<not> 5 \<le> C"
      then have "Q \<le> 4 * P" using assms unfolding Q_def by (intro mult_right_mono) simp_all
      with assms h show False unfolding Q_def [symmetric] by presburger
    qed
  qed
qed

lemma round_half_up_digits:
  assumes "all_digits s" "p < length s"
  shows "round_half_up (dec_value s) (10 ^ (length s - p)) =
    dec_value (take p s) + (if five_or_more (s ! p) then 1 else 0)"
proof -
  define n where "n = length s - Suc p"
  define R where "R = dec_value (drop (Suc p) s)"
  define C where "C = digit_val (s ! p)"
  have s: "s = take p s @ (s ! p) # drop (Suc p) s"
    using assms(2) by (simp add: id_take_nth_drop)
  have dig: "is_digit (s ! p)" and rest: "all_digits (drop (Suc p) s)"
    using assms by (auto simp: all_digits_set dest: in_set_dropD)
  have R: "0 \<le> R" "R < 10 ^ n"
    using dec_value_bounds [OF rest] by (simp_all add: R_def n_def)
  have C: "0 \<le> C" "C \<le> 9" and five: "five_or_more (s ! p) \<longleftrightarrow> 5 \<le> C"
    using digit_val_bounds [OF dig] five_or_more_digit [OF dig] by (simp_all add: C_def)
  have len: "length s - p = Suc n"
    using assms(2) by (simp add: n_def)
  have "dec_value s = dec_value (take p s @ [s ! p] @ drop (Suc p) s)"
    using s by simp
  then have V: "dec_value s = dec_value (take p s) * 10 ^ Suc n + (C * 10 ^ n + R)"
    unfolding dec_value_append using assms(2)
    by (simp add: R_def C_def n_def Suc_diff_Suc algebra_simps)
  have bound: "C * 10 ^ n + R < 10 ^ Suc n"
    and half: "2 * (C * 10 ^ n + R) \<ge> (10::int) ^ Suc n \<longleftrightarrow> 5 \<le> C"
    using leading_digit_half [OF R C(2)] by simp_all
  have nn: "0 \<le> dec_value s"
    using dec_value_bounds [OF assms(1)] by simp
  have "(2 * dec_value s + 10 ^ Suc n) div (2 * 10 ^ Suc n)
      = dec_value (take p s) + (if 2 * (C * 10 ^ n + R) \<ge> 10 ^ Suc n then 1 else 0)"
    unfolding V using C R bound by (intro half_up_quotient) simp_all
  then show ?thesis
    using nn unfolding len half five by (simp add: round_half_up_nonneg)
qed

lemma parseDigits_digits:
  assumes "all_digits s"
  shows "parseDigits s = (if dec_value s \<le> max_int64 then Inr (dec_value s) else Inl ErrOverflow)"
proof -
  let ?t = "dropWhile (\<lambda>c. c = CHR ''0'') s"
  have t: "all_digits ?t"
    using assms by (auto simp: all_digits_set dest: set_dropWhileD)
  show ?thesis
  proof (cases "?t = []")
    case True
    then have "dec_value s = 0"
      using dec_value_dropWhile_zeros [of s] by (metis dec_value_Nil)
    with True show ?thesis by (simp add: parseDigits_def int64_defs)
  next
    case False
    have "parse_int64 ?t = (if dec_value s \<le> max_int64 then Some (dec_value s) else None)"
      using parse_int64_digits [OF t False] by (simp only: dec_value_dropWhile_zeros)
    with False show ?thesis
      unfolding parseDigits_def Let_def by (simp only: if_False) simp
  qed
qed

lemma scaled_value_correct:
  assumes digits: "all_digits s" "s \<noteq> []"
  shows "scaled_value s point =
    (let m = decimal_value (dec_value s) (point - int (length s)) in
     if m \<le> max_int64 then Inr m else Inl ErrOverflow)"
proof -
  consider (neg) "point < 0" | (zero) "point = 0" | (mid) "0 < point" "point < int (length s)"
    | (full) "int (length s) \<le> point" "0 < point" by linarith
  then show ?thesis
  proof cases
    case neg
    define e where "e = nat (int (length s) - point)"
    have "Suc (length s) \<le> e" using neg by (simp add: e_def)
    then have "(10::int) ^ Suc (length s) \<le> 10 ^ e" by (rule power_increasing) simp
    then have "2 * dec_value s + 10 ^ e < 2 * 10 ^ e" "0 \<le> dec_value s"
      using dec_value_bounds [OF digits(1)] by simp_all
    then have "round_half_up (dec_value s) (10 ^ e) = 0"
      by (simp add: round_half_up_nonneg)
    with neg show ?thesis
      by (simp add: scaled_value_def decimal_value_def e_def int64_defs)
  next
    case zero
    have "dec_value (take 0 s) = 0" by simp
    moreover have "hd s = s ! 0" using digits(2) by (simp add: hd_conv_nth)
    ultimately show ?thesis
      using zero digits round_half_up_digits [OF digits(1), of 0]
      by (simp add: scaled_value_def decimal_value_def int64_defs)
  next
    case mid
    define p where "p = nat point"
    have p: "p < length s" "0 < p" "nat (int (length s) - point) = length s - p"
      using mid by (simp_all add: p_def nat_diff_distrib)
    have tk: "0 \<le> dec_value (take p s)"
      using dec_value_bounds [of "take p s"] digits(1) by simp
    have *: "decimal_value (dec_value s) (point - int (length s)) =
        dec_value (take p s) + (if five_or_more (s ! p) then 1 else 0)"
      using mid p round_half_up_digits [OF digits(1) p(1)] by (simp add: decimal_value_def)
    show ?thesis
      using mid p digits(1) tk unfolding * scaled_value_def
      by (auto simp: p_def [symmetric] parseDigits_digits Let_def int64_defs wrap64_def)
  next
    case full
    define n where "n = nat point - length s"
    have n: "nat point = length s + n" "nat (point - int (length s)) = n"
      using full by (simp_all add: n_def nat_diff_distrib)
    have tk: "take (nat point) (if point > int (length s)
        then s @ replicate (nat point - length s) (CHR ''0'') else s) = s @ replicate n (CHR ''0'')"
      using full n by (auto simp: n_def)
    have ln: "length (if point > int (length s)
        then s @ replicate (nat point - length s) (CHR ''0'') else s) = nat point"
      using full by (auto simp: nat_eq_iff)
    have tk': "dec_value (s @ replicate n (CHR ''0'')) = dec_value s * 10 ^ n"
      by (rule dec_value_trailing_zeros)
    have "scaled_value s point = rbind (parseDigits (s @ replicate n (CHR ''0''))) Inr"
      using full(2) unfolding scaled_value_def Let_def tk ln by (simp add: rbind_def)
    then show ?thesis
      using full digits(1) by (simp add: parseDigits_digits tk' decimal_value_def n)
  qed
qed

lemma decimal_value_nonneg: "0 \<le> d \<Longrightarrow> 0 \<le> decimal_value d k"
  by (simp add: decimal_value_def round_half_up_nonneg pos_imp_zdiv_nonneg_iff)

lemma decimal_value_neg: "decimal_value (- d) k = - decimal_value d k"
  by (simp add: decimal_value_def round_half_up_neg)

text \<open>The shape of the exponent suffix the parser accepts.\<close>

definition exponent_suffix :: "string \<Rightarrow> int \<Rightarrow> bool" where
  "exponent_suffix et e \<longleftrightarrow> et = [] \<and> e = 0 \<or>
     et \<noteq> [] \<and> is_exp_mark (hd et) \<and> parse_int64 (tl et) = Some e \<and> \<bar>e\<bar> \<le> maxAmountExponent"

lemma parse_int64_last: "parse_int64 s = Some v \<Longrightarrow> s \<noteq> [] \<and> is_digit (last s)"
  by (cases s) (auto simp: parse_int64_def split_sign_def Let_def all_digits_set
      split: if_splits prod.splits)

lemma digits_no_exp_mark: "all_digits s \<Longrightarrow> \<forall>c \<in> set s. \<not> is_exp_mark c"
  by (auto simp: all_digits_set is_exp_mark_def)

lemma digits_no_dot: "all_digits s \<Longrightarrow> CHR ''.'' \<notin> set s"
  using not_is_digit(1) by (auto simp: all_digits_set)

lemma dot_no_exp_mark: "\<not> is_exp_mark (CHR ''.'')"
  by (simp add: is_exp_mark_def)

lemma split_exponent_suffix:
  assumes s: "\<forall>c \<in> set s. \<not> is_exp_mark c" and et: "exponent_suffix et e"
  shows "split_exponent (s @ et) = Inr (s, e)"
proof -
  have dw: "dropWhile (\<lambda>c. \<not> is_exp_mark c) (s @ et) = dropWhile (\<lambda>c. \<not> is_exp_mark c) et"
    and tw: "takeWhile (\<lambda>c. \<not> is_exp_mark c) (s @ et) = s @ takeWhile (\<lambda>c. \<not> is_exp_mark c) et"
    using s by (induction s) auto
  show ?thesis
    using et unfolding split_exponent_def dw tw
    by (cases et) (auto simp: exponent_suffix_def maxAmountExponent_def)
qed

lemma decimal_text:
  assumes digits: "all_digits ip" "all_digits fp" "ip @ fp \<noteq> []"
    and sign: "sg = [] \<or> sg = ''-'' \<or> sg = ''+''"
    and dot: "pt = ''.'' \<or> pt = [] \<and> fp = []"
    and suffix: "exponent_suffix et e"
  shows "trim_space (sg @ ip @ pt @ fp @ et) = sg @ ip @ pt @ fp @ et"
    and "split_sign (sg @ ip @ pt @ fp @ et) = (sg = ''-'', (ip @ pt @ fp) @ et)"
    and "split_exponent ((ip @ pt @ fp) @ et) = Inr (ip @ pt @ fp, e)"
    and "cut_at (CHR ''.'') (ip @ pt @ fp) = (ip, fp, pt = ''.'')"
    and "CHR ''.'' \<notin> set fp" and "sg @ ip @ pt @ fp @ et \<noteq> []"
proof -
  let ?body = "ip @ pt @ fp" and ?raw = "sg @ ip @ pt @ fp @ et"
  have body: "\<forall>c \<in> set ?body. \<not> is_exp_mark c" "?body \<noteq> []"
    using digits dot digits_no_exp_mark [of ip] digits_no_exp_mark [of fp]
    by (auto simp: dot_no_exp_mark)
  have first: "plain_byte (hd ?body)" "hd ?body \<noteq> CHR ''-''" "hd ?body \<noteq> CHR ''+''"
  proof -
    have "is_digit (hd ?body) \<or> hd ?body = CHR ''.''"
      using digits dot by (cases ip) auto
    then show "plain_byte (hd ?body)" "hd ?body \<noteq> CHR ''-''" "hd ?body \<noteq> CHR ''+''"
      using is_digit_plain not_is_digit by (auto simp: plain_byte_def)
  qed
  have "is_digit (last ?body) \<or> last ?body = CHR ''.''"
    using digits dot hd_last_digits(2) [of ip] hd_last_digits(2) [of fp]
    by (cases "fp = []") (auto simp: last_append)
  then have lastb: "plain_byte (last ?body)"
    using is_digit_plain by (auto simp: plain_byte_def)
  have "plain_byte (hd ?raw)"
    using sign first body(2) by (auto simp: plain_byte_def hd_append)
  moreover have "plain_byte (last ?raw)"
    using suffix lastb body(2) parse_int64_last [of "tl et" e]
    by (cases et) (auto simp: exponent_suffix_def is_digit_plain last_append split: if_splits)
  ultimately have trim: "trim_space ?raw = ?raw"
    by (intro trim_space_plain) simp
  have nonempty: "?raw \<noteq> []" using body(2) by auto
  have "split_sign (?body @ et) = (False, ?body @ et)"
    using first body(2) by (cases "?body") (simp_all add: split_sign_def del: append_assoc)
  then have strip: "split_sign ?raw = (sg = ''-'', ?body @ et)"
    using sign by (elim disjE) simp_all
  have cut: "cut_at (CHR ''.'') ?body = (ip, fp, pt = ''.'')"
    using dot
  proof (elim disjE conjE)
    assume "pt = ''.''"
    then show ?thesis using digits_no_dot [OF digits(1)] by simp
  next
    assume "pt = []" "fp = []"
    then show ?thesis using digits_no_dot [OF digits(1)] by simp
  qed
  have nodot: "CHR ''.'' \<notin> set fp"
    using digits_no_dot [OF digits(2)] .
  show "trim_space ?raw = ?raw" "split_sign ?raw = (sg = ''-'', ?body @ et)"
    and "split_exponent (?body @ et) = Inr (?body, e)"
    and "cut_at (CHR ''.'') ?body = (ip, fp, pt = ''.'')"
    and "CHR ''.'' \<notin> set fp" and "?raw \<noteq> []"
    by (rule trim strip split_exponent_suffix [OF body(1) suffix] cut nodot nonempty)+
qed

section \<open>Properties\<close>



text \<open>The doubled example of the tests: a text that needs no rounding.\<close>

lemma pow10_eq: "n \<le> 18 \<Longrightarrow> pow10 n = 10 ^ n"
proof (induction n)
  case (Suc n)
  then have "(10::int) ^ Suc n \<le> 10 ^ 18" by (intro power_increasing) simp_all
  then have "in64 (10 ^ Suc n)"
    by (rule in64_between [of 0 "10 ^ 18", rotated 3]) (simp_all add: int64_defs)
  with Suc show ?case by (simp add: mult.commute)
qed simp

lemma half_of_pow10: "0 < n \<Longrightarrow> (10::int) ^ n sdiv 2 = 5 * 10 ^ (n - 1) \<and> (10::int) ^ n = 10 * 10 ^ (n - 1)"
  by (cases n) simp_all

text \<open>
  Changing the scale of an amount. Raising the scale multiplies exactly or reports an
  overflow; lowering it rounds half away from zero, provided the magnitude leaves room for
  the rounding constant \<open>factor/2\<close> (see \<open>Rescale_wraps_at_the_top\<close> for what happens
  without that room).
\<close>

theorem Rescale_exact:
  assumes v: "in64 v" and scales: "0 \<le> from" "from \<le> maxScale" "0 \<le> to" "to \<le> maxScale"
    and room: "to < from \<Longrightarrow> \<bar>v\<bar> \<le> max_int64 - 5 * 10 ^ nat (from - to - 1)"
  shows "Rescale v from to =
    (if from \<le> to then
       (if \<bar>v\<bar> \<le> max_int64 div 10 ^ nat (to - from) \<or> from = to
        then Inr (v * 10 ^ nat (to - from)) else Inl ErrOverflow)
     else Inr (round_half_up v (10 ^ nat (from - to))))"
proof -
  consider "from = to" | (up) "from < to" | (down) "to < from" by linarith
  then show ?thesis
  proof cases
    case 1
    with scales show ?thesis by (simp add: Rescale_def)
  next
    case up
    define f :: int where "f = 10 ^ nat (to - from)"
    have f: "pow10 (nat (to - from)) = f" "0 < f"
      using scales by (simp_all add: f_def pow10_eq maxScale_def)
    have div: "max_int64 sdiv f = max_int64 div f"
      using f by (simp add: max_int64_def)
    have fits: "in64 (v * f)" if "\<bar>v\<bar> \<le> max_int64 div f"
    proof -
      have "\<bar>v\<bar> * f \<le> max_int64 div f * f"
        using that f by (intro mult_right_mono) simp_all
      also have "\<dots> \<le> max_int64"
        using f div_mult_mod_eq [of max_int64 f] pos_mod_sign [of f max_int64] by linarith
      finally have "\<bar>v * f\<bar> \<le> max_int64"
        using f by (simp add: abs_mult)
      then show ?thesis by (simp add: int64_defs abs_le_iff)
    qed
    have "(v > max_int64 div f \<or> v < - (max_int64 div f)) = (\<not> \<bar>v\<bar> \<le> max_int64 div f)"
      by (simp add: abs_le_iff) arith
    then show ?thesis
      using up scales fits by (simp add: Rescale_def Let_def f div f_def [symmetric])
  next
    case down
    define n where "n = nat (from - to)"
    have n: "0 < n" "n \<le> 18" "nat (from - to - 1) = n - 1"
      using down scales by (simp_all add: n_def maxScale_def nat_diff_distrib)
    define f h :: int where "f = 10 ^ n" and "h = 5 * 10 ^ (n - 1)"
    have f: "pow10 n = f" "f sdiv 2 = h" "f = 2 * h" "0 < f"
      using n half_of_pow10 [of n] by (simp_all add: f_def h_def pow10_eq)
    have h: "0 < h" by (simp add: h_def)
    have room': "\<bar>v\<bar> + h \<le> max_int64"
      using room [OF down] by (simp add: n(3) h_def)
    have notmin: "v \<noteq> min_int64"
      using room' h by (auto simp: int64_defs)
    have mag: "(if v < 0 then wrap64 (- v) else v) = \<bar>v\<bar>"
      using v notmin by (simp add: int64_defs wrap64_def)
    have sum: "wrap64 (\<bar>v\<bar> + h) = \<bar>v\<bar> + h"
      using room' h by (intro wrap64_id) (simp add: int64_defs)
    have quot: "(\<bar>v\<bar> + h) sdiv f = (2 * \<bar>v\<bar> + f) div (2 * f)"
    proof -
      have "(2 * \<bar>v\<bar> + f) div (2 * f) = (2 * (\<bar>v\<bar> + h)) div (2 * f)"
        using f by simp
      also have "\<dots> = (\<bar>v\<bar> + h) div f"
        by (rule div_mult_mult1) simp
      finally show ?thesis using f h by simp
    qed
    have "\<bar>round_half_up v f\<bar> \<le> \<bar>v\<bar>"
      by (rule round_half_up_abs_le [OF f(4)])
    then have neg: "v < 0 \<Longrightarrow> wrap64 (- ((2 * \<bar>v\<bar> + f) div (2 * f))) = - ((2 * \<bar>v\<bar> + f) div (2 * f))"
      using v room' h by (intro wrap64_id) (auto simp: round_half_up_def int64_defs)
    have "v = 0 \<Longrightarrow> (2 * \<bar>v\<bar> + f) div (2 * f) = 0" using f(4) by simp
    moreover have "Rescale v from to =
        Inr (let out = wrap64 ((if v < 0 then wrap64 (- v) else v) + f sdiv 2) sdiv f in
          if v < 0 then wrap64 (- out) else out)"
      using down scales notmin by (simp add: Rescale_def Let_def n_def [symmetric] f(1))
    ultimately show ?thesis
      using down neg unfolding mag f(2) sum quot Let_def n_def [symmetric] f_def [symmetric]
      by (auto simp: round_half_up_def sgn_if)
  qed
qed

theorem Rescale_exact_witness: "Rescale (-12345) 3 1 = Inr (-123)"
  using Rescale_exact [of "-12345" 3 1]
  by (simp add: int64_defs maxScale_def round_half_up_def)

text \<open>
  Without that room the sum \<open>magnitude + factor/2\<close> wraps around before the division:
  the largest amount, one scale down, comes out negative and with no error.
\<close>

lemma Rescale_wraps_at_the_top: "Rescale max_int64 1 0 = Inr (-922337203685477580)"
  by (simp add: Rescale_def maxScale_def wrap64_def int64_defs signed_divide_int_def)

text \<open>The rendering of a fixed-point number, in the parser's own terms.\<close>

lemma fixedDecimalString_shape:
  assumes num: "in64 num" and scale: "0 \<le> scale" "scale \<le> maxScale"
  obtains ip pt fp where
    "fixedDecimalString num scale = (if num < 0 then ''-'' else []) @ ip @ pt @ fp @ []"
    "all_digits ip" "all_digits fp" "ip @ fp \<noteq> []" "pt = ''.'' \<or> pt = [] \<and> fp = []"
    "int (length fp) = scale" "dec_value (ip @ fp) = \<bar>num\<bar>"
    "length ((if num < 0 then ''-'' else []) @ ip @ pt @ fp @ []) \<le> maxAmountTextLen"
proof -
  define ds where "ds = dec_string (nat \<bar>num\<bar>)"
  have ds: "all_digits ds" "ds \<noteq> []" "dec_value ds = \<bar>num\<bar>"
    by (simp_all add: ds_def)
  have "nat \<bar>num\<bar> < 10 ^ 19"
    using num by (auto simp: int64_defs nat_less_iff abs_if)
  then have len: "length ds \<le> 19" unfolding ds_def by (rule dec_string_length) simp
  define n where "n = nat scale"
  have n: "scale = int n" "n \<le> 18" using scale by (simp_all add: n_def maxScale_def)
  have shape: "fixedDecimalString num scale = (if num < 0 then ''-'' else []) @
     (if n = 0 then ds else if length ds \<le> n then ''0.'' @ replicate (n - length ds) (CHR ''0'') @ ds
      else take (length ds - n) ds @ ''.'' @ drop (length ds - n) ds)"
    by (simp add: fixedDecimalString_def ds_def [symmetric] n Let_def)
  consider "n = 0" | "n \<noteq> 0" "length ds \<le> n" | "n \<noteq> 0" "n < length ds" by linarith
  then show thesis
  proof cases
    case 1
    then show thesis
      using ds len shape n by (intro that [of ds "[]" "[]"]) (simp_all add: maxAmountTextLen_def)
  next
    case 2
    then show thesis
      using ds len shape n
      by (intro that [of "''0''" "''.''" "replicate (n - length ds) (CHR ''0'') @ ds"])
         (simp_all add: dec_value_prefix_zeros maxAmountTextLen_def)
  next
    case 3
    then show thesis
      using ds len shape n
      by (intro that [of "take (length ds - n) ds" "''.''" "drop (length ds - n) ds"])
         (auto simp: maxAmountTextLen_def all_digits_set dest: in_set_dropD in_set_takeD)
  qed
qed

lemma ParseRatio_rendered:
  assumes set: "ratio_set r" and num: "in64 (ratio_num r)"
    and scale: "0 \<le> ratio_scale r" "ratio_scale r \<le> maxRatioScale"
  shows "ParseRatio (Ratio_String r) =
    (if \<bar>ratio_num r\<bar> \<le> max_int64 then Inr r else Inl ErrOverflow)"
proof -
  let ?sg = "if ratio_num r < 0 then ''-'' else []"
  have "ratio_scale r \<le> maxScale" using scale by (simp add: maxScale_def maxRatioScale_def)
  then obtain ip pt fp where form: "Ratio_String r = ?sg @ ip @ pt @ fp @ []"
    and digits: "all_digits ip" "all_digits fp" "ip @ fp \<noteq> []"
    and dot: "pt = ''.'' \<or> pt = [] \<and> fp = []"
    and len: "int (length fp) = ratio_scale r" "length (?sg @ ip @ pt @ fp @ []) \<le> maxAmountTextLen"
    and val: "dec_value (ip @ fp) = \<bar>ratio_num r\<bar>"
    using fixedDecimalString_shape [OF num scale(1)] set by (metis Ratio_String_def)
  have sg: "?sg = [] \<or> ?sg = ''-'' \<or> ?sg = ''+''" and et: "exponent_suffix [] 0"
    by (simp_all add: exponent_suffix_def)
  note facts = decimal_text [OF digits sg dot et]
  have sgn: "(?sg = ''-'') = (ratio_num r < 0)" by simp
  have ne: "\<not> (ip = [] \<and> fp = [])" and ad: "all_digits (ip @ fp)" using digits by auto
  have "ParseRatio (?sg @ ip @ pt @ fp @ []) =
      rbind (parseDigits (ip @ fp)) (\<lambda>num. Inr \<lparr>ratio_num = (if ratio_num r < 0 then wrap64 (- num) else num),
        ratio_scale = int (length fp), ratio_set = True\<rparr>)"
    using len scale(2) digits(1,2) facts(4,5,6) ne
    unfolding ParseRatio_def Let_def facts(1,2) sgn by auto
  then show ?thesis
    unfolding form parseDigits_digits [OF ad] val using len(1) set num
    by (cases r) (auto simp: int64_defs wrap64_def)
qed

text \<open>
  Parsing inverts rendering: every configured ratio whose numerator is not the least
  \<open>int64\<close> is read back unchanged from its own text, scale included. The excluded
  numerator is rendered correctly but its text is refused (\<open>Ratio_String_min_refused\<close>).
\<close>

theorem ParseRatio_String:
  assumes set: "ratio_set r" and num: "in64 (ratio_num r)" "ratio_num r \<noteq> min_int64"
    and scale: "0 \<le> ratio_scale r" "ratio_scale r \<le> maxRatioScale"
  shows "ParseRatio (Ratio_String r) = Inr r"
  using ParseRatio_rendered [OF set num(1) scale] num by (auto simp: int64_defs)

theorem ParseRatio_String_witness:
  "ParseRatio (Ratio_String \<lparr>ratio_num = -85, ratio_scale = 2, ratio_set = True\<rparr>) =
    Inr \<lparr>ratio_num = -85, ratio_scale = 2, ratio_set = True\<rparr>"
  by (rule ParseRatio_String) (simp_all add: int64_defs maxRatioScale_def)

lemma Ratio_String_min_refused:
  "ParseRatio (Ratio_String \<lparr>ratio_num = min_int64, ratio_scale = 0, ratio_set = True\<rparr>) = Inl ErrOverflow"
  by (subst ParseRatio_rendered) (simp_all add: int64_defs maxRatioScale_def)

text \<open>
  A cost is the metered usage divided by the recharge ratio, rounded once: for a
  positive ratio \<open>num / 10 ^ scale\<close> the result \<open>c\<close> satisfies
  \<open>2 * |c * num - usage * 10 ^ scale| \<le> num\<close>, that is, it is within half a minor unit of
  the exact quotient; it has the sign of the usage, and a result outside \<open>int64\<close> is an
  error and never a wrapped number.
\<close>

theorem Divide_nearest:
  assumes r: "IsPositive r"
  shows "(case Divide u r of
     Inr c \<Rightarrow> 2 * \<bar>c * ratio_num r - u * 10 ^ nat (ratio_scale r)\<bar> \<le> ratio_num r
       \<and> in64 c \<and> sgn c * sgn u \<ge> 0
   | Inl e \<Rightarrow> e = ErrOverflow \<and> \<not> in64 (round_half_up (u * 10 ^ nat (ratio_scale r)) (ratio_num r)))"
proof -
  have pos: "0 < ratio_num r" using r by (simp add: IsPositive_def)
  let ?n = "u * 10 ^ nat (ratio_scale r)"
  have "0 \<le> (2 * \<bar>?n\<bar> + ratio_num r) div (2 * ratio_num r)"
    using pos by (simp add: pos_imp_zdiv_nonneg_iff)
  moreover have "sgn ?n = sgn u" by (simp add: sgn_mult)
  ultimately have "sgn (round_half_up ?n (ratio_num r)) * sgn u \<ge> 0"
    unfolding round_half_up_def by (cases u "0::int" rule: linorder_cases) (simp_all add: sgn_if)
  then show ?thesis
    using r round_half_up_nearest [OF pos, of ?n]
    by (simp add: Divide_def Let_def divRoundHalfUp_eq [OF pos])
qed

theorem Divide_nearest_witness:
  "Divide 5813729 \<lparr>ratio_num = 15, ratio_scale = 1, ratio_set = True\<rparr> = Inr 3875819"
  using Divide_nearest [of "\<lparr>ratio_num = 15, ratio_scale = 1, ratio_set = True\<rparr>" 5813729]
  by (simp add: IsPositive_def Divide_def divRoundHalfUp_def signed_modulo_int_def int64_defs
      split: sum.splits)

text \<open>
  The quota conversion at the default 500000 units per whole and scale 6 loses
  nothing: it doubles the quota, or reports an overflow when the double does not fit.
\<close>

theorem DivideByUnits_quota_exact:
  "DivideByUnits units 500000 MicroScale =
    (if in64 (2 * units) then Inr (2 * units) else Inl ErrOverflow)"
proof -
  have "round_half_up (units * 10 ^ 6) 500000 = 2 * units"
    using round_half_up_mult_self [of 500000 "2 * units"] by (simp add: mult.commute)
  then show ?thesis
    by (simp add: DivideByUnits_def MicroScale_def maxScale_def Let_def divRoundHalfUp_eq)
qed

section \<open>Instalments: the contract of the schedule\<close>

text \<open>
  What the amortisation calculator uses of a schedule: every period of a plan has an
  amount, the prefix sums are available in closed form, and the whole plan adds up to the
  total. The client's lemmas (\<open>prefix_sum\<close>, the two-segment plan of a refund) follow from
  these laws alone.
\<close>

definition amount :: "'e + int \<Rightarrow> int" where
  "amount r = (case r of Inr v \<Rightarrow> v | Inl _ \<Rightarrow> 0)"

lemma amount_Inr [simp]: "amount (Inr v) = v"
  by (simp add: amount_def)

locale instalment_plan =
  fixes inst :: "int \<Rightarrow> int \<Rightarrow> int \<Rightarrow> 'e + int"
    and thru :: "int \<Rightarrow> int \<Rightarrow> int \<Rightarrow> 'e + int"
  assumes inst_defined: "in64 t \<Longrightarrow> 1 \<le> i \<Longrightarrow> i \<le> n \<Longrightarrow> \<exists>v. inst t n i = Inr v"
    and thru_zero: "0 < n \<Longrightarrow> in64 t \<Longrightarrow> thru t n 0 = Inr 0"
    and thru_step: "in64 t \<Longrightarrow> 1 \<le> i \<Longrightarrow> i \<le> n \<Longrightarrow>
      thru t n i = Inr (amount (thru t n (i - 1)) + amount (inst t n i))"
    and thru_total: "0 < n \<Longrightarrow> in64 t \<Longrightarrow> thru t n n = Inr t"
    and thru_bound: "in64 t \<Longrightarrow> 0 \<le> k \<Longrightarrow> k \<le> n \<Longrightarrow> 0 < n \<Longrightarrow>
      \<bar>amount (thru t n k)\<bar> \<le> \<bar>t\<bar> \<and> 0 \<le> amount (thru t n k) * t"
begin

lemma prefix_sum:
  assumes "in64 t" "int k \<le> n" "0 < n"
  shows "(\<Sum>i = 1..int k. amount (inst t n i)) = amount (thru t n (int k))"
  using assms(2)
proof (induction k)
  case 0
  then show ?case using thru_zero [OF assms(3,1)] by simp
next
  case (Suc k)
  have "{1..int (Suc k)} = insert (int (Suc k)) {1..int k}" by auto
  then have "(\<Sum>i = 1..int (Suc k). amount (inst t n i)) =
      amount (inst t n (int (Suc k))) + amount (thru t n (int k))"
    using Suc by simp
  moreover have "thru t n (int (Suc k)) =
      Inr (amount (thru t n (int k)) + amount (inst t n (int (Suc k))))"
    using thru_step [OF assms(1), of "int (Suc k)" n] Suc.prems by simp
  ultimately show ?case by simp
qed

lemma total_sum:
  assumes "in64 t" "0 < n"
  shows "(\<Sum>i = 1..n. amount (inst t n i)) = t"
  using prefix_sum [OF assms(1), of "nat n" n] assms thru_total [OF assms(2,1)] by simp

text \<open>
  The two-segment plan: the first \<open>r - 1\<close> periods of a plan for \<open>g\<close>, then the plan that
  spreads what is left of \<open>f\<close> over the remaining periods. Together they make up \<open>f\<close>.
\<close>

lemma two_segments:
  assumes "in64 g" "1 \<le> r" "r \<le> n" "in64 (f - amount (thru g n (r - 1)))"
  shows "(\<Sum>i = 1..r - 1. amount (inst g n i)) +
     (\<Sum>i = 1..n - r + 1. amount (inst (f - amount (thru g n (r - 1))) (n - r + 1) i)) = f"
proof -
  have "(\<Sum>i = 1..r - 1. amount (inst g n i)) = amount (thru g n (r - 1))"
    using prefix_sum [OF assms(1), of "nat (r - 1)" n] assms by simp
  moreover have "(\<Sum>i = 1..n - r + 1. amount (inst (f - amount (thru g n (r - 1))) (n - r + 1) i))
      = f - amount (thru g n (r - 1))"
    using total_sum [OF assms(4), of "n - r + 1"] assms by simp
  ultimately show ?thesis by simp
qed

end

text \<open>The code's schedule keeps the contract: truncated quotients, last period absorbs.\<close>

lemma sdiv_prefix_bounds:
  assumes "in64 t" "0 < n" "0 \<le> k" "k \<le> n"
  shows "\<bar>k * (t sdiv n)\<bar> \<le> \<bar>t\<bar>" and "0 \<le> k * (t sdiv n) * t"
    and "in64 (k * (t sdiv n))" and "in64 (t - k * (t sdiv n))"
proof -
  have pos: "0 \<le> k * (m div n) \<and> k * (m div n) \<le> m" if "0 \<le> m" for m
  proof -
    have q: "0 \<le> m div n" using that assms(2) by (simp add: pos_imp_zdiv_nonneg_iff)
    then have "k * (m div n) \<le> n * (m div n)" using assms(4) by (intro mult_right_mono)
    also have "\<dots> \<le> m"
      using mult_div_mod_eq [of n m] pos_mod_sign [OF assms(2), of m] by linarith
    finally show ?thesis using q assms(3) by simp
  qed
  have "(0 \<le> t \<longrightarrow> 0 \<le> k * (t sdiv n) \<and> k * (t sdiv n) \<le> t) \<and>
        (t < 0 \<longrightarrow> k * (t sdiv n) \<le> 0 \<and> t \<le> k * (t sdiv n))"
  proof (cases "0 \<le> t")
    case True
    then show ?thesis using pos [of t] assms(2) by simp
  next
    case False
    have "t sdiv n = - (- t div n)" using False assms(2)
      by (simp add: signed_divide_int_def sgn_if)
    then show ?thesis using False pos [of "- t"] by simp
  qed
  then show "\<bar>k * (t sdiv n)\<bar> \<le> \<bar>t\<bar>" "0 \<le> k * (t sdiv n) * t"
    "in64 (k * (t sdiv n))" "in64 (t - k * (t sdiv n))"
    using assms(1) by (cases "0 \<le> t"; simp add: int64_defs mult_nonneg_nonneg mult_nonpos_nonpos)+
qed

interpretation plan: instalment_plan Installment InstallmentsThrough
proof
  fix t n i k :: int
  assume t: "in64 t"
  show "1 \<le> i \<Longrightarrow> i \<le> n \<Longrightarrow> \<exists>v. Installment t n i = Inr v"
    by (simp add: Installment_def Let_def)
  show "0 < n \<Longrightarrow> InstallmentsThrough t n 0 = Inr 0" "0 < n \<Longrightarrow> InstallmentsThrough t n n = Inr t"
    by (simp_all add: InstallmentsThrough_def)
  show "0 \<le> k \<Longrightarrow> k \<le> n \<Longrightarrow> 0 < n \<Longrightarrow>
      \<bar>amount (InstallmentsThrough t n k)\<bar> \<le> \<bar>t\<bar> \<and> 0 \<le> amount (InstallmentsThrough t n k) * t"
    using sdiv_prefix_bounds [OF t, of n k] by (simp add: InstallmentsThrough_def)
  show "InstallmentsThrough t n i =
      Inr (amount (InstallmentsThrough t n (i - 1)) + amount (Installment t n i))"
    if i: "1 \<le> i" "i \<le> n"
  proof (cases "i < n")
    case True
    then show ?thesis
      using i sdiv_prefix_bounds(3) [OF t, of n i] sdiv_prefix_bounds(3) [OF t, of n "i - 1"]
      by (simp add: InstallmentsThrough_def Installment_def Let_def algebra_simps)
  next
    case False
    then show ?thesis
      using i sdiv_prefix_bounds(3,4) [OF t, of n "n - 1"]
      by (simp add: InstallmentsThrough_def Installment_def Let_def)
  qed
qed

text \<open>
  Spreading an amount over \<open>n\<close> periods loses nothing: the instalments of every plan
  add up to the amount itself, exactly, whatever the remainder of the division.
\<close>

theorem Installments_sum:
  assumes "in64 amt" "0 < n"
  shows "(\<Sum>i = 1..n. amount (Installment amt n i)) = amt"
  using assms by (rule plan.total_sum)

theorem Installments_sum_witness: "(\<Sum>i = 1..7. amount (Installment 5 7 i)) = 5"
  by (rule Installments_sum) (simp_all add: int64_defs)

end
