(* ===== verification/Amortization.thy ===== *)
theory Amortization
  imports Money
begin

text \<open>
  The amortisation calculator of subscription and agency costs
  (\<open>finance/amortization.go\<close>): a payment spread over the days of its term, refunds that
  recompute only the days left, early termination that turns the rest into a loss. The
  calculator is a client of the locale \<open>instalment_plan\<close>, through its interpretation
  \<open>plan\<close> on the code's schedule: every day's amount is an instalment of one or two plans.
\<close>

section \<open>Dates, errors and the payment term\<close>

datatype finance_error = ErrMissingField | ErrInvalidFormat | ErrInconsistent
  | ErrAmortizationMixedCurrency | ErrNoAmortizableBatch | ErrProfitNothingKnown
  | MoneyError money_error

definition lift_money :: "money_error + 'a \<Rightarrow> finance_error + 'a" where
  "lift_money r = (case r of Inl e \<Rightarrow> Inl (MoneyError e) | Inr a \<Rightarrow> Inr a)"

text \<open>A \<open>time.Time\<close> with the one fact about its location the code asks for.\<close>

record date =
  instant :: time
  in_utc :: bool

definition zero_date :: "date \<Rightarrow> bool" where "zero_date d \<longleftrightarrow> instant d = 0"

definition dayDuration :: duration where [int64_defs]: "dayDuration = 86400000000000"

definition isCalendarDay :: "date \<Rightarrow> bool" where
  "isCalendarDay d \<longleftrightarrow> in_utc d \<and> instant d mod dayDuration = 0"

definition daysBetween :: "date \<Rightarrow> date \<Rightarrow> int" where
  "daysBetween from to = time_sub (instant to) (instant from) sdiv dayDuration"

record AmortizationTerm =
  PaidMinor :: int64
  SurchargeMinor :: int64
  RefundedMinor :: int64
  RefundedOn :: date
  StartsOn :: date
  ExpiresOn :: date
  TerminatedOn :: date
  ShareCount :: int

section \<open>The calculator\<close>

definition TotalDays :: "AmortizationTerm \<Rightarrow> int" where
  "TotalDays t = daysBetween (StartsOn t) (ExpiresOn t) + 1"

definition GrossBasisMinor :: "AmortizationTerm \<Rightarrow> finance_error + int64" where
  "GrossBasisMinor t =
    (if SurchargeMinor t > 0 \<and> PaidMinor t > wrap64 (max_int64 - SurchargeMinor t)
     then Inl ErrInvalidFormat else Inr (wrap64 (PaidMinor t + SurchargeMinor t)))"

definition NetBasisMinor :: "AmortizationTerm \<Rightarrow> finance_error + int64" where
  "NetBasisMinor t = rbind (GrossBasisMinor t) (\<lambda>gross. Inr (wrap64 (gross - RefundedMinor t)))"

definition ShareMinor :: "AmortizationTerm \<Rightarrow> finance_error + int64" where
  "ShareMinor t = rbind (NetBasisMinor t) (\<lambda>net. lift_money (Split net (ShareCount t)))"

definition grossShareMinor :: "AmortizationTerm \<Rightarrow> finance_error + int64" where
  "grossShareMinor t = rbind (GrossBasisMinor t) (\<lambda>gross. lift_money (Split gross (ShareCount t)))"

definition Covers :: "AmortizationTerm \<Rightarrow> date \<Rightarrow> bool" where
  "Covers t day =
    (if instant day < instant (StartsOn t) \<or> instant day > instant (ExpiresOn t) then False
     else if \<not> zero_date (TerminatedOn t) \<and> \<not> instant day < instant (TerminatedOn t) then False
     else True)"

definition refundSplit :: "AmortizationTerm \<Rightarrow> int64 \<Rightarrow> int \<Rightarrow> int \<Rightarrow> finance_error + (int64 \<times> int64)" where
  "refundSplit t grossShare days refundIndex =
    rbind (lift_money (InstallmentsThrough grossShare days (refundIndex - 1))) (\<lambda>before.
    rbind (ShareMinor t) (\<lambda>share. Inr (before, wrap64 (share - before))))"

definition scheduledDay :: "AmortizationTerm \<Rightarrow> int \<Rightarrow> finance_error + int64" where
  "scheduledDay t d =
    (let days = TotalDays t in
     rbind (grossShareMinor t) (\<lambda>gross.
       if RefundedMinor t = 0 then lift_money (Installment gross days d)
       else let refundIndex = daysBetween (StartsOn t) (RefundedOn t) + 1 in
         if d < refundIndex then lift_money (Installment gross days d)
         else rbind (refundSplit t gross days refundIndex) (\<lambda>(_, remaining).
           lift_money (Installment remaining (days - refundIndex + 1) (d - refundIndex + 1)))))"

definition amortizedThrough :: "AmortizationTerm \<Rightarrow> int \<Rightarrow> finance_error + int64" where
  "amortizedThrough t k0 =
    (let days = TotalDays t in
     if k0 \<le> 0 then Inr 0
     else let k = (if k0 > days then days else k0) in
     rbind (grossShareMinor t) (\<lambda>gross.
       if RefundedMinor t = 0 then lift_money (InstallmentsThrough gross days k)
       else let refundIndex = daysBetween (StartsOn t) (RefundedOn t) + 1 in
         if k < refundIndex then lift_money (InstallmentsThrough gross days k)
         else rbind (refundSplit t gross days refundIndex) (\<lambda>(before, remaining).
           rbind (lift_money (InstallmentsThrough remaining (days - refundIndex + 1) (k - refundIndex + 1)))
             (\<lambda>tail. Inr (wrap64 (before + tail))))))"

definition validateRefundDate :: "AmortizationTerm \<Rightarrow> finance_error + unit" where
  "validateRefundDate t =
    (if RefundedMinor t = 0 \<and> \<not> zero_date (RefundedOn t) then Inl ErrInconsistent
     else if RefundedMinor t > 0 \<and> zero_date (RefundedOn t) then Inl ErrMissingField
     else if RefundedMinor t > 0 \<and>
       (instant (RefundedOn t) < instant (StartsOn t) \<or> instant (RefundedOn t) > instant (ExpiresOn t))
     then Inl ErrInvalidFormat
     else Inr ())"

text \<open>The loop over the four named dates returns the same error whichever date it meets first.\<close>

definition AmortizationTerm_Validate :: "AmortizationTerm \<Rightarrow> finance_error + unit" where
  "AmortizationTerm_Validate t =
    (if zero_date (StartsOn t) \<or> zero_date (ExpiresOn t) then Inl ErrMissingField
     else if list_ex (\<lambda>day. \<not> zero_date day \<and> \<not> isCalendarDay day)
       [StartsOn t, ExpiresOn t, RefundedOn t, TerminatedOn t] then Inl ErrInvalidFormat
     else if instant (ExpiresOn t) < instant (StartsOn t) then Inl ErrInvalidFormat
     else if ShareCount t \<le> 0 then Inl ErrInvalidFormat
     else if PaidMinor t < 0 \<or> SurchargeMinor t < 0 \<or> RefundedMinor t < 0 then Inl ErrInvalidFormat
     else rbind (GrossBasisMinor t) (\<lambda>gross.
       if RefundedMinor t > gross then Inl ErrInconsistent
       else rbind (validateRefundDate t) (\<lambda>_.
         if \<not> zero_date (TerminatedOn t) \<and>
           (instant (TerminatedOn t) < instant (StartsOn t) \<or>
            instant (TerminatedOn t) > instant (ExpiresOn t))
         then Inl ErrInvalidFormat
         else Inr ())))"

definition DailyMinor :: "AmortizationTerm \<Rightarrow> date \<Rightarrow> finance_error + (int64 \<times> bool)" where
  "DailyMinor t day =
    rbind (AmortizationTerm_Validate t) (\<lambda>_.
      if \<not> Covers t day then Inr (0, False)
      else rbind (scheduledDay t (daysBetween (StartsOn t) day + 1)) (\<lambda>v. Inr (v, True)))"

definition UnamortizedMinor :: "AmortizationTerm \<Rightarrow> finance_error + int64" where
  "UnamortizedMinor t =
    rbind (AmortizationTerm_Validate t) (\<lambda>_.
      if zero_date (TerminatedOn t) then Inr 0
      else rbind (amortizedThrough t (daysBetween (StartsOn t) (TerminatedOn t))) (\<lambda>amortized.
        rbind (ShareMinor t) (\<lambda>share. Inr (wrap64 (share - amortized)))))"

section \<open>Facts of a valid term\<close>

lemma lift_money_simps [simp]:
  "lift_money (Inr a) = Inr a" "lift_money (Inl e) = Inl (MoneyError e)"
  by (simp_all add: lift_money_def)

lemma amount_lift [simp]: "amount (lift_money r) = amount r"
  by (cases r) (simp_all add: amount_def)

text \<open>
  What the theorems ask of a term: the fields are \<open>int64\<close>, \<open>Validate\<close> accepts it, and its
  span does not exceed the longest \<open>time.Duration\<close> (106751 days, 292 years), beyond which
  \<open>Sub\<close> saturates.
\<close>

definition sound_term :: "AmortizationTerm \<Rightarrow> bool" where
  "sound_term t \<longleftrightarrow> in64 (PaidMinor t) \<and> in64 (SurchargeMinor t) \<and> in64 (RefundedMinor t)
     \<and> AmortizationTerm_Validate t = Inr () \<and> instant (ExpiresOn t) - instant (StartsOn t) \<le> max_int64"

text \<open>The \<open>d\<close>-th day of the term, counted from 0.\<close>

definition day_at :: "AmortizationTerm \<Rightarrow> int \<Rightarrow> date" where
  "day_at t d = \<lparr>instant = instant (StartsOn t) + d * dayDuration, in_utc = True\<rparr>"

lemma Split_nonneg:
  assumes "0 \<le> v" "in64 v" "0 < n"
  obtains q where "Split v n = Inr q" "0 \<le> q" "q \<le> v" "in64 q"
proof -
  define q where "q = round_half_up v n"
  have "\<bar>q\<bar> \<le> \<bar>v\<bar>" unfolding q_def by (rule round_half_up_abs_le [OF assms(3)])
  moreover have "0 \<le> q"
    using assms by (simp add: q_def round_half_up_nonneg pos_imp_zdiv_nonneg_iff)
  ultimately have q: "0 \<le> q" "q \<le> v" "in64 q" using assms(1,2) by (auto intro: in64_nonneg_le)
  moreover have "Split v n = Inr q"
    using assms q by (simp add: Split_def DivideByUnits_def maxScale_def Let_def divRoundHalfUp_eq
        flip: q_def)
  ultimately show thesis using that by blast
qed

lemma calendar_day_multiple:
  assumes "isCalendarDay a" "isCalendarDay b"
  shows "instant b - instant a = (instant b - instant a) div dayDuration * dayDuration"
proof -
  have "dayDuration dvd instant b - instant a"
    using assms by (intro dvd_diff) (simp_all add: isCalendarDay_def dvd_eq_mod_eq_0)
  then show ?thesis by simp
qed

lemma daysBetween_exact:
  assumes "isCalendarDay a" "isCalendarDay b" "instant a \<le> instant b"
    and "instant b - instant a \<le> max_int64"
  shows "instant b = instant a + daysBetween a b * dayDuration" and "0 \<le> daysBetween a b"
proof -
  have "in64 (instant b - instant a)" using assms(3,4) by (simp add: int64_defs)
  then have "daysBetween a b = (instant b - instant a) div dayDuration"
    using assms(3) by (simp add: daysBetween_def time_sub_exact dayDuration_def)
  then show "instant b = instant a + daysBetween a b * dayDuration" "0 \<le> daysBetween a b"
    using calendar_day_multiple [OF assms(1,2)] assms(3) by (simp_all add: dayDuration_def)
qed

abbreviation refund_index :: "AmortizationTerm \<Rightarrow> int" where
  "refund_index t \<equiv> daysBetween (StartsOn t) (RefundedOn t) + 1"

lemma valid_dates:
  assumes "sound_term t"
  shows "isCalendarDay (StartsOn t)" "isCalendarDay (ExpiresOn t)"
    and "instant (StartsOn t) \<le> instant (ExpiresOn t)"
    and "instant (ExpiresOn t) - instant (StartsOn t) \<le> max_int64"
    and "\<not> zero_date d \<Longrightarrow> d \<in> {RefundedOn t, TerminatedOn t} \<Longrightarrow> isCalendarDay d"
    and "\<not> zero_date (TerminatedOn t) \<Longrightarrow> instant (StartsOn t) \<le> instant (TerminatedOn t)
      \<and> instant (TerminatedOn t) \<le> instant (ExpiresOn t)"
    and "RefundedMinor t \<noteq> 0 \<Longrightarrow> \<not> zero_date (RefundedOn t)
      \<and> instant (StartsOn t) \<le> instant (RefundedOn t)
      \<and> instant (RefundedOn t) \<le> instant (ExpiresOn t)"
  using assms
  by (auto simp: sound_term_def AmortizationTerm_Validate_def validateRefundDate_def
      result_simps split: if_splits)

lemma TotalDays_exact:
  assumes "sound_term t"
  shows "instant (ExpiresOn t) = instant (StartsOn t) + (TotalDays t - 1) * dayDuration"
    and "1 \<le> TotalDays t"
  using daysBetween_exact [OF valid_dates(1,2,3,4) [OF assms]] by (simp_all add: TotalDays_def)

lemma within_term:
  assumes t: "sound_term t" and d: "isCalendarDay d"
    and "instant (StartsOn t) \<le> instant d" "instant d \<le> instant (ExpiresOn t)"
  shows "instant d = instant (StartsOn t) + daysBetween (StartsOn t) d * dayDuration"
    and "0 \<le> daysBetween (StartsOn t) d" "daysBetween (StartsOn t) d < TotalDays t"
proof -
  have "instant d - instant (StartsOn t) \<le> max_int64" using valid_dates(4) [OF t] assms(4) by simp
  then show *: "instant d = instant (StartsOn t) + daysBetween (StartsOn t) d * dayDuration"
    "0 \<le> daysBetween (StartsOn t) d"
    using daysBetween_exact [OF valid_dates(1) [OF t] d assms(3)] by auto
  then have "daysBetween (StartsOn t) d * dayDuration \<le> (TotalDays t - 1) * dayDuration"
    using TotalDays_exact(1) [OF t] assms(4) by simp
  then show "daysBetween (StartsOn t) d < TotalDays t" by (simp add: dayDuration_def)
qed

lemma refund_index_bounds:
  assumes "sound_term t" "RefundedMinor t \<noteq> 0"
  shows "1 \<le> refund_index t" "refund_index t \<le> TotalDays t"
  using within_term [OF assms(1) valid_dates(5) [OF assms(1), of "RefundedOn t"]]
    valid_dates(7) [OF assms(1,2)] by auto

lemma shares_of_valid_term:
  assumes "sound_term t"
  obtains g s where "grossShareMinor t = Inr g" "0 \<le> g" "in64 g"
    and "ShareMinor t = Inr s" "0 \<le> s" "in64 s" "RefundedMinor t = 0 \<Longrightarrow> s = g"
proof -
  obtain G where G: "GrossBasisMinor t = Inr G" and "0 < ShareCount t"
    and b: "0 \<le> PaidMinor t" "0 \<le> SurchargeMinor t" "0 \<le> RefundedMinor t" "RefundedMinor t \<le> G"
    and i: "in64 (PaidMinor t)" "in64 (SurchargeMinor t)" "in64 (RefundedMinor t)"
    using assms
    by (auto simp: sound_term_def AmortizationTerm_Validate_def result_simps not_less split: if_splits)
  have "in64 (max_int64 - SurchargeMinor t)" using b i by (simp add: int64_defs)
  then have "in64 (PaidMinor t + SurchargeMinor t)" and "G = PaidMinor t + SurchargeMinor t"
    using G b i by (auto simp: GrossBasisMinor_def int64_defs split: if_splits)
  then have r: "0 \<le> G" "in64 G" "0 \<le> G - RefundedMinor t" "in64 (G - RefundedMinor t)"
    using b by (auto simp: int64_defs)
  obtain g where g: "Split G (ShareCount t) = Inr g" "0 \<le> g" "in64 g"
    using Split_nonneg [OF r(1,2) \<open>0 < ShareCount t\<close>] by blast
  obtain s where s: "Split (G - RefundedMinor t) (ShareCount t) = Inr s" "0 \<le> s" "in64 s"
    using Split_nonneg [OF r(3,4) \<open>0 < ShareCount t\<close>] by blast
  have "grossShareMinor t = Inr g" by (simp add: grossShareMinor_def G g(1))
  moreover have "ShareMinor t = Inr s" by (simp add: ShareMinor_def NetBasisMinor_def G r(4) s(1))
  moreover have "RefundedMinor t = 0 \<Longrightarrow> s = g" using g(1) s(1) by simp
  ultimately show thesis using that g(2,3) s(2,3) by blast
qed

lemma gross_share:
  assumes t: "sound_term t" and s: "ShareMinor t = Inr s"
  shows "\<exists>g. grossShareMinor t = Inr g \<and> in64 g \<and> 0 \<le> g \<and> in64 s \<and> 0 \<le> s
    \<and> (RefundedMinor t = 0 \<longrightarrow> s = g)"
proof (rule shares_of_valid_term [OF t])
  fix g s'
  assume "grossShareMinor t = Inr g" "0 \<le> g" "in64 g" "ShareMinor t = Inr s'" "0 \<le> s'" "in64 s'"
    and "RefundedMinor t = 0 \<Longrightarrow> s' = g"
  then show ?thesis using s by simp
qed

section \<open>The schedule as instalment plans\<close>

lemma thru_value:
  assumes "in64 v" "0 \<le> k" "k \<le> n" "0 < n"
  shows "InstallmentsThrough v n k = Inr (amount (InstallmentsThrough v n k))"
  using assms by (simp add: InstallmentsThrough_def)

lemma inst_value:
  assumes "1 \<le> k" "k \<le> n"
  shows "Installment v n k = Inr (amount (Installment v n k))"
  using assms by (simp add: Installment_def Let_def)

lemma same_sign_le:
  fixes x v :: int
  assumes "\<bar>x\<bar> \<le> \<bar>v\<bar>" "0 \<le> x * v"
  shows "0 \<le> v \<and> 0 \<le> x \<and> x \<le> v \<or> v \<le> 0 \<and> v \<le> x \<and> x \<le> 0"
proof (cases v "0::int" rule: linorder_cases)
  case less
  then have "x \<le> 0" using assms(2) by (simp add: zero_le_mult_iff)
  then show ?thesis using less assms(1) by simp
next
  case greater
  then have "0 \<le> x" using assms(2) by (simp add: zero_le_mult_iff)
  then show ?thesis using greater assms(1) by simp
qed (use assms in simp)

lemmas thru_between = same_sign_le [OF plan.thru_bound [THEN conjunct1] plan.thru_bound [THEN conjunct2]]

lemma amortized_first_segment:
  assumes g: "grossShareMinor t = Inr g" "in64 g" and j: "0 \<le> j" "j \<le> TotalDays t" "0 < TotalDays t"
    and seg: "RefundedMinor t = 0 \<or> j < refund_index t"
  shows "amortizedThrough t j = Inr (amount (InstallmentsThrough g (TotalDays t) j))"
proof (cases "j = 0")
  case True
  then show ?thesis using plan.thru_zero [OF j(3) g(2)] by (simp add: amortizedThrough_def)
next
  case False
  then have "lift_money (InstallmentsThrough g (TotalDays t) j) =
      Inr (amount (InstallmentsThrough g (TotalDays t) j))"
    using thru_value [OF g(2) j] by (metis lift_money_simps(1))
  then show ?thesis using False j g(1) seg by (auto simp: amortizedThrough_def Let_def)
qed

lemma scheduled_first_segment:
  assumes g: "grossShareMinor t = Inr g" and j: "1 \<le> j" "j \<le> TotalDays t"
    and seg: "RefundedMinor t = 0 \<or> j < refund_index t"
  shows "scheduledDay t j = Inr (amount (Installment g (TotalDays t) j))"
proof -
  have "lift_money (Installment g (TotalDays t) j) = Inr (amount (Installment g (TotalDays t) j))"
    using inst_value [OF j] by (metis lift_money_simps(1))
  then show ?thesis using g seg by (auto simp: scheduledDay_def Let_def)
qed

definition refund_before :: "AmortizationTerm \<Rightarrow> int64 \<Rightarrow> int64" where
  "refund_before t g = amount (InstallmentsThrough g (TotalDays t) (refund_index t - 1))"

lemma refund_before_bounds:
  assumes t: "sound_term t" "RefundedMinor t \<noteq> 0" and g: "in64 g" "0 \<le> g" and s: "in64 s" "0 \<le> s"
  shows "0 \<le> refund_before t g" "refund_before t g \<le> g" "in64 (s - refund_before t g)"
    "in64 (refund_before t g)"
proof -
  have "0 \<le> refund_index t - 1" "refund_index t - 1 \<le> TotalDays t" "0 < TotalDays t"
    using refund_index_bounds [OF t] by simp_all
  from thru_between [OF g(1) this g(1) this] show b: "0 \<le> refund_before t g" "refund_before t g \<le> g"
    using g(2) by (auto simp: refund_before_def)
  show "in64 (s - refund_before t g)" "in64 (refund_before t g)"
    using b g s by (simp_all add: int64_defs)
qed

lemma refundSplit_value:
  assumes t: "sound_term t" "RefundedMinor t \<noteq> 0" and g: "in64 g" "0 \<le> g"
    and s: "ShareMinor t = Inr s" "in64 s" "0 \<le> s"
  shows "refundSplit t g (TotalDays t) (refund_index t) =
    Inr (refund_before t g, s - refund_before t g)"
proof -
  have "0 \<le> refund_index t - 1" "refund_index t - 1 \<le> TotalDays t" "0 < TotalDays t"
    using refund_index_bounds [OF t] by simp_all
  from thru_value [OF g(1) this]
  have "lift_money (InstallmentsThrough g (TotalDays t) (refund_index t - 1)) = Inr (refund_before t g)"
    unfolding refund_before_def by (metis lift_money_simps(1))
  then show ?thesis using s(1) refund_before_bounds [OF t g s(2,3)] by (simp add: refundSplit_def)
qed

lemma amortized_second_segment:
  assumes t: "sound_term t" "RefundedMinor t \<noteq> 0"
    and g: "grossShareMinor t = Inr g" "in64 g" "0 \<le> g" and s: "ShareMinor t = Inr s" "in64 s" "0 \<le> s"
    and j: "refund_index t - 1 \<le> j" "j \<le> TotalDays t"
  shows "amortizedThrough t j = Inr (refund_before t g +
    amount (InstallmentsThrough (s - refund_before t g) (TotalDays t - refund_index t + 1)
      (j - refund_index t + 1)))" (is "_ = Inr (?b + amount (InstallmentsThrough ?rem ?M ?j))")
proof -
  note r = refund_index_bounds [OF t] and b = refund_before_bounds [OF t g(2,3) s(2,3)]
  have M: "0 < ?M" "0 \<le> ?j" "?j \<le> ?M" using r j by auto
  show ?thesis
  proof (cases "j < refund_index t")
    case True
    then have "?j = 0" and "j = refund_index t - 1" using j by auto
    then have "amortizedThrough t j = Inr ?b"
      using amortized_first_segment [OF g(1,2), of j] r True by (simp add: refund_before_def)
    then show ?thesis using plan.thru_zero [OF M(1) b(3)] \<open>?j = 0\<close> by simp
  next
    case False
    have x: "lift_money (InstallmentsThrough ?rem ?M ?j) = Inr (amount (InstallmentsThrough ?rem ?M ?j))"
      using thru_value [OF b(3) M(2,3,1)] by (metis lift_money_simps(1))
    have "in64 (?b + amount (InstallmentsThrough ?rem ?M ?j))"
      using thru_between [OF b(3) M(2,3,1) b(3) M(2,3,1)] b(1,4) s(2,3)
      by (auto simp: int64_defs)
    then show ?thesis
      using False j r g(1) t(2) x refundSplit_value [OF t g(2,3) s]
      by (simp add: amortizedThrough_def Let_def)
  qed
qed

lemma scheduled_second_segment:
  assumes t: "sound_term t" "RefundedMinor t \<noteq> 0"
    and g: "grossShareMinor t = Inr g" "in64 g" "0 \<le> g" and s: "ShareMinor t = Inr s" "in64 s" "0 \<le> s"
    and j: "refund_index t \<le> j" "j \<le> TotalDays t"
  shows "scheduledDay t j =
    Inr (amount (Installment (s - refund_before t g) (TotalDays t - refund_index t + 1)
      (j - refund_index t + 1)))" (is "_ = Inr (amount (Installment ?rem ?M ?j))")
proof -
  have "1 \<le> ?j" "?j \<le> ?M" using j by auto
  then have "lift_money (Installment ?rem ?M ?j) = Inr (amount (Installment ?rem ?M ?j))"
    using inst_value by (metis lift_money_simps(1))
  then show ?thesis
    using j g(1) t(2) refundSplit_value [OF t g(2,3) s] by (simp add: scheduledDay_def Let_def)
qed

text \<open>
  One day further: the amount of day \<open>k\<close> is what the sum of the first \<open>k\<close> days adds to
  the sum of the first \<open>k - 1\<close>, on either side of a refund, and the last sum is the share.
\<close>

lemma amortizedThrough_step:
  assumes t: "sound_term t" and s: "ShareMinor t = Inr s" and k: "1 \<le> k" "k \<le> TotalDays t"
  shows "\<exists>a v. amortizedThrough t (k - 1) = Inr a \<and> scheduledDay t k = Inr v
    \<and> amortizedThrough t k = Inr (a + v)"
proof -
  obtain g where g: "grossShareMinor t = Inr g" "in64 g" "0 \<le> g"
    and s0: "in64 s" "0 \<le> s"
    using gross_share [OF t s] by blast
  show ?thesis
  proof (cases "RefundedMinor t = 0 \<or> k < refund_index t")
    case True
    then have True': "RefundedMinor t = 0 \<or> k - 1 < refund_index t" by auto
    have "InstallmentsThrough g (TotalDays t) k = Inr (amount (InstallmentsThrough g (TotalDays t) (k - 1))
        + amount (Installment g (TotalDays t) k))"
      by (rule plan.thru_step [OF g(2) k])
    then show ?thesis
      using amortized_first_segment [OF g(1,2) _ _ _ True] amortized_first_segment [OF g(1,2) _ _ _ True']
        scheduled_first_segment [OF g(1) k True] k by simp
  next
    case False
    let ?rem = "s - refund_before t g" and ?M = "TotalDays t - refund_index t + 1"
      and ?j = "k - refund_index t + 1"
    have R: "RefundedMinor t \<noteq> 0" and j: "refund_index t \<le> k" using False by auto
    note b = refund_before_bounds [OF t R g(2,3) s0]
    have "InstallmentsThrough ?rem ?M ?j = Inr (amount (InstallmentsThrough ?rem ?M (?j - 1))
        + amount (Installment ?rem ?M ?j))"
      using j k by (intro plan.thru_step [OF b(3)]) auto
    then show ?thesis
      using amortized_second_segment [OF t R g s s0, of k] k j
        amortized_second_segment [OF t R g s s0, of "k - 1"]
        scheduled_second_segment [OF t R g s s0 j k(2)]
      by (simp add: algebra_simps)
  qed
qed

lemma amortizedThrough_all:
  assumes t: "sound_term t" and s: "ShareMinor t = Inr s"
  shows "amortizedThrough t (TotalDays t) = Inr s"
proof -
  obtain g where g: "grossShareMinor t = Inr g" "in64 g" "0 \<le> g"
    and s0: "in64 s" "0 \<le> s" and eq: "RefundedMinor t = 0 \<Longrightarrow> s = g"
    using gross_share [OF t s] by blast
  have N: "0 < TotalDays t" using TotalDays_exact(2) [OF t] by simp
  show ?thesis
  proof (cases "RefundedMinor t = 0")
    case True
    then show ?thesis
      using amortized_first_segment [OF g(1,2), of "TotalDays t"] N eq plan.thru_total [OF N g(2)]
      by simp
  next
    case False
    note r = refund_index_bounds [OF t False] and b = refund_before_bounds [OF t False g(2,3) s0]
    have "InstallmentsThrough (s - refund_before t g) (TotalDays t - refund_index t + 1)
        (TotalDays t - refund_index t + 1) = Inr (s - refund_before t g)"
      using r by (intro plan.thru_total [OF _ b(3)]) simp
    then show ?thesis
      using amortized_second_segment [OF t False g s s0, of "TotalDays t"] r by simp
  qed
qed

lemma amortizedThrough_nonneg:
  assumes t: "sound_term t" and s: "ShareMinor t = Inr s" and k: "0 \<le> k" "k \<le> TotalDays t"
  shows "\<exists>a. amortizedThrough t k = Inr a \<and> 0 \<le> a \<and> in64 a"
proof -
  obtain g where g: "grossShareMinor t = Inr g" "in64 g" "0 \<le> g" and s0: "in64 s" "0 \<le> s"
    using gross_share [OF t s] by blast
  have N: "0 < TotalDays t" using TotalDays_exact(2) [OF t] by simp
  show ?thesis
  proof (cases "RefundedMinor t = 0 \<or> k < refund_index t")
    case True
    then show ?thesis
      using amortized_first_segment [OF g(1,2) k N True] thru_between [OF g(2) k N g(2) k N] g(2,3)
      by (auto simp: int64_defs)
  next
    case False
    let ?M = "TotalDays t - refund_index t + 1" and ?j = "k - refund_index t + 1"
    have R: "RefundedMinor t \<noteq> 0" and j: "0 \<le> ?j" "?j \<le> ?M" "0 < ?M" using False k by auto
    note b = refund_before_bounds [OF t R g(2,3) s0]
    show ?thesis
      using amortized_second_segment [OF t R g s s0, of k] False k
        thru_between [OF b(3) j b(3) j] b(1,4) s0
      by (auto simp: int64_defs)
  qed
qed

lemma scheduled_prefix_sum:
  assumes t: "sound_term t" and s: "ShareMinor t = Inr s" and k: "int k \<le> TotalDays t"
  shows "(\<Sum>d = 0..<int k. amount (scheduledDay t (d + 1))) = amount (amortizedThrough t (int k))"
  using k
proof (induction k)
  case 0
  then show ?case by (simp add: amortizedThrough_def amount_def)
next
  case (Suc k)
  obtain a v where step: "amortizedThrough t (int k) = Inr a" "scheduledDay t (int k + 1) = Inr v"
    "amortizedThrough t (int (Suc k)) = Inr (a + v)"
    using amortizedThrough_step [OF t s, of "int (Suc k)"] Suc.prems by (auto simp: add.commute)
  have "{0..<int (Suc k)} = insert (int k) {0..<int k}" by auto
  then show ?case using Suc step by (simp add: add.commute)
qed

text \<open>The days of the term, their amounts, and the days before a termination.\<close>

definition charged :: "AmortizationTerm \<Rightarrow> int \<Rightarrow> int64" where
  "charged t d = (case DailyMinor t (day_at t d) of Inr (v, True) \<Rightarrow> v | _ \<Rightarrow> 0)"

definition covered_days :: "AmortizationTerm \<Rightarrow> int" where
  "covered_days t = (if zero_date (TerminatedOn t) then TotalDays t
     else daysBetween (StartsOn t) (TerminatedOn t))"

lemma day_at_in_term:
  assumes t: "sound_term t" and d: "0 \<le> d" "d < TotalDays t"
  shows "daysBetween (StartsOn t) (day_at t d) = d"
    and "instant (StartsOn t) \<le> instant (day_at t d)" "instant (day_at t d) \<le> instant (ExpiresOn t)"
proof -
  have "d * dayDuration \<le> (TotalDays t - 1) * dayDuration"
    using d by (intro mult_right_mono) (simp_all add: dayDuration_def)
  then show le: "instant (StartsOn t) \<le> instant (day_at t d)" "instant (day_at t d) \<le> instant (ExpiresOn t)"
    using d TotalDays_exact(1) [OF t] by (simp_all add: day_at_def dayDuration_def)
  then have "in64 (d * dayDuration)"
    using valid_dates(4) [OF t] by (simp add: day_at_def int64_defs)
  then show "daysBetween (StartsOn t) (day_at t d) = d"
    using d by (simp add: daysBetween_def day_at_def time_sub_exact dayDuration_def)
qed

lemma covered_days_bounds:
  assumes t: "sound_term t"
  shows "0 \<le> covered_days t" "covered_days t \<le> TotalDays t"
    and "0 \<le> d \<Longrightarrow> d < TotalDays t \<Longrightarrow> Covers t (day_at t d) \<longleftrightarrow> d < covered_days t"
proof -
  have ends: "0 \<le> daysBetween (StartsOn t) (TerminatedOn t)"
    "daysBetween (StartsOn t) (TerminatedOn t) < TotalDays t"
    "instant (TerminatedOn t) = instant (StartsOn t) + daysBetween (StartsOn t) (TerminatedOn t) * dayDuration"
    if "\<not> zero_date (TerminatedOn t)"
    using within_term [OF t valid_dates(5) [OF t that]] valid_dates(6) [OF t that] by auto
  show "0 \<le> covered_days t" "covered_days t \<le> TotalDays t"
    using ends TotalDays_exact(2) [OF t] by (auto simp: covered_days_def)
  show "Covers t (day_at t d) \<longleftrightarrow> d < covered_days t" if d: "0 \<le> d" "d < TotalDays t"
    using day_at_in_term(2,3) [OF t d] ends d
    by (auto simp: Covers_def covered_days_def day_at_def dayDuration_def)
qed

lemma DailyMinor_day:
  assumes t: "sound_term t" and d: "0 \<le> d" "d < TotalDays t"
  shows "DailyMinor t (day_at t d) =
    (if d < covered_days t then Inr (amount (scheduledDay t (d + 1)), True) else Inr (0, False))"
proof -
  have ok: "AmortizationTerm_Validate t = Inr ()" using t by (simp add: sound_term_def)
  obtain s where s: "ShareMinor t = Inr s" by (rule shares_of_valid_term [OF t])
  obtain v where "scheduledDay t (d + 1) = Inr v"
    using amortizedThrough_step [OF t s, of "d + 1"] d by auto
  then show ?thesis
    using ok covered_days_bounds(3) [OF t d] day_at_in_term(1) [OF t d] by (simp add: DailyMinor_def)
qed

lemma charged_sum:
  assumes t: "sound_term t" and s: "ShareMinor t = Inr s"
  shows "(\<Sum>d = 0..<TotalDays t. charged t d) = amount (amortizedThrough t (covered_days t))"
proof -
  have c: "0 \<le> covered_days t" "covered_days t \<le> TotalDays t"
    using covered_days_bounds [OF t] by auto
  have "(\<Sum>d = 0..<TotalDays t. charged t d) =
      (\<Sum>d = 0..<TotalDays t. if d < covered_days t then amount (scheduledDay t (d + 1)) else 0)"
    by (rule sum.cong) (simp_all add: charged_def DailyMinor_day [OF t])
  also have "\<dots> = (\<Sum>d = 0..<covered_days t. amount (scheduledDay t (d + 1)))"
    using c by (intro sum.mono_neutral_cong_right) auto
  also have "\<dots> = amount (amortizedThrough t (covered_days t))"
    using scheduled_prefix_sum [OF t s, of "nat (covered_days t)"] c by simp
  finally show ?thesis .
qed

section \<open>Nothing of a payment is lost\<close>

definition example_term :: AmortizationTerm where
  "example_term = \<lparr>PaidMinor = 100000000, SurchargeMinor = 1000, RefundedMinor = 40000000,
     RefundedOn = \<lparr>instant = 739809 * dayDuration, in_utc = True\<rparr>,
     StartsOn = \<lparr>instant = 739799 * dayDuration, in_utc = True\<rparr>,
     ExpiresOn = \<lparr>instant = 739829 * dayDuration, in_utc = True\<rparr>,
     TerminatedOn = \<lparr>instant = 739820 * dayDuration, in_utc = True\<rparr>, ShareCount = 3\<rparr>"

lemma example_term_sound: "sound_term example_term"
  by (simp add: sound_term_def example_term_def AmortizationTerm_Validate_def validateRefundDate_def
      GrossBasisMinor_def isCalendarDay_def zero_date_def int64_defs)



text \<open>
  A refund never rewrites an amount already charged: on every day before the refund takes
  effect the daily amount is the one of the same term with no refund, whatever the size of the
  refund.
\<close>

theorem refund_keeps_past_days:
  assumes t: "sound_term t" and d: "0 \<le> d" "d < daysBetween (StartsOn t) (RefundedOn t)"
    and r: "RefundedMinor t \<noteq> 0"
  shows "DailyMinor t (day_at t d) =
    DailyMinor (t\<lparr>RefundedMinor := 0, RefundedOn := \<lparr>instant = 0, in_utc = True\<rparr>\<rparr>) (day_at t d)"
    (is "_ = DailyMinor ?u _")
proof -
  have ok: "AmortizationTerm_Validate t = Inr ()" using t by (simp add: sound_term_def)
  then have ok': "AmortizationTerm_Validate ?u = Inr ()"
    by (auto simp: AmortizationTerm_Validate_def validateRefundDate_def GrossBasisMinor_def
        zero_date_def result_simps split: if_splits)
  have N: "d < TotalDays t" using refund_index_bounds [OF t r] d by simp
  have "scheduledDay ?u (d + 1) = scheduledDay t (d + 1)"
    using d r by (simp add: scheduledDay_def grossShareMinor_def GrossBasisMinor_def TotalDays_def
        Let_def cong: rbind_cong)
  then show ?thesis
    using ok ok' day_at_in_term(1) [OF t d(1) N] by (simp add: DailyMinor_def Covers_def)
qed

theorem refund_keeps_past_days_witness:
  "DailyMinor example_term (day_at example_term 3) =
    DailyMinor (example_term\<lparr>RefundedMinor := 0, RefundedOn := \<lparr>instant = 0, in_utc = True\<rparr>\<rparr>)
      (day_at example_term 3)"
  by (rule refund_keeps_past_days [OF example_term_sound])
     (simp_all add: example_term_def daysBetween_def time_sub_def int64_defs)

end
