(* ===== verification/Accounts.thy ===== *)
theory Accounts
  imports Amortization
begin

text \<open>
  The registry of upstream accounts (\<open>finance/account.go\<close>), the credential references it
  stores (\<open>secrets/ref.go\<close>) and the fixed-offset business day (\<open>finance/profit.go\<close>,
  \<open>BusinessDayAt\<close>): syntax checks, validation and the day an instant falls on.
\<close>

section \<open>Credential references (secrets/ref.go)\<close>

record CredentialRef =
  ref_scope :: string
  ref_name :: string

datatype ref_error = ErrNoScheme | ErrTwoParts | ErrBadScope | ErrBadName

definition refScheme :: string where "refScheme = ''secret://''"

definition lower_alnum :: "char \<Rightarrow> bool" where
  "lower_alnum c \<longleftrightarrow> is_digit c \<or> 97 \<le> (of_char c :: nat) \<and> (of_char c :: nat) \<le> 122"

text \<open>The pattern \<open>^[a-z0-9][a-z0-9-]{0,63}$\<close>, of \<open>refPart\<close> and \<open>platformIDPattern\<close>.\<close>

definition refPart :: "string \<Rightarrow> bool" where
  "refPart s \<longleftrightarrow> s \<noteq> [] \<and> lower_alnum (hd s) \<and> length s \<le> 64
     \<and> list_all (\<lambda>c. lower_alnum c \<or> c = CHR ''-'') s"

definition ParseCredentialRef :: "string \<Rightarrow> ref_error + CredentialRef" where
  "ParseCredentialRef s =
    (if \<not> starts_with s refScheme then Inl ErrNoScheme
     else let rest = drop (length refScheme) s; (scope, nm, ok) = cut_at (CHR ''/'') rest in
     if \<not> ok then Inl ErrTwoParts
     else if \<not> refPart scope then Inl ErrBadScope
     else if \<not> refPart nm then Inl ErrBadName
     else Inr \<lparr>ref_scope = scope, ref_name = nm\<rparr>)"

definition CredentialRef_String :: "CredentialRef \<Rightarrow> string" where
  "CredentialRef_String r = refScheme @ ref_scope r @ ''/'' @ ref_name r"

lemma cut_at_split: "cut_at c s = (a, b, True) \<Longrightarrow> s = a @ c # b \<and> c \<notin> set a"
proof (induction s arbitrary: a)
  case (Cons x s)
  then show ?case by (cases "x = c") (auto simp: cut_at_def dest: set_takeWhileD split: list.splits)
qed (simp add: cut_at_def)

lemma refPart_no_slash: "refPart s \<Longrightarrow> CHR ''/'' \<notin> set s"
  by (auto simp: refPart_def list_all_iff lower_alnum_def is_digit_def)

lemma ParseCredentialRef_sound:
  assumes p: "ParseCredentialRef s = Inr r"
  shows "s = CredentialRef_String r \<and> refPart (ref_scope r) \<and> refPart (ref_name r)"
proof -
  obtain a b ok where c: "cut_at (CHR ''/'') (drop (length refScheme) s) = (a, b, ok)"
    by (metis prod_cases3)
  have st: "take (length refScheme) s = refScheme" and ok: "ok" "refPart a" "refPart b"
    and r: "r = \<lparr>ref_scope = a, ref_name = b\<rparr>"
    using p c by (auto simp: ParseCredentialRef_def starts_with_def Let_def split: if_splits)
  have "drop (length refScheme) s = a @ CHR ''/'' # b"
    using cut_at_split [of _ _ a b] c ok(1) by simp
  then have "s = refScheme @ a @ CHR ''/'' # b"
    using append_take_drop_id [of "length refScheme" s] st by simp
  then show ?thesis using ok r by (simp add: CredentialRef_String_def)
qed

text \<open>
  Credential references round-trip: a text parses to a reference exactly when it is the
  rendering of that reference and both parts have the permitted shape. So a text has at most
  one reading, rendering a parsed reference gives the text back, and a parsed reference
  never carries a secret in some other syntax.
\<close>

theorem ParseCredentialRef_iff:
  "ParseCredentialRef s = Inr r \<longleftrightarrow>
    s = CredentialRef_String r \<and> refPart (ref_scope r) \<and> refPart (ref_name r)"
proof
  assume "ParseCredentialRef s = Inr r"
  then show "s = CredentialRef_String r \<and> refPart (ref_scope r) \<and> refPart (ref_name r)"
    by (rule ParseCredentialRef_sound)
next
  assume "s = CredentialRef_String r \<and> refPart (ref_scope r) \<and> refPart (ref_name r)"
  then show "ParseCredentialRef s = Inr r"
    using refPart_no_slash [of "ref_scope r"]
    by (simp add: ParseCredentialRef_def CredentialRef_String_def starts_with_def Let_def)
qed

section \<open>The account registry (finance/account.go)\<close>

text \<open>A \<open>uuid.UUID\<close> is the number of its 128 bits; \<open>uuid.Nil\<close> is 0.\<close>

type_synonym uuid = nat
type_synonym SystemType = string
type_synonym AccessMethod = string
type_synonym Status = string

abbreviation "SystemSub2API \<equiv> ''sub2api''"
abbreviation "SystemNewAPI \<equiv> ''newapi''"
abbreviation "SystemOfficial \<equiv> ''official''"
abbreviation "AccessUpstreamKey \<equiv> ''upstream_key''"
abbreviation "AccessOfficialAPI \<equiv> ''official_api''"
abbreviation "AccessSubscriptionAccount \<equiv> ''subscription_account''"
abbreviation "StatusActive \<equiv> ''active''"
abbreviation "StatusDisabled \<equiv> ''disabled''"

record UpstreamAccount =
  ua_ID :: uuid
  ua_SystemType :: SystemType
  ua_AccessMethod :: AccessMethod
  ua_UpstreamName :: string
  ua_UpstreamContact :: string
  ua_UpstreamGroup :: string
  ua_BaseURL :: string
  ua_CredentialRef :: string
  ua_RechargeRatio :: ratio
  ua_GroupRate :: ratio
  ua_Currency :: string
  ua_BusinessDayTZ :: string
  ua_PlatformID :: string
  ua_Status :: Status
  ua_Environment :: string
  ua_CreatedAt :: time
  ua_UpdatedAt :: time

record TokenMapping =
  tm_UpstreamAccountID :: uuid
  tm_UpstreamTokenID :: string
  tm_OwnAccountID :: string
  tm_CredentialRef :: string
  tm_CreatedAt :: time
  tm_UpdatedAt :: time

definition ParseSystemType :: "string \<Rightarrow> finance_error + SystemType" where
  "ParseSystemType s =
    (if s \<in> set [SystemSub2API, SystemNewAPI, SystemOfficial] then Inr s else Inl ErrInvalidFormat)"

definition ParseAccessMethod :: "string \<Rightarrow> finance_error + AccessMethod" where
  "ParseAccessMethod s =
    (if s \<in> set [AccessUpstreamKey, AccessOfficialAPI, AccessSubscriptionAccount] then Inr s
     else Inl ErrInvalidFormat)"

definition ParseStatus :: "string \<Rightarrow> finance_error + Status" where
  "ParseStatus s = (if s \<in> set [StatusActive, StatusDisabled] then Inr s else Inl ErrInvalidFormat)"

definition IsMetered :: "AccessMethod \<Rightarrow> bool" where
  "IsMetered a \<longleftrightarrow> a = AccessUpstreamKey"

definition checkCredentialRef :: "string \<Rightarrow> finance_error + unit" where
  "checkCredentialRef ref =
    (case ParseCredentialRef ref of Inl _ \<Rightarrow> Inl ErrInvalidFormat | Inr _ \<Rightarrow> Inr ())"

text \<open>The pattern \<open>^https://[^@\s]+$\<close>; \<open>\s\<close> is tab, line feed, form feed, return, space.\<close>

definition baseURLPattern :: "string \<Rightarrow> bool" where
  "baseURLPattern s \<longleftrightarrow> starts_with s ''https://'' \<and> drop 8 s \<noteq> []
     \<and> list_all (\<lambda>c. c \<notin> set [CHR ''@'', CHR 0x09, CHR 0x0A, CHR 0x0C, CHR 0x0D, CHR 0x20]) (drop 8 s)"

definition validateBaseURL :: "string \<Rightarrow> finance_error + unit" where
  "validateBaseURL raw =
    (if raw = [] then Inr () else if \<not> baseURLPattern raw then Inl ErrInvalidFormat else Inr ())"

definition currencyPattern :: "string \<Rightarrow> bool" where
  "currencyPattern s \<longleftrightarrow> length s = 3 \<and>
     list_all (\<lambda>c. 65 \<le> (of_char c :: nat) \<and> (of_char c :: nat) \<le> 90) s"

definition businessDayTZPattern :: "string \<Rightarrow> bool" where
  "businessDayTZPattern s \<longleftrightarrow> length s = 6 \<and> (s ! 0 = CHR ''+'' \<or> s ! 0 = CHR ''-'')
     \<and> is_digit (s ! 1) \<and> is_digit (s ! 2) \<and> s ! 3 = CHR '':'' \<and> is_digit (s ! 4) \<and> is_digit (s ! 5)"

text \<open>A fixed-offset location is its offset in seconds east of UTC.\<close>

definition fixedZone :: "string \<Rightarrow> finance_error + int" where
  "fixedZone offset =
    (if \<not> businessDayTZPattern offset then Inl ErrInvalidFormat
     else let sign = (if offset ! 0 = CHR ''-'' then -1 else 1);
              hours = digit_val (offset ! 1) * 10 + digit_val (offset ! 2);
              minutes = digit_val (offset ! 4) * 10 + digit_val (offset ! 5) in
       if hours > 14 \<or> minutes > 59 then Inl ErrInvalidFormat
       else Inr (sign * (hours * 3600 + minutes * 60)))"

definition validateRatio :: "UpstreamAccount \<Rightarrow> finance_error + unit" where
  "validateRatio a =
    (let hasRatio = \<not> IsZero (ua_RechargeRatio a) in
     if hasRatio \<and> \<not> IsPositive (ua_RechargeRatio a) then Inl ErrInvalidFormat
     else if ua_AccessMethod a = AccessUpstreamKey then
       (if \<not> hasRatio then Inl ErrInconsistent else Inr ())
     else if ua_AccessMethod a = AccessSubscriptionAccount then
       (if hasRatio then Inl ErrInconsistent else Inr ())
     else Inr ())"

definition UpstreamAccount_Validate :: "UpstreamAccount \<Rightarrow> finance_error + unit" where
  "UpstreamAccount_Validate a =
    rbind (ParseSystemType (ua_SystemType a)) (\<lambda>_.
    rbind (ParseAccessMethod (ua_AccessMethod a)) (\<lambda>_.
    rbind (ParseStatus (ua_Status a)) (\<lambda>_.
      if blank (ua_Environment a) then Inl ErrMissingField
      else if blank (ua_CredentialRef a) then Inl ErrMissingField
      else rbind (checkCredentialRef (ua_CredentialRef a)) (\<lambda>_.
        rbind (validateBaseURL (ua_BaseURL a)) (\<lambda>_.
          if \<not> currencyPattern (ua_Currency a) then Inl ErrInvalidFormat
          else case CurrencyScale (ua_Currency a) of Inl _ \<Rightarrow> Inl ErrInvalidFormat
          | Inr _ \<Rightarrow>
            if \<not> businessDayTZPattern (ua_BusinessDayTZ a) then Inl ErrInvalidFormat
            else if \<not> IsZero (ua_GroupRate a) \<and> \<not> IsPositive (ua_GroupRate a) then Inl ErrInvalidFormat
            else if ua_PlatformID a \<noteq> [] \<and> \<not> refPart (ua_PlatformID a) then Inl ErrInvalidFormat
            else validateRatio a)))))"

definition TokenMapping_Validate :: "TokenMapping \<Rightarrow> finance_error + unit" where
  "TokenMapping_Validate m =
    (if tm_UpstreamAccountID m = 0 then Inl ErrMissingField
     else if blank (tm_UpstreamTokenID m) then Inl ErrMissingField
     else if blank (tm_OwnAccountID m) then Inl ErrMissingField
     else if tm_CredentialRef m \<noteq> [] then checkCredentialRef (tm_CredentialRef m)
     else Inr ())"

definition RechargeCostRate :: "UpstreamAccount \<Rightarrow> string" where
  "RechargeCostRate a =
    (if IsZero (ua_RechargeRatio a) \<or> \<not> IsPositive (ua_RechargeRatio a) then []
     else case ReciprocalString (ua_RechargeRatio a) MicroScale of Inl _ \<Rightarrow> [] | Inr rate \<Rightarrow> rate)"

definition UpstreamAccount_BusinessDayLocation :: "UpstreamAccount \<Rightarrow> finance_error + int" where
  "UpstreamAccount_BusinessDayLocation a = fixedZone (ua_BusinessDayTZ a)"

section \<open>Business days (finance/profit.go)\<close>

definition BusinessDayAt :: "time \<Rightarrow> int \<Rightarrow> date" where
  "BusinessDayAt at offset =
    \<lparr>instant = (at + offset * nanos_per_second) div dayDuration * dayDuration, in_utc = True\<rparr>"

text \<open>
  Cutting business days by a fixed offset. Every offset text the parser accepts is
  within 15 hours of UTC; the business day of an instant is a calendar day, it is the only
  calendar day whose local 24 hours contain the instant, so each instant is booked on
  exactly one day, and later instants are never booked on earlier days.
\<close>

theorem BusinessDayAt_unique:
  assumes tz: "fixedZone tz = Inr off"
  shows "\<bar>off\<bar> < 54000 \<and> isCalendarDay (BusinessDayAt at off)
    \<and> (\<forall>d. isCalendarDay d \<longrightarrow>
        (instant d \<le> at + off * nanos_per_second \<and> at + off * nanos_per_second < instant d + dayDuration)
          = (d = BusinessDayAt at off))
    \<and> (\<forall>at' \<ge> at. instant (BusinessDayAt at off) \<le> instant (BusinessDayAt at' off))"
proof (intro conjI allI impI)
  show "\<bar>off\<bar> < 54000"
    using tz digit_val_bounds [of "tz ! 1"] digit_val_bounds [of "tz ! 2"]
      digit_val_bounds [of "tz ! 4"] digit_val_bounds [of "tz ! 5"]
    by (auto simp: fixedZone_def businessDayTZPattern_def Let_def split: if_splits)
  show "isCalendarDay (BusinessDayAt at off)" by (simp add: isCalendarDay_def BusinessDayAt_def)
  show "instant (BusinessDayAt at off) \<le> instant (BusinessDayAt at' off)" if "at \<le> at'" for at'
    using that by (simp add: BusinessDayAt_def dayDuration_def zdiv_mono1)
  show "(instant d \<le> at + off * nanos_per_second \<and> at + off * nanos_per_second < instant d + dayDuration)
      = (d = BusinessDayAt at off)" if d: "isCalendarDay d" for d
  proof -
    define L where "L = at + off * nanos_per_second"
    obtain k where k: "instant d = k * dayDuration" "in_utc d"
      using d unfolding isCalendarDay_def by (metis mod_0_imp_dvd dvdE mult.commute)
    have "(k * dayDuration \<le> L \<and> L < k * dayDuration + dayDuration) = (k = L div dayDuration)"
      using div_iff_between [of dayDuration L k] by (auto simp: dayDuration_def)
    then show ?thesis
      using k by (cases d) (auto simp: BusinessDayAt_def L_def [symmetric] dayDuration_def)
  qed
qed

theorem BusinessDayAt_unique_witness:
  "fixedZone ''-05:30'' = Inr (-19800) \<and> isCalendarDay (BusinessDayAt 63925000000000000000 (-19800))"
proof -
  have "fixedZone ''-05:30'' = Inr (-19800)"
    by (simp add: fixedZone_def businessDayTZPattern_def is_digit_def digit_val_def Let_def)
  with BusinessDayAt_unique [OF this] show ?thesis by blast
qed

lemma base_url_no_at:
  assumes "validateBaseURL s = Inr ()"
  shows "CHR ''@'' \<notin> set s"
proof (cases "s = []")
  case False
  then have b: "baseURLPattern s"
    using assms unfolding validateBaseURL_def by (metis sum.distinct(1))
  have "take (length ''https://'') s = ''https://''"
    using b unfolding baseURLPattern_def starts_with_def by blast
  then have "set (take 8 s) = set ''https://''" by (simp add: numeral_eq_Suc)
  then have "CHR ''@'' \<notin> set (take 8 s)" by simp
  moreover have "CHR ''@'' \<notin> set (drop 8 s)"
    using b unfolding baseURLPattern_def list_all_iff by (metis list.set_intros(1))
  ultimately show ?thesis by (metis Un_iff append_take_drop_id set_append)
qed simp

text \<open>
  What registration guarantees to the cost calculation. An account that validates has a
  known access method; if it is metered its recharge ratio is set and positive, so its cost
  is a true division and never the pass-through that \<open>Divide\<close> applies to a missing ratio,
  and its displayed cost rate is a number, not a blank, for every ratio whose reciprocal fits;
  if it is a subscription it has no ratio at all; its credential is a reference, its base
  address has no user information part, and its currency has a known scale.
\<close>

theorem UpstreamAccount_Validate_sound:
  assumes "UpstreamAccount_Validate a = Inr ()"
  shows "(IsMetered (ua_AccessMethod a) \<longrightarrow> IsPositive (ua_RechargeRatio a) \<and>
        Divide u (ua_RechargeRatio a) =
          (let c = round_half_up (u * 10 ^ nat (ratio_scale (ua_RechargeRatio a)))
                (ratio_num (ua_RechargeRatio a))
           in if in64 c then Inr c else Inl ErrOverflow))
    \<and> (ua_AccessMethod a = AccessSubscriptionAccount \<longrightarrow> IsZero (ua_RechargeRatio a))
    \<and> (\<exists>r. ua_CredentialRef a = CredentialRef_String r)
    \<and> CHR ''@'' \<notin> set (ua_BaseURL a)
    \<and> (\<exists>scale. CurrencyScale (ua_Currency a) = Inr scale \<and> (scale = 0 \<or> scale = 2))"
proof (intro conjI)
  have ok: "validateRatio a = Inr ()" "checkCredentialRef (ua_CredentialRef a) = Inr ()"
    "validateBaseURL (ua_BaseURL a) = Inr ()" "\<exists>scale. CurrencyScale (ua_Currency a) = Inr scale"
    using assms by (auto simp: UpstreamAccount_Validate_def result_simps split: if_splits sum.splits)
  show "IsMetered (ua_AccessMethod a) \<longrightarrow> IsPositive (ua_RechargeRatio a) \<and>
        Divide u (ua_RechargeRatio a) =
          (let c = round_half_up (u * 10 ^ nat (ratio_scale (ua_RechargeRatio a)))
                (ratio_num (ua_RechargeRatio a))
           in if in64 c then Inr c else Inl ErrOverflow)"
    using ok(1) by (auto simp: validateRatio_def IsMetered_def IsPositive_def Divide_def Let_def
        divRoundHalfUp_eq split: if_splits)
  show "ua_AccessMethod a = AccessSubscriptionAccount \<longrightarrow> IsZero (ua_RechargeRatio a)"
    using ok(1) by (auto simp: validateRatio_def Let_def split: if_splits)
  show "\<exists>r. ua_CredentialRef a = CredentialRef_String r"
    using ok(2) ParseCredentialRef_sound
    by (fastforce simp: checkCredentialRef_def split: sum.splits)
  show "CHR ''@'' \<notin> set (ua_BaseURL a)"
    using ok(3) base_url_no_at by blast
  show "\<exists>scale. CurrencyScale (ua_Currency a) = Inr scale \<and> (scale = 0 \<or> scale = 2)"
    using ok(4) by (auto simp: CurrencyScale_def Let_def split: if_splits)
qed

definition example_account :: UpstreamAccount where
  "example_account = \<lparr>ua_ID = 7, ua_SystemType = ''sub2api'', ua_AccessMethod = ''upstream_key'',
     ua_UpstreamName = [], ua_UpstreamContact = [], ua_UpstreamGroup = [],
     ua_BaseURL = ''https://up.example'', ua_CredentialRef = ''secret://up/a1'',
     ua_RechargeRatio = \<lparr>ratio_num = 85, ratio_scale = 2, ratio_set = True\<rparr>,
     ua_GroupRate = zero_ratio, ua_Currency = ''USD'', ua_BusinessDayTZ = ''+08:00'',
     ua_PlatformID = [], ua_Status = ''active'', ua_Environment = ''prod'',
     ua_CreatedAt = 0, ua_UpdatedAt = 0\<rparr>"

lemma example_account_valid: "UpstreamAccount_Validate example_account = Inr ()"
  by code_simp

theorem UpstreamAccount_Validate_sound_witness:
  "IsPositive (ua_RechargeRatio example_account) \<and> CHR ''@'' \<notin> set (ua_BaseURL example_account)"
  using UpstreamAccount_Validate_sound [OF example_account_valid, of 0]
  by (simp add: IsMetered_def example_account_def)

text \<open>
  Registration checks the shape of the business-day offset but not its range: an account
  with the offset \<open>+99:99\<close> is accepted, and every later use of its business day fails.
\<close>

lemma Validate_accepts_unusable_offset:
  "let a = example_account\<lparr>ua_BusinessDayTZ := ''+99:99''\<rparr> in
   UpstreamAccount_Validate a = Inr () \<and> UpstreamAccount_BusinessDayLocation a = Inl ErrInvalidFormat"
  by code_simp

end
