(* ===== verification/Subscriptions.thy ===== *)
theory Subscriptions
  imports Accounts
begin

text \<open>
  The daily supply cost of a subscription account (\<open>finance/subscription.go\<close>): every batch
  covering the day contributes its instalment, every proxy asset referenced by a covering
  batch contributes once, however many batches point at it. The loop threads the result
  record and the set of proxies seen; the specification is a sum over the covering batches
  and over the distinct proxies.
\<close>

section \<open>Batches, proxies and the day's cost\<close>

record SubscriptionBatch =
  sb_ID :: uuid
  sb_UpstreamAccountID :: uuid
  sb_PaidMinor :: int64
  sb_SurchargeMinor :: int64
  sb_RefundedMinor :: int64
  sb_RefundedOn :: date
  sb_Currency :: string
  sb_StartsOn :: date
  sb_ExpiresOn :: date
  sb_TerminatedOn :: date
  sb_AccountCount :: int
  sb_ProxyAssetID :: uuid
  sb_CreatedAt :: time
  sb_UpdatedAt :: time

record ProxyAsset =
  px_ID :: uuid
  px_PaidMinor :: int64
  px_SurchargeMinor :: int64
  px_RefundedMinor :: int64
  px_RefundedOn :: date
  px_Currency :: string
  px_OpenedOn :: date
  px_ExpiresOn :: date
  px_TerminatedOn :: date
  px_SharedAccountCount :: int
  px_BuyPlatform :: string
  px_BuyAddress :: string
  px_CredentialRef :: string
  px_Mounted :: bool
  px_Environment :: string
  px_CreatedAt :: time
  px_UpdatedAt :: time

record AmortizableBatch =
  Batch :: SubscriptionBatch
  Proxy :: "ProxyAsset option"

record DailySupplyCost =
  CostMinor :: int64
  dsc_Currency :: string
  BatchCount :: int
  ProxyCount :: int
  DedupedProxies :: int

definition AccountGrainPrefix :: string where "AccountGrainPrefix = ''account:''"

definition AccountGrainTokenID :: "string \<Rightarrow> string" where
  "AccountGrainTokenID ownAccountID = AccountGrainPrefix @ trim_space ownAccountID"

definition IsAccountGrain :: "string \<Rightarrow> bool" where
  "IsAccountGrain tokenID = starts_with tokenID AccountGrainPrefix"

definition AccountGrainOwner :: "string \<Rightarrow> string \<times> bool" where
  "AccountGrainOwner tokenID =
    (if \<not> IsAccountGrain tokenID then ([], False)
     else (drop (length AccountGrainPrefix) tokenID, True))"

definition Batch_Term :: "SubscriptionBatch \<Rightarrow> AmortizationTerm" where
  "Batch_Term b = \<lparr>PaidMinor = sb_PaidMinor b, SurchargeMinor = sb_SurchargeMinor b,
     RefundedMinor = sb_RefundedMinor b, RefundedOn = sb_RefundedOn b,
     StartsOn = sb_StartsOn b, ExpiresOn = sb_ExpiresOn b, TerminatedOn = sb_TerminatedOn b,
     ShareCount = sb_AccountCount b\<rparr>"

definition Proxy_Term :: "ProxyAsset \<Rightarrow> AmortizationTerm" where
  "Proxy_Term p = \<lparr>PaidMinor = px_PaidMinor p, SurchargeMinor = px_SurchargeMinor p,
     RefundedMinor = px_RefundedMinor p, RefundedOn = px_RefundedOn p,
     StartsOn = px_OpenedOn p, ExpiresOn = px_ExpiresOn p, TerminatedOn = px_TerminatedOn p,
     ShareCount = px_SharedAccountCount p\<rparr>"

definition Proxy_DailyMinor :: "ProxyAsset \<Rightarrow> date \<Rightarrow> finance_error + (int64 \<times> bool)" where
  "Proxy_DailyMinor p day =
    (let t = Proxy_Term p in
     rbind (AmortizationTerm_Validate t) (\<lambda>_.
       if \<not> Covers t day then Inr (0, False)
       else if \<not> px_Mounted p then Inr (0, True)
       else DailyMinor t day))"

definition validateAmountCurrency :: "string \<Rightarrow> finance_error + unit" where
  "validateAmountCurrency code =
    (if \<not> currencyPattern code then Inl ErrInvalidFormat
     else case CurrencyScale code of Inl _ \<Rightarrow> Inl ErrInvalidFormat | Inr _ \<Rightarrow> Inr ())"

text \<open>The pattern \<open>^[a-zA-Z][a-zA-Z0-9+.-]*://[^/]*@\<close>: an at-sign before the next slash.\<close>

definition ascii_letter :: "char \<Rightarrow> bool" where
  "ascii_letter c \<longleftrightarrow> 65 \<le> (of_char c :: nat) \<and> (of_char c :: nat) \<le> 90
     \<or> 97 \<le> (of_char c :: nat) \<and> (of_char c :: nat) \<le> 122"

definition scheme_char :: "char \<Rightarrow> bool" where
  "scheme_char c \<longleftrightarrow> ascii_letter c \<or> is_digit c \<or> c \<in> set ''+.-''"

definition buyAddressUserInfoPattern :: "string \<Rightarrow> bool" where
  "buyAddressUserInfoPattern s \<longleftrightarrow> s \<noteq> [] \<and> ascii_letter (hd s) \<and>
    (let rest = dropWhile scheme_char s in
     starts_with rest ''://'' \<and> CHR ''@'' \<in> set (takeWhile (\<lambda>c. c \<noteq> CHR ''/'') (drop 3 rest)))"

definition validateBuyAddress :: "string \<Rightarrow> finance_error + unit" where
  "validateBuyAddress raw =
    (if raw = [] then Inr ()
     else if buyAddressUserInfoPattern raw then Inl ErrInvalidFormat else Inr ())"

definition SubscriptionBatch_Validate :: "SubscriptionBatch \<Rightarrow> finance_error + unit" where
  "SubscriptionBatch_Validate b =
    (if sb_UpstreamAccountID b = 0 then Inl ErrMissingField
     else rbind (validateAmountCurrency (sb_Currency b)) (\<lambda>_.
       AmortizationTerm_Validate (Batch_Term b)))"

definition ProxyAsset_Validate :: "ProxyAsset \<Rightarrow> finance_error + unit" where
  "ProxyAsset_Validate p =
    (if blank (px_Environment p) then Inl ErrMissingField
     else rbind (validateAmountCurrency (px_Currency p)) (\<lambda>_.
       rbind (if px_CredentialRef p \<noteq> [] then checkCredentialRef (px_CredentialRef p) else Inr ()) (\<lambda>_.
         rbind (validateBuyAddress (px_BuyAddress p)) (\<lambda>_.
           AmortizationTerm_Validate (Proxy_Term p)))))"

definition DailySupplyCost_add :: "DailySupplyCost \<Rightarrow> int64 \<Rightarrow> string \<Rightarrow> finance_error + DailySupplyCost" where
  "DailySupplyCost_add c v currency =
    rbind (if dsc_Currency c = [] then Inr (c\<lparr>dsc_Currency := currency\<rparr>)
           else if dsc_Currency c \<noteq> currency then Inl ErrAmortizationMixedCurrency
           else Inr c) (\<lambda>c.
      if (v > 0 \<and> CostMinor c > wrap64 (max_int64 - v)) \<or>
         (v < 0 \<and> CostMinor c < wrap64 (- max_int64 - 1 - v)) then Inl ErrInvalidFormat
      else Inr (c\<lparr>CostMinor := wrap64 (CostMinor c + v)\<rparr>))"

text \<open>One turn of the loop for a batch's proxy, then the loop.\<close>

definition add_proxy :: "DailySupplyCost \<times> uuid set \<Rightarrow> ProxyAsset \<Rightarrow> date \<Rightarrow>
    finance_error + (DailySupplyCost \<times> uuid set)" where
  "add_proxy acc p day = (let (out, seenProxy) = acc in
    if px_ID p \<in> seenProxy then Inr (out\<lparr>DedupedProxies := DedupedProxies out + 1\<rparr>, seenProxy)
    else rbind (Proxy_DailyMinor p day) (\<lambda>(proxyAmount, proxyCovered).
      if \<not> proxyCovered then Inr (out, insert (px_ID p) seenProxy)
      else rbind (DailySupplyCost_add out proxyAmount (px_Currency p)) (\<lambda>out.
        Inr (out\<lparr>ProxyCount := ProxyCount out + 1\<rparr>, insert (px_ID p) seenProxy))))"

fun amortize_batches :: "AmortizableBatch list \<Rightarrow> date \<Rightarrow> DailySupplyCost \<times> uuid set \<Rightarrow>
    finance_error + (DailySupplyCost \<times> uuid set)" where
  "amortize_batches [] day acc = Inr acc"
| "amortize_batches (item # items) day (out, seenProxy) =
    rbind (DailyMinor (Batch_Term (Batch item)) day) (\<lambda>(v, covered).
      if \<not> covered then amortize_batches items day (out, seenProxy)
      else rbind (DailySupplyCost_add out v (sb_Currency (Batch item))) (\<lambda>out.
        let out = out\<lparr>BatchCount := BatchCount out + 1\<rparr> in
        case Proxy item of
          None \<Rightarrow> amortize_batches items day (out, seenProxy)
        | Some p \<Rightarrow> rbind (add_proxy (out, seenProxy) p day) (amortize_batches items day)))"

definition zero_cost :: DailySupplyCost where
  "zero_cost = \<lparr>CostMinor = 0, dsc_Currency = [], BatchCount = 0, ProxyCount = 0, DedupedProxies = 0\<rparr>"

definition AmortizeDay :: "AmortizableBatch list \<Rightarrow> date \<Rightarrow> finance_error + DailySupplyCost" where
  "AmortizeDay batches day =
    rbind (amortize_batches batches day (zero_cost, {})) (\<lambda>(out, _).
      if BatchCount out = 0 then Inl ErrNoAmortizableBatch else Inr out)"

section \<open>The cost as a sum over batches and distinct proxies\<close>

text \<open>The amount of a daily result that covers the day.\<close>

definition daily_part :: "finance_error + (int64 \<times> bool) \<Rightarrow> int64" where
  "daily_part r = (case r of Inr (v, True) \<Rightarrow> v | _ \<Rightarrow> 0)"

lemma daily_part_simps [simp]: "daily_part (Inr (v, True)) = v" "daily_part (Inr (v, False)) = 0"
  by (simp_all add: daily_part_def)

definition covers_day :: "date \<Rightarrow> AmortizableBatch \<Rightarrow> bool" where
  "covers_day day item = (case DailyMinor (Batch_Term (Batch item)) day of Inr (_, c) \<Rightarrow> c | Inl _ \<Rightarrow> False)"

text \<open>The proxies the covering batches reference, in order, and the first of each identity.\<close>

fun proxies_of :: "AmortizableBatch list \<Rightarrow> ProxyAsset list" where
  "proxies_of [] = []"
| "proxies_of (b # bs) = (case Proxy b of None \<Rightarrow> proxies_of bs | Some p \<Rightarrow> p # proxies_of bs)"

function first_by_id :: "ProxyAsset list \<Rightarrow> ProxyAsset list" where
  "first_by_id [] = []"
| "first_by_id (p # ps) = p # first_by_id (filter (\<lambda>q. px_ID q \<noteq> px_ID p) ps)"
  by pat_completeness auto
termination
  by (relation "measure length") (auto simp: le_imp_less_Suc)

lemma Split_in64: "Split v n = Inr q \<Longrightarrow> in64 q"
  by (auto simp: Split_def DivideByUnits_def Let_def split: if_splits)

lemma Installment_in64: "in64 v \<Longrightarrow> Installment v n i = Inr q \<Longrightarrow> in64 q"
  by (auto simp: Installment_def Let_def in64_sdiv_pos split: if_splits)

lemma lift_money_eq_Inr [result_simps]: "lift_money r = Inr a \<longleftrightarrow> r = Inr a"
  by (cases r) simp_all

lemma scheduledDay_in64: "scheduledDay t d = Inr v \<Longrightarrow> in64 v"
  by (auto simp: scheduledDay_def grossShareMinor_def refundSplit_def Let_def result_simps
      dest: Split_in64 Installment_in64 [rotated] Installment_in64 [OF in64_wrap64] split: if_splits)

lemma DailyMinor_in64: "DailyMinor t day = Inr (v, c) \<Longrightarrow> in64 v"
  by (auto simp: DailyMinor_def result_simps scheduledDay_in64 split: if_splits)

lemma Proxy_DailyMinor_in64: "Proxy_DailyMinor p day = Inr (v, c) \<Longrightarrow> in64 v"
  by (auto simp: Proxy_DailyMinor_def result_simps DailyMinor_in64 Let_def split: if_splits)

text \<open>Adding is exact or refused.\<close>

lemma add_exact:
  assumes "DailySupplyCost_add c v cur = Inr c'" "in64 v" "in64 (CostMinor c)"
  shows "CostMinor c' = CostMinor c + v" "in64 (CostMinor c')"
    and "BatchCount c' = BatchCount c" "ProxyCount c' = ProxyCount c" "DedupedProxies c' = DedupedProxies c"
proof -
  have "0 < v \<Longrightarrow> in64 (max_int64 - v)" "v < 0 \<Longrightarrow> in64 (- max_int64 - 1 - v)"
    using assms(2) by (simp_all add: int64_defs)
  then have "in64 (CostMinor c + v)"
    using assms by (auto simp: DailySupplyCost_add_def result_simps int64_defs split: if_splits)
  then show "CostMinor c' = CostMinor c + v" "in64 (CostMinor c')"
    and "BatchCount c' = BatchCount c" "ProxyCount c' = ProxyCount c" "DedupedProxies c' = DedupedProxies c"
    using assms by (auto simp: DailySupplyCost_add_def result_simps split: if_splits)
qed

lemma add_proxy_new:
  assumes "add_proxy (c, seen) p day = Inr (c', seen')" "px_ID p \<notin> seen" "in64 (CostMinor c)"
  shows "CostMinor c' = CostMinor c + daily_part (Proxy_DailyMinor p day) \<and> in64 (CostMinor c')
    \<and> BatchCount c' = BatchCount c \<and> DedupedProxies c' = DedupedProxies c \<and> seen' = insert (px_ID p) seen"
proof -
  obtain v cov where d: "Proxy_DailyMinor p day = Inr (v, cov)"
    using assms(1,2) by (auto simp: add_proxy_def result_simps)
  show ?thesis
  proof (cases cov)
    case True
    then obtain e where e: "DailySupplyCost_add c v (px_Currency p) = Inr e"
      "c' = e\<lparr>ProxyCount := ProxyCount e + 1\<rparr>" "seen' = insert (px_ID p) seen"
      using assms(1,2) d by (auto simp: add_proxy_def result_simps)
    then show ?thesis
      using add_exact [OF e(1) Proxy_DailyMinor_in64 [OF d] assms(3)] d True by (simp add: daily_part_def)
  next
    case False
    then show ?thesis using assms d by (auto simp: add_proxy_def daily_part_def)
  qed
qed

lemma amortize_batches_sum:
  assumes "amortize_batches bs day (c, seen) = Inr (c', seen')" "in64 (CostMinor c)"
  shows "let cov = filter (covers_day day) bs;
             fresh = filter (\<lambda>p. px_ID p \<notin> seen) (proxies_of cov) in
     CostMinor c' = CostMinor c
       + (\<Sum>b \<leftarrow> cov. daily_part (DailyMinor (Batch_Term (Batch b)) day))
       + (\<Sum>p \<leftarrow> first_by_id fresh. daily_part (Proxy_DailyMinor p day))
     \<and> in64 (CostMinor c') \<and> BatchCount c' = BatchCount c + int (length cov)
     \<and> DedupedProxies c' = DedupedProxies c + int (length (proxies_of cov)) - int (length (first_by_id fresh))"
  using assms
proof (induction bs arbitrary: c seen)
  case Nil
  then show ?case by simp
next
  case (Cons item items)
  obtain v cov where d: "DailyMinor (Batch_Term (Batch item)) day = Inr (v, cov)"
    using Cons.prems(1) by (auto simp: result_simps)
  have part: "covers_day day item = cov" by (simp add: covers_day_def d)
  show ?case
  proof (cases cov)
    case False
    then show ?thesis using Cons.IH [of c seen] Cons.prems d part by simp
  next
    case True
    obtain e where e: "DailySupplyCost_add c v (sb_Currency (Batch item)) = Inr e"
      using Cons.prems(1) d True by (auto simp: result_simps)
    note ex = add_exact [OF e DailyMinor_in64 [OF d] Cons.prems(2)]
    define out where "out = e\<lparr>BatchCount := BatchCount e + 1\<rparr>"
    have out: "CostMinor out = CostMinor c + v" "in64 (CostMinor out)"
      "BatchCount out = BatchCount c + 1" "DedupedProxies out = DedupedProxies c"
      using ex by (simp_all add: out_def)
    have run: "(case Proxy item of None \<Rightarrow> amortize_batches items day (out, seen)
        | Some p \<Rightarrow> rbind (add_proxy (out, seen) p day) (amortize_batches items day)) = Inr (c', seen')"
      using Cons.prems(1) d True e by (simp add: out_def Let_def split: option.split_asm)
    show ?thesis
    proof (cases "Proxy item")
      case None
      then show ?thesis
        using Cons.IH [of out seen] run out d part True by (auto simp: Let_def)
    next
      case (Some p)
      obtain c1 seen1 where ap: "add_proxy (out, seen) p day = Inr (c1, seen1)"
        and rest: "amortize_batches items day (c1, seen1) = Inr (c', seen')"
        using run Some by (auto simp: result_simps)
      show ?thesis
      proof (cases "px_ID p \<in> seen")
        case True
        then have "c1 = out\<lparr>DedupedProxies := DedupedProxies out + 1\<rparr>" "seen1 = seen"
          using ap by (auto simp: add_proxy_def)
        then show ?thesis
          using Cons.IH [OF rest] out d part \<open>cov\<close> Some True by (auto simp: Let_def)
      next
        case False
        have fil: "filter (\<lambda>q. px_ID q \<noteq> px_ID p) (filter (\<lambda>p. px_ID p \<notin> seen) ps) =
            filter (\<lambda>q. px_ID q \<notin> insert (px_ID p) seen) ps" for ps
          by (induction ps) auto
        show ?thesis
          using Cons.IH [OF rest] add_proxy_new [OF ap False out(2)] out d part \<open>cov\<close> Some False fil
          by (auto simp: Let_def algebra_simps conj_commute)
      qed
    qed
  qed
qed

text \<open>
  The day's supply cost of an account is exact: when it is computed it equals, as
  integers, the sum of the instalments of the batches covering the day plus one instalment
  for each distinct proxy those batches reference (the first of each identity; an unmounted
  proxy adds a known 0), it fits \<open>int64\<close>, and the counts report how many batches were added
  and how many proxy references were dropped as duplicates. With no covering batch there is
  no cost at all.
\<close>

theorem AmortizeDay_exact:
  assumes "AmortizeDay batches day = Inr out"
  shows "let cov = filter (covers_day day) batches; proxies = first_by_id (proxies_of cov) in
     CostMinor out = (\<Sum>b \<leftarrow> cov. daily_part (DailyMinor (Batch_Term (Batch b)) day))
       + (\<Sum>p \<leftarrow> proxies. daily_part (Proxy_DailyMinor p day))
     \<and> in64 (CostMinor out) \<and> cov \<noteq> [] \<and> BatchCount out = int (length cov)
     \<and> DedupedProxies out = int (length (proxies_of cov)) - int (length proxies)"
proof -
  obtain seen where r: "amortize_batches batches day (zero_cost, {}) = Inr (out, seen)"
    and "BatchCount out \<noteq> 0"
    using assms by (auto simp: AmortizeDay_def result_simps split: if_splits)
  then show ?thesis
    using amortize_batches_sum [OF r] by (auto simp: Let_def zero_cost_def)
qed

definition example_day :: "int \<Rightarrow> date" where
  "example_day n = \<lparr>instant = n * dayDuration, in_utc = True\<rparr>"

definition example_batch :: AmortizableBatch where
  "example_batch =
    \<lparr>Batch = \<lparr>sb_ID = 1, sb_UpstreamAccountID = 7, sb_PaidMinor = 31000000, sb_SurchargeMinor = 0,
        sb_RefundedMinor = 0, sb_RefundedOn = example_day 0, sb_Currency = ''USD'',
        sb_StartsOn = example_day 739799, sb_ExpiresOn = example_day 739829,
        sb_TerminatedOn = example_day 0, sb_AccountCount = 1, sb_ProxyAssetID = 9,
        sb_CreatedAt = 0, sb_UpdatedAt = 0\<rparr>,
     Proxy = Some \<lparr>px_ID = 9, px_PaidMinor = 6200000, px_SurchargeMinor = 0, px_RefundedMinor = 0,
        px_RefundedOn = example_day 0, px_Currency = ''USD'', px_OpenedOn = example_day 739799,
        px_ExpiresOn = example_day 739829, px_TerminatedOn = example_day 0, px_SharedAccountCount = 2,
        px_BuyPlatform = [], px_BuyAddress = [], px_CredentialRef = [], px_Mounted = True,
        px_Environment = ''prod'', px_CreatedAt = 0, px_UpdatedAt = 0\<rparr>\<rparr>"

lemma example_cost:
  "AmortizeDay [example_batch, example_batch] (example_day 739805) =
    Inr \<lparr>CostMinor = 2100000, dsc_Currency = ''USD'', BatchCount = 2, ProxyCount = 1, DedupedProxies = 1\<rparr>"
  by code_simp

theorem AmortizeDay_exact_witness:
  "filter (covers_day (example_day 739805)) [example_batch, example_batch] \<noteq> []"
  using AmortizeDay_exact [OF example_cost] by (simp add: Let_def)

end
