(* ===== verification/Runway.thy ===== *)
theory Runway
  imports Accounts
begin

text \<open>
  The runway of an upstream balance (\<open>finance/runway.go\<close>, \<open>finance/balance.go\<close>): parsing
  and validation of the three alarm thresholds, classification of a number of days, and the
  computation that either gives a number of days or says why there is none.
\<close>

section \<open>Thresholds\<close>

record RunwayThresholds =
  CriticalDays :: int
  WarningDays :: int
  SeriousDays :: int

datatype RunwayLevel = NoLevel | RunwayCritical | RunwayWarning | RunwaySerious | RunwayHealthy

datatype RunwayUnknownReason = NoReason | RunwayReasonNotApplicable | RunwayReasonNoBalance
  | RunwayReasonBalanceStale | RunwayReasonNoConsumption | RunwayReasonCurrencyMismatch

definition RunwayWindowDays :: int where "RunwayWindowDays = 7"
definition DefaultBalanceStaleAfter :: duration where "DefaultBalanceStaleAfter = 1800000000000"
definition runwayThresholdPersistedMax :: int where
  [int64_defs]: "runwayThresholdPersistedMax = 2147483647"
definition maxIntValue :: int where [int64_defs]: "maxIntValue = 9223372036854775807"

definition DefaultRunwayThresholds :: RunwayThresholds where
  "DefaultRunwayThresholds = \<lparr>CriticalDays = 5, WarningDays = 10, SeriousDays = 20\<rparr>"

definition parsePositiveDays :: "string \<Rightarrow> int \<Rightarrow> finance_error + int" where
  "parsePositiveDays raw0 fallback =
    (let raw = trim_space raw0 in
     if raw = [] then Inr fallback
     else case parse_int64 raw of None \<Rightarrow> Inl ErrInvalidFormat
     | Some value \<Rightarrow> if value \<le> 0 then Inl ErrInvalidFormat else Inr value)"

fun validate_entries :: "int list \<Rightarrow> finance_error + unit" where
  "validate_entries [] = Inr ()"
| "validate_entries (v # vs) =
    (if v \<le> 0 then Inl ErrInvalidFormat
     else if v > runwayThresholdPersistedMax then Inl ErrInvalidFormat
     else validate_entries vs)"

definition RunwayThresholds_Validate :: "RunwayThresholds \<Rightarrow> finance_error + unit" where
  "RunwayThresholds_Validate t =
    rbind (validate_entries [CriticalDays t, WarningDays t, SeriousDays t]) (\<lambda>_.
      if \<not> (CriticalDays t < WarningDays t \<and> WarningDays t < SeriousDays t) then Inl ErrInconsistent
      else Inr ())"

definition ParseRunwayThresholds :: "string \<Rightarrow> string \<Rightarrow> finance_error + RunwayThresholds" where
  "ParseRunwayThresholds warnDays critDays =
    (let defaults = DefaultRunwayThresholds in
     rbind (parsePositiveDays warnDays (WarningDays defaults)) (\<lambda>warning.
     rbind (parsePositiveDays critDays (CriticalDays defaults)) (\<lambda>critical.
       if critical \<ge> warning then Inl ErrInconsistent
       else rbind (if SeriousDays defaults \<le> warning
                   then (if warning = maxIntValue then Inl ErrInvalidFormat else Inr (warning + 1))
                   else Inr (SeriousDays defaults)) (\<lambda>serious.
         let out = \<lparr>CriticalDays = critical, WarningDays = warning, SeriousDays = serious\<rparr> in
         rbind (RunwayThresholds_Validate out) (\<lambda>_. Inr out)))))"

definition Classify :: "RunwayThresholds \<Rightarrow> int \<Rightarrow> finance_error + RunwayLevel" where
  "Classify t days =
    rbind (RunwayThresholds_Validate t) (\<lambda>_.
      if days \<le> CriticalDays t then Inr RunwayCritical
      else if days \<le> WarningDays t then Inr RunwayWarning
      else if days \<le> SeriousDays t then Inr RunwaySerious
      else Inr RunwayHealthy)"

section \<open>Balance readings (finance/balance.go)\<close>

record BalanceReading =
  br_ID :: int
  br_UpstreamAccountID :: uuid
  br_BalanceMinor :: int64
  br_Currency :: string
  br_CapturedAt :: time
  br_ObservedAt :: time
  br_Source :: string

definition Age :: "BalanceReading \<Rightarrow> time \<Rightarrow> duration" where
  "Age b now = time_sub now (br_ObservedAt b)"

definition SameValueAs :: "BalanceReading \<Rightarrow> BalanceReading \<Rightarrow> bool" where
  "SameValueAs b other \<longleftrightarrow> br_BalanceMinor b = br_BalanceMinor other \<and> br_Currency b = br_Currency other"

definition BalanceReading_Validate :: "BalanceReading \<Rightarrow> finance_error + unit" where
  "BalanceReading_Validate b =
    (if br_UpstreamAccountID b = 0 then Inl ErrMissingField
     else rbind (if \<not> currencyPattern (br_Currency b) then Inl ErrInvalidFormat
         else case CurrencyScale (br_Currency b) of Inl _ \<Rightarrow> Inl ErrInvalidFormat | Inr _ \<Rightarrow> Inr ()) (\<lambda>_.
       if blank (br_Source b) then Inl ErrMissingField
       else if br_ObservedAt b = 0 then Inl ErrMissingField
       else if br_CapturedAt b \<noteq> 0 \<and> br_ObservedAt b < br_CapturedAt b then Inl ErrInconsistent
       else Inr ()))"

section \<open>The computation\<close>

record RunwayInput =
  in_AccessMethod :: AccessMethod
  in_Balance :: "BalanceReading option"
  in_CostMinorSum :: int64
  in_CoveredDays :: int
  in_CostCurrency :: string
  in_Now :: time
  in_Thresholds :: RunwayThresholds
  in_StaleAfter :: duration

record Runway =
  Days :: "int option"
  Level :: RunwayLevel
  Reason :: RunwayUnknownReason
  WindowDays :: int
  CoveredDays :: int
  DailyAverageMinor :: "int64 option"
  BalanceMinor :: "int64 option"
  rw_Currency :: string
  BalanceObservedAt :: "time option"

definition Known :: "Runway \<Rightarrow> bool" where "Known r \<longleftrightarrow> Days r \<noteq> None"

definition ComputeRunway :: "RunwayInput \<Rightarrow> finance_error + Runway" where
  "ComputeRunway i =
    rbind (RunwayThresholds_Validate (in_Thresholds i)) (\<lambda>_.
    let out = \<lparr>Days = None, Level = NoLevel, Reason = NoReason, WindowDays = RunwayWindowDays,
          CoveredDays = in_CoveredDays i,
          DailyAverageMinor = (if in_CoveredDays i > 0
            then Some (in_CostMinorSum i sdiv in_CoveredDays i) else None),
          BalanceMinor = map_option br_BalanceMinor (in_Balance i),
          rw_Currency = (case in_Balance i of None \<Rightarrow> [] | Some b \<Rightarrow> br_Currency b),
          BalanceObservedAt = map_option br_ObservedAt (in_Balance i)\<rparr>;
        staleAfter = (if in_StaleAfter i \<le> 0 then DefaultBalanceStaleAfter else in_StaleAfter i)
    in if \<not> IsMetered (in_AccessMethod i) then Inr (out\<lparr>Reason := RunwayReasonNotApplicable\<rparr>)
    else case in_Balance i of None \<Rightarrow> Inr (out\<lparr>Reason := RunwayReasonNoBalance\<rparr>)
    | Some b \<Rightarrow>
      if Age b (in_Now i) > staleAfter then Inr (out\<lparr>Reason := RunwayReasonBalanceStale\<rparr>)
      else case DailyAverageMinor out of None \<Rightarrow> Inr (out\<lparr>Reason := RunwayReasonNoConsumption\<rparr>)
      | Some daily \<Rightarrow>
        if daily \<le> 0 then Inr (out\<lparr>Reason := RunwayReasonNoConsumption\<rparr>)
        else if br_Currency b \<noteq> in_CostCurrency i then Inr (out\<lparr>Reason := RunwayReasonCurrencyMismatch\<rparr>)
        else let days = (if br_BalanceMinor b > 0 then br_BalanceMinor b sdiv daily else 0) in
          rbind (Classify (in_Thresholds i) days) (\<lambda>level.
            Inr (out\<lparr>Days := Some days, Level := level\<rparr>)))"

section \<open>Thresholds are usable or refused\<close>

lemma Validate_iff:
  "RunwayThresholds_Validate t = Inr u \<longleftrightarrow> 0 < CriticalDays t \<and> CriticalDays t < WarningDays t
     \<and> WarningDays t < SeriousDays t \<and> SeriousDays t \<le> runwayThresholdPersistedMax"
  by (auto simp: RunwayThresholds_Validate_def)

lemma Classify_valid:
  "RunwayThresholds_Validate t = Inr () \<Longrightarrow> Classify t d =
    Inr (if d \<le> CriticalDays t then RunwayCritical else if d \<le> WarningDays t then RunwayWarning
      else if d \<le> SeriousDays t then RunwaySerious else RunwayHealthy)"
  by (simp add: Classify_def)

text \<open>
  The configured alarm thresholds are what the operator wrote, or an error. When the
  parser returns thresholds they are positive, strictly increasing and small enough to be
  stored; the warning and critical levels are the decimal values of the two texts, or the
  defaults for blank texts; the serious level stays at 20 days unless the warning reaches it.
\<close>

theorem ParseRunwayThresholds_sound:
  assumes "ParseRunwayThresholds w c = Inr t"
  shows "RunwayThresholds_Validate t = Inr ()
    \<and> (if blank w then WarningDays t = 10 else parse_int64 (trim_space w) = Some (WarningDays t))
    \<and> (if blank c then CriticalDays t = 5 else parse_int64 (trim_space c) = Some (CriticalDays t))
    \<and> SeriousDays t = max 20 (WarningDays t + 1)"
proof -
  have parse: "if blank x then v = d else parse_int64 (trim_space x) = Some v"
    if "parsePositiveDays x d = Inr v" for x d v
    using that by (auto simp: parsePositiveDays_def blank_def Let_def split: if_splits option.splits)
  obtain wd cd sd where p: "parsePositiveDays w 10 = Inr wd" "parsePositiveDays c 5 = Inr cd"
    and t: "t = \<lparr>CriticalDays = cd, WarningDays = wd, SeriousDays = sd\<rparr>"
    and s: "sd = (if 20 \<le> wd then wd + 1 else 20)" and v: "RunwayThresholds_Validate t = Inr ()"
    using assms
    by (auto simp: ParseRunwayThresholds_def DefaultRunwayThresholds_def Let_def result_simps
        split: if_splits)
  show ?thesis using parse [OF p(1)] parse [OF p(2)] t s v by (auto simp: max_def)
qed

theorem ParseRunwayThresholds_sound_witness:
  "RunwayThresholds_Validate \<lparr>CriticalDays = 5, WarningDays = 30, SeriousDays = 31\<rparr> = Inr ()"
proof -
  have "ParseRunwayThresholds '' 30'' [] = Inr \<lparr>CriticalDays = 5, WarningDays = 30, SeriousDays = 31\<rparr>"
    by code_simp
  from ParseRunwayThresholds_sound [OF this] show ?thesis by blast
qed

definition severity :: "RunwayLevel \<Rightarrow> nat" where
  "severity l = (case l of RunwayCritical \<Rightarrow> 4 | RunwayWarning \<Rightarrow> 3 | RunwaySerious \<Rightarrow> 2
     | RunwayHealthy \<Rightarrow> 1 | NoLevel \<Rightarrow> 0)"

text \<open>
  Classification fails closed and is monotone: invalid thresholds always give an error;
  with valid ones every number of days has a level, fewer days never have a milder level,
  and the boundaries belong to the more severe side.
\<close>

theorem Classify_monotone:
  "(if RunwayThresholds_Validate t = Inr () then
      (\<forall>d d'. d \<le> d' \<longrightarrow> (\<exists>l l'. Classify t d = Inr l \<and> Classify t d' = Inr l' \<and> severity l' \<le> severity l))
      \<and> Classify t (CriticalDays t) = Inr RunwayCritical \<and> Classify t (WarningDays t) = Inr RunwayWarning
      \<and> Classify t (SeriousDays t) = Inr RunwaySerious \<and> Classify t (SeriousDays t + 1) = Inr RunwayHealthy
    else \<forall>d. \<exists>e. Classify t d = Inl e)"
proof (cases "RunwayThresholds_Validate t")
  case (Inr u)
  then have v: "RunwayThresholds_Validate t = Inr ()" by simp
  then have "CriticalDays t < WarningDays t" "WarningDays t < SeriousDays t"
    unfolding Validate_iff by auto
  then show ?thesis unfolding Classify_valid [OF v] by (auto simp: v severity_def)
qed (simp add: Classify_def)

theorem Classify_monotone_witness:
  "Classify DefaultRunwayThresholds 5 = Inr RunwayCritical"
  using Classify_monotone [of DefaultRunwayThresholds]
  by (simp add: DefaultRunwayThresholds_def Validate_iff int64_defs)

section \<open>A number of days or a reason\<close>

definition runway_computable :: "RunwayInput \<Rightarrow> bool" where
  "runway_computable i \<longleftrightarrow> IsMetered (in_AccessMethod i) \<and> in_CoveredDays i > 0
     \<and> in_CostMinorSum i \<ge> in_CoveredDays i
     \<and> (case in_Balance i of None \<Rightarrow> False | Some b \<Rightarrow>
          Age b (in_Now i) \<le> (if in_StaleAfter i \<le> 0 then DefaultBalanceStaleAfter else in_StaleAfter i)
          \<and> br_Currency b = in_CostCurrency i)"

lemma sdiv_pos_iff:
  assumes "0 < c"
  shows "0 < s sdiv c \<longleftrightarrow> c \<le> (s::int)"
proof (cases "0 \<le> s")
  case False
  then have "s sdiv c \<le> 0"
    using assms by (simp add: signed_divide_int_def sgn_if pos_imp_zdiv_nonneg_iff)
  then show ?thesis using False assms by simp
qed (use assms in \<open>simp add: pos_imp_zdiv_pos_iff\<close>)

text \<open>
  A runway is a number or a reason, never both and never neither. With valid thresholds
  the computation always returns; it gives a number of days exactly when the account is
  metered, a fresh balance in the cost's currency is known and the truncated daily average is
  positive; the number is the balance divided by that average rounded down (0 for an
  overdrawn balance), so it is never negative and that many average days never cost more than
  the balance, and the level is its classification. In every other case there is no number,
  no level, and a reason.
\<close>

theorem ComputeRunway_total:
  assumes "RunwayThresholds_Validate (in_Thresholds i) = Inr ()"
  shows "\<exists>r. ComputeRunway i = Inr r \<and> Known r = runway_computable i
    \<and> (Known r \<longleftrightarrow> Reason r = NoReason)
    \<and> (case Days r of None \<Rightarrow> Level r = NoLevel
       | Some d \<Rightarrow> (\<exists>b avg. in_Balance i = Some b \<and> DailyAverageMinor r = Some avg \<and> 0 < avg
            \<and> 0 \<le> d \<and> d * avg \<le> max 0 (br_BalanceMinor b) \<and> max 0 (br_BalanceMinor b) < (d + 1) * avg)
          \<and> Classify (in_Thresholds i) d = Inr (Level r) \<and> Level r \<noteq> NoLevel)"
proof (cases "runway_computable i")
  case True
  then obtain b where c: "IsMetered (in_AccessMethod i)" "in_CoveredDays i > 0"
      "in_CoveredDays i \<le> in_CostMinorSum i" "in_Balance i = Some b" "br_Currency b = in_CostCurrency i"
    and age: "Age b (in_Now i) \<le> (if in_StaleAfter i \<le> 0 then DefaultBalanceStaleAfter else in_StaleAfter i)"
    by (auto simp: runway_computable_def split: option.splits)
  define avg where "avg = in_CostMinorSum i div in_CoveredDays i"
  have avg: "0 < avg" "in_CostMinorSum i sdiv in_CoveredDays i = avg"
    using c(2,3) by (simp_all add: avg_def pos_imp_zdiv_pos_iff)
  define d where "d = max 0 (br_BalanceMinor b) div avg"
  have d: "0 \<le> d" "d * avg \<le> max 0 (br_BalanceMinor b)" "max 0 (br_BalanceMinor b) < (d + 1) * avg"
    using div_iff_between [OF avg(1), of "max 0 (br_BalanceMinor b)" d] avg(1)
    by (simp_all add: d_def pos_imp_zdiv_nonneg_iff algebra_simps)
  have "(if br_BalanceMinor b > 0 then br_BalanceMinor b sdiv avg else 0) = d"
    using avg(1) by (simp add: d_def max_def)
  then show ?thesis
    using c age avg d True assms
    by (simp add: ComputeRunway_def Let_def Classify_valid Known_def not_less [symmetric])
next
  case False
  then show ?thesis
    using assms sdiv_pos_iff [of "in_CoveredDays i" "in_CostMinorSum i"]
    by (auto simp: ComputeRunway_def Let_def Known_def runway_computable_def not_le not_less
        split: option.splits)
qed

definition example_input :: RunwayInput where
  "example_input = \<lparr>in_AccessMethod = ''upstream_key'',
     in_Balance = Some \<lparr>br_ID = 1, br_UpstreamAccountID = 7, br_BalanceMinor = 10, br_Currency = ''USD'',
       br_CapturedAt = 63925000000000000000, br_ObservedAt = 63925000000000000000, br_Source = ''s''\<rparr>,
     in_CostMinorSum = 19, in_CoveredDays = 7, in_CostCurrency = ''USD'',
     in_Now = 63925000001000000000, in_Thresholds = DefaultRunwayThresholds, in_StaleAfter = 0\<rparr>"

theorem ComputeRunway_total_witness:
  "\<exists>r. ComputeRunway example_input = Inr r \<and> Known r = runway_computable example_input"
  using ComputeRunway_total [of example_input]
  by (force simp: example_input_def Validate_iff DefaultRunwayThresholds_def int64_defs)

text \<open>
  The average is truncated before the division, so a small average makes the estimate too
  long, not too short: with 19 units spent in 7 days a balance of 10 units is given 5 days,
  although 5 days at the observed rate cost more than 13 units.
\<close>

lemma runway_can_overstate:
  "map_sum id Days (ComputeRunway example_input) = Inr (Some 5) \<and> 5 * in_CostMinorSum example_input >
     10 * in_CoveredDays example_input"
  by code_simp

end
