(* ===== verification/Profit.thy ===== *)
theory Profit
  imports Accounts
begin

text \<open>
  Rows of the profit ledger (\<open>finance/profit.go\<close>): an unknown side stays unknown, a profit
  exists only when both sides do, and the platform buckets give a profit only when every row
  has both sides in one currency.
\<close>

section \<open>Ledger rows\<close>

text \<open>\<open>None\<close> is the nil pointer: unknown, never zero.\<close>

record ProfitRow =
  pr_UpstreamAccountID :: uuid
  pr_BusinessDay :: date
  pr_BusinessDayTZ :: string
  pr_TokenID :: string
  pr_AccountID :: string
  pr_PlatformID :: string
  RevenueMinor :: "int64 option"
  pr_CostMinor :: "int64 option"
  pr_Currency :: string
  RatioSnapshot :: ratio
  pr_Source :: string
  CostObservedAt :: "time option"
  RevenueObservedAt :: "time option"
  pr_UpdatedAt :: time

definition ProfitMinor :: "ProfitRow \<Rightarrow> int64 option" where
  "ProfitMinor r = (case (RevenueMinor r, pr_CostMinor r) of
     (Some revenue, Some cost) \<Rightarrow> Some (wrap64 (revenue - cost)) | _ \<Rightarrow> None)"

definition KnownSides :: "ProfitRow \<Rightarrow> bool \<times> bool" where
  "KnownSides r = (RevenueMinor r \<noteq> None, pr_CostMinor r \<noteq> None)"

definition ProfitRow_BusinessDayLocation :: "ProfitRow \<Rightarrow> finance_error + int" where
  "ProfitRow_BusinessDayLocation r = fixedZone (pr_BusinessDayTZ r)"

definition validateSides :: "ProfitRow \<Rightarrow> finance_error + unit" where
  "validateSides r =
    (let (hasRevenue, hasCost) = KnownSides r in
     if \<not> hasRevenue \<and> \<not> hasCost then Inl ErrProfitNothingKnown
     else rbind (if hasCost then
         (if IsZero (RatioSnapshot r) then Inl ErrInconsistent
          else if \<not> IsPositive (RatioSnapshot r) then Inl ErrInvalidFormat else Inr ())
       else Inr ()) (\<lambda>_.
       if \<not> hasCost \<and> CostObservedAt r \<noteq> None then Inl ErrInconsistent
       else if \<not> hasRevenue \<and> RevenueObservedAt r \<noteq> None then Inl ErrInconsistent
       else Inr ()))"

definition ProfitRow_Validate :: "ProfitRow \<Rightarrow> finance_error + unit" where
  "ProfitRow_Validate r =
    (if pr_UpstreamAccountID r = 0 then Inl ErrMissingField
     else if zero_date (pr_BusinessDay r) then Inl ErrMissingField
     else if \<not> isCalendarDay (pr_BusinessDay r) then Inl ErrInvalidFormat
     else rbind (fixedZone (pr_BusinessDayTZ r)) (\<lambda>_.
       if blank (pr_TokenID r) then Inl ErrMissingField
       else if blank (pr_AccountID r) then Inl ErrMissingField
       else if pr_PlatformID r \<noteq> [] \<and> \<not> refPart (pr_PlatformID r) then Inl ErrInvalidFormat
       else if blank (pr_Source r) then Inl ErrMissingField
       else if \<not> currencyPattern (pr_Currency r) then Inl ErrInvalidFormat
       else case CurrencyScale (pr_Currency r) of Inl _ \<Rightarrow> Inl ErrInvalidFormat
       | Inr _ \<Rightarrow> validateSides r))"

section \<open>Platform buckets\<close>

datatype PlatformBucketKind = BucketPlatform | BucketRemovedPlatform | BucketUnattributed

record PlatformBucket =
  Kind :: PlatformBucketKind
  pb_PlatformID :: string
  RowCount :: int64
  RevenueKnownRows :: int64
  CostKnownRows :: int64
  RevenueMinorSum :: int64
  pb_CostMinorSum :: int64
  pb_Currency :: string
  MixedCurrency :: bool

record PlatformAttribution =
  Buckets :: "PlatformBucket list"
  TotalRows :: int64

definition ProfitMinorSum :: "PlatformBucket \<Rightarrow> int64 option" where
  "ProfitMinorSum b =
    (if MixedCurrency b \<or> RevenueKnownRows b \<noteq> RowCount b \<or> CostKnownRows b \<noteq> RowCount b then None
     else Some (wrap64 (RevenueMinorSum b - pb_CostMinorSum b)))"

definition BucketedRows :: "PlatformAttribution \<Rightarrow> int64" where
  "BucketedRows a = foldl (\<lambda>t b. wrap64 (t + RowCount b)) 0 (Buckets a)"

definition ParsePlatformBucketKind :: "string \<Rightarrow> finance_error + PlatformBucketKind" where
  "ParsePlatformBucketKind s =
    (if s = ''platform'' then Inr BucketPlatform
     else if s = ''removed_platform'' then Inr BucketRemovedPlatform
     else if s = ''unattributed'' then Inr BucketUnattributed
     else Inl ErrInvalidFormat)"

section \<open>Totals of a bucket are the sum of its rows' profits\<close>

definition known :: "int64 option \<Rightarrow> int" where
  "known v = (case v of None \<Rightarrow> 0 | Some x \<Rightarrow> x)"

text \<open>The bucket of a list of rows: the counts and sums the query builds, unknown sides skipped.\<close>

definition is_bucket_of :: "PlatformBucket \<Rightarrow> ProfitRow list \<Rightarrow> bool" where
  "is_bucket_of b rows \<longleftrightarrow> RowCount b = int (length rows)
     \<and> RevenueKnownRows b = int (length (filter (\<lambda>r. RevenueMinor r \<noteq> None) rows))
     \<and> CostKnownRows b = int (length (filter (\<lambda>r. pr_CostMinor r \<noteq> None) rows))
     \<and> RevenueMinorSum b = (\<Sum>r \<leftarrow> rows. known (RevenueMinor r))
     \<and> pb_CostMinorSum b = (\<Sum>r \<leftarrow> rows. known (pr_CostMinor r))
     \<and> MixedCurrency b = (\<exists>r \<in> set rows. \<exists>r' \<in> set rows. pr_Currency r \<noteq> pr_Currency r')"

lemma filter_length_all: "length (filter P xs) = length xs \<longleftrightarrow> (\<forall>x \<in> set xs. P x)"
  by (metis filter_True filter_id_conv length_filter_less nat_less_le)

text \<open>
  A bucket never shows a profit built on missing data. For a bucket that counts and sums
  a list of rows, the profit total exists exactly when every row knows both sides and all
  rows share a currency, and then (the row profits and the difference of the sums fitting
  \<open>int64\<close>) it is the sum of the profits of the rows.
\<close>

theorem ProfitMinorSum_complete:
  assumes "is_bucket_of b rows" "in64 (RevenueMinorSum b - pb_CostMinorSum b)"
    and "\<forall>r \<in> set rows. in64 (known (RevenueMinor r) - known (pr_CostMinor r))"
  shows "ProfitMinorSum b =
    (if (\<forall>r \<in> set rows. ProfitMinor r \<noteq> None) \<and> (\<forall>r \<in> set rows. \<forall>r' \<in> set rows. pr_Currency r = pr_Currency r')
     then Some (\<Sum>r \<leftarrow> rows. the (ProfitMinor r)) else None)"
proof -
  have both: "ProfitMinor r \<noteq> None \<longleftrightarrow> RevenueMinor r \<noteq> None \<and> pr_CostMinor r \<noteq> None" for r
    by (auto simp: ProfitMinor_def split: option.splits)
  have sum: "(\<Sum>r \<leftarrow> xs. the (ProfitMinor r)) =
      (\<Sum>r \<leftarrow> xs. known (RevenueMinor r)) - (\<Sum>r \<leftarrow> xs. known (pr_CostMinor r))"
    if "\<forall>r \<in> set xs. ProfitMinor r \<noteq> None" "set xs \<subseteq> set rows" for xs
    using that
  proof (induction xs)
    case (Cons r xs)
    then have "in64 (known (RevenueMinor r) - known (pr_CostMinor r))" using assms(3) by auto
    then have "the (ProfitMinor r) = known (RevenueMinor r) - known (pr_CostMinor r)"
      using Cons.prems(1) by (auto simp: ProfitMinor_def known_def split: option.splits)
    then show ?case using Cons by simp
  qed simp
  have counts: "RevenueKnownRows b = RowCount b \<longleftrightarrow> (\<forall>r \<in> set rows. RevenueMinor r \<noteq> None)"
    "CostKnownRows b = RowCount b \<longleftrightarrow> (\<forall>r \<in> set rows. pr_CostMinor r \<noteq> None)"
    using assms(1) filter_length_all [of "\<lambda>r. RevenueMinor r \<noteq> None" rows]
      filter_length_all [of "\<lambda>r. pr_CostMinor r \<noteq> None" rows]
    unfolding is_bucket_of_def by (metis of_nat_eq_iff)+
  have "(\<forall>r \<in> set rows. ProfitMinor r \<noteq> None) \<longleftrightarrow>
      RevenueKnownRows b = RowCount b \<and> CostKnownRows b = RowCount b"
    unfolding counts using both by blast
  then have "ProfitMinorSum b = (if MixedCurrency b \<or> \<not> (\<forall>r \<in> set rows. ProfitMinor r \<noteq> None) then None
      else Some (RevenueMinorSum b - pb_CostMinorSum b))"
    using wrap64_id [OF assms(2)] unfolding ProfitMinorSum_def by simp
  moreover have "MixedCurrency b \<longleftrightarrow> \<not> (\<forall>r \<in> set rows. \<forall>r' \<in> set rows. pr_Currency r = pr_Currency r')"
    using assms(1) unfolding is_bucket_of_def by blast
  moreover have "RevenueMinorSum b - pb_CostMinorSum b = (\<Sum>r \<leftarrow> rows. the (ProfitMinor r))"
    if "\<forall>r \<in> set rows. ProfitMinor r \<noteq> None"
    using assms(1) sum [OF that] unfolding is_bucket_of_def by simp
  ultimately show ?thesis
    by (simp only: split: if_split) argo
qed

definition example_row :: "int64 option \<Rightarrow> int64 option \<Rightarrow> ProfitRow" where
  "example_row revenue cost = \<lparr>pr_UpstreamAccountID = 7,
     pr_BusinessDay = \<lparr>instant = 739800 * dayDuration, in_utc = True\<rparr>, pr_BusinessDayTZ = ''+08:00'',
     pr_TokenID = ''t'', pr_AccountID = ''a'', pr_PlatformID = [], RevenueMinor = revenue, pr_CostMinor = cost,
     pr_Currency = ''USD'', RatioSnapshot = \<lparr>ratio_num = 85, ratio_scale = 2, ratio_set = True\<rparr>,
     pr_Source = ''s'', CostObservedAt = None, RevenueObservedAt = None, pr_UpdatedAt = 0\<rparr>"

definition example_bucket :: PlatformBucket where
  "example_bucket = \<lparr>Kind = BucketPlatform, pb_PlatformID = ''p'', RowCount = 2, RevenueKnownRows = 2,
     CostKnownRows = 1, RevenueMinorSum = 150, pb_CostMinorSum = 40, pb_Currency = ''USD'',
     MixedCurrency = False\<rparr>"

theorem ProfitMinorSum_complete_witness:
  "ProfitRow_Validate (example_row (Some 100) (Some 40)) = Inr () \<and> ProfitMinorSum example_bucket = None"
proof -
  let ?rows = "[example_row (Some 100) (Some 40), example_row (Some 50) None]"
  have "is_bucket_of example_bucket ?rows"
    by (simp add: is_bucket_of_def example_bucket_def example_row_def known_def)
  moreover have "in64 (RevenueMinorSum example_bucket - pb_CostMinorSum example_bucket)"
    by (simp add: example_bucket_def int64_defs)
  moreover have "\<forall>r \<in> set ?rows. in64 (known (RevenueMinor r) - known (pr_CostMinor r))"
    by (simp add: example_row_def known_def int64_defs)
  ultimately have "ProfitMinorSum example_bucket =
    (if (\<forall>r \<in> set ?rows. ProfitMinor r \<noteq> None) \<and> (\<forall>r \<in> set ?rows. \<forall>r' \<in> set ?rows. pr_Currency r = pr_Currency r')
     then Some (\<Sum>r \<leftarrow> ?rows. the (ProfitMinor r)) else None)"
    by (rule ProfitMinorSum_complete)
  then have "ProfitMinorSum example_bucket = None" by (simp add: example_row_def ProfitMinor_def)
  moreover have "ProfitRow_Validate (example_row (Some 100) (Some 40)) = Inr ()" by code_simp
  ultimately show ?thesis by simp
qed

end
