(* ===== verification/RateLimit.thy ===== *)
theory RateLimit
  imports Prelude
begin

text \<open>
  The shared rate limiter (package \<open>ratelimit\<close>): the policy and its validation, the
  checked 64-bit arithmetic, one GCRA decision (\<open>gcra.go\<close>), and the process-local store with
  its idle sweep (\<open>memory.go\<close>). The locale \<open>debt_store\<close> is the contract of a store: the
  debt of a key only shrinks as the clock advances, an allowed call adds one interval to it
  and never leaves more than a full burst. The limiter's guarantee is proved in the locale
  and holds of the store by interpretation.
\<close>

section \<open>Types and errors (types.go)\<close>

type_synonym uint32 = "32 word"

datatype ErrorKind = ErrorKindInvalidPolicy | ErrorKindInvalidState | ErrorKindInvalidKey
  | ErrorKindInvalidIdentity | ErrorKindInvalidHMACKey | ErrorKindOverflow | ErrorKindPolicyMismatch

text \<open>A typed domain error, one of the bare sentinels, or the error of the context.\<close>

datatype rl_error = domainError ErrorKind string | Sentinel ErrorKind | ContextError

definition AlgorithmGCRAv1 :: string where "AlgorithmGCRAv1 = ''gcra-v1''"
definition MaxSQLInt :: uint32 where "MaxSQLInt = 2147483647"
definition microsPerSecond :: int where [int64_defs]: "microsPerSecond = 1000000"
definition microsPerMinute :: int where [int64_defs]: "microsPerMinute = 60000000"

record Policy =
  Revision :: int64
  Algorithm :: string
  KeyVersion :: uint32
  PerMinute :: uint32
  Burst :: uint32
  IdleTTL :: duration
  CleanupInterval :: duration

record BucketKey =
  bk_Environment :: string
  bk_KeyVersion :: uint32
  Digest :: "8 word list"

record Decision =
  Allowed :: bool
  RetryAfter :: duration
  PolicyRevision :: int64
  ObservedAt :: time

record ReadyState =
  rs_Environment :: string
  rs_PolicyRevision :: int64
  rs_Algorithm :: string
  ActiveKeyVersion :: uint32

record GCRAState =
  TATMicros :: int64
  LastSeenMicros :: int64
  Initialized :: bool

section \<open>Checked arithmetic (gcra.go)\<close>

definition checkedAdd :: "int64 \<Rightarrow> int64 \<Rightarrow> rl_error + int64" where
  "checkedAdd a b =
    (if b > 0 \<and> a > wrap64 (max_int64 - b) then Inl (Sentinel ErrorKindOverflow)
     else if b < 0 \<and> a < wrap64 (min_int64 - b) then Inl (Sentinel ErrorKindOverflow)
     else Inr (wrap64 (a + b)))"

definition checkedSub :: "int64 \<Rightarrow> int64 \<Rightarrow> rl_error + int64" where
  "checkedSub a b =
    (if b > 0 \<and> a < wrap64 (min_int64 + b) then Inl (Sentinel ErrorKindOverflow)
     else if b < 0 \<and> a > wrap64 (max_int64 + b) then Inl (Sentinel ErrorKindOverflow)
     else Inr (wrap64 (a - b)))"

definition checkedMul :: "int64 \<Rightarrow> int64 \<Rightarrow> rl_error + int64" where
  "checkedMul a b =
    (if a = 0 \<or> b = 0 then Inr 0
     else if a = min_int64 \<and> b = -1 \<or> b = min_int64 \<and> a = -1 then Inl (Sentinel ErrorKindOverflow)
     else let r = wrap64 (a * b) in
       if r sdiv b \<noteq> a then Inl (Sentinel ErrorKindOverflow) else Inr r)"

definition checkedCeilDiv :: "int64 \<Rightarrow> int64 \<Rightarrow> rl_error + int64" where
  "checkedCeilDiv numerator denominator =
    (if numerator < 0 \<or> denominator \<le> 0 then Inl (Sentinel ErrorKindOverflow)
     else if numerator = 0 then Inr 0
     else if numerator > wrap64 (max_int64 - (denominator - 1)) then
       (let quotient = numerator sdiv denominator in
        if numerator smod denominator \<noteq> 0 then checkedAdd quotient 1 else Inr quotient)
     else Inr (wrap64 (numerator + denominator - 1) sdiv denominator))"

definition checkedCeilMulDiv :: "int64 \<Rightarrow> int64 \<Rightarrow> int64 \<Rightarrow> rl_error + int64" where
  "checkedCeilMulDiv v multiplier divisor =
    rbind (checkedMul v multiplier) (\<lambda>product. checkedCeilDiv product divisor)"

definition wholeSeconds :: "duration \<Rightarrow> rl_error + int64" where
  "wholeSeconds d =
    (if d \<le> 0 \<or> d smod nanos_per_second \<noteq> 0 then Inl (Sentinel ErrorKindInvalidPolicy)
     else let seconds = d sdiv nanos_per_second in
       if seconds \<le> 0 \<or> seconds > uint MaxSQLInt then Inl (Sentinel ErrorKindInvalidPolicy)
       else Inr seconds)"

definition timeToMicros :: "time \<Rightarrow> rl_error + int64" where
  "timeToMicros t =
    (let seconds = unix_seconds t in
     if seconds < 0 then Inl (domainError ErrorKindInvalidState ''observed_at'')
     else if seconds > max_int64 sdiv microsPerSecond then
       Inl (domainError ErrorKindOverflow ''observed_at'')
     else let micros = wrap64 (seconds * microsPerSecond); part = time_nanosecond t sdiv 1000 in
       if micros > wrap64 (max_int64 - part) then Inl (domainError ErrorKindOverflow ''observed_at'')
       else Inr (wrap64 (micros + part)))"

text \<open>Replacing the error of a step, as the callers do.\<close>

definition on_error :: "'e \<Rightarrow> 'f + 'a \<Rightarrow> 'e + 'a" where
  "on_error e r = (case r of Inl _ \<Rightarrow> Inl e | Inr a \<Rightarrow> Inr a)"

section \<open>The policy and one decision (gcra.go)\<close>

definition Policy_Validate :: "Policy \<Rightarrow> rl_error + unit" where
  "Policy_Validate p =
    (if Revision p \<le> 0 then Inl (domainError ErrorKindInvalidPolicy ''revision'')
     else if Algorithm p \<noteq> AlgorithmGCRAv1 then Inl (domainError ErrorKindInvalidPolicy ''algorithm'')
     else if KeyVersion p = 0 \<or> KeyVersion p > MaxSQLInt then
       Inl (domainError ErrorKindInvalidPolicy ''key_version'')
     else if PerMinute p = 0 \<or> PerMinute p > MaxSQLInt then
       Inl (domainError ErrorKindInvalidPolicy ''per_minute'')
     else if Burst p = 0 \<or> Burst p > MaxSQLInt then Inl (domainError ErrorKindInvalidPolicy ''burst'')
     else
       rbind (on_error (domainError ErrorKindInvalidPolicy ''idle_ttl'') (wholeSeconds (IdleTTL p)))
         (\<lambda>idleSeconds.
       rbind (on_error (domainError ErrorKindInvalidPolicy ''cleanup_interval'')
           (wholeSeconds (CleanupInterval p))) (\<lambda>cleanupSeconds.
       rbind (on_error (domainError ErrorKindInvalidPolicy ''burst'')
           (checkedCeilMulDiv (uint (Burst p)) 60 (uint (PerMinute p)))) (\<lambda>refillSeconds.
         if refillSeconds > max_int64 sdiv 2 then Inl (domainError ErrorKindOverflow ''idle_ttl'')
         else let doubled = wrap64 (refillSeconds * 2); minIdle = (if doubled < 60 then 60 else doubled) in
           if idleSeconds < minIdle then Inl (domainError ErrorKindInvalidPolicy ''idle_ttl'')
           else if cleanupSeconds \<le> 0 \<or> cleanupSeconds \<ge> idleSeconds then
             Inl (domainError ErrorKindInvalidPolicy ''cleanup_interval'')
           else Inr ()))))"

definition IntervalMicroseconds :: "Policy \<Rightarrow> rl_error + int64" where
  "IntervalMicroseconds p =
    rbind (Policy_Validate p) (\<lambda>_. checkedCeilDiv microsPerMinute (uint (PerMinute p)))"

definition ToleranceMicroseconds :: "Policy \<Rightarrow> rl_error + int64" where
  "ToleranceMicroseconds p =
    rbind (IntervalMicroseconds p) (\<lambda>interval. checkedMul (uint (Burst p - 1)) interval)"

text \<open>The seconds a denied caller must wait, as a duration.\<close>

definition retry_after :: "int64 \<Rightarrow> int64 \<Rightarrow> rl_error + duration" where
  "retry_after eligibleAt effectiveNow =
    rbind (on_error (domainError ErrorKindOverflow ''retry_after'') (checkedSub eligibleAt effectiveNow))
      (\<lambda>delta.
    if delta \<le> 0 then Inl (domainError ErrorKindInvalidState ''retry_after'')
    else rbind (on_error (domainError ErrorKindOverflow ''retry_after'') (checkedCeilDiv delta microsPerSecond))
      (\<lambda>seconds0.
      let seconds = (if seconds0 < 1 then 1 else seconds0) in
      if seconds > max_int64 sdiv nanos_per_second then Inl (domainError ErrorKindOverflow ''retry_after'')
      else Inr (wrap64 (seconds * nanos_per_second))))"

text \<open>
  A decision in three parts: whether the bucket exists, the clocks it starts from (a missing
  bucket starts at the current time, and a clock that went back is replaced by the last one
  seen), and the comparison itself.
\<close>

definition initialized :: "GCRAState \<Rightarrow> bool" where
  "initialized state \<longleftrightarrow> Initialized state \<or> TATMicros state \<noteq> 0 \<or> LastSeenMicros state \<noteq> 0"

definition effective_now :: "GCRAState \<Rightarrow> int64 \<Rightarrow> int64" where
  "effective_now state nowMicros =
    (let lastSeen = (if initialized state then LastSeenMicros state else nowMicros) in
     if lastSeen > nowMicros then lastSeen else nowMicros)"

definition decide :: "Policy \<Rightarrow> time \<Rightarrow> int64 \<Rightarrow> int64 \<Rightarrow> int64 \<Rightarrow> int64 \<Rightarrow>
    rl_error + (GCRAState \<times> Decision)" where
  "decide p observedAt interval tolerance tat effectiveNow =
    rbind (on_error (domainError ErrorKindOverflow ''eligible_at'') (checkedSub tat tolerance)) (\<lambda>eligibleAt.
    let allowed = (effectiveNow \<ge> eligibleAt) in
    rbind (if allowed
           then on_error (domainError ErrorKindOverflow ''tat'')
             (checkedAdd (if effectiveNow > tat then effectiveNow else tat) interval)
           else Inr tat) (\<lambda>nextTAT.
    rbind (if allowed then Inr 0 else retry_after eligibleAt effectiveNow) (\<lambda>wait.
      Inr (\<lparr>TATMicros = nextTAT, LastSeenMicros = effectiveNow, Initialized = True\<rparr>,
           \<lparr>Allowed = allowed, RetryAfter = wait, PolicyRevision = Revision p,
            ObservedAt = observedAt\<rparr>))))"

definition Evaluate :: "Policy \<Rightarrow> GCRAState \<Rightarrow> time \<Rightarrow> rl_error + (GCRAState \<times> Decision)" where
  "Evaluate p state observedAt =
    rbind (Policy_Validate p) (\<lambda>_.
    if TATMicros state < 0 \<or> LastSeenMicros state < 0 then Inl (domainError ErrorKindInvalidState ''state'')
    else rbind (timeToMicros observedAt) (\<lambda>nowMicros.
    rbind (IntervalMicroseconds p) (\<lambda>interval.
    rbind (on_error (domainError ErrorKindOverflow ''tolerance'') (checkedMul (uint (Burst p - 1)) interval))
      (\<lambda>tolerance.
    decide p observedAt interval tolerance
      (if initialized state then TATMicros state else nowMicros) (effective_now state nowMicros)))))"

section \<open>The checked operations are exact or refuse\<close>

lemma checkedAdd_eq:
  "in64 a \<Longrightarrow> in64 b \<Longrightarrow> checkedAdd a b =
    (if in64 (a + b) then Inr (a + b) else Inl (Sentinel ErrorKindOverflow))"
proof -
  assume ab: "in64 a" "in64 b"
  then have "0 < b \<Longrightarrow> in64 (max_int64 - b)" "b < 0 \<Longrightarrow> in64 (min_int64 - b)"
    by (simp_all add: int64_defs)
  then show ?thesis using ab by (auto simp: checkedAdd_def) (auto simp: int64_defs)
qed

lemma checkedSub_eq:
  "in64 a \<Longrightarrow> in64 b \<Longrightarrow> checkedSub a b =
    (if in64 (a - b) then Inr (a - b) else Inl (Sentinel ErrorKindOverflow))"
proof -
  assume ab: "in64 a" "in64 b"
  then have "0 < b \<Longrightarrow> in64 (min_int64 + b)" "b < 0 \<Longrightarrow> in64 (max_int64 + b)"
    by (simp_all add: int64_defs)
  then show ?thesis using ab by (auto simp: checkedSub_def) (auto simp: int64_defs)
qed

lemma wrap64_far: "\<not> in64 x \<Longrightarrow> 18446744073709551616 \<le> \<bar>wrap64 x - x\<bar>"
proof -
  assume x: "\<not> in64 x"
  have "wrap64 x - x = - (18446744073709551616 * ((x + 9223372036854775808) div 18446744073709551616))"
    using div_mult_mod_eq [of "x + 9223372036854775808" 18446744073709551616]
    unfolding wrap64_def by linarith
  then obtain k where k: "wrap64 x - x = - (18446744073709551616 * k)" by blast
  have "wrap64 x \<noteq> x" using x in64_wrap64 [of x] by metis
  then have "k \<noteq> 0" using k by auto
  then show ?thesis unfolding k by arith
qed

lemma checkedMul_eq:
  assumes "in64 a" "in64 b" "0 \<le> a" "0 \<le> b"
  shows "checkedMul a b = (if in64 (a * b) then Inr (a * b) else Inl (Sentinel ErrorKindOverflow))"
proof (cases "a = 0 \<or> b = 0")
  case True
  then show ?thesis by (auto simp: checkedMul_def)
next
  case False
  then have pos: "0 < a" "0 < b" using assms by auto
  have *: "checkedMul a b = (if wrap64 (a * b) sdiv b \<noteq> a then Inl (Sentinel ErrorKindOverflow)
      else Inr (wrap64 (a * b)))"
    using pos by (simp add: checkedMul_def int64_defs Let_def)
  show ?thesis
  proof (cases "in64 (a * b)")
    case True
    then show ?thesis using pos * by simp
  next
    case False
    define r where "r = wrap64 (a * b)"
    have far: "18446744073709551616 \<le> \<bar>r - a * b\<bar>" unfolding r_def by (rule wrap64_far [OF False])
    have "r sdiv b \<noteq> a"
    proof
      assume eq: "r sdiv b = a"
      have "0 \<le> r"
      proof (rule ccontr)
        assume "\<not> 0 \<le> r"
        then have "r sdiv b \<le> 0" using pos
          by (simp add: signed_divide_int_def sgn_if pos_imp_zdiv_nonneg_iff)
        then show False using eq pos by simp
      qed
      moreover from this have "a * b \<le> r \<and> r < a * b + b"
        using eq pos(2) by (simp add: div_iff_between)
      ultimately show False using far assms(2) by (simp add: int64_defs)
    qed
    then show ?thesis using * False by (simp add: r_def)
  qed
qed

lemma checkedCeilDiv_eq:
  assumes "in64 n" "in64 d" "0 \<le> n" "0 < d"
  shows "checkedCeilDiv n d = Inr ((n + d - 1) div d)"
proof (cases "n = 0")
  case True
  then show ?thesis using assms by (simp add: checkedCeilDiv_def)
next
  case False
  have w: "wrap64 (max_int64 - (d - 1)) = max_int64 - (d - 1)"
    using assms by (intro wrap64_id) (simp add: int64_defs)
  show ?thesis
  proof (cases "n > max_int64 - (d - 1)")
    case True
    define q r where "q = n div d" and "r = n mod d"
    have nq: "n = q * d + r" "0 \<le> r" "r < d" using assms by (simp_all add: q_def r_def)
    have d1: "d \<noteq> 1" using True assms(1) by (auto simp: int64_defs)
    have "0 \<le> q" using assms by (simp add: q_def pos_imp_zdiv_nonneg_iff)
    then have "2 * q \<le> d * q" using d1 assms by (intro mult_right_mono) auto
    then have "2 * q \<le> n" using nq(1,2) by (simp add: mult.commute)
    then have "in64 (q + 1)" using \<open>0 \<le> q\<close> assms(1) by (simp add: int64_defs)
    moreover have "(n + d - 1) div d = (if r \<noteq> 0 then q + 1 else q)"
      unfolding nq(1) using nq(2,3)
      by (auto simp: div_iff_between algebra_simps)
    moreover have "checkedCeilDiv n d = (if r \<noteq> 0 then checkedAdd q 1 else Inr q)"
      using True assms \<open>n \<noteq> 0\<close> unfolding checkedCeilDiv_def w Let_def q_def r_def by simp
    moreover have "in64 q" using assms by (simp add: q_def flip: sdiv_nonneg) (rule in64_sdiv_pos)
    ultimately show ?thesis by (simp add: checkedAdd_eq)
  next
    case False
    then have "in64 (n + d - 1)" using assms by (simp add: int64_defs)
    then show ?thesis using False w assms \<open>n \<noteq> 0\<close> by (simp add: checkedCeilDiv_def)
  qed
qed

lemma ceil_div_iff: "0 < (d::int) \<Longrightarrow> (n + d - 1) div d = k \<longleftrightarrow> (k - 1) * d < n \<and> n \<le> k * d"
  by (simp add: div_iff_between algebra_simps) linarith

section \<open>What a valid policy gives\<close>

definition interval_us :: "Policy \<Rightarrow> int" where
  "interval_us p = (60000000 + uint (PerMinute p) - 1) div uint (PerMinute p)"

definition burst :: "Policy \<Rightarrow> int" where "burst p = uint (Burst p)"

definition idle_us :: "Policy \<Rightarrow> int" where "idle_us p = IdleTTL p div nanos_per_second * 1000000"

lemma uint_le_sql: "\<not> w > MaxSQLInt \<Longrightarrow> uint w \<le> 2147483647"
  by (simp add: MaxSQLInt_def word_le_def not_less)

lemma valid_policy_words:
  assumes "Policy_Validate p = Inr ()"
  shows "1 \<le> uint (PerMinute p)" "uint (PerMinute p) \<le> 2147483647"
    and "1 \<le> burst p" "burst p \<le> 2147483647" "uint (Burst p - 1) = burst p - 1"
proof -
  have pm: "PerMinute p \<noteq> 0" "\<not> PerMinute p > MaxSQLInt" and b: "Burst p \<noteq> 0" "\<not> Burst p > MaxSQLInt"
    using assms by (auto simp: Policy_Validate_def split: if_splits)
  have pos: "w \<noteq> 0 \<Longrightarrow> 1 \<le> uint w" for w :: uint32
    using uint_nonnegative [of w] by (metis int_one_le_iff_zero_less le_less uint_0_iff)
  show "1 \<le> uint (PerMinute p)" "uint (PerMinute p) \<le> 2147483647"
    "1 \<le> burst p" "burst p \<le> 2147483647"
    using pm b pos uint_le_sql by (auto simp: burst_def)
  show "uint (Burst p - 1) = burst p - 1"
    using uint_sub_lem [of 1 "Burst p", THEN iffD1] \<open>1 \<le> burst p\<close>
    by (simp add: burst_def)
qed

lemma valid_policy_interval:
  assumes "Policy_Validate p = Inr ()"
  shows "IntervalMicroseconds p = Inr (interval_us p)" "1 \<le> interval_us p" "interval_us p \<le> 60000000"
    and "in64 (burst p * interval_us p)" "in64 ((burst p - 1) * interval_us p)"
    and "ToleranceMicroseconds p = Inr ((burst p - 1) * interval_us p)"
proof -
  note w = valid_policy_words [OF assms]
  have ceil: "(interval_us p - 1) * uint (PerMinute p) < 60000000 \<and> 60000000 \<le> interval_us p * uint (PerMinute p)"
    using ceil_div_iff [of "uint (PerMinute p)" 60000000 "interval_us p"] w by (simp add: interval_us_def)
  show one: "1 \<le> interval_us p"
  proof (rule ccontr)
    assume "\<not> 1 \<le> interval_us p"
    then have "interval_us p * uint (PerMinute p) \<le> 0" using w by (simp add: mult_nonpos_nonneg)
    then show False using ceil by simp
  qed
  have "(interval_us p - 1) * 1 \<le> (interval_us p - 1) * uint (PerMinute p)"
    using one w by (intro mult_left_mono) auto
  then show le: "interval_us p \<le> 60000000" using ceil by simp
  have "burst p * interval_us p \<le> 2147483647 * 60000000"
    using w one le by (intro mult_mono) auto
  moreover have nn: "0 \<le> (burst p - 1) * interval_us p" using w one by (intro mult_nonneg_nonneg) auto
  moreover have ex: "(burst p - 1) * interval_us p = burst p * interval_us p - interval_us p"
    by (simp add: left_diff_distrib)
  ultimately show b: "in64 (burst p * interval_us p)" and t: "in64 ((burst p - 1) * interval_us p)"
    using one unfolding in64_def max_int64_def min_int64_def by linarith+
  show i: "IntervalMicroseconds p = Inr (interval_us p)"
    using assms w by (simp add: IntervalMicroseconds_def checkedCeilDiv_eq microsPerMinute_def
        interval_us_def in64_def max_int64_def min_int64_def)
  have "in64 (interval_us p)" "in64 (burst p - 1)" using w one le by (simp_all add: int64_defs)
  then show "ToleranceMicroseconds p = Inr ((burst p - 1) * interval_us p)"
    using w one t by (simp add: ToleranceMicroseconds_def i checkedMul_eq)
qed

text \<open>
  The idle time to live is at least twice the time a full burst takes to refill. Up to one
  request per microsecond (sixty million a minute) the rounded-up interval is less than twice
  the exact one, so an idle bucket has regained its whole burst.
\<close>

lemma valid_policy_idle:
  assumes v: "Policy_Validate p = Inr ()" and pm: "uint (PerMinute p) \<le> 60000000"
  shows "burst p * interval_us p \<le> idle_us p" "60000000 \<le> idle_us p"
proof -
  note w = valid_policy_words [OF v]
  define pmi where "pmi = uint (PerMinute p)"
  obtain idle refill where i: "wholeSeconds (IdleTTL p) = Inr idle"
    and r: "checkedCeilMulDiv (burst p) 60 pmi = Inr refill"
    and big: "\<not> refill > max_int64 sdiv 2"
    and le: "\<not> idle < (if wrap64 (refill * 2) < 60 then 60 else wrap64 (refill * 2))"
    using v by (auto simp: Policy_Validate_def on_error_def Let_def burst_def pmi_def result_simps
        split: if_splits sum.splits)
  have idle: "idle = IdleTTL p div nanos_per_second"
    using i by (auto simp: wholeSeconds_def Let_def nanos_per_second_def split: if_splits)
  have b60: "in64 (burst p * 60)" "in64 (burst p)" "in64 60" "in64 pmi" "1 \<le> pmi"
    using w by (simp_all add: int64_defs pmi_def)
  then have "refill = (burst p * 60 + pmi - 1) div pmi"
    using r w by (simp add: checkedCeilMulDiv_def checkedMul_eq checkedCeilDiv_eq)
  then have refill: "burst p * 60 \<le> refill * pmi" "0 \<le> refill"
    using ceil_div_iff [of pmi "burst p * 60" refill] b60 w by (auto simp: pos_imp_zdiv_nonneg_iff)
  have "in64 (refill * 2)" using big refill(2) by (simp add: int64_defs)
  then have two: "refill * 2 \<le> idle" "60 \<le> idle" using le by (auto split: if_splits)
  then show "60000000 \<le> idle_us p" by (simp add: idle_us_def flip: idle)
  have "(interval_us p - 1) * pmi < 60000000"
    using ceil_div_iff [of pmi 60000000 "interval_us p"] b60 by (simp add: interval_us_def pmi_def)
  then have ip: "interval_us p * pmi \<le> 120000000" using pm by (simp add: pmi_def algebra_simps)
  have "burst p * interval_us p * pmi \<le> burst p * 120000000"
    using ip w by (simp add: mult.assoc mult_left_mono)
  also have "\<dots> \<le> refill * pmi * 2000000" using refill(1) by linarith
  also have "\<dots> \<le> idle * 1000000 * pmi" using two(1) b60(5) by (simp add: mult_right_mono)
  finally show "burst p * interval_us p \<le> idle_us p"
    using b60(5) by (simp add: idle_us_def flip: idle)
qed

section \<open>The clock in microseconds\<close>

definition micros :: "time \<Rightarrow> int" where
  "micros t = (t - 62135596800000000000) div 1000"

lemma micros_mono: "s \<le> t \<Longrightarrow> micros s \<le> micros t"
  by (simp add: micros_def zdiv_mono1)

lemma micros_add: "micros (t + k * 1000) = micros t + k"
proof -
  have "t + k * 1000 - 62135596800000000000 = t - 62135596800000000000 + k * 1000" by simp
  then show ?thesis unfolding micros_def by (simp only: div_mult_self1)
qed

lemma timeToMicros_value:
  assumes "timeToMicros t = Inr m"
  shows "m = micros t" "0 \<le> m" "in64 m"
proof -
  define sec ns where "sec = unix_seconds t" and "ns = t mod 1000000000"
  have t: "t = (sec + 62135596800) * 1000000000 + ns" "0 \<le> ns" "ns < 1000000000"
    using div_mult_mod_eq [of t 1000000000]
    by (simp_all add: sec_def ns_def unix_seconds_def nanos_per_second_def)
  have sec: "0 \<le> sec" "sec \<le> 9223372036854"
    using assms by (auto simp: timeToMicros_def int64_defs Let_def simp flip: sec_def split: if_splits)
  then have i: "in64 (sec * 1000000)" by (simp add: int64_defs)
  have part: "0 \<le> ns div 1000" "ns div 1000 < 1000000" using t by auto
  then have j: "in64 (max_int64 - ns div 1000)" by (simp add: int64_defs)
  have "m = wrap64 (sec * 1000000 + ns div 1000)" "sec * 1000000 \<le> max_int64 - ns div 1000"
    using assms sec i j t(2)
    by (auto simp: timeToMicros_def Let_def microsPerSecond_def time_nanosecond_def nanos_per_second_def
        simp flip: sec_def ns_def split: if_splits)
  then have m: "m = sec * 1000000 + ns div 1000" "0 \<le> m" "in64 m"
    using sec part by (auto simp: int64_defs)
  moreover have "micros t = sec * 1000000 + ns div 1000"
    unfolding micros_def t(1) by simp
  ultimately show "m = micros t" "0 \<le> m" "in64 m" by auto
qed

section \<open>One decision, in closed form\<close>

text \<open>The state a decision starts from: a missing bucket starts at the current time.\<close>

definition tat_of :: "GCRAState \<Rightarrow> time \<Rightarrow> int" where
  "tat_of st t = (if initialized st then TATMicros st else micros t)"

definition eff_now :: "GCRAState \<Rightarrow> time \<Rightarrow> int" where
  "eff_now st t = effective_now st (micros t)"

definition sound_state :: "GCRAState \<Rightarrow> bool" where
  "sound_state st \<longleftrightarrow> in64 (TATMicros st) \<and> in64 (LastSeenMicros st)"

lemma retry_after_value:
  assumes "retry_after e n = Inr d" "in64 e" "in64 n" "0 \<le> n" "n < e"
  shows "d = nanos_per_second * ((e - n + 999999) div 1000000)"
proof -
  have i: "in64 (e - n)" using assms by (simp add: int64_defs)
  define k where "k = (e - n + 999999) div 1000000"
  have "1 \<le> k" using assms(5) by (simp add: k_def)
  moreover have "checkedCeilDiv (e - n) microsPerSecond = Inr k"
    using assms i checkedCeilDiv_eq [of "e - n" microsPerSecond]
    by (simp add: k_def microsPerSecond_def in64_def max_int64_def min_int64_def)
  ultimately have "k \<le> 9223372036" "d = wrap64 (k * nanos_per_second)"
    using assms i
    by (auto simp: retry_after_def on_error_def checkedSub_eq result_simps Let_def int64_defs
        split: if_splits)
  then show ?thesis using \<open>1 \<le> k\<close> by (simp add: int64_defs flip: k_def)
qed

lemma Evaluate_facts:
  assumes e: "Evaluate p st t = Inr (st', d)" and st: "sound_state st"
  shows "Policy_Validate p = Inr ()" "timeToMicros t = Inr (micros t)"
    and "0 \<le> tat_of st t" "0 \<le> eff_now st t" "in64 (eff_now st t)"
    and "Allowed d \<longleftrightarrow> tat_of st t - (burst p - 1) * interval_us p \<le> eff_now st t"
    and "TATMicros st' = (if Allowed d then max (eff_now st t) (tat_of st t) + interval_us p else tat_of st t)"
    and "LastSeenMicros st' = eff_now st t" "Initialized st'" "sound_state st'"
    and "\<not> Allowed d \<Longrightarrow> RetryAfter d = nanos_per_second *
      ((tat_of st t - (burst p - 1) * interval_us p - eff_now st t + 999999) div 1000000)"
proof -
  show v: "Policy_Validate p = Inr ()"
    using e by (auto simp: Evaluate_def result_simps)
  obtain m where m: "timeToMicros t = Inr m"
    using e by (auto simp: Evaluate_def result_simps split: if_splits)
  note mv = timeToMicros_value [OF m]
  show tm: "timeToMicros t = Inr (micros t)" using m mv(1) by simp
  define tat eff tol I where "tat = tat_of st t" and "eff = eff_now st t"
    and "tol = (burst p - 1) * interval_us p" and "I = interval_us p"
  have n0: "0 \<le> TATMicros st" "0 \<le> LastSeenMicros st"
    using e by (auto simp: Evaluate_def result_simps split: if_splits)
  note w = valid_policy_words [OF v] and iv = valid_policy_interval [OF v]
  have tat: "0 \<le> tat" "in64 tat" and eff: "0 \<le> eff" "in64 eff"
    using n0 st mv by (auto simp: tat_def eff_def tat_of_def eff_now_def effective_now_def Let_def sound_state_def)
  then show "0 \<le> tat_of st t" "0 \<le> eff_now st t" "in64 (eff_now st t)"
    by (simp_all add: tat_def eff_def)
  have tol: "0 \<le> tol" "in64 tol" "in64 I" "checkedMul (uint (Burst p - 1)) I = Inr tol"
    using w iv checkedMul_eq [of "burst p - 1" I] by (auto simp: tol_def I_def int64_defs)
  have el: "in64 (tat - tol)" using tat tol by (simp add: in64_diff_nonneg)
  have vals: "(if initialized st then TATMicros st else m) = tat" "effective_now st m = eff"
    using mv(1) by (simp_all add: tat_def eff_def tat_of_def eff_now_def)
  have step: "decide p t I tol tat eff = Inr (st', d)"
    using e v m n0 iv(1) tol(4)
    by (simp add: Evaluate_def on_error_def vals I_def)
  note dec = step [unfolded decide_def Let_def on_error_def checkedSub_eq [OF tat(2) tol(2)]]
  show "Allowed d \<longleftrightarrow> tat_of st t - (burst p - 1) * interval_us p \<le> eff_now st t"
    and "LastSeenMicros st' = eff_now st t" "Initialized st'"
    using dec el by (auto simp: result_simps simp flip: tat_def eff_def tol_def)
  have mx: "in64 (if eff > tat then eff else tat)" using tat eff by simp
  show "TATMicros st' = (if Allowed d then max (eff_now st t) (tat_of st t) + interval_us p else tat_of st t)"
    and "sound_state st'"
    using dec el tat eff tol mx
    by (auto simp: result_simps on_error_def checkedAdd_eq sound_state_def max_def
        simp flip: tat_def eff_def tol_def I_def split: if_splits sum.splits)
  show "\<not> Allowed d \<Longrightarrow> RetryAfter d = nanos_per_second *
      ((tat_of st t - (burst p - 1) * interval_us p - eff_now st t + 999999) div 1000000)"
  proof -
    assume "\<not> Allowed d"
    then have "eff < tat - tol" and "retry_after (tat - tol) eff = Inr (RetryAfter d)"
      using dec el by (auto simp: result_simps split: if_splits)
    then show ?thesis using retry_after_value el eff by (simp add: tat_def eff_def tol_def)
  qed
qed

section \<open>One bucket\<close>

fun evaluate_all :: "Policy \<Rightarrow> GCRAState \<Rightarrow> time list \<Rightarrow> rl_error + (GCRAState \<times> Decision list)" where
  "evaluate_all p st [] = Inr (st, [])"
| "evaluate_all p st (t # ts) = rbind (Evaluate p st t) (\<lambda>(st', d).
     rbind (evaluate_all p st' ts) (\<lambda>(st'', ds). Inr (st'', d # ds)))"

definition allowed_count :: "Decision list \<Rightarrow> int" where
  "allowed_count ds = int (length (filter Allowed ds))"

definition empty_bucket :: GCRAState where
  "empty_bucket = \<lparr>TATMicros = 0, LastSeenMicros = 0, Initialized = False\<rparr>"

text \<open>The theoretical arrival time is at most a full burst ahead of the last clock seen.\<close>

definition bounded_state :: "Policy \<Rightarrow> GCRAState \<Rightarrow> bool" where
  "bounded_state p st \<longleftrightarrow> sound_state st \<and> Initialized st
     \<and> TATMicros st \<le> LastSeenMicros st + burst p * interval_us p"

lemma empty_bucket_sound [simp]: "sound_state empty_bucket" "\<not> initialized empty_bucket"
  by (simp_all add: sound_state_def empty_bucket_def initialized_def)

lemma Evaluate_step:
  assumes e: "Evaluate p st t = Inr (st', d)" and st: "bounded_state p st \<or> st = empty_bucket"
  shows "bounded_state p st'"
    and "TATMicros st' \<ge> tat_of st t + (if Allowed d then interval_us p else 0)"
    and "LastSeenMicros st' = (if initialized st then max (LastSeenMicros st) (micros t) else micros t)"
proof -
  have snd: "sound_state st" using st by (auto simp: bounded_state_def)
  note f = Evaluate_facts [OF e snd] and iv = valid_policy_interval [OF Evaluate_facts(1) [OF e snd]]
  show last: "LastSeenMicros st' = (if initialized st then max (LastSeenMicros st) (micros t) else micros t)"
    using f(8) by (auto simp: eff_now_def effective_now_def Let_def max_def)
  have B: "burst p * interval_us p = (burst p - 1) * interval_us p + interval_us p"
    by (simp add: left_diff_distrib)
  have "\<not> Allowed d \<Longrightarrow> st \<noteq> empty_bucket"
    using f(6) valid_policy_words(3) [OF f(1)] iv(2)
    by (auto simp: tat_of_def eff_now_def effective_now_def Let_def)
  then have "tat_of st t \<le> eff_now st t + burst p * interval_us p" if "\<not> Allowed d"
    using that st by (auto simp: bounded_state_def tat_of_def eff_now_def effective_now_def
        initialized_def Let_def)
  moreover have "eff_now st t + interval_us p \<le> eff_now st t + burst p * interval_us p"
    using valid_policy_words(3) [OF f(1)] iv(2) by (simp add: B)
  ultimately show "bounded_state p st'"
    using f(6,7,8,9,10) B by (auto simp: bounded_state_def)
  show "TATMicros st' \<ge> tat_of st t + (if Allowed d then interval_us p else 0)"
    using f(7) by simp
qed

lemma Max_insert_max:
  "finite S \<Longrightarrow> Max (insert (max a b) S) = Max (insert a (insert b S))" for a b :: int
  by (cases "S = {}") (simp_all add: max.assoc)

lemma evaluate_all_bounds:
  assumes "evaluate_all p st ts = Inr (st', ds)" "bounded_state p st"
  shows "bounded_state p st'" "TATMicros st + allowed_count ds * interval_us p \<le> TATMicros st'"
    and "LastSeenMicros st' = Max (insert (LastSeenMicros st) (micros ` set ts))"
  using assms
proof (induction ts arbitrary: st ds)
  case Nil
  { case 1 then show ?case by simp }
  { case 2 then show ?case by (simp add: allowed_count_def) }
  { case 3 then show ?case by simp }
next
  case (Cons t ts)
  have step: "\<exists>st1 d ds'. Evaluate p st t = Inr (st1, d) \<and> evaluate_all p st1 ts = Inr (st', ds') \<and> ds = d # ds'
      \<and> bounded_state p st1 \<and> TATMicros st1 \<ge> TATMicros st + (if Allowed d then interval_us p else 0)
      \<and> LastSeenMicros st1 = max (LastSeenMicros st) (micros t)"
    if run: "evaluate_all p st (t # ts) = Inr (st', ds)" and b: "bounded_state p st" for st ds
  proof -
    obtain st1 d ds' where e: "Evaluate p st t = Inr (st1, d)" "evaluate_all p st1 ts = Inr (st', ds')" "ds = d # ds'"
      using run by (auto simp: result_simps)
    have "initialized st" using b by (simp add: bounded_state_def initialized_def)
    then show ?thesis using e Evaluate_step [OF e(1)] b by (auto simp: tat_of_def)
  qed
  { case 1
    then obtain st1 ds' where "evaluate_all p st1 ts = Inr (st', ds')" "bounded_state p st1"
      using step [OF 1] by blast
    then show ?case by (rule Cons.IH(1)) }
  { case 2
    then obtain st1 d ds' where s: "evaluate_all p st1 ts = Inr (st', ds')" "ds = d # ds'" "bounded_state p st1"
      "TATMicros st1 \<ge> TATMicros st + (if Allowed d then interval_us p else 0)"
      using step [OF 2] by blast
    then show ?case using Cons.IH(2) [OF s(1,3)]
      by (auto simp: allowed_count_def algebra_simps split: if_splits) }
  { case 3
    then obtain st1 ds' where s: "evaluate_all p st1 ts = Inr (st', ds')" "bounded_state p st1"
      "LastSeenMicros st1 = max (LastSeenMicros st) (micros t)"
      using step [OF 3] by blast
    then show ?case
      using Cons.IH(3) [OF s(1,2)] Max_insert_max [of "micros ` set ts" "LastSeenMicros st" "micros t"] by simp }
qed

text \<open>
  C6. The limiter's guarantee for one bucket, whatever the clock does. Starting from an
  empty bucket, over any sequence of calls at any times (the clock may stand still or go
  back), the number of allowed calls times the interval is at most a full burst plus the time
  from the first call to the latest time ever observed: going back in time buys nothing.
\<close>

theorem gcra_capacity:
  assumes "evaluate_all p empty_bucket (t # ts) = Inr (st, ds)"
  shows "allowed_count ds * interval_us p \<le>
    burst p * interval_us p + (Max (micros ` set (t # ts)) - micros t)"
proof -
  obtain st1 d ds' where e: "Evaluate p empty_bucket t = Inr (st1, d)"
    and r: "evaluate_all p st1 ts = Inr (st, ds')" and ds: "ds = d # ds'"
    using assms by (auto simp: result_simps)
  note s = Evaluate_step [OF e disjI2 [OF refl]]
  have "micros t + allowed_count ds * interval_us p \<le> TATMicros st"
    using evaluate_all_bounds(2) [OF r s(1)] s(2)
    by (auto simp: tat_of_def ds allowed_count_def algebra_simps split: if_splits)
  moreover have "LastSeenMicros st = Max (micros ` set (t # ts))"
    using evaluate_all_bounds(3) [OF r s(1)] s(3) by simp
  ultimately show ?thesis using evaluate_all_bounds(1) [OF r s(1)] by (simp add: bounded_state_def)
qed

definition example_policy :: Policy where
  "example_policy = \<lparr>Revision = 1, Algorithm = ''gcra-v1'', KeyVersion = 1, PerMinute = 60, Burst = 2,
     IdleTTL = 60000000000, CleanupInterval = 30000000000\<rparr>"

definition example_time :: time where "example_time = 63900000000000000000"

definition example_run :: "rl_error + (GCRAState \<times> Decision list)" where
  "example_run = evaluate_all example_policy empty_bucket
     [example_time, example_time, example_time, example_time + 1000000000]"

lemma example_run_value:
  "case example_run of Inr (st, ds) \<Rightarrow> map Allowed ds = [True, True, False, True] | Inl _ \<Rightarrow> False"
  by code_simp

theorem gcra_capacity_witness:
  "\<exists>st ds. example_run = Inr (st, ds) \<and> allowed_count ds = 3 \<and> allowed_count ds * interval_us example_policy \<le>
    burst example_policy * interval_us example_policy
      + (Max (micros ` set [example_time, example_time, example_time, example_time + 1000000000])
         - micros example_time)"
proof -
  obtain st ds where run: "example_run = Inr (st, ds)" and m: "map Allowed ds = [True, True, False, True]"
    using example_run_value by (auto split: sum.splits)
  have "allowed_count ds = int (length (filter id (map Allowed ds)))"
    by (simp add: allowed_count_def filter_map)
  then have "allowed_count ds = 3" by (simp add: m)
  with gcra_capacity [OF run [unfolded example_run_def]] run show ?thesis by blast
qed

text \<open>Decisions computed forwards, when nothing overflows.\<close>

lemma Evaluate_forward:
  assumes v: "Policy_Validate p = Inr ()" and t: "timeToMicros t = Inr (micros t)"
    and st: "sound_state st" "0 \<le> TATMicros st" "0 \<le> LastSeenMicros st"
    and tat: "tat = tat_of st t" and eff: "eff = eff_now st t"
  shows "tat - (burst p - 1) * interval_us p \<le> eff \<Longrightarrow> in64 (max eff tat + interval_us p) \<Longrightarrow>
      Evaluate p st t = Inr (\<lparr>TATMicros = max eff tat + interval_us p, LastSeenMicros = eff, Initialized = True\<rparr>,
        \<lparr>Allowed = True, RetryAfter = 0, PolicyRevision = Revision p, ObservedAt = t\<rparr>)"
    and "eff < tat - (burst p - 1) * interval_us p \<Longrightarrow>
      tat - (burst p - 1) * interval_us p - eff \<le> 9000000000000000 \<Longrightarrow>
      \<exists>d. Evaluate p st t = Inr (\<lparr>TATMicros = tat, LastSeenMicros = eff, Initialized = True\<rparr>, d) \<and> \<not> Allowed d"
proof -
  note w = valid_policy_words [OF v] and iv = valid_policy_interval [OF v]
    and mv = timeToMicros_value(2,3) [OF t]
  define tol where "tol = (burst p - 1) * interval_us p"
  have tat0: "0 \<le> tat" "in64 tat" and eff0: "0 \<le> eff" "in64 eff"
    using st mv by (auto simp: tat eff tat_of_def eff_now_def effective_now_def Let_def sound_state_def)
  have tol: "0 \<le> tol" "in64 tol" "checkedMul (uint (Burst p - 1)) (interval_us p) = Inr tol"
    using w iv checkedMul_eq [of "burst p - 1" "interval_us p"]
    by (auto simp: tol_def int64_defs)
  have el: "in64 (tat - tol)" using tat0 tol by (simp add: in64_diff_nonneg)
  have I: "in64 (interval_us p)" using iv(2,3) by (simp add: int64_defs)
  have ev: "Evaluate p st t = decide p t (interval_us p) tol tat eff"
    using v t st iv(1) tol(3) by (simp add: Evaluate_def on_error_def tat eff tat_of_def eff_now_def)
  show "tat - (burst p - 1) * interval_us p \<le> eff \<Longrightarrow> in64 (max eff tat + interval_us p) \<Longrightarrow>
      Evaluate p st t = Inr (\<lparr>TATMicros = max eff tat + interval_us p, LastSeenMicros = eff, Initialized = True\<rparr>,
        \<lparr>Allowed = True, RetryAfter = 0, PolicyRevision = Revision p, ObservedAt = t\<rparr>)"
    using tat0 eff0 tol el I
    by (cases "tat < eff") (simp_all add: ev decide_def on_error_def checkedSub_eq checkedAdd_eq max_def
        flip: tol_def)
  assume late: "eff < tat - (burst p - 1) * interval_us p"
    "tat - (burst p - 1) * interval_us p - eff \<le> 9000000000000000"
  have "in64 (tat - tol - eff)" using late by (simp add: int64_defs flip: tol_def)
  moreover have "checkedCeilDiv (tat - tol - eff) microsPerSecond = Inr ((tat - tol - eff + 999999) div 1000000)"
    using late calculation checkedCeilDiv_eq [of "tat - tol - eff" microsPerSecond]
    by (simp add: microsPerSecond_def in64_def max_int64_def min_int64_def flip: tol_def)
  moreover have "(tat - tol - eff + 999999) div 1000000 \<le> 9000000001"
    using late(2) by (simp flip: tol_def)
  ultimately have "\<exists>r. retry_after (tat - tol) eff = Inr r"
    using late(1) el eff0
    by (simp add: retry_after_def on_error_def checkedSub_eq Let_def int64_defs flip: tol_def)
  then show "\<exists>d. Evaluate p st t = Inr (\<lparr>TATMicros = tat, LastSeenMicros = eff, Initialized = True\<rparr>, d) \<and> \<not> Allowed d"
    using late(1) tat0 tol el by (auto simp: ev decide_def on_error_def checkedSub_eq simp flip: tol_def)
qed

text \<open>From a bucket that has used \<open>k\<close> of its burst, at an unchanged instant.\<close>

lemma burst_run:
  assumes v: "Policy_Validate p = Inr ()" and t: "timeToMicros t = Inr (micros t)"
    and room: "in64 (micros t + burst p * interval_us p)"
    and st: "st = \<lparr>TATMicros = micros t + k * interval_us p, LastSeenMicros = micros t, Initialized = True\<rparr>"
    and k: "0 \<le> k" "k \<le> burst p"
  shows "\<exists>st' ds. evaluate_all p st (replicate n t) = Inr (st', ds)
    \<and> map Allowed ds = map (\<lambda>i. k + int i < burst p) [0..<n]"
  using st k
proof (induction n arbitrary: st k)
  case 0
  then show ?case by simp
next
  case (Suc n)
  note iv = valid_policy_interval [OF v] and mv = timeToMicros_value(2,3) [OF t]
  define I where "I = interval_us p"
  have kI: "0 \<le> k * I" "k * I \<le> burst p * I"
    using Suc.prems iv(2) by (auto simp: I_def intro: mult_right_mono)
  then have tk: "in64 (micros t + k * I)" "0 \<le> micros t + k * I"
    using room mv by (auto simp: int64_defs simp flip: I_def)
  have vals: "tat_of st t = micros t + k * I" "eff_now st t = micros t" "sound_state st"
    "0 \<le> TATMicros st" "0 \<le> LastSeenMicros st"
    using tk mv Suc.prems(1)
    by (simp_all add: tat_of_def eff_now_def effective_now_def initialized_def sound_state_def I_def)
  note fwd = Evaluate_forward [OF v t vals(3,4,5) vals(1,2) [symmetric]]
  have shift: "map (\<lambda>i. k + int i < burst p) [0..<Suc n] =
      (k < burst p) # map (\<lambda>i. k + 1 + int i < burst p) [0..<n]"
    by (simp add: map_upt_Suc add_ac del: upt_Suc)
  show ?case
  proof (cases "k < burst p")
    case True
    have "k * I \<le> (burst p - 1) * I" "(k + 1) * I \<le> burst p * I"
      using True iv(2) by (auto simp: I_def intro: mult_right_mono)
    moreover have "0 \<le> (k + 1) * I" using Suc.prems iv(2) by (simp add: I_def)
    ultimately have "in64 (micros t + (k + 1) * I)"
      using room mv by (auto simp: int64_defs simp flip: I_def)
    then have e: "Evaluate p st t = Inr (\<lparr>TATMicros = micros t + (k + 1) * I, LastSeenMicros = micros t,
        Initialized = True\<rparr>, \<lparr>Allowed = True, RetryAfter = 0, PolicyRevision = Revision p, ObservedAt = t\<rparr>)"
      using fwd(1) kI \<open>k * I \<le> (burst p - 1) * I\<close> by (simp add: algebra_simps max_def flip: I_def)
    obtain st' ds where "evaluate_all p \<lparr>TATMicros = micros t + (k + 1) * I, LastSeenMicros = micros t,
        Initialized = True\<rparr> (replicate n t) = Inr (st', ds)"
      "map Allowed ds = map (\<lambda>i. k + 1 + int i < burst p) [0..<n]"
      using Suc.IH [of _ "k + 1"] True Suc.prems(2) by (auto simp: I_def)
    then show ?thesis using e True shift by simp
  next
    case False
    then have kb: "k = burst p" using Suc.prems by simp
    have "k * I - (burst p - 1) * I = I" by (simp add: kb left_diff_distrib)
    then obtain d where e: "Evaluate p st t = Inr (\<lparr>TATMicros = micros t + k * I,
        LastSeenMicros = micros t, Initialized = True\<rparr>, d)" and d: "\<not> Allowed d"
      using fwd(2) iv(2,3) by (auto simp: algebra_simps simp flip: I_def)
    obtain st' ds where "evaluate_all p \<lparr>TATMicros = micros t + k * I, LastSeenMicros = micros t,
        Initialized = True\<rparr> (replicate n t) = Inr (st', ds)"
      "map Allowed ds = map (\<lambda>i. k + int i < burst p) [0..<n]"
      using Suc.IH [of _ k] Suc.prems by (auto simp: I_def)
    then show ?thesis using e d kb unfolding shift by simp
  qed
qed

text \<open>
  The burst is exact. With a valid policy and a readable clock, calls at one instant on
  an empty bucket are all decided, the first \<open>Burst\<close> of them are allowed and every later
  one is denied: nothing is lost to a warm-up and nothing is given away.
\<close>

theorem gcra_burst_exact:
  assumes "Policy_Validate p = Inr ()" "timeToMicros t = Inr m" "in64 (m + burst p * interval_us p)"
  shows "\<exists>st ds. evaluate_all p empty_bucket (replicate n t) = Inr (st, ds)
    \<and> map Allowed ds = map (\<lambda>i. int i < burst p) [0..<n]"
proof (cases n)
  case (Suc k)
  have m: "m = micros t" and t: "timeToMicros t = Inr (micros t)"
    using timeToMicros_value(1) [OF assms(2)] assms(2) by auto
  note w = valid_policy_words [OF assms(1)] and iv = valid_policy_interval [OF assms(1)]
  have vals: "tat_of empty_bucket t = micros t" "eff_now empty_bucket t = micros t"
    by (simp_all add: tat_of_def eff_now_def effective_now_def)
  have "0 \<le> (burst p - 1) * interval_us p" using w iv(2) by simp
  moreover have "interval_us p \<le> burst p * interval_us p" using w iv(2) by simp
  then have "in64 (micros t + interval_us p)"
    using assms(3) iv(2) timeToMicros_value(2,3) [OF t]
    unfolding m in64_def max_int64_def min_int64_def by linarith
  ultimately have e: "Evaluate p empty_bucket t = Inr (\<lparr>TATMicros = micros t + interval_us p,
      LastSeenMicros = micros t, Initialized = True\<rparr>,
      \<lparr>Allowed = True, RetryAfter = 0, PolicyRevision = Revision p, ObservedAt = t\<rparr>)"
    using Evaluate_forward(1) [OF assms(1) t empty_bucket_sound(1) _ _ vals [symmetric]]
    by (simp add: empty_bucket_def)
  obtain st ds where "evaluate_all p \<lparr>TATMicros = micros t + interval_us p,
      LastSeenMicros = micros t, Initialized = True\<rparr> (replicate k t) = Inr (st, ds)"
    "map Allowed ds = map (\<lambda>i. 1 + int i < burst p) [0..<k]"
    using burst_run [OF assms(1) t assms(3) [unfolded m], of _ 1 k] w by auto
  moreover have "map (\<lambda>i. int i < burst p) [0..<Suc k] = True # map (\<lambda>i. 1 + int i < burst p) [0..<k]"
    using w by (simp add: map_upt_Suc del: upt_Suc)
  ultimately show ?thesis using e by (simp add: Suc del: upt_Suc)
qed simp

theorem gcra_burst_exact_witness:
  "\<exists>st ds. evaluate_all example_policy empty_bucket (replicate 3 example_time) = Inr (st, ds)
    \<and> map Allowed ds = [True, True, False]"
proof -
  have "Policy_Validate example_policy = Inr ()" by code_simp
  moreover have "timeToMicros example_time = Inr 1764403200000000" by code_simp
  moreover have "in64 (1764403200000000 + burst example_policy * interval_us example_policy)" by code_simp
  moreover have "map (\<lambda>i. int i < burst example_policy) [0..<3] = [True, True, False]" by code_simp
  ultimately show ?thesis using gcra_burst_exact [of example_policy example_time 1764403200000000 3] by metis
qed

text \<open>
  \<open>Retry-After\<close> is right to the second. When a call is denied (its clock not behind the
  bucket), the caller who waits the announced time is allowed, and any call decided more than
  a second earlier than announced is denied again.
\<close>

theorem retry_after_exact:
  assumes deny: "Evaluate p st t = Inr (st1, d)" "\<not> Allowed d"
    and st: "bounded_state p st" "LastSeenMicros st \<le> micros t"
    and again: "Evaluate p st1 t' = Inr (st2, d')"
  shows "(t + RetryAfter d \<le> t' \<longrightarrow> Allowed d')
    \<and> (t \<le> t' \<and> t' + nanos_per_second \<le> t + RetryAfter d \<longrightarrow> \<not> Allowed d')"
proof -
  have s: "sound_state st" and init: "initialized st" using st(1) by (auto simp: bounded_state_def initialized_def)
  note f = Evaluate_facts [OF deny(1) s]
  have eff: "eff_now st t = micros t" using st(2) by (simp add: eff_now_def effective_now_def Let_def)
  define el where "el = TATMicros st - (burst p - 1) * interval_us p"
  have late: "micros t < el" using f(6) deny(2) init by (simp add: tat_of_def eff el_def)
  define k where "k = (el - micros t + 999999) div 1000000"
  have k: "el - micros t \<le> k * 1000000" "(k - 1) * 1000000 < el - micros t"
    using ceil_div_iff [of 1000000 "el - micros t" k] by (simp_all add: k_def)
  have ra: "RetryAfter d = k * 1000000 * 1000"
    using f(11) deny(2) init by (simp add: tat_of_def eff el_def k_def nanos_per_second_def)
  have st1: "TATMicros st1 = TATMicros st" "LastSeenMicros st1 = micros t" "initialized st1"
    using f(7,8,9) deny(2) init by (auto simp: tat_of_def eff initialized_def)
  note f' = Evaluate_facts [OF again f(10)]
  have al: "Allowed d' \<longleftrightarrow> el \<le> max (micros t) (micros t')"
    using f'(6) st1 by (simp add: tat_of_def eff_now_def effective_now_def Let_def el_def max_def)
  show ?thesis
  proof (intro conjI impI)
    assume "t + RetryAfter d \<le> t'"
    then have "micros t + k * 1000000 \<le> micros t'"
      using micros_mono [of "t + k * 1000000 * 1000" t'] by (simp only: micros_add ra)
    then show "Allowed d'" using k(1) al by simp
  next
    assume "t \<le> t' \<and> t' + nanos_per_second \<le> t + RetryAfter d"
    then have "t' + 1000000 * 1000 \<le> t + k * 1000000 * 1000" by (simp add: ra nanos_per_second_def)
    then have "micros t' + 1000000 \<le> micros t + k * 1000000"
      using micros_mono [of "t' + 1000000 * 1000" "t + k * 1000000 * 1000"] by (simp only: micros_add)
    then have "micros t' < el" using k(2) by (simp add: algebra_simps)
    then show "\<not> Allowed d'" using late al by simp
  qed
qed

theorem retry_after_exact_witness:
  "\<exists>st st1 d st2 d'. Evaluate example_policy st example_time = Inr (st1, d) \<and> \<not> Allowed d
    \<and> Evaluate example_policy st1 (example_time + RetryAfter d) = Inr (st2, d') \<and> Allowed d'"
proof -
  define st where "st = \<lparr>TATMicros = 1764403202000000, LastSeenMicros = 1764403200000000, Initialized = True\<rparr>"
  define d where "d = \<lparr>Allowed = False, RetryAfter = 1000000000, PolicyRevision = 1, ObservedAt = example_time\<rparr>"
  define d' where "d' = \<lparr>Allowed = True, RetryAfter = 0, PolicyRevision = 1,
    ObservedAt = example_time + 1000000000\<rparr>"
  define st2 where "st2 = \<lparr>TATMicros = 1764403203000000, LastSeenMicros = 1764403201000000, Initialized = True\<rparr>"
  have e: "Evaluate example_policy st example_time = Inr (st, d)"
    unfolding st_def d_def by code_simp
  have e': "Evaluate example_policy st (example_time + RetryAfter d) = Inr (st2, d')"
    unfolding st_def d_def d'_def st2_def by code_simp
  have b: "bounded_state example_policy st" "LastSeenMicros st \<le> micros example_time" "\<not> Allowed d"
    unfolding st_def d_def by code_simp+
  have "Allowed d'" using retry_after_exact [OF e b(3,1,2) e'] by simp
  then show ?thesis using e e' b(3) by blast
qed

end
