(* ===== verification/RateStore.thy ===== *)
theory RateStore
  imports RateLimit
begin

text \<open>
  The process-local rate-limit store (\<open>ratelimit/memory.go\<close>): construction, readiness,
  the atomic consume with its idle sweep, and the store's guarantee, proved in the locale
  \<open>debt_store\<close> and inherited by interpretation.
\<close>

section \<open>The store\<close>

text \<open>A context is nil or has an error that may be nil. A nil receiver is not modelled.\<close>

datatype go_context = NilContext | Ctx "rl_error option"

record MemoryStore =
  policy :: Policy
  policyErr :: "rl_error option"
  environment :: string
  buckets :: "BucketKey \<rightharpoonup> GCRAState"
  lastSweepUs :: int64
  hasLastSweep :: bool

definition isKnownEnvironment :: "string \<Rightarrow> bool" where
  "isKnownEnvironment v \<longleftrightarrow> v \<in> set [''development'', ''staging'', ''production'']"

definition newMemoryStore :: "string \<Rightarrow> Policy \<Rightarrow> MemoryStore" where
  "newMemoryStore env p =
    \<lparr>policy = p,
     policyErr = (if env \<noteq> [] \<and> \<not> isKnownEnvironment env
        then Some (domainError ErrorKindInvalidKey ''environment'')
        else case Policy_Validate p of Inl e \<Rightarrow> Some e | Inr _ \<Rightarrow> None),
     environment = env, buckets = Map.empty, lastSweepUs = 0, hasLastSweep = False\<rparr>"

definition NewMemoryStoreWithError :: "Policy \<Rightarrow> rl_error + MemoryStore" where
  "NewMemoryStoreWithError p =
    (let store = newMemoryStore [] p in
     case policyErr store of Some e \<Rightarrow> Inl e | None \<Rightarrow> Inr store)"

definition NewMemoryStoreWithOptions :: "string \<Rightarrow> Policy \<Rightarrow> rl_error + MemoryStore" where
  "NewMemoryStoreWithOptions env p =
    (let store = newMemoryStore env p in
     case policyErr store of Some e \<Rightarrow> Inl e | None \<Rightarrow> Inr store)"

definition validateBucketKey :: "BucketKey \<Rightarrow> Policy \<Rightarrow> string \<Rightarrow> rl_error + unit" where
  "validateBucketKey key p boundEnvironment =
    (if \<not> isKnownEnvironment (bk_Environment key) then Inl (domainError ErrorKindInvalidKey ''environment'')
     else if boundEnvironment \<noteq> [] \<and> bk_Environment key \<noteq> boundEnvironment then
       Inl (domainError ErrorKindPolicyMismatch ''environment'')
     else if bk_KeyVersion key = 0 \<or> bk_KeyVersion key > MaxSQLInt then
       Inl (domainError ErrorKindInvalidKey ''key_version'')
     else if bk_KeyVersion key \<noteq> KeyVersion p then Inl (domainError ErrorKindPolicyMismatch ''key_version'')
     else Inr ())"

definition sweep_bucket :: "int64 \<Rightarrow> int64 \<Rightarrow> GCRAState option \<Rightarrow> GCRAState option" where
  "sweep_bucket nowUs idle b = (case b of None \<Rightarrow> None | Some state \<Rightarrow>
     if nowUs \<ge> LastSeenMicros state \<and> wrap64 (nowUs - LastSeenMicros state) \<ge> idle then None
     else Some state)"

text \<open>The store and, if the sweep failed, its error: the sweep time is stored before the second product.\<close>

definition sweepLocked :: "MemoryStore \<Rightarrow> int64 \<Rightarrow> MemoryStore \<times> rl_error option" where
  "sweepLocked s nowUs =
    (case checkedMul (CleanupInterval (policy s) sdiv nanos_per_second) microsPerSecond of
       Inl _ \<Rightarrow> (s, Some (domainError ErrorKindOverflow ''cleanup_interval''))
     | Inr interval \<Rightarrow>
       if hasLastSweep s \<and> (nowUs < lastSweepUs s \<or> wrap64 (nowUs - lastSweepUs s) < interval)
       then (s, None)
       else let s = s\<lparr>lastSweepUs := nowUs, hasLastSweep := True\<rparr> in
         (case checkedMul (IdleTTL (policy s) sdiv nanos_per_second) microsPerSecond of
            Inl _ \<Rightarrow> (s, Some (domainError ErrorKindOverflow ''idle_ttl''))
          | Inr idle \<Rightarrow> (s\<lparr>buckets := \<lambda>key. sweep_bucket nowUs idle (buckets s key)\<rparr>, None)))"

definition Consume :: "go_context \<Rightarrow> MemoryStore \<Rightarrow> BucketKey \<Rightarrow> time \<Rightarrow> MemoryStore \<times> (rl_error + Decision)" where
  "Consume ctx s key now =
    (case ctx of NilContext \<Rightarrow> (s, Inl (domainError ErrorKindInvalidKey ''context''))
     | Ctx (Some e) \<Rightarrow> (s, Inl e)
     | Ctx None \<Rightarrow>
       (case policyErr s of Some e \<Rightarrow> (s, Inl e)
        | None \<Rightarrow>
          (case validateBucketKey key (policy s) (environment s) of Inl e \<Rightarrow> (s, Inl e)
           | Inr _ \<Rightarrow>
             (case timeToMicros now of Inl e \<Rightarrow> (s, Inl e)
              | Inr nowUs \<Rightarrow>
                (case sweepLocked s nowUs of (s, Some e) \<Rightarrow> (s, Inl e)
                 | (s, None) \<Rightarrow>
                   (let state = (case buckets s key of None \<Rightarrow> empty_bucket | Some st \<Rightarrow> st) in
                    case Evaluate (policy s) state now of Inl e \<Rightarrow> (s, Inl e)
                    | Inr (next_state, decision) \<Rightarrow>
                      (s\<lparr>buckets := (buckets s)(key \<mapsto> next_state)\<rparr>, Inr decision)))))))"

definition Ready :: "go_context \<Rightarrow> MemoryStore \<Rightarrow> string \<Rightarrow> rl_error + ReadyState" where
  "Ready ctx s env =
    (case ctx of NilContext \<Rightarrow> Inl (domainError ErrorKindInvalidKey ''context'')
     | Ctx (Some e) \<Rightarrow> Inl e
     | Ctx None \<Rightarrow>
       (case policyErr s of Some e \<Rightarrow> Inl e
        | None \<Rightarrow>
          if \<not> isKnownEnvironment env then Inl (domainError ErrorKindInvalidKey ''environment'')
          else if environment s \<noteq> [] \<and> environment s \<noteq> env then
            Inl (domainError ErrorKindPolicyMismatch ''environment'')
          else Inr \<lparr>rs_Environment = env, rs_PolicyRevision = Revision (policy s),
            rs_Algorithm = Algorithm (policy s), ActiveKeyVersion = KeyVersion (policy s)\<rparr>))"

section \<open>The contract of a store\<close>

text \<open>
  The debt of a key is how far its theoretical arrival time lies ahead of the clock. It
  decays no faster than time passes; a call changes only its own key's debt, by one interval
  when allowed and not at all otherwise, and an allowed call leaves at most a full burst.
\<close>

text \<open>A sequence of calls against a store, its results, and the calls of one key allowed.\<close>

fun serve :: "('s \<Rightarrow> 'k \<Rightarrow> time \<Rightarrow> 's \<times> bool) \<Rightarrow> 's \<Rightarrow> ('k \<times> time) list \<Rightarrow> 's \<times> ('k \<times> bool) list" where
  "serve consume s [] = (s, [])"
| "serve consume s ((k, t) # calls) =
    (let (s', a) = consume s k t; (s'', rs) = serve consume s' calls in (s'', (k, a) # rs))"

definition allowed_for :: "'k \<Rightarrow> ('k \<times> bool) list \<Rightarrow> int" where
  "allowed_for k rs = int (length (filter (\<lambda>r. r = (k, True)) rs))"

text \<open>The clock does not go back, from \<open>u\<close> on; the time of the last call.\<close>

fun ordered :: "int \<Rightarrow> ('k \<times> time) list \<Rightarrow> bool" where
  "ordered u [] = True"
| "ordered u ((k, t) # calls) = (u \<le> micros t \<and> ordered (micros t) calls)"

fun end_time :: "int \<Rightarrow> ('k \<times> time) list \<Rightarrow> int" where
  "end_time u [] = u"
| "end_time u ((k, t) # calls) = end_time (micros t) calls"

lemma end_time_ge: "ordered u calls \<Longrightarrow> u \<le> end_time u calls"
  by (induction u calls rule: ordered.induct) force+

locale debt_store =
  fixes consume :: "'s \<Rightarrow> 'k \<Rightarrow> time \<Rightarrow> 's \<times> bool"
    and debt :: "'s \<Rightarrow> 'k \<Rightarrow> int \<Rightarrow> int"
    and invariant :: "'s \<Rightarrow> int \<Rightarrow> bool"
    and interval full_burst :: int
  assumes debt_nonneg: "0 \<le> debt s k u"
    and debt_decay: "u \<le> u' \<Longrightarrow> debt s k u \<le> debt s k u' + (u' - u)"
    and debt_antimono: "u \<le> u' \<Longrightarrow> debt s k u' \<le> debt s k u"
    and invariant_later: "invariant s u \<Longrightarrow> u \<le> u' \<Longrightarrow> invariant s u'"
    and consume_invariant: "invariant s (micros t) \<Longrightarrow> consume s k t = (s', a) \<Longrightarrow> invariant s' (micros t)"
    and consume_same: "invariant s (micros t) \<Longrightarrow> consume s k t = (s', a) \<Longrightarrow>
      debt s' k (micros t) = debt s k (micros t) + (if a then interval else 0)"
    and consume_other: "invariant s (micros t) \<Longrightarrow> consume s k t = (s', a) \<Longrightarrow> k' \<noteq> k \<Longrightarrow>
      debt s' k' (micros t) = debt s k' (micros t)"
    and consume_burst: "invariant s (micros t) \<Longrightarrow> consume s k t = (s', True) \<Longrightarrow>
      debt s' k (micros t) \<le> full_burst"
begin

lemma serve_debt:
  assumes "invariant s u" "ordered u calls" "serve consume s calls = (s', rs)" "debt s k u \<le> full_burst"
  shows "debt s k u + allowed_for k rs * interval \<le> debt s' k (end_time u calls) + (end_time u calls - u)
    \<and> debt s' k (end_time u calls) \<le> full_burst"
  using assms
proof (induction calls arbitrary: s u rs)
  case Nil
  then show ?case by (simp add: allowed_for_def)
next
  case (Cons call calls)
  obtain k1 t where call: "call = (k1, t)" by (cases call)
  obtain s1 a rs1 where c: "consume s k1 t = (s1, a)" and r: "serve consume s1 calls = (s', rs1)"
    and rs: "rs = (k1, a) # rs1"
    using Cons.prems(3) by (auto simp: call split: prod.splits)
  have ut: "u \<le> micros t" and ord: "ordered (micros t) calls" using Cons.prems(2) by (auto simp: call)
  have inv: "invariant s (micros t)" using invariant_later [OF Cons.prems(1) ut] .
  have le: "debt s k (micros t) \<le> debt s k u" "debt s k u \<le> debt s k (micros t) + (micros t - u)"
    using debt_antimono [OF ut] debt_decay [OF ut] by auto
  have step: "debt s1 k (micros t) = debt s k (micros t) + (if k1 = k \<and> a then interval else 0)
      \<and> debt s1 k (micros t) \<le> full_burst"
  proof (cases "k1 = k")
    case True
    show ?thesis
    proof (cases a)
      case True
      then show ?thesis
        using consume_same [OF inv c] consume_burst [OF inv, of k1 s1] c \<open>k1 = k\<close> by simp
    next
      case False
      then show ?thesis using consume_same [OF inv c] le Cons.prems(4) \<open>k1 = k\<close> by simp
    qed
  next
    case False
    then show ?thesis using consume_other [OF inv c, of k] le Cons.prems(4) by auto
  qed
  have "debt s1 k (micros t) + allowed_for k rs1 * interval
      \<le> debt s' k (end_time (micros t) calls) + (end_time (micros t) calls - micros t)
    \<and> debt s' k (end_time (micros t) calls) \<le> full_burst"
    using Cons.IH [OF consume_invariant [OF inv c] ord r] step by blast
  moreover have "allowed_for k rs * interval =
      (if k1 = k \<and> a then interval else 0) + allowed_for k rs1 * interval"
    by (auto simp: allowed_for_def rs algebra_simps)
  ultimately show ?case using step le by (simp add: call)
qed

text \<open>The guarantee: no key is served more than its rate allows, whatever the other keys do.\<close>

lemma capacity:
  assumes "invariant s u" "ordered u calls" "serve consume s calls = (s', rs)" "debt s k u \<le> full_burst"
  shows "allowed_for k rs * interval \<le> full_burst + (end_time u calls - u)"
  using serve_debt [OF assms] debt_nonneg [of s k u] by linarith

end

section \<open>The process-local store keeps the contract\<close>

definition mem_consume :: "MemoryStore \<Rightarrow> BucketKey \<Rightarrow> time \<Rightarrow> MemoryStore \<times> bool" where
  "mem_consume s k t = (case Consume (Ctx None) s k t of (s', Inr d) \<Rightarrow> (s', Allowed d) | (s', Inl _) \<Rightarrow> (s', False))"

definition mem_debt :: "MemoryStore \<Rightarrow> BucketKey \<Rightarrow> int \<Rightarrow> int" where
  "mem_debt s k u = (case buckets s k of None \<Rightarrow> 0 | Some st \<Rightarrow> max 0 (TATMicros st - u))"

text \<open>
  Every bucket is initialised, within a burst of its last clock, and was last seen no later
  than now; the policy asks for at most one request per microsecond.
\<close>

definition store_ok :: "Policy \<Rightarrow> MemoryStore \<Rightarrow> int \<Rightarrow> bool" where
  "store_ok p s u \<longleftrightarrow> policy s = p \<and> Policy_Validate p = Inr () \<and> uint (PerMinute p) \<le> 60000000
     \<and> (\<forall>k st. buckets s k = Some st \<longrightarrow> bounded_state p st \<and> 0 \<le> LastSeenMicros st \<and> LastSeenMicros st \<le> u)"

lemma idle_product:
  assumes "Policy_Validate p = Inr ()" "checkedMul (IdleTTL p sdiv nanos_per_second) microsPerSecond = Inr idle"
  shows "idle = idle_us p"
proof -
  obtain n where n: "wholeSeconds (IdleTTL p) = Inr n"
    using assms(1) by (auto simp: Policy_Validate_def on_error_def result_simps split: if_splits sum.splits)
  then have i: "IdleTTL p sdiv nanos_per_second = n" "n = IdleTTL p div nanos_per_second" "0 < n" "n \<le> 2147483647"
    by (auto simp: wholeSeconds_def Let_def nanos_per_second_def MaxSQLInt_def split: if_splits)
  then show ?thesis using assms(2) checkedMul_eq [of n microsPerSecond]
    by (simp add: idle_us_def int64_defs)
qed

lemma sweepLocked_debt:
  assumes ok: "store_ok p s u" "0 \<le> u" "in64 u" and sw: "sweepLocked s u = (s', e)"
  shows "store_ok p s' u" "mem_debt s' k u = mem_debt s k u"
    and "environment s' = environment s" "policyErr s' = policyErr s"
proof -
  have b: "buckets s' k = buckets s k \<or>
      (\<exists>st. buckets s k = Some st \<and> buckets s' k = None \<and> LastSeenMicros st \<le> u
        \<and> idle_us p \<le> wrap64 (u - LastSeenMicros st))" for k
    using sw ok idle_product [of p]
    by (auto simp: sweepLocked_def Let_def sweep_bucket_def store_ok_def
        split: sum.splits if_splits option.splits)
  have rest: "policy s' = policy s" "environment s' = environment s" "policyErr s' = policyErr s"
    using sw by (auto simp: sweepLocked_def Let_def split: sum.splits if_splits)
  then show "environment s' = environment s" "policyErr s' = policyErr s" by auto
  show "store_ok p s' u" using ok(1) rest(1) b unfolding store_ok_def by (metis option.distinct(1))
  show "mem_debt s' k u = mem_debt s k u"
  proof (cases "buckets s' k = buckets s k")
    case False
    then obtain st where st: "buckets s k = Some st" "buckets s' k = None" "LastSeenMicros st \<le> u"
      "idle_us p \<le> wrap64 (u - LastSeenMicros st)" using b by blast
    have bnd: "TATMicros st \<le> LastSeenMicros st + burst p * interval_us p" "0 \<le> LastSeenMicros st"
      using ok(1) st(1) by (auto simp: store_ok_def bounded_state_def)
    have "in64 (u - LastSeenMicros st)"
      using ok(2,3) st(3) bnd(2) by (simp add: int64_defs)
    then have "idle_us p \<le> u - LastSeenMicros st" using st(4) by simp
    then have "TATMicros st \<le> u"
      using bnd valid_policy_idle(1) [of p] ok(1) unfolding store_ok_def by linarith
    then show ?thesis by (simp add: mem_debt_def st)
  qed (simp add: mem_debt_def)
qed

text \<open>A consume decides nothing, or sweeps and then evaluates its bucket.\<close>

lemma mem_consume_cases:
  assumes ok: "store_ok p s (micros t)" and c: "mem_consume s k t = (s', a)"
  obtains (unchanged) "s' = s" "\<not> a"
  | (swept) s1 e where "sweepLocked s (micros t) = (s1, e)" "timeToMicros t = Inr (micros t)" "s' = s1" "\<not> a"
  | (decided) s1 st st' d where "sweepLocked s (micros t) = (s1, None)" "timeToMicros t = Inr (micros t)"
      "st = (case buckets s1 k of None \<Rightarrow> empty_bucket | Some st \<Rightarrow> st)"
      "Evaluate p st t = Inr (st', d)" "s' = s1\<lparr>buckets := (buckets s1)(k \<mapsto> st')\<rparr>" "a = Allowed d"
proof (cases "policyErr s = None \<and> validateBucketKey k (policy s) (environment s) = Inr ()
    \<and> (\<exists>m. timeToMicros t = Inr m)")
  case False
  then have "s' = s \<and> \<not> a"
    using c by (auto simp: mem_consume_def Consume_def split: option.splits sum.splits)
  then show thesis using unchanged by blast
next
  case True
  then have t: "timeToMicros t = Inr (micros t)" using timeToMicros_value(1) by auto
  obtain s1 e where sw: "sweepLocked s (micros t) = (s1, e)" by (cases "sweepLocked s (micros t)")
  have p: "policy s1 = p"
    using sw ok by (auto simp: sweepLocked_def Let_def store_ok_def split: sum.splits if_splits)
  define st where "st = (case buckets s1 k of None \<Rightarrow> empty_bucket | Some st \<Rightarrow> st)"
  show thesis
  proof (cases e)
    case (Some x)
    then have "s' = s1 \<and> \<not> a" using c True t sw by (auto simp: mem_consume_def Consume_def)
    then show thesis using swept sw t by blast
  next
    case None
    show thesis
    proof (cases "Evaluate p st t")
      case (Inl x)
      then have "s' = s1 \<and> \<not> a" using c True t sw None p by (auto simp: mem_consume_def Consume_def st_def)
      then show thesis using swept sw t by blast
    next
      case (Inr x)
      then show thesis
        using decided [of s1 st "fst x" "snd x"] c True t sw None p
        by (cases x) (auto simp: mem_consume_def Consume_def st_def)
    qed
  qed
qed

lemma mem_consume_laws:
  assumes ok: "store_ok p s (micros t)" and c: "mem_consume s k t = (s', a)"
  shows "store_ok p s' (micros t)"
    and "mem_debt s' k (micros t) = mem_debt s k (micros t) + (if a then interval_us p else 0)"
    and "k' \<noteq> k \<Longrightarrow> mem_debt s' k' (micros t) = mem_debt s k' (micros t)"
    and "a \<Longrightarrow> mem_debt s' k (micros t) \<le> burst p * interval_us p"
proof -
  have *: "store_ok p s' (micros t)
    \<and> mem_debt s' k (micros t) = mem_debt s k (micros t) + (if a then interval_us p else 0)
    \<and> (\<forall>k'. k' \<noteq> k \<longrightarrow> mem_debt s' k' (micros t) = mem_debt s k' (micros t))
    \<and> (a \<longrightarrow> mem_debt s' k (micros t) \<le> burst p * interval_us p)"
    using ok c
  proof (cases rule: mem_consume_cases)
    case unchanged
    then show ?thesis using ok by simp
  next
    case (swept s1 e)
    note m = timeToMicros_value(2,3) [OF swept(2)]
    show ?thesis using swept sweepLocked_debt [OF ok m swept(1)] by simp
  next
    case (decided s1 st st' d)
    note m = timeToMicros_value(2,3) [OF decided(2)]
    note sw = sweepLocked_debt [OF ok m decided(1)]
    have st: "bounded_state p st \<or> st = empty_bucket"
      using sw(1) decided(3) by (auto simp: store_ok_def split: option.splits)
    then have snd: "sound_state st" by (auto simp: bounded_state_def)
    note f = Evaluate_facts [OF decided(4) snd] and step = Evaluate_step [OF decided(4) st]
    have last: "LastSeenMicros st \<le> micros t \<or> st = empty_bucket"
      using sw(1) decided(3) by (auto simp: store_ok_def split: option.splits)
    then have last': "LastSeenMicros st' = micros t"
      using step(3) by (auto simp: max_def)
    have tat': "TATMicros st' = (if a then max (micros t) (tat_of st t) + interval_us p else tat_of st t)"
      using f(7,8) last' decided(6) by simp
    have old: "mem_debt s1 k (micros t) = max 0 (tat_of st t - micros t)"
    proof (cases "buckets s1 k")
      case None
      then show ?thesis using decided(3) by (simp add: mem_debt_def tat_of_def)
    next
      case (Some x)
      then have "Initialized st" "st = x" using sw(1) decided(3) by (auto simp: store_ok_def bounded_state_def)
      then show ?thesis using Some by (simp add: mem_debt_def tat_of_def initialized_def)
    qed
    have new: "mem_debt s' k (micros t) = max 0 (TATMicros st' - micros t)"
      "k' \<noteq> k \<Longrightarrow> mem_debt s' k' (micros t) = mem_debt s1 k' (micros t)" for k'
      using decided(5) by (auto simp: mem_debt_def)
    have I: "1 \<le> interval_us p" using valid_policy_interval(2) [OF f(1)] .
    have "store_ok p s' (micros t)"
      using sw(1) step(1) last' m decided(5) by (auto simp: store_ok_def)
    moreover have "mem_debt s' k (micros t) = mem_debt s k (micros t) + (if a then interval_us p else 0)"
      using new(1) tat' old sw(2) I by (auto simp: max_def)
    moreover have "mem_debt s' k (micros t) \<le> burst p * interval_us p" if a
      using new(1) step(1) last' I valid_policy_words(3) [OF f(1)]
      by (auto simp: bounded_state_def max_def)
    ultimately show ?thesis using new(2) sw(2) by auto
  qed
  then show "store_ok p s' (micros t)"
    "mem_debt s' k (micros t) = mem_debt s k (micros t) + (if a then interval_us p else 0)"
    "k' \<noteq> k \<Longrightarrow> mem_debt s' k' (micros t) = mem_debt s k' (micros t)"
    "a \<Longrightarrow> mem_debt s' k (micros t) \<le> burst p * interval_us p" by auto
qed

interpretation mem: debt_store mem_consume mem_debt "store_ok p" "interval_us p" "burst p * interval_us p"
  for p
proof
  fix s :: MemoryStore and k k' u u' t s' a
  show "0 \<le> mem_debt s k u" by (simp add: mem_debt_def split: option.split)
  show "u \<le> u' \<Longrightarrow> mem_debt s k u \<le> mem_debt s k u' + (u' - u)"
    and "u \<le> u' \<Longrightarrow> mem_debt s k u' \<le> mem_debt s k u"
    by (auto simp: mem_debt_def split: option.split)
  show "store_ok p s u \<Longrightarrow> u \<le> u' \<Longrightarrow> store_ok p s u'"
    by (force simp: store_ok_def)
  assume c: "store_ok p s (micros t)" "mem_consume s k t = (s', a)"
  show "store_ok p s' (micros t)" by (rule mem_consume_laws(1) [OF c])
  show "mem_debt s' k (micros t) = mem_debt s k (micros t) + (if a then interval_us p else 0)"
    by (rule mem_consume_laws(2) [OF c])
  show "k' \<noteq> k \<Longrightarrow> mem_debt s' k' (micros t) = mem_debt s k' (micros t)"
    by (rule mem_consume_laws(3) [OF c])
next
  fix s :: MemoryStore and k t s'
  assume c: "store_ok p s (micros t)" "mem_consume s k t = (s', True)"
  show "mem_debt s' k (micros t) \<le> burst p * interval_us p"
    by (rule mem_consume_laws(4) [OF c TrueI])
qed

text \<open>
  C7. The store keeps the rate of every key, under any interleaving of keys. On a store
  built from a valid policy of at most sixty million requests a minute, while the clock does
  not go back, the calls allowed for a key from time \<open>u\<close> on take at most a full burst plus
  the time that passed; calls of other keys and the idle sweep never add to it.
\<close>

theorem store_capacity:
  assumes "Policy_Validate p = Inr ()" "uint (PerMinute p) \<le> 60000000" "ordered u calls"
    and "serve mem_consume (newMemoryStore env p) calls = (s, rs)"
  shows "allowed_for k rs * interval_us p \<le> burst p * interval_us p + (end_time u calls - u)"
proof (rule mem.capacity [OF _ assms(3,4)])
  show "store_ok p (newMemoryStore env p) u" using assms(1,2) by (simp add: store_ok_def newMemoryStore_def)
  have "0 \<le> burst p * interval_us p"
    using valid_policy_words(3) [OF assms(1)] valid_policy_interval(2) [OF assms(1)] by simp
  then show "mem_debt (newMemoryStore env p) k u \<le> burst p * interval_us p"
    by (simp add: mem_debt_def newMemoryStore_def)
qed

definition example_key :: "8 word \<Rightarrow> BucketKey" where
  "example_key b = \<lparr>bk_Environment = ''production'', bk_KeyVersion = 1, Digest = [b]\<rparr>"

definition example_calls :: "(BucketKey \<times> time) list" where
  "example_calls = [(example_key 1, example_time), (example_key 1, example_time), (example_key 2, example_time),
     (example_key 1, example_time), (example_key 1, example_time + 1000000000)]"

lemma example_serve:
  "map snd (snd (serve mem_consume (newMemoryStore ''production'' example_policy) example_calls)) =
    [True, True, True, False, True]"
  by code_simp

theorem store_capacity_witness:
  "allowed_for (example_key 1) (snd (serve mem_consume (newMemoryStore ''production'' example_policy)
      example_calls)) * interval_us example_policy
    \<le> burst example_policy * interval_us example_policy
      + (end_time 1764403200000000 example_calls - 1764403200000000)"
proof (rule store_capacity)
  show "Policy_Validate example_policy = Inr ()" by code_simp
  show "uint (PerMinute example_policy) \<le> 60000000" by code_simp
  show "ordered 1764403200000000 example_calls" by code_simp
  show "serve mem_consume (newMemoryStore ''production'' example_policy) example_calls =
      (fst (serve mem_consume (newMemoryStore ''production'' example_policy) example_calls),
       snd (serve mem_consume (newMemoryStore ''production'' example_policy) example_calls))"
    by simp
qed

text \<open>
  Beyond sixty million requests a minute the interval is rounded up to one microsecond, the
  idle time to live that validation asks for is too short for a full burst to be repaid, and
  the sweep drops a bucket that is still in debt: the next call starts it afresh with an
  earlier theoretical arrival time.
\<close>

definition extreme_policy :: Policy where
  "extreme_policy = example_policy\<lparr>PerMinute := 2147483647, Burst := 2147483647, IdleTTL := 120000000000\<rparr>"

definition indebted_store :: MemoryStore where
  "indebted_store = (newMemoryStore ''production'' extreme_policy)
     \<lparr>buckets := Map.empty(example_key 1 \<mapsto> \<lparr>TATMicros = 1764403200000000 + 2147483647,
        LastSeenMicros = 1764403200000000, Initialized = True\<rparr>)\<rparr>"

lemma sweep_drops_debt_at_extreme_rates:
  "policyErr indebted_store = None \<and> mem_debt indebted_store (example_key 1) (micros (example_time + 121000000000)) > 2000000000
    \<and> (case Consume (Ctx None) indebted_store (example_key 1) (example_time + 121000000000) of
        (s, Inr d) \<Rightarrow> mem_debt s (example_key 1) (micros (example_time + 121000000000)) = 1 | _ \<Rightarrow> False)"
  by code_simp

end
