(* ===== verification/Actions.thy ===== *)
theory Actions
  imports Complex_Main Accounts
begin

text \<open>
  Identities (\<open>principal/principal.go\<close>), risk levels, error codes, parameter schemas and
  the registry of actions (package \<open>action\<close>: \<open>risk.go\<close>, \<open>errors.go\<close>, \<open>schema.go\<close>,
  \<open>definition.go\<close>). The registry maps the key \<open>id@version\<close> to a definition and its
  handler; keys of valid definitions determine both parts.
\<close>

section \<open>Principals\<close>

type_synonym principal_type = string

abbreviation "TypeHuman \<equiv> ''HUMAN''"
abbreviation "TypeService \<equiv> ''SERVICE''"
abbreviation "TypeAI \<equiv> ''AI''"
abbreviation "TypeServerAgent \<equiv> ''SERVER_AGENT''"

datatype principal_error = ErrInvalidType | ErrPrincipalMissingField

definition ParseType :: "string \<Rightarrow> principal_error + principal_type" where
  "ParseType s =
    (if s \<in> set [TypeHuman, TypeService, TypeAI, TypeServerAgent] then Inr s else Inl ErrInvalidType)"

record Principal =
  p_ID :: string
  p_Type :: principal_type
  IdentityZone :: string
  Issuer :: string
  Subject :: string
  ClientID :: string
  AuthenticationLevel :: string
  p_Environment :: string
  Scopes :: "string list"
  MFAAt :: "time option"

definition Principal_Validate :: "Principal \<Rightarrow> principal_error + unit" where
  "Principal_Validate p =
    (if p_ID p = [] then Inl ErrPrincipalMissingField
     else rbind (ParseType (p_Type p)) (\<lambda>_.
       if Issuer p = [] then Inl ErrPrincipalMissingField
       else if p_Environment p = [] then Inl ErrPrincipalMissingField
       else Inr ()))"

definition HasScope :: "Principal \<Rightarrow> string \<Rightarrow> bool" where
  "HasScope p s \<longleftrightarrow> s \<in> set (Scopes p)"

definition IsMachine :: "Principal \<Rightarrow> bool" where
  "IsMachine p \<longleftrightarrow> p_Type p \<noteq> TypeHuman"

section \<open>Risk levels and error codes\<close>

type_synonym RiskLevel = string

definition ParseRiskLevel :: "string \<Rightarrow> unit + RiskLevel" where
  "ParseRiskLevel s = (if s \<in> set [''L0'', ''L1'', ''L2'', ''L3'', ''L4''] then Inr s else Inl ())"

definition RequiresAdvancedControls :: "RiskLevel \<Rightarrow> bool" where
  "RequiresAdvancedControls r \<longleftrightarrow> r \<in> set [''L2'', ''L3'', ''L4'']"

datatype Code = CodeInvalidParams | CodePermissionDenied | CodeEnvironmentMismatch | CodeConflict
  | CodePreconditionFailed | CodeNotRegistered | CodePrincipalTypeNotAllowed
  | CodeAdvancedControlsRequired | CodeApprovalRequired | CodeApprovalNotFound
  | CodeExecutionFailed | CodeRunwayConfigUnavailable | CodeRevisionConflict | CodeInternal

text \<open>An error of the action package: its code and the approval it names, without the texts.\<close>

record action_error =
  err_Code :: Code
  err_ApprovalRequestID :: string

definition newError :: "Code \<Rightarrow> action_error" where
  "newError c = \<lparr>err_Code = c, err_ApprovalRequestID = []\<rparr>"

section \<open>Parameter schemas\<close>

text \<open>
  A decoded JSON or Go value, as far as the schema distinguishes them. A \<open>float64\<close> is its
  exact rational value, or not a number (an infinity behaves the same).
\<close>

datatype any = VNil | VString string | VInt int64 | VInt64 int64 | VFloat rat | VNaN | VBool bool
  | VStrings "string list" | VList "any list" | VOther

datatype FieldType = FieldString | FieldInt | FieldBool | FieldStringSlice | FieldUnknown string

datatype schema_error = ErrUnknownField | ErrRequiredField | ErrFieldType | ErrEnumViolation

record Field =
  f_Name :: string
  f_Type :: FieldType
  Required :: bool
  Enum :: "string list"

type_synonym Schema = "Field list"

text \<open>Params are a Go map: an association list with distinct keys.\<close>

type_synonym params = "(string \<times> any) list"

definition is_string :: "any \<Rightarrow> bool" where
  "is_string v = (case v of VString _ \<Rightarrow> True | _ \<Rightarrow> False)"

text \<open>
  \<open>n == float64(int64(n))\<close>: the conversion truncates; out of range it gives the least
  \<open>int64\<close> (on amd64), which differs from \<open>n\<close>.
\<close>

definition whole_float :: "rat \<Rightarrow> bool" where
  "whole_float q \<longleftrightarrow> of_int \<lfloor>q\<rfloor> = q \<and> in64 \<lfloor>q\<rfloor>"

definition checkField :: "Field \<Rightarrow> any \<Rightarrow> schema_error + unit" where
  "checkField f v =
    (case f_Type f of
       FieldString \<Rightarrow> (case v of VString s \<Rightarrow>
           if Enum f \<noteq> [] \<and> s \<notin> set (Enum f) then Inl ErrEnumViolation else Inr ()
         | _ \<Rightarrow> Inl ErrFieldType)
     | FieldInt \<Rightarrow> (case v of VInt _ \<Rightarrow> Inr () | VInt64 _ \<Rightarrow> Inr ()
         | VFloat q \<Rightarrow> if \<not> whole_float q then Inl ErrFieldType else Inr ()
         | _ \<Rightarrow> Inl ErrFieldType)
     | FieldBool \<Rightarrow> (case v of VBool _ \<Rightarrow> Inr () | _ \<Rightarrow> Inl ErrFieldType)
     | FieldStringSlice \<Rightarrow> (case v of VStrings _ \<Rightarrow> Inr ()
         | VList xs \<Rightarrow> if list_all is_string xs then Inr () else Inl ErrFieldType
         | _ \<Rightarrow> Inl ErrFieldType)
     | FieldUnknown _ \<Rightarrow> Inl ErrFieldType)"

fun check_fields :: "Field list \<Rightarrow> params \<Rightarrow> schema_error + unit" where
  "check_fields [] ps = Inr ()"
| "check_fields (f # fs) ps =
    (case map_of ps (f_Name f) of
       None \<Rightarrow> if Required f then Inl ErrRequiredField else check_fields fs ps
     | Some v \<Rightarrow>
       if v = VNil then (if Required f then Inl ErrRequiredField else check_fields fs ps)
       else rbind (checkField f v) (\<lambda>_. check_fields fs ps))"

definition Schema_Validate :: "Schema \<Rightarrow> params \<Rightarrow> schema_error + unit" where
  "Schema_Validate s ps =
    (if list_ex (\<lambda>(nm, _). nm \<notin> set (map f_Name s)) ps then Inl ErrUnknownField
     else check_fields s ps)"

definition StringSliceParam :: "params \<Rightarrow> string \<Rightarrow> string list" where
  "StringSliceParam ps nm = (case map_of ps nm of
     Some (VStrings xs) \<Rightarrow> xs
   | Some (VList xs) \<Rightarrow> concat (map (\<lambda>e. case e of VString s \<Rightarrow> [s] | _ \<Rightarrow> []) xs)
   | _ \<Rightarrow> [])"

definition StringParam :: "params \<Rightarrow> string \<Rightarrow> string" where
  "StringParam ps nm = (case map_of ps nm of Some (VString s) \<Rightarrow> s | _ \<Rightarrow> [])"

definition truncate_rat :: "rat \<Rightarrow> int" where
  "truncate_rat q = (if q < 0 then \<lceil>q\<rceil> else \<lfloor>q\<rfloor>)"

definition IntParam :: "params \<Rightarrow> string \<Rightarrow> int" where
  "IntParam ps nm = (case map_of ps nm of
     Some (VInt n) \<Rightarrow> n | Some (VInt64 n) \<Rightarrow> n
   | Some (VFloat q) \<Rightarrow> (if in64 (truncate_rat q) then truncate_rat q else min_int64)
   | Some VNaN \<Rightarrow> min_int64 | _ \<Rightarrow> 0)"

definition BoolParam :: "params \<Rightarrow> string \<Rightarrow> bool" where
  "BoolParam ps nm = (case map_of ps nm of Some (VBool b) \<Rightarrow> b | _ \<Rightarrow> False)"

section \<open>Definitions and the registry\<close>

record Definition =
  d_ID :: string
  d_Version :: string
  d_RiskLevel :: RiskLevel
  Permission :: string
  d_Schema :: Schema
  Environments :: "string list"
  PrincipalTypes :: "principal_type list"

definition validEnvironments :: "string list" where
  "validEnvironments = [''development'', ''staging'', ''production'']"

definition split_on :: "char \<Rightarrow> string \<Rightarrow> string list" where
  "split_on c s = foldr (\<lambda>x acc. if x = c then [] # acc else (x # hd acc) # tl acc) s [[]]"

text \<open>The pattern \<open>^[a-z0-9]+(\.[a-z0-9_]+){2,3}$\<close>: three or four non-empty segments.\<close>

definition actionIDPattern :: "string \<Rightarrow> bool" where
  "actionIDPattern s = (let segs = split_on (CHR ''.'') s in
     (length segs = 3 \<or> length segs = 4) \<and> list_all (\<lambda>g. g \<noteq> []) segs
     \<and> list_all lower_alnum (hd segs)
     \<and> list_all (list_all (\<lambda>c. lower_alnum c \<or> c = CHR ''_'')) (tl segs))"

definition Definition_Validate :: "Definition \<Rightarrow> unit + unit" where
  "Definition_Validate d =
    (if d_ID d = [] then Inl ()
     else if \<not> actionIDPattern (d_ID d) then Inl ()
     else if d_Version d = [] then Inl ()
     else rbind (ParseRiskLevel (d_RiskLevel d)) (\<lambda>_.
       if Permission d = [] then Inl ()
       else if Environments d = [] then Inl ()
       else if list_ex (\<lambda>e. e \<notin> set validEnvironments) (Environments d) then Inl ()
       else if PrincipalTypes d = [] then Inl ()
       else if list_ex (\<lambda>pt. case ParseType pt of Inl _ \<Rightarrow> True | Inr _ \<Rightarrow> False) (PrincipalTypes d)
         then Inl ()
       else Inr ()))"

text \<open>The registry, with the handlers it stores; a nil handler is \<open>None\<close>.\<close>

type_synonym 'h Registry = "string \<rightharpoonup> Definition \<times> 'h"

definition registry_key :: "string \<Rightarrow> string \<Rightarrow> string" where
  "registry_key ident version = ident @ ''@'' @ version"

definition Register :: "'h Registry \<Rightarrow> Definition \<Rightarrow> 'h option \<Rightarrow> unit + 'h Registry" where
  "Register r d h =
    rbind (Definition_Validate d) (\<lambda>_.
      case h of None \<Rightarrow> Inl ()
      | Some handler \<Rightarrow>
        if r (registry_key (d_ID d) (d_Version d)) \<noteq> None then Inl ()
        else Inr (r(registry_key (d_ID d) (d_Version d) \<mapsto> (d, handler))))"

definition Lookup :: "'h Registry \<Rightarrow> string \<Rightarrow> string \<Rightarrow> (Definition \<times> 'h) option" where
  "Lookup r ident version = r (registry_key ident version)"

section \<open>What a validated call carries\<close>

text \<open>A value fits a field: of its type, whole if a number, in its enumeration if there is one.\<close>

fun fits :: "Field \<Rightarrow> any \<Rightarrow> bool" where
  "fits f (VString s) = (f_Type f = FieldString \<and> (Enum f = [] \<or> s \<in> set (Enum f)))"
| "fits f (VInt n) = (f_Type f = FieldInt)"
| "fits f (VInt64 n) = (f_Type f = FieldInt)"
| "fits f (VFloat q) = (f_Type f = FieldInt \<and> whole_float q)"
| "fits f (VBool b) = (f_Type f = FieldBool)"
| "fits f (VStrings xs) = (f_Type f = FieldStringSlice)"
| "fits f (VList xs) = (f_Type f = FieldStringSlice \<and> (\<forall>x \<in> set xs. \<exists>s. x = VString s))"
| "fits f _ = False"

lemma is_string_iff: "is_string v \<longleftrightarrow> (\<exists>s. v = VString s)"
  by (cases v) (simp_all add: is_string_def)

lemma checkField_iff: "checkField f v = Inr () \<longleftrightarrow> fits f v"
  by (cases v; cases "f_Type f") (auto simp: checkField_def list_all_iff is_string_iff)

lemma check_fields_iff:
  "check_fields fs ps = Inr () \<longleftrightarrow> (\<forall>f \<in> set fs. case map_of ps (f_Name f) of
     None \<Rightarrow> \<not> Required f | Some v \<Rightarrow> if v = VNil then \<not> Required f else fits f v)"
proof (induction fs)
  case (Cons f fs)
  show ?case
  proof (cases "map_of ps (f_Name f)")
    case (Some v)
    then show ?thesis
      using Cons checkField_iff [of f v] by (cases "checkField f v") auto
  qed (use Cons in auto)
qed simp

text \<open>
  The parameter schema is a whitelist. Parameters pass exactly when every name in them is
  declared and every declared field is present when required and, when present and not null,
  holds a value of its type: a string inside the enumeration, a whole number in 64 bits, a
  boolean, or a list of strings. Nothing undeclared and nothing of another type reaches a
  handler, and the whole number a handler reads is the one that was sent.
\<close>

theorem Schema_Validate_iff:
  "Schema_Validate s ps = Inr () \<longleftrightarrow>
    (\<forall>(nm, v) \<in> set ps. \<exists>f \<in> set s. f_Name f = nm) \<and>
    (\<forall>f \<in> set s. case map_of ps (f_Name f) of
       None \<Rightarrow> \<not> Required f
     | Some v \<Rightarrow> if v = VNil then \<not> Required f
         else fits f v \<and> (case v of VFloat q \<Rightarrow> of_int (IntParam ps (f_Name f)) = q | _ \<Rightarrow> True))"
proof -
  have whole: "of_int (IntParam ps (f_Name f)) = q"
    if "map_of ps (f_Name f) = Some (VFloat q)" "fits f (VFloat q)" for f q
  proof -
    have q: "of_int \<lfloor>q\<rfloor> = q" "in64 \<lfloor>q\<rfloor>" using that(2) by (auto simp: whole_float_def)
    then have "\<lceil>q\<rceil> = \<lfloor>q\<rfloor>" by (metis ceiling_of_int)
    then show ?thesis using that(1) q by (simp add: IntParam_def truncate_rat_def)
  qed
  have names: "(list_ex (\<lambda>(nm, _). nm \<notin> set (map f_Name s)) ps) \<longleftrightarrow>
      \<not> (\<forall>(nm, v) \<in> set ps. \<exists>f \<in> set s. f_Name f = nm)"
    by (fastforce simp: list_ex_iff)
  have fields: "(case map_of ps (f_Name f) of None \<Rightarrow> \<not> Required f
       | Some v \<Rightarrow> if v = VNil then \<not> Required f else fits f v) \<longleftrightarrow>
      (case map_of ps (f_Name f) of None \<Rightarrow> \<not> Required f
       | Some v \<Rightarrow> if v = VNil then \<not> Required f
           else fits f v \<and> (case v of VFloat q \<Rightarrow> of_int (IntParam ps (f_Name f)) = q | _ \<Rightarrow> True))" for f
    using whole [of f] by (auto split: option.splits any.splits)
  show ?thesis
    unfolding Schema_Validate_def names using check_fields_iff [of s ps] fields by auto
qed

theorem Schema_Validate_iff_witness:
  "Schema_Validate [\<lparr>f_Name = ''n'', f_Type = FieldInt, Required = True, Enum = []\<rparr>] [(''n'', VFloat 3)] = Inr ()
   \<and> Schema_Validate [\<lparr>f_Name = ''n'', f_Type = FieldInt, Required = True, Enum = []\<rparr>]
       [(''n'', VInt 3), (''m'', VNil)] \<noteq> Inr ()"
  unfolding Schema_Validate_iff by (simp add: whole_float_def int64_defs IntParam_def truncate_rat_def)

section \<open>The registry\<close>

lemma split_on_chars: "split_on c s \<noteq> [] \<and> set s \<subseteq> insert c (\<Union>(set ` set (split_on c s)))"
proof (induction s)
  case (Cons x s)
  obtain g gs where "split_on c s = g # gs" using Cons by (cases "split_on c s") auto
  then show ?case using Cons by (auto simp: split_on_def)
qed (simp add: split_on_def)

lemma action_id_no_at: "actionIDPattern s \<Longrightarrow> CHR ''@'' \<notin> set s"
proof -
  assume a: "actionIDPattern s"
  define segs where "segs = split_on (CHR ''.'') s"
  have "CHR ''@'' \<notin> set g" if "g \<in> set segs" for g
  proof -
    have "segs = hd segs # tl segs" using split_on_chars [of "CHR ''.''" s] by (simp add: segs_def)
    then have "g = hd segs \<or> g \<in> set (tl segs)" using that by (metis set_ConsD)
    then have "\<forall>c \<in> set g. lower_alnum c \<or> c = CHR ''_''"
      using a by (auto simp: actionIDPattern_def Let_def list_all_iff simp flip: segs_def)
    then show ?thesis by (auto simp: lower_alnum_def is_digit_def)
  qed
  then show ?thesis using split_on_chars [of "CHR ''.''" s] by (auto simp flip: segs_def)
qed

lemma registry_key_inject:
  assumes "CHR ''@'' \<notin> set a" "CHR ''@'' \<notin> set b"
  shows "registry_key a v = registry_key b w \<longleftrightarrow> a = b \<and> v = w"
proof
  assume "registry_key a v = registry_key b w"
  then have "cut_at (CHR ''@'') (a @ CHR ''@'' # v) = cut_at (CHR ''@'') (b @ CHR ''@'' # w)"
    by (simp add: registry_key_def)
  then show "a = b \<and> v = w" using assms by simp
qed simp

text \<open>Every entry is stored under its own key and is valid.\<close>

definition registry_ok :: "'h Registry \<Rightarrow> bool" where
  "registry_ok r \<longleftrightarrow> (\<forall>k d h. r k = Some (d, h) \<longrightarrow>
     k = registry_key (d_ID d) (d_Version d) \<and> Definition_Validate d = Inr ())"

lemma registry_ok_empty: "registry_ok Map.empty"
  by (simp add: registry_ok_def)

lemma Definition_Validate_id: "Definition_Validate d = Inr () \<Longrightarrow> CHR ''@'' \<notin> set (d_ID d)"
  by (auto simp: Definition_Validate_def action_id_no_at split: if_splits)

text \<open>
  Registration is versioned and final. Registering succeeds only for a valid definition
  with a handler under an unused identifier and version; it keeps every entry of the
  registry, keeps the registry well formed, and afterwards the new action is found under its
  own identifier and version and under no other. A look-up under a well-formed identifier
  returns a definition with that identifier and version.
\<close>

theorem Register_final:
  assumes ok: "registry_ok r" and reg: "Register r d h = Inr r'"
  shows "registry_ok r' \<and> r \<subseteq>\<^sub>m r' \<and> Lookup r (d_ID d) (d_Version d) = None
    \<and> (\<exists>handler. h = Some handler \<and> Lookup r' (d_ID d) (d_Version d) = Some (d, handler))
    \<and> (\<forall>ident v. actionIDPattern ident \<longrightarrow> (ident, v) \<noteq> (d_ID d, d_Version d) \<longrightarrow>
         Lookup r' ident v = Lookup r ident v)
    \<and> (\<forall>ident v d' h'. actionIDPattern ident \<longrightarrow> Lookup r' ident v = Some (d', h') \<longrightarrow>
         d_ID d' = ident \<and> d_Version d' = v)"
proof -
  obtain handler where h: "h = Some handler" and v: "Definition_Validate d = Inr ()"
    and free: "r (registry_key (d_ID d) (d_Version d)) = None"
    and r': "r' = r(registry_key (d_ID d) (d_Version d) \<mapsto> (d, handler))"
    using reg by (cases "r (registry_key (d_ID d) (d_Version d))")
      (auto simp: Register_def result_simps split: option.splits)
  have ok': "registry_ok r'" using ok v by (auto simp: registry_ok_def r')
  have own: "d_ID d' = ident \<and> d_Version d' = ver"
    if "actionIDPattern ident" "Lookup r' ident ver = Some (d', h')" for ident ver d' h'
  proof -
    have "registry_key ident ver = registry_key (d_ID d') (d_Version d')" "Definition_Validate d' = Inr ()"
      using ok' that(2) by (auto simp: registry_ok_def Lookup_def)
    then show ?thesis
      using registry_key_inject [OF action_id_no_at [OF that(1)] Definition_Validate_id [of d']] by auto
  qed
  have other: "Lookup r' ident ver = Lookup r ident ver"
    if "actionIDPattern ident" "(ident, ver) \<noteq> (d_ID d, d_Version d)" for ident ver
    using that registry_key_inject [OF action_id_no_at [OF that(1)] Definition_Validate_id [OF v]]
    by (auto simp: Lookup_def r')
  have "r \<subseteq>\<^sub>m r'" using free by (auto simp: map_le_def r' dom_def)
  moreover have "Lookup r (d_ID d) (d_Version d) = None" using free by (simp add: Lookup_def)
  moreover have "\<exists>handler. h = Some handler \<and> Lookup r' (d_ID d) (d_Version d) = Some (d, handler)"
    using h by (simp add: Lookup_def r')
  ultimately show ?thesis using ok' own other by blast
qed

definition example_definition :: Definition where
  "example_definition = \<lparr>d_ID = ''ops.service.switch'', d_Version = ''1'', d_RiskLevel = ''L3'',
     Permission = ''ops.write'',
     d_Schema = [\<lparr>f_Name = ''target'', f_Type = FieldString, Required = True, Enum = []\<rparr>],
     Environments = [''production''], PrincipalTypes = [''HUMAN'']\<rparr>"

theorem Register_final_witness:
  "\<exists>r'. Register Map.empty example_definition (Some (0::nat)) = Inr r' \<and> registry_ok r'
    \<and> Lookup r' ''ops.service.switch'' ''1'' = Some (example_definition, 0)"
proof -
  have "Definition_Validate example_definition = Inr ()" by code_simp
  then obtain r' where r: "Register Map.empty example_definition (Some (0::nat)) = Inr r'"
    by (simp add: Register_def)
  show ?thesis using Register_final [OF registry_ok_empty r] r by (auto simp: example_definition_def)
qed

end
