(* ===== verification/RateKey.thy ===== *)
theory RateKey
  imports RateStore Actions
begin

text \<open>
  The identity of a rate-limit bucket (\<open>ratelimit/key.go\<close>): validation, the canonical byte
  encoding of an identity and the digest derived from it. HMAC-SHA256 is library code, the
  parameter \<open>hmac\<close>. A decoder of the format shows that the encoding loses nothing but the
  case of the method and the difference between a missing route and its sentinel.
\<close>

section \<open>UTF-8 validity\<close>

definition byte_in :: "int \<Rightarrow> int \<Rightarrow> char \<Rightarrow> bool" where
  "byte_in lo hi c \<longleftrightarrow> lo \<le> (of_char c :: int) \<and> (of_char c :: int) \<le> hi"

abbreviation "continuation \<equiv> byte_in 0x80 0xBF"

text \<open>\<open>utf8.ValidString\<close>: no overlong forms, no surrogates, nothing above U+10FFFF.\<close>

fun valid_utf8 :: "string \<Rightarrow> bool" where
  "valid_utf8 [] = True"
| "valid_utf8 (a # s) =
    (if byte_in 0 0x7F a then valid_utf8 s
     else case s of [] \<Rightarrow> False | b # s \<Rightarrow>
       if byte_in 0xC2 0xDF a then continuation b \<and> valid_utf8 s
       else case s of [] \<Rightarrow> False | c # s \<Rightarrow>
         if byte_in 0xE0 0xEF a then
           byte_in (if a = CHR 0xE0 then 0xA0 else 0x80) (if a = CHR 0xED then 0x9F else 0xBF) b
           \<and> continuation c \<and> valid_utf8 s
         else case s of [] \<Rightarrow> False | d # s \<Rightarrow>
           byte_in 0xF0 0xF4 a
           \<and> byte_in (if a = CHR 0xF0 then 0x90 else 0x80) (if a = CHR 0xF4 then 0x8F else 0xBF) b
           \<and> continuation c \<and> continuation d \<and> valid_utf8 s)"

section \<open>The canonical encoding (key.go)\<close>

definition CanonicalFormatVersion :: char where "CanonicalFormatVersion = CHR 0x02"
definition UnknownRouteSentinel :: string where "UnknownRouteSentinel = ''<unmatched-api-route>''"

abbreviation "maxEnvironmentBytes \<equiv> (64 :: int)"
abbreviation "maxPrincipalTypeBytes \<equiv> (32 :: int)"
abbreviation "maxPrincipalIDBytes \<equiv> (4096 :: int)"
abbreviation "maxMethodBytes \<equiv> (32 :: int)"
abbreviation "maxRouteBytes \<equiv> (4096 :: int)"
abbreviation "maxCanonicalBytes \<equiv> (16384 :: int)"

record CanonicalIdentity =
  ci_KeyVersion :: uint32
  ci_Environment :: string
  ci_PrincipalType :: principal_type
  ci_PrincipalID :: string
  Method :: string
  RouteTemplate :: string

definition validSegment :: "string \<Rightarrow> int \<Rightarrow> bool \<Rightarrow> bool" where
  "validSegment value bound allowEmpty =
    (if \<not> allowEmpty \<and> value = [] then False else valid_utf8 value \<and> int (length value) \<le> bound)"

definition isHTTPTokenByte :: "char \<Rightarrow> bool" where
  "isHTTPTokenByte b \<longleftrightarrow> byte_in 0x61 0x7A b \<or> byte_in 0x41 0x5A b \<or> is_digit b
     \<or> b \<in> set ''!#$%&*+-.^_`|~'' \<or> b = CHR 0x27"

definition upper :: "char \<Rightarrow> char" where
  "upper b = (if byte_in 0x61 0x7A b then char_of (of_char b - 32 :: int) else b)"

definition canonicalMethod :: "string \<Rightarrow> string option" where
  "canonicalMethod m =
    (if m = [] \<or> int (length m) > maxMethodBytes then None
     else if \<not> list_all isHTTPTokenByte m then None
     else Some (map upper m))"

text \<open>\<open>binary.BigEndian.PutUint32\<close>.\<close>

definition be32 :: "int \<Rightarrow> string" where
  "be32 n = [char_of (n div 16777216), char_of (n div 65536), char_of (n div 256), char_of n]"

text \<open>The loop that adds up the length, with its two guards.\<close>

fun canonical_total :: "int \<Rightarrow> string list \<Rightarrow> rl_error + int" where
  "canonical_total sum_so_far [] = Inr sum_so_far"
| "canonical_total sum_so_far (seg # segs) =
    (if int (length seg) > 4294967295 then Inl (domainError ErrorKindInvalidIdentity ''segment'')
     else if sum_so_far > maxCanonicalBytes - 4 - int (length seg) then Inl (domainError ErrorKindInvalidIdentity ''canonical'')
     else canonical_total (sum_so_far + 4 + int (length seg)) segs)"

definition put_segments :: "string list \<Rightarrow> string" where
  "put_segments segs = concat (map (\<lambda>seg. be32 (int (length seg)) @ seg) segs)"

definition CanonicalBytes :: "CanonicalIdentity \<Rightarrow> rl_error + string" where
  "CanonicalBytes i =
    (if ci_KeyVersion i = 0 \<or> ci_KeyVersion i > MaxSQLInt then Inl (domainError ErrorKindInvalidIdentity ''key_version'')
     else if \<not> isKnownEnvironment (ci_Environment i) then Inl (domainError ErrorKindInvalidIdentity ''environment'')
     else if \<not> valid_utf8 (ci_Environment i) \<or> int (length (ci_Environment i)) > maxEnvironmentBytes
       then Inl (domainError ErrorKindInvalidIdentity ''environment'')
     else if ParseType (ci_PrincipalType i) \<noteq> Inr (ci_PrincipalType i)
       then Inl (domainError ErrorKindInvalidIdentity ''principal_type'')
     else if \<not> validSegment (ci_PrincipalType i) maxPrincipalTypeBytes False
       then Inl (domainError ErrorKindInvalidIdentity ''principal_type'')
     else if \<not> validSegment (ci_PrincipalID i) maxPrincipalIDBytes False
       then Inl (domainError ErrorKindInvalidIdentity ''principal_id'')
     else case canonicalMethod (Method i) of None \<Rightarrow> Inl (domainError ErrorKindInvalidIdentity ''method'')
     | Some m \<Rightarrow>
       if int (length m) > maxMethodBytes then Inl (domainError ErrorKindInvalidIdentity ''method'')
       else let route = (if RouteTemplate i = [] then UnknownRouteSentinel else RouteTemplate i) in
         if \<not> validSegment route maxRouteBytes False then Inl (domainError ErrorKindInvalidIdentity ''route_template'')
         else let segs = [ci_Environment i, ci_PrincipalType i, ci_PrincipalID i, m, route] in
           rbind (canonical_total 5 segs) (\<lambda>sum_so_far.
             Inr (CanonicalFormatVersion # be32 (uint (ci_KeyVersion i)) @ put_segments segs)))"

definition HMACDigest :: "(string \<Rightarrow> string \<Rightarrow> string) \<Rightarrow> string \<Rightarrow> string \<Rightarrow> rl_error + string" where
  "HMACDigest hmac key canonical =
    (if length key \<noteq> 32 then Inl (domainError ErrorKindInvalidHMACKey ''key_material'') else Inr (hmac key canonical))"

definition identity_Digest :: "(string \<Rightarrow> string \<Rightarrow> string) \<Rightarrow> CanonicalIdentity \<Rightarrow> string \<Rightarrow> rl_error + string" where
  "identity_Digest hmac i key = rbind (CanonicalBytes i) (HMACDigest hmac key)"

section \<open>Reading the format back\<close>

definition get32 :: "string \<Rightarrow> int" where
  "get32 s = fold (\<lambda>c n. n * 256 + of_char c) s 0"

fun get_segments :: "nat \<Rightarrow> string \<Rightarrow> string list option" where
  "get_segments 0 s = (if s = [] then Some [] else None)"
| "get_segments (Suc k) s =
    (if length s < 4 then None
     else let n = get32 (take 4 s); rest = drop 4 s in
       if int (length rest) < n then None
       else map_option (\<lambda>segs. take (nat n) rest # segs) (get_segments k (drop (nat n) rest)))"

definition decode_canonical :: "string \<Rightarrow> (int \<times> string list) option" where
  "decode_canonical s =
    (if length s < 5 \<or> hd s \<noteq> CanonicalFormatVersion then None
     else map_option (\<lambda>segs. (get32 (take 4 (tl s)), segs)) (get_segments 5 (drop 5 s)))"

lemma length_be32 [simp]: "length (be32 n) = 4" by (simp add: be32_def)

lemma get32_be32: "0 \<le> n \<Longrightarrow> n < 4294967296 \<Longrightarrow> get32 (be32 n) = n"
proof -
  assume n: "0 \<le> n" "n < 4294967296"
  have "0 \<le> n div 16777216 \<and> n div 16777216 < 256" using n by (simp add: pos_imp_zdiv_nonneg_iff)
  moreover have "n div 65536 = (n div 16777216) * 256 + n div 65536 mod 256"
    using div_mult_mod_eq [of "n div 65536" 256] by (simp add: zdiv_zmult2_eq [symmetric])
  moreover have "n div 256 = (n div 65536) * 256 + n div 256 mod 256"
    using div_mult_mod_eq [of "n div 256" 256] by (simp add: zdiv_zmult2_eq [symmetric])
  moreover have "n = (n div 256) * 256 + n mod 256" by simp
  ultimately show ?thesis by (simp add: get32_def be32_def of_char_of)
qed

lemma put_segments_simps [simp]:
  "put_segments [] = []" "put_segments (seg # segs) = be32 (int (length seg)) @ seg @ put_segments segs"
  by (simp_all add: put_segments_def)

text \<open>The length that was added up is the length that is written.\<close>

lemma canonical_total_eq:
  "canonical_total n0 segs = Inr n \<Longrightarrow> n = n0 + int (length (put_segments segs))
    \<and> list_all (\<lambda>seg. int (length seg) < 4294967296) segs \<and> (segs = [] \<or> n \<le> maxCanonicalBytes)"
proof (induction segs arbitrary: n0)
  case (Cons seg segs)
  have rest: "canonical_total (n0 + 4 + int (length seg)) segs = Inr n"
    and small: "int (length seg) < 4294967296" "n0 \<le> maxCanonicalBytes - 4 - int (length seg)"
    using Cons.prems by (auto split: if_splits)
  show ?case using Cons.IH [OF rest] small rest by (cases "segs = []") auto
qed simp

lemma get_put_segments:
  "list_all (\<lambda>seg. int (length seg) < 4294967296) segs \<Longrightarrow> get_segments (length segs) (put_segments segs) = Some segs"
  by (induction segs) (simp_all add: get32_be32 Let_def)

lemma decode_put:
  assumes "list_all (\<lambda>seg. int (length seg) < 4294967296) segs" "length segs = 5" "0 \<le> v" "v < 4294967296"
  shows "decode_canonical (CanonicalFormatVersion # be32 v @ put_segments segs) = Some (v, segs)"
  using get_put_segments [OF assms(1)] assms(2-) by (simp add: decode_canonical_def get32_be32)

text \<open>What two identities must share to share a bucket.\<close>

definition normal_identity :: "CanonicalIdentity \<Rightarrow> CanonicalIdentity" where
  "normal_identity i = i\<lparr>Method := map upper (Method i),
     RouteTemplate := (if RouteTemplate i = [] then UnknownRouteSentinel else RouteTemplate i)\<rparr>"

definition identity_segments :: "CanonicalIdentity \<Rightarrow> string list" where
  "identity_segments i = (let j = normal_identity i in
     [ci_Environment j, ci_PrincipalType j, ci_PrincipalID j, Method j, RouteTemplate j])"

lemma CanonicalBytes_sound:
  assumes "CanonicalBytes i = Inr b"
  shows "b = CanonicalFormatVersion # be32 (uint (ci_KeyVersion i)) @ put_segments (identity_segments i)"
    and "int (length b) \<le> maxCanonicalBytes"
    and "list_all (\<lambda>seg. int (length seg) < 4294967296) (identity_segments i)"
    and "list_all (\<lambda>seg. seg \<noteq> [] \<and> valid_utf8 seg) [ci_Environment i, ci_PrincipalID i, RouteTemplate (normal_identity i)]"
proof -
  obtain m where m: "canonicalMethod (Method i) = Some m" "m = map upper (Method i)"
    using assms by (auto simp: CanonicalBytes_def canonicalMethod_def split: if_splits option.splits)
  obtain n where t: "canonical_total 5 (identity_segments i) = Inr n"
    and b: "b = CanonicalFormatVersion # be32 (uint (ci_KeyVersion i)) @ put_segments (identity_segments i)"
    using assms m
    by (auto simp: CanonicalBytes_def identity_segments_def normal_identity_def Let_def result_simps split: if_splits)
  note eq = canonical_total_eq [OF t]
  show "b = CanonicalFormatVersion # be32 (uint (ci_KeyVersion i)) @ put_segments (identity_segments i)" by (rule b)
  show "int (length b) \<le> maxCanonicalBytes" using eq by (simp add: b identity_segments_def Let_def)
  show "list_all (\<lambda>seg. int (length seg) < 4294967296) (identity_segments i)" using eq by blast
  have "ci_Environment i \<noteq> []" using assms by (auto simp: CanonicalBytes_def isKnownEnvironment_def split: if_splits)
  then show "list_all (\<lambda>seg. seg \<noteq> [] \<and> valid_utf8 seg) [ci_Environment i, ci_PrincipalID i, RouteTemplate (normal_identity i)]"
    using assms m
    by (auto simp: CanonicalBytes_def validSegment_def normal_identity_def Let_def split: if_splits)
qed

text \<open>
  C37. A bucket key loses nothing but what it means to lose. The canonical bytes of an
  accepted identity are at most sixteen kilobytes and decode back to the key version and to
  the five segments, the method in capitals and a missing route as its sentinel; so two
  accepted identities have the same bytes exactly when they agree in everything but the case
  of the method and a missing route, and no caller can share another one's bucket by
  choosing its identifier or its route.
\<close>

theorem CanonicalBytes_injective:
  assumes "CanonicalBytes i = Inr b" "CanonicalBytes j = Inr c"
  shows "decode_canonical b = Some (uint (ci_KeyVersion i), identity_segments i)
    \<and> int (length b) \<le> maxCanonicalBytes \<and> (b = c \<longleftrightarrow> normal_identity i = normal_identity j)"
proof -
  have dec: "decode_canonical (CanonicalFormatVersion # be32 (uint (ci_KeyVersion k)) @
      put_segments (identity_segments k)) = Some (uint (ci_KeyVersion k), identity_segments k)"
    if "CanonicalBytes k = Inr d" for k d
    using CanonicalBytes_sound(3) [OF that] uint_lt2p [of "ci_KeyVersion k"]
    by (intro decode_put) (simp_all add: identity_segments_def Let_def)
  note bi = CanonicalBytes_sound [OF assms(1)] and bj = CanonicalBytes_sound [OF assms(2)]
  have di: "decode_canonical b = Some (uint (ci_KeyVersion i), identity_segments i)"
    by (subst bi(1)) (rule dec [OF assms(1)])
  have dj: "decode_canonical c = Some (uint (ci_KeyVersion j), identity_segments j)"
    by (subst bj(1)) (rule dec [OF assms(2)])
  have "b = c \<longleftrightarrow> normal_identity i = normal_identity j"
  proof
    assume "b = c"
    then have "Some (uint (ci_KeyVersion i), identity_segments i) = Some (uint (ci_KeyVersion j), identity_segments j)"
      using di dj by metis
    then have key: "ci_KeyVersion i = ci_KeyVersion j" and segs: "identity_segments i = identity_segments j"
      by (auto simp: word_uint_eq_iff)
    show "normal_identity i = normal_identity j"
    proof (rule CanonicalIdentity.equality)
      show "ci_KeyVersion (normal_identity i) = ci_KeyVersion (normal_identity j)"
        using key by (simp add: normal_identity_def)
    qed (use segs in \<open>simp_all add: identity_segments_def Let_def\<close>)
  next
    assume n: "normal_identity i = normal_identity j"
    then have "identity_segments i = identity_segments j" by (simp add: identity_segments_def)
    moreover have "ci_KeyVersion (normal_identity i) = ci_KeyVersion (normal_identity j)" using n by simp
    then have "ci_KeyVersion i = ci_KeyVersion j" by (simp add: normal_identity_def)
    ultimately show "b = c" using bi(1) bj(1) by metis
  qed
  then show ?thesis using di bi(2) by blast
qed

definition example_identity :: "string \<Rightarrow> string \<Rightarrow> CanonicalIdentity" where
  "example_identity m route = \<lparr>ci_KeyVersion = 1, ci_Environment = ''production'', ci_PrincipalType = ''HUMAN'',
     ci_PrincipalID = ''alice'', Method = m, RouteTemplate = route\<rparr>"

theorem CanonicalBytes_injective_witness:
  "\<exists>b c. CanonicalBytes (example_identity ''get'' []) = Inr b
    \<and> CanonicalBytes (example_identity ''GET'' ''/v1'') = Inr c \<and> b \<noteq> c"
proof -
  have "(case CanonicalBytes (example_identity ''get'' []) of Inr _ \<Rightarrow> True | Inl _ \<Rightarrow> False)"
    "(case CanonicalBytes (example_identity ''GET'' ''/v1'') of Inr _ \<Rightarrow> True | Inl _ \<Rightarrow> False)" by code_simp+
  then obtain b c where b: "CanonicalBytes (example_identity ''get'' []) = Inr b"
    and c: "CanonicalBytes (example_identity ''GET'' ''/v1'') = Inr c"
    by (auto split: sum.splits)
  have "normal_identity (example_identity ''get'' []) \<noteq> normal_identity (example_identity ''GET'' ''/v1'')"
    by (simp add: normal_identity_def example_identity_def UnknownRouteSentinel_def)
  then show ?thesis using CanonicalBytes_injective [OF b c] b c by blast
qed

end
