(* ===== verification/Approval.thy ===== *)
theory Approval
  imports Actions "HOL-Library.Multiset"
begin

text \<open>
  The approval centre (package \<open>approval\<close>): the voting policy (\<open>approval.go\<close>), the store
  as the table of requests with the constraints of its schema (\<open>store_pg.go\<close>), the service
  that translates domain errors to action codes (\<open>service.go\<close>), and the whole as a step
  relation with its reachable states.

  JSON encoding with SHA-256 and the UUID syntax are library code, the fields of \<open>lib\<close>. A
  nil parameter map is the empty one except where the code compares with nil. Times keep
  their full precision in the table, and decisions their order of arrival.
\<close>

section \<open>Requests, votes and the policy (approval.go)\<close>

record lib =
  lib_marshal :: "params \<Rightarrow> string option"
  lib_sha256_hex :: "string \<Rightarrow> string"
  lib_parse_uuid :: "string \<Rightarrow> uuid option"
  lib_uuid_text :: "uuid \<Rightarrow> string"

type_synonym approval_status = string

abbreviation "StatusPending \<equiv> ''PENDING''"
abbreviation "StatusApproved \<equiv> ''APPROVED''"
abbreviation "StatusRejected \<equiv> ''REJECTED''"
abbreviation "StatusExecuted \<equiv> ''EXECUTED''"
abbreviation "StatusExpired \<equiv> ''EXPIRED''"
abbreviation "StatusCancelled \<equiv> ''CANCELLED''"

definition Terminal :: "approval_status \<Rightarrow> bool" where
  "Terminal s \<longleftrightarrow> s = StatusRejected \<or> s = StatusExecuted \<or> s = StatusExpired \<or> s = StatusCancelled"

type_synonym Verdict = string

abbreviation "VerdictApprove \<equiv> ''APPROVE''"
abbreviation "VerdictReject \<equiv> ''REJECT''"
abbreviation "ScopeDecide \<equiv> ''approval.decide''"
abbreviation "ScopeL4 \<equiv> ''approval.l4''"

text \<open>\<open>StoreError\<close> is any other failure of the store, \<open>HashError\<close> of the JSON encoder.\<close>

datatype approval_error = ErrNotPending | ErrExpired | ErrApproverNotHuman | ErrApproverIsRequester
  | ErrDuplicateVote | ErrMissingDecideScope | ErrNotApproved | ErrParamsDrifted | ErrAlreadyExecuted
  | ErrNotCancellableByOther | ErrNotFound | ErrParamsCorrupted | StoreError | HashError

record ApprovalDecision =
  dc_ID :: uuid
  dc_RequestID :: uuid
  ApproverID :: string
  ApproverType :: principal_type
  dc_Verdict :: Verdict
  Comment :: string
  Privileged :: bool
  dc_CreatedAt :: time

record ApprovalRequest =
  rq_ID :: uuid
  rq_ActionID :: string
  rq_ActionVersion :: string
  rq_Params :: params
  ParamsHash :: string
  rq_RiskLevel :: string
  rq_Environment :: string
  RequesterID :: string
  RequesterType :: principal_type
  rq_Reason :: string
  Status :: approval_status
  ExpiresAt :: time
  rq_CreatedAt :: time
  DecidedAt :: "time option"
  ExecutedAt :: "time option"
  ExecutionRunID :: "uuid option"
  Decisions :: "ApprovalDecision list"

record ApprovalPolicy =
  VotesRequired :: "string \<rightharpoonup> int"
  SelfApprovalAllowed :: "string \<rightharpoonup> bool"
  PrivilegedVoteRequired :: "string \<rightharpoonup> bool"
  TTL :: "(string \<times> duration) list"
  ExecutionWindow :: duration

text \<open>Reading a Go map gives the zero value for a missing key.\<close>

definition map_int :: "(string \<rightharpoonup> int) \<Rightarrow> string \<Rightarrow> int" where
  "map_int mp k = (case mp k of None \<Rightarrow> 0 | Some v \<Rightarrow> v)"

definition map_bool :: "(string \<rightharpoonup> bool) \<Rightarrow> string \<Rightarrow> bool" where
  "map_bool mp k = (case mp k of None \<Rightarrow> False | Some v \<Rightarrow> v)"

definition hours :: "int \<Rightarrow> duration" where "hours n = n * 3600000000000"

definition DefaultPolicy :: ApprovalPolicy where
  "DefaultPolicy =
    \<lparr>VotesRequired = [''L2'' \<mapsto> 1, ''L3'' \<mapsto> 2, ''L4'' \<mapsto> 2],
     SelfApprovalAllowed = [''L2'' \<mapsto> True, ''L3'' \<mapsto> False, ''L4'' \<mapsto> False],
     PrivilegedVoteRequired = [''L2'' \<mapsto> False, ''L3'' \<mapsto> False, ''L4'' \<mapsto> True],
     TTL = [(''L2'', hours 24), (''L3'', hours 24), (''L4'', hours 4)],
     ExecutionWindow = hours 24\<rparr>"

definition HashParams :: "lib \<Rightarrow> params \<Rightarrow> approval_error + string" where
  "HashParams l ps = (case lib_marshal l ps of None \<Rightarrow> Inl HashError
     | Some encoded \<Rightarrow> Inr (lib_sha256_hex l encoded))"

definition CanVote :: "ApprovalPolicy \<Rightarrow> ApprovalRequest \<Rightarrow> Principal \<Rightarrow> time \<Rightarrow> approval_error + unit" where
  "CanVote p req approver now =
    (if p_Type approver \<noteq> TypeHuman then Inl ErrApproverNotHuman
     else if Status req \<noteq> StatusPending then Inl ErrNotPending
     else if \<not> now < ExpiresAt req then Inl ErrExpired
     else if \<not> HasScope approver ScopeDecide then Inl ErrMissingDecideScope
     else if p_ID approver = RequesterID req \<and> \<not> map_bool (SelfApprovalAllowed p) (rq_RiskLevel req)
       then Inl ErrApproverIsRequester
     else if list_ex (\<lambda>d. ApproverID d = p_ID approver) (Decisions req) then Inl ErrDuplicateVote
     else Inr ())"

text \<open>The loop of \<open>Settle\<close>: \<open>None\<close> on the first rejection, else approvals and privilege.\<close>

fun count_votes :: "ApprovalDecision list \<Rightarrow> int \<Rightarrow> bool \<Rightarrow> (int \<times> bool) option" where
  "count_votes [] approvals privileged = Some (approvals, privileged)"
| "count_votes (d # ds) approvals privileged =
    (if dc_Verdict d = VerdictReject then None
     else count_votes ds (approvals + 1) (if Privileged d then True else privileged))"

definition Settle :: "ApprovalPolicy \<Rightarrow> ApprovalRequest \<Rightarrow> ApprovalDecision list \<Rightarrow> approval_status" where
  "Settle p req ds =
    (case count_votes ds 0 False of
       None \<Rightarrow> StatusRejected
     | Some (approvals, privileged) \<Rightarrow>
       let need = map_int (VotesRequired p) (rq_RiskLevel req) in
       if need \<le> 0 then StatusPending
       else if approvals < need then StatusPending
       else if map_bool (PrivilegedVoteRequired p) (rq_RiskLevel req) \<and> \<not> privileged then StatusPending
       else StatusApproved)"

definition TTLFor :: "ApprovalPolicy \<Rightarrow> string \<Rightarrow> duration" where
  "TTLFor p riskLevel =
    (let configured = (case map_of (TTL p) riskLevel of None \<Rightarrow> 0 | Some ttl \<Rightarrow> ttl) in
     if configured > 0 then configured
     else let shortest = foldl (\<lambda>sh (_, ttl). if ttl > 0 \<and> (sh = 0 \<or> ttl < sh) then ttl else sh) 0 (TTL p)
       in if shortest = 0 then hours 1 else shortest)"

definition CanExecute :: "lib \<Rightarrow> ApprovalPolicy \<Rightarrow> ApprovalRequest \<Rightarrow> params \<Rightarrow> time \<Rightarrow> approval_error + unit" where
  "CanExecute l p req ps now =
    (if Status req = StatusExecuted \<or> ExecutionRunID req \<noteq> None then Inl ErrAlreadyExecuted
     else if Status req \<noteq> StatusApproved then Inl ErrNotApproved
     else if \<not> now < ExpiresAt req then Inl ErrExpired
     else if (case DecidedAt req of None \<Rightarrow> False
         | Some d \<Rightarrow> ExecutionWindow p > 0 \<and> \<not> now < d + ExecutionWindow p) then Inl ErrExpired
     else rbind (HashParams l ps) (\<lambda>hash.
       if hash \<noteq> ParamsHash req then Inl ErrParamsDrifted else Inr ()))"

section \<open>The table and the store (store\_pg.go)\<close>

record ApprovalStore =
  environment :: string
  rows :: "ApprovalRequest list"

definition not_btrim_empty :: "string \<Rightarrow> bool" where
  "not_btrim_empty s \<longleftrightarrow> list_ex (\<lambda>c. c \<noteq> CHR '' '') s"

definition sha256_text :: "string \<Rightarrow> bool" where
  "sha256_text s \<longleftrightarrow> length s = 64 \<and>
     list_all (\<lambda>c. is_digit c \<or> 97 \<le> (of_char c :: nat) \<and> (of_char c :: nat) \<le> 102) s"

text \<open>The CHECK constraints of the two tables (migration 000049).\<close>

definition request_row_ok :: "ApprovalRequest \<Rightarrow> bool" where
  "request_row_ok r \<longleftrightarrow> not_btrim_empty (rq_ActionID r) \<and> not_btrim_empty (rq_ActionVersion r)
     \<and> sha256_text (ParamsHash r) \<and> rq_RiskLevel r \<in> set [''L2'', ''L3'', ''L4'']
     \<and> not_btrim_empty (RequesterID r)
     \<and> RequesterType r \<in> set [TypeHuman, TypeService, TypeAI, TypeServerAgent]
     \<and> not_btrim_empty (rq_Reason r)
     \<and> Status r \<in> set [StatusPending, StatusApproved, StatusRejected, StatusExecuted, StatusExpired, StatusCancelled]
     \<and> (Status r \<in> set [StatusPending, StatusCancelled, StatusExpired]) = (DecidedAt r = None)
     \<and> (Status r = StatusExecuted) = (ExecutedAt r \<noteq> None)
     \<and> (Status r = StatusExecuted) = (ExecutionRunID r \<noteq> None)
     \<and> ExpiresAt r > rq_CreatedAt r"

definition decision_row_ok :: "ApprovalDecision \<Rightarrow> bool" where
  "decision_row_ok d \<longleftrightarrow> not_btrim_empty (ApproverID d) \<and> ApproverType d = TypeHuman
     \<and> dc_Verdict d \<in> set [VerdictApprove, VerdictReject]"

definition pg_Create :: "ApprovalStore \<Rightarrow> ApprovalRequest \<Rightarrow> approval_error + ApprovalStore" where
  "pg_Create s req =
    (let row = req\<lparr>rq_Environment := environment s, Status := StatusPending, DecidedAt := None,
           ExecutedAt := None, ExecutionRunID := None, Decisions := []\<rparr> in
     if list_ex (\<lambda>r. rq_ID r = rq_ID req) (rows s) \<or> \<not> request_row_ok row then Inl StoreError
     else Inr (s\<lparr>rows := rows s @ [row]\<rparr>))"

definition pg_Get :: "ApprovalStore \<Rightarrow> uuid \<Rightarrow> approval_error + ApprovalRequest" where
  "pg_Get s ident =
    (case find (\<lambda>r. rq_ID r = ident \<and> rq_Environment r = environment s) (rows s) of
       None \<Rightarrow> Inl ErrNotFound | Some r \<Rightarrow> Inr r)"

text \<open>\<open>UPDATE ... SET f WHERE c\<close>: the new table and the number of rows affected.\<close>

definition update_where :: "(ApprovalRequest \<Rightarrow> bool) \<Rightarrow> (ApprovalRequest \<Rightarrow> ApprovalRequest) \<Rightarrow>
    ApprovalRequest list \<Rightarrow> ApprovalRequest list \<times> int" where
  "update_where c f rs = (map (\<lambda>r. if c r then f r else r) rs, int (length (filter c rs)))"

text \<open>The two writes of a vote: the decision, and the settled status if it is not pending.\<close>

definition with_vote :: "approval_status \<Rightarrow> time \<Rightarrow> ApprovalDecision \<Rightarrow> ApprovalRequest \<Rightarrow> ApprovalRequest" where
  "with_vote settled now d r =
    (if settled \<noteq> StatusPending then r\<lparr>Status := settled, DecidedAt := Some now\<rparr> else r)
      \<lparr>Decisions := Decisions r @ [d]\<rparr>"

definition pg_Vote :: "ApprovalStore \<Rightarrow> uuid \<Rightarrow> Principal \<Rightarrow> ApprovalDecision \<Rightarrow> ApprovalPolicy \<Rightarrow> time \<Rightarrow>
    approval_error + (ApprovalStore \<times> ApprovalRequest)" where
  "pg_Vote s ident approver d0 pol now =
    rbind (pg_Get s ident) (\<lambda>req.
      let d = d0\<lparr>ApproverID := p_ID approver, ApproverType := p_Type approver,
            Privileged := HasScope approver ScopeL4\<rparr> in
      rbind (CanVote pol req approver now) (\<lambda>_.
        if list_ex (\<lambda>r. list_ex (\<lambda>x. dc_ID x = dc_ID d) (Decisions r)) (rows s) then Inl ErrDuplicateVote
        else if \<not> decision_row_ok d then Inl StoreError
        else let d = d\<lparr>dc_RequestID := ident, dc_CreatedAt := now\<rparr>;
                 settled = Settle pol req (Decisions req @ [d]);
                 s' = s\<lparr>rows := fst (update_where (\<lambda>r. rq_ID r = ident) (with_vote settled now d) (rows s))\<rparr> in
          rbind (pg_Get s' ident) (\<lambda>r. Inr (s', r))))"

definition pg_MarkExecuted :: "ApprovalStore \<Rightarrow> uuid \<Rightarrow> uuid \<Rightarrow> time \<Rightarrow> approval_error + ApprovalStore" where
  "pg_MarkExecuted s ident runID executedAt =
    (let c = (\<lambda>r. rq_ID r = ident \<and> rq_Environment r = environment s \<and> Status r = StatusApproved
           \<and> ExecutionRunID r = None);
         (rs, n) = update_where c
           (\<lambda>r. r\<lparr>Status := StatusExecuted, ExecutedAt := Some executedAt, ExecutionRunID := Some runID\<rparr>) (rows s) in
     if n = 0 then Inl ErrAlreadyExecuted
     else if list_ex (\<lambda>r. ExecutionRunID r = Some runID) (rows s) then Inl StoreError
     else Inr (s\<lparr>rows := rs\<rparr>))"

definition pg_Cancel :: "ApprovalStore \<Rightarrow> uuid \<Rightarrow> string \<Rightarrow> approval_error + ApprovalStore" where
  "pg_Cancel s ident requesterID =
    (let (rs, n) = update_where (\<lambda>r. rq_ID r = ident \<and> rq_Environment r = environment s
           \<and> Status r = StatusPending \<and> RequesterID r = requesterID)
           (\<lambda>r. r\<lparr>Status := StatusCancelled\<rparr>) (rows s) in
     if n = 0 then Inl ErrNotCancellableByOther else Inr (s\<lparr>rows := rs\<rparr>))"

definition pg_ExpirePending :: "ApprovalStore \<Rightarrow> time \<Rightarrow> ApprovalStore \<times> int" where
  "pg_ExpirePending s now =
    (let (rs, n) = update_where (\<lambda>r. rq_Environment r = environment s \<and> Status r = StatusPending
           \<and> ExpiresAt r \<le> now) (\<lambda>r. r\<lparr>Status := StatusExpired\<rparr>) (rows s) in
     (s\<lparr>rows := rs\<rparr>, n))"

record QueueStats =
  PendingCount :: int
  OldestPendingAge :: duration

definition pg_PendingStats :: "ApprovalStore \<Rightarrow> time \<Rightarrow> QueueStats" where
  "pg_PendingStats s now =
    (let waiting = map rq_CreatedAt (filter (\<lambda>r. rq_Environment r = environment s
           \<and> Status r = StatusPending \<and> ExpiresAt r > now) (rows s)) in
     \<lparr>PendingCount = int (length waiting),
      OldestPendingAge = (case waiting of [] \<Rightarrow> 0 | t # ts \<Rightarrow>
        let oldest = fold min ts t in if now > oldest then time_sub now oldest else 0)\<rparr>)"

definition pg_List :: "ApprovalStore \<Rightarrow> approval_status \<Rightarrow> int \<Rightarrow> ApprovalRequest list" where
  "pg_List s status lim0 =
    (let lim = (if lim0 \<le> 0 \<or> lim0 > 200 then 50 else lim0) in
     take (nat lim) (sort_key (\<lambda>r. - rq_CreatedAt r)
       (filter (\<lambda>r. rq_Environment r = environment s \<and> (status = [] \<or> Status r = status)) (rows s))))"

section \<open>The service (service.go)\<close>

record ApprovalSubmission =
  as_ActionID :: string
  as_ActionVersion :: string
  as_RiskLevel :: RiskLevel
  as_Params :: params
  as_Requester :: Principal
  as_Reason :: string
  as_RequestID :: string

record ApprovalClaim =
  ac_ActionID :: string
  ac_ActionVersion :: string
  ac_RiskLevel :: RiskLevel
  ac_Params :: params
  ac_Reason :: string
  ac_RequesterID :: string

definition executeError :: "approval_error \<Rightarrow> action_error" where
  "executeError e = newError (case e of ErrAlreadyExecuted \<Rightarrow> CodeConflict
     | ErrNotApproved \<Rightarrow> CodePreconditionFailed | ErrExpired \<Rightarrow> CodePreconditionFailed
     | ErrParamsDrifted \<Rightarrow> CodeConflict | _ \<Rightarrow> CodeInternal)"

definition voteError :: "approval_error \<Rightarrow> action_error" where
  "voteError e = newError (case e of ErrNotFound \<Rightarrow> CodeApprovalNotFound
     | ErrApproverNotHuman \<Rightarrow> CodePrincipalTypeNotAllowed | ErrMissingDecideScope \<Rightarrow> CodePermissionDenied
     | ErrApproverIsRequester \<Rightarrow> CodePermissionDenied | ErrDuplicateVote \<Rightarrow> CodeConflict
     | ErrNotPending \<Rightarrow> CodePreconditionFailed | ErrExpired \<Rightarrow> CodePreconditionFailed
     | _ \<Rightarrow> CodeInternal)"

definition loadError :: "approval_error \<Rightarrow> action_error" where
  "loadError e = newError (case e of ErrNotFound \<Rightarrow> CodeApprovalNotFound | _ \<Rightarrow> CodeInternal)"

definition map_error :: "('e \<Rightarrow> 'f) \<Rightarrow> 'e + 'a \<Rightarrow> 'f + 'a" where
  "map_error g r = (case r of Inl e \<Rightarrow> Inl (g e) | Inr a \<Rightarrow> Inr a)"

definition parseID :: "lib \<Rightarrow> string \<Rightarrow> action_error + uuid" where
  "parseID l approvalID = (case lib_parse_uuid l approvalID of
     None \<Rightarrow> Inl (newError CodeApprovalNotFound) | Some ident \<Rightarrow> Inr ident)"

definition load :: "lib \<Rightarrow> ApprovalStore \<Rightarrow> string \<Rightarrow> action_error + ApprovalRequest" where
  "load l s approvalID = rbind (parseID l approvalID) (\<lambda>ident. map_error loadError (pg_Get s ident))"

text \<open>The fresh identifier and the clock are arguments.\<close>

definition Submit :: "lib \<Rightarrow> ApprovalPolicy \<Rightarrow> ApprovalStore \<Rightarrow> ApprovalSubmission \<Rightarrow> uuid \<Rightarrow> time \<Rightarrow>
    action_error + (ApprovalStore \<times> string)" where
  "Submit l pol s sub ident now =
    rbind (map_error (\<lambda>_. newError CodeInvalidParams) (HashParams l (as_Params sub))) (\<lambda>hash.
    let req = \<lparr>rq_ID = ident, rq_ActionID = as_ActionID sub, rq_ActionVersion = as_ActionVersion sub,
          rq_Params = as_Params sub, ParamsHash = hash, rq_RiskLevel = as_RiskLevel sub,
          rq_Environment = [], RequesterID = p_ID (as_Requester sub),
          RequesterType = p_Type (as_Requester sub), rq_Reason = as_Reason sub,
          Status = StatusPending, ExpiresAt = now + TTLFor pol (as_RiskLevel sub), rq_CreatedAt = now,
          DecidedAt = None, ExecutedAt = None, ExecutionRunID = None, Decisions = []\<rparr> in
    rbind (map_error (\<lambda>_. newError CodeInternal) (pg_Create s req)) (\<lambda>s'.
      Inr (s', lib_uuid_text l ident)))"

definition Peek :: "lib \<Rightarrow> ApprovalStore \<Rightarrow> string \<Rightarrow> action_error + ApprovalClaim" where
  "Peek l s approvalID =
    rbind (load l s approvalID) (\<lambda>req.
    rbind (map_error (\<lambda>_. newError CodeInternal) (HashParams l (rq_Params req))) (\<lambda>hash.
      if hash \<noteq> ParamsHash req then Inl (newError CodeConflict)
      else Inr \<lparr>ac_ActionID = rq_ActionID req, ac_ActionVersion = rq_ActionVersion req,
        ac_RiskLevel = rq_RiskLevel req, ac_Params = rq_Params req, ac_Reason = rq_Reason req,
        ac_RequesterID = RequesterID req\<rparr>))"

definition Claim :: "lib \<Rightarrow> ApprovalPolicy \<Rightarrow> ApprovalStore \<Rightarrow> string \<Rightarrow> uuid \<Rightarrow> params option \<Rightarrow> time \<Rightarrow>
    action_error + ApprovalStore" where
  "Claim l pol s approvalID runID declared now =
    rbind (load l s approvalID) (\<lambda>req.
    rbind (map_error executeError (CanExecute l pol req (rq_Params req) now)) (\<lambda>_.
    rbind (case declared of None \<Rightarrow> Inr ()
      | Some ps \<Rightarrow> rbind (map_error (\<lambda>_. newError CodeInvalidParams) (HashParams l ps)) (\<lambda>hash.
          if hash \<noteq> ParamsHash req then Inl (newError CodeConflict) else Inr ())) (\<lambda>_.
    map_error (\<lambda>e. newError (if e = ErrAlreadyExecuted then CodeConflict else CodeInternal))
      (pg_MarkExecuted s (rq_ID req) runID now))))"

definition Vote :: "lib \<Rightarrow> ApprovalPolicy \<Rightarrow> ApprovalStore \<Rightarrow> string \<Rightarrow> Principal \<Rightarrow> Verdict \<Rightarrow> string \<Rightarrow>
    uuid \<Rightarrow> time \<Rightarrow> action_error + (ApprovalStore \<times> ApprovalRequest)" where
  "Vote l pol s approvalID approver verdict remark decisionID now =
    rbind (parseID l approvalID) (\<lambda>ident.
    let d = \<lparr>dc_ID = decisionID, dc_RequestID = ident, ApproverID = [], ApproverType = [],
          dc_Verdict = verdict, Comment = remark, Privileged = False, dc_CreatedAt = 0\<rparr> in
    map_error voteError (pg_Vote s ident approver d pol now))"

definition Cancel :: "lib \<Rightarrow> ApprovalStore \<Rightarrow> string \<Rightarrow> Principal \<Rightarrow> action_error + ApprovalStore" where
  "Cancel l s approvalID requester =
    rbind (parseID l approvalID) (\<lambda>ident.
      map_error (\<lambda>e. newError (if e = ErrNotCancellableByOther then CodePreconditionFailed else CodeInternal))
        (pg_Cancel s ident (p_ID requester)))"

definition Service_Get :: "lib \<Rightarrow> ApprovalStore \<Rightarrow> string \<Rightarrow> action_error + ApprovalRequest" where
  "Service_Get l s approvalID =
    rbind (parseID l approvalID) (\<lambda>ident. map_error loadError (pg_Get s ident))"

definition ExpirePending :: "ApprovalStore \<Rightarrow> time \<Rightarrow> ApprovalStore \<times> int" where
  "ExpirePending s now = pg_ExpirePending s now"

definition PendingStats :: "ApprovalStore \<Rightarrow> time \<Rightarrow> QueueStats" where
  "PendingStats s now = pg_PendingStats s now"

section \<open>The approval centre as a state machine\<close>

text \<open>One successful operation; an operation that fails leaves the table as it was.\<close>

inductive approval_step :: "lib \<Rightarrow> ApprovalPolicy \<Rightarrow> ApprovalStore \<Rightarrow> ApprovalStore \<Rightarrow> bool"
  for l :: lib and pol :: ApprovalPolicy where
  submit: "Submit l pol s sub ident now = Inr (s', txt) \<Longrightarrow> approval_step l pol s s'"
| vote: "Vote l pol s txt approver verdict remark did now = Inr (s', req) \<Longrightarrow> approval_step l pol s s'"
| claim: "Claim l pol s txt runID declared now = Inr s' \<Longrightarrow> approval_step l pol s s'"
| cancel: "Cancel l s txt requester = Inr s' \<Longrightarrow> approval_step l pol s s'"
| expire: "ExpirePending s now = (s', n) \<Longrightarrow> approval_step l pol s s'"

inductive reachable :: "lib \<Rightarrow> ApprovalPolicy \<Rightarrow> ApprovalStore \<Rightarrow> bool" for l pol where
  init: "reachable l pol \<lparr>environment = env, rows = []\<rparr>"
| step: "reachable l pol s \<Longrightarrow> approval_step l pol s s' \<Longrightarrow> reachable l pol s'"

inductive_cases approval_stepE: "approval_step l pol s s'"

section \<open>What one step does to a request\<close>

inductive row_moves :: "lib \<Rightarrow> ApprovalPolicy \<Rightarrow> ApprovalRequest \<Rightarrow> ApprovalRequest \<Rightarrow> bool"
  for l :: lib and pol :: ApprovalPolicy where
  same: "row_moves l pol r r"
| voted: "CanVote pol r approver now = Inr () \<Longrightarrow> ApproverID d = p_ID approver \<Longrightarrow> decision_row_ok d \<Longrightarrow>
    Privileged d = HasScope approver ScopeL4 \<Longrightarrow> settled = Settle pol r (Decisions r @ [d]) \<Longrightarrow>
    row_moves l pol r (with_vote settled now d r)"
| executed: "CanExecute l pol r (rq_Params r) now = Inr () \<Longrightarrow>
    row_moves l pol r (r\<lparr>Status := StatusExecuted, ExecutedAt := Some now, ExecutionRunID := Some run\<rparr>)"
| cancelled: "Status r = StatusPending \<Longrightarrow> row_moves l pol r (r\<lparr>Status := StatusCancelled\<rparr>)"
| expired: "Status r = StatusPending \<Longrightarrow> row_moves l pol r (r\<lparr>Status := StatusExpired\<rparr>)"

definition new_row :: "lib \<Rightarrow> ApprovalStore \<Rightarrow> ApprovalRequest \<Rightarrow> bool" where
  "new_row l s r \<longleftrightarrow> request_row_ok r \<and> Status r = StatusPending \<and> Decisions r = []
     \<and> HashParams l (rq_Params r) = Inr (ParamsHash r) \<and> rq_Environment r = environment s
     \<and> (\<forall>r' \<in> set (rows s). rq_ID r' \<noteq> rq_ID r)"

definition unique_ids :: "ApprovalStore \<Rightarrow> bool" where
  "unique_ids s \<longleftrightarrow> distinct (map rq_ID (rows s))"

text \<open>A step updates the rows, one move each, or appends a fresh one.\<close>

definition row_update :: "lib \<Rightarrow> ApprovalPolicy \<Rightarrow> ApprovalStore \<Rightarrow> ApprovalStore \<Rightarrow> bool" where
  "row_update l pol s s' \<longleftrightarrow> environment s' = environment s \<and>
     ((\<exists>f. rows s' = map f (rows s) \<and> (\<forall>r \<in> set (rows s). row_moves l pol r (f r))) \<or>
      (\<exists>r. rows s' = rows s @ [r] \<and> new_row l s r))"

lemma update_where_updates:
  assumes "rows s' = fst (update_where c f (rows s))" "environment s' = environment s"
    and "\<And>r. r \<in> set (rows s) \<Longrightarrow> c r \<Longrightarrow> row_moves l pol r (f r)"
  shows "row_update l pol s s'"
  unfolding row_update_def
  using assms by (intro conjI disjI1 exI [of _ "\<lambda>r. if c r then f r else r"])
    (auto simp: update_where_def intro: row_moves.same)

lemma pg_Get_sound: "pg_Get s ident = Inr r \<Longrightarrow> r \<in> set (rows s) \<and> rq_ID r = ident"
  by (auto simp: pg_Get_def find_Some_iff split: option.splits)

lemma unique_row:
  "unique_ids s \<Longrightarrow> r \<in> set (rows s) \<Longrightarrow> r' \<in> set (rows s) \<Longrightarrow> rq_ID r = rq_ID r' \<Longrightarrow> r = r'"
  by (auto simp: unique_ids_def distinct_map inj_on_def)

lemma map_error_simps [simp]: "map_error g (Inr a) = Inr a" "map_error g (Inl e) = Inl (g e)"
  by (simp_all add: map_error_def)

lemma map_error_eq_Inr [result_simps]: "map_error g r = Inr a \<longleftrightarrow> r = Inr a"
  by (cases r) simp_all

lemma Submit_updates:
  assumes "Submit l pol s sub ident now = Inr (s', txt)"
  shows "row_update l pol s s'"
proof -
  obtain hash where h: "HashParams l (as_Params sub) = Inr hash"
    using assms by (auto simp: Submit_def result_simps)
  define row where "row = \<lparr>rq_ID = ident, rq_ActionID = as_ActionID sub,
    rq_ActionVersion = as_ActionVersion sub, rq_Params = as_Params sub, ParamsHash = hash,
    rq_RiskLevel = as_RiskLevel sub, rq_Environment = environment s,
    RequesterID = p_ID (as_Requester sub), RequesterType = p_Type (as_Requester sub),
    rq_Reason = as_Reason sub, Status = StatusPending, ExpiresAt = now + TTLFor pol (as_RiskLevel sub),
    rq_CreatedAt = now, DecidedAt = None, ExecutedAt = None, ExecutionRunID = None, Decisions = []\<rparr>"
  have "s' = s\<lparr>rows := rows s @ [row]\<rparr>" "request_row_ok row" "\<forall>r \<in> set (rows s). rq_ID r \<noteq> ident"
    using assms h by (auto simp: Submit_def pg_Create_def Let_def result_simps row_def list_ex_iff
        split: if_splits)
  moreover from this have "new_row l s row" using h by (simp add: new_row_def row_def)
  ultimately show ?thesis by (auto simp: row_update_def)
qed

lemma Vote_updates:
  assumes "Vote l pol s txt approver verdict remark did now = Inr (s', req)" "unique_ids s"
  shows "row_update l pol s s'"
proof -
  obtain ident where v: "pg_Vote s ident approver \<lparr>dc_ID = did, dc_RequestID = ident, ApproverID = [],
      ApproverType = [], dc_Verdict = verdict, Comment = remark, Privileged = False, dc_CreatedAt = 0\<rparr>
      pol now = Inr (s', req)"
    using assms(1) by (auto simp: Vote_def result_simps Let_def)
  define d where "d = \<lparr>dc_ID = did, dc_RequestID = ident, ApproverID = p_ID approver,
    ApproverType = p_Type approver, dc_Verdict = verdict, Comment = remark,
    Privileged = HasScope approver ScopeL4, dc_CreatedAt = now\<rparr>"
  obtain r where g: "pg_Get s ident = Inr r" and can: "CanVote pol r approver now = Inr ()"
    using v by (auto simp: pg_Vote_def result_simps Let_def)
  define settled where "settled = Settle pol r (Decisions r @ [d])"
  have w: "s' = s\<lparr>rows := fst (update_where (\<lambda>r. rq_ID r = ident) (with_vote settled now d) (rows s))\<rparr>
      \<and> decision_row_ok (d\<lparr>dc_CreatedAt := 0\<rparr>)"
    using v g can
    by (auto simp: pg_Vote_def result_simps Let_def settled_def d_def split: if_splits)
  then have s': "rows s' = fst (update_where (\<lambda>r. rq_ID r = ident) (with_vote settled now d) (rows s))"
    "environment s' = environment s" and ok: "decision_row_ok d"
    by (simp_all add: decision_row_ok_def)
  show ?thesis
  proof (rule update_where_updates [OF s'])
    fix r' assume "r' \<in> set (rows s)" "rq_ID r' = ident"
    then have "r' = r" using unique_row [OF assms(2)] pg_Get_sound [OF g] by blast
    then show "row_moves l pol r' (with_vote settled now d r')"
      using voted [OF can _ ok _ settled_def] by (simp add: d_def)
  qed
qed

text \<open>A successful claim names the row it takes and the state it found it in.\<close>

lemma Claim_sound:
  assumes "Claim l pol s txt runID declared now = Inr s'"
  obtains r where "r \<in> set (rows s)" "lib_parse_uuid l txt = Some (rq_ID r)"
    "CanExecute l pol r (rq_Params r) now = Inr ()"
    "\<And>ps. declared = Some ps \<Longrightarrow> HashParams l ps = Inr (ParamsHash r)"
    "\<forall>r' \<in> set (rows s). ExecutionRunID r' \<noteq> Some runID"
    "rows s' = fst (update_where (\<lambda>r'. rq_ID r' = rq_ID r \<and> rq_Environment r' = environment s
        \<and> Status r' = StatusApproved \<and> ExecutionRunID r' = None)
      (\<lambda>r'. r'\<lparr>Status := StatusExecuted, ExecutedAt := Some now, ExecutionRunID := Some runID\<rparr>) (rows s))"
    "environment s' = environment s"
proof -
  obtain r where l: "load l s txt = Inr r" and e: "CanExecute l pol r (rq_Params r) now = Inr ()"
    and m: "pg_MarkExecuted s (rq_ID r) runID now = Inr s'"
    using assms by (auto simp: Claim_def result_simps)
  have d: "HashParams l ps = Inr (ParamsHash r)" if "declared = Some ps" for ps
    using assms l e that by (auto simp: Claim_def result_simps split: if_splits)
  have "r \<in> set (rows s)" "lib_parse_uuid l txt = Some (rq_ID r)"
    using l by (auto simp: load_def parseID_def result_simps dest: pg_Get_sound split: option.splits)
  moreover have "\<forall>r' \<in> set (rows s). ExecutionRunID r' \<noteq> Some runID"
    using m by (auto simp: pg_MarkExecuted_def Let_def update_where_def list_ex_iff split: if_splits)
  moreover have "s' = s\<lparr>rows := fst (update_where (\<lambda>r'. rq_ID r' = rq_ID r \<and> rq_Environment r' = environment s
        \<and> Status r' = StatusApproved \<and> ExecutionRunID r' = None)
      (\<lambda>r'. r'\<lparr>Status := StatusExecuted, ExecutedAt := Some now, ExecutionRunID := Some runID\<rparr>) (rows s))\<rparr>"
    using m by (auto simp: pg_MarkExecuted_def Let_def update_where_def split: if_splits)
  ultimately show thesis using that [of r] d e by simp
qed

lemma approval_step_updates:
  assumes "approval_step l pol s s'" "unique_ids s"
  shows "row_update l pol s s'"
  using assms(1)
proof (cases rule: approval_step.cases)
  case submit
  then show ?thesis by (rule Submit_updates)
next
  case vote
  then show ?thesis using assms(2) by (rule Vote_updates)
next
  case (claim tx runID declared now)
  then show ?thesis
  proof (rule Claim_sound)
    fix r
    assume r: "r \<in> set (rows s)" "CanExecute l pol r (rq_Params r) now = Inr ()"
      and s': "rows s' = fst (update_where (\<lambda>r'. rq_ID r' = rq_ID r \<and> rq_Environment r' = environment s
          \<and> Status r' = StatusApproved \<and> ExecutionRunID r' = None)
        (\<lambda>r'. r'\<lparr>Status := StatusExecuted, ExecutedAt := Some now, ExecutionRunID := Some runID\<rparr>) (rows s))"
        "environment s' = environment s"
    show ?thesis
    proof (rule update_where_updates [OF s'])
      fix r' assume r': "r' \<in> set (rows s)" "rq_ID r' = rq_ID r \<and> rq_Environment r' = environment s
          \<and> Status r' = StatusApproved \<and> ExecutionRunID r' = None"
      then have "r' = r" using unique_row [OF assms(2) _ r(1)] by blast
      then show "row_moves l pol r' (r'\<lparr>Status := StatusExecuted, ExecutedAt := Some now,
          ExecutionRunID := Some runID\<rparr>)"
        using executed [OF r(2)] by simp
    qed
  qed
next
  case (cancel tx requester)
  then obtain ident where "pg_Cancel s ident (p_ID requester) = Inr s'"
    by (auto simp: Cancel_def result_simps)
  then have "s' = s\<lparr>rows := fst (update_where (\<lambda>r. rq_ID r = ident \<and> rq_Environment r = environment s
      \<and> Status r = StatusPending \<and> RequesterID r = p_ID requester) (\<lambda>r. r\<lparr>Status := StatusCancelled\<rparr>) (rows s))\<rparr>"
    by (auto simp: pg_Cancel_def update_where_def split: if_splits)
  then show ?thesis
    by (intro update_where_updates [of s' "\<lambda>r. rq_ID r = ident \<and> rq_Environment r = environment s
      \<and> Status r = StatusPending \<and> RequesterID r = p_ID requester" "\<lambda>r. r\<lparr>Status := StatusCancelled\<rparr>"])
      (auto intro: cancelled)
next
  case (expire now n)
  then have "s' = s\<lparr>rows := fst (update_where (\<lambda>r. rq_Environment r = environment s
      \<and> Status r = StatusPending \<and> ExpiresAt r \<le> now) (\<lambda>r. r\<lparr>Status := StatusExpired\<rparr>) (rows s))\<rparr>"
    by (auto simp: ExpirePending_def pg_ExpirePending_def update_where_def)
  then show ?thesis
    by (intro update_where_updates [of s' "\<lambda>r. rq_Environment r = environment s
      \<and> Status r = StatusPending \<and> ExpiresAt r \<le> now" "\<lambda>r. r\<lparr>Status := StatusExpired\<rparr>"])
      (auto intro: expired)
qed

section \<open>The invariant\<close>

definition voters_ok :: "ApprovalPolicy \<Rightarrow> ApprovalRequest \<Rightarrow> bool" where
  "voters_ok pol r \<longleftrightarrow> distinct (map ApproverID (Decisions r)) \<and> list_all decision_row_ok (Decisions r)
     \<and> (map_bool (SelfApprovalAllowed pol) (rq_RiskLevel r) \<or> RequesterID r \<notin> ApproverID ` set (Decisions r))"

definition row_inv :: "lib \<Rightarrow> ApprovalPolicy \<Rightarrow> ApprovalRequest \<Rightarrow> bool" where
  "row_inv l pol r \<longleftrightarrow> request_row_ok r \<and> HashParams l (rq_Params r) = Inr (ParamsHash r) \<and> voters_ok pol r
     \<and> (Status r \<in> {StatusApproved, StatusExecuted} \<longrightarrow> Settle pol r (Decisions r) = StatusApproved)
     \<and> (Status r = StatusPending \<longrightarrow> Settle pol r (Decisions r) = StatusPending)
     \<and> (Status r = StatusRejected \<longrightarrow> Settle pol r (Decisions r) = StatusRejected)"

lemma Settle_range: "Settle pol r ds \<in> {StatusPending, StatusApproved, StatusRejected}"
  by (auto simp: Settle_def Let_def split: option.splits)

lemma Settle_level: "rq_RiskLevel r' = rq_RiskLevel r \<Longrightarrow> Settle pol r' ds = Settle pol r ds"
proof -
  assume level: "rq_RiskLevel r' = rq_RiskLevel r"
  show ?thesis unfolding Settle_def level ..
qed

lemma row_moves_frozen:
  "row_moves l pol r r' \<Longrightarrow> rq_ID r' = rq_ID r \<and> rq_Params r' = rq_Params r \<and> ParamsHash r' = ParamsHash r
    \<and> rq_ActionID r' = rq_ActionID r \<and> rq_ActionVersion r' = rq_ActionVersion r
    \<and> rq_RiskLevel r' = rq_RiskLevel r \<and> RequesterID r' = RequesterID r \<and> ExpiresAt r' = ExpiresAt r
    \<and> rq_Environment r' = rq_Environment r"
  by (induction rule: row_moves.induct) (simp_all add: with_vote_def)

lemma CanVote_sound:
  "CanVote pol r a now = Inr () \<Longrightarrow> p_Type a = TypeHuman \<and> Status r = StatusPending \<and> now < ExpiresAt r
    \<and> (p_ID a = RequesterID r \<longrightarrow> map_bool (SelfApprovalAllowed pol) (rq_RiskLevel r))
    \<and> p_ID a \<notin> ApproverID ` set (Decisions r)"
  by (auto simp: CanVote_def list_ex_iff split: if_splits)

lemma CanExecute_sound:
  "CanExecute l pol r ps now = Inr () \<Longrightarrow> Status r = StatusApproved \<and> ExecutionRunID r = None
    \<and> now < ExpiresAt r \<and> HashParams l ps = Inr (ParamsHash r)
    \<and> (\<forall>d. DecidedAt r = Some d \<longrightarrow> ExecutionWindow pol > 0 \<longrightarrow> now < d + ExecutionWindow pol)"
  by (auto simp: CanExecute_def result_simps split: if_splits option.splits)

lemma row_moves_inv:
  assumes "row_moves l pol r r'" "row_inv l pol r"
  shows "row_inv l pol r'"
  using assms
proof (induction rule: row_moves.induct)
  case (same r)
  then show ?case .
next
  case (voted r approver now d settled)
  note v = CanVote_sound [OF voted(1)]
  have st: "Settle pol (with_vote settled now d r) (Decisions r @ [d]) = settled"
    using voted(5) Settle_level [of "with_vote settled now d r" r] by (simp add: with_vote_def)
  have range: "settled \<in> {StatusPending, StatusApproved, StatusRejected}"
    using Settle_range voted(5) by simp
  have status: "Status (with_vote settled now d r) = settled"
    using v by (simp add: with_vote_def)
  have ds: "Decisions (with_vote settled now d r) = Decisions r @ [d]" by (simp add: with_vote_def)
  have "request_row_ok (with_vote settled now d r)"
    using voted(6) range v by (auto simp: row_inv_def request_row_ok_def with_vote_def)
  moreover have "voters_ok pol (with_vote settled now d r)"
    using voted(2,3,6) v by (auto simp: row_inv_def voters_ok_def with_vote_def)
  moreover have "HashParams l (rq_Params (with_vote settled now d r)) = Inr (ParamsHash (with_vote settled now d r))"
    using voted(6) by (simp add: row_inv_def with_vote_def)
  ultimately show ?case
    unfolding row_inv_def status ds st using range by auto
next
  case (executed r now run)
  let ?r = "r\<lparr>Status := StatusExecuted, ExecutedAt := Some now, ExecutionRunID := Some run\<rparr>"
  note c = CanExecute_sound [OF executed(1)]
  have "request_row_ok ?r" using executed(2) c by (simp add: row_inv_def request_row_ok_def)
  moreover have "voters_ok pol ?r" using executed(2) by (simp add: row_inv_def voters_ok_def)
  moreover have "Settle pol ?r (Decisions r) = StatusApproved"
    using executed(2) c Settle_level [of ?r r] by (simp add: row_inv_def)
  ultimately show ?case using executed(2) by (simp add: row_inv_def)
next
  case (cancelled r)
  then show ?case by (simp add: row_inv_def request_row_ok_def voters_ok_def)
next
  case (expired r)
  then show ?case by (simp add: row_inv_def request_row_ok_def voters_ok_def)
qed

lemma new_row_inv: "new_row l s r \<Longrightarrow> row_inv l pol r"
  by (auto simp: new_row_def row_inv_def voters_ok_def Settle_def Let_def)

definition run_ids :: "ApprovalStore \<Rightarrow> uuid list" where
  "run_ids s = concat (map (\<lambda>r. case ExecutionRunID r of None \<Rightarrow> [] | Some i \<Rightarrow> [i]) (rows s))"

definition table_inv :: "lib \<Rightarrow> ApprovalPolicy \<Rightarrow> ApprovalStore \<Rightarrow> bool" where
  "table_inv l pol s \<longleftrightarrow> unique_ids s \<and> (\<forall>r \<in> set (rows s). row_inv l pol r)"

lemma row_update_inv:
  assumes "row_update l pol s s'" "table_inv l pol s"
  shows "table_inv l pol s'"
  using assms(1) unfolding row_update_def
proof (elim conjE disjE exE)
  fix f assume f: "rows s' = map f (rows s)" "\<forall>r \<in> set (rows s). row_moves l pol r (f r)"
  then have "map rq_ID (rows s') = map rq_ID (rows s)" by (auto dest: row_moves_frozen)
  then have "unique_ids s'" using assms(2) by (simp only: table_inv_def unique_ids_def)
  moreover have "\<forall>r \<in> set (rows s'). row_inv l pol r"
    using f assms(2) row_moves_inv by (auto simp: table_inv_def)
  ultimately show ?thesis by (simp add: table_inv_def)
next
  fix r assume "rows s' = rows s @ [r]" "new_row l s r"
  then show ?thesis
    using assms(2) new_row_inv by (auto simp: table_inv_def unique_ids_def new_row_def)
qed

lemma reachable_inv: "reachable l pol s \<Longrightarrow> table_inv l pol s"
proof (induction rule: reachable.induct)
  case init
  then show ?case by (simp add: table_inv_def unique_ids_def)
next
  case (step s s')
  then show ?case
    using row_update_inv approval_step_updates by (blast intro: table_inv_def [THEN iffD1, THEN conjunct1])
qed

section \<open>No execution without the votes\<close>

lemma count_votes_approved:
  "count_votes ds n b = Some (m, p) \<Longrightarrow> m = n + int (length ds) \<and> (p \<longleftrightarrow> b \<or> (\<exists>d \<in> set ds. Privileged d))
    \<and> (\<forall>d \<in> set ds. dc_Verdict d \<noteq> VerdictReject)"
  by (induction ds n b rule: count_votes.induct) (auto split: if_splits)

lemma Settle_approved:
  assumes "Settle pol r ds = StatusApproved"
  shows "0 < map_int (VotesRequired pol) (rq_RiskLevel r)"
    and "map_int (VotesRequired pol) (rq_RiskLevel r) \<le> int (length ds)"
    and "\<forall>d \<in> set ds. dc_Verdict d \<noteq> VerdictReject"
    and "map_bool (PrivilegedVoteRequired pol) (rq_RiskLevel r) \<Longrightarrow> \<exists>d \<in> set ds. Privileged d"
proof -
  obtain m p where c: "count_votes ds 0 False = Some (m, p)"
    using assms by (auto simp: Settle_def split: option.splits)
  show "0 < map_int (VotesRequired pol) (rq_RiskLevel r)"
    "map_int (VotesRequired pol) (rq_RiskLevel r) \<le> int (length ds)"
    "\<forall>d \<in> set ds. dc_Verdict d \<noteq> VerdictReject"
    "map_bool (PrivilegedVoteRequired pol) (rq_RiskLevel r) \<Longrightarrow> \<exists>d \<in> set ds. Privileged d"
    using assms c count_votes_approved [OF c] by (auto simp: Settle_def Let_def split: if_splits)
qed

text \<open>
  C4. Nothing is approved or executed without its votes. In every reachable table, a request
  that is approved or executed has as many approving votes as its risk level asks for, at
  least one, from as many different people: every voter is human, no voter rejected, the
  requester is among them only where the policy allows self-approval, and where the level
  asks for it one of them held the privileged scope when voting.
\<close>

theorem approved_has_votes:
  assumes "reachable l pol s" "r \<in> set (rows s)" "Status r \<in> {StatusApproved, StatusExecuted}"
  shows "1 \<le> map_int (VotesRequired pol) (rq_RiskLevel r)
    \<and> map_int (VotesRequired pol) (rq_RiskLevel r) \<le> int (card (ApproverID ` set (Decisions r)))
    \<and> (\<forall>d \<in> set (Decisions r). ApproverType d = TypeHuman \<and> dc_Verdict d = VerdictApprove)
    \<and> (map_bool (SelfApprovalAllowed pol) (rq_RiskLevel r) \<or> RequesterID r \<notin> ApproverID ` set (Decisions r))
    \<and> (map_bool (PrivilegedVoteRequired pol) (rq_RiskLevel r) \<longrightarrow> (\<exists>d \<in> set (Decisions r). Privileged d))"
proof -
  have inv: "row_inv l pol r" using reachable_inv [OF assms(1)] assms(2) by (simp add: table_inv_def)
  then have settle: "Settle pol r (Decisions r) = StatusApproved" and v: "voters_ok pol r"
    using assms(3) by (auto simp: row_inv_def)
  have "card (ApproverID ` set (Decisions r)) = length (Decisions r)"
    using v distinct_card [of "map ApproverID (Decisions r)"] by (simp add: voters_ok_def)
  then show ?thesis
    using Settle_approved [OF settle] v by (auto simp: voters_ok_def list_all_iff decision_row_ok_def)
qed

text \<open>A library for examples: parameters rendered by their keys, a constant digest, identifiers in unary.\<close>

definition example_lib :: lib where
  "example_lib = \<lparr>lib_marshal = (\<lambda>ps. Some (concat (map fst ps))),
     lib_sha256_hex = (\<lambda>s. replicate 64 (CHR ''0'')),
     lib_parse_uuid = (\<lambda>s. Some (length s)), lib_uuid_text = (\<lambda>n. replicate n (CHR ''u''))\<rparr>"

definition human :: "string \<Rightarrow> string list \<Rightarrow> Principal" where
  "human ident scopes = \<lparr>p_ID = ident, p_Type = TypeHuman, IdentityZone = [], Issuer = ''i'', Subject = [],
     ClientID = [], AuthenticationLevel = [], p_Environment = ''production'', Scopes = scopes, MFAAt = None\<rparr>"

definition example_submission :: ApprovalSubmission where
  "example_submission = \<lparr>as_ActionID = ''ops.service.switch'', as_ActionVersion = ''1'', as_RiskLevel = ''L4'',
     as_Params = [(''target'', VString ''b'')], as_Requester = human ''alice'' [], as_Reason = ''failover'',
     as_RequestID = ''r1''\<rparr>"

definition es0 :: ApprovalStore where "es0 = \<lparr>environment = ''production'', rows = []\<rparr>"

definition es1 :: ApprovalStore where
  "es1 = (case Submit example_lib DefaultPolicy es0 example_submission 5 1000 of Inr (s, _) \<Rightarrow> s | _ \<Rightarrow> es0)"

definition es2 :: ApprovalStore where
  "es2 = (case Vote example_lib DefaultPolicy es1 ''uuuuu'' (human ''bob'' [ScopeDecide]) VerdictApprove [] 1 2000 of
     Inr (s, _) \<Rightarrow> s | _ \<Rightarrow> es1)"

definition es3 :: ApprovalStore where
  "es3 = (case Vote example_lib DefaultPolicy es2 ''uuuuu'' (human ''carol'' [ScopeDecide, ScopeL4])
       VerdictApprove [] 2 3000 of Inr (s, _) \<Rightarrow> s | _ \<Rightarrow> es2)"

definition es4 :: ApprovalStore where
  "es4 = (case Claim example_lib DefaultPolicy es3 ''uuuuu'' 9 None 4000 of Inr s \<Rightarrow> s | _ \<Rightarrow> es3)"

lemma example_statuses:
  "map (\<lambda>s. map Status (rows s)) [es0, es1, es2, es3, es4] =
    [[], [StatusPending], [StatusPending], [StatusApproved], [StatusExecuted]]"
  by code_simp

lemma example_reachable:
  "reachable example_lib DefaultPolicy es0" "reachable example_lib DefaultPolicy es1"
  "reachable example_lib DefaultPolicy es2" "reachable example_lib DefaultPolicy es3"
  "reachable example_lib DefaultPolicy es4"
proof -
  show r0: "reachable example_lib DefaultPolicy es0" by (simp add: reachable.init es0_def)
  then show r1: "reachable example_lib DefaultPolicy es1"
    unfolding es1_def by (auto intro: reachable.step submit split: sum.splits)
  then show r2: "reachable example_lib DefaultPolicy es2"
    unfolding es2_def by (auto intro: reachable.step vote split: sum.splits)
  then show r3: "reachable example_lib DefaultPolicy es3"
    unfolding es3_def by (auto intro: reachable.step vote split: sum.splits)
  then show "reachable example_lib DefaultPolicy es4"
    unfolding es4_def by (auto intro: reachable.step claim split: sum.splits)
qed

theorem approved_has_votes_witness:
  "\<exists>r \<in> set (rows es4). Status r = StatusExecuted \<and> 2 \<le> int (card (ApproverID ` set (Decisions r)))
    \<and> (\<exists>d \<in> set (Decisions r). Privileged d)"
proof -
  have "map Status (rows es4) = [StatusExecuted]" "map rq_RiskLevel (rows es4) = [''L4'']"
    by code_simp+
  then obtain r where r: "rows es4 = [r]" "Status r = StatusExecuted" "rq_RiskLevel r = ''L4''"
    by auto
  show ?thesis
    using approved_has_votes [OF example_reachable(5), of r] r
    by (simp add: DefaultPolicy_def map_int_def map_bool_def)
qed

section \<open>What never changes\<close>

lemma steps_inv:
  assumes "(approval_step l pol)\<^sup>*\<^sup>* s s'" "table_inv l pol s"
  shows "table_inv l pol s' \<and> environment s' = environment s
    \<and> (\<forall>r \<in> set (rows s). \<exists>r' \<in> set (rows s'). (row_moves l pol)\<^sup>*\<^sup>* r r')"
  using assms
proof (induction rule: rtranclp_induct)
  case base
  then show ?case by blast
next
  case (step s1 s2)
  then have inv: "table_inv l pol s1" and env: "environment s1 = environment s"
    and rows: "\<forall>r \<in> set (rows s). \<exists>r' \<in> set (rows s1). (row_moves l pol)\<^sup>*\<^sup>* r r'" by auto
  have u: "row_update l pol s1 s2"
    using approval_step_updates [OF step(2)] inv by (simp add: table_inv_def)
  have "\<exists>r'' \<in> set (rows s2). row_moves l pol r' r''" if "r' \<in> set (rows s1)" for r'
    using u that unfolding row_update_def by (auto intro: row_moves.same)
  then have "\<forall>r \<in> set (rows s). \<exists>r' \<in> set (rows s2). (row_moves l pol)\<^sup>*\<^sup>* r r'"
    using rows by (meson rtranclp.rtrancl_into_rtrancl)
  then show ?case using row_update_inv [OF u inv] u env by (simp add: row_update_def)
qed

lemma terminal_stays: "row_moves l pol r r' \<Longrightarrow> Terminal (Status r) \<Longrightarrow> r' = r"
  by (cases rule: row_moves.cases)
     (auto simp: Terminal_def dest: CanVote_sound CanExecute_sound)

lemma terminal_stays_star: "(row_moves l pol)\<^sup>*\<^sup>* r r' \<Longrightarrow> Terminal (Status r) \<Longrightarrow> r' = r"
  by (induction rule: rtranclp_induct) (auto dest: terminal_stays)

lemma frozen_star:
  "(row_moves l pol)\<^sup>*\<^sup>* r r' \<Longrightarrow> rq_ID r' = rq_ID r \<and> rq_Params r' = rq_Params r \<and> ParamsHash r' = ParamsHash r
    \<and> rq_ActionID r' = rq_ActionID r \<and> rq_ActionVersion r' = rq_ActionVersion r
    \<and> rq_RiskLevel r' = rq_RiskLevel r \<and> RequesterID r' = RequesterID r \<and> ExpiresAt r' = ExpiresAt r
    \<and> rq_Environment r' = rq_Environment r"
  by (induction rule: rtranclp_induct) (auto dest: row_moves_frozen)

text \<open>
  What was asked is what is approved, and what is settled stays settled. Along any
  sequence of operations every request keeps its identity, action, version, parameters and
  their hash, risk level, requester and expiry; and a request that is rejected, executed,
  expired or cancelled never changes again in any field, its votes included.
\<close>

theorem requests_frozen:
  assumes "reachable l pol s" "(approval_step l pol)\<^sup>*\<^sup>* s s'" "r \<in> set (rows s)"
  shows "\<exists>r' \<in> set (rows s'). rq_ID r' = rq_ID r \<and> rq_Params r' = rq_Params r \<and> ParamsHash r' = ParamsHash r
    \<and> rq_ActionID r' = rq_ActionID r \<and> rq_ActionVersion r' = rq_ActionVersion r
    \<and> rq_RiskLevel r' = rq_RiskLevel r \<and> RequesterID r' = RequesterID r \<and> ExpiresAt r' = ExpiresAt r
    \<and> (Terminal (Status r) \<longrightarrow> r' = r)"
proof -
  obtain r' where "r' \<in> set (rows s')" "(row_moves l pol)\<^sup>*\<^sup>* r r'"
    using steps_inv [OF assms(2) reachable_inv [OF assms(1)]] assms(3) by blast
  then show ?thesis using frozen_star terminal_stays_star by blast
qed

theorem requests_frozen_witness:
  "\<exists>r \<in> set (rows es1). \<exists>r' \<in> set (rows es4). rq_Params r' = rq_Params r \<and> ParamsHash r' = ParamsHash r"
proof -
  have "map Status (rows es1) = [StatusPending]" by code_simp
  then obtain r where r: "r \<in> set (rows es1)" by (cases "rows es1") auto
  have "approval_step example_lib DefaultPolicy es1 es2 \<or> es2 = es1"
    unfolding es2_def by (auto intro: vote split: sum.splits)
  moreover have "approval_step example_lib DefaultPolicy es2 es3 \<or> es3 = es2"
    unfolding es3_def by (auto intro: vote split: sum.splits)
  moreover have "approval_step example_lib DefaultPolicy es3 es4 \<or> es4 = es3"
    unfolding es4_def by (auto intro: claim split: sum.splits)
  ultimately have "(approval_step example_lib DefaultPolicy)\<^sup>*\<^sup>* es1 es4"
    by (metis (full_types) converse_rtranclp_into_rtranclp rtranclp.rtrancl_refl)
  then show ?thesis using requests_frozen [OF example_reachable(2) _ r] r by blast
qed

section \<open>Executing\<close>

lemma pg_Get_found:
  assumes "unique_ids s" "r \<in> set (rows s)" "rq_Environment r = environment s"
  shows "pg_Get s (rq_ID r) = Inr r"
proof -
  obtain r' where r': "find (\<lambda>x. rq_ID x = rq_ID r \<and> rq_Environment x = environment s) (rows s) = Some r'"
    using assms(2,3) by (cases "find (\<lambda>x. rq_ID x = rq_ID r \<and> rq_Environment x = environment s) (rows s)")
      (auto simp: find_None_iff)
  then have "r' = r" using unique_row [OF assms(1)] assms(2) by (auto simp: find_Some_iff)
  then show ?thesis using r' by (simp add: pg_Get_def)
qed

lemma pg_Get_env:
  assumes "unique_ids s" "r \<in> set (rows s)" "pg_Get s (rq_ID r) \<noteq> Inl ErrNotFound"
  shows "rq_Environment r = environment s"
proof -
  obtain r' where "find (\<lambda>x. rq_ID x = rq_ID r \<and> rq_Environment x = environment s) (rows s) = Some r'"
    using assms(3) by (auto simp: pg_Get_def split: option.splits)
  then have r': "r' \<in> set (rows s)" "rq_ID r' = rq_ID r" "rq_Environment r' = environment s"
    by (auto simp: find_Some_iff)
  then show ?thesis using unique_row [OF assms(1,2) r'(1)] by simp
qed

lemma Claim_env:
  assumes "Claim l pol s ident runID declared now = Inr s'" "unique_ids s"
    and "r \<in> set (rows s)" "lib_parse_uuid l ident = Some (rq_ID r)"
  shows "rq_Environment r = environment s"
  using assms by (intro pg_Get_env) (auto simp: Claim_def load_def parseID_def result_simps)

lemma Claim_takes:
  assumes "table_inv l pol s" "Claim l pol s ident runID declared now = Inr s'"
  obtains r where "r \<in> set (rows s)" "lib_parse_uuid l ident = Some (rq_ID r)"
    "rq_Environment r = environment s" "environment s' = environment s"
    "CanExecute l pol r (rq_Params r) now = Inr ()"
    "\<And>ps. declared = Some ps \<Longrightarrow> HashParams l ps = Inr (ParamsHash r)"
    "rows s' = map (\<lambda>x. if x = r then r\<lparr>Status := StatusExecuted, ExecutedAt := Some now,
        ExecutionRunID := Some runID\<rparr> else x) (rows s)"
  using assms(2)
proof (rule Claim_sound)
  fix r
  assume r: "r \<in> set (rows s)" "lib_parse_uuid l ident = Some (rq_ID r)"
    "CanExecute l pol r (rq_Params r) now = Inr ()"
    "\<And>ps. declared = Some ps \<Longrightarrow> HashParams l ps = Inr (ParamsHash r)"
    and s': "rows s' = fst (update_where (\<lambda>r'. rq_ID r' = rq_ID r \<and> rq_Environment r' = environment s
        \<and> Status r' = StatusApproved \<and> ExecutionRunID r' = None)
      (\<lambda>r'. r'\<lparr>Status := StatusExecuted, ExecutedAt := Some now, ExecutionRunID := Some runID\<rparr>) (rows s))"
    and e': "environment s' = environment s"
  have uniq: "unique_ids s" using assms(1) by (simp add: table_inv_def)
  note c = CanExecute_sound [OF r(3)]
  have env: "rq_Environment r = environment s" by (rule Claim_env [OF assms(2) uniq r(1,2)])
  have "(rq_ID x = rq_ID r \<and> rq_Environment x = environment s \<and> Status x = StatusApproved
      \<and> ExecutionRunID x = None) \<longleftrightarrow> x = r" if "x \<in> set (rows s)" for x
    using unique_row [OF uniq that r(1)] c env by auto
  then have "rows s' = map (\<lambda>x. if x = r then r\<lparr>Status := StatusExecuted, ExecutedAt := Some now,
        ExecutionRunID := Some runID\<rparr> else x) (rows s)"
    unfolding s' update_where_def by (auto cong: map_cong)
  then show thesis using r env e' that by blast
qed

text \<open>
  C5. A claim takes exactly one approved request. When claiming succeeds there is one request
  with that identifier, it was approved with its votes, not past its expiry nor past the
  execution window, its stored parameters still match the hash frozen at submission, and so
  do the parameters the caller declares; afterwards that request is executed, bound to this
  run and this time, and every other request is as it was.
\<close>

theorem Claim_takes_approved:
  assumes "reachable l pol s" "Claim l pol s ident runID declared now = Inr s'"
  shows "\<exists>r \<in> set (rows s). lib_parse_uuid l ident = Some (rq_ID r) \<and> Status r = StatusApproved
    \<and> Settle pol r (Decisions r) = StatusApproved
    \<and> now < ExpiresAt r \<and> (\<forall>d. DecidedAt r = Some d \<longrightarrow> ExecutionWindow pol > 0 \<longrightarrow> now < d + ExecutionWindow pol)
    \<and> HashParams l (rq_Params r) = Inr (ParamsHash r)
    \<and> (\<forall>ps. declared = Some ps \<longrightarrow> HashParams l ps = Inr (ParamsHash r))
    \<and> rows s' = map (\<lambda>x. if x = r then r\<lparr>Status := StatusExecuted, ExecutedAt := Some now,
        ExecutionRunID := Some runID\<rparr> else x) (rows s)"
proof -
  have inv: "table_inv l pol s" by (rule reachable_inv [OF assms(1)])
  then show ?thesis using assms(2)
  proof (rule Claim_takes)
    fix r
    assume r: "r \<in> set (rows s)" "CanExecute l pol r (rq_Params r) now = Inr ()"
      "lib_parse_uuid l ident = Some (rq_ID r)"
      "\<And>ps. declared = Some ps \<Longrightarrow> HashParams l ps = Inr (ParamsHash r)"
      "rows s' = map (\<lambda>x. if x = r then r\<lparr>Status := StatusExecuted, ExecutedAt := Some now,
        ExecutionRunID := Some runID\<rparr> else x) (rows s)"
    note c = CanExecute_sound [OF r(2)]
    have "Settle pol r (Decisions r) = StatusApproved"
      using inv r(1) c by (auto simp: table_inv_def row_inv_def)
    then show ?thesis using r c by blast
  qed
qed

theorem Claim_takes_approved_witness:
  "\<exists>s'. Claim example_lib DefaultPolicy es3 ''uuuuu'' 9 None 4000 = Inr s'
    \<and> (\<exists>r \<in> set (rows es3). Status r = StatusApproved \<and> (4000::int) < ExpiresAt r)"
proof -
  have "(case Claim example_lib DefaultPolicy es3 ''uuuuu'' 9 None 4000 of Inr _ \<Rightarrow> True | Inl _ \<Rightarrow> False)"
    by code_simp
  then obtain s' where s': "Claim example_lib DefaultPolicy es3 ''uuuuu'' 9 None 4000 = Inr s'"
    by (auto split: sum.splits)
  then show ?thesis using Claim_takes_approved [OF example_reachable(4) s'] by blast
qed

text \<open>
  At most one execution. Once a request has been claimed, no later claim of it succeeds:
  whatever happened in between, whoever asks, with whatever parameters and at whatever time,
  the answer is a conflict.
\<close>

theorem Claim_at_most_once:
  assumes "reachable l pol s" "Claim l pol s ident runID declared now = Inr s1"
    and "(approval_step l pol)\<^sup>*\<^sup>* s1 s2" "lib_parse_uuid l ident' = lib_parse_uuid l ident"
  shows "Claim l pol s2 ident' runID' declared' now' = Inl (newError CodeConflict)"
proof -
  note inv = reachable_inv [OF assms(1)]
  obtain r where r: "r \<in> set (rows s)" "lib_parse_uuid l ident = Some (rq_ID r)"
      "rq_Environment r = environment s" "environment s1 = environment s"
    and rows: "rows s1 = map (\<lambda>x. if x = r then r\<lparr>Status := StatusExecuted, ExecutedAt := Some now,
        ExecutionRunID := Some runID\<rparr> else x) (rows s)"
    using Claim_takes [OF inv assms(2)] by blast
  define r1 where "r1 = r\<lparr>Status := StatusExecuted, ExecutedAt := Some now, ExecutionRunID := Some runID\<rparr>"
  have inv1: "table_inv l pol s1"
    using approval_step_updates [OF claim [OF assms(2)]] row_update_inv inv by (simp add: table_inv_def)
  have "r1 \<in> set (rows s1)" using r(1) by (auto simp: rows r1_def)
  then obtain r2 where r2: "r2 \<in> set (rows s2)" "(row_moves l pol)\<^sup>*\<^sup>* r1 r2"
    and s2: "environment s2 = environment s" "unique_ids s2"
    using steps_inv [OF assms(3) inv1] r(4) by (auto simp: table_inv_def)
  have "r2 = r1" by (rule terminal_stays_star [OF r2(2)]) (simp add: Terminal_def r1_def)
  then have "pg_Get s2 (rq_ID r1) = Inr r1"
    using r2(1) s2 r(3) by (intro pg_Get_found) (simp_all add: r1_def)
  then show ?thesis
    using assms(4) r(2)
    by (simp add: Claim_def load_def parseID_def r1_def CanExecute_def executeError_def result_simps)
qed

theorem Claim_at_most_once_witness:
  "\<exists>s1. Claim example_lib DefaultPolicy es3 ''uuuuu'' 9 None 4000 = Inr s1
    \<and> Claim example_lib DefaultPolicy s1 ''uuuuu'' 10 None 5000 = Inl (newError CodeConflict)"
proof -
  have "(case Claim example_lib DefaultPolicy es3 ''uuuuu'' 9 None 4000 of Inr _ \<Rightarrow> True | Inl _ \<Rightarrow> False)"
    by code_simp
  then obtain s1 where s1: "Claim example_lib DefaultPolicy es3 ''uuuuu'' 9 None 4000 = Inr s1"
    by (auto split: sum.splits)
  then show ?thesis
    using Claim_at_most_once [OF example_reachable(4) s1 rtranclp.rtrancl_refl refl] by blast
qed

section \<open>Settling and expiring\<close>

lemma count_votes_eq:
  "count_votes ds n b = (if \<exists>d \<in> set ds. dc_Verdict d = VerdictReject then None
     else Some (n + int (length ds), b \<or> (\<exists>d \<in> set ds. Privileged d)))"
  by (induction ds n b rule: count_votes.induct) (simp, force)

lemma Settle_eq:
  "Settle pol r ds = (if \<exists>d \<in> set ds. dc_Verdict d = VerdictReject then StatusRejected
     else if 0 < map_int (VotesRequired pol) (rq_RiskLevel r)
       \<and> map_int (VotesRequired pol) (rq_RiskLevel r) \<le> int (length ds)
       \<and> (map_bool (PrivilegedVoteRequired pol) (rq_RiskLevel r) \<longrightarrow> (\<exists>d \<in> set ds. Privileged d))
     then StatusApproved else StatusPending)"
  by (auto simp: Settle_def count_votes_eq Let_def)

text \<open>
  The verdict does not depend on who voted first. One rejection settles a request as
  rejected whatever else was voted; without one it is approved exactly when the level has a
  positive number of required votes, that many were cast, and one of them is privileged where
  the level asks for it; and two histories with the same votes settle alike in any order.
\<close>

theorem Settle_order:
  assumes "mset ds = mset ds'"
  shows "Settle pol r ds = Settle pol r ds'
    \<and> (Settle pol r ds = StatusRejected \<longleftrightarrow> (\<exists>d \<in> set ds. dc_Verdict d = VerdictReject))
    \<and> (Settle pol r ds = StatusApproved \<longleftrightarrow> (\<forall>d \<in> set ds. dc_Verdict d \<noteq> VerdictReject)
         \<and> 0 < map_int (VotesRequired pol) (rq_RiskLevel r)
         \<and> map_int (VotesRequired pol) (rq_RiskLevel r) \<le> int (length ds)
         \<and> (map_bool (PrivilegedVoteRequired pol) (rq_RiskLevel r) \<longrightarrow> (\<exists>d \<in> set ds. Privileged d)))"
proof -
  have "set ds = set ds'" "length ds = length ds'"
    using assms by (metis set_mset_mset, metis size_mset)
  then show ?thesis by (simp add: Settle_eq)
qed

theorem Settle_order_witness:
  "\<exists>r \<in> set (rows es4). Settle DefaultPolicy r (rev (Decisions r)) = StatusApproved"
proof -
  have "map (\<lambda>r. Settle DefaultPolicy r (Decisions r)) (rows es4) = [StatusApproved]" by code_simp
  then obtain r where "r \<in> set (rows es4)" "Settle DefaultPolicy r (Decisions r) = StatusApproved"
    by (cases "rows es4") auto
  then show ?thesis
    using Settle_order [of "rev (Decisions r)" "Decisions r" DefaultPolicy r] by auto
qed

lemma ExpirePending_rows:
  "ExpirePending s now = (s', n) \<Longrightarrow>
    s' = s\<lparr>rows := map (\<lambda>r. if rq_Environment r = environment s \<and> Status r = StatusPending
      \<and> ExpiresAt r \<le> now then r\<lparr>Status := StatusExpired\<rparr> else r) (rows s)\<rparr>
    \<and> n = int (length (filter (\<lambda>r. rq_Environment r = environment s \<and> Status r = StatusPending
      \<and> ExpiresAt r \<le> now) (rows s)))"
  by (auto simp: ExpirePending_def pg_ExpirePending_def update_where_def)

lemma expired_changes: "Status r = StatusPending \<Longrightarrow> r\<lparr>Status := StatusExpired\<rparr> \<noteq> r"
proof
  assume "Status r = StatusPending" "r\<lparr>Status := StatusExpired\<rparr> = r"
  moreover from this(2) have "Status (r\<lparr>Status := StatusExpired\<rparr>) = Status r" by (rule arg_cong)
  ultimately show False by simp
qed

lemma filter_map_other:
  "(\<And>x. x \<in> set xs \<Longrightarrow> P (f x) \<longleftrightarrow> P x) \<Longrightarrow> (\<And>x. x \<in> set xs \<Longrightarrow> P x \<Longrightarrow> g (f x) = g x) \<Longrightarrow>
    map g (filter P (map f xs)) = map g (filter P xs)"
  by (induction xs) auto

text \<open>
  Expiring is exact and idempotent. After a sweep at some time no request of this
  environment that is still pending has reached its expiry; exactly the counted ones changed,
  and only in their status; a second sweep at that time finds none; and the queue statistics
  the workers report are the same with and without the sweep, then and later.
\<close>

theorem ExpirePending_exact:
  assumes "ExpirePending s now = (s', n)" "now \<le> t"
  shows "(\<forall>r \<in> set (rows s'). rq_Environment r = environment s \<and> Status r = StatusPending \<longrightarrow> now < ExpiresAt r)
    \<and> length (rows s') = length (rows s)
    \<and> n = int (card {i. i < length (rows s) \<and> rows s' ! i \<noteq> rows s ! i})
    \<and> (\<forall>i < length (rows s). rows s' ! i = rows s ! i \<or>
         Status (rows s ! i) = StatusPending \<and> rows s' ! i = (rows s ! i)\<lparr>Status := StatusExpired\<rparr>)
    \<and> ExpirePending s' now = (s', 0) \<and> PendingStats s' t = PendingStats s t"
proof -
  let ?c = "\<lambda>r. rq_Environment r = environment s \<and> Status r = StatusPending \<and> ExpiresAt r \<le> now"
  let ?f = "\<lambda>r. if ?c r then r\<lparr>Status := StatusExpired\<rparr> else r"
  note e = ExpirePending_rows [OF assms(1)]
  then have s': "rows s' = map ?f (rows s)" "environment s' = environment s" by simp_all
  have left: "\<forall>r \<in> set (rows s'). \<not> ?c r" by (auto simp: s')
  have changed: "?f r \<noteq> r \<longleftrightarrow> ?c r" for r by (cases "?c r") (simp_all add: expired_changes)
  have "{i. i < length (rows s) \<and> rows s' ! i \<noteq> rows s ! i} = {i. i < length (rows s) \<and> ?c (rows s ! i)}"
    by (intro Collect_cong conj_cong refl) (simp only: s' nth_map changed)
  then have n: "n = int (card {i. i < length (rows s) \<and> rows s' ! i \<noteq> rows s ! i})"
    using e by (simp add: length_filter_conv_card)
  have "map ?f (rows s') = rows s'" using left by (intro map_idI) auto
  moreover have "filter ?c (rows s') = []" using left by (simp add: filter_empty_conv)
  ultimately have again: "ExpirePending s' now = (s', 0)"
    using s'(2) by (simp add: ExpirePending_def pg_ExpirePending_def update_where_def)
  have "map rq_CreatedAt (filter (\<lambda>r. rq_Environment r = environment s' \<and> Status r = StatusPending
      \<and> t < ExpiresAt r) (rows s')) = map rq_CreatedAt (filter (\<lambda>r. rq_Environment r = environment s
      \<and> Status r = StatusPending \<and> t < ExpiresAt r) (rows s))"
    unfolding s' using assms(2) by (intro filter_map_other) auto
  then have "PendingStats s' t = PendingStats s t"
    by (simp add: PendingStats_def pg_PendingStats_def Let_def)
  moreover have "\<forall>i < length (rows s). rows s' ! i = rows s ! i \<or>
      Status (rows s ! i) = StatusPending \<and> rows s' ! i = (rows s ! i)\<lparr>Status := StatusExpired\<rparr>"
    by (simp add: s')
  moreover have "\<forall>r \<in> set (rows s'). rq_Environment r = environment s \<and> Status r = StatusPending
      \<longrightarrow> now < ExpiresAt r"
    using left by force
  ultimately show ?thesis using n again by (simp add: s')
qed

theorem ExpirePending_exact_witness:
  "\<exists>s'. ExpirePending es1 20000000000000 = (s', 1) \<and> ExpirePending s' 20000000000000 = (s', 0)"
proof -
  have "snd (ExpirePending es1 20000000000000) = 1" by code_simp
  then obtain s' where "ExpirePending es1 20000000000000 = (s', 1)" by (metis prod.collapse)
  then show ?thesis
    using ExpirePending_exact [of es1 20000000000000 s' 1 20000000000000] by blast
qed

text \<open>
  The sweep only looks at pending requests: one that was approved and then left alone past
  its execution window can no longer be claimed, yet keeps the status approved.
\<close>

lemma approved_never_expires:
  "ExpirePending s now = (s', n) \<Longrightarrow> r \<in> set (rows s) \<Longrightarrow> Status r = StatusApproved \<Longrightarrow> r \<in> set (rows s')"
  using ExpirePending_rows [of s now s' n] by (auto simp: image_iff intro!: bexI [of _ r])

end
