(* ===== verification/Kernel.thy ===== *)
theory Kernel
  imports Approval
begin

text \<open>
  The action kernel (package \<open>action\<close>: \<open>kernel.go\<close>, \<open>approval\_execute.go\<close>, \<open>audit.go\<close>):
  the check sequence every call goes through, the escalation of dangerous actions to the
  approval centre, the execution of an approved request, and the two records of each attempt.

  Handlers are parameters: a handler maps the parameters and the business state to a new
  state, the calls of \<open>Record...\<close> it makes, and its result. The run store and the audit sink
  accept or refuse a record; what they refuse goes to the log, here a list of gaps. The list
  \<open>calls\<close> is a history variable: which handler ran, with what, and under which approval.
\<close>

section \<open>What a handler contributes to the audit event (audit.go)\<close>

text \<open>An error as the kernel sees it: \<open>errors.As\<close> finds an action error in it, or not.\<close>

datatype go_error = Coded action_error | Plain

datatype meta_op = RecordResource string string | RecordBefore "params option"
  | RecordAfter "params option" | RecordReason string

record AuditContribution =
  ResourceType :: string
  ResourceID :: string
  mc_Reason :: string
  Before :: "params option"
  After :: "params option"

definition no_contribution :: AuditContribution where
  "no_contribution = \<lparr>ResourceType = [], ResourceID = [], mc_Reason = [], Before = None, After = None\<rparr>"

fun apply_meta :: "meta_op \<Rightarrow> AuditContribution \<Rightarrow> AuditContribution" where
  "apply_meta (RecordResource t i) m = m\<lparr>ResourceType := t, ResourceID := i\<rparr>"
| "apply_meta (RecordBefore summary) m = m\<lparr>Before := summary\<rparr>"
| "apply_meta (RecordAfter summary) m = m\<lparr>After := summary\<rparr>"
| "apply_meta (RecordReason r) m = m\<lparr>mc_Reason := r\<rparr>"

definition snapshot :: "meta_op list \<Rightarrow> AuditContribution" where
  "snapshot ops = fold apply_meta ops no_contribution"

type_synonym ('w, 'v) handler = "params \<Rightarrow> 'w \<Rightarrow> 'w \<times> meta_op list \<times> (go_error + 'v)"

definition CaptureAudit :: "('w, 'v) handler \<Rightarrow> params \<Rightarrow> 'w \<Rightarrow> 'w \<times> AuditContribution \<times> (go_error + 'v)" where
  "CaptureAudit h ps w = (case h ps w of (w', ops, v) \<Rightarrow> (w', snapshot ops, v))"

section \<open>The kernel and its records (kernel.go)\<close>

type_synonym RunStatus = string

abbreviation "RunSucceeded \<equiv> ''succeeded''"
abbreviation "RunFailed \<equiv> ''failed''"

text \<open>An empty error code is \<open>None\<close>; a zero time is \<open>0\<close>.\<close>

record Run =
  run_ID :: uuid
  run_ActionID :: string
  run_ActionVersion :: string
  run_PrincipalID :: string
  run_PrincipalType :: principal_type
  run_Environment :: string
  run_RequestID :: string
  run_RiskLevel :: RiskLevel
  run_Status :: RunStatus
  run_ErrorCode :: "Code option"
  DurationMS :: int
  StartedAt :: time
  FinishedAt :: time

record AuditEvent =
  OccurredAt :: time
  ev_PrincipalID :: string
  ev_PrincipalType :: principal_type
  ev_ActionID :: string
  ev_ActionVersion :: string
  ev_ActionRunID :: uuid
  ev_ResourceType :: string
  ev_ResourceID :: string
  ev_Environment :: string
  ev_Reason :: string
  ev_RequestID :: string
  BeforeSummary :: "params option"
  AfterSummary :: "params option"
  Succeeded :: bool
  ev_ErrorCode :: "Code option"

record Request =
  q_ActionID :: string
  q_ActionVersion :: string
  q_RequestID :: string
  q_Reason :: string
  q_Params :: params

record 'v Result =
  res_RunID :: uuid
  res_Value :: 'v

record 'g gateway =
  gw_Submit :: "'g \<Rightarrow> ApprovalSubmission \<Rightarrow> go_error + ('g \<times> string)"
  gw_Peek :: "'g \<Rightarrow> string \<Rightarrow> go_error + ApprovalClaim"
  gw_Claim :: "'g \<Rightarrow> string \<Rightarrow> uuid \<Rightarrow> params option \<Rightarrow> go_error + 'g"

record ('g, 'w, 'v) Kernel =
  k_registry :: "('w, 'v) handler Registry"
  k_runs :: "Run \<Rightarrow> bool"
  k_audit :: "(AuditEvent \<Rightarrow> bool) option"
  k_approvals :: "'g gateway option"

record ('g, 'w) kernel_state =
  gate :: 'g
  world :: 'w
  runs :: "Run list"
  run_gaps :: "Run list"
  audit_log :: "AuditEvent list"
  audit_gaps :: "AuditEvent list"
  calls :: "(string option \<times> Definition \<times> params) list"

definition InsertRun :: "('g, 'w, 'v) Kernel \<Rightarrow> Run \<Rightarrow> ('g, 'w) kernel_state \<Rightarrow> ('g, 'w) kernel_state" where
  "InsertRun k r s = (if k_runs k r then s\<lparr>runs := runs s @ [r]\<rparr> else s\<lparr>run_gaps := run_gaps s @ [r]\<rparr>)"

definition Milliseconds :: "duration \<Rightarrow> int" where
  "Milliseconds d = d sdiv 1000000"

text \<open>The times of \<open>record\<close>; \<open>now\<close> is the clock's answer if it has to ask.\<close>

definition fill_times :: "time \<Rightarrow> Run \<Rightarrow> Run" where
  "fill_times now r =
    (let r = (if FinishedAt r = 0 then r\<lparr>FinishedAt := now\<rparr> else r);
         r = (if DurationMS r = 0
              then r\<lparr>DurationMS := Milliseconds (time_sub (FinishedAt r) (StartedAt r))\<rparr> else r)
     in if DurationMS r < 0 then r\<lparr>DurationMS := 0\<rparr> else r)"

definition record_run :: "('g, 'w, 'v) Kernel \<Rightarrow> time \<Rightarrow> Run \<Rightarrow> ('g, 'w) kernel_state \<Rightarrow> ('g, 'w) kernel_state" where
  "record_run k now r s = InsertRun k (fill_times now r) s"

definition recordAudit :: "('g, 'w, 'v) Kernel \<Rightarrow> AuditEvent \<Rightarrow> ('g, 'w) kernel_state \<Rightarrow> ('g, 'w) kernel_state" where
  "recordAudit k e s =
    (case k_audit k of None \<Rightarrow> s
     | Some accepts \<Rightarrow> if accepts e then s\<lparr>audit_log := audit_log s @ [e]\<rparr>
         else s\<lparr>audit_gaps := audit_gaps s @ [e]\<rparr>)"

definition precheck :: "Definition \<Rightarrow> Principal option \<Rightarrow> string \<Rightarrow> params \<Rightarrow> Principal option \<times> Code option" where
  "precheck d ctx requestID ps =
    (case ctx of None \<Rightarrow> (None, Some CodePermissionDenied)
     | Some p \<Rightarrow> (Some p,
         if Principal_Validate p \<noteq> Inr () then Some CodePermissionDenied
         else if requestID = [] then Some CodeInvalidParams
         else if p_Type p \<notin> set (PrincipalTypes d) then Some CodePrincipalTypeNotAllowed
         else if p_Environment p \<notin> set (Environments d) then Some CodeEnvironmentMismatch
         else if \<not> HasScope p (Permission d) then Some CodePermissionDenied
         else if Schema_Validate (d_Schema d) ps \<noteq> Inr () then Some CodeInvalidParams
         else None))"

text \<open>The run and the event both paths start from.\<close>

definition base_run :: "Definition \<Rightarrow> Principal \<Rightarrow> string \<Rightarrow> uuid \<Rightarrow> time \<Rightarrow> Run" where
  "base_run d p requestID runID startedAt =
    \<lparr>run_ID = runID, run_ActionID = d_ID d, run_ActionVersion = d_Version d, run_PrincipalID = p_ID p,
     run_PrincipalType = p_Type p, run_Environment = p_Environment p, run_RequestID = requestID,
     run_RiskLevel = d_RiskLevel d, run_Status = RunFailed, run_ErrorCode = None, DurationMS = 0,
     StartedAt = startedAt, FinishedAt = 0\<rparr>"

definition base_event :: "Definition \<Rightarrow> Principal \<Rightarrow> string \<Rightarrow> uuid \<Rightarrow> time \<Rightarrow> AuditEvent" where
  "base_event d p requestID runID startedAt =
    \<lparr>OccurredAt = startedAt, ev_PrincipalID = p_ID p, ev_PrincipalType = p_Type p, ev_ActionID = d_ID d,
     ev_ActionVersion = d_Version d, ev_ActionRunID = runID, ev_ResourceType = [], ev_ResourceID = [],
     ev_Environment = p_Environment p, ev_Reason = [], ev_RequestID = requestID, BeforeSummary = None,
     AfterSummary = None, Succeeded = False, ev_ErrorCode = None\<rparr>"

definition log_attempt :: "('g, 'w, 'v) Kernel \<Rightarrow> time \<Rightarrow> Run \<Rightarrow> AuditEvent \<Rightarrow>
    ('g, 'w) kernel_state \<Rightarrow> ('g, 'w) kernel_state" where
  "log_attempt k now r e s = recordAudit k e (record_run k now r s)"

text \<open>The closure \<open>fail\<close> of \<open>Execute\<close>.\<close>

definition fail_direct :: "('g, 'w, 'v) Kernel \<Rightarrow> Definition \<Rightarrow> Principal \<Rightarrow> string \<Rightarrow> uuid \<Rightarrow> time \<Rightarrow> time \<Rightarrow>
    string \<Rightarrow> Code \<Rightarrow> ('g, 'w) kernel_state \<Rightarrow> ('g, 'w) kernel_state \<times> (go_error + 'v Result)" where
  "fail_direct k d p requestID runID startedAt now approvalID code s =
    (log_attempt k now ((base_run d p requestID runID startedAt)\<lparr>run_ErrorCode := Some code\<rparr>)
       ((base_event d p requestID runID startedAt)\<lparr>ev_ErrorCode := Some code\<rparr>) s,
     Inl (Coded \<lparr>err_Code = code, err_ApprovalRequestID = approvalID\<rparr>))"

text \<open>The closure \<open>fail\<close> of \<open>ExecuteApproved\<close>.\<close>

definition fail_approved :: "('g, 'w, 'v) Kernel \<Rightarrow> Definition \<Rightarrow> Principal \<Rightarrow> string \<Rightarrow> uuid \<Rightarrow> time \<Rightarrow> time \<Rightarrow>
    string \<Rightarrow> Code \<Rightarrow> ('g, 'w) kernel_state \<Rightarrow> ('g, 'w) kernel_state \<times> (go_error + 'v Result)" where
  "fail_approved k d p requestID runID startedAt now approvalID code s =
    (log_attempt k now ((base_run d p requestID runID startedAt)\<lparr>run_ErrorCode := Some code\<rparr>)
       ((base_event d p requestID runID startedAt)\<lparr>ev_ResourceType := ''approval_request'',
          ev_ResourceID := approvalID, ev_ErrorCode := Some code\<rparr>) s,
     Inl (Coded \<lparr>err_Code = code, err_ApprovalRequestID = approvalID\<rparr>))"

text \<open>
  The handler and the two records of its run: \<open>approval\<close> is the request it runs under, with
  the reason frozen in it, if it runs under one.
\<close>

definition run_handler :: "('g, 'w, 'v) Kernel \<Rightarrow> Definition \<Rightarrow> ('w, 'v) handler \<Rightarrow> Principal \<Rightarrow> string \<Rightarrow> uuid \<Rightarrow>
    time \<Rightarrow> time \<Rightarrow> (string \<times> string) option \<Rightarrow> params \<Rightarrow> ('g, 'w) kernel_state \<Rightarrow>
    ('g, 'w) kernel_state \<times> (go_error + 'v Result)" where
  "run_handler k d h p requestID runID startedAt finishedAt approval ps s =
    (case h ps (world s) of (w, ops, outcome) \<Rightarrow>
      let s = s\<lparr>world := w, calls := calls s @ [(map_option fst approval, d, ps)]\<rparr>;
          contrib = snapshot ops;
          r = (base_run d p requestID runID startedAt)\<lparr>FinishedAt := finishedAt,
                DurationMS := Milliseconds (time_sub finishedAt startedAt)\<rparr>;
          (resourceType, resourceID) =
            (case approval of Some (approvalID, _) \<Rightarrow>
               if ResourceType contrib = [] then (''approval_request'', approvalID)
               else (ResourceType contrib, ResourceID contrib)
             | None \<Rightarrow> (ResourceType contrib, ResourceID contrib));
          reason = (case approval of Some (_, frozen) \<Rightarrow>
               if mc_Reason contrib = [] then frozen else mc_Reason contrib
             | None \<Rightarrow> mc_Reason contrib);
          e = (base_event d p requestID runID startedAt)\<lparr>ev_ResourceType := resourceType,
                ev_ResourceID := resourceID, ev_Reason := reason, BeforeSummary := Before contrib,
                AfterSummary := After contrib\<rparr>
      in case outcome of
        Inl err \<Rightarrow>
          let code = (case err of Coded ae \<Rightarrow> err_Code ae | Plain \<Rightarrow> CodeExecutionFailed) in
          (log_attempt k finishedAt (r\<lparr>run_Status := RunFailed, run_ErrorCode := Some code\<rparr>)
             (e\<lparr>Succeeded := False, ev_ErrorCode := Some code\<rparr>) s,
           Inl (Coded \<lparr>err_Code = code,
             err_ApprovalRequestID = (case approval of None \<Rightarrow> [] | Some (approvalID, _) \<Rightarrow> approvalID)\<rparr>))
      | Inr v \<Rightarrow>
          (log_attempt k finishedAt (r\<lparr>run_Status := RunSucceeded\<rparr>) (e\<lparr>Succeeded := True\<rparr>) s,
           Inr \<lparr>res_RunID = runID, res_Value = v\<rparr>))"

text \<open>The risk gate of \<open>Execute\<close>.\<close>

definition escalate :: "('g, 'w, 'v) Kernel \<Rightarrow> Definition \<Rightarrow> Principal \<Rightarrow> Request \<Rightarrow> uuid \<Rightarrow> time \<Rightarrow> time \<Rightarrow>
    ('g, 'w) kernel_state \<Rightarrow> ('g, 'w) kernel_state \<times> (go_error + 'v Result)" where
  "escalate k d p req runID startedAt now s =
    (case k_approvals k of
       None \<Rightarrow> fail_direct k d p (q_RequestID req) runID startedAt now [] CodeAdvancedControlsRequired s
     | Some g \<Rightarrow>
       if blank (q_Reason req)
       then fail_direct k d p (q_RequestID req) runID startedAt now [] CodeInvalidParams s
       else case gw_Submit g (gate s) \<lparr>as_ActionID = d_ID d, as_ActionVersion = d_Version d,
           as_RiskLevel = d_RiskLevel d, as_Params = q_Params req, as_Requester = p,
           as_Reason = q_Reason req, as_RequestID = q_RequestID req\<rparr> of
         Inl _ \<Rightarrow> fail_direct k d p (q_RequestID req) runID startedAt now [] CodeInternal s
       | Inr (g', approvalID) \<Rightarrow>
           fail_direct k d p (q_RequestID req) runID startedAt now approvalID CodeApprovalRequired
             (s\<lparr>gate := g'\<rparr>))"

text \<open>\<open>startedAt\<close> and \<open>now\<close> are the two readings of the clock, \<open>runID\<close> the fresh identifier.\<close>

definition Execute :: "('g, 'w, 'v) Kernel \<Rightarrow> Principal option \<Rightarrow> Request \<Rightarrow> uuid \<Rightarrow> time \<Rightarrow> time \<Rightarrow>
    ('g, 'w) kernel_state \<Rightarrow> ('g, 'w) kernel_state \<times> (go_error + 'v Result)" where
  "Execute k ctx req runID startedAt now s =
    (case Lookup (k_registry k) (q_ActionID req) (q_ActionVersion req) of
       None \<Rightarrow> (s, Inl (Coded (newError CodeNotRegistered)))
     | Some (d, h) \<Rightarrow>
       (case precheck d ctx (q_RequestID req) (q_Params req) of
          (None, _) \<Rightarrow> (s, Inl (Coded (newError CodePermissionDenied)))
        | (Some p, Some code) \<Rightarrow> fail_direct k d p (q_RequestID req) runID startedAt now [] code s
        | (Some p, None) \<Rightarrow>
            if RequiresAdvancedControls (d_RiskLevel d) then escalate k d p req runID startedAt now s
            else run_handler k d h p (q_RequestID req) runID startedAt now None (q_Params req) s))"

section \<open>Executing an approved request (approval\_execute.go)\<close>

definition claim_and_run :: "('g, 'w, 'v) Kernel \<Rightarrow> 'g gateway \<Rightarrow> Definition \<Rightarrow> ('w, 'v) handler \<Rightarrow> Principal \<Rightarrow>
    string \<Rightarrow> string \<Rightarrow> params option \<Rightarrow> ApprovalClaim \<Rightarrow> uuid \<Rightarrow> time \<Rightarrow> time \<Rightarrow>
    ('g, 'w) kernel_state \<Rightarrow> ('g, 'w) kernel_state \<times> (go_error + 'v Result)" where
  "claim_and_run k g d h p approvalID requestID declared c runID startedAt now s =
    (if ac_RiskLevel c \<noteq> [] \<and> ac_RiskLevel c \<noteq> d_RiskLevel d
     then fail_approved k d p requestID runID startedAt now approvalID CodePreconditionFailed s
     else case gw_Claim g (gate s) approvalID runID declared of
       Inl Plain \<Rightarrow> fail_approved k d p requestID runID startedAt now approvalID CodeInternal s
     | Inl (Coded ae) \<Rightarrow> fail_approved k d p requestID runID startedAt now approvalID (err_Code ae) s
     | Inr g' \<Rightarrow> run_handler k d h p requestID runID startedAt now
         (Some (approvalID, ac_Reason c)) (ac_Params c) (s\<lparr>gate := g'\<rparr>))"

definition ExecuteApproved :: "('g, 'w, 'v) Kernel \<Rightarrow> Principal option \<Rightarrow> string \<Rightarrow> string \<Rightarrow> params option \<Rightarrow>
    uuid \<Rightarrow> time \<Rightarrow> time \<Rightarrow> ('g, 'w) kernel_state \<Rightarrow> ('g, 'w) kernel_state \<times> (go_error + 'v Result)" where
  "ExecuteApproved k ctx approvalID requestID declared runID startedAt now s =
    (case k_approvals k of
       None \<Rightarrow> (s, Inl (Coded (newError CodeAdvancedControlsRequired)))
     | Some g \<Rightarrow>
       (case gw_Peek g (gate s) approvalID of
          Inl err \<Rightarrow> (s, Inl err)
        | Inr c \<Rightarrow>
          (case Lookup (k_registry k) (ac_ActionID c) (ac_ActionVersion c) of
             None \<Rightarrow> (s, Inl (Coded (newError CodeNotRegistered)))
           | Some (d, h) \<Rightarrow>
             (case precheck d ctx requestID (ac_Params c) of
                (None, _) \<Rightarrow> (s, Inl (Coded (newError CodePermissionDenied)))
              | (Some p, Some code) \<Rightarrow> fail_approved k d p requestID runID startedAt now approvalID code s
              | (Some p, None) \<Rightarrow>
                  claim_and_run k g d h p approvalID requestID declared c runID startedAt now s))))"

section \<open>One attempt, one run, one event\<close>

lemma log_attempt_fields [simp]:
  "gate (log_attempt k now r e s) = gate s" "world (log_attempt k now r e s) = world s"
  "calls (log_attempt k now r e s) = calls s"
  by (simp_all add: log_attempt_def recordAudit_def record_run_def InsertRun_def split: option.splits)

text \<open>Both records reach their store or, refused, the log of gaps.\<close>

definition logged :: "('g, 'w, 'v) Kernel \<Rightarrow> Run \<Rightarrow> AuditEvent \<Rightarrow> ('g, 'w) kernel_state \<Rightarrow>
    ('g, 'w) kernel_state \<Rightarrow> bool" where
  "logged k r e s s' \<longleftrightarrow>
     (runs s' = runs s @ [r] \<and> run_gaps s' = run_gaps s \<or> runs s' = runs s \<and> run_gaps s' = run_gaps s @ [r])
     \<and> (if k_audit k = None then audit_log s' = audit_log s \<and> audit_gaps s' = audit_gaps s
        else audit_log s' = audit_log s @ [e] \<and> audit_gaps s' = audit_gaps s
          \<or> audit_log s' = audit_log s \<and> audit_gaps s' = audit_gaps s @ [e])"

lemma log_attempt_logged: "logged k (fill_times now r) e s (log_attempt k now r e s)"
  by (simp add: logged_def log_attempt_def recordAudit_def record_run_def InsertRun_def split: option.splits)

lemma fill_times_fields [simp]:
  "run_ID (fill_times now r) = run_ID r" "run_ActionID (fill_times now r) = run_ActionID r"
  "run_PrincipalID (fill_times now r) = run_PrincipalID r" "run_Status (fill_times now r) = run_Status r"
  "run_ErrorCode (fill_times now r) = run_ErrorCode r" "0 \<le> DurationMS (fill_times now r)"
  "StartedAt (fill_times now r) = StartedAt r"
  by (simp_all add: fill_times_def Let_def)

text \<open>What the records of an attempt by \<open>p\<close> on \<open>d\<close> with outcome \<open>res\<close> say.\<close>

definition tells :: "Definition \<Rightarrow> Principal \<Rightarrow> uuid \<Rightarrow> (go_error + 'v Result) \<Rightarrow> Run \<Rightarrow> AuditEvent \<Rightarrow> bool" where
  "tells d p runID res r e \<longleftrightarrow>
     run_ID r = runID \<and> ev_ActionRunID e = runID
     \<and> run_ActionID r = d_ID d \<and> ev_ActionID e = d_ID d
     \<and> run_PrincipalID r = p_ID p \<and> ev_PrincipalID e = p_ID p \<and> 0 \<le> DurationMS r
     \<and> (case res of
          Inr v \<Rightarrow> res_RunID v = runID \<and> run_Status r = RunSucceeded \<and> run_ErrorCode r = None
            \<and> Succeeded e \<and> ev_ErrorCode e = None
        | Inl (Coded ae) \<Rightarrow> run_Status r = RunFailed \<and> run_ErrorCode r = Some (err_Code ae)
            \<and> \<not> Succeeded e \<and> ev_ErrorCode e = Some (err_Code ae)
        | Inl Plain \<Rightarrow> False)"

lemma logged_cong:
  "runs s1 = runs s \<Longrightarrow> run_gaps s1 = run_gaps s \<Longrightarrow> audit_log s1 = audit_log s \<Longrightarrow>
    audit_gaps s1 = audit_gaps s \<Longrightarrow> logged k r e s1 s' \<Longrightarrow> logged k r e s s'"
  by (auto simp: logged_def split: if_splits)

lemma fail_direct_logged:
  assumes "fail_direct k d p rid runID t0 now aid code s = (s', res)"
  shows "\<exists>r e. logged k r e s s' \<and> tells d p runID res r e"
proof -
  have s': "s' = log_attempt k now ((base_run d p rid runID t0)\<lparr>run_ErrorCode := Some code\<rparr>)
      ((base_event d p rid runID t0)\<lparr>ev_ErrorCode := Some code\<rparr>) s"
    and res: "res = Inl (Coded \<lparr>err_Code = code, err_ApprovalRequestID = aid\<rparr>)"
    using assms by (simp_all add: fail_direct_def)
  show ?thesis
    unfolding s' by (intro exI conjI, rule log_attempt_logged) (simp add: tells_def res base_run_def base_event_def)
qed

lemma fail_approved_logged:
  assumes "fail_approved k d p rid runID t0 now aid code s = (s', res)"
  shows "\<exists>r e. logged k r e s s' \<and> tells d p runID res r e"
proof -
  have s': "s' = log_attempt k now ((base_run d p rid runID t0)\<lparr>run_ErrorCode := Some code\<rparr>)
      ((base_event d p rid runID t0)\<lparr>ev_ResourceType := ''approval_request'',
          ev_ResourceID := aid, ev_ErrorCode := Some code\<rparr>) s"
    and res: "res = Inl (Coded \<lparr>err_Code = code, err_ApprovalRequestID = aid\<rparr>)"
    using assms by (simp_all add: fail_approved_def)
  show ?thesis
    unfolding s' by (intro exI conjI, rule log_attempt_logged) (simp add: tells_def res base_run_def base_event_def)
qed

lemma run_handler_logged:
  assumes "run_handler k d h p rid runID t0 t1 appr ps s = (s', res)"
  shows "\<exists>r e. logged k r e s s' \<and> tells d p runID res r e"
proof -
  obtain w ops outcome where h: "h ps (world s) = (w, ops, outcome)" by (cases "h ps (world s)") auto
  obtain r e where s': "s' = log_attempt k t1 r e (s\<lparr>world := w, calls := calls s @ [(map_option fst appr, d, ps)]\<rparr>)"
    and t: "tells d p runID res (fill_times t1 r) e"
    using assms h
    by (cases outcome)
       (auto simp: run_handler_def Let_def tells_def base_run_def base_event_def split: prod.splits)
  have "logged k (fill_times t1 r) e s s'"
    unfolding s' by (rule logged_cong [OF _ _ _ _ log_attempt_logged]) simp_all
  then show ?thesis using t by blast
qed

lemma run_handler_effect:
  assumes "run_handler k d h p rid runID t0 t1 appr ps s = (s', res)"
  shows "world s' = fst (h ps (world s)) \<and> gate s' = gate s
    \<and> calls s' = calls s @ [(map_option fst appr, d, ps)]
    \<and> (\<forall>v. res = Inr v \<longrightarrow> snd (snd (h ps (world s))) = Inr (res_Value v))"
proof -
  obtain w ops outcome where h: "h ps (world s) = (w, ops, outcome)" by (cases "h ps (world s)") auto
  then show ?thesis
    using assms by (cases outcome) (auto simp: run_handler_def Let_def split: prod.splits)
qed

lemma fail_direct_effect:
  "fail_direct k d p rid runID t0 now aid code s = (s', res) \<Longrightarrow>
    world s' = world s \<and> gate s' = gate s \<and> calls s' = calls s
    \<and> res = Inl (Coded \<lparr>err_Code = code, err_ApprovalRequestID = aid\<rparr>)"
  by (auto simp: fail_direct_def)

lemma fail_approved_effect:
  "fail_approved k d p rid runID t0 now aid code s = (s', res) \<Longrightarrow>
    world s' = world s \<and> gate s' = gate s \<and> calls s' = calls s
    \<and> res = Inl (Coded \<lparr>err_Code = code, err_ApprovalRequestID = aid\<rparr>)"
  by (auto simp: fail_approved_def)

lemma escalate_effect:
  assumes "escalate k d p req runID t0 now s = (s', res)"
  shows "world s' = world s \<and> calls s' = calls s \<and> (\<forall>v. res \<noteq> Inr v)
    \<and> (gate s' = gate s \<or> \<not> blank (q_Reason req) \<and> (\<exists>g aid. k_approvals k = Some g
       \<and> gw_Submit g (gate s) \<lparr>as_ActionID = d_ID d, as_ActionVersion = d_Version d,
           as_RiskLevel = d_RiskLevel d, as_Params = q_Params req, as_Requester = p,
           as_Reason = q_Reason req, as_RequestID = q_RequestID req\<rparr> = Inr (gate s', aid)))"
  using assms
  by (auto simp: escalate_def split: option.splits if_splits sum.splits prod.splits dest!: fail_direct_effect)

lemma escalate_logged:
  assumes "escalate k d p req runID t0 now s = (s', res)"
  shows "\<exists>r e. logged k r e s s' \<and> tells d p runID res r e"
proof -
  obtain aid code g' where f: "fail_direct k d p (q_RequestID req) runID t0 now aid code (s\<lparr>gate := g'\<rparr>) = (s', res)"
  proof -
    have unchanged: thesis if "fail_direct k d p (q_RequestID req) runID t0 now aid code s = (s', res)" for aid code
      using that \<open>\<And>aid code g'. fail_direct k d p (q_RequestID req) runID t0 now aid code (s\<lparr>gate := g'\<rparr>) = (s', res) \<Longrightarrow> thesis\<close>
        [of aid code "gate s"] by simp
    show thesis
      using assms that unchanged by (auto simp: escalate_def split: option.splits if_splits sum.splits prod.splits)
  qed
  then obtain r e where "logged k r e (s\<lparr>gate := g'\<rparr>) s'" "tells d p runID res r e"
    using fail_direct_logged by blast
  then show ?thesis using logged_cong [of "s\<lparr>gate := g'\<rparr>" s k r e s'] by auto
qed

section \<open>The direct path\<close>

lemma precheck_ok:
  "precheck d ctx rid ps = (Some p, None) \<longleftrightarrow> ctx = Some p \<and> Principal_Validate p = Inr () \<and> rid \<noteq> []
    \<and> p_Type p \<in> set (PrincipalTypes d) \<and> p_Environment p \<in> set (Environments d)
    \<and> HasScope p (Permission d) \<and> Schema_Validate (d_Schema d) ps = Inr ()"
  by (auto simp: precheck_def split: option.splits)

lemma precheck_none: "precheck d ctx rid ps = (None, c) \<Longrightarrow> ctx = None"
  by (auto simp: precheck_def split: option.splits)

lemma precheck_fst: "precheck d ctx rid ps = (Some p, c) \<Longrightarrow> ctx = Some p"
  by (auto simp: precheck_def split: option.splits)

text \<open>The ways a call can go.\<close>

lemma Execute_cases:
  assumes "Execute k ctx req runID t0 t1 s = (s', res)"
  obtains (stopped) code where "s' = s" "res = Inl (Coded (newError code))"
      "ctx = None \<or> Lookup (k_registry k) (q_ActionID req) (q_ActionVersion req) = None"
  | (refused) d h p code where
      "Lookup (k_registry k) (q_ActionID req) (q_ActionVersion req) = Some (d, h)" "ctx = Some p"
      "fail_direct k d p (q_RequestID req) runID t0 t1 [] code s = (s', res)"
  | (escalated) d h p where
      "Lookup (k_registry k) (q_ActionID req) (q_ActionVersion req) = Some (d, h)"
      "precheck d ctx (q_RequestID req) (q_Params req) = (Some p, None)"
      "RequiresAdvancedControls (d_RiskLevel d)" "escalate k d p req runID t0 t1 s = (s', res)"
  | (ran) d h p where
      "Lookup (k_registry k) (q_ActionID req) (q_ActionVersion req) = Some (d, h)"
      "precheck d ctx (q_RequestID req) (q_Params req) = (Some p, None)"
      "\<not> RequiresAdvancedControls (d_RiskLevel d)"
      "run_handler k d h p (q_RequestID req) runID t0 t1 None (q_Params req) s = (s', res)"
proof (cases "Lookup (k_registry k) (q_ActionID req) (q_ActionVersion req)")
  case None
  then show thesis using assms by (intro stopped) (auto simp: Execute_def)
next
  case (Some dh)
  obtain d h where l: "Lookup (k_registry k) (q_ActionID req) (q_ActionVersion req) = Some (d, h)"
    using Some by (cases dh) auto
  obtain pr code where pre: "precheck d ctx (q_RequestID req) (q_Params req) = (pr, code)" by fastforce
  show thesis
  proof (cases pr)
    case None
    then show thesis using assms l pre precheck_none by (intro stopped) (auto simp: Execute_def)
  next
    case (Some p)
    note pre' = pre [unfolded Some]
    show thesis
    proof (cases code)
      case (Some c)
      then show thesis using assms l pre' precheck_fst by (intro refused [OF l]) (auto simp: Execute_def)
    next
      case None
      then show thesis
        using assms l pre' by (cases "RequiresAdvancedControls (d_RiskLevel d)")
          (auto simp: Execute_def intro: escalated [OF l] ran [OF l])
    qed
  qed
qed

text \<open>
  C1. The kernel runs a handler only after every check, and never a dangerous one. A call
  either leaves the business state alone and runs no handler, or the action is registered,
  the caller is a valid principal of an allowed type in an allowed environment with the
  permission, the request is identified, the parameters satisfy the schema, the risk level
  needs no advanced controls, and exactly that handler ran once on exactly those parameters.
  Success is reported only in the second case and with the handler's value; the approval
  centre is touched only by the submission of an action that needs it, with a reason.
\<close>

theorem Execute_gate:
  assumes "Execute k ctx req runID t0 t1 s = (s', res)"
  shows "(world s' = world s \<and> calls s' = calls s \<and> (\<forall>v. res \<noteq> Inr v)
      \<and> (gate s' \<noteq> gate s \<longrightarrow> \<not> blank (q_Reason req) \<and>
         (\<exists>d h. Lookup (k_registry k) (q_ActionID req) (q_ActionVersion req) = Some (d, h)
            \<and> RequiresAdvancedControls (d_RiskLevel d))))
    \<or> (\<exists>d h p. Lookup (k_registry k) (q_ActionID req) (q_ActionVersion req) = Some (d, h)
        \<and> ctx = Some p \<and> Principal_Validate p = Inr () \<and> q_RequestID req \<noteq> []
        \<and> p_Type p \<in> set (PrincipalTypes d) \<and> p_Environment p \<in> set (Environments d)
        \<and> HasScope p (Permission d) \<and> Schema_Validate (d_Schema d) (q_Params req) = Inr ()
        \<and> \<not> RequiresAdvancedControls (d_RiskLevel d)
        \<and> gate s' = gate s \<and> world s' = fst (h (q_Params req) (world s))
        \<and> calls s' = calls s @ [(None, d, q_Params req)]
        \<and> (\<forall>v. res = Inr v \<longrightarrow> snd (snd (h (q_Params req) (world s))) = Inr (res_Value v)))"
  using assms
proof (cases rule: Execute_cases)
  case (refused d h p code)
  then show ?thesis using fail_direct_effect [OF refused(3)] by simp
next
  case (escalated d h p)
  then show ?thesis using escalate_effect [OF escalated(4)] by auto
next
  case (ran d h p)
  then show ?thesis
    using run_handler_effect [OF ran(4)] ran(2) [unfolded precheck_ok]
    by (intro disjI2 exI [of _ d] exI [of _ h] exI [of _ p]) auto
qed simp

text \<open>A kernel with one action and a handler that counts its calls.\<close>

definition tally :: "(nat, nat) handler" where
  "tally ps n = (Suc n, [RecordResource ''service'' ''b''], Inr n)"

definition example_action :: "RiskLevel \<Rightarrow> Definition" where
  "example_action level = example_definition\<lparr>d_RiskLevel := level\<rparr>"

definition example_kernel :: "RiskLevel \<Rightarrow> 'g gateway option \<Rightarrow> ('g, nat, nat) Kernel" where
  "example_kernel level g = \<lparr>
     k_registry = [registry_key ''ops.service.switch'' ''1'' \<mapsto> (example_action level, tally)],
     k_runs = (\<lambda>_. True), k_audit = Some (\<lambda>_. True), k_approvals = g\<rparr>"

definition example_state :: "'g \<Rightarrow> ('g, nat) kernel_state" where
  "example_state g = \<lparr>gate = g, world = 0, runs = [], run_gaps = [], audit_log = [], audit_gaps = [], calls = []\<rparr>"

definition example_request :: Request where
  "example_request = \<lparr>q_ActionID = ''ops.service.switch'', q_ActionVersion = ''1'', q_RequestID = ''r1'',
     q_Reason = ''failover'', q_Params = [(''target'', VString ''b'')]\<rparr>"

abbreviation "operator \<equiv> human ''alice'' [''ops.write'']"

theorem Execute_gate_witness:
  "\<exists>s' res. Execute (example_kernel ''L1'' None) (Some operator) example_request 7 100 200 (example_state ()) = (s', res)
    \<and> world s' = 1 \<and> length (calls s') = 1"
proof -
  obtain s' res where e: "Execute (example_kernel ''L1'' None) (Some operator) example_request 7 100 200
      (example_state ()) = (s', res)" by fastforce
  have "world (fst (Execute (example_kernel ''L1'' None) (Some operator) example_request 7 100 200
      (example_state ()))) = 1" by code_simp
  then have "world s' = 1" using e by simp
  moreover from this have "length (calls s') = 1"
    using Execute_gate [OF e] by (auto simp: example_state_def)
  ultimately show ?thesis using e by blast
qed

text \<open>
  C8. Every attempt leaves exactly one run and one audit event. Whenever the action is
  registered and the caller has an identity, a call, whether refused, escalated, failed or
  successful, adds one run and, if there is a sink, one audit event, in the store or in the
  log of gaps; both name the run, the action and the caller and carry the outcome that the
  caller gets, with the same error code.
\<close>

theorem Execute_recorded:
  assumes "Execute k (Some p) req runID t0 t1 s = (s', res)"
    and "Lookup (k_registry k) (q_ActionID req) (q_ActionVersion req) = Some (d, h)"
  shows "\<exists>r e. logged k r e s s' \<and> tells d p runID res r e"
  using assms(1)
proof (cases rule: Execute_cases)
  case (refused d' h' p' code)
  then show ?thesis using fail_direct_logged [OF refused(3)] assms(2) by simp
next
  case (escalated d' h' p')
  then show ?thesis using escalate_logged [OF escalated(4)] assms(2) by (simp add: precheck_ok)
next
  case (ran d' h' p')
  then show ?thesis using run_handler_logged [OF ran(4)] assms(2) by (simp add: precheck_ok)
qed (use assms(2) in simp)

theorem Execute_recorded_witness:
  "\<exists>s' res r. Execute (example_kernel ''L3'' None) (Some operator) example_request 7 100 200 (example_state ()) = (s', res)
    \<and> runs s' = [r] \<and> run_ErrorCode r = Some CodeAdvancedControlsRequired"
proof -
  obtain s' res where e: "Execute (example_kernel ''L3'' None) (Some operator) example_request 7 100 200
      (example_state ()) = (s', res)" by fastforce
  have x: "(case Execute (example_kernel ''L3'' None) (Some operator) example_request 7 100 200
      (example_state ()) of (s', res) \<Rightarrow> run_gaps s' = [] \<and>
        res = Inl (Coded \<lparr>err_Code = CodeAdvancedControlsRequired, err_ApprovalRequestID = []\<rparr>))" by code_simp
  have "Lookup (k_registry (example_kernel ''L3'' (None :: unit gateway option))) (q_ActionID example_request)
      (q_ActionVersion example_request) = Some (example_action ''L3'', tally)"
    by (simp add: Lookup_def example_kernel_def example_request_def)
  from Execute_recorded [OF e this] obtain r ev where
    "logged (example_kernel ''L3'' None) r ev (example_state ()) s'" "tells (example_action ''L3'') operator 7 res r ev"
    by blast
  then have "runs s' = [r]" "run_ErrorCode r = Some CodeAdvancedControlsRequired"
    using x e by (auto simp: logged_def tells_def example_state_def)
  then show ?thesis using e by blast
qed

section \<open>The approved path\<close>

text \<open>The ways an approved execution can go.\<close>

lemma ExecuteApproved_cases:
  assumes "ExecuteApproved k ctx aid rid declared runID t0 t1 s = (s', res)"
  obtains (stopped) "s' = s" "\<forall>v. res \<noteq> Inr v"
  | (refused) d p code where "fail_approved k d p rid runID t0 t1 aid code s = (s', res)"
  | (ran) g c d h p g' where "k_approvals k = Some g" "gw_Peek g (gate s) aid = Inr c"
      "Lookup (k_registry k) (ac_ActionID c) (ac_ActionVersion c) = Some (d, h)"
      "precheck d ctx rid (ac_Params c) = (Some p, None)"
      "ac_RiskLevel c = [] \<or> ac_RiskLevel c = d_RiskLevel d"
      "gw_Claim g (gate s) aid runID declared = Inr g'"
      "run_handler k d h p rid runID t0 t1 (Some (aid, ac_Reason c)) (ac_Params c) (s\<lparr>gate := g'\<rparr>) = (s', res)"
proof (cases "k_approvals k")
  case None
  then show thesis using assms by (intro stopped) (auto simp: ExecuteApproved_def)
next
  case (Some g)
  note k = Some
  show thesis
  proof (cases "gw_Peek g (gate s) aid")
    case (Inl err)
    then show thesis using assms k by (intro stopped) (auto simp: ExecuteApproved_def)
  next
    case (Inr c)
    note pk = Inr
    show thesis
    proof (cases "Lookup (k_registry k) (ac_ActionID c) (ac_ActionVersion c)")
      case None
      then show thesis using assms k pk by (intro stopped) (auto simp: ExecuteApproved_def)
    next
      case (Some dh)
      then obtain d h where l: "Lookup (k_registry k) (ac_ActionID c) (ac_ActionVersion c) = Some (d, h)"
        by (cases dh) auto
      obtain pr code where pre: "precheck d ctx rid (ac_Params c) = (pr, code)" by fastforce
      have e: "(case (pr, code) of (None, _) \<Rightarrow> (s, Inl (Coded (newError CodePermissionDenied)))
          | (Some p, Some code) \<Rightarrow> fail_approved k d p rid runID t0 t1 aid code s
          | (Some p, None) \<Rightarrow> claim_and_run k g d h p aid rid declared c runID t0 t1 s) = (s', res)"
        using assms k pk l pre by (simp add: ExecuteApproved_def)
      show thesis
      proof (cases pr)
        case None
        then show thesis using e by (intro stopped) auto
      next
        case (Some p)
        show thesis
        proof (cases code)
          case (Some c')
          then show thesis using e \<open>pr = Some p\<close> by (intro refused) auto
        next
          case None
          then show thesis
            using e pre \<open>pr = Some p\<close> ran [OF k pk l, of p]
            by (auto simp: claim_and_run_def intro: refused split: if_splits sum.splits go_error.splits)
        qed
      qed
    qed
  qed
qed

section \<open>The contract of the approval centre\<close>

text \<open>
  What the kernel relies on: a claim consumes a fresh request, and what is consumed stays
  consumed however the centre evolves. \<open>ident\<close> names the request behind an identifier as the
  client writes it, \<open>e\<close> the clock and the identifiers of one call.
\<close>

locale approval_gateway =
  fixes gw :: "'e \<Rightarrow> 'g gateway" and inv :: "'g \<Rightarrow> bool" and ident :: "string \<Rightarrow> 'k"
    and spent :: "'g \<Rightarrow> 'k \<Rightarrow> bool" and evolves :: "'g \<Rightarrow> 'g \<Rightarrow> bool"
  assumes claim_unspent: "inv g \<Longrightarrow> gw_Claim (gw e) g i run ps = Inr g' \<Longrightarrow> \<not> spent g (ident i)"
    and claim_spends: "inv g \<Longrightarrow> gw_Claim (gw e) g i run ps = Inr g' \<Longrightarrow> spent g' (ident i)"
    and claim_evolves: "inv g \<Longrightarrow> gw_Claim (gw e) g i run ps = Inr g' \<Longrightarrow> evolves g g'"
    and submit_evolves: "inv g \<Longrightarrow> gw_Submit (gw e) g sub = Inr (g', i) \<Longrightarrow> evolves g g'"
    and evolves_inv: "inv g \<Longrightarrow> evolves g g' \<Longrightarrow> inv g'"
    and evolves_spent: "inv g \<Longrightarrow> evolves g g' \<Longrightarrow> spent g k \<Longrightarrow> spent g' k"

text \<open>The approvals under which handlers ran, and the actions that ran under none.\<close>

definition approved_calls :: "('g, 'w) kernel_state \<Rightarrow> string list" where
  "approved_calls s = concat (map (\<lambda>(appr, _, _). case appr of None \<Rightarrow> [] | Some aid \<Rightarrow> [aid]) (calls s))"

definition direct_calls :: "('g, 'w) kernel_state \<Rightarrow> Definition list" where
  "direct_calls s = concat (map (\<lambda>(appr, d, _). case appr of None \<Rightarrow> [d] | Some aid \<Rightarrow> []) (calls s))"

text \<open>
  The kernel at work: direct calls, approved calls, and whatever the approval centre does on
  its own account (votes, cancellations, expiry).
\<close>

inductive kernel_step :: "('g, 'w, 'v) Kernel \<Rightarrow> ('e \<Rightarrow> 'g gateway) \<Rightarrow> ('g \<Rightarrow> 'g \<Rightarrow> bool) \<Rightarrow>
    ('g, 'w) kernel_state \<Rightarrow> ('g, 'w) kernel_state \<Rightarrow> bool"
  for k :: "('g, 'w, 'v) Kernel" and gw :: "'e \<Rightarrow> 'g gateway" and evolves :: "'g \<Rightarrow> 'g \<Rightarrow> bool" where
  direct: "Execute (k\<lparr>k_approvals := Some (gw e)\<rparr>) ctx req runID t0 t1 s = (s', res) \<Longrightarrow>
    kernel_step k gw evolves s s'"
| approved: "ExecuteApproved (k\<lparr>k_approvals := Some (gw e)\<rparr>) ctx aid rid declared runID t0 t1 s = (s', res) \<Longrightarrow>
    kernel_step k gw evolves s s'"
| elsewhere: "evolves (gate s) g' \<Longrightarrow> kernel_step k gw evolves s (s\<lparr>gate := g'\<rparr>)"

text \<open>A step runs nothing, or one harmless action directly, or one claimed request.\<close>

lemma Execute_step:
  assumes "Execute (k\<lparr>k_approvals := Some g\<rparr>) ctx req runID t0 t1 s = (s', res)"
  shows "(gate s' = gate s \<or> (\<exists>sub i. gw_Submit g (gate s) sub = Inr (gate s', i)))
    \<and> (calls s' = calls s \<or> (\<exists>d ps. \<not> RequiresAdvancedControls (d_RiskLevel d) \<and> calls s' = calls s @ [(None, d, ps)]))"
  using assms
proof (cases rule: Execute_cases)
  case (refused d h p code)
  then show ?thesis using fail_direct_effect [OF refused(3)] by simp
next
  case (escalated d h p)
  then show ?thesis using escalate_effect [OF escalated(4)] by auto
next
  case (ran d h p)
  then show ?thesis using run_handler_effect [OF ran(4)] by auto
qed simp

lemma ExecuteApproved_step:
  assumes "ExecuteApproved (k\<lparr>k_approvals := Some g\<rparr>) ctx aid rid declared runID t0 t1 s = (s', res)"
  shows "(gate s' = gate s \<and> calls s' = calls s)
    \<or> (\<exists>d ps. gw_Claim g (gate s) aid runID declared = Inr (gate s') \<and> calls s' = calls s @ [(Some aid, d, ps)])"
  using assms
proof (cases rule: ExecuteApproved_cases)
  case (refused d p code)
  then show ?thesis using fail_approved_effect [OF refused(1)] by simp
next
  case (ran g1 c d h p g')
  then show ?thesis using run_handler_effect [OF ran(7)] by auto
qed simp

context approval_gateway
begin

text \<open>Distinct approvals, all consumed, and nothing dangerous without one.\<close>

definition kernel_inv :: "('g, 'w) kernel_state \<Rightarrow> bool" where
  "kernel_inv s \<longleftrightarrow> inv (gate s) \<and> distinct (map ident (approved_calls s))
     \<and> (\<forall>aid \<in> set (approved_calls s). spent (gate s) (ident aid))
     \<and> (\<forall>d \<in> set (direct_calls s). \<not> RequiresAdvancedControls (d_RiskLevel d))"

lemma gate_moves:
  assumes "kernel_inv s" "calls s' = calls s" "evolves (gate s) (gate s') \<or> gate s' = gate s"
  shows "kernel_inv s'"
proof -
  have "approved_calls s' = approved_calls s" "direct_calls s' = direct_calls s"
    using assms(2) by (simp_all add: approved_calls_def direct_calls_def)
  then show ?thesis using assms(1,3) evolves_inv evolves_spent by (auto simp: kernel_inv_def)
qed

lemma claimed_run:
  assumes "kernel_inv s" "gw_Claim (gw e) (gate s) aid runID declared = Inr (gate s')"
    and "calls s' = calls s @ [(Some aid, d, ps)]"
  shows "kernel_inv s'"
proof -
  have i: "inv (gate s)" using assms(1) by (simp add: kernel_inv_def)
  note ev = claim_evolves [OF i assms(2)] and sp = claim_spends [OF i assms(2)]
    and un = claim_unspent [OF i assms(2)]
  have "approved_calls s' = approved_calls s @ [aid]" "direct_calls s' = direct_calls s"
    using assms(3) by (simp_all add: approved_calls_def direct_calls_def)
  then show ?thesis
    using assms(1) evolves_inv [OF i ev] evolves_spent [OF i ev] sp un by (auto simp: kernel_inv_def)
qed

lemma direct_run:
  assumes "kernel_inv s" "\<not> RequiresAdvancedControls (d_RiskLevel d)"
    and "calls s' = calls s @ [(None, d, ps)]" "evolves (gate s) (gate s') \<or> gate s' = gate s"
  shows "kernel_inv s'"
proof -
  have "approved_calls s' = approved_calls s" "direct_calls s' = direct_calls s @ [d]"
    using assms(3) by (simp_all add: approved_calls_def direct_calls_def)
  then show ?thesis using assms(1,2,4) evolves_inv evolves_spent by (auto simp: kernel_inv_def)
qed

lemma kernel_step_inv:
  assumes "kernel_step k gw evolves s s'" "kernel_inv s"
  shows "kernel_inv s'"
  using assms(1)
proof (cases rule: kernel_step.cases)
  case (direct e ctx req runID t0 t1 res)
  have i: "inv (gate s)" using assms(2) by (simp add: kernel_inv_def)
  from Execute_step [OF direct] have "evolves (gate s) (gate s') \<or> gate s' = gate s"
    using submit_evolves [OF i] by blast
  then show ?thesis
    using Execute_step [OF direct] gate_moves [OF assms(2)] direct_run [OF assms(2)] by blast
next
  case (approved e ctx aid rid declared runID t0 t1 res)
  then show ?thesis
    using ExecuteApproved_step [OF approved] gate_moves [OF assms(2)] claimed_run [OF assms(2)] by blast
next
  case (elsewhere g')
  then show ?thesis using gate_moves [OF assms(2), of s'] by simp
qed

lemma kernel_steps_inv:
  "(kernel_step k gw evolves)\<^sup>*\<^sup>* s s' \<Longrightarrow> kernel_inv s \<Longrightarrow> kernel_inv s'"
  by (induction rule: rtranclp_induct) (auto intro: kernel_step_inv)

lemma start_inv: "inv (gate s) \<Longrightarrow> calls s = [] \<Longrightarrow> kernel_inv s"
  by (simp add: kernel_inv_def approved_calls_def direct_calls_def)

end

section \<open>The approval service keeps the contract\<close>

definition approval_service :: "lib \<Rightarrow> ApprovalPolicy \<Rightarrow> uuid \<times> time \<Rightarrow> ApprovalStore gateway" where
  "approval_service l pol e =
    \<lparr>gw_Submit = (\<lambda>s sub. map_error Coded (Submit l pol s sub (fst e) (snd e))),
     gw_Peek = (\<lambda>s aid. map_error Coded (Peek l s aid)),
     gw_Claim = (\<lambda>s aid run declared. map_error Coded (Claim l pol s aid run declared (snd e)))\<rparr>"

definition executed :: "ApprovalStore \<Rightarrow> uuid option \<Rightarrow> bool" where
  "executed s k \<longleftrightarrow> (\<exists>r \<in> set (rows s). Some (rq_ID r) = k \<and> Status r = StatusExecuted)"

lemma approval_step_inv: "table_inv l pol s \<Longrightarrow> approval_step l pol s s' \<Longrightarrow> table_inv l pol s'"
  by (rule row_update_inv [OF approval_step_updates]) (simp_all add: table_inv_def)

lemma Claim_not_executed:
  assumes "table_inv l pol s" "Claim l pol s aid run declared now = Inr s'"
  shows "\<not> executed s (lib_parse_uuid l aid)"
  using assms
proof (rule Claim_takes)
  fix r
  assume r: "r \<in> set (rows s)" "lib_parse_uuid l aid = Some (rq_ID r)"
    and "CanExecute l pol r (rq_Params r) now = Inr ()"
  then have approved: "Status r = StatusApproved" using CanExecute_sound by blast
  have uniq: "unique_ids s" using assms(1) by (simp add: table_inv_def)
  show ?thesis
  proof
    assume "executed s (lib_parse_uuid l aid)"
    then obtain x where x: "x \<in> set (rows s)" "rq_ID x = rq_ID r" "Status x = StatusExecuted"
      using r(2) by (auto simp: executed_def)
    then show False using unique_row [OF uniq x(1) r(1) x(2)] approved by simp
  qed
qed

lemma Claim_executes:
  assumes "table_inv l pol s" "Claim l pol s aid run declared now = Inr s'"
  shows "executed s' (lib_parse_uuid l aid)"
  using assms
proof (rule Claim_takes)
  fix r
  assume r: "r \<in> set (rows s)" "lib_parse_uuid l aid = Some (rq_ID r)"
    "rows s' = map (\<lambda>x. if x = r then r\<lparr>Status := StatusExecuted, ExecutedAt := Some now,
        ExecutionRunID := Some run\<rparr> else x) (rows s)"
  define r' where "r' = r\<lparr>Status := StatusExecuted, ExecutedAt := Some now, ExecutionRunID := Some run\<rparr>"
  have "r' \<in> set (rows s')" using r(1,3) by (auto simp: r'_def)
  moreover have "rq_ID r' = rq_ID r" "Status r' = StatusExecuted" by (simp_all add: r'_def)
  ultimately show ?thesis unfolding executed_def r(2) by (intro bexI [of _ r']) simp_all
qed

lemma executed_stays:
  assumes "table_inv l pol s" "approval_step l pol s s'" "executed s k"
  shows "executed s' k"
proof -
  obtain r where r: "r \<in> set (rows s)" "Some (rq_ID r) = k" "Status r = StatusExecuted"
    using assms(3) by (auto simp: executed_def)
  have "row_update l pol s s'" using approval_step_updates [OF assms(2)] assms(1) by (simp add: table_inv_def)
  then have "\<exists>r' \<in> set (rows s'). row_moves l pol r r'"
    using r(1) row_moves.same [of l pol r] by (auto simp: row_update_def)
  then obtain r' where r': "r' \<in> set (rows s')" "row_moves l pol r r'" by blast
  then have "r' = r" using terminal_stays r(3) by (simp add: Terminal_def)
  then show ?thesis using r r'(1) by (auto simp: executed_def)
qed

interpretation service: approval_gateway "approval_service l pol" "table_inv l pol" "lib_parse_uuid l"
  executed "approval_step l pol" for l pol
proof unfold_locales
  fix g g' :: ApprovalStore and e i run ps
  assume inv: "table_inv l pol g" and "gw_Claim (approval_service l pol e) g i run ps = Inr g'"
  then have c: "Claim l pol g i run ps (snd e) = Inr g'"
    by (simp add: approval_service_def result_simps)
  show "\<not> executed g (lib_parse_uuid l i)" by (rule Claim_not_executed [OF inv c])
  show "executed g' (lib_parse_uuid l i)" by (rule Claim_executes [OF inv c])
  show "approval_step l pol g g'" by (rule approval_step.claim [OF c])
next
  fix g g' :: ApprovalStore and e sub i
  assume "gw_Submit (approval_service l pol e) g sub = Inr (g', i)"
  then show "approval_step l pol g g'"
    by (auto simp: approval_service_def result_simps intro: approval_step.submit)
next
  fix g g' :: ApprovalStore
  assume "table_inv l pol g" "approval_step l pol g g'"
  then show "table_inv l pol g'" by (rule approval_step_inv)
next
  fix g g' :: ApprovalStore and k
  assume "table_inv l pol g" "approval_step l pol g g'" "executed g k"
  then show "executed g' k" by (rule executed_stays)
qed


lemma elsewhere_star:
  "evolves\<^sup>*\<^sup>* (gate s) g' \<Longrightarrow> (kernel_step k gw evolves)\<^sup>*\<^sup>* s (s\<lparr>gate := g'\<rparr>)"
proof (induction rule: rtranclp_induct)
  case (step g1 g2)
  then have "kernel_step k gw evolves (s\<lparr>gate := g1\<rparr>) ((s\<lparr>gate := g1\<rparr>)\<lparr>gate := g2\<rparr>)"
    by (intro elsewhere) simp
  then show ?case using step.IH by simp
qed simp

lemma example_steps: "(approval_step example_lib DefaultPolicy)\<^sup>*\<^sup>* es0 es3"
proof -
  have "approval_step example_lib DefaultPolicy es0 es1 \<or> es1 = es0"
    unfolding es1_def by (auto intro: submit split: sum.splits)
  moreover have "approval_step example_lib DefaultPolicy es1 es2 \<or> es2 = es1"
    unfolding es2_def by (auto intro: vote split: sum.splits)
  moreover have "approval_step example_lib DefaultPolicy es2 es3 \<or> es3 = es2"
    unfolding es3_def by (auto intro: vote split: sum.splits)
  ultimately show ?thesis
    by (metis (full_types) converse_rtranclp_into_rtranclp rtranclp.rtrancl_refl)
qed

text \<open>The example request is submitted, approved by two people and executed.\<close>

abbreviation "example_L4 g \<equiv> example_kernel ''L4'' (g :: ApprovalStore gateway option)"

definition approved_example :: "(ApprovalStore, nat) kernel_state \<times> (go_error + nat Result)" where
  "approved_example = ExecuteApproved (example_L4 (Some (approval_service example_lib DefaultPolicy (0, 4000))))
     (Some operator) ''uuuuu'' ''r2'' None 9 4000 4001 ((example_state es0)\<lparr>gate := es3\<rparr>)"

lemma approved_example_values:
  "approved_calls (fst approved_example) = [''uuuuu'']" "world (fst approved_example) = 1"
  by code_simp+


text \<open>
  C3. What runs is what was approved, and a refused executor burns nothing. An approved
  execution either leaves the approval centre, the business state and the history as they
  were, or it found one request under that identifier, approved with its votes, whose stored
  parameters still match the hash frozen at submission; the executor is a valid principal
  that passes every check of the direct path for the action and version named by the request,
  whose risk level is still the one the votes were counted for; and the handler of that
  action ran once on the parameters of the request, whatever the executor declared.
\<close>

theorem ExecuteApproved_faithful:
  assumes "reachable l pol (gate s)" "k_approvals k = Some (approval_service l pol (ident, clock))"
    and "ExecuteApproved k ctx aid rid declared runID t0 t1 s = (s', res)"
  shows "(gate s' = gate s \<and> world s' = world s \<and> calls s' = calls s \<and> (\<forall>v. res \<noteq> Inr v))
    \<or> (\<exists>r \<in> set (rows (gate s)). \<exists>d h p.
        lib_parse_uuid l aid = Some (rq_ID r) \<and> Status r = StatusApproved
        \<and> Settle pol r (Decisions r) = StatusApproved \<and> clock < ExpiresAt r
        \<and> HashParams l (rq_Params r) = Inr (ParamsHash r)
        \<and> Lookup (k_registry k) (rq_ActionID r) (rq_ActionVersion r) = Some (d, h)
        \<and> d_RiskLevel d = rq_RiskLevel r \<and> ctx = Some p \<and> Principal_Validate p = Inr () \<and> rid \<noteq> []
        \<and> p_Type p \<in> set (PrincipalTypes d) \<and> p_Environment p \<in> set (Environments d)
        \<and> HasScope p (Permission d) \<and> Schema_Validate (d_Schema d) (rq_Params r) = Inr ()
        \<and> calls s' = calls s @ [(Some aid, d, rq_Params r)]
        \<and> world s' = fst (h (rq_Params r) (world s)))"
  using assms(3)
proof (cases rule: ExecuteApproved_cases)
  case (refused d p code)
  then show ?thesis using fail_approved_effect [OF refused(1)] by simp
next
  case (ran g c d h p g')
  have g: "g = approval_service l pol (ident, clock)" using ran(1) assms(2) by simp
  have cl: "Claim l pol (gate s) aid runID declared clock = Inr g'"
    using ran(6) by (simp add: g approval_service_def map_error_eq_Inr)
  have pk: "Peek l (gate s) aid = Inr c"
    using ran(2) by (simp add: g approval_service_def map_error_eq_Inr)
  note inv = reachable_inv [OF assms(1)]
  from inv cl show ?thesis
  proof (rule Claim_takes)
    fix r
    assume r: "r \<in> set (rows (gate s))" "lib_parse_uuid l aid = Some (rq_ID r)"
      "rq_Environment r = environment (gate s)" "CanExecute l pol r (rq_Params r) clock = Inr ()"
    have ri: "row_inv l pol r" "unique_ids (gate s)" using inv r(1) by (auto simp: table_inv_def)
    have "pg_Get (gate s) (rq_ID r) = Inr r" by (rule pg_Get_found [OF ri(2) r(1,3)])
    then have c: "ac_ActionID c = rq_ActionID r" "ac_ActionVersion c = rq_ActionVersion r"
        "ac_RiskLevel c = rq_RiskLevel r" "ac_Params c = rq_Params r"
      using pk r(2) by (auto simp: Peek_def load_def parseID_def result_simps)
    have "rq_RiskLevel r \<in> set [''L2'', ''L3'', ''L4'']"
      using ri(1) unfolding row_inv_def request_row_ok_def by blast
    then have level: "rq_RiskLevel r \<noteq> []" by auto
    note can = CanExecute_sound [OF r(4)]
    have settled: "Settle pol r (Decisions r) = StatusApproved" using ri(1) can by (auto simp: row_inv_def)
    have "calls s' = calls s @ [(Some aid, d, rq_Params r)]" "world s' = fst (h (rq_Params r) (world s))"
      using run_handler_effect [OF ran(7)] c by simp_all
    moreover have "d_RiskLevel d = rq_RiskLevel r" using ran(5) level c by auto
    moreover note look = ran(3) [unfolded c] and pre = ran(4) [unfolded precheck_ok c]
    ultimately show ?thesis
      using r(1,2) settled can by (intro disjI2 bexI [of _ r] exI [of _ d] exI [of _ h] exI [of _ p]) blast+
  qed
qed simp

theorem ExecuteApproved_faithful_witness:
  "\<exists>r \<in> set (rows es3). calls (fst approved_example) = [(Some ''uuuuu'', example_action ''L4'', rq_Params r)]
    \<and> Settle DefaultPolicy r (Decisions r) = StatusApproved"
proof -
  let ?k = "example_L4 (Some (approval_service example_lib DefaultPolicy (0, 4000)))"
  have e: "ExecuteApproved ?k (Some operator) ''uuuuu'' ''r2'' None 9 4000 4001
      ((example_state es0)\<lparr>gate := es3\<rparr>) = (fst approved_example, snd approved_example)"
    by (simp add: approved_example_def)
  have only: "Lookup (k_registry ?k) a v = Some (d, h) \<Longrightarrow> d = example_action ''L4''" for a v d h
    by (auto simp: Lookup_def example_kernel_def split: if_splits)
  have "world (fst approved_example) \<noteq> world ((example_state es0)\<lparr>gate := es3\<rparr>)"
    using approved_example_values(2) by (simp add: example_state_def)
  moreover have "reachable example_lib DefaultPolicy (gate ((example_state es0)\<lparr>gate := es3\<rparr>))"
    using example_reachable(4) by simp
  ultimately obtain r d where "r \<in> set (rows es3)" "Settle DefaultPolicy r (Decisions r) = StatusApproved"
      "calls (fst approved_example) = calls ((example_state es0)\<lparr>gate := es3\<rparr>) @ [(Some ''uuuuu'', d, rq_Params r)]"
      "d = example_action ''L4''"
    using ExecuteApproved_faithful [of example_lib DefaultPolicy "(example_state es0)\<lparr>gate := es3\<rparr>" ?k 0 4000,
        OF _ _ e] only
    by (fastforce simp: example_kernel_def)
  then show ?thesis by (auto simp: example_state_def)
qed

end
