(* ===== verification/Registry.thy ===== *)
theory Registry
  imports Actions
begin

text \<open>
  The registry of connectors and connections (package \<open>registry\<close>: \<open>environment.go\<close>,
  \<open>errors.go\<close>, \<open>connector.go\<close>): environments, identifiers, capabilities and their verbs,
  and the rules a connector and a connection must satisfy before they are stored.
\<close>

section \<open>Environments, identifiers, capabilities\<close>

datatype registry_error = ErrInvalidEnvironment | ErrInvalidStatus | ErrRegistryMissingField
  | ErrInvalidFormat | ErrInvalidCredentialRef | ErrAllowlistRequired | ErrKillSwitchRequired

definition ParseEnvironment :: "string \<Rightarrow> registry_error + string" where
  "ParseEnvironment s = (if s \<in> set [''development'', ''staging'', ''production''] then Inr s
     else Inl ErrInvalidEnvironment)"

definition IsProduction :: "string \<Rightarrow> bool" where "IsProduction e \<longleftrightarrow> e = ''production''"

text \<open>The pattern \<open>^[a-z0-9][a-z0-9-]{0,63}$\<close>.\<close>

definition identifierPattern :: "string \<Rightarrow> bool" where
  "identifierPattern s \<longleftrightarrow> s \<noteq> [] \<and> lower_alnum (hd s)
     \<and> list_all (\<lambda>c. lower_alnum c \<or> c = CHR ''-'') (tl s) \<and> int (length (tl s)) \<le> 63"

definition ValidateIdentifier :: "string \<Rightarrow> registry_error + unit" where
  "ValidateIdentifier v =
    (if v = [] then Inl ErrRegistryMissingField
     else if \<not> identifierPattern v then Inl ErrInvalidFormat else Inr ())"

definition requireNonEmpty :: "string \<Rightarrow> registry_error + unit" where
  "requireNonEmpty v = (if v = [] then Inl ErrRegistryMissingField else Inr ())"

type_synonym Capability = string

definition writeVerbs :: "string list" where
  "writeVerbs = [''import'', ''create'', ''update'', ''delete'', ''manage'', ''assign_group'',
     ''disable'', ''enable'', ''approve'', ''reject'', ''attach'', ''freeze'', ''resolve'',
     ''restart'', ''publish'', ''refund'', ''switch'', ''execute'']"

text \<open>The capability pattern is the one of action identifiers.\<close>

definition ParseCapability :: "string \<Rightarrow> registry_error + Capability" where
  "ParseCapability s =
    (if s = [] then Inl ErrRegistryMissingField
     else if \<not> actionIDPattern s then Inl ErrInvalidFormat else Inr s)"

definition IsWrite :: "Capability \<Rightarrow> bool" where
  "IsWrite c = (let parts = split_on (CHR ''.'') c in
     if length parts < 3 then False else last parts \<in> set writeVerbs)"

fun validateCapabilities :: "Capability list \<Rightarrow> bool option \<Rightarrow> registry_error + unit" where
  "validateCapabilities [] wantWrite = Inr ()"
| "validateCapabilities (c # cs) wantWrite =
    rbind (ParseCapability c) (\<lambda>_.
      if wantWrite \<noteq> None \<and> Some (IsWrite c) \<noteq> wantWrite then Inl ErrInvalidFormat
      else validateCapabilities cs wantWrite)"

definition validateAllowlist :: "string list \<Rightarrow> registry_error + unit" where
  "validateAllowlist entries =
    (if entries = [] then Inl ErrAllowlistRequired
     else if list_ex (\<lambda>e. blank e \<or> CHR ''/'' \<in> set e \<or> CHR '' '' \<in> set e) entries then Inl ErrInvalidFormat
     else Inr ())"

section \<open>Connectors and connections (connector.go)\<close>

record Connector =
  cn_Key :: string
  cn_Version :: string
  ContractVersion :: string
  ConnectionSchemaPath :: string
  cn_TargetAllowlist :: "string list"
  ReadCapabilities :: "Capability list"
  WriteCapabilities :: "Capability list"

text \<open>The pattern \<open>^\d+\.\d+\.\d+$\<close>.\<close>

definition semverPattern :: "string \<Rightarrow> bool" where
  "semverPattern s = (let parts = split_on (CHR ''.'') s in
     length parts = 3 \<and> list_all (\<lambda>p. p \<noteq> [] \<and> list_all is_digit p) parts)"

definition Connector_Validate :: "Connector \<Rightarrow> registry_error + unit" where
  "Connector_Validate c =
    rbind (ValidateIdentifier (cn_Key c)) (\<lambda>_.
    rbind (requireNonEmpty (cn_Version c)) (\<lambda>_.
    if \<not> semverPattern (cn_Version c) then Inl ErrInvalidFormat
    else rbind (requireNonEmpty (ContractVersion c)) (\<lambda>_.
    rbind (requireNonEmpty (ConnectionSchemaPath c)) (\<lambda>_.
    rbind (validateAllowlist (cn_TargetAllowlist c)) (\<lambda>_.
    rbind (validateCapabilities (ReadCapabilities c) (Some False)) (\<lambda>_.
    rbind (validateCapabilities (WriteCapabilities c) (Some True)) (\<lambda>_.
      if list_ex (\<lambda>w. w \<in> set (ReadCapabilities c)) (WriteCapabilities c) then Inl ErrInvalidFormat
      else Inr ())))))))"

definition ParseConnectionStatus :: "string \<Rightarrow> registry_error + string" where
  "ParseConnectionStatus s = (if s \<in> set [''enabled'', ''disabled'', ''killed''] then Inr s
     else Inl ErrInvalidStatus)"

text \<open>A nil identifier is \<open>0\<close>.\<close>

record Connection =
  ConnectorID :: nat
  ServiceID :: nat
  cx_Environment :: string
  cx_CredentialRef :: string
  cx_TargetAllowlist :: "string list"
  GrantedCapabilities :: "Capability list"
  KillSwitch :: string
  cx_Status :: string

definition HasWriteCapability :: "Connection \<Rightarrow> bool" where
  "HasWriteCapability c \<longleftrightarrow> list_ex IsWrite (GrantedCapabilities c)"

definition Connection_Validate :: "Connection \<Rightarrow> registry_error + unit" where
  "Connection_Validate c =
    (if ConnectorID c = 0 then Inl ErrRegistryMissingField
     else if ServiceID c = 0 then Inl ErrRegistryMissingField
     else rbind (ParseEnvironment (cx_Environment c)) (\<lambda>_.
     rbind (requireNonEmpty (cx_CredentialRef c)) (\<lambda>_.
     if (case ParseCredentialRef (cx_CredentialRef c) of Inl _ \<Rightarrow> True | Inr _ \<Rightarrow> False)
       then Inl ErrInvalidCredentialRef
     else rbind (validateAllowlist (cx_TargetAllowlist c)) (\<lambda>_.
     rbind (validateCapabilities (GrantedCapabilities c) None) (\<lambda>_.
     if HasWriteCapability c \<and> blank (KillSwitch c) then Inl ErrKillSwitchRequired
     else rbind (ParseConnectionStatus (cx_Status c)) (\<lambda>_. Inr ()))))))"

section \<open>What a stored connector and connection guarantee\<close>

lemma validateCapabilities_iff:
  "validateCapabilities cs w = Inr u \<longleftrightarrow> (\<forall>c \<in> set cs. actionIDPattern c \<and> (w = None \<or> w = Some (IsWrite c)))"
proof (induction cs)
  case (Cons c cs)
  have "\<not> actionIDPattern []" by (simp add: actionIDPattern_def split_on_def)
  then show ?case using Cons by (auto simp: ParseCapability_def)
qed simp

lemma validateAllowlist_iff:
  "validateAllowlist es = Inr u \<longleftrightarrow> es \<noteq> [] \<and> (\<forall>e \<in> set es. \<not> blank e \<and> CHR ''/'' \<notin> set e \<and> CHR '' '' \<notin> set e)"
  by (auto simp: validateAllowlist_def list_ex_iff)

text \<open>
  What may write is declared and can be stopped. A connection is accepted exactly when
  it names a connector and a service, sits in a known environment with a known status, refers
  to its credential and never contains it, has a list of plain host names it may reach and
  only well-formed capabilities, and has a kill switch if one of them writes; so no accepted
  connection can change the outside world without a switch.
\<close>

theorem Connection_Validate_iff:
  "Connection_Validate c = Inr () \<longleftrightarrow>
    ConnectorID c \<noteq> 0 \<and> ServiceID c \<noteq> 0 \<and> ParseEnvironment (cx_Environment c) = Inr (cx_Environment c)
    \<and> (\<exists>ref. ParseCredentialRef (cx_CredentialRef c) = Inr ref) \<and> cx_CredentialRef c \<noteq> []
    \<and> cx_TargetAllowlist c \<noteq> []
    \<and> (\<forall>e \<in> set (cx_TargetAllowlist c). \<not> blank e \<and> CHR ''/'' \<notin> set e \<and> CHR '' '' \<notin> set e)
    \<and> (\<forall>k \<in> set (GrantedCapabilities c). actionIDPattern k)
    \<and> \<not> ((\<exists>k \<in> set (GrantedCapabilities c). IsWrite k) \<and> blank (KillSwitch c))
    \<and> ParseConnectionStatus (cx_Status c) = Inr (cx_Status c)"
proof -
  have env: "(\<exists>e. ParseEnvironment x = Inr e) \<longleftrightarrow> ParseEnvironment x = Inr x" for x
    by (simp add: ParseEnvironment_def)
  have st: "(\<exists>e. ParseConnectionStatus x = Inr e) \<longleftrightarrow> ParseConnectionStatus x = Inr x" for x
    by (simp add: ParseConnectionStatus_def)
  have ref: "(case ParseCredentialRef x of Inl _ \<Rightarrow> True | Inr _ \<Rightarrow> False) \<longleftrightarrow> \<not> (\<exists>ref. ParseCredentialRef x = Inr ref)" for x
    by (cases "ParseCredentialRef x") simp_all
  show ?thesis
    unfolding Connection_Validate_def ref HasWriteCapability_def list_ex_iff requireNonEmpty_def
    by (simp only: rbind_eq_Inr if_Inl_eq_Inr env [symmetric] st [symmetric] validateAllowlist_iff
        validateCapabilities_iff) auto
qed

text \<open>
  Reading and writing do not mix in a connector. An accepted connector lists only
  capabilities without a writing verb as readable and only capabilities with one as writable,
  so no capability is in both lists.
\<close>

theorem Connector_Validate_separates:
  assumes "Connector_Validate c = Inr ()"
  shows "(\<forall>k \<in> set (ReadCapabilities c). actionIDPattern k \<and> \<not> IsWrite k)
    \<and> (\<forall>k \<in> set (WriteCapabilities c). actionIDPattern k \<and> IsWrite k)
    \<and> set (ReadCapabilities c) \<inter> set (WriteCapabilities c) = {}
    \<and> identifierPattern (cn_Key c) \<and> semverPattern (cn_Version c) \<and> cn_TargetAllowlist c \<noteq> []"
proof -
  have r: "validateCapabilities (ReadCapabilities c) (Some False) = Inr ()"
    and w: "validateCapabilities (WriteCapabilities c) (Some True) = Inr ()"
    and rest: "ValidateIdentifier (cn_Key c) = Inr ()" "semverPattern (cn_Version c)"
      "validateAllowlist (cn_TargetAllowlist c) = Inr ()"
    using assms by (auto simp: Connector_Validate_def result_simps split: if_splits)
  then have "\<forall>k \<in> set (ReadCapabilities c). actionIDPattern k \<and> \<not> IsWrite k"
    "\<forall>k \<in> set (WriteCapabilities c). actionIDPattern k \<and> IsWrite k"
    by (auto simp: validateCapabilities_iff)
  then show ?thesis
    using rest by (auto simp: ValidateIdentifier_def validateAllowlist_iff split: if_splits)
qed

definition example_connector :: Connector where
  "example_connector = \<lparr>cn_Key = ''sub2api'', cn_Version = ''1.2.0'', ContractVersion = ''v1'',
     ConnectionSchemaPath = ''contracts/sub2api.json'', cn_TargetAllowlist = [''host.example''],
     ReadCapabilities = [''sub2api.users.read''], WriteCapabilities = [''sub2api.channels.disable'']\<rparr>"

theorem Connector_Validate_separates_witness:
  "Connector_Validate example_connector = Inr () \<and> \<not> IsWrite ''sub2api.users.read''
    \<and> IsWrite ''sub2api.channels.disable''"
proof -
  have "Connector_Validate example_connector = Inr ()" by code_simp
  then show ?thesis using Connector_Validate_separates [of example_connector] by (simp add: example_connector_def)
qed

definition example_connection :: "string \<Rightarrow> Connection" where
  "example_connection switch = \<lparr>ConnectorID = 1, ServiceID = 2, cx_Environment = ''production'',
     cx_CredentialRef = ''secret://sub2api/admin'', cx_TargetAllowlist = [''host.example''],
     GrantedCapabilities = [''sub2api.channels.disable''], KillSwitch = switch, cx_Status = ''enabled''\<rparr>"

theorem Connection_Validate_iff_witness:
  "Connection_Validate (example_connection ''ops.kill.sub2api'') = Inr () \<and> Connection_Validate (example_connection '' '') \<noteq> Inr ()"
proof
  show "Connection_Validate (example_connection ''ops.kill.sub2api'') = Inr ()" by code_simp
  have "IsWrite ''sub2api.channels.disable'' \<and> blank '' ''" by code_simp
  then show "Connection_Validate (example_connection '' '') \<noteq> Inr ()"
    using Connection_Validate_iff [of "example_connection '' ''"] by (simp add: example_connection_def)
qed

end
