(* ===== verification/Poll.thy ===== *)
theory Poll
  imports Go_Strings
begin

text \<open>
  Polling of upstream systems (\<open>connector/backoff.go\<close>): reading a \<open>Retry-After\<close> header, the
  deterministic jitter, and the transition that computes when to poll again. SHA-256 and the
  HTTP date parser are library code, the parameters \<open>sha256\<close> and \<open>http_time\<close>. Durations are
  64-bit nanoseconds and wrap.
\<close>

section \<open>Outcomes and policies (budget.go, budget\_policy.go)\<close>

text \<open>The stable codes of outcomes and of budget errors; any other text is \<open>OtherCode\<close>.\<close>

datatype outcome_code = OutcomeNotDue | OutcomeSourceBudgetWait | OutcomeSourceConcurrencyFull
  | OutcomeRunRequestLimit | OutcomeRunPageLimit | OutcomeRunRowLimit | OutcomeRunByteLimit
  | OutcomeRunCostLimit | OutcomeRunDeadline | OutcomeCursorStalled | OutcomeCursorCycle
  | OutcomeResponseTooLarge | OutcomeRateLimited | OutcomeAuthSuspended | OutcomeNotSupported
  | OutcomeVersionUnsupported | OutcomeBudgetBackend | OutcomePartialBudgetExhausted
  | OutcomeComplete | OutcomeUnavailable | OutcomeBadResponse | OutcomeSuccessChanged
  | OutcomeSuccessUnchanged | OutcomePartial
  | UnknownRoute | InvalidCostUnits | AuthorityDenied | GuardFinished | InvalidPlan | InvalidObservation
  | OtherCode string

record PollPolicy =
  SchedulerTickSeconds :: int64
  BaseIntervalSeconds :: int64
  MinIntervalSeconds :: int64
  MaxIntervalSeconds :: int64
  UnchangedStepsBeforeSlowdown :: int
  SuccessStepsBeforeRecovery :: int
  poll_JitterPPM :: int

definition validatePoll :: "PollPolicy \<Rightarrow> unit + unit" where
  "validatePoll p =
    (if SchedulerTickSeconds p \<le> 0 \<or> BaseIntervalSeconds p \<le> 0 \<or> MinIntervalSeconds p \<le> 0
       \<or> MaxIntervalSeconds p < BaseIntervalSeconds p \<or> MinIntervalSeconds p > BaseIntervalSeconds p then Inl ()
     else if MinIntervalSeconds p \<noteq> BaseIntervalSeconds p then Inl ()
     else if UnchangedStepsBeforeSlowdown p \<le> 0 \<or> SuccessStepsBeforeRecovery p \<le> 0
       \<or> poll_JitterPPM p < 0 \<or> poll_JitterPPM p > 1000000 then Inl ()
     else Inr ())"

section \<open>Retry-After\<close>

datatype circuit = CircuitClosed | CircuitManualSuspend | CircuitAuthSuspend | CircuitNotSupported

record RetryAfterDecision =
  ra_Duration :: duration
  Valid :: bool
  ManualSuspend :: bool
  OverCap :: bool
  Invalid :: bool

definition invalid_retry :: RetryAfterDecision where
  "invalid_retry = \<lparr>ra_Duration = 0, Valid = False, ManualSuspend = False, OverCap = False, Invalid = True\<rparr>"

definition retry_duration :: "(string \<Rightarrow> time option) \<Rightarrow> string \<Rightarrow> time \<Rightarrow> time \<Rightarrow> duration option" where
  "retry_duration http_time value now responseDate =
    (case parse_int64 value of
       Some seconds \<Rightarrow>
         if seconds < 0 \<or> seconds > max_int64 sdiv nanos_per_second then None
         else Some (wrap64 (seconds * nanos_per_second))
     | None \<Rightarrow> (case http_time value of None \<Rightarrow> None
         | Some when_ \<Rightarrow>
           let base = (if responseDate \<noteq> 0 then responseDate else now); d = time_sub when_ base in
           if d < 0 then None else Some d))"

definition ParseRetryAfter :: "(string \<Rightarrow> time option) \<Rightarrow> string \<Rightarrow> time \<Rightarrow> time \<Rightarrow> duration \<Rightarrow> RetryAfterDecision" where
  "ParseRetryAfter http_time value0 now responseDate maxDuration =
    (let value = trim_space value0 in
     if value = [] \<or> maxDuration \<le> 0 then invalid_retry
     else case retry_duration http_time value now responseDate of
       None \<Rightarrow> invalid_retry
     | Some d \<Rightarrow> \<lparr>ra_Duration = d, Valid = True, ManualSuspend = d > maxDuration,
         OverCap = d > maxDuration, Invalid = False\<rparr>)"

definition ParseRetryAfterHeader :: "(string \<Rightarrow> time option) \<Rightarrow> string \<Rightarrow> time \<Rightarrow> duration \<Rightarrow> RetryAfterDecision" where
  "ParseRetryAfterHeader http_time value now maxDuration = ParseRetryAfter http_time value now 0 maxDuration"

section \<open>Jitter\<close>

text \<open>\<open>PutUint64\<close> and \<open>Uint64\<close> in big-endian order; \<open>uint64(v)\<close> is \<open>v mod 2 ^ 64\<close>.\<close>

definition be64 :: "int \<Rightarrow> string" where
  "be64 v = map (\<lambda>i. char_of (v mod 18446744073709551616 div 256 ^ i)) [7, 6, 5, 4, 3, 2, 1, 0]"

definition be_value :: "string \<Rightarrow> int" where
  "be_value s = fold (\<lambda>c n. n * 256 + of_char c) s 0"

definition DeterministicJitter :: "(string \<Rightarrow> string) \<Rightarrow> string \<Rightarrow> string \<Rightarrow> int \<Rightarrow> duration \<Rightarrow> int \<Rightarrow> duration" where
  "DeterministicJitter sha256 identity slot policyVersion interval0 ppm0 =
    (if interval0 \<le> 0 \<or> ppm0 \<le> 0 then 0
     else let ppm = (if ppm0 > 1000000 then 1000000 else ppm0);
              raw = be_value (take 8 (sha256 (identity @ [CHR 0x00] @ slot @ be64 policyVersion)));
              interval = (if interval0 > max_int64 sdiv ppm then max_int64 sdiv ppm else interval0);
              bound = wrap64 (interval * ppm) sdiv 1000000 in
       if bound \<le> 0 then 0 else raw mod (bound + 1))"

section \<open>The transition\<close>

record PollState =
  CurrentIntervalSeconds :: int64
  ConsecutiveSuccess :: int
  ConsecutiveUnchanged :: int
  ConsecutiveFailure :: int
  RetryAfterUntil :: time
  CircuitState :: circuit
  NextDueAt :: time
  LastOutcomeCode :: outcome_code
  LastCoverageComplete :: bool

record PollTransition =
  Now :: time
  Outcome :: outcome_code
  Changed :: bool
  RetryAfter :: duration
  t_Policy :: PollPolicy
  Identity :: string
  Slot :: string
  t_PolicyVersion :: int

text \<open>The closures of \<open>NextPollState\<close>.\<close>

definition clamp_interval :: "PollPolicy \<Rightarrow> int64 \<Rightarrow> int64" where
  "clamp_interval p c =
    (let c = (if c < BaseIntervalSeconds p then BaseIntervalSeconds p else c) in
     if c > MaxIntervalSeconds p then MaxIntervalSeconds p else c)"

definition inc :: "int \<Rightarrow> int" where "inc v = (if v < max_int64 then v + 1 else v)"

definition stepUp :: "PollPolicy \<Rightarrow> int64 \<Rightarrow> int64" where
  "stepUp p current =
    (if current \<ge> MaxIntervalSeconds p then MaxIntervalSeconds p
     else let c = (if current > MaxIntervalSeconds p sdiv 2 then MaxIntervalSeconds p else wrap64 (current * 2)) in
       if c > MaxIntervalSeconds p then MaxIntervalSeconds p else c)"

definition stepDown :: "PollPolicy \<Rightarrow> int64 \<Rightarrow> int64" where
  "stepDown p current =
    (if current \<le> BaseIntervalSeconds p then BaseIntervalSeconds p
     else let c = current sdiv 2 in if c < BaseIntervalSeconds p then BaseIntervalSeconds p else c)"

definition failed :: "PollState \<Rightarrow> PollState" where
  "failed s = s\<lparr>ConsecutiveSuccess := 0, ConsecutiveUnchanged := 0,
     ConsecutiveFailure := inc (ConsecutiveFailure s)\<rparr>"

text \<open>After a success: step down when enough of them have come in a row.\<close>

definition recovering :: "PollPolicy \<Rightarrow> PollState \<Rightarrow> int64 \<Rightarrow> PollState \<times> int64" where
  "recovering p s current =
    (if ConsecutiveSuccess s \<ge> SuccessStepsBeforeRecovery p
     then (s\<lparr>ConsecutiveSuccess := 0\<rparr>, stepDown p current) else (s, current))"

text \<open>The switch over the outcomes: \<open>None\<close> for an unknown one; the flag asks to return early.\<close>

definition poll_switch :: "PollTransition \<Rightarrow> PollState \<Rightarrow> int64 \<Rightarrow> (PollState \<times> int64 \<times> bool) option" where
  "poll_switch t s current =
    (let p = t_Policy t in
     case Outcome t of
       OutcomeAuthSuspended \<Rightarrow> Some ((failed s)\<lparr>CircuitState := CircuitAuthSuspend\<rparr>, MaxIntervalSeconds p, False)
     | OutcomeVersionUnsupported \<Rightarrow> Some ((failed s)\<lparr>CircuitState := CircuitNotSupported\<rparr>, MaxIntervalSeconds p, False)
     | OutcomeNotSupported \<Rightarrow> Some ((failed s)\<lparr>CircuitState := CircuitNotSupported\<rparr>, MaxIntervalSeconds p, False)
     | OutcomeRateLimited \<Rightarrow>
         let current = stepUp p current in
         if RetryAfter t > 0 then
           if RetryAfter t > wrap64 (MaxIntervalSeconds p * nanos_per_second) then
             Some ((failed s)\<lparr>CircuitState := CircuitManualSuspend, RetryAfterUntil := Now t + RetryAfter t,
               NextDueAt := Now t + RetryAfter t, CurrentIntervalSeconds := current\<rparr>, current, True)
           else if RetryAfter t > wrap64 (current * nanos_per_second) then
             Some (failed s, RetryAfter t sdiv nanos_per_second
               + (if RetryAfter t smod nanos_per_second \<noteq> 0 then 1 else 0), False)
           else Some (failed s, current, False)
         else Some (failed s, current, False)
     | OutcomeUnavailable \<Rightarrow> Some (failed s, stepUp p current, False)
     | OutcomeBadResponse \<Rightarrow> Some (failed s, stepUp p current, False)
     | OutcomePartial \<Rightarrow> Some ((failed s)\<lparr>LastCoverageComplete := False\<rparr>, stepUp p current, False)
     | OutcomePartialBudgetExhausted \<Rightarrow> Some ((failed s)\<lparr>LastCoverageComplete := False\<rparr>, stepUp p current, False)
     | OutcomeSuccessChanged \<Rightarrow>
         let (s, current) = recovering p (s\<lparr>ConsecutiveUnchanged := 0, ConsecutiveFailure := 0,
               ConsecutiveSuccess := inc (ConsecutiveSuccess s)\<rparr>) current in
         Some (s\<lparr>LastCoverageComplete := True\<rparr>, current, False)
     | OutcomeSuccessUnchanged \<Rightarrow>
         let s = s\<lparr>ConsecutiveFailure := 0, ConsecutiveSuccess := inc (ConsecutiveSuccess s),
               ConsecutiveUnchanged := inc (ConsecutiveUnchanged s)\<rparr> in
         if ConsecutiveUnchanged s \<ge> UnchangedStepsBeforeSlowdown p
         then Some (s\<lparr>ConsecutiveUnchanged := 0, LastCoverageComplete := True\<rparr>, stepUp p current, False)
         else Some (s\<lparr>LastCoverageComplete := True\<rparr>, current, False)
     | OutcomeComplete \<Rightarrow>
         let s = s\<lparr>ConsecutiveFailure := 0, ConsecutiveUnchanged := 0,
               ConsecutiveSuccess := inc (ConsecutiveSuccess s)\<rparr>;
             s = (if Changed t then s\<lparr>ConsecutiveUnchanged := 0\<rparr>
                  else s\<lparr>ConsecutiveUnchanged := inc (ConsecutiveUnchanged s)\<rparr>);
             (s, current) = recovering p s current in
         Some (s\<lparr>LastCoverageComplete := True\<rparr>, current, False)
     | oc \<Rightarrow>
         if oc \<in> set [OutcomeNotDue, OutcomeSourceBudgetWait, OutcomeSourceConcurrencyFull,
           OutcomeRunRequestLimit, OutcomeRunPageLimit, OutcomeRunRowLimit, OutcomeRunByteLimit,
           OutcomeRunCostLimit, OutcomeRunDeadline, OutcomeCursorStalled, OutcomeCursorCycle,
           OutcomeResponseTooLarge, OutcomeBudgetBackend]
         then Some (s, current, False) else None)"

definition NextPollState :: "(string \<Rightarrow> string) \<Rightarrow> PollState \<Rightarrow> PollTransition \<Rightarrow> unit + PollState" where
  "NextPollState sha256 previous t =
    rbind (validatePoll (t_Policy t)) (\<lambda>_.
    if Now t = 0 then Inl ()
    else
      let p = t_Policy t;
          start = (if CurrentIntervalSeconds previous \<le> 0 then BaseIntervalSeconds p
                   else CurrentIntervalSeconds previous);
          s0 = previous\<lparr>CircuitState := CircuitClosed, LastOutcomeCode := Outcome t, RetryAfterUntil := 0\<rparr> in
      (case poll_switch t s0 (clamp_interval p start) of
         None \<Rightarrow> Inl ()
       | Some (s, current, early) \<Rightarrow>
           if early then Inr s
           else let current = clamp_interval p current;
                    delay = wrap64 (current * nanos_per_second);
                    delay = (if CircuitState s = CircuitClosed
                      then wrap64 (delay + DeterministicJitter sha256 (Identity t) (Slot t) (t_PolicyVersion t)
                             delay (poll_JitterPPM p))
                      else delay);
                    delay = (if RetryAfterUntil s \<noteq> 0 \<and> delay < time_sub (RetryAfterUntil s) (Now t)
                      then time_sub (RetryAfterUntil s) (Now t) else delay)
             in Inr (s\<lparr>CurrentIntervalSeconds := current, NextDueAt := Now t + delay\<rparr>)))"

section \<open>Bounds of the parts\<close>

lemma validatePoll_sound:
  "validatePoll p = Inr u \<Longrightarrow> 0 < BaseIntervalSeconds p \<and> BaseIntervalSeconds p \<le> MaxIntervalSeconds p
    \<and> 0 < UnchangedStepsBeforeSlowdown p \<and> 0 < SuccessStepsBeforeRecovery p
    \<and> 0 \<le> poll_JitterPPM p \<and> poll_JitterPPM p \<le> 1000000"
  by (auto simp: validatePoll_def split: if_splits)

definition in_range :: "PollPolicy \<Rightarrow> int64 \<Rightarrow> bool" where
  "in_range p c \<longleftrightarrow> BaseIntervalSeconds p \<le> c \<and> c \<le> MaxIntervalSeconds p"

lemma clamp_in_range: "BaseIntervalSeconds p \<le> MaxIntervalSeconds p \<Longrightarrow> in_range p (clamp_interval p c)"
  by (auto simp: clamp_interval_def in_range_def Let_def)

lemma clamp_id: "in_range p c \<Longrightarrow> clamp_interval p c = c"
  by (auto simp: clamp_interval_def in_range_def Let_def)

text \<open>Stepping up doubles up to the longest interval; the doubling never wraps.\<close>

lemma stepUp_eq:
  assumes "in_range p c" "0 < BaseIntervalSeconds p" "in64 (MaxIntervalSeconds p)"
  shows "stepUp p c = min (MaxIntervalSeconds p) (2 * c)"
proof -
  have m: "0 < MaxIntervalSeconds p" and c: "0 < c" using assms by (auto simp: in_range_def)
  have half: "MaxIntervalSeconds p sdiv 2 = MaxIntervalSeconds p div 2" using m by simp
  have "wrap64 (c * 2) = 2 * c" if "c \<le> MaxIntervalSeconds p div 2"
  proof -
    have "2 * c \<le> MaxIntervalSeconds p" using that by linarith
    then have "in64 (2 * c)" using c assms(3) in64_nonneg_le by simp
    then show ?thesis by (simp add: mult.commute)
  qed
  then show ?thesis using half c by (auto simp: stepUp_def Let_def min_def)
qed

lemma stepDown_eq: "in_range p c \<Longrightarrow> 0 < BaseIntervalSeconds p \<Longrightarrow> stepDown p c = max (BaseIntervalSeconds p) (c div 2)"
  by (auto simp: stepDown_def Let_def in_range_def max_def)

lemma step_ranges:
  assumes "in_range p c" "0 < BaseIntervalSeconds p" "in64 (MaxIntervalSeconds p)"
  shows "in_range p (stepUp p c)" "in_range p (stepDown p c)"
proof -
  show "in_range p (stepUp p c)" using assms by (simp add: stepUp_eq) (auto simp: in_range_def)
  have "c div 2 \<le> c" using assms by (auto simp: in_range_def)
  then show "in_range p (stepDown p c)" using assms by (simp add: stepDown_eq) (auto simp: in_range_def)
qed

lemma of_char_nonneg: "0 \<le> (of_char c :: int)"
  by (cases c) simp

lemma be_value_nonneg: "0 \<le> be_value s"
proof -
  have "0 \<le> n \<Longrightarrow> 0 \<le> fold (\<lambda>c n. n * 256 + of_char c) s n" for n :: int
    by (induction s arbitrary: n) (simp_all add: of_char_nonneg)
  then show ?thesis by (simp add: be_value_def)
qed

lemma jitter_bounds:
  assumes "ppm \<le> 1000000" "in64 interval"
  shows "0 \<le> DeterministicJitter sha256 ident slot v interval ppm"
    and "0 \<le> interval \<Longrightarrow> DeterministicJitter sha256 ident slot v interval ppm \<le> interval"
proof -
  define J where "J = DeterministicJitter sha256 ident slot v interval ppm"
  have "0 \<le> J \<and> (0 \<le> interval \<longrightarrow> J \<le> interval)"
  proof (cases "interval \<le> 0 \<or> ppm \<le> 0")
    case True
    then show ?thesis by (auto simp: J_def DeterministicJitter_def)
  next
    case False
    then have pos: "0 < interval" "0 < ppm" by auto
    define cap where "cap = max_int64 div ppm"
    define i where "i = (if interval > cap then cap else interval)"
    define raw where "raw = be_value (take 8 (sha256 (ident @ [CHR 0x00] @ slot @ be64 v)))"
    have cap: "cap * ppm \<le> max_int64"
      using div_mult_mod_eq [of max_int64 ppm] pos_mod_sign [OF pos(2), of max_int64]
      unfolding cap_def by linarith
    have cap0: "0 \<le> cap" using pos(2) by (simp add: cap_def pos_imp_zdiv_nonneg_iff max_int64_def)
    have i: "0 \<le> i" "i \<le> interval" "i \<le> cap" using pos cap0 by (auto simp: i_def)
    then have "i * ppm \<le> max_int64" using pos(2) by (intro order_trans [OF _ cap] mult_right_mono) simp_all
    then have ip: "0 \<le> i * ppm" "in64 (i * ppm)"
      using i(1) pos(2) in64_nonneg_le [of max_int64 "i * ppm"] by (simp_all add: int64_defs)
    define bound where "bound = i * ppm div 1000000"
    have "i * ppm \<le> i * 1000000" using i(1) assms(1) by (rule mult_left_mono [rotated])
    then have bound: "0 \<le> bound" "bound \<le> interval"
      using ip(1) i(2) zdiv_mono1 [of "i * ppm" "i * 1000000" 1000000]
      by (simp_all add: bound_def pos_imp_zdiv_nonneg_iff)
    have mc: "max_int64 sdiv ppm = cap" using pos(2) by (simp add: cap_def max_int64_def)
    have eqb: "wrap64 (i * ppm) sdiv 1000000 = bound" using ip by (simp add: bound_def)
    have J: "J = (if bound \<le> 0 then 0 else raw mod (bound + 1))"
      using pos assms(1) eqb [unfolded i_def]
      by (cases "interval > cap") (simp_all add: J_def DeterministicJitter_def mc raw_def Let_def)
    have "0 \<le> raw mod (bound + 1)" "raw mod (bound + 1) < bound + 1"
      using bound(1) pos_mod_sign [of "bound + 1" raw] pos_mod_bound [of "bound + 1" raw] by simp_all
    then show ?thesis using bound by (simp add: J)
  qed
  then show "0 \<le> DeterministicJitter sha256 ident slot v interval ppm"
    "0 \<le> interval \<Longrightarrow> DeterministicJitter sha256 ident slot v interval ppm \<le> interval"
    by (simp_all add: J_def)
qed

section \<open>Every transition keeps the interval in range\<close>

lemma failed_fields [simp]:
  "CurrentIntervalSeconds (failed s) = CurrentIntervalSeconds s" "CircuitState (failed s) = CircuitState s"
  "RetryAfterUntil (failed s) = RetryAfterUntil s" "NextDueAt (failed s) = NextDueAt s"
  by (simp_all add: failed_def)

lemma recovering_fields:
  "recovering p s c = (s', c') \<Longrightarrow> CircuitState s' = CircuitState s \<and> RetryAfterUntil s' = RetryAfterUntil s
    \<and> (c' = c \<or> c' = stepDown p c)"
  by (auto simp: recovering_def split: if_splits)

text \<open>
  What the switch leaves: the interval in range unless the source said how long to wait, and
  the early return exactly for a wait longer than the longest interval.
\<close>

lemma poll_switch_sound:
  assumes "poll_switch t s c = Some (s', c', early)" "in_range (t_Policy t) c"
    and "0 < BaseIntervalSeconds (t_Policy t)" "BaseIntervalSeconds (t_Policy t) \<le> MaxIntervalSeconds (t_Policy t)"
    and "MaxIntervalSeconds (t_Policy t) \<le> 4611686018" "CircuitState s = CircuitClosed" "RetryAfterUntil s = 0"
  shows "(early \<longrightarrow> CircuitState s' = CircuitManualSuspend \<and> Outcome t = OutcomeRateLimited
      \<and> NextDueAt s' = Now t + RetryAfter t \<and> in_range (t_Policy t) (CurrentIntervalSeconds s')
      \<and> MaxIntervalSeconds (t_Policy t) * nanos_per_second < RetryAfter t)
    \<and> (\<not> early \<longrightarrow> RetryAfterUntil s' = 0 \<and> in_range (t_Policy t) c' \<and> CircuitState s' \<noteq> CircuitManualSuspend
      \<and> (Outcome t = OutcomeRateLimited \<longrightarrow> RetryAfter t \<le> c' * nanos_per_second))"
proof -
  define p where "p = t_Policy t"
  have M: "in64 (MaxIntervalSeconds p)" "in64 (MaxIntervalSeconds p * nanos_per_second)"
    using assms(3-5) by (simp_all add: p_def int64_defs)
  note up = step_ranges [OF assms(2,3) M(1) [unfolded p_def]]
  have wrapM: "wrap64 (MaxIntervalSeconds p * nanos_per_second) = MaxIntervalSeconds p * nanos_per_second"
    using M(2) by simp
  have wrapU: "wrap64 (stepUp p c * nanos_per_second) = stepUp p c * nanos_per_second"
    using up(1) assms(3,5) by (intro wrap64_id) (auto simp: p_def in_range_def int64_defs)
  have ceil: "in_range p (RetryAfter t sdiv nanos_per_second + (if RetryAfter t smod nanos_per_second \<noteq> 0 then 1 else 0))
      \<and> RetryAfter t \<le> (RetryAfter t sdiv nanos_per_second + (if RetryAfter t smod nanos_per_second \<noteq> 0 then 1 else 0)) * nanos_per_second"
    if r: "0 < RetryAfter t" "RetryAfter t \<le> MaxIntervalSeconds p * nanos_per_second" "stepUp p c * nanos_per_second < RetryAfter t"
  proof -
    have u: "BaseIntervalSeconds p \<le> stepUp p c" using up(1) by (simp add: p_def in_range_def)
    define q where "q = RetryAfter t div nanos_per_second"
    define m where "m = RetryAfter t mod nanos_per_second"
    have qm: "RetryAfter t = q * nanos_per_second + m" "0 \<le> m" "m < nanos_per_second"
      by (simp_all add: q_def m_def nanos_per_second_def)
    have "RetryAfter t sdiv nanos_per_second = q" "RetryAfter t smod nanos_per_second = m"
      using r(1) by (simp_all add: q_def m_def nanos_per_second_def)
    then show ?thesis
      using qm r u by (auto simp: in_range_def nanos_per_second_def)
  qed
  show ?thesis
  proof (cases "Outcome t = OutcomeRateLimited")
    case True
    have "0 < stepUp p c" using up(1) assms(3) by (simp add: p_def in_range_def)
    then show ?thesis
      using True assms(1,6,7) up(1) ceil wrapM wrapU
      by (auto simp: poll_switch_def Let_def p_def [symmetric] in_range_def nanos_per_second_def split: if_splits)
  next
    case False
    have "in_range p (MaxIntervalSeconds p)" using assms(4) by (simp add: p_def in_range_def)
    then show ?thesis
      using assms(1,2,6,7) up False
      by (cases "Outcome t") (auto simp: poll_switch_def Let_def p_def [symmetric]
          dest!: recovering_fields split: if_splits prod.splits)
  qed
qed

text \<open>
  The next poll is neither too early nor too late. For every accepted policy whose
  longest interval is at most 4,611,686,018 seconds, whatever the state before and the
  outcome, the new interval lies between the base and the longest interval; unless the
  source is suspended by hand, the next poll is due after at least that interval and at
  most twice it; a source that asked for a wait is never polled before the wait is over,
  and one that asked for more than the longest interval is suspended for exactly that long.
\<close>

theorem NextPollState_bounds:
  assumes "NextPollState sha256 prev t = Inr s" "MaxIntervalSeconds (t_Policy t) \<le> 4611686018"
  shows "BaseIntervalSeconds (t_Policy t) \<le> CurrentIntervalSeconds s
    \<and> CurrentIntervalSeconds s \<le> MaxIntervalSeconds (t_Policy t)
    \<and> (CircuitState s \<noteq> CircuitManualSuspend \<longrightarrow>
        Now t + CurrentIntervalSeconds s * nanos_per_second \<le> NextDueAt s
        \<and> NextDueAt s \<le> Now t + 2 * (CurrentIntervalSeconds s * nanos_per_second))
    \<and> (CircuitState s = CircuitManualSuspend \<longrightarrow> NextDueAt s = Now t + RetryAfter t
        \<and> MaxIntervalSeconds (t_Policy t) * nanos_per_second < RetryAfter t)
    \<and> (Outcome t = OutcomeRateLimited \<longrightarrow> Now t + RetryAfter t \<le> NextDueAt s)"
proof -
  define p where "p = t_Policy t"
  have vp: "validatePoll p = Inr ()" using assms(1) by (auto simp: NextPollState_def p_def result_simps)
  note v = validatePoll_sound [OF vp]
  define s0 where "s0 = prev\<lparr>CircuitState := CircuitClosed, LastOutcomeCode := Outcome t, RetryAfterUntil := 0\<rparr>"
  define c0 where "c0 = clamp_interval p (if CurrentIntervalSeconds prev \<le> 0 then BaseIntervalSeconds p
      else CurrentIntervalSeconds prev)"
  obtain s1 c1 early where sw: "poll_switch t s0 c0 = Some (s1, c1, early)"
    using assms(1) by (auto simp: NextPollState_def result_simps Let_def s0_def c0_def p_def split: option.splits if_splits)
  have "in_range p c0" unfolding c0_def using v by (intro clamp_in_range) simp
  note parts = poll_switch_sound [OF sw this [unfolded p_def]]
  have sound: "(early \<longrightarrow> CircuitState s1 = CircuitManualSuspend \<and> Outcome t = OutcomeRateLimited
      \<and> NextDueAt s1 = Now t + RetryAfter t \<and> in_range p (CurrentIntervalSeconds s1)
      \<and> MaxIntervalSeconds p * nanos_per_second < RetryAfter t)
    \<and> (\<not> early \<longrightarrow> RetryAfterUntil s1 = 0 \<and> in_range p c1 \<and> CircuitState s1 \<noteq> CircuitManualSuspend
      \<and> (Outcome t = OutcomeRateLimited \<longrightarrow> RetryAfter t \<le> c1 * nanos_per_second))"
    using parts v assms(2) by (simp add: p_def s0_def)
  show ?thesis
  proof (cases early)
    case True
    then have "s = s1"
      using assms(1) sw vp by (auto simp: NextPollState_def Let_def s0_def c0_def p_def split: if_splits)
    then show ?thesis using sound True by (simp add: p_def in_range_def)
  next
    case False
    define d where "d = c1 * nanos_per_second"
    have c1: "in_range p c1" using sound False by blast
    then have d: "0 < d" "in64 d" "in64 (2 * d)"
      using v assms(2) by (auto simp: in_range_def d_def p_def int64_defs)
    define j where "j = (if CircuitState s1 = CircuitClosed
        then DeterministicJitter sha256 (Identity t) (Slot t) (t_PolicyVersion t) d (poll_JitterPPM p) else 0)"
    have j: "0 \<le> j" "j \<le> d" using jitter_bounds [OF _ d(2)] v d(1) by (auto simp: j_def)
    then have dj: "wrap64 (d + j) = d + j" using d by (intro wrap64_id in64_between [OF d(2,3)]) simp_all
    have "s = s1\<lparr>CurrentIntervalSeconds := c1, NextDueAt := Now t + (d + j)\<rparr>"
      using assms(1) sw vp False sound clamp_id [OF c1] dj d(2)
      by (auto simp: NextPollState_def Let_def s0_def c0_def p_def j_def d_def split: if_splits)
    then show ?thesis using sound False c1 j by (auto simp: d_def p_def in_range_def mult.commute)
  qed
qed

definition example_poll_policy :: PollPolicy where
  "example_poll_policy = \<lparr>SchedulerTickSeconds = 300, BaseIntervalSeconds = 300, MinIntervalSeconds = 300,
     MaxIntervalSeconds = 3600, UnchangedStepsBeforeSlowdown = 3, SuccessStepsBeforeRecovery = 2,
     poll_JitterPPM = 10000\<rparr>"

definition poll_state :: "int64 \<Rightarrow> PollState" where
  "poll_state c = \<lparr>CurrentIntervalSeconds = c, ConsecutiveSuccess = 0, ConsecutiveUnchanged = 0,
     ConsecutiveFailure = 0, RetryAfterUntil = 0, CircuitState = CircuitClosed, NextDueAt = 0,
     LastOutcomeCode = OutcomeComplete, LastCoverageComplete = False\<rparr>"

definition poll_event :: "PollPolicy \<Rightarrow> outcome_code \<Rightarrow> duration \<Rightarrow> PollTransition" where
  "poll_event p oc wait = \<lparr>Now = 63900000000000000000, Outcome = oc, Changed = False, RetryAfter = wait,
     t_Policy = p, Identity = ''a'', Slot = ''b'', t_PolicyVersion = 1\<rparr>"

theorem NextPollState_bounds_witness:
  "\<exists>s. NextPollState id (poll_state 300) (poll_event example_poll_policy OutcomeRateLimited 900500000000) = Inr s
    \<and> 63900000000000000000 + 900500000000 \<le> NextDueAt s"
proof -
  have "(case NextPollState id (poll_state 300) (poll_event example_poll_policy OutcomeRateLimited 900500000000)
      of Inr _ \<Rightarrow> True | Inl _ \<Rightarrow> False)" by code_simp
  then obtain s where s: "NextPollState id (poll_state 300)
      (poll_event example_poll_policy OutcomeRateLimited 900500000000) = Inr s"
    by (auto split: sum.splits)
  then show ?thesis
    using NextPollState_bounds [OF s] by (simp add: poll_event_def example_poll_policy_def)
qed

section \<open>Recovery\<close>

text \<open>A source that keeps answering with changes is polled at the base interval again.\<close>

fun poll_all :: "(string \<Rightarrow> string) \<Rightarrow> PollState \<Rightarrow> PollTransition list \<Rightarrow> unit + PollState" where
  "poll_all sha256 s [] = Inr s"
| "poll_all sha256 s (t # ts) = rbind (NextPollState sha256 s t) (\<lambda>s. poll_all sha256 s ts)"

lemma success_step:
  assumes "validatePoll p = Inr ()" "in64 (MaxIntervalSeconds p)" "t_Policy t = p" "Now t \<noteq> 0"
    and "Outcome t = OutcomeSuccessChanged" "in_range p (CurrentIntervalSeconds s)" "0 \<le> ConsecutiveSuccess s"
  obtains s' where "NextPollState sha256 s t = Inr s'" "in_range p (CurrentIntervalSeconds s')"
    "0 \<le> ConsecutiveSuccess s'"
    "if SuccessStepsBeforeRecovery p \<le> inc (ConsecutiveSuccess s)
     then ConsecutiveSuccess s' = 0 \<and> CurrentIntervalSeconds s' = stepDown p (CurrentIntervalSeconds s)
     else ConsecutiveSuccess s' = inc (ConsecutiveSuccess s) \<and> CurrentIntervalSeconds s' = CurrentIntervalSeconds s"
proof -
  note v = validatePoll_sound [OF assms(1)]
  have pos: "\<not> CurrentIntervalSeconds s \<le> 0" using assms(6) v by (simp add: in_range_def)
  have b: "0 < BaseIntervalSeconds p" using v by simp
  note down = step_ranges(2) [OF assms(6) b assms(2)]
  define n where "n = inc (ConsecutiveSuccess s)"
  have n: "0 \<le> n" using assms(7) by (simp add: n_def inc_def)
  define go where "go \<longleftrightarrow> SuccessStepsBeforeRecovery p \<le> n"
  define s1 where "s1 = s\<lparr>CircuitState := CircuitClosed, LastOutcomeCode := OutcomeSuccessChanged, RetryAfterUntil := 0,
    ConsecutiveUnchanged := 0, ConsecutiveFailure := 0, ConsecutiveSuccess := (if go then 0 else n),
    LastCoverageComplete := True\<rparr>"
  define c where "c = (if go then stepDown p (CurrentIntervalSeconds s) else CurrentIntervalSeconds s)"
  have c: "in_range p c" using down assms(6) by (simp add: c_def)
  have "poll_switch t (s\<lparr>CircuitState := CircuitClosed, LastOutcomeCode := Outcome t, RetryAfterUntil := 0\<rparr>)
      (CurrentIntervalSeconds s) = Some (s1, c, False)"
    using assms(3,5) by (simp add: poll_switch_def recovering_def s1_def c_def n_def go_def)
  then obtain due where "NextPollState sha256 s t = Inr (s1\<lparr>CurrentIntervalSeconds := c, NextDueAt := due\<rparr>)"
    using assms(1,3,4) pos clamp_id [OF c] clamp_id [OF assms(6)]
    by (simp add: NextPollState_def Let_def)
  then show thesis
    using that [of "s1\<lparr>CurrentIntervalSeconds := c, NextDueAt := due\<rparr>"] c n
    by (simp add: s1_def c_def go_def n_def)
qed

text \<open>How many more successes bring an interval of at most \<open>2 ^ k\<close> base intervals to the base.\<close>

definition successes_left :: "PollPolicy \<Rightarrow> nat \<Rightarrow> int \<Rightarrow> int" where
  "successes_left p k n = (if k = 0 then 0
     else int (k - 1) * SuccessStepsBeforeRecovery p + max 1 (SuccessStepsBeforeRecovery p - n))"

lemma successes_left_step:
  assumes "0 < SuccessStepsBeforeRecovery p" "in64 (SuccessStepsBeforeRecovery p)" "0 \<le> n"
  shows "SuccessStepsBeforeRecovery p \<le> inc n \<Longrightarrow> successes_left p k 0 \<le> successes_left p (Suc k) n - 1"
    and "\<not> SuccessStepsBeforeRecovery p \<le> inc n \<Longrightarrow> successes_left p k (inc n) \<le> max 0 (successes_left p k n - 1)"
proof -
  show "successes_left p k 0 \<le> successes_left p (Suc k) n - 1"
    using assms(1) by (cases k) (auto simp: successes_left_def algebra_simps)
  have "inc n = n + 1" if "inc n < SuccessStepsBeforeRecovery p"
    using that assms(2,3) by (auto simp: inc_def int64_defs split: if_splits)
  then show "\<not> SuccessStepsBeforeRecovery p \<le> inc n \<Longrightarrow> successes_left p k (inc n) \<le> max 0 (successes_left p k n - 1)"
    by (auto simp: successes_left_def)
qed

lemma recovery_steps:
  assumes "validatePoll p = Inr ()" "in64 (MaxIntervalSeconds p)" "in64 (SuccessStepsBeforeRecovery p)"
  shows "\<forall>t \<in> set ts. t_Policy t = p \<and> Now t \<noteq> 0 \<and> Outcome t = OutcomeSuccessChanged \<Longrightarrow>
    in_range p (CurrentIntervalSeconds s) \<Longrightarrow> 0 \<le> ConsecutiveSuccess s \<Longrightarrow>
    CurrentIntervalSeconds s \<le> BaseIntervalSeconds p * 2 ^ k \<Longrightarrow>
    successes_left p k (ConsecutiveSuccess s) \<le> int (length ts) \<Longrightarrow>
    \<exists>s'. poll_all sha256 s ts = Inr s' \<and> CurrentIntervalSeconds s' = BaseIntervalSeconds p"
proof (induction ts arbitrary: s k)
  case Nil
  note v = validatePoll_sound [OF assms(1)]
  have "k = 0"
  proof (rule ccontr)
    assume k: "k \<noteq> 0"
    have "0 \<le> int (k - 1) * SuccessStepsBeforeRecovery p" using v by simp
    then show False using Nil.prems(5) k by (auto simp: successes_left_def)
  qed
  then show ?case using Nil.prems by (simp add: in_range_def)
next
  case (Cons t ts)
  note v = validatePoll_sound [OF assms(1)]
  have S: "0 < SuccessStepsBeforeRecovery p" and b: "0 < BaseIntervalSeconds p" using v by auto
  have t: "t_Policy t = p" "Now t \<noteq> 0" "Outcome t = OutcomeSuccessChanged" using Cons.prems(1) by auto
  obtain s1 where s1: "NextPollState sha256 s t = Inr s1" "in_range p (CurrentIntervalSeconds s1)"
    "0 \<le> ConsecutiveSuccess s1"
    "if SuccessStepsBeforeRecovery p \<le> inc (ConsecutiveSuccess s)
     then ConsecutiveSuccess s1 = 0 \<and> CurrentIntervalSeconds s1 = stepDown p (CurrentIntervalSeconds s)
     else ConsecutiveSuccess s1 = inc (ConsecutiveSuccess s) \<and> CurrentIntervalSeconds s1 = CurrentIntervalSeconds s"
    using success_step [OF assms(1,2) t Cons.prems(2,3), of sha256] by blast
  note left = successes_left_step [OF S assms(3) Cons.prems(3)]
  have down: "stepDown p (CurrentIntervalSeconds s) = max (BaseIntervalSeconds p) (CurrentIntervalSeconds s div 2)"
    by (rule stepDown_eq [OF Cons.prems(2) b])
  have "\<exists>k'. CurrentIntervalSeconds s1 \<le> BaseIntervalSeconds p * 2 ^ k'
      \<and> successes_left p k' (ConsecutiveSuccess s1) \<le> int (length ts)"
  proof (cases "SuccessStepsBeforeRecovery p \<le> inc (ConsecutiveSuccess s)")
    case True
    show ?thesis
    proof (cases k)
      case 0
      then have "CurrentIntervalSeconds s1 \<le> BaseIntervalSeconds p * 2 ^ 0"
        using True s1(4) down Cons.prems(2,4) b by (auto simp: in_range_def)
      then show ?thesis by (intro exI [of _ 0]) (simp add: successes_left_def)
    next
      case (Suc m)
      have "1 \<le> (2::int) ^ m" by simp
      then have "BaseIntervalSeconds p \<le> BaseIntervalSeconds p * 2 ^ m"
        using b mult_left_mono [of 1 "2 ^ m" "BaseIntervalSeconds p"] by simp
      moreover have "CurrentIntervalSeconds s div 2 \<le> BaseIntervalSeconds p * 2 ^ m"
        using Cons.prems(4) zdiv_mono1 [of "CurrentIntervalSeconds s" "2 * (BaseIntervalSeconds p * 2 ^ m)" 2]
        by (simp add: Suc algebra_simps)
      ultimately show ?thesis
        using True s1(4) down left(1) [OF True, of m] Cons.prems(5) Suc
        by (intro exI [of _ m]) simp
    qed
  next
    case False
    then show ?thesis
      using s1(4) left(2) [OF False, of k] Cons.prems(4,5) by (intro exI [of _ k]) auto
  qed
  then obtain k' where k': "CurrentIntervalSeconds s1 \<le> BaseIntervalSeconds p * 2 ^ k'"
    "successes_left p k' (ConsecutiveSuccess s1) \<le> int (length ts)" by blast
  have "\<exists>s'. poll_all sha256 s1 ts = Inr s' \<and> CurrentIntervalSeconds s' = BaseIntervalSeconds p"
    using Cons.prems(1) by (intro Cons.IH [OF _ s1(2,3) k']) simp
  then show ?case using s1(1) by simp
qed

text \<open>
  C38. A source that recovers is polled at full speed again. From any state within the
  bounds of an accepted policy, however far it has backed off, 63 rounds of as many changed
  answers as the policy asks for before a recovery bring the interval back to the base, and
  no transition on the way fails.
\<close>

theorem polling_recovers:
  assumes "validatePoll p = Inr ()" "in64 (MaxIntervalSeconds p)" "in64 (SuccessStepsBeforeRecovery p)"
    and "in_range p (CurrentIntervalSeconds s)" "0 \<le> ConsecutiveSuccess s"
    and "\<forall>t \<in> set ts. t_Policy t = p \<and> Now t \<noteq> 0 \<and> Outcome t = OutcomeSuccessChanged"
    and "63 * SuccessStepsBeforeRecovery p \<le> int (length ts)"
  shows "\<exists>s'. poll_all sha256 s ts = Inr s' \<and> CurrentIntervalSeconds s' = BaseIntervalSeconds p"
proof (rule recovery_steps [OF assms(1,2,3,6,4,5)])
  note v = validatePoll_sound [OF assms(1)]
  have "CurrentIntervalSeconds s \<le> 1 * 2 ^ 63" using assms(2,4) by (simp add: in_range_def int64_defs)
  also have "\<dots> \<le> BaseIntervalSeconds p * 2 ^ 63" using v by (intro mult_right_mono) simp_all
  finally show "CurrentIntervalSeconds s \<le> BaseIntervalSeconds p * 2 ^ 63" .
  show "successes_left p 63 (ConsecutiveSuccess s) \<le> int (length ts)"
    using assms(5,7) v by (auto simp: successes_left_def)
qed

theorem polling_recovers_witness:
  "\<exists>s'. poll_all id (poll_state 3600) (replicate 126 (poll_event example_poll_policy OutcomeSuccessChanged 0)) = Inr s'
    \<and> CurrentIntervalSeconds s' = 300"
  using polling_recovers [of example_poll_policy "poll_state 3600"
      "replicate 126 (poll_event example_poll_policy OutcomeSuccessChanged 0)" id]
  by (simp add: example_poll_policy_def validatePoll_def int64_defs in_range_def poll_state_def poll_event_def)

text \<open>
  Without a bound on the longest interval the delay wraps: an accepted policy whose longest
  interval is 9,300,000,000 seconds makes a suspended source due three centuries ago.
\<close>

lemma long_interval_wraps:
  "\<exists>p s. validatePoll p = Inr () \<and> in64 (MaxIntervalSeconds p)
    \<and> NextPollState id (poll_state 300) (poll_event p OutcomeAuthSuspended 0) = Inr s
    \<and> NextDueAt s < Now (poll_event p OutcomeAuthSuspended 0)"
proof -
  define p where "p = example_poll_policy\<lparr>MaxIntervalSeconds := 9300000000\<rparr>"
  have "(case NextPollState id (poll_state 300) (poll_event (example_poll_policy\<lparr>MaxIntervalSeconds := 9300000000\<rparr>)
      OutcomeAuthSuspended 0) of Inr s \<Rightarrow> NextDueAt s < 63900000000000000000 | Inl _ \<Rightarrow> False)"
    by code_simp
  then obtain s where "NextPollState id (poll_state 300) (poll_event p OutcomeAuthSuspended 0) = Inr s"
    "NextDueAt s < 63900000000000000000"
    by (auto simp: p_def split: sum.splits)
  then show ?thesis
    by (intro exI [of _ p] exI [of _ s])
       (simp add: p_def poll_event_def validatePoll_def example_poll_policy_def int64_defs)
qed

text \<open>
  A complete answer without changes never slows the polling down: the count of unchanged
  answers is reset before it is incremented, so it never exceeds one.
\<close>

lemma complete_never_slows:
  assumes "NextPollState sha256 prev t = Inr s" "Outcome t = OutcomeComplete"
  shows "ConsecutiveUnchanged s \<le> 1"
  using assms
  by (auto simp: NextPollState_def poll_switch_def recovering_def inc_def Let_def result_simps
      split: option.splits if_splits prod.splits)

end
