(* ===== verification/Budget.thy ===== *)
theory Budget
  imports Registry Poll "HOL-Library.List_Lexorder" "HOL-Library.Char_ord"
begin

text \<open>
  The budget of a connector run (\<open>connector/budget\_policy.go\<close>, \<open>connector/budget.go\<close>): the
  inventory of routes, the policy document with its validation and its default, and the guard
  that a run asks before each request and tells about each response and page. The authority
  that reserves cost at the source is a parameter: it grants, refuses with a budget code, or
  fails with another error. Decoding the policy from JSON is left out.
\<close>

section \<open>Codes\<close>

fun code_text :: "outcome_code \<Rightarrow> string" where
  "code_text OutcomeNotDue = ''not_due''"
| "code_text OutcomeSourceBudgetWait = ''source_budget_wait''"
| "code_text OutcomeSourceConcurrencyFull = ''source_concurrency_full''"
| "code_text OutcomeRunRequestLimit = ''run_request_limit''"
| "code_text OutcomeRunPageLimit = ''run_page_limit''"
| "code_text OutcomeRunRowLimit = ''run_row_limit''"
| "code_text OutcomeRunByteLimit = ''run_byte_limit''"
| "code_text OutcomeRunCostLimit = ''run_cost_limit''"
| "code_text OutcomeRunDeadline = ''run_deadline''"
| "code_text OutcomeCursorStalled = ''cursor_stalled''"
| "code_text OutcomeCursorCycle = ''cursor_cycle''"
| "code_text OutcomeResponseTooLarge = ''response_too_large''"
| "code_text OutcomeRateLimited = ''rate_limited''"
| "code_text OutcomeAuthSuspended = ''auth_suspended''"
| "code_text OutcomeNotSupported = ''not_supported''"
| "code_text OutcomeVersionUnsupported = ''version_unsupported''"
| "code_text OutcomeBudgetBackend = ''budget_backend_unavailable''"
| "code_text OutcomePartialBudgetExhausted = ''partial_budget_exhausted''"
| "code_text OutcomeComplete = ''complete''"
| "code_text OutcomeUnavailable = ''unavailable''"
| "code_text OutcomeBadResponse = ''bad_response''"
| "code_text OutcomeSuccessChanged = ''success_changed''"
| "code_text OutcomeSuccessUnchanged = ''success_unchanged''"
| "code_text OutcomePartial = ''partial''"
| "code_text UnknownRoute = ''unknown_route''"
| "code_text InvalidCostUnits = ''invalid_cost_units''"
| "code_text AuthorityDenied = ''authority_denied''"
| "code_text GuardFinished = ''guard_finished''"
| "code_text InvalidPlan = ''invalid_plan''"
| "code_text InvalidObservation = ''invalid_observation''"
| "code_text (OtherCode s) = s"

section \<open>The policy document (budget\_policy.go)\<close>

abbreviation "CostClassProbe \<equiv> ''probe''"
abbreviation "CostClassLight \<equiv> ''light''"
abbreviation "CostClassPage \<equiv> ''page''"
abbreviation "CostClassCountHeavy \<equiv> ''count-heavy''"
abbreviation "CostClassDestructive \<equiv> ''destructive-consume''"
abbreviation "CostClassWrite \<equiv> ''write''"
abbreviation "CursorModeNone \<equiv> ''none''"
abbreviation "CursorModePage \<equiv> ''page''"
abbreviation "CursorModeCursor \<equiv> ''cursor''"
abbreviation "CoveragePolicyComplete \<equiv> ''complete''"
abbreviation "CoveragePolicyPartial \<equiv> ''partial''"

record RouteSpec =
  rs_ConnectorType :: string
  rs_Capability :: string
  rs_RouteID :: string
  rs_Method :: string
  rs_PathTemplate :: string

record RouteCost =
  rc_RouteID :: string
  rc_Method :: string
  rc_PathTemplate :: string
  rc_CostUnits :: int64
  MaxResponseBytes :: int64
  rc_MaxRows :: int64

definition RouteSpec_Validate :: "RouteSpec \<Rightarrow> unit + unit" where
  "RouteSpec_Validate r =
    (if blank (rs_ConnectorType r) \<or> blank (rs_Capability r) \<or> blank (rs_RouteID r) then Inl ()
     else if rs_Method r \<noteq> ''GET'' \<and> rs_Method r \<noteq> ''HEAD'' then Inl ()
     else if \<not> starts_with (rs_PathTemplate r) ''/''
       \<or> contains_any (rs_PathTemplate r) [CHR ''?'', CHR 0x0D, CHR 0x0A, CHR 0x09] then Inl ()
     else Inr ())"

record RetryPolicy =
  MaxAttempts :: int64
  InitialBackoffMS :: int64
  MaxBackoffMS :: int64
  MaxRetryAfterMS :: int64
  rt_JitterPPM :: int
  RetryKinds :: "string list"

record CapabilityBudget =
  cb_ConnectorType :: string
  cb_Capability :: string
  ProviderScopeRule :: string
  CostClass :: string
  MinConnectorVersion :: string
  MaxConnectorVersion :: string
  Routes :: "RouteCost list"
  MaxRequests :: int64
  MaxPages :: int64
  MaxRows :: int64
  MaxBytes :: int64
  MaxCostUnits :: int64
  MaxRunMillis :: int64
  MaxConcurrentSource :: int64
  CursorMode :: string
  SingleFlightKey :: string
  CoveragePolicy :: string
  Disabled :: bool
  cb_Retry :: RetryPolicy
  cb_Poll :: PollPolicy

record BudgetPolicyV1 =
  bp_PolicyVersion :: int
  Capabilities :: "CapabilityBudget list"

abbreviation "spec ct cp rid m pt \<equiv> \<lparr>rs_ConnectorType = ct, rs_Capability = cp, rs_RouteID = rid,
  rs_Method = m, rs_PathTemplate = pt\<rparr>"

definition registeredRouteSpecs :: "RouteSpec list" where
  "registeredRouteSpecs = [
     spec ''sub2api'' ''sub2api.health.read'' ''sub2api.health'' ''GET'' ''/health'',
     spec ''sub2api'' ''sub2api.service.version_read'' ''sub2api.version'' ''GET'' ''/api/v1/admin/system/version'',
     spec ''sub2api'' ''sub2api.users.read'' ''sub2api.dashboard.stats'' ''GET'' ''/api/v1/admin/dashboard/stats'',
     spec ''sub2api'' ''sub2api.users.balance_read'' ''sub2api.users'' ''GET'' ''/api/v1/admin/users'',
     spec ''sub2api'' ''sub2api.orders.read'' ''sub2api.payment.dashboard'' ''GET'' ''/api/v1/admin/payment/dashboard'',
     spec ''sub2api'' ''sub2api.orders.read'' ''sub2api.dashboard.trend'' ''GET'' ''/api/v1/admin/dashboard/trend'',
     spec ''sub2api'' ''sub2api.accounts.read'' ''sub2api.accounts'' ''GET'' ''/api/v1/admin/accounts'',
     spec ''sub2api'' ''sub2api.channels.balance_read'' ''sub2api.channels.balance'' ''GET'' ''/api/v1/admin/accounts'',
     spec ''newapi'' ''newapi.service.version_read'' ''newapi.status.version'' ''GET'' ''/api/status'',
     spec ''newapi'' ''newapi.health.read'' ''newapi.status.health'' ''GET'' ''/api/status'',
     spec ''newapi'' ''newapi.users.read'' ''newapi.users'' ''GET'' ''/api/user/'',
     spec ''newapi'' ''newapi.orders.read'' ''newapi.topups'' ''GET'' ''/api/user/topup'',
     spec ''newapi'' ''newapi.channels.read'' ''newapi.channels'' ''GET'' ''/api/channel/'',
     spec ''newapi'' ''newapi.errors.read'' ''newapi.logs'' ''GET'' ''/api/log/'',
     spec ''newapi'' ''newapi.models.usage_read'' ''newapi.data'' ''GET'' ''/api/data/'',
     spec ''metering'' ''metering.health.read'' ''metering.sub2api.health'' ''GET'' ''/health'',
     spec ''metering'' ''metering.service.version_read'' ''metering.sub2api.version'' ''GET'' ''/api/v1/admin/system/version'',
     spec ''metering'' ''metering.token.usage_read'' ''metering.sub2api.token.usage'' ''GET'' ''/v1/usage'',
     spec ''metering'' ''metering.account.revenue_read'' ''metering.sub2api.account.revenue'' ''GET'' ''/api/v1/admin/accounts/{account_id}/stats'',
     spec ''metering'' ''metering.health.read'' ''metering.newapi.status.health'' ''GET'' ''/api/status'',
     spec ''metering'' ''metering.service.version_read'' ''metering.newapi.status.version'' ''GET'' ''/api/status'',
     spec ''metering'' ''metering.token.usage_read'' ''metering.newapi.token.usage'' ''GET'' ''/api/log/self/stat'']"

text \<open>A Go map filled in order: the last entry of a key wins.\<close>

definition routeSpecMap :: "string \<rightharpoonup> RouteSpec" where
  "routeSpecMap = map_of (rev (map (\<lambda>r. (rs_RouteID r, r)) registeredRouteSpecs))"

definition validateRetry :: "RetryPolicy \<Rightarrow> int64 \<Rightarrow> int64 \<Rightarrow> unit + unit" where
  "validateRetry r maxRequests maxCost =
    (if MaxAttempts r \<le> 0 \<or> MaxAttempts r > maxRequests then Inl ()
     else if InitialBackoffMS r < 0 \<or> MaxBackoffMS r < InitialBackoffMS r \<or> MaxRetryAfterMS r \<le> 0
       \<or> rt_JitterPPM r < 0 \<or> rt_JitterPPM r > 1000000 then Inl ()
     else if MaxAttempts r > maxCost then Inl ()
     else if list_ex (\<lambda>k. k \<notin> set [''unavailable'', ''rate_limited'', ''bad_response'', ''auth'']) (RetryKinds r)
       then Inl ()
     else Inr ())"

text \<open>The loop over the routes of a capability; \<open>seen\<close> are the routes met so far.\<close>

fun validate_routes :: "CapabilityBudget \<Rightarrow> RouteCost list \<Rightarrow> string list \<Rightarrow> unit + string list" where
  "validate_routes cap [] seen = Inr seen"
| "validate_routes cap (r # rs) seen =
    (case routeSpecMap (rc_RouteID r) of None \<Rightarrow> Inl ()
     | Some sp \<Rightarrow>
       if rs_Capability sp \<noteq> cb_Capability cap \<or> rs_ConnectorType sp \<noteq> cb_ConnectorType cap then Inl ()
       else if rc_RouteID r \<in> set seen then Inl ()
       else if rc_Method r \<noteq> rs_Method sp \<or> rc_PathTemplate r \<noteq> rs_PathTemplate sp then Inl ()
       else if rc_Method r \<noteq> ''GET'' \<and> rc_Method r \<noteq> ''HEAD'' then Inl ()
       else if RouteSpec_Validate sp \<noteq> Inr () then Inl ()
       else if rc_CostUnits r \<le> 0 \<or> MaxResponseBytes r \<le> 0 \<or> rc_MaxRows r \<le> 0 then Inl ()
       else if rc_CostUnits r > MaxCostUnits cap \<or> rc_MaxRows r > MaxRows cap \<or> MaxResponseBytes r > MaxBytes cap
         then Inl ()
       else validate_routes cap rs (rc_RouteID r # seen))"

definition validate_caps :: "CapabilityBudget \<Rightarrow> bool" where
  "validate_caps cap \<longleftrightarrow> \<not> (MaxRequests cap \<le> 0 \<or> MaxPages cap \<le> 0 \<or> MaxRows cap \<le> 0 \<or> MaxBytes cap \<le> 0
     \<or> MaxCostUnits cap \<le> 0 \<or> MaxRunMillis cap \<le> 0 \<or> MaxConcurrentSource cap \<le> 0)"

definition validateCapability :: "CapabilityBudget \<Rightarrow> string list \<times> string list \<Rightarrow> unit + (string list \<times> string list)" where
  "validateCapability cap seen =
    (case seen of (seenCaps, seenRoutes) \<Rightarrow>
     if blank (cb_ConnectorType cap) \<or> blank (cb_Capability cap) then Inl ()
     else if cb_ConnectorType cap \<notin> set [''sub2api'', ''newapi'', ''metering''] then Inl ()
     else case ParseCapability (cb_Capability cap) of Inl _ \<Rightarrow> Inl ()
     | Inr _ \<Rightarrow>
       if cb_Capability cap \<in> set seenCaps then Inl ()
       else if blank (ProviderScopeRule cap)
         \<or> contains_any (ProviderScopeRule cap) [CHR 0x0D, CHR 0x0A, CHR 0x09, CHR '' ''] then Inl ()
       else if CostClass cap \<notin> set [CostClassProbe, CostClassLight, CostClassPage, CostClassCountHeavy,
         CostClassDestructive, CostClassWrite] then Inl ()
       else if CostClass cap = CostClassDestructive \<or> CostClass cap = CostClassWrite then Inl ()
       else if blank (MinConnectorVersion cap) \<or> blank (MaxConnectorVersion cap) then Inl ()
       else if IsWrite (cb_Capability cap) then Inl ()
       else if \<not> starts_with (cb_Capability cap) (cb_ConnectorType cap @ ''.'') \<and> cb_ConnectorType cap \<noteq> ''metering''
         then Inl ()
       else if \<not> validate_caps cap then Inl ()
       else if CursorMode cap \<notin> set [CursorModeNone, CursorModePage, CursorModeCursor] then Inl ()
       else if CoveragePolicy cap \<notin> set [CoveragePolicyComplete, CoveragePolicyPartial] then Inl ()
       else if blank (SingleFlightKey cap) then Inl ()
       else rbind (validateRetry (cb_Retry cap) (MaxRequests cap) (MaxCostUnits cap)) (\<lambda>_.
         rbind (validatePoll (cb_Poll cap)) (\<lambda>_.
         if Routes cap = [] \<and> \<not> Disabled cap then Inl ()
         else if Disabled cap then
           (if Routes cap \<noteq> [] then Inl () else Inr (cb_Capability cap # seenCaps, seenRoutes))
         else rbind (validate_routes cap (Routes cap) seenRoutes) (\<lambda>seenRoutes.
           Inr (cb_Capability cap # seenCaps, seenRoutes)))))"

fun validate_capabilities :: "CapabilityBudget list \<Rightarrow> string list \<times> string list \<Rightarrow> unit + (string list \<times> string list)" where
  "validate_capabilities [] seen = Inr seen"
| "validate_capabilities (c # cs) seen = rbind (validateCapability c seen) (validate_capabilities cs)"

definition BudgetPolicyV1_Validate :: "BudgetPolicyV1 \<Rightarrow> unit + unit" where
  "BudgetPolicyV1_Validate p =
    (if bp_PolicyVersion p \<noteq> 1 then Inl ()
     else if Capabilities p = [] then Inl ()
     else rbind (validate_capabilities (Capabilities p) ([], [])) (\<lambda>(_, seenRoutes).
       if list_ex (\<lambda>sp. rs_RouteID sp \<notin> set seenRoutes) registeredRouteSpecs then Inl () else Inr ()))"

definition policy_Capability :: "BudgetPolicyV1 \<Rightarrow> string \<Rightarrow> CapabilityBudget option" where
  "policy_Capability p nm = find (\<lambda>c. cb_Capability c = nm) (Capabilities p)"

section \<open>The default policy\<close>

abbreviation "probeBytes \<equiv> (262144 :: int)"
abbreviation "pageBytes \<equiv> (8388608 :: int)"
abbreviation "wideBytes \<equiv> (67108864 :: int)"

abbreviation "route_cost rid m pt cost bytes rws \<equiv> \<lparr>rc_RouteID = rid, rc_Method = m, rc_PathTemplate = pt,
  rc_CostUnits = cost, MaxResponseBytes = bytes, rc_MaxRows = rws\<rparr>"

definition default_poll :: PollPolicy where
  "default_poll = \<lparr>SchedulerTickSeconds = 300, BaseIntervalSeconds = 300, MinIntervalSeconds = 300,
     MaxIntervalSeconds = 3600, UnchangedStepsBeforeSlowdown = 3, SuccessStepsBeforeRecovery = 2,
     poll_JitterPPM = 10000\<rparr>"

definition minInt64 :: "int64 \<Rightarrow> int64 \<Rightarrow> int64" where "minInt64 a b = (if a < b then a else b)"

definition cap_budget :: "string \<Rightarrow> string \<Rightarrow> string \<Rightarrow> string \<Rightarrow> string \<Rightarrow> string \<Rightarrow> int64 \<Rightarrow> int64 \<Rightarrow> int64 \<Rightarrow> int64 \<Rightarrow> int64 \<Rightarrow>
    RouteCost list \<Rightarrow> CapabilityBudget" where
  "cap_budget ct nm scope cls cursor coverage maxReq maxPages maxRows maxBytes maxCost routes =
    \<lparr>cb_ConnectorType = ct, cb_Capability = nm, ProviderScopeRule = scope, CostClass = cls,
     MinConnectorVersion = ''1'', MaxConnectorVersion = ''1'', Routes = routes, MaxRequests = maxReq,
     MaxPages = maxPages, MaxRows = maxRows, MaxBytes = maxBytes, MaxCostUnits = maxCost,
     MaxRunMillis = 20000, MaxConcurrentSource = 1, CursorMode = cursor,
     SingleFlightKey = ''environment/service_instance/capability/policy'', CoveragePolicy = coverage,
     Disabled = False,
     cb_Retry = \<lparr>MaxAttempts = minInt64 maxReq 3, InitialBackoffMS = 250, MaxBackoffMS = 30000,
       MaxRetryAfterMS = 120000, rt_JitterPPM = 10000, RetryKinds = [''unavailable'', ''rate_limited'']\<rparr>,
     cb_Poll = default_poll\<rparr>"

definition disabled_budget :: "string \<Rightarrow> string \<Rightarrow> CapabilityBudget" where
  "disabled_budget ct nm =
    \<lparr>cb_ConnectorType = ct, cb_Capability = nm, ProviderScopeRule = ct, CostClass = CostClassLight,
     MinConnectorVersion = ''1'', MaxConnectorVersion = ''1'', Routes = [], MaxRequests = 1,
     MaxPages = 1, MaxRows = 1, MaxBytes = probeBytes, MaxCostUnits = 1, MaxRunMillis = 20000,
     MaxConcurrentSource = 1, CursorMode = CursorModeNone,
     SingleFlightKey = ''environment/service_instance/capability/policy'',
     CoveragePolicy = CoveragePolicyPartial, Disabled = True,
     cb_Retry = \<lparr>MaxAttempts = 1, InitialBackoffMS = 250, MaxBackoffMS = 30000,
       MaxRetryAfterMS = 120000, rt_JitterPPM = 10000, RetryKinds = [''unavailable'']\<rparr>,
     cb_Poll = default_poll\<rparr>"

definition DefaultPolicyV1 :: BudgetPolicyV1 where
  "DefaultPolicyV1 = \<lparr>bp_PolicyVersion = 1, Capabilities = [
     cap_budget ''sub2api'' ''sub2api.health.read'' ''sub2api'' CostClassProbe CursorModeNone CoveragePolicyComplete 1 1 1 probeBytes 1
         [route_cost ''sub2api.health'' ''GET'' ''/health'' 1 probeBytes 1],
     cap_budget ''sub2api'' ''sub2api.service.version_read'' ''sub2api'' CostClassProbe CursorModeNone CoveragePolicyComplete 1 1 1 probeBytes 1
         [route_cost ''sub2api.version'' ''GET'' ''/api/v1/admin/system/version'' 1 probeBytes 1],
     cap_budget ''sub2api'' ''sub2api.users.read'' ''sub2api'' CostClassLight CursorModeNone CoveragePolicyComplete 1 1 1 pageBytes 1
         [route_cost ''sub2api.dashboard.stats'' ''GET'' ''/api/v1/admin/dashboard/stats'' 1 pageBytes 1],
     cap_budget ''sub2api'' ''sub2api.users.balance_read'' ''sub2api'' CostClassPage CursorModePage CoveragePolicyPartial 20 20 20000 wideBytes 20
         [route_cost ''sub2api.users'' ''GET'' ''/api/v1/admin/users'' 1 pageBytes 1000],
     cap_budget ''sub2api'' ''sub2api.orders.read'' ''sub2api'' CostClassPage CursorModePage CoveragePolicyPartial 180 90 9000 wideBytes 180
         [route_cost ''sub2api.payment.dashboard'' ''GET'' ''/api/v1/admin/payment/dashboard'' 1 pageBytes 1000, route_cost ''sub2api.dashboard.trend'' ''GET'' ''/api/v1/admin/dashboard/trend'' 1 pageBytes 1000],
     cap_budget ''sub2api'' ''sub2api.accounts.read'' ''sub2api'' CostClassPage CursorModePage CoveragePolicyPartial 10 10 2000 wideBytes 10
         [route_cost ''sub2api.accounts'' ''GET'' ''/api/v1/admin/accounts'' 1 pageBytes 200],
     cap_budget ''sub2api'' ''sub2api.channels.balance_read'' ''sub2api'' CostClassPage CursorModePage CoveragePolicyPartial 10 10 2000 wideBytes 10
         [route_cost ''sub2api.channels.balance'' ''GET'' ''/api/v1/admin/accounts'' 1 pageBytes 200],
     cap_budget ''newapi'' ''newapi.service.version_read'' ''newapi'' CostClassProbe CursorModeNone CoveragePolicyComplete 1 1 1 probeBytes 1
         [route_cost ''newapi.status.version'' ''GET'' ''/api/status'' 1 probeBytes 1],
     cap_budget ''newapi'' ''newapi.health.read'' ''newapi'' CostClassProbe CursorModeNone CoveragePolicyComplete 1 1 1 probeBytes 1
         [route_cost ''newapi.status.health'' ''GET'' ''/api/status'' 1 probeBytes 1],
     cap_budget ''newapi'' ''newapi.users.read'' ''newapi'' CostClassPage CursorModePage CoveragePolicyPartial 50 50 5000 wideBytes 50
         [route_cost ''newapi.users'' ''GET'' ''/api/user/'' 1 pageBytes 100],
     cap_budget ''newapi'' ''newapi.orders.read'' ''newapi'' CostClassPage CursorModePage CoveragePolicyPartial 20 20 2000 wideBytes 40
         [route_cost ''newapi.topups'' ''GET'' ''/api/user/topup'' 2 pageBytes 100],
     cap_budget ''newapi'' ''newapi.channels.read'' ''newapi'' CostClassPage CursorModePage CoveragePolicyPartial 10 10 1000 wideBytes 10
         [route_cost ''newapi.channels'' ''GET'' ''/api/channel/'' 1 pageBytes 100],
     cap_budget ''newapi'' ''newapi.errors.read'' ''newapi'' CostClassCountHeavy CursorModePage CoveragePolicyPartial 80 40 80 wideBytes 160
         [route_cost ''newapi.logs'' ''GET'' ''/api/log/'' 2 pageBytes 1],
     cap_budget ''newapi'' ''newapi.models.usage_read'' ''newapi'' CostClassPage CursorModePage CoveragePolicyPartial 10 10 1000 wideBytes 10
         [route_cost ''newapi.data'' ''GET'' ''/api/data/'' 1 pageBytes 100],
     cap_budget ''metering'' ''metering.health.read'' ''metering'' CostClassProbe CursorModeNone CoveragePolicyComplete 2 2 2 probeBytes 2
         [route_cost ''metering.sub2api.health'' ''GET'' ''/health'' 1 probeBytes 1, route_cost ''metering.newapi.status.health'' ''GET'' ''/api/status'' 1 probeBytes 1],
     cap_budget ''metering'' ''metering.service.version_read'' ''metering'' CostClassProbe CursorModeNone CoveragePolicyComplete 2 2 2 probeBytes 2
         [route_cost ''metering.sub2api.version'' ''GET'' ''/api/v1/admin/system/version'' 1 probeBytes 1, route_cost ''metering.newapi.status.version'' ''GET'' ''/api/status'' 1 probeBytes 1],
     cap_budget ''metering'' ''metering.token.usage_read'' ''metering'' CostClassLight CursorModeNone CoveragePolicyComplete 2 2 2 pageBytes 2
         [route_cost ''metering.sub2api.token.usage'' ''GET'' ''/v1/usage'' 1 pageBytes 1, route_cost ''metering.newapi.token.usage'' ''GET'' ''/api/log/self/stat'' 1 pageBytes 1],
     cap_budget ''metering'' ''metering.account.revenue_read'' ''metering'' CostClassLight CursorModeNone CoveragePolicyComplete 1 1 1 pageBytes 1
         [route_cost ''metering.sub2api.account.revenue'' ''GET'' ''/api/v1/admin/accounts/{account_id}/stats'' 1 pageBytes 1],
     disabled_budget ''sub2api'' ''sub2api.groups.read'',
     disabled_budget ''sub2api'' ''sub2api.models.usage_read'',
     disabled_budget ''metering'' ''metering.upstream.balance_read'']\<rparr>"

end
