(* ===== verification/Guard.thy ===== *)
theory Guard
  imports Budget
begin

text \<open>
  The guard of one connector run (\<open>connector/budget.go\<close>): what it is built from, the four
  operations of a run, and its evidence. The mutex makes every operation one step; the clock
  is an argument, and the authority that reserves cost at the source is a field that grants,
  refuses with a budget code, or fails with some other error.
\<close>

section \<open>Plans and evidence\<close>

record RunPlan =
  rp_Environment :: string
  rp_ServiceID :: string
  ServiceInstanceID :: string
  ProviderScope :: string
  rp_Capability :: string
  rp_PolicyVersion :: int
  CredentialGeneration :: int64
  RunID :: string
  ScheduledSlot :: string

definition RunPlan_validate :: "RunPlan \<Rightarrow> unit + unit" where
  "RunPlan_validate p =
    (if list_ex (\<lambda>v. blank v \<or> contains_any v [CHR 0x0D, CHR 0x0A, CHR 0x09])
       [rp_Environment p, rp_ServiceID p, ServiceInstanceID p, ProviderScope p, rp_Capability p, RunID p]
     then Inl ()
     else if rp_PolicyVersion p \<le> 0 then Inl () else Inr ())"

record RunCounters =
  Requests :: int64
  Pages :: int64
  Rows :: int64
  Bytes :: int64
  rc_Cost :: int64
  Attempts :: int64

record CoverageEvidence =
  Complete :: bool
  Covered :: int64
  Reasons :: "string list"

record RunEvidence =
  ev_Plan :: RunPlan
  Counters :: RunCounters
  OutcomeCode :: string
  Coverage :: CoverageEvidence

section \<open>The guard (budget.go)\<close>

type_synonym authority = "string \<Rightarrow> int64 \<Rightarrow> outcome_code option option"

record BudgetGuard =
  plan :: RunPlan
  budget :: CapabilityBudget
  routes :: "string \<rightharpoonup> RouteCost"
  g_authority :: "authority option"
  deadline :: time
  counters :: RunCounters
  seenCursors :: "string list"
  reasons :: "string list"
  outcome :: string
  finished :: bool
  evidence :: RunEvidence

text \<open>A nil context, or one with its error and its deadline.\<close>

datatype go_ctx = NoCtx | Ctx (ctx_err: bool) (ctx_deadline: "time option")

definition no_counters :: RunCounters where
  "no_counters = \<lparr>Requests = 0, Pages = 0, Rows = 0, Bytes = 0, rc_Cost = 0, Attempts = 0\<rparr>"

definition no_evidence :: "RunPlan \<Rightarrow> RunEvidence" where
  "no_evidence p = \<lparr>ev_Plan = p, Counters = no_counters, OutcomeCode = [],
     Coverage = \<lparr>Complete = False, Covered = 0, Reasons = []\<rparr>\<rparr>"

definition hard_caps :: "CapabilityBudget \<Rightarrow> bool" where
  "hard_caps b \<longleftrightarrow> \<not> (blank (cb_Capability b) \<or> blank (cb_ConnectorType b) \<or> blank (ProviderScopeRule b)
     \<or> MaxRequests b \<le> 0 \<or> MaxPages b \<le> 0 \<or> MaxRows b \<le> 0 \<or> MaxBytes b \<le> 0 \<or> MaxCostUnits b \<le> 0
     \<or> MaxRunMillis b \<le> 0 \<or> MaxAttempts (cb_Retry b) \<le> 0)"

fun guard_routes :: "CapabilityBudget \<Rightarrow> RouteCost list \<Rightarrow> (string \<rightharpoonup> RouteCost) \<Rightarrow> outcome_code + (string \<rightharpoonup> RouteCost)" where
  "guard_routes b [] m = Inr m"
| "guard_routes b (r # rs) m =
    (case routeSpecMap (rc_RouteID r) of None \<Rightarrow> Inl UnknownRoute
     | Some sp \<Rightarrow>
       if rs_Capability sp \<noteq> cb_Capability b \<or> rs_ConnectorType sp \<noteq> cb_ConnectorType b
         \<or> rc_Method r \<noteq> rs_Method sp \<or> rc_PathTemplate r \<noteq> rs_PathTemplate sp then Inl InvalidPlan
       else if rc_CostUnits r \<le> 0 \<or> MaxResponseBytes r \<le> 0 \<or> rc_MaxRows r \<le> 0 then Inl InvalidPlan
       else if m (rc_RouteID r) \<noteq> None then Inl InvalidPlan
       else guard_routes b rs (m(rc_RouteID r \<mapsto> r)))"

definition NewBudgetGuard :: "RunPlan \<Rightarrow> CapabilityBudget \<Rightarrow> authority option \<Rightarrow> time \<Rightarrow> outcome_code + BudgetGuard" where
  "NewBudgetGuard p b auth dl =
    (if RunPlan_validate p \<noteq> Inr () then Inl InvalidPlan
     else if Disabled b then Inl InvalidPlan
     else if \<not> hard_caps b then Inl InvalidPlan
     else rbind (guard_routes b (Routes b) Map.empty) (\<lambda>m.
       if Routes b = [] then Inl InvalidPlan
       else Inr \<lparr>plan = p, budget = b, routes = m, g_authority = auth, deadline = dl,
         counters = no_counters, seenCursors = [], reasons = [], outcome = [], finished = False,
         evidence = no_evidence p\<rparr>))"

definition recordReason :: "outcome_code \<Rightarrow> BudgetGuard \<Rightarrow> BudgetGuard" where
  "recordReason c g = (if blank (code_text c) then g
     else g\<lparr>reasons := List.insert (code_text c) (reasons g)\<rparr>)"

text \<open>A limit that was hit: its reason, the outcome it sets, the error it returns.\<close>

definition stop_with :: "outcome_code \<Rightarrow> outcome_code \<Rightarrow> BudgetGuard \<Rightarrow> BudgetGuard \<times> outcome_code option" where
  "stop_with c e g = ((recordReason c g)\<lparr>outcome := code_text c\<rparr>, Some e)"

definition reserve :: "BudgetGuard \<Rightarrow> string \<Rightarrow> int64 \<Rightarrow> BudgetGuard \<times> outcome_code option" where
  "reserve g routeID costUnits =
    (case g_authority g of None \<Rightarrow> (g, None)
     | Some f \<Rightarrow> (case f routeID costUnits of None \<Rightarrow> (g, None)
         | Some (Some c) \<Rightarrow> (recordReason c g, Some c)
         | Some None \<Rightarrow> (recordReason AuthorityDenied g, Some AuthorityDenied)))"

text \<open>The checked increments at the end of \<open>BeforeRequest\<close>.\<close>

definition count_request :: "int64 \<Rightarrow> BudgetGuard \<Rightarrow> BudgetGuard \<times> outcome_code option" where
  "count_request costUnits g =
    (if Requests (counters g) = max_int64 \<or> Attempts (counters g) = max_int64
     then (g, Some OutcomeRunRequestLimit)
     else (g\<lparr>counters := (counters g)\<lparr>Requests := Requests (counters g) + 1,
       Attempts := Attempts (counters g) + 1, rc_Cost := wrap64 (rc_Cost (counters g) + costUnits)\<rparr>\<rparr>, None))"

definition BeforeRequest :: "BudgetGuard \<Rightarrow> go_ctx \<Rightarrow> time \<Rightarrow> string \<Rightarrow> int64 \<Rightarrow> BudgetGuard \<times> outcome_code option" where
  "BeforeRequest g ctx now routeID costUnits =
    (if finished g then (g, Some GuardFinished)
     else if routes g routeID = None then (g, Some UnknownRoute)
     else if costUnits \<le> 0 then (g, Some InvalidCostUnits)
     else case ctx of NoCtx \<Rightarrow> (g, Some InvalidPlan)
     | Ctx err dl \<Rightarrow>
       if err then (g, Some OutcomeRunDeadline)
       else if deadline g \<noteq> 0 \<and> \<not> now < deadline g then (g, Some OutcomeRunDeadline)
       else if (case dl of None \<Rightarrow> False | Some d \<Rightarrow> \<not> now < d) then (g, Some OutcomeRunDeadline)
       else if Requests (counters g) \<ge> MaxRequests (budget g)
         \<or> Attempts (counters g) \<ge> MaxAttempts (cb_Retry (budget g))
         then (recordReason OutcomeRunRequestLimit g, Some OutcomeRunRequestLimit)
       else if costUnits > wrap64 (MaxCostUnits (budget g) - rc_Cost (counters g))
         then (recordReason OutcomeRunCostLimit g, Some OutcomeRunCostLimit)
       else case reserve g routeID costUnits of
         (g, Some c) \<Rightarrow> (g, Some c)
       | (g, None) \<Rightarrow> count_request costUnits g)"

definition ObserveResponse :: "BudgetGuard \<Rightarrow> string \<Rightarrow> int \<Rightarrow> int64 \<Rightarrow> int64 \<Rightarrow> BudgetGuard \<times> outcome_code option" where
  "ObserveResponse g routeID status bytesRead rows =
    (if finished g then (g, Some GuardFinished)
     else case routes g routeID of None \<Rightarrow> (g, Some UnknownRoute)
     | Some route \<Rightarrow>
       if status < 0 \<or> status > 999 \<or> bytesRead < 0 \<or> rows < 0 then (g, Some InvalidObservation)
       else if bytesRead > MaxResponseBytes route then stop_with OutcomeResponseTooLarge OutcomeRunByteLimit g
       else if rows > rc_MaxRows route then stop_with OutcomeRunRowLimit OutcomeRunRowLimit g
       else if bytesRead > wrap64 (MaxBytes (budget g) - Bytes (counters g))
         then stop_with OutcomeRunByteLimit OutcomeRunByteLimit g
       else if rows > wrap64 (MaxRows (budget g) - Rows (counters g))
         then stop_with OutcomeRunRowLimit OutcomeRunRowLimit g
       else (g\<lparr>counters := (counters g)\<lparr>Bytes := wrap64 (Bytes (counters g) + bytesRead),
         Rows := wrap64 (Rows (counters g) + rows)\<rparr>\<rparr>, None))"

definition count_page :: "int64 \<Rightarrow> BudgetGuard \<Rightarrow> BudgetGuard \<times> outcome_code option" where
  "count_page rows g = (g\<lparr>counters := (counters g)\<lparr>Pages := wrap64 (Pages (counters g) + 1),
     Rows := wrap64 (Rows (counters g) + rows)\<rparr>\<rparr>, None)"

definition ObservePage :: "BudgetGuard \<Rightarrow> string \<Rightarrow> string \<Rightarrow> int64 \<Rightarrow> BudgetGuard \<times> outcome_code option" where
  "ObservePage g cursorIn cursorOut rows =
    (if finished g then (g, Some GuardFinished)
     else if rows < 0 then (g, Some InvalidObservation)
     else if Pages (counters g) \<ge> MaxPages (budget g) then stop_with OutcomeRunPageLimit OutcomeRunPageLimit g
     else if rows > wrap64 (MaxRows (budget g) - Rows (counters g))
       then stop_with OutcomeRunRowLimit OutcomeRunRowLimit g
     else if CursorMode (budget g) = CursorModeCursor \<or> CursorMode (budget g) = CursorModePage then
       let cin = trim_space cursorIn; cout = trim_space cursorOut in
       if cout = [] \<or> cout = cin then stop_with OutcomeCursorStalled OutcomeCursorStalled g
       else if cout \<in> set (seenCursors g) then stop_with OutcomeCursorCycle OutcomeCursorCycle g
       else count_page rows (g\<lparr>seenCursors := cout # seenCursors g\<rparr>)
     else count_page rows g)"

definition finish_outcome :: "BudgetGuard \<Rightarrow> string \<Rightarrow> string" where
  "finish_outcome g asked =
    (let oc = (if blank asked then outcome g else asked);
         oc = (if blank oc then code_text OutcomeComplete else oc) in
     if outcome g \<noteq> [] \<and> oc = code_text OutcomeComplete then outcome g else oc)"

definition Finish :: "BudgetGuard \<Rightarrow> string \<Rightarrow> BudgetGuard \<times> RunEvidence" where
  "Finish g asked =
    (if finished g then (g, evidence g)
     else let oc = finish_outcome g asked;
              ev = \<lparr>ev_Plan = plan g, Counters = counters g, OutcomeCode = oc,
                Coverage = \<lparr>Complete = (oc = code_text OutcomeComplete \<and> reasons g = []),
                  Covered = Pages (counters g), Reasons = sort (reasons g)\<rparr>\<rparr>
       in (g\<lparr>outcome := oc, evidence := ev, finished := True\<rparr>, ev))"

section \<open>A run as a sequence of calls\<close>

datatype guard_call = CallRequest go_ctx time string int64 | CallResponse string int int64 int64
  | CallPage string string int64 | CallFinish string

fun guard_step :: "BudgetGuard \<Rightarrow> guard_call \<Rightarrow> BudgetGuard \<times> outcome_code option" where
  "guard_step g (CallRequest ctx now r c) = BeforeRequest g ctx now r c"
| "guard_step g (CallResponse r st b n) = ObserveResponse g r st b n"
| "guard_step g (CallPage i out n) = ObservePage g i out n"
| "guard_step g (CallFinish oc) = (fst (Finish g oc), None)"

fun guard_run :: "BudgetGuard \<Rightarrow> guard_call list \<Rightarrow> BudgetGuard \<times> outcome_code list" where
  "guard_run g [] = (g, [])"
| "guard_run g (c # cs) =
    (case guard_step g c of (g1, e) \<Rightarrow> case guard_run g1 cs of (g2, es) \<Rightarrow>
      (g2, (case e of None \<Rightarrow> es | Some x \<Rightarrow> x # es)))"

section \<open>The caps hold in every run\<close>

text \<open>The caps are 64-bit integers in the code.\<close>

definition budget_in64 :: "CapabilityBudget \<Rightarrow> bool" where
  "budget_in64 b \<longleftrightarrow> in64 (MaxRequests b) \<and> in64 (MaxPages b) \<and> in64 (MaxRows b) \<and> in64 (MaxBytes b)
     \<and> in64 (MaxCostUnits b) \<and> in64 (MaxAttempts (cb_Retry b))"

definition cursor_mode :: "CapabilityBudget \<Rightarrow> bool" where
  "cursor_mode b \<longleftrightarrow> CursorMode b = CursorModeCursor \<or> CursorMode b = CursorModePage"

definition caps_ok :: "CapabilityBudget \<Rightarrow> BudgetGuard \<Rightarrow> bool" where
  "caps_ok b g \<longleftrightarrow> budget g = b
     \<and> 0 \<le> Requests (counters g) \<and> Requests (counters g) \<le> MaxRequests b
     \<and> Attempts (counters g) = Requests (counters g) \<and> Requests (counters g) \<le> MaxAttempts (cb_Retry b)
     \<and> 0 \<le> rc_Cost (counters g) \<and> rc_Cost (counters g) \<le> MaxCostUnits b
     \<and> 0 \<le> Pages (counters g) \<and> Pages (counters g) \<le> MaxPages b
     \<and> 0 \<le> Rows (counters g) \<and> Rows (counters g) \<le> MaxRows b
     \<and> 0 \<le> Bytes (counters g) \<and> Bytes (counters g) \<le> MaxBytes b
     \<and> distinct (seenCursors g) \<and> (cursor_mode b \<longrightarrow> int (length (seenCursors g)) = Pages (counters g))"

lemma recordReason_fields [simp]:
  "budget (recordReason c g) = budget g" "counters (recordReason c g) = counters g"
  "seenCursors (recordReason c g) = seenCursors g" "finished (recordReason c g) = finished g"
  "evidence (recordReason c g) = evidence g" "routes (recordReason c g) = routes g"
  by (simp_all add: recordReason_def)

lemma caps_ok_recordReason [simp]: "caps_ok b (recordReason c g) = caps_ok b g"
  by (simp add: caps_ok_def)

lemma caps_ok_cong:
  "budget g' = budget g \<Longrightarrow> counters g' = counters g \<Longrightarrow> seenCursors g' = seenCursors g \<Longrightarrow> caps_ok b g' = caps_ok b g"
  by (simp add: caps_ok_def)

lemma caps_ok_stop: "stop_with c e g = (g', r) \<Longrightarrow> caps_ok b g \<Longrightarrow> caps_ok b g'"
  by (auto simp: stop_with_def caps_ok_def)

lemma caps_ok_fst_stop [simp]: "caps_ok b (fst (stop_with c e g)) = caps_ok b g"
  by (simp add: stop_with_def caps_ok_def)

lemma reserve_cases: "reserve g r c = (g', e) \<Longrightarrow> g' = g \<or> (\<exists>k. g' = recordReason k g)"
  by (auto simp: reserve_def split: option.splits)

lemma rest_exact: "in64 m \<Longrightarrow> 0 \<le> c \<Longrightarrow> c \<le> m \<Longrightarrow> wrap64 (m - c) = m - c"
  by (intro wrap64_id) (simp add: int64_defs)

lemma sum_exact: "in64 m \<Longrightarrow> 0 \<le> c \<Longrightarrow> 0 \<le> x \<Longrightarrow> x \<le> m - c \<Longrightarrow> wrap64 (c + x) = c + x"
  by (intro wrap64_id) (simp add: int64_defs)

lemma count_request_caps_ok:
  assumes "count_request u g = (g', e)" "caps_ok b g" "budget_in64 b" "0 < u"
    and "u \<le> MaxCostUnits b - rc_Cost (counters g)"
    and "Requests (counters g) < MaxRequests b" "Requests (counters g) < MaxAttempts (cb_Retry b)"
  shows "caps_ok b g'"
proof -
  have "wrap64 (rc_Cost (counters g) + u) = rc_Cost (counters g) + u"
    using assms(2-5) by (intro sum_exact [of "MaxCostUnits b"]) (auto simp: caps_ok_def budget_in64_def)
  then show ?thesis using assms by (auto simp: count_request_def caps_ok_def split: if_splits)
qed

lemma BeforeRequest_caps_ok:
  assumes "BeforeRequest g ctx now r u = (g', e)" "caps_ok b g" "budget_in64 b"
  shows "caps_ok b g'"
proof -
  have sub: "wrap64 (MaxCostUnits b - rc_Cost (counters g)) = MaxCostUnits b - rc_Cost (counters g)"
    using assms(2,3) by (intro rest_exact) (auto simp: caps_ok_def budget_in64_def)
  have b: "budget g = b" using assms(2) by (simp add: caps_ok_def)
  have run: "caps_ok b g'"
    if "reserve g r u = (g1, None)" "count_request u g1 = (g', e)" "0 < u"
      "u \<le> MaxCostUnits b - rc_Cost (counters g)"
      "Requests (counters g) < MaxRequests b" "Attempts (counters g) < MaxAttempts (cb_Retry b)" for g1
  proof -
    have "caps_ok b g1 \<and> counters g1 = counters g"
      using reserve_cases [OF that(1)] assms(2) by auto
    then show ?thesis
      using count_request_caps_ok [OF that(2) _ assms(3) that(3)] that assms(2) by (simp add: caps_ok_def)
  qed
  show ?thesis
    using assms(1,2) run sub b
    by (auto simp: BeforeRequest_def not_le split: if_splits go_ctx.splits prod.splits option.splits
        dest!: reserve_cases)
qed

lemma counted_response:
  assumes "caps_ok b g" "budget_in64 b" "0 \<le> n" "0 \<le> k"
    and "n \<le> wrap64 (MaxBytes (budget g) - Bytes (counters g))" "k \<le> wrap64 (MaxRows (budget g) - Rows (counters g))"
  shows "caps_ok b (g\<lparr>counters := (counters g)\<lparr>Bytes := wrap64 (Bytes (counters g) + n), Rows := wrap64 (Rows (counters g) + k)\<rparr>\<rparr>)"
proof -
  have sub: "wrap64 (MaxBytes b - Bytes (counters g)) = MaxBytes b - Bytes (counters g)"
    "wrap64 (MaxRows b - Rows (counters g)) = MaxRows b - Rows (counters g)"
    using assms(1,2) by (auto simp: caps_ok_def budget_in64_def intro!: rest_exact)
  have b: "budget g = b" using assms(1) by (simp add: caps_ok_def)
  have "wrap64 (Bytes (counters g) + n) = Bytes (counters g) + n"
    by (rule sum_exact [of "MaxBytes b"]) (use assms sub b in \<open>simp_all add: caps_ok_def budget_in64_def\<close>)
  moreover have "wrap64 (Rows (counters g) + k) = Rows (counters g) + k"
    by (rule sum_exact [of "MaxRows b"]) (use assms sub b in \<open>simp_all add: caps_ok_def budget_in64_def\<close>)
  ultimately show ?thesis using assms sub b by (simp add: caps_ok_def)
qed

lemma ObserveResponse_caps_ok:
  assumes "caps_ok b g" "budget_in64 b"
  shows "caps_ok b (fst (ObserveResponse g r st n k))"
  using assms(1) counted_response [OF assms, of n k]
  by (simp add: ObserveResponse_def split: option.split)

lemma counted_page:
  assumes "caps_ok b g" "budget_in64 b" "0 \<le> k" "k \<le> wrap64 (MaxRows (budget g) - Rows (counters g))"
    and "\<not> MaxPages (budget g) \<le> Pages (counters g)"
    and "cs = seenCursors g \<and> \<not> cursor_mode b \<or> (\<exists>x. x \<notin> set (seenCursors g) \<and> cs = x # seenCursors g)"
  shows "caps_ok b (fst (count_page k (g\<lparr>seenCursors := cs\<rparr>)))"
proof -
  have sub: "wrap64 (MaxRows b - Rows (counters g)) = MaxRows b - Rows (counters g)"
    using assms(1,2) by (auto simp: caps_ok_def budget_in64_def intro!: rest_exact)
  have b: "budget g = b" using assms(1) by (simp add: caps_ok_def)
  have "wrap64 (Pages (counters g) + 1) = Pages (counters g) + 1"
    by (rule sum_exact [of "MaxPages b"]) (use assms b in \<open>simp_all add: caps_ok_def budget_in64_def\<close>)
  moreover have "wrap64 (Rows (counters g) + k) = Rows (counters g) + k"
    by (rule sum_exact [of "MaxRows b"]) (use assms sub b in \<open>simp_all add: caps_ok_def budget_in64_def\<close>)
  ultimately show ?thesis using assms sub b by (auto simp: count_page_def caps_ok_def)
qed

lemma ObservePage_caps_ok:
  assumes "caps_ok b g" "budget_in64 b"
  shows "caps_ok b (fst (ObservePage g i out k))"
proof -
  have b: "budget g = b" using assms(1) by (simp add: caps_ok_def)
  have plain: "caps_ok b (fst (count_page k g))"
    if "0 \<le> k" "k \<le> wrap64 (MaxRows (budget g) - Rows (counters g))" "\<not> MaxPages (budget g) \<le> Pages (counters g)"
      "\<not> cursor_mode b"
    using counted_page [OF assms that(1-3), of "seenCursors g"] that(4) by simp
  show ?thesis
    using assms(1) plain counted_page [OF assms, of k]
    by (simp add: ObservePage_def Let_def cursor_mode_def b)
qed

lemma guard_step_caps_ok:
  assumes "guard_step g c = (g', e)" "caps_ok b g" "budget_in64 b"
  shows "caps_ok b g'"
proof (cases c)
  case (CallRequest ctx now r u)
  then show ?thesis using assms BeforeRequest_caps_ok by auto
next
  case (CallResponse r st n k)
  then show ?thesis using assms(1) ObserveResponse_caps_ok [OF assms(2,3), of r st n k] by auto
next
  case (CallPage i out k)
  then show ?thesis using assms(1) ObservePage_caps_ok [OF assms(2,3), of i out k] by auto
next
  case (CallFinish oc)
  then show ?thesis using assms(1,2) by (auto simp: Finish_def Let_def caps_ok_def)
qed

lemma guard_run_caps_ok:
  "guard_run g cs = (g', es) \<Longrightarrow> caps_ok b g \<Longrightarrow> budget_in64 b \<Longrightarrow> caps_ok b g'"
  by (induction cs arbitrary: g es) (auto split: prod.splits dest: guard_step_caps_ok)

lemma NewBudgetGuard_start:
  assumes "NewBudgetGuard p b auth dl = Inr g"
  shows "caps_ok b g" "reasons g = []" "\<not> finished g" "\<not> Disabled b" "0 < MaxRequests b"
proof -
  have "hard_caps b" "\<not> Disabled b" and g: "\<exists>m. g = \<lparr>plan = p, budget = b, routes = m, g_authority = auth,
      deadline = dl, counters = no_counters, seenCursors = [], reasons = [], outcome = [], finished = False,
      evidence = no_evidence p\<rparr>"
    using assms by (auto simp: NewBudgetGuard_def result_simps split: if_splits)
  then show "caps_ok b g" "reasons g = []" "\<not> finished g" "\<not> Disabled b" "0 < MaxRequests b"
    by (auto simp: caps_ok_def no_counters_def hard_caps_def)
qed


section \<open>Evidence is honest\<close>

text \<open>The refusals that mean the run did not see everything.\<close>

definition limits :: "outcome_code list" where
  "limits = [OutcomeRunRequestLimit, OutcomeRunPageLimit, OutcomeRunRowLimit, OutcomeRunByteLimit,
     OutcomeRunCostLimit, OutcomeCursorStalled, OutcomeCursorCycle, AuthorityDenied]"

lemma limits_text: "c \<in> set limits \<Longrightarrow> \<not> blank (code_text c)"
proof -
  have "list_all (\<lambda>c. \<not> blank (code_text c)) limits" by code_simp
  then show "c \<in> set limits \<Longrightarrow> \<not> blank (code_text c)" by (simp add: list_all_iff)
qed

lemma too_large_text: "\<not> blank (code_text OutcomeResponseTooLarge)"
  by code_simp

lemma recordReason_reasons: "\<not> blank (code_text c) \<Longrightarrow> reasons (recordReason c g) \<noteq> []"
  by (auto simp: recordReason_def List.insert_def)

lemma recordReason_keeps: "reasons g \<noteq> [] \<Longrightarrow> reasons (recordReason c g) \<noteq> []"
  by (auto simp: recordReason_def List.insert_def)

lemma stop_with_reasons:
  "\<not> blank (code_text c) \<Longrightarrow> reasons (fst (stop_with c e g)) \<noteq> []"
  "reasons g \<noteq> [] \<Longrightarrow> reasons (fst (stop_with c e g)) \<noteq> []"
  "finished (fst (stop_with c e g)) = finished g" "evidence (fst (stop_with c e g)) = evidence g"
  by (simp_all add: stop_with_def recordReason_reasons recordReason_keeps)

text \<open>A refusal by a limit is remembered, and nothing that was remembered is forgotten.\<close>

definition remembers :: "BudgetGuard \<Rightarrow> BudgetGuard \<times> outcome_code option \<Rightarrow> bool" where
  "remembers g r \<longleftrightarrow> (reasons g \<noteq> [] \<longrightarrow> reasons (fst r) \<noteq> [])
     \<and> (\<not> finished g \<longrightarrow> \<not> finished (fst r) \<and> (\<forall>c \<in> set limits. snd r = Some c \<longrightarrow> reasons (fst r) \<noteq> []))
     \<and> (finished g \<longrightarrow> fst r = g \<and> snd r = Some GuardFinished)"

lemma remembers_same: "\<not> finished g \<Longrightarrow> e \<notin> Some ` set limits \<Longrightarrow> remembers g (g, e)"
  by (auto simp: remembers_def)

lemma remembers_stop: "\<not> finished g \<Longrightarrow> \<not> blank (code_text c) \<Longrightarrow> remembers g (stop_with c e g)"
  by (simp add: remembers_def stop_with_reasons)

lemma remembers_limit: "\<not> finished g \<Longrightarrow> c \<in> set limits \<Longrightarrow> remembers g (stop_with c e g)"
  by (rule remembers_stop [OF _ limits_text])

lemma remembers_too_large: "\<not> finished g \<Longrightarrow> remembers g (stop_with OutcomeResponseTooLarge e g)"
  by (rule remembers_stop [OF _ too_large_text])

lemma recordReason_limit: "c \<in> set limits \<Longrightarrow> reasons (recordReason c g) \<noteq> []"
  by (rule recordReason_reasons [OF limits_text])

lemma remembers_counted: "\<not> finished g \<Longrightarrow> remembers g (g\<lparr>counters := x\<rparr>, None)"
  by (auto simp: remembers_def)

lemma limits_members [simp]:
  "OutcomeRunRequestLimit \<in> set limits" "OutcomeRunCostLimit \<in> set limits" "AuthorityDenied \<in> set limits"
  "OutcomeRunPageLimit \<in> set limits" "OutcomeRunRowLimit \<in> set limits" "OutcomeRunByteLimit \<in> set limits"
  "OutcomeCursorStalled \<in> set limits" "OutcomeCursorCycle \<in> set limits"
  "GuardFinished \<notin> set limits" "UnknownRoute \<notin> set limits" "InvalidObservation \<notin> set limits"
  "InvalidCostUnits \<notin> set limits" "InvalidPlan \<notin> set limits" "OutcomeRunDeadline \<notin> set limits"
  by (simp_all add: limits_def)

lemma ObserveResponse_remembers: "remembers g (ObserveResponse g r st n k)"
proof (cases "finished g")
  case True
  then show ?thesis by (simp add: ObserveResponse_def remembers_def)
next
  case False
  then show ?thesis
    by (simp add: ObserveResponse_def remembers_same remembers_limit remembers_too_large
        remembers_counted image_iff split: option.split)
qed

lemma ObservePage_remembers: "remembers g (ObservePage g i out k)"
proof (cases "finished g")
  case True
  then show ?thesis by (simp add: ObservePage_def remembers_def)
next
  case False
  then have "remembers g (count_page k (g\<lparr>seenCursors := cs\<rparr>))" "remembers g (count_page k g)" for cs
    by (auto simp: count_page_def remembers_def)
  then show ?thesis
    using False by (simp add: ObservePage_def Let_def remembers_same remembers_limit image_iff)
qed

lemma reserve_remembers:
  assumes "\<not> finished g" "reserve g r u = (g1, e)"
  shows "remembers g (g1, e) \<and> (e = None \<longrightarrow> g1 = g)"
proof -
  have k: "remembers g (recordReason c g, Some c)" for c
    using assms(1) by (simp add: remembers_def recordReason_keeps recordReason_limit)
  have "remembers g (g, None)" using assms(1) by (auto simp: remembers_def)
  then show ?thesis
    using assms(2) k by (auto simp: reserve_def split: option.splits)
qed

lemma BeforeRequest_remembers:
  assumes "caps_ok b g" "budget_in64 b"
  shows "remembers g (BeforeRequest g ctx now r u)"
proof (cases "finished g")
  case True
  then show ?thesis by (simp add: BeforeRequest_def remembers_def)
next
  case False
  have k: "remembers g (recordReason c g, Some c)" if "c \<in> set limits" for c
    using False by (simp add: remembers_def recordReason_keeps recordReason_limit)
  have count: "remembers g (count_request u g)"
    if "\<not> (MaxRequests (budget g) \<le> Requests (counters g) \<or> MaxAttempts (cb_Retry (budget g)) \<le> Attempts (counters g))"
  proof -
    have "Requests (counters g) \<noteq> max_int64 \<and> Attempts (counters g) \<noteq> max_int64"
      using that assms by (auto simp: caps_ok_def budget_in64_def int64_defs)
    then show ?thesis using False by (auto simp: count_request_def remembers_def)
  qed
  obtain g1 e where res: "reserve g r u = (g1, e)" by fastforce
  note rr = reserve_remembers [OF False res]
  have "remembers g (case (g1, e) of (g, Some c) \<Rightarrow> (g, Some c) | (g, None) \<Rightarrow> count_request u g)"
    if "\<not> (MaxRequests (budget g) \<le> Requests (counters g) \<or> MaxAttempts (cb_Retry (budget g)) \<le> Attempts (counters g))"
    using rr count [OF that] by (cases e) auto
  then show ?thesis
    using False k res
    by (cases ctx) (simp_all add: BeforeRequest_def remembers_same image_iff)
qed

text \<open>Evidence that calls itself complete was taken with no reason on record.\<close>

definition honest :: "BudgetGuard \<Rightarrow> bool" where
  "honest g \<longleftrightarrow> (finished g \<longrightarrow> Complete (Coverage (evidence g)) \<longrightarrow>
     reasons g = [] \<and> Reasons (Coverage (evidence g)) = [])"

lemma Finish_honest: "honest g \<Longrightarrow> honest (fst (Finish g oc)) \<and> finished (fst (Finish g oc))
    \<and> snd (Finish g oc) = evidence (fst (Finish g oc)) \<and> reasons (fst (Finish g oc)) = reasons g"
  by (simp add: honest_def Finish_def Let_def)

lemma remembers_honest: "remembers g (g1, e) \<Longrightarrow> honest g \<Longrightarrow> honest g1"
  by (auto simp: remembers_def honest_def)

lemma guard_step_memory:
  assumes "guard_step g c = (g1, e)" "caps_ok b g" "budget_in64 b" "honest g"
  shows "honest g1" "reasons g \<noteq> [] \<Longrightarrow> reasons g1 \<noteq> []" "e = Some x \<Longrightarrow> x \<in> set limits \<Longrightarrow> reasons g1 \<noteq> []"
proof -
  have "honest g1 \<and> (reasons g \<noteq> [] \<longrightarrow> reasons g1 \<noteq> []) \<and> (\<forall>x \<in> set limits. e = Some x \<longrightarrow> reasons g1 \<noteq> [])"
  proof (cases "\<exists>oc. c = CallFinish oc")
    case True
    then show ?thesis using assms(1) Finish_honest [OF assms(4)] by auto
  next
    case False
    then have "remembers g (g1, e)"
      using assms(1) BeforeRequest_remembers [OF assms(2,3)] ObserveResponse_remembers ObservePage_remembers
      by (cases c) (simp_all, metis+)
    moreover from this have "honest g1" by (rule remembers_honest [OF _ assms(4)])
    ultimately show ?thesis by (auto simp: remembers_def)
  qed
  then show "honest g1" "reasons g \<noteq> [] \<Longrightarrow> reasons g1 \<noteq> []"
    "e = Some x \<Longrightarrow> x \<in> set limits \<Longrightarrow> reasons g1 \<noteq> []" by blast+
qed

lemma guard_run_memory:
  assumes "budget_in64 b"
  shows "guard_run g cs = (g', es) \<Longrightarrow> caps_ok b g \<Longrightarrow> honest g \<Longrightarrow>
    honest g' \<and> (reasons g \<noteq> [] \<or> (\<exists>x \<in> set es. x \<in> set limits) \<longrightarrow> reasons g' \<noteq> [])"
proof (induction cs arbitrary: g es)
  case (Cons c cs)
  obtain g1 e where st: "guard_step g c = (g1, e)" by fastforce
  obtain es1 where run: "guard_run g1 cs = (g', es1)" and es: "es = (case e of None \<Rightarrow> es1 | Some x \<Rightarrow> x # es1)"
    using Cons.prems(1) st by (auto split: prod.splits)
  note mem = guard_step_memory [OF st Cons.prems(2) assms Cons.prems(3)]
  have "honest g' \<and> (reasons g1 \<noteq> [] \<or> (\<exists>x \<in> set es1. x \<in> set limits) \<longrightarrow> reasons g' \<noteq> [])"
    by (rule Cons.IH [OF run guard_step_caps_ok [OF st Cons.prems(2) assms] mem(1)])
  then show ?case using mem(2,3) es by (cases e) auto
qed simp


section \<open>The default policy\<close>

lemma default_policy_valid: "BudgetPolicyV1_Validate DefaultPolicyV1 = Inr ()"
  by code_simp

lemma validate_routes_guard:
  "validate_routes b rs seen = Inr seen' \<Longrightarrow> (\<forall>k. m k \<noteq> None \<longrightarrow> k \<in> set seen) \<Longrightarrow> \<exists>m'. guard_routes b rs m = Inr m'"
proof (induction b rs seen arbitrary: m rule: validate_routes.induct)
  case (2 cap r rs seen)
  obtain sp where sp: "routeSpecMap (rc_RouteID r) = Some sp"
    using "2.prems"(1) by (auto split: option.splits)
  have c: "rs_Capability sp = cb_Capability cap" "rs_ConnectorType sp = cb_ConnectorType cap"
    "rc_Method r = rs_Method sp" "rc_PathTemplate r = rs_PathTemplate sp"
    "0 < rc_CostUnits r" "0 < MaxResponseBytes r" "0 < rc_MaxRows r" "rc_RouteID r \<notin> set seen"
    and rest: "validate_routes cap rs (rc_RouteID r # seen) = Inr seen'"
    and more: "rc_Method r = ''GET'' \<or> rc_Method r = ''HEAD''" "RouteSpec_Validate sp = Inr ()"
      "\<not> (rc_CostUnits r > MaxCostUnits cap \<or> rc_MaxRows r > MaxRows cap \<or> MaxResponseBytes r > MaxBytes cap)"
    using "2.prems"(1) sp by (simp_all only: validate_routes.simps option.case split: if_splits) auto
  have "m (rc_RouteID r) = None" using "2.prems"(2) c(8) by blast
  moreover have "\<exists>m'. guard_routes cap rs (m(rc_RouteID r \<mapsto> r)) = Inr m'"
    using "2.prems"(2) sp c rest more by (intro "2.IH") auto
  ultimately show ?case using sp c by simp
qed simp

lemma validate_routes_seen:
  "validate_routes cap rs seen = Inr seen' \<Longrightarrow> seen' = rev (map rc_RouteID rs) @ seen"
  by (induction cap rs seen rule: validate_routes.induct) (auto split: option.splits if_splits)

text \<open>What the long chain of checks leaves for a capability that is enabled.\<close>

lemma validateCapability_sound:
  assumes "validateCapability cap seen = Inr seen'"
  shows "snd seen' = (if Disabled cap then snd seen else rev (map rc_RouteID (Routes cap)) @ snd seen)"
    and "\<not> Disabled cap \<Longrightarrow> hard_caps cap \<and> Routes cap \<noteq> [] \<and> (\<exists>m. guard_routes cap (Routes cap) Map.empty = Inr m)"
proof -
  obtain seenCaps seenRoutes where seen: "seen = (seenCaps, seenRoutes)" by (cases seen)
  obtain cc where cc: "ParseCapability (cb_Capability cap) = Inr cc"
    using assms by (cases "ParseCapability (cb_Capability cap)")
      (simp_all only: validateCapability_def seen prod.case sum.case split: if_splits, simp_all)
  note checks = assms [unfolded validateCapability_def seen prod.case cc sum.case if_Inl_eq_Inr rbind_eq_Inr]
  have basic: "\<not> blank (cb_ConnectorType cap)" "\<not> blank (cb_Capability cap)" "\<not> blank (ProviderScopeRule cap)"
    "validate_caps cap" "validateRetry (cb_Retry cap) (MaxRequests cap) (MaxCostUnits cap) = Inr ()"
    using checks by (blast, blast, blast, blast, auto)
  have tail: "(if Disabled cap then (if Routes cap \<noteq> [] then Inl () else Inr (cb_Capability cap # seenCaps, seenRoutes))
      else rbind (validate_routes cap (Routes cap) seenRoutes) (\<lambda>seenRoutes.
        Inr (cb_Capability cap # seenCaps, seenRoutes))) = Inr seen'"
    and some: "\<not> (Routes cap = [] \<and> \<not> Disabled cap)"
    using checks by blast+
  show "snd seen' = (if Disabled cap then snd seen else rev (map rc_RouteID (Routes cap)) @ snd seen)"
    using tail seen by (auto simp: result_simps dest: validate_routes_seen split: if_splits)
  assume on: "\<not> Disabled cap"
  then obtain seen2 where r: "validate_routes cap (Routes cap) seenRoutes = Inr seen2"
    using tail by (auto simp: result_simps)
  have "\<exists>m. guard_routes cap (Routes cap) Map.empty = Inr m" by (rule validate_routes_guard [OF r]) simp
  moreover have "0 < MaxAttempts (cb_Retry cap)" using basic(5) by (auto simp: validateRetry_def split: if_splits)
  ultimately show "hard_caps cap \<and> Routes cap \<noteq> [] \<and> (\<exists>m. guard_routes cap (Routes cap) Map.empty = Inr m)"
    using basic(1-4) some on by (auto simp: hard_caps_def validate_caps_def)
qed

lemma validate_capabilities_sound:
  "validate_capabilities cs seen = Inr seen' \<Longrightarrow>
    (\<forall>rid \<in> set (snd seen'). rid \<in> set (snd seen) \<or>
       (\<exists>cap \<in> set cs. \<not> Disabled cap \<and> rid \<in> set (map rc_RouteID (Routes cap))))
    \<and> (\<forall>cap \<in> set cs. \<exists>s s'. validateCapability cap s = Inr s')"
proof (induction cs arbitrary: seen)
  case (Cons c cs)
  obtain mid where m: "validateCapability c seen = Inr mid" "validate_capabilities cs mid = Inr seen'"
    using Cons.prems by (auto simp: result_simps)
  note ih = Cons.IH [OF m(2)]
  have new: "rid \<in> set (snd mid) \<Longrightarrow> rid \<in> set (snd seen) \<or> \<not> Disabled c \<and> rid \<in> set (map rc_RouteID (Routes c))" for rid
    using validateCapability_sound(1) [OF m(1)] by (cases "Disabled c") auto
  have "rid \<in> set (snd seen) \<or> (\<exists>cap \<in> set (c # cs). \<not> Disabled cap \<and> rid \<in> set (map rc_RouteID (Routes cap)))"
    if "rid \<in> set (snd seen')" for rid
    using conjunct1 [OF ih] new [of rid] that unfolding list.set bex_simps by blast
  moreover have "\<exists>s s'. validateCapability cap s = Inr s'" if "cap \<in> set (c # cs)" for cap
    using that m(1) conjunct2 [OF ih] unfolding list.set by blast
  ultimately show ?case by blast
qed simp

text \<open>
  A policy that validates can be run. For every policy the validation accepts, each
  capability that is not disabled and each well-formed plan, a guard is built, whatever the
  authority and the deadline; and every route of the inventory is a route of some enabled
  capability of that policy.
\<close>

theorem valid_policy_runs:
  assumes "BudgetPolicyV1_Validate pol = Inr ()" "RunPlan_validate p = Inr ()"
  shows "(\<forall>cap \<in> set (Capabilities pol). \<not> Disabled cap \<longrightarrow> (\<exists>g. NewBudgetGuard p cap auth dl = Inr g))
    \<and> (\<forall>sp \<in> set registeredRouteSpecs. \<exists>cap \<in> set (Capabilities pol).
         \<not> Disabled cap \<and> rs_RouteID sp \<in> set (map rc_RouteID (Routes cap)))"
proof -
  obtain caps rts where v: "validate_capabilities (Capabilities pol) ([], []) = Inr (caps, rts)"
    and all: "\<not> list_ex (\<lambda>sp. rs_RouteID sp \<notin> set rts) registeredRouteSpecs"
    using assms(1) by (auto simp: BudgetPolicyV1_Validate_def result_simps split: if_splits)
  note s = validate_capabilities_sound [OF v]
  have "\<exists>g. NewBudgetGuard p cap auth dl = Inr g" if cap: "cap \<in> set (Capabilities pol)" "\<not> Disabled cap" for cap
  proof -
    obtain a b where "validateCapability cap a = Inr b"
      using bspec [OF conjunct2 [OF s] cap(1)] by (elim exE)
    from validateCapability_sound(2) [OF this cap(2)]
    show ?thesis using assms(2) cap(2) by (auto simp: NewBudgetGuard_def)
  qed
  moreover have "\<exists>cap \<in> set (Capabilities pol). \<not> Disabled cap \<and> rs_RouteID sp \<in> set (map rc_RouteID (Routes cap))"
    if "sp \<in> set registeredRouteSpecs" for sp
  proof -
    have "rs_RouteID sp \<in> set rts" using all that by (auto simp: list_ex_iff)
    then show ?thesis using s by auto
  qed
  ultimately show ?thesis by blast
qed

definition example_plan :: RunPlan where
  "example_plan = \<lparr>rp_Environment = ''production'', rp_ServiceID = ''s'', ServiceInstanceID = ''i'',
     ProviderScope = ''p'', rp_Capability = ''sub2api.users.balance_read'', rp_PolicyVersion = 1,
     CredentialGeneration = 1, RunID = ''r'', ScheduledSlot = []\<rparr>"

definition users_budget :: CapabilityBudget where
  "users_budget = Capabilities DefaultPolicyV1 ! 3"

lemma example_plan_valid: "RunPlan_validate example_plan = Inr ()"
  by code_simp

lemma users_budget_props: "users_budget \<in> set (Capabilities DefaultPolicyV1)" "\<not> Disabled users_budget"
  "budget_in64 users_budget" "MaxPages users_budget = 20" "MaxAttempts (cb_Retry users_budget) = 3"
  by (simp_all add: users_budget_def DefaultPolicyV1_def cap_budget_def minInt64_def budget_in64_def int64_defs)

theorem valid_policy_runs_witness:
  "\<exists>g. NewBudgetGuard example_plan users_budget None 0 = Inr g"
  using valid_policy_runs [OF default_policy_valid example_plan_valid] users_budget_props by blast

lemma users_guard: "\<exists>g. NewBudgetGuard example_plan users_budget None 0 = Inr g"
proof -
  have "(case NewBudgetGuard example_plan users_budget None 0 of Inr _ \<Rightarrow> True | Inl _ \<Rightarrow> False)" by code_simp
  then show ?thesis by (auto split: sum.splits)
qed


text \<open>
  The cap on attempts counts every request of a run, so under the default policy no run makes
  more than three, although its own limits allow up to 180 requests and 90 pages.
\<close>

lemma default_policy_attempts: "list_all (\<lambda>c. MaxAttempts (cb_Retry c) \<le> 3) (Capabilities DefaultPolicyV1)"
  by (simp add: DefaultPolicyV1_def cap_budget_def disabled_budget_def minInt64_def)

lemma default_runs_stop_at_three:
  assumes "cap \<in> set (Capabilities DefaultPolicyV1)" "budget_in64 cap"
    and "NewBudgetGuard p cap auth dl = Inr g" "guard_run g cs = (g', es)"
  shows "Requests (counters g') \<le> 3"
proof -
  have "MaxAttempts (cb_Retry cap) \<le> 3" using default_policy_attempts assms(1) by (auto simp: list_all_iff)
  then show ?thesis
    using guard_run_caps_ok [OF assms(4) NewBudgetGuard_start(1) [OF assms(3)] assms(2)] by (simp add: caps_ok_def)
qed

text \<open>
  A request refused for the deadline leaves no reason: a run whose every request came too
  late, finished without an outcome, gives evidence of complete coverage.
\<close>

lemma deadline_leaves_no_trace:
  "BeforeRequest g ctx now r u = (g', Some OutcomeRunDeadline) \<Longrightarrow> g_authority g = None \<Longrightarrow> g' = g"
  by (auto simp: BeforeRequest_def reserve_def count_request_def split: if_splits go_ctx.splits option.splits)


end
