(* ===== verification/Go_Map.thy ===== *)
theory Go_Map
  imports Main "HOL-Library.AList"
begin

text \<open>
  Go maps as association lists with one entry per key. \<open>m[k] = v\<close> is \<open>AList.update\<close>, \<open>m[k]\<close>
  with its second result is \<open>map_of\<close>. Go visits the entries of a map in an unspecified
  order; here it is the order of insertion, and what is proved of a visit does not depend
  on it. Sums over the entries follow an update exactly.
\<close>

type_synonym ('k, 'v) gomap = "('k \<times> 'v) list"

abbreviation mput :: "'k \<Rightarrow> 'v \<Rightarrow> ('k, 'v) gomap \<Rightarrow> ('k, 'v) gomap" where
  "mput \<equiv> AList.update"

abbreviation mvals :: "('k, 'v) gomap \<Rightarrow> 'v list" where
  "mvals m \<equiv> map snd m"

lemma map_of_mput [simp]: "map_of (mput k v m) k' = (if k' = k then Some v else map_of m k')"
  by (simp add: update_conv')

lemma distinct_mput [simp]: "distinct (map fst m) \<Longrightarrow> distinct (map fst (mput k v m))"
  by (rule distinct_update)

lemma mvals_mput_subset: "x \<in> set (mvals (mput k v m)) \<Longrightarrow> x = v \<or> x \<in> set (mvals m)"
  by (induction m) (auto split: if_splits)

lemma mvals_map_of: "distinct (map fst m) \<Longrightarrow> x \<in> set (mvals m) \<longleftrightarrow> (\<exists>k. map_of m k = Some x)"
  by (auto simp: image_iff) force+

text \<open>The sum of a quantity over the values of a map, before and after an update.\<close>

definition msum :: "('v \<Rightarrow> int) \<Rightarrow> ('k, 'v) gomap \<Rightarrow> int" where
  "msum f m = sum_list (map f (mvals m))"

lemma msum_Nil [simp]: "msum f [] = 0"
  by (simp add: msum_def)

lemma msum_new: "map_of m k = None \<Longrightarrow> msum f (mput k v m) = msum f m + f v"
  by (induction m) (auto simp: msum_def split: if_splits)

lemma msum_old: "map_of m k = Some u \<Longrightarrow> msum f (mput k v m) = msum f m - f u + f v"
  by (induction m) (auto simp: msum_def split: if_splits)

lemma msum_same: "map_of m k = Some u \<Longrightarrow> f v = f u \<Longrightarrow> msum f (mput k v m) = msum f m"
  by (simp add: msum_old)

lemma msum_nonneg: "(\<And>v. v \<in> set (mvals m) \<Longrightarrow> 0 \<le> f v) \<Longrightarrow> 0 \<le> msum f m"
  unfolding msum_def by (rule sum_list_nonneg) auto

lemma msum_zero: "(\<And>v. v \<in> set (mvals m) \<Longrightarrow> f v = 0) \<Longrightarrow> msum f m = 0"
  by (induction m) (auto simp: msum_def)

lemma msum_ge_member:
  "(\<And>v. v \<in> set (mvals m) \<Longrightarrow> 0 \<le> f v) \<Longrightarrow> v \<in> set (mvals m) \<Longrightarrow> f v \<le> msum f m"
proof (induction m)
  case (Cons p m)
  have r: "0 \<le> msum f m" using Cons.prems(1) by (intro msum_nonneg) auto
  have p: "0 \<le> f (snd p)" using Cons.prems(1) by simp
  have s: "msum f (p # m) = f (snd p) + msum f m" by (simp add: msum_def)
  show ?case
  proof (cases "v \<in> set (mvals m)")
    case True
    then have "f v \<le> msum f m" using Cons by auto
    then show ?thesis using p s by simp
  next
    case False
    then show ?thesis using Cons.prems(2) r s by simp
  qed
qed simp

end
