(* ===== verification/Invoice.thy ===== *)
theory Invoice
  imports Prelude Go_Strings
begin

text \<open>
  The domain types of the invoice system (\<open>src/invoice/backend/internal/domain/types.go\<close>):
  funding lots with the amount that may still be invoiced, profiles, requests, documents, and
  what each must satisfy. The parser of mail addresses is library code, the parameter
  \<open>mail_address\<close>.
\<close>

section \<open>Vocabulary\<close>

abbreviation "CurrencyCNY \<equiv> ''CNY''"
definition MinimumRequestMinor :: int64 where "MinimumRequestMinor = 20000"
definition MinimumRequestFloorMinor :: int64 where "MinimumRequestFloorMinor = 1"

definition FixedServiceItem :: string where
  "FixedServiceItem = [CHR 0xE6, CHR 0x8A, CHR 0x80, CHR 0xE6, CHR 0x9C, CHR 0xAF,
     CHR 0xE6, CHR 0x9C, CHR 0x8D, CHR 0xE5, CHR 0x8A, CHR 0xA1]"

type_synonym SourceType = string
type_synonym VerificationState = string
type_synonym EligibilityKind = string
type_synonym ProfileType = string
type_synonym RequestStatus = string

abbreviation "SourceSub2API \<equiv> ''sub2api''"
abbreviation "SourceNewAPI \<equiv> ''newapi''"

definition SourceType_Valid :: "SourceType \<Rightarrow> bool" where
  "SourceType_Valid s \<longleftrightarrow> s = SourceSub2API \<or> s = SourceNewAPI"

abbreviation "VerificationPending \<equiv> ''pending''"
abbreviation "VerificationVerified \<equiv> ''verified''"
abbreviation "VerificationFrozen \<equiv> ''frozen''"

abbreviation "EligibilityLegacyNonInvoiceable \<equiv> ''LEGACY_NON_INVOICEABLE''"
abbreviation "EligibilityWalletCash \<equiv> ''WALLET_CASH''"
abbreviation "EligibilitySubscriptionCash \<equiv> ''SUBSCRIPTION_CASH''"
abbreviation "EligibilityNonCash \<equiv> ''NON_CASH''"

definition EligibilityKind_Valid :: "EligibilityKind \<Rightarrow> bool" where
  "EligibilityKind_Valid k \<longleftrightarrow> k = EligibilityLegacyNonInvoiceable \<or> k = EligibilityWalletCash \<or>
     k = EligibilitySubscriptionCash \<or> k = EligibilityNonCash"

abbreviation "ProfilePersonal \<equiv> ''personal''"
abbreviation "ProfileEnterprise \<equiv> ''enterprise''"

abbreviation "StatusPendingReview \<equiv> ''pending_review''"
abbreviation "StatusNeedsChanges \<equiv> ''needs_changes''"
abbreviation "StatusApproved \<equiv> ''approved''"
abbreviation "StatusRejected \<equiv> ''rejected''"
abbreviation "StatusUserCancelled \<equiv> ''user_cancelled''"
abbreviation "StatusManualIssuing \<equiv> ''manual_issuing''"
abbreviation "StatusIssuedAwaitingDocument \<equiv> ''issued_awaiting_document''"
abbreviation "StatusIssued \<equiv> ''issued''"
abbreviation "StatusRefundAttention \<equiv> ''refund_attention''"

text \<open>The sentinel errors; \<open>ErrText\<close> is an error that is only a text.\<close>

datatype invoice_error = ErrNotFound | ErrForbidden | ErrConflict | ErrInsufficientAmount
  | ErrMinimumAmount | ErrSourceMixing | ErrUnverifiedPayment | ErrInvalidState
  | ErrVersionConflict | ErrText

section \<open>Funding lots\<close>

record FundingLot =
  lot_ID :: string
  lot_PrincipalID :: string
  lot_SourceInstanceID :: string
  lot_SourceType :: SourceType
  ExternalOrderID :: string
  TradeNo :: string
  lot_Currency :: string
  OriginalMinor :: int64
  CurrentCapMinor :: int64
  ReservedMinor :: int64
  IssuedMinor :: int64
  VerifiedCashMinor :: int64
  ConsumedCashMinor :: int64
  lot_EligibilityKind :: EligibilityKind
  EligibilityCutoverAt :: time
  RefundFrozen :: bool
  EligibilityRevision :: int64
  EligibilityStatus :: string
  Verification :: VerificationState
  SourceStatus :: string
  SourceRevision :: string
  CompletedAt :: time
  ObservedAt :: time
  lot_UpdatedAt :: time
  ManualReviewStage :: string

definition AvailableMinor :: "FundingLot \<Rightarrow> int64" where
  "AvailableMinor l =
    (if lot_EligibilityKind l = EligibilitySubscriptionCash then 0
     else let cap = (if lot_EligibilityKind l = [] then CurrentCapMinor l else ConsumedCashMinor l) in
       if lot_EligibilityKind l = EligibilityLegacyNonInvoiceable \<or> lot_EligibilityKind l = EligibilityNonCash
          \<or> RefundFrozen l \<or> Verification l \<noteq> VerificationVerified
          \<or> (lot_EligibilityKind l \<noteq> [] \<and> EligibilityStatus l \<noteq> ''active'') then 0
       else let remaining = wrap64 (wrap64 (cap - ReservedMinor l) - IssuedMinor l) in
         if remaining < 0 then 0 else remaining)"

definition FundingLot_Validate :: "FundingLot \<Rightarrow> invoice_error + unit" where
  "FundingLot_Validate l =
    (if lot_ID l = [] \<or> lot_PrincipalID l = [] \<or> lot_SourceInstanceID l = [] \<or> ExternalOrderID l = [] then Inl ErrText
     else if \<not> SourceType_Valid (lot_SourceType l) then Inl ErrText
     else if lot_Currency l \<noteq> CurrencyCNY then Inl ErrText
     else if OriginalMinor l < 0 \<or> CurrentCapMinor l < 0 \<or> ReservedMinor l < 0 \<or> IssuedMinor l < 0 then Inl ErrText
     else if VerifiedCashMinor l < 0 \<or> OriginalMinor l < VerifiedCashMinor l
       \<or> ConsumedCashMinor l < 0 \<or> VerifiedCashMinor l < ConsumedCashMinor l then Inl ErrText
     else if OriginalMinor l < CurrentCapMinor l then Inl ErrText
     else if OriginalMinor l < IssuedMinor l \<or> wrap64 (OriginalMinor l - IssuedMinor l) < ReservedMinor l then Inl ErrText
     else if lot_EligibilityKind l \<noteq> [] \<and> \<not> EligibilityKind_Valid (lot_EligibilityKind l) then Inl ErrText
     else if lot_EligibilityKind l \<noteq> [] \<and> ConsumedCashMinor l < wrap64 (ReservedMinor l + IssuedMinor l) then Inl ErrText
     else if lot_EligibilityKind l = EligibilityLegacyNonInvoiceable \<and> EligibilityCutoverAt l \<noteq> 0 then Inl ErrText
     else if lot_EligibilityKind l \<noteq> [] \<and> lot_EligibilityKind l \<noteq> EligibilityLegacyNonInvoiceable
       \<and> EligibilityCutoverAt l = 0 then Inl ErrText
     else Inr ())"

section \<open>Profiles\<close>

record InvoiceProfile =
  prof_ID :: string
  prof_PrincipalID :: string
  prof_Type :: ProfileType
  prof_Title :: string
  prof_TaxID :: string
  prof_Email :: string
  EmailVerified :: bool
  prof_Address :: string
  prof_Phone :: string
  prof_BankName :: string
  prof_BankAccount :: string
  IsDefault :: bool
  prof_Revision :: int64
  prof_CreatedAt :: time
  prof_UpdatedAt :: time

definition forbidden_controls :: string where
  "forbidden_controls = [CHR 0x0D, CHR 0x0A, CHR 0x00]"

text \<open>The table of text fields with the length each may have; the length and the forbidden
  bytes are checked field by field.\<close>

definition profile_fields :: "InvoiceProfile \<Rightarrow> (string \<times> int) list" where
  "profile_fields p = [(prof_Title p, 200), (prof_TaxID p, 64), (prof_Email p, 320), (prof_Address p, 500),
     (prof_Phone p, 64), (prof_BankName p, 200), (prof_BankAccount p, 128)]"

definition InvoiceProfile_Validate :: "(string \<Rightarrow> string option) \<Rightarrow> InvoiceProfile \<Rightarrow> invoice_error + unit" where
  "InvoiceProfile_Validate mail_address p =
    (if prof_PrincipalID p = [] \<or> blank (prof_Title p) then Inl ErrText
     else if prof_Type p \<noteq> ProfilePersonal \<and> prof_Type p \<noteq> ProfileEnterprise then Inl ErrText
     else if prof_Type p = ProfileEnterprise \<and> blank (prof_TaxID p) then Inl ErrText
     else if \<not> EmailVerified p then Inl ErrText
     else if list_ex (\<lambda>(v, n). int (length v) > n \<or> contains_any v forbidden_controls) (profile_fields p) then Inl ErrText
     else if mail_address (trim_space (prof_Email p)) \<noteq> Some (trim_space (prof_Email p)) then Inl ErrText
     else Inr ())"

record ProfileSnapshot =
  snap_Type :: ProfileType
  snap_Title :: string
  snap_TaxID :: string
  snap_Email :: string
  snap_Address :: string
  snap_Phone :: string
  snap_BankName :: string
  snap_BankAccount :: string
  snap_Revision :: int64

definition SnapshotProfile :: "InvoiceProfile \<Rightarrow> ProfileSnapshot" where
  "SnapshotProfile p = \<lparr>snap_Type = prof_Type p, snap_Title = prof_Title p, snap_TaxID = prof_TaxID p,
     snap_Email = prof_Email p, snap_Address = prof_Address p, snap_Phone = prof_Phone p,
     snap_BankName = prof_BankName p, snap_BankAccount = prof_BankAccount p, snap_Revision = prof_Revision p\<rparr>"

section \<open>Requests and documents\<close>

record Allocation =
  FundingLotID :: string
  ExternalOrder :: string
  AmountMinor :: int64

record InvoiceRequest =
  req_ID :: string
  RequestNo :: string
  req_PrincipalID :: string
  req_SourceInstanceID :: string
  req_SourceType :: SourceType
  req_Currency :: string
  IssuerCode :: string
  ServiceItem :: string
  req_AmountMinor :: int64
  Status :: RequestStatus
  req_Profile :: ProfileSnapshot
  Allocations :: "Allocation list"
  ReviewNote :: string
  ReviewedBy :: string
  IssuedBy :: string
  Version :: int64
  SubmittedAt :: time
  req_UpdatedAt :: time

record InvoiceDocument =
  doc_ID :: string
  RequestID :: string
  InvoiceNumber :: string
  ObjectKey :: string
  ObjectVersion :: string
  SHA256 :: string
  SizeBytes :: int64
  MIME :: string
  ScanStatus :: string
  UploadedBy :: string
  IssuedAt :: time
  doc_CreatedAt :: time

text \<open>\<open>hex.DecodeString\<close> succeeds on an even number of hexadecimal digits.\<close>

definition hex_digit :: "char \<Rightarrow> bool" where
  "hex_digit c \<longleftrightarrow> c \<in> set ''0123456789abcdefABCDEF''"

definition hex_decodes :: "string \<Rightarrow> bool" where
  "hex_decodes s \<longleftrightarrow> even (length s) \<and> list_all hex_digit s"

definition InvoiceDocument_Validate :: "InvoiceDocument \<Rightarrow> invoice_error + unit" where
  "InvoiceDocument_Validate d =
    (if blank (RequestID d) \<or> blank (InvoiceNumber d) \<or> blank (ObjectKey d) \<or> blank (ObjectVersion d) \<or> SHA256 d = [] then Inl ErrText
     else if int (length (InvoiceNumber d)) > 128 \<or> int (length (ObjectKey d)) > 1024 \<or> int (length (ObjectVersion d)) > 256 then Inl ErrText
     else if contains_any (InvoiceNumber d) forbidden_controls \<or> contains_any (ObjectKey d) forbidden_controls
       \<or> contains_any (ObjectVersion d) forbidden_controls then Inl ErrText
     else if int (length (SHA256 d)) \<noteq> 64 then Inl ErrText
     else if \<not> hex_decodes (SHA256 d) then Inl ErrText
     else if MIME d \<noteq> ''application/pdf'' then Inl ErrText
     else if SizeBytes d \<le> 0 then Inl ErrText
     else if ScanStatus d \<noteq> ''clean'' then Inl ErrText
     else if IssuedAt d = 0 then Inl ErrText
     else Inr ())"

record EmailOutbox =
  out_ID :: string
  out_RequestID :: string
  out_DocumentID :: string
  RecipientHash :: string
  TemplateVersion :: string
  out_Status :: string
  Attempts :: int
  NextAttemptAt :: time
  out_CreatedAt :: time

section \<open>Facts\<close>

text \<open>The integer fields of a lot hold 64-bit values.\<close>

definition lot_in64 :: "FundingLot \<Rightarrow> bool" where
  "lot_in64 l \<longleftrightarrow> in64 (OriginalMinor l) \<and> in64 (CurrentCapMinor l) \<and> in64 (ReservedMinor l) \<and> in64 (IssuedMinor l)
     \<and> in64 (VerifiedCashMinor l) \<and> in64 (ConsumedCashMinor l)"

text \<open>The amounts of a lot that validates, without wrap-around.\<close>

definition lot_amounts :: "FundingLot \<Rightarrow> bool" where
  "lot_amounts l \<longleftrightarrow> 0 \<le> ReservedMinor l \<and> 0 \<le> IssuedMinor l \<and> 0 \<le> ConsumedCashMinor l
     \<and> ConsumedCashMinor l \<le> VerifiedCashMinor l \<and> VerifiedCashMinor l \<le> OriginalMinor l
     \<and> 0 \<le> CurrentCapMinor l \<and> CurrentCapMinor l \<le> OriginalMinor l
     \<and> ReservedMinor l + IssuedMinor l \<le> OriginalMinor l
     \<and> (lot_EligibilityKind l \<noteq> [] \<longrightarrow> ReservedMinor l + IssuedMinor l \<le> ConsumedCashMinor l)"

text \<open>The rest of what \<open>Validate\<close> checks, none of it an allocation.\<close>

definition lot_identity :: "FundingLot \<Rightarrow> bool" where
  "lot_identity l \<longleftrightarrow> lot_ID l \<noteq> [] \<and> lot_PrincipalID l \<noteq> [] \<and> lot_SourceInstanceID l \<noteq> [] \<and> ExternalOrderID l \<noteq> []
     \<and> SourceType_Valid (lot_SourceType l) \<and> lot_Currency l = CurrencyCNY
     \<and> (lot_EligibilityKind l \<noteq> [] \<longrightarrow> EligibilityKind_Valid (lot_EligibilityKind l)
         \<and> (lot_EligibilityKind l = EligibilityLegacyNonInvoiceable \<longleftrightarrow> EligibilityCutoverAt l = 0))"

lemma FundingLot_Validate_iff:
  assumes "lot_in64 l"
  shows "FundingLot_Validate l = Inr u \<longleftrightarrow> lot_identity l \<and> lot_amounts l"
proof -
  have w: "0 \<le> IssuedMinor l \<Longrightarrow> IssuedMinor l \<le> OriginalMinor l \<Longrightarrow> wrap64 (OriginalMinor l - IssuedMinor l) = OriginalMinor l - IssuedMinor l"
    using assms by (intro wrap64_id) (simp add: lot_in64_def int64_defs)
  have v: "0 \<le> ReservedMinor l \<Longrightarrow> 0 \<le> IssuedMinor l \<Longrightarrow> ReservedMinor l + IssuedMinor l \<le> OriginalMinor l
    \<Longrightarrow> wrap64 (ReservedMinor l + IssuedMinor l) = ReservedMinor l + IssuedMinor l"
    using assms by (intro wrap64_id) (simp add: lot_in64_def int64_defs)
  show ?thesis
    unfolding FundingLot_Validate_def if_Inl_eq_Inr lot_identity_def lot_amounts_def
    using w v by (auto simp: not_less)
qed

lemma AvailableMinor_bound:
  assumes "lot_in64 l" "lot_amounts l" "0 < a" "a \<le> AvailableMinor l"
  shows "ReservedMinor l + a + IssuedMinor l \<le> (if lot_EligibilityKind l = [] then CurrentCapMinor l else ConsumedCashMinor l)"
    "Verification l = VerificationVerified" "\<not> RefundFrozen l"
proof -
  define cap where "cap = (if lot_EligibilityKind l = [] then CurrentCapMinor l else ConsumedCashMinor l)"
  have c: "0 \<le> cap" "cap \<le> OriginalMinor l" using assms(2) by (auto simp: cap_def lot_amounts_def)
  have w: "wrap64 (wrap64 (cap - ReservedMinor l) - IssuedMinor l) = cap - ReservedMinor l - IssuedMinor l"
    using assms(1,2) c by (subst (2) wrap64_id) (auto simp: lot_in64_def lot_amounts_def int64_defs intro!: wrap64_id)
  have av: "AvailableMinor l = (if lot_EligibilityKind l = EligibilitySubscriptionCash
      \<or> lot_EligibilityKind l = EligibilityLegacyNonInvoiceable \<or> lot_EligibilityKind l = EligibilityNonCash
      \<or> RefundFrozen l \<or> Verification l \<noteq> VerificationVerified
      \<or> (lot_EligibilityKind l \<noteq> [] \<and> EligibilityStatus l \<noteq> ''active'') then 0
    else max 0 (cap - ReservedMinor l - IssuedMinor l))"
    unfolding AvailableMinor_def Let_def cap_def [symmetric] w by (simp add: max_def)
  have pos: "AvailableMinor l \<noteq> 0" using assms(3,4) by simp
  then show "Verification l = VerificationVerified" "\<not> RefundFrozen l"
    unfolding av by (simp_all split: if_splits)
  have "AvailableMinor l = max 0 (cap - ReservedMinor l - IssuedMinor l)"
    using pos unfolding av by (metis (no_types, lifting))
  then show "ReservedMinor l + a + IssuedMinor l \<le> (if lot_EligibilityKind l = [] then CurrentCapMinor l else ConsumedCashMinor l)"
    using assms(3,4) unfolding cap_def [symmetric] by simp
qed

end
