(* ===== verification/Ledger.thy ===== *)
theory Ledger
  imports Invoice Go_Map "HOL-Library.List_Lexorder" "HOL-Library.Char_ord"
begin

text \<open>
  The invoice ledger (\<open>src/invoice/backend/internal/ledger/service.go\<close>): the in-memory service
  behind the invoice API, with its maps of lots, profiles, requests, documents and outgoing
  mails. Every operation holds the mutex, so each is one step from a state to a state and a
  result. The clock and the random bytes of new identifiers are arguments; one operation
  reads one instant. A platform is the empty string when the session is not restricted to one.
\<close>

section \<open>State\<close>

record AllocationInput =
  in_FundingLotID :: string
  in_AmountMinor :: int64

record SubmitInput =
  in_PrincipalID :: string
  in_ProfileID :: string
  in_SourceInstanceID :: string
  IdempotencyKey :: string
  in_Allocations :: "AllocationInput list"

record Ledger =
  lots :: "(string, FundingLot) gomap"
  profiles :: "(string, InvoiceProfile) gomap"
  requests :: "(string, InvoiceRequest) gomap"
  documents :: "(string, InvoiceDocument) gomap"
  outbox :: "(string, EmailOutbox) gomap"
  idempotency :: "(string, string) gomap"
  minimumRequestMinor :: int64

definition NewService :: Ledger where
  "NewService = \<lparr>lots = [], profiles = [], requests = [], documents = [], outbox = [], idempotency = [],
     minimumRequestMinor = MinimumRequestMinor\<rparr>"

type_synonym 'a ledger_result = "Ledger \<times> (invoice_error + 'a)"

definition SetMinimumRequestMinor :: "int64 \<Rightarrow> Ledger \<Rightarrow> unit ledger_result" where
  "SetMinimumRequestMinor v s = (if v < MinimumRequestFloorMinor then (s, Inl ErrMinimumAmount)
     else (s\<lparr>minimumRequestMinor := v\<rparr>, Inr ()))"

text \<open>\<open>randomID\<close> with its twelve random bytes as an argument.\<close>

definition nibble :: "int \<Rightarrow> char" where
  "nibble n = ''0123456789abcdef'' ! nat (n mod 16)"

definition hex_encode :: "string \<Rightarrow> string" where
  "hex_encode b = concat (map (\<lambda>c. [nibble (of_char c div 16), nibble (of_char c)]) b)"

definition randomID :: "string \<Rightarrow> string \<Rightarrow> string" where
  "randomID prefix b = prefix @ ''_'' @ hex_encode b"

section \<open>Lots and profiles\<close>

definition AddFundingLot :: "time \<Rightarrow> FundingLot \<Rightarrow> Ledger \<Rightarrow> unit ledger_result" where
  "AddFundingLot now lot s =
    (case FundingLot_Validate lot of Inl e \<Rightarrow> (s, Inl e)
     | Inr _ \<Rightarrow> if map_of (lots s) (lot_ID lot) \<noteq> None then (s, Inl ErrConflict)
       else let lot = (if ObservedAt lot = 0 then lot\<lparr>ObservedAt := now\<rparr> else lot);
                lot = (if lot_UpdatedAt lot = 0 then lot\<lparr>lot_UpdatedAt := now\<rparr> else lot)
            in (s\<lparr>lots := mput (lot_ID lot) lot (lots s)\<rparr>, Inr ()))"

definition SaveProfile :: "(string \<Rightarrow> string option) \<Rightarrow> time \<Rightarrow> string \<Rightarrow> InvoiceProfile \<Rightarrow> Ledger \<Rightarrow> InvoiceProfile ledger_result" where
  "SaveProfile mail_address now rnd p s =
    (let store = (\<lambda>p. let p = p\<lparr>prof_UpdatedAt := now\<rparr> in
           (s\<lparr>profiles := mput (prof_ID p) p (profiles s)\<rparr>, Inr p)) in
     case InvoiceProfile_Validate mail_address p of Inl e \<Rightarrow> (s, Inl e)
     | Inr _ \<Rightarrow>
       if prof_ID p = [] then store (p\<lparr>prof_ID := randomID ''prof'' rnd, prof_Revision := 1, prof_CreatedAt := now\<rparr>)
       else case map_of (profiles s) (prof_ID p) of None \<Rightarrow> (s, Inl ErrNotFound)
         | Some existing \<Rightarrow>
           if prof_PrincipalID existing \<noteq> prof_PrincipalID p then (s, Inl ErrForbidden)
           else store (p\<lparr>prof_Revision := wrap64 (prof_Revision existing + 1), prof_CreatedAt := prof_CreatedAt existing\<rparr>))"

definition VerifyNewAPIPayment :: "time \<Rightarrow> string \<Rightarrow> int64 \<Rightarrow> string \<Rightarrow> Ledger \<Rightarrow> FundingLot ledger_result" where
  "VerifyNewAPIPayment now lotID paidMinor currency s =
    (if paidMinor \<le> 0 \<or> currency \<noteq> CurrencyCNY then (s, Inl ErrConflict)
     else case map_of (lots s) lotID of None \<Rightarrow> (s, Inl ErrNotFound)
       | Some lot \<Rightarrow>
         if lot_SourceType lot \<noteq> SourceNewAPI \<or> Verification lot \<noteq> VerificationPending then (s, Inl ErrInvalidState)
         else let lot = lot\<lparr>lot_Currency := currency, OriginalMinor := paidMinor, CurrentCapMinor := paidMinor,
                Verification := VerificationVerified, lot_UpdatedAt := now\<rparr> in
           case FundingLot_Validate lot of Inl e \<Rightarrow> (s, Inl e)
           | Inr _ \<Rightarrow> (s\<lparr>lots := mput (lot_ID lot) lot (lots s)\<rparr>, Inr lot))"

definition VerifyNewAPIPaymentWithEvidence ::
  "time \<Rightarrow> string \<Rightarrow> int64 \<Rightarrow> string \<Rightarrow> string \<Rightarrow> Ledger \<Rightarrow> FundingLot ledger_result" where
  "VerifyNewAPIPaymentWithEvidence now lotID paidMinor currency evidence s =
    (if blank evidence \<or> int (length evidence) > 512 then (s, Inl ErrConflict)
     else VerifyNewAPIPayment now lotID paidMinor currency s)"

section \<open>Submission\<close>

text \<open>
  The loop over the allocations, sorted by lot: the lots seen, the allocations made so far,
  their total and the source type of the first lot. \<open>int64(^uint64(0)>>1)\<close> is \<open>max_int64\<close>.
\<close>

fun check_allocations :: "Ledger \<Rightarrow> SubmitInput \<Rightarrow> SourceType \<Rightarrow> AllocationInput list \<Rightarrow> string list
  \<Rightarrow> Allocation list \<Rightarrow> int64 \<Rightarrow> SourceType \<Rightarrow> invoice_error + (Allocation list \<times> int64 \<times> SourceType)" where
  "check_allocations s input platform [] seen allocations amount sourceType = Inr (allocations, amount, sourceType)"
| "check_allocations s input platform (requested # rest) seen allocations amount sourceType =
    (if in_AmountMinor requested \<le> 0 then Inl ErrInsufficientAmount
     else if in_FundingLotID requested \<in> set seen then Inl ErrConflict
     else case map_of (lots s) (in_FundingLotID requested) of None \<Rightarrow> Inl ErrNotFound
       | Some lot \<Rightarrow>
         if lot_PrincipalID lot \<noteq> in_PrincipalID input then Inl ErrForbidden
         else if platform \<noteq> [] \<and> lot_SourceType lot \<noteq> platform then Inl ErrForbidden
         else if lot_SourceInstanceID lot \<noteq> in_SourceInstanceID input then Inl ErrSourceMixing
         else if sourceType \<noteq> [] \<and> sourceType \<noteq> lot_SourceType lot then Inl ErrSourceMixing
         else if Verification lot \<noteq> VerificationVerified then Inl ErrUnverifiedPayment
         else if lot_Currency lot \<noteq> CurrencyCNY then Inl ErrConflict
         else if in_AmountMinor requested > AvailableMinor lot then Inl ErrInsufficientAmount
         else if in_AmountMinor requested > wrap64 (max_int64 - amount) then Inl ErrConflict
         else check_allocations s input platform rest (in_FundingLotID requested # seen)
           (allocations @ [\<lparr>FundingLotID = lot_ID lot, ExternalOrder = ExternalOrderID lot,
              AmountMinor = in_AmountMinor requested\<rparr>])
           (wrap64 (amount + in_AmountMinor requested)) (if sourceType = [] then lot_SourceType lot else sourceType))"

text \<open>A lot read without checking that it is there: the zero value when it is not.\<close>

definition zero_lot :: FundingLot where
  "zero_lot = \<lparr>lot_ID = [], lot_PrincipalID = [], lot_SourceInstanceID = [], lot_SourceType = [],
     ExternalOrderID = [], TradeNo = [], lot_Currency = [], OriginalMinor = 0, CurrentCapMinor = 0,
     ReservedMinor = 0, IssuedMinor = 0, VerifiedCashMinor = 0, ConsumedCashMinor = 0,
     lot_EligibilityKind = [], EligibilityCutoverAt = 0, RefundFrozen = False, EligibilityRevision = 0,
     EligibilityStatus = [], Verification = [], SourceStatus = [], SourceRevision = [], CompletedAt = 0,
     ObservedAt = 0, lot_UpdatedAt = 0, ManualReviewStage = []\<rparr>"

definition lot_at :: "(string, FundingLot) gomap \<Rightarrow> string \<Rightarrow> FundingLot" where
  "lot_at m k = (case map_of m k of None \<Rightarrow> zero_lot | Some l \<Rightarrow> l)"

text \<open>
  The three loops over the allocations of a request read each lot, change it and store it
  back under its own identifier: \<open>touch f\<close> is one such round.
\<close>

definition touch :: "(Allocation \<Rightarrow> FundingLot \<Rightarrow> FundingLot) \<Rightarrow> Allocation
  \<Rightarrow> (string, FundingLot) gomap \<Rightarrow> (string, FundingLot) gomap" where
  "touch f a m = (let lot = f a (lot_at m (FundingLotID a)) in mput (lot_ID lot) lot m)"

definition reserve_lot :: "time \<Rightarrow> Allocation \<Rightarrow> FundingLot \<Rightarrow> FundingLot" where
  "reserve_lot now a lot = lot\<lparr>ReservedMinor := wrap64 (ReservedMinor lot + AmountMinor a), lot_UpdatedAt := now\<rparr>"

definition submit_key :: "SubmitInput \<Rightarrow> string" where
  "submit_key input = in_PrincipalID input @ [CHR 0x0A] @ IdempotencyKey input"

definition upper_ascii :: "char \<Rightarrow> char" where
  "upper_ascii c = (if 97 \<le> (of_char c :: int) \<and> (of_char c :: int) \<le> 122 then char_of ((of_char c :: int) - 32) else c)"

definition request_no :: "string \<Rightarrow> string" where
  "request_no rid = ''INV-'' @ map upper_ascii (drop (length rid - 10) rid)"

definition submit_valid :: "SubmitInput \<Rightarrow> bool" where
  "submit_valid input \<longleftrightarrow> \<not> (blank (in_PrincipalID input) \<or> blank (IdempotencyKey input) \<or> in_Allocations input = [])
     \<and> \<not> (int (length (IdempotencyKey input)) > 128 \<or> contains_any (IdempotencyKey input) forbidden_controls)"

definition new_request :: "time \<Rightarrow> string \<Rightarrow> SubmitInput \<Rightarrow> InvoiceProfile \<Rightarrow> Allocation list \<Rightarrow> int64 \<Rightarrow> SourceType \<Rightarrow> InvoiceRequest" where
  "new_request now rid input profile allocations amount sourceType =
    \<lparr>req_ID = rid, RequestNo = request_no rid, req_PrincipalID = in_PrincipalID input,
     req_SourceInstanceID = in_SourceInstanceID input, req_SourceType = sourceType, req_Currency = CurrencyCNY,
     IssuerCode = ''default'', ServiceItem = FixedServiceItem, req_AmountMinor = amount, Status = StatusPendingReview,
     req_Profile = SnapshotProfile profile, Allocations = allocations, ReviewNote = [], ReviewedBy = [],
     IssuedBy = [], Version = 1, SubmittedAt = now, req_UpdatedAt = now\<rparr>"

definition zero_request :: InvoiceRequest where
  "zero_request = \<lparr>req_ID = [], RequestNo = [], req_PrincipalID = [], req_SourceInstanceID = [],
     req_SourceType = [], req_Currency = [], IssuerCode = [], ServiceItem = [], req_AmountMinor = 0,
     Status = [], req_Profile = \<lparr>snap_Type = [], snap_Title = [], snap_TaxID = [], snap_Email = [],
       snap_Address = [], snap_Phone = [], snap_BankName = [], snap_BankAccount = [], snap_Revision = 0\<rparr>,
     Allocations = [], ReviewNote = [], ReviewedBy = [], IssuedBy = [], Version = 0, SubmittedAt = 0,
     req_UpdatedAt = 0\<rparr>"

definition Submit_invoice :: "time \<Rightarrow> string \<Rightarrow> SubmitInput \<Rightarrow> SourceType \<Rightarrow> Ledger \<Rightarrow> InvoiceRequest ledger_result" where
  "Submit_invoice now rnd input platform s =
    (if \<not> submit_valid input then (s, Inl ErrText)
     else case map_of (idempotency s) (submit_key input) of
       Some requestID \<Rightarrow> (s, Inr (case map_of (requests s) requestID of None \<Rightarrow> zero_request | Some r \<Rightarrow> r))
     | None \<Rightarrow>
       case map_of (profiles s) (in_ProfileID input) of None \<Rightarrow> (s, Inl ErrNotFound)
       | Some profile \<Rightarrow>
         if prof_PrincipalID profile \<noteq> in_PrincipalID input then (s, Inl ErrForbidden)
         else case check_allocations s input platform (sort_key in_FundingLotID (in_Allocations input)) [] [] 0 [] of
             Inl e \<Rightarrow> (s, Inl e)
           | Inr (allocations, amount, sourceType) \<Rightarrow>
             if amount < minimumRequestMinor s then (s, Inl ErrMinimumAmount)
             else let rid = randomID ''invreq'' rnd;
                      request = new_request now rid input profile allocations amount sourceType
                  in (s\<lparr>lots := fold (touch (reserve_lot now)) allocations (lots s),
                        requests := mput rid request (requests s),
                        idempotency := mput (submit_key input) rid (idempotency s)\<rparr>, Inr request))"


section \<open>The life of a request\<close>

definition store_request :: "InvoiceRequest \<Rightarrow> Ledger \<Rightarrow> Ledger" where
  "store_request r s = s\<lparr>requests := mput (req_ID r) r (requests s)\<rparr>"

definition release_lot :: "time \<Rightarrow> Allocation \<Rightarrow> FundingLot \<Rightarrow> FundingLot" where
  "release_lot now a lot =
    (if ReservedMinor lot \<ge> AmountMinor a then lot\<lparr>ReservedMinor := wrap64 (ReservedMinor lot - AmountMinor a)\<rparr>
     else lot)\<lparr>lot_UpdatedAt := now\<rparr>"

definition releaseLocked :: "time \<Rightarrow> InvoiceRequest \<Rightarrow> Ledger \<Rightarrow> Ledger" where
  "releaseLocked now r s = s\<lparr>lots := fold (touch (release_lot now)) (Allocations r) (lots s)\<rparr>"

text \<open>\<open>request.Version++\<close> and the new time of change.\<close>

definition bump :: "time \<Rightarrow> InvoiceRequest \<Rightarrow> InvoiceRequest" where
  "bump now r = r\<lparr>Version := wrap64 (Version r + 1), req_UpdatedAt := now\<rparr>"

definition Cancel_invoice :: "time \<Rightarrow> string \<Rightarrow> string \<Rightarrow> int64 \<Rightarrow> SourceType \<Rightarrow> Ledger \<Rightarrow> InvoiceRequest ledger_result" where
  "Cancel_invoice now principalID requestID expectedVersion platform s =
    (case map_of (requests s) requestID of None \<Rightarrow> (s, Inl ErrNotFound)
     | Some r \<Rightarrow>
       if req_PrincipalID r \<noteq> principalID then (s, Inl ErrForbidden)
       else if platform \<noteq> [] \<and> req_SourceType r \<noteq> platform then (s, Inl ErrNotFound)
       else if Version r \<noteq> expectedVersion then (s, Inl ErrVersionConflict)
       else if Status r \<noteq> StatusPendingReview \<and> Status r \<noteq> StatusNeedsChanges then (s, Inl ErrInvalidState)
       else let r' = bump now (r\<lparr>Status := StatusUserCancelled\<rparr>) in
         (store_request r' (releaseLocked now r s), Inr r'))"

definition Review :: "time \<Rightarrow> string \<Rightarrow> string \<Rightarrow> string \<Rightarrow> string \<Rightarrow> int64 \<Rightarrow> Ledger \<Rightarrow> InvoiceRequest ledger_result" where
  "Review now adminID requestID action note expectedVersion s =
    (if int (length note) > 2000 \<or> contains_any note [CHR 0x00] then (s, Inl ErrText)
     else case map_of (requests s) requestID of None \<Rightarrow> (s, Inl ErrNotFound)
     | Some r \<Rightarrow>
       if Version r \<noteq> expectedVersion then (s, Inl ErrVersionConflict)
       else if Status r \<noteq> StatusPendingReview \<and> Status r \<noteq> StatusNeedsChanges then (s, Inl ErrInvalidState)
       else let done = (\<lambda>st s. let r' = bump now (r\<lparr>Status := st, ReviewedBy := adminID, ReviewNote := trim_space note\<rparr>)
              in (store_request r' s, Inr r')) in
         if action = ''approve'' then done StatusApproved s
         else if action = ''return'' then done StatusNeedsChanges s
         else if action = ''reject'' then done StatusRejected (releaseLocked now r s)
         else (s, Inl ErrInvalidState))"

definition issue_lot :: "time \<Rightarrow> Allocation \<Rightarrow> FundingLot \<Rightarrow> FundingLot" where
  "issue_lot now a lot = lot\<lparr>ReservedMinor := wrap64 (ReservedMinor lot - AmountMinor a),
     IssuedMinor := wrap64 (IssuedMinor lot + AmountMinor a), lot_UpdatedAt := now\<rparr>"

text \<open>The loop leaves at the first lot that does not hold the amount; what it has stored
  until then stays stored.\<close>

fun issue_lots :: "time \<Rightarrow> Allocation list \<Rightarrow> (string, FundingLot) gomap \<Rightarrow> (string, FundingLot) gomap \<times> bool" where
  "issue_lots now [] m = (m, True)"
| "issue_lots now (a # as) m =
    (if ReservedMinor (lot_at m (FundingLotID a)) < AmountMinor a then (m, False)
     else issue_lots now as (touch (issue_lot now) a m))"

definition ConfirmManualIssue :: "time \<Rightarrow> string \<Rightarrow> string \<Rightarrow> int64 \<Rightarrow> Ledger \<Rightarrow> InvoiceRequest ledger_result" where
  "ConfirmManualIssue now adminID requestID expectedVersion s =
    (case map_of (requests s) requestID of None \<Rightarrow> (s, Inl ErrNotFound)
     | Some r \<Rightarrow>
       if Version r \<noteq> expectedVersion then (s, Inl ErrVersionConflict)
       else if Status r \<noteq> StatusApproved \<and> Status r \<noteq> StatusManualIssuing then (s, Inl ErrInvalidState)
       else case issue_lots now (Allocations r) (lots s) of
           (m, False) \<Rightarrow> (s\<lparr>lots := m\<rparr>, Inl ErrConflict)
         | (m, True) \<Rightarrow> let r' = bump now (r\<lparr>Status := StatusIssuedAwaitingDocument, IssuedBy := adminID\<rparr>) in
             (store_request r' (s\<lparr>lots := m\<rparr>), Inr r'))"

definition BeginManualIssue :: "time \<Rightarrow> string \<Rightarrow> string \<Rightarrow> int64 \<Rightarrow> Ledger \<Rightarrow> InvoiceRequest ledger_result" where
  "BeginManualIssue now adminID requestID expectedVersion s =
    (case map_of (requests s) requestID of None \<Rightarrow> (s, Inl ErrNotFound)
     | Some r \<Rightarrow>
       if Version r \<noteq> expectedVersion then (s, Inl ErrVersionConflict)
       else if Status r \<noteq> StatusApproved then (s, Inl ErrInvalidState)
       else let r' = bump now (r\<lparr>Status := StatusManualIssuing, IssuedBy := adminID\<rparr>) in (store_request r' s, Inr r'))"

definition AttachDocument :: "time \<Rightarrow> string \<Rightarrow> string \<Rightarrow> string \<Rightarrow> InvoiceDocument \<Rightarrow> int64 \<Rightarrow> Ledger
  \<Rightarrow> (InvoiceRequest \<times> InvoiceDocument \<times> EmailOutbox) ledger_result" where
  "AttachDocument now rndDoc rndMail adminID doc expectedVersion s =
    (case InvoiceDocument_Validate doc of Inl e \<Rightarrow> (s, Inl e)
     | Inr _ \<Rightarrow>
     case map_of (requests s) (RequestID doc) of None \<Rightarrow> (s, Inl ErrNotFound)
     | Some r \<Rightarrow>
       if Version r \<noteq> expectedVersion then (s, Inl ErrVersionConflict)
       else if Status r \<noteq> StatusIssuedAwaitingDocument then (s, Inl ErrInvalidState)
       else let doc = (if doc_ID doc = [] then doc\<lparr>doc_ID := randomID ''doc'' rndDoc\<rparr> else doc);
                doc = doc\<lparr>UploadedBy := adminID\<rparr>;
                doc = (if doc_CreatedAt doc = 0 then doc\<lparr>doc_CreatedAt := now\<rparr> else doc) in
         if list_ex (\<lambda>d. InvoiceNumber d = InvoiceNumber doc) (mvals (documents s)) then (s, Inl ErrConflict)
         else let r' = bump now (r\<lparr>Status := StatusIssued\<rparr>);
                  mail = \<lparr>out_ID = randomID ''mail'' rndMail, out_RequestID = req_ID r', out_DocumentID = doc_ID doc,
                    RecipientHash = ''pending-hmac'', TemplateVersion = ''invoice-issued-v1'', out_Status = ''queued'',
                    Attempts = 0, NextAttemptAt = now, out_CreatedAt = now\<rparr> in
           ((store_request r' (s\<lparr>documents := mput (doc_ID doc) doc (documents s)\<rparr>))
              \<lparr>outbox := mput (out_ID mail) mail (outbox s)\<rparr>, Inr (r', doc, mail)))"

section \<open>Reading\<close>

definition ListFundingLots :: "string \<Rightarrow> SourceType \<Rightarrow> Ledger \<Rightarrow> FundingLot list" where
  "ListFundingLots principalID platform s = sort_key (\<lambda>l. - CompletedAt l)
     (filter (\<lambda>l. lot_PrincipalID l = principalID \<and> (platform = [] \<or> lot_SourceType l = platform)) (mvals (lots s)))"

definition ListProfiles :: "string \<Rightarrow> Ledger \<Rightarrow> InvoiceProfile list" where
  "ListProfiles principalID s = filter (\<lambda>p. prof_PrincipalID p = principalID) (mvals (profiles s))"

definition ListRequests :: "string \<Rightarrow> bool \<Rightarrow> SourceType \<Rightarrow> Ledger \<Rightarrow> InvoiceRequest list" where
  "ListRequests principalID admin platform s = sort_key (\<lambda>r. - SubmittedAt r)
     (filter (\<lambda>r. (admin \<or> req_PrincipalID r = principalID) \<and> (admin \<or> platform = [] \<or> req_SourceType r = platform))
       (mvals (requests s)))"

definition GetRequest :: "string \<Rightarrow> string \<Rightarrow> bool \<Rightarrow> SourceType \<Rightarrow> Ledger \<Rightarrow> invoice_error + InvoiceRequest" where
  "GetRequest principalID requestID admin platform s =
    (case map_of (requests s) requestID of None \<Rightarrow> Inl ErrNotFound
     | Some r \<Rightarrow>
       if \<not> admin \<and> req_PrincipalID r \<noteq> principalID then Inl ErrForbidden
       else if \<not> admin \<and> platform \<noteq> [] \<and> req_SourceType r \<noteq> platform then Inl ErrNotFound
       else Inr r)"

definition find_document :: "string \<Rightarrow> Ledger \<Rightarrow> invoice_error + InvoiceDocument" where
  "find_document requestID s = (case find (\<lambda>d. RequestID d = requestID) (mvals (documents s)) of
     None \<Rightarrow> Inl ErrNotFound | Some d \<Rightarrow> Inr d)"

definition GetDocumentForRequest :: "string \<Rightarrow> string \<Rightarrow> SourceType \<Rightarrow> Ledger \<Rightarrow> invoice_error + InvoiceDocument" where
  "GetDocumentForRequest principalID requestID platform s =
    (case map_of (requests s) requestID of None \<Rightarrow> Inl ErrNotFound
     | Some r \<Rightarrow>
       if req_PrincipalID r \<noteq> principalID then Inl ErrForbidden
       else if platform \<noteq> [] \<and> req_SourceType r \<noteq> platform then Inl ErrNotFound
       else if Status r \<noteq> StatusIssued then Inl ErrInvalidState
       else find_document requestID s)"

definition GetDocumentForRequestAsAdmin :: "string \<Rightarrow> Ledger \<Rightarrow> invoice_error + InvoiceDocument" where
  "GetDocumentForRequestAsAdmin requestID s =
    (case map_of (requests s) requestID of None \<Rightarrow> Inl ErrNotFound
     | Some r \<Rightarrow>
       if Status r \<noteq> StatusIssued \<and> Status r \<noteq> StatusRefundAttention then Inl ErrInvalidState
       else find_document requestID s)"

end
