(* ===== verification/Ledger_Books.thy ===== *)
theory Ledger_Books
  imports Ledger "HOL-Library.Multiset"
begin

text \<open>
  The books of the invoice ledger balance. The operations as a step relation; what is
  reserved on a lot and what is invoiced from it, summed over the requests; and the invariant
  that ties these sums to the counters of the lot. Every step is one of seven kinds of change
  to the books, and every kind keeps the differences between counters and sums.
\<close>

section \<open>Steps\<close>

text \<open>A new request gets an identifier that no request has: twelve random bytes do not repeat.\<close>

inductive ledger_step :: "(string \<Rightarrow> string option) \<Rightarrow> Ledger \<Rightarrow> Ledger \<Rightarrow> bool" for mail_address where
  set_minimum: "ledger_step mail_address s (fst (SetMinimumRequestMinor v s))"
| add_lot: "lot_in64 lot \<Longrightarrow> ledger_step mail_address s (fst (AddFundingLot now lot s))"
| save_profile: "ledger_step mail_address s (fst (SaveProfile mail_address now rnd p s))"
| verify: "in64 paid \<Longrightarrow> ledger_step mail_address s (fst (VerifyNewAPIPaymentWithEvidence now lotID paid currency evidence s))"
| submit: "map_of (requests s) (randomID ''invreq'' rnd) = None \<Longrightarrow> \<forall>a \<in> set (in_Allocations input). in64 (in_AmountMinor a)
    \<Longrightarrow> ledger_step mail_address s (fst (Submit_invoice now rnd input platform s))"
| cancel: "ledger_step mail_address s (fst (Cancel_invoice now principalID requestID v platform s))"
| review: "ledger_step mail_address s (fst (Review now adminID requestID action note v s))"
| confirm: "ledger_step mail_address s (fst (ConfirmManualIssue now adminID requestID v s))"
| begin_issue: "ledger_step mail_address s (fst (BeginManualIssue now adminID requestID v s))"
| attach: "ledger_step mail_address s (fst (AttachDocument now rndDoc rndMail adminID doc v s))"

inductive ledger_reachable :: "(string \<Rightarrow> string option) \<Rightarrow> Ledger \<Rightarrow> bool" for mail_address where
  start: "ledger_reachable mail_address NewService"
| step: "ledger_reachable mail_address s \<Longrightarrow> ledger_step mail_address s s' \<Longrightarrow> ledger_reachable mail_address s'"

inductive_cases ledger_stepE: "ledger_step mail_address s s'"

section \<open>Sums over the requests\<close>

definition alloc_to :: "string \<Rightarrow> InvoiceRequest \<Rightarrow> int" where
  "alloc_to k r = sum_list (map AmountMinor (filter (\<lambda>a. FundingLotID a = k) (Allocations r)))"

definition open_status :: "RequestStatus \<Rightarrow> bool" where
  "open_status st \<longleftrightarrow> st \<in> {StatusPendingReview, StatusNeedsChanges, StatusApproved, StatusManualIssuing}"

definition issued_status :: "RequestStatus \<Rightarrow> bool" where
  "issued_status st \<longleftrightarrow> st \<in> {StatusIssuedAwaitingDocument, StatusIssued}"

definition held :: "string \<Rightarrow> InvoiceRequest \<Rightarrow> int" where
  "held k r = (if open_status (Status r) then alloc_to k r else 0)"

definition invoiced :: "string \<Rightarrow> InvoiceRequest \<Rightarrow> int" where
  "invoiced k r = (if issued_status (Status r) then alloc_to k r else 0)"

definition reserved_for :: "string \<Rightarrow> Ledger \<Rightarrow> int" where
  "reserved_for k s = msum (held k) (requests s)"

definition invoiced_for :: "string \<Rightarrow> Ledger \<Rightarrow> int" where
  "invoiced_for k s = msum (invoiced k) (requests s)"

text \<open>What a request keeps for life.\<close>

definition frozen :: "InvoiceRequest \<Rightarrow> InvoiceRequest" where
  "frozen r = r\<lparr>Status := [], ReviewNote := [], ReviewedBy := [], IssuedBy := [], Version := 0, req_UpdatedAt := 0\<rparr>"

lemma frozen_fields:
  assumes "frozen r' = frozen r"
  shows "req_ID r' = req_ID r" "RequestNo r' = RequestNo r" "req_PrincipalID r' = req_PrincipalID r"
    "req_SourceInstanceID r' = req_SourceInstanceID r" "req_SourceType r' = req_SourceType r"
    "req_AmountMinor r' = req_AmountMinor r" "req_Profile r' = req_Profile r"
    "Allocations r' = Allocations r" "alloc_to k r' = alloc_to k r"
  using assms by (cases r; cases r'; simp add: frozen_def alloc_to_def)+

definition request_ok :: "(string, FundingLot) gomap \<Rightarrow> InvoiceRequest \<Rightarrow> bool" where
  "request_ok m r \<longleftrightarrow> distinct (map FundingLotID (Allocations r))
     \<and> (\<forall>a \<in> set (Allocations r). 0 < AmountMinor a \<and> (\<exists>l. map_of m (FundingLotID a) = Some l
          \<and> lot_PrincipalID l = req_PrincipalID r \<and> lot_SourceInstanceID l = req_SourceInstanceID r
          \<and> lot_SourceType l = req_SourceType r))
     \<and> req_AmountMinor r = sum_list (map AmountMinor (Allocations r))"

definition lots_ok :: "(string, FundingLot) gomap \<Rightarrow> bool" where
  "lots_ok m \<longleftrightarrow> (\<forall>k l. map_of m k = Some l \<longrightarrow> lot_ID l = k \<and> lot_in64 l \<and> FundingLot_Validate l = Inr ())"

definition ledger_inv :: "Ledger \<Rightarrow> bool" where
  "ledger_inv s \<longleftrightarrow> lots_ok (lots s) \<and> distinct (map fst (requests s))
     \<and> (\<forall>k r. map_of (requests s) k = Some r \<longrightarrow> req_ID r = k \<and> request_ok (lots s) r)
     \<and> (\<forall>k l. map_of (lots s) k = Some l \<longrightarrow> reserved_for k s \<le> ReservedMinor l \<and> invoiced_for k s \<le> IssuedMinor l)
     \<and> (\<forall>k rid. map_of (idempotency s) k = Some rid \<longrightarrow> map_of (requests s) rid \<noteq> None)"

lemma find_SomeD: "find P xs = Some x \<Longrightarrow> x \<in> set xs \<and> P x"
  by (induction xs) (auto split: if_splits)

lemma alloc_to_find:
  "distinct (map FundingLotID (Allocations r)) \<Longrightarrow>
    alloc_to k r = (case find (\<lambda>a. FundingLotID a = k) (Allocations r) of None \<Rightarrow> 0 | Some a \<Rightarrow> AmountMinor a)"
proof -
  have "distinct (map FundingLotID as) \<Longrightarrow> sum_list (map AmountMinor (filter (\<lambda>a. FundingLotID a = k) as))
      = (case find (\<lambda>a. FundingLotID a = k) as of None \<Rightarrow> 0 | Some a \<Rightarrow> AmountMinor a)" for as
    by (induction as) (auto split: option.split dest!: find_SomeD)
  then show "distinct (map FundingLotID (Allocations r)) \<Longrightarrow> ?thesis" by (simp add: alloc_to_def)
qed

lemma alloc_to_nonneg: "request_ok m r \<Longrightarrow> 0 \<le> alloc_to k r"
  unfolding alloc_to_def request_ok_def by (rule sum_list_nonneg) auto

lemma alloc_to_unknown: "request_ok m r \<Longrightarrow> map_of m k = None \<Longrightarrow> alloc_to k r = 0"
  unfolding alloc_to_def request_ok_def by (subst filter_False) auto

section \<open>The loops over allocations\<close>

definition keeps_identity :: "(Allocation \<Rightarrow> FundingLot \<Rightarrow> FundingLot) \<Rightarrow> bool" where
  "keeps_identity f \<longleftrightarrow> (\<forall>a l. lot_ID (f a l) = lot_ID l)"

lemma loops_keep_identity [simp]:
  "keeps_identity (reserve_lot now)" "keeps_identity (release_lot now)" "keeps_identity (issue_lot now)"
  by (simp_all add: keeps_identity_def reserve_lot_def release_lot_def issue_lot_def)

lemma touch_known:
  "keeps_identity f \<Longrightarrow> \<forall>k l. map_of m k = Some l \<longrightarrow> lot_ID l = k \<Longrightarrow> map_of m (FundingLotID a) = Some l
    \<Longrightarrow> touch f a m = mput (FundingLotID a) (f a l) m"
  by (simp add: touch_def lot_at_def keeps_identity_def)

lemma fold_touch:
  assumes "keeps_identity f" "distinct (map FundingLotID as)"
    and "\<forall>k l. map_of m k = Some l \<longrightarrow> lot_ID l = k" "\<forall>a \<in> set as. map_of m (FundingLotID a) \<noteq> None"
  shows "map_of (fold (touch f) as m) k = (case map_of m k of None \<Rightarrow> None
    | Some l \<Rightarrow> Some (case find (\<lambda>a. FundingLotID a = k) as of None \<Rightarrow> l | Some a \<Rightarrow> f a l))"
  using assms(2-4)
proof (induction as arbitrary: m)
  case (Cons a as)
  obtain l where l: "map_of m (FundingLotID a) = Some l" using Cons.prems(3) by auto
  have t: "touch f a m = mput (FundingLotID a) (f a l) m" by (rule touch_known [OF assms(1) Cons.prems(2) l])
  have "find (\<lambda>b. FundingLotID b = FundingLotID a) as = None"
    using Cons.prems(1) by (auto simp: find_None_iff image_iff)
  then show ?case
    using Cons.prems l assms(1) by (subst fold.simps) (auto simp: t Cons.IH keeps_identity_def split: option.split)
qed (simp split: option.split)

lemma issue_lots_fold:
  assumes "distinct (map FundingLotID as)" "\<forall>k l. map_of m k = Some l \<longrightarrow> lot_ID l = k"
    and "\<forall>a \<in> set as. \<exists>l. map_of m (FundingLotID a) = Some l \<and> AmountMinor a \<le> ReservedMinor l"
  shows "issue_lots now as m = (fold (touch (issue_lot now)) as m, True)"
  using assms
proof (induction as arbitrary: m)
  case (Cons a as)
  obtain l where l: "map_of m (FundingLotID a) = Some l" "AmountMinor a \<le> ReservedMinor l" using Cons.prems(3) by auto
  have t: "touch (issue_lot now) a m = mput (FundingLotID a) (issue_lot now a l) m"
    by (rule touch_known [OF _ Cons.prems(2) l(1)]) simp
  have "issue_lots now as (touch (issue_lot now) a m) = (fold (touch (issue_lot now)) as (touch (issue_lot now) a m), True)"
    unfolding t using Cons.prems l by (intro Cons.IH) (auto simp: issue_lot_def image_iff)
  then show ?case using l by (simp add: lot_at_def)
qed simp


section \<open>What a loop does to a lot\<close>

definition lot_change :: "int \<Rightarrow> int \<Rightarrow> FundingLot \<Rightarrow> FundingLot \<Rightarrow> bool" where
  "lot_change dr di l l' \<longleftrightarrow> lot_ID l' = lot_ID l \<and> lot_PrincipalID l' = lot_PrincipalID l
     \<and> lot_SourceInstanceID l' = lot_SourceInstanceID l \<and> lot_SourceType l' = lot_SourceType l
     \<and> ReservedMinor l' = ReservedMinor l + dr \<and> IssuedMinor l' = IssuedMinor l + di
     \<and> lot_in64 l' \<and> FundingLot_Validate l' = Inr ()"

lemma lot_change_refl: "lot_in64 l \<Longrightarrow> FundingLot_Validate l = Inr () \<Longrightarrow> lot_change 0 0 l l"
  by (simp add: lot_change_def)

lemma lot_change_intro:
  assumes ok: "lot_in64 l" "FundingLot_Validate l = Inr ()"
    and r: "ReservedMinor l' = ReservedMinor l + dr" and i: "IssuedMinor l' = IssuedMinor l + di"
    and same: "l' = l\<lparr>ReservedMinor := ReservedMinor l', IssuedMinor := IssuedMinor l', lot_UpdatedAt := lot_UpdatedAt l'\<rparr>"
    and nonneg: "0 \<le> ReservedMinor l + dr" "0 \<le> IssuedMinor l + di"
    and cap: "dr + di \<le> 0 \<or> ReservedMinor l + dr + IssuedMinor l + di
      \<le> (if lot_EligibilityKind l = [] then CurrentCapMinor l else ConsumedCashMinor l)"
  shows "lot_change dr di l l'"
proof -
  have f: "lot_ID l' = lot_ID l" "lot_PrincipalID l' = lot_PrincipalID l" "lot_SourceInstanceID l' = lot_SourceInstanceID l"
    "lot_SourceType l' = lot_SourceType l" "ExternalOrderID l' = ExternalOrderID l" "lot_Currency l' = lot_Currency l"
    "OriginalMinor l' = OriginalMinor l" "CurrentCapMinor l' = CurrentCapMinor l" "VerifiedCashMinor l' = VerifiedCashMinor l"
    "ConsumedCashMinor l' = ConsumedCashMinor l" "lot_EligibilityKind l' = lot_EligibilityKind l"
    "EligibilityCutoverAt l' = EligibilityCutoverAt l"
    by (subst same, simp)+
  have v: "lot_identity l" "lot_amounts l" using ok by (simp_all add: FundingLot_Validate_iff)
  have a: "lot_amounts l'"
    using v(2) nonneg cap unfolding lot_amounts_def f r i by (auto split: if_splits)
  then have b: "lot_in64 l'"
    using ok(1) unfolding lot_in64_def lot_amounts_def f by (auto simp: int64_defs)
  have "lot_identity l'" using v(1) by (simp add: lot_identity_def f)
  then show ?thesis using a b by (simp add: lot_change_def f r i FundingLot_Validate_iff)
qed

lemma reserve_lot_change:
  assumes "lot_in64 l" "FundingLot_Validate l = Inr ()" "0 < AmountMinor a" "AmountMinor a \<le> AvailableMinor l"
  shows "lot_change (AmountMinor a) 0 l (reserve_lot now a l)"
proof -
  have v: "lot_amounts l" using assms(1,2) by (simp add: FundingLot_Validate_iff)
  note b = AvailableMinor_bound(1) [OF assms(1) v assms(3,4)]
  have "in64 (ReservedMinor l + AmountMinor a)"
    by (rule in64_nonneg_le [of "OriginalMinor l"])
      (use v b assms(1,3) in \<open>auto simp: lot_in64_def lot_amounts_def split: if_splits\<close>)
  then show ?thesis
    using v b assms(3) by (intro lot_change_intro assms(1,2)) (simp_all add: reserve_lot_def lot_amounts_def)
qed

lemma release_lot_change:
  assumes "lot_in64 l" "FundingLot_Validate l = Inr ()" "0 < AmountMinor a" "AmountMinor a \<le> ReservedMinor l"
  shows "lot_change (- AmountMinor a) 0 l (release_lot now a l)"
proof -
  have v: "lot_amounts l" using assms(1,2) by (simp add: FundingLot_Validate_iff)
  have "in64 (ReservedMinor l - AmountMinor a)"
    by (rule in64_nonneg_le [of "ReservedMinor l"]) (use assms in \<open>auto simp: lot_in64_def\<close>)
  then show ?thesis
    using v assms by (intro lot_change_intro assms(1,2)) (simp_all add: release_lot_def lot_amounts_def)
qed

lemma issue_lot_change:
  assumes "lot_in64 l" "FundingLot_Validate l = Inr ()" "0 < AmountMinor a" "AmountMinor a \<le> ReservedMinor l"
  shows "lot_change (- AmountMinor a) (AmountMinor a) l (issue_lot now a l)"
proof -
  have v: "lot_amounts l" using assms(1,2) by (simp add: FundingLot_Validate_iff)
  have "in64 (ReservedMinor l - AmountMinor a)"
    by (rule in64_nonneg_le [of "ReservedMinor l"]) (use assms in \<open>auto simp: lot_in64_def\<close>)
  moreover have "in64 (IssuedMinor l + AmountMinor a)"
    by (rule in64_nonneg_le [of "OriginalMinor l"]) (use v assms in \<open>auto simp: lot_in64_def lot_amounts_def\<close>)
  ultimately show ?thesis
    using v assms by (intro lot_change_intro assms(1,2)) (simp_all add: issue_lot_def lot_amounts_def)
qed

text \<open>The loop over the allocations of a request changes the lot \<open>k\<close> by what the request
  allocates to it.\<close>

lemma loop_changes:
  assumes ok: "lots_ok m" "request_ok m r" "keeps_identity f"
    and one: "\<And>a l. a \<in> set (Allocations r) \<Longrightarrow> map_of m (FundingLotID a) = Some l \<Longrightarrow>
      lot_change (AmountMinor a * dr) (AmountMinor a * di) l (f a l)"
    and l: "map_of m k = Some l"
  shows "\<exists>l'. map_of (fold (touch f) (Allocations r) m) k = Some l' \<and> lot_change (alloc_to k r * dr) (alloc_to k r * di) l l'"
proof -
  have d: "distinct (map FundingLotID (Allocations r))" using ok(2) by (simp add: request_ok_def)
  have e: "map_of (fold (touch f) (Allocations r) m) k
      = Some (case find (\<lambda>a. FundingLotID a = k) (Allocations r) of None \<Rightarrow> l | Some a \<Rightarrow> f a l)"
    using ok l by (subst fold_touch) (auto simp: lots_ok_def request_ok_def)
  show ?thesis
  proof (cases "find (\<lambda>a. FundingLotID a = k) (Allocations r)")
    case None
    then show ?thesis
      using e ok(1) l by (auto simp: alloc_to_find [OF d] lots_ok_def intro!: lot_change_refl)
  next
    case (Some a)
    then show ?thesis using e one [of a l] l by (auto simp: alloc_to_find [OF d] dest!: find_SomeD)
  qed
qed

lemma loop_dom:
  assumes "lots_ok m" "request_ok m r" "keeps_identity f"
  shows "map_of (fold (touch f) (Allocations r) m) k = None \<longleftrightarrow> map_of m k = None"
  using assms by (subst fold_touch) (auto simp: lots_ok_def request_ok_def split: option.split)


section \<open>The kinds of change to the books\<close>

text \<open>The life of a request: every move it can make.\<close>

definition transitions :: "(RequestStatus \<times> RequestStatus) list" where
  "transitions =
    [(StatusPendingReview, StatusApproved), (StatusPendingReview, StatusNeedsChanges),
     (StatusPendingReview, StatusRejected), (StatusPendingReview, StatusUserCancelled),
     (StatusNeedsChanges, StatusApproved), (StatusNeedsChanges, StatusNeedsChanges),
     (StatusNeedsChanges, StatusRejected), (StatusNeedsChanges, StatusUserCancelled),
     (StatusApproved, StatusManualIssuing), (StatusApproved, StatusIssuedAwaitingDocument),
     (StatusManualIssuing, StatusIssuedAwaitingDocument), (StatusIssuedAwaitingDocument, StatusIssued)]"

text \<open>The lots after a move: an open request that is issued turns what it reserved into
  issued amounts, one that is closed gives it back.\<close>

definition lots_after :: "time \<Rightarrow> InvoiceRequest \<Rightarrow> RequestStatus \<Rightarrow> (string, FundingLot) gomap \<Rightarrow> (string, FundingLot) gomap" where
  "lots_after now r st m =
    (if \<not> open_status (Status r) \<or> open_status st then m
     else if issued_status st then fold (touch (issue_lot now)) (Allocations r) m
     else fold (touch (release_lot now)) (Allocations r) m)"

inductive ledger_move :: "Ledger \<Rightarrow> Ledger \<Rightarrow> bool" where
  quiet: "lots s' = lots s \<Longrightarrow> requests s' = requests s \<Longrightarrow> idempotency s' = idempotency s \<Longrightarrow> ledger_move s s'"
| stored: "lots s' = mput (lot_ID l') l' (lots s) \<Longrightarrow> requests s' = requests s \<Longrightarrow> idempotency s' = idempotency s
    \<Longrightarrow> lot_in64 l' \<Longrightarrow> FundingLot_Validate l' = Inr ()
    \<Longrightarrow> \<forall>l. map_of (lots s) (lot_ID l') = Some l \<longrightarrow> lot_change 0 0 l l' \<Longrightarrow> ledger_move s s'"
| submitted: "map_of (requests s) (req_ID r) = None \<Longrightarrow> request_ok (lots s) r \<Longrightarrow> Status r = StatusPendingReview
    \<Longrightarrow> \<forall>a \<in> set (Allocations r). \<forall>l. map_of (lots s) (FundingLotID a) = Some l \<longrightarrow> AmountMinor a \<le> AvailableMinor l
    \<Longrightarrow> lots s' = fold (touch (reserve_lot now)) (Allocations r) (lots s)
    \<Longrightarrow> requests s' = mput (req_ID r) r (requests s) \<Longrightarrow> idempotency s' = mput key (req_ID r) (idempotency s)
    \<Longrightarrow> map_of (idempotency s) key = None \<Longrightarrow> ledger_move s s'"
| moved: "map_of (requests s) (req_ID r) = Some r \<Longrightarrow> frozen r' = frozen r \<Longrightarrow> Version r' = wrap64 (Version r + 1)
    \<Longrightarrow> (Status r, Status r') \<in> set transitions \<Longrightarrow> lots s' = lots_after now r (Status r') (lots s)
    \<Longrightarrow> requests s' = mput (req_ID r) r' (requests s) \<Longrightarrow> idempotency s' = idempotency s \<Longrightarrow> ledger_move s s'"

text \<open>A lot that exists stays, with its identity and with the same distance of its counters to
  the sums over the requests.\<close>

definition books_kept :: "Ledger \<Rightarrow> Ledger \<Rightarrow> bool" where
  "books_kept s s' \<longleftrightarrow> (\<forall>k l. map_of (lots s) k = Some l \<longrightarrow> (\<exists>l' dr di. map_of (lots s') k = Some l'
     \<and> lot_change dr di l l' \<and> reserved_for k s' = reserved_for k s + dr \<and> invoiced_for k s' = invoiced_for k s + di))"

lemma transitions_classes:
  assumes "(a, b) \<in> set transitions"
  shows "issued_status a \<Longrightarrow> issued_status b" "open_status b \<Longrightarrow> open_status a" "open_status a \<Longrightarrow> \<not> issued_status a"
    "open_status b \<Longrightarrow> \<not> issued_status b" "\<not> open_status a \<Longrightarrow> issued_status a"
  using assms by (auto simp: transitions_def open_status_def issued_status_def)

lemma ledger_inv_lot:
  assumes "ledger_inv s" "map_of (lots s) k = Some l"
  shows "lot_ID l = k" "lot_in64 l" "FundingLot_Validate l = Inr ()"
    "reserved_for k s \<le> ReservedMinor l" "invoiced_for k s \<le> IssuedMinor l"
  using assms by (auto simp: ledger_inv_def lots_ok_def)

lemma ledger_inv_request:
  assumes "ledger_inv s" "map_of (requests s) k = Some r"
  shows "req_ID r = k" "request_ok (lots s) r"
  using assms by (auto simp: ledger_inv_def)

lemma request_found: "ledger_inv s \<Longrightarrow> r \<in> set (mvals (requests s)) \<longleftrightarrow> (\<exists>k. map_of (requests s) k = Some r)"
  by (rule mvals_map_of) (simp add: ledger_inv_def)

lemma held_nonneg:
  assumes "ledger_inv s" "r \<in> set (mvals (requests s))"
  shows "0 \<le> held k r \<and> 0 \<le> invoiced k r"
  using assms(2) alloc_to_nonneg [OF ledger_inv_request(2) [OF assms(1)]]
  unfolding request_found [OF assms(1)] by (auto simp: held_def invoiced_def)

lemma sums_nonneg: "ledger_inv s \<Longrightarrow> 0 \<le> reserved_for k s \<and> 0 \<le> invoiced_for k s"
  unfolding reserved_for_def invoiced_for_def using held_nonneg by (blast intro: msum_nonneg)

text \<open>An open request holds on each of its lots what it allocates.\<close>

lemma open_request_held:
  assumes "ledger_inv s" "map_of (requests s) j = Some r" "open_status (Status r)"
    and a: "a \<in> set (Allocations r)" "map_of (lots s) (FundingLotID a) = Some l"
  shows "0 < AmountMinor a" "AmountMinor a \<le> ReservedMinor l"
proof -
  note ok = ledger_inv_request(2) [OF assms(1,2)]
  show p: "0 < AmountMinor a" using ok a(1) by (simp add: request_ok_def)
  have "AmountMinor a \<le> alloc_to (FundingLotID a) r"
    unfolding alloc_to_def using ok a(1)
    by (intro member_le_sum_list) (auto simp: request_ok_def)
  also have "\<dots> = held (FundingLotID a) r" using assms(3) by (simp add: held_def)
  also have "\<dots> \<le> reserved_for (FundingLotID a) s"
    unfolding reserved_for_def using held_nonneg [OF assms(1)] assms(2) request_found [OF assms(1)]
    by (intro msum_ge_member) blast+
  finally show "AmountMinor a \<le> ReservedMinor l" using ledger_inv_lot(4) [OF assms(1) a(2)] by simp
qed

lemma lots_after_change:
  assumes inv: "ledger_inv s" "map_of (requests s) (req_ID r) = Some r" "(Status r, st) \<in> set transitions"
    and l: "map_of (lots s) k = Some l" and r': "frozen r' = frozen r" "Status r' = st"
  shows "\<exists>l'. map_of (lots_after now r st (lots s)) k = Some l'
    \<and> lot_change (held k r' - held k r) (invoiced k r' - invoiced k r) l l'"
proof -
  note ok = ledger_inv_request(2) [OF inv(1,2)]
  have m: "lots_ok (lots s)" using inv(1) by (simp add: ledger_inv_def)
  note al = frozen_fields(9) [OF r'(1)]
  note cl = transitions_classes [OF inv(3)]
  consider (same) "\<not> open_status (Status r) \<or> open_status st"
    | (issue) "open_status (Status r)" "\<not> open_status st" "issued_status st"
    | (release) "open_status (Status r)" "\<not> open_status st" "\<not> issued_status st" by blast
  then show ?thesis
  proof cases
    case same
    then have "held k r' = held k r" "invoiced k r' = invoiced k r"
      using cl r'(2) by (auto simp: held_def invoiced_def al)
    then show ?thesis
      using same l m by (auto simp: lots_after_def lots_ok_def intro: lot_change_refl)
  next
    case issue
    then have e: "held k r' - held k r = alloc_to k r * -1" "invoiced k r' - invoiced k r = alloc_to k r * 1"
      using cl r'(2) by (auto simp: held_def invoiced_def al)
    have "\<exists>l'. map_of (fold (touch (issue_lot now)) (Allocations r) (lots s)) k = Some l'
        \<and> lot_change (alloc_to k r * -1) (alloc_to k r * 1) l l'"
    proof (rule loop_changes [OF m ok _ _ l])
      fix a l assume a: "a \<in> set (Allocations r)" "map_of (lots s) (FundingLotID a) = Some l"
      show "lot_change (AmountMinor a * -1) (AmountMinor a * 1) l (issue_lot now a l)"
        using issue_lot_change [OF ledger_inv_lot(2,3) [OF inv(1) a(2)] open_request_held [OF inv(1,2) issue(1) a]] by simp
    qed simp
    then show ?thesis using issue by (simp only: e) (simp add: lots_after_def)
  next
    case release
    then have e: "held k r' - held k r = alloc_to k r * -1" "invoiced k r' - invoiced k r = alloc_to k r * 0"
      using cl r'(2) by (auto simp: held_def invoiced_def al)
    have "\<exists>l'. map_of (fold (touch (release_lot now)) (Allocations r) (lots s)) k = Some l'
        \<and> lot_change (alloc_to k r * -1) (alloc_to k r * 0) l l'"
    proof (rule loop_changes [OF m ok _ _ l])
      fix a l assume a: "a \<in> set (Allocations r)" "map_of (lots s) (FundingLotID a) = Some l"
      show "lot_change (AmountMinor a * -1) (AmountMinor a * 0) l (release_lot now a l)"
        using release_lot_change [OF ledger_inv_lot(2,3) [OF inv(1) a(2)] open_request_held [OF inv(1,2) release(1) a]] by simp
    qed simp
    then show ?thesis using release by (simp only: e) (simp add: lots_after_def)
  qed
qed

lemma ledger_move_books:
  assumes "ledger_move s s'" "ledger_inv s"
  shows "books_kept s s'"
  using assms(1)
proof cases
  case quiet
  then show ?thesis
    using ledger_inv_lot [OF assms(2)] lot_change_refl
    by (fastforce simp: books_kept_def reserved_for_def invoiced_for_def)
next
  case (stored l')
  have "\<exists>l2 dr di. map_of (lots s') k = Some l2 \<and> lot_change dr di l l2
      \<and> reserved_for k s' = reserved_for k s + dr \<and> invoiced_for k s' = invoiced_for k s + di"
    if l: "map_of (lots s) k = Some l" for k l
    using stored l lot_change_refl [OF ledger_inv_lot(2,3) [OF assms(2) l]]
    by (intro exI [of _ "if k = lot_ID l' then l' else l"] exI [of _ 0])
      (auto simp: reserved_for_def invoiced_for_def)
  then show ?thesis by (simp add: books_kept_def)
next
  case (submitted r now key)
  have m: "lots_ok (lots s)" using assms(2) by (simp add: ledger_inv_def)
  have h: "held k r = alloc_to k r * 1" "invoiced k r = alloc_to k r * 0" for k
    using submitted(3) by (auto simp: held_def invoiced_def open_status_def issued_status_def)
  have "\<exists>l'. map_of (lots s') k = Some l' \<and> lot_change (alloc_to k r * 1) (alloc_to k r * 0) l l'"
    if l: "map_of (lots s) k = Some l" for k l
    unfolding submitted(5)
  proof (rule loop_changes [OF m submitted(2) _ _ l])
    fix a l assume a: "a \<in> set (Allocations r)" "map_of (lots s) (FundingLotID a) = Some l"
    have "0 < AmountMinor a" using submitted(2) a(1) by (simp add: request_ok_def)
    then show "lot_change (AmountMinor a * 1) (AmountMinor a * 0) l (reserve_lot now a l)"
      using reserve_lot_change [OF ledger_inv_lot(2,3) [OF assms(2) a(2)]] submitted(4) a by simp
  qed simp
  moreover have "reserved_for k s' = reserved_for k s + alloc_to k r * 1" "invoiced_for k s' = invoiced_for k s + alloc_to k r * 0" for k
    using submitted(1) by (simp_all add: reserved_for_def invoiced_for_def submitted(6) msum_new h)
  ultimately show ?thesis unfolding books_kept_def by blast
next
  case (moved r r' now)
  have "\<exists>l'. map_of (lots s') k = Some l' \<and> lot_change (held k r' - held k r) (invoiced k r' - invoiced k r) l l'"
    if l: "map_of (lots s) k = Some l" for k l
    unfolding moved(5) by (rule lots_after_change [OF assms(2) moved(1,4) l moved(2) refl])
  moreover have "reserved_for k s' = reserved_for k s + (held k r' - held k r)"
    "invoiced_for k s' = invoiced_for k s + (invoiced k r' - invoiced k r)" for k
    by (simp_all add: reserved_for_def invoiced_for_def moved(6) msum_old [OF moved(1)])
  ultimately show ?thesis unfolding books_kept_def by blast
qed


section \<open>The invariant\<close>

lemma request_ok_kept:
  assumes "request_ok m r" "\<And>k l. map_of m k = Some l \<Longrightarrow> \<exists>l' dr di. map_of m' k = Some l' \<and> lot_change dr di l l'"
  shows "request_ok m' r"
proof -
  have "\<exists>l'. map_of m' (FundingLotID a) = Some l' \<and> lot_PrincipalID l' = req_PrincipalID r
      \<and> lot_SourceInstanceID l' = req_SourceInstanceID r \<and> lot_SourceType l' = req_SourceType r"
    if a: "a \<in> set (Allocations r)" for a
  proof -
    obtain l where l: "map_of m (FundingLotID a) = Some l" "lot_PrincipalID l = req_PrincipalID r"
      "lot_SourceInstanceID l = req_SourceInstanceID r" "lot_SourceType l = req_SourceType r"
      using assms(1) a by (auto simp: request_ok_def)
    show ?thesis using assms(2) [OF l(1)] l(2-4) by (auto simp: lot_change_def)
  qed
  then show ?thesis using assms(1) by (simp add: request_ok_def)
qed

lemma request_ok_frozen: "frozen r' = frozen r \<Longrightarrow> request_ok m r \<Longrightarrow> request_ok m r'"
  using frozen_fields [of r' r] by (simp add: request_ok_def)

lemma ledger_move_lots:
  assumes "ledger_move s s'" "ledger_inv s" "map_of (lots s) k = None" "map_of (lots s') k = Some l"
  shows "lot_ID l = k \<and> lot_in64 l \<and> FundingLot_Validate l = Inr () \<and> requests s' = requests s"
  using assms(1)
proof cases
  case (moved r r' now)
  have "map_of (lots_after now r (Status r') (lots s)) k = None"
    using assms(2,3) ledger_inv_request(2) [OF assms(2) moved(1)]
    by (simp add: lots_after_def loop_dom ledger_inv_def)
  then show ?thesis using assms(4) moved(5) by simp
next
  case (submitted r now key)
  have "map_of (lots s') k = None"
    unfolding submitted(5) using assms(2,3) submitted(2) by (subst loop_dom) (simp_all add: ledger_inv_def)
  then show ?thesis using assms(4) by simp
next
  case (stored l')
  then show ?thesis using assms(3,4) by (auto split: if_splits)
qed (use assms(3,4) in simp)

lemma ledger_move_requests:
  assumes "ledger_move s s'" "ledger_inv s"
  shows "distinct (map fst (requests s'))"
    and "\<And>k r. map_of (requests s') k = Some r \<Longrightarrow> req_ID r = k \<and> (\<exists>r0. request_ok (lots s) r0 \<and> frozen r = frozen r0)"
    and "\<And>k r. map_of (requests s) k = Some r \<Longrightarrow> map_of (requests s') k \<noteq> None"
    and "\<And>key rid. map_of (idempotency s') key = Some rid \<Longrightarrow> map_of (requests s') rid \<noteq> None"
proof -
  have d: "distinct (map fst (requests s))" using assms(2) by (simp add: ledger_inv_def)
  have i: "map_of (idempotency s) key = Some rid \<Longrightarrow> map_of (requests s) rid \<noteq> None" for key rid
    using assms(2) by (auto simp: ledger_inv_def)
  note rq = ledger_inv_request [OF assms(2)]
  from assms(1) show "distinct (map fst (requests s'))"
    by cases (use d distinct_mput in auto)
  show "req_ID r = k \<and> (\<exists>r0. request_ok (lots s) r0 \<and> frozen r = frozen r0)"
    if "map_of (requests s') k = Some r" for k r
    using assms(1)
  proof cases
    case (submitted r1 now key)
    then have "k = req_ID r1 \<and> r = r1 \<or> map_of (requests s) k = Some r" using that by (auto split: if_splits)
    then show ?thesis using rq submitted(2) by blast
  next
    case (moved r1 r2 now)
    show ?thesis
    proof (cases "k = req_ID r1")
      case True
      then have "r = r2" using that moved(6) by simp
      then show ?thesis using True moved(2) rq(2) [OF moved(1)] frozen_fields(1) by blast
    next
      case False
      then have "map_of (requests s) k = Some r" using that moved(6) by simp
      then show ?thesis using rq by blast
    qed
  next
    case quiet
    then show ?thesis using that rq by metis
  next
    case stored
    then show ?thesis using that rq by metis
  qed
  show "map_of (requests s') k \<noteq> None" if "map_of (requests s) k = Some r" for k r
    using assms(1) by cases (use that in auto)
  show "map_of (requests s') rid \<noteq> None" if "map_of (idempotency s') key = Some rid" for key rid
    using assms(1) by cases (use that i in \<open>auto split: if_splits\<close>)
qed

lemma sums_unknown_lot:
  assumes "ledger_inv s" "map_of (lots s) k = None"
  shows "reserved_for k s = 0" "invoiced_for k s = 0"
  unfolding reserved_for_def invoiced_for_def
  using alloc_to_unknown [OF ledger_inv_request(2) [OF assms(1)] assms(2)] request_found [OF assms(1)]
  by (auto intro!: msum_zero simp: held_def invoiced_def)

lemma ledger_move_inv:
  assumes "ledger_move s s'" "ledger_inv s"
  shows "ledger_inv s'"
proof -
  have kept: "\<exists>l' dr di. map_of (lots s') k = Some l' \<and> lot_change dr di l l' \<and> reserved_for k s' = reserved_for k s + dr
      \<and> invoiced_for k s' = invoiced_for k s + di" if "map_of (lots s) k = Some l" for k l
    using ledger_move_books [OF assms] that by (simp add: books_kept_def)
  note rq = ledger_move_requests [OF assms]
  have lot: "lot_ID l' = k \<and> lot_in64 l' \<and> FundingLot_Validate l' = Inr () \<and> reserved_for k s' \<le> ReservedMinor l'
      \<and> invoiced_for k s' \<le> IssuedMinor l'" if l': "map_of (lots s') k = Some l'" for k l'
  proof (cases "map_of (lots s) k")
    case None
    note new = ledger_move_lots [OF assms None l']
    then have "reserved_for k s' = 0" "invoiced_for k s' = 0"
      using sums_unknown_lot [OF assms(2) None] by (simp_all add: reserved_for_def invoiced_for_def)
    moreover have "lot_amounts l'" using new FundingLot_Validate_iff [of l' "()"] by simp
    ultimately show ?thesis using new by (simp add: lot_amounts_def)
  next
    case (Some l)
    then show ?thesis
      using kept [OF Some] l' ledger_inv_lot [OF assms(2) Some] by (auto simp: lot_change_def)
  qed
  have "request_ok (lots s') r" if r: "map_of (requests s') k = Some r" for k r
  proof -
    obtain r0 where r0: "request_ok (lots s) r0" "frozen r = frozen r0" using rq(2) [OF r] by blast
    have "request_ok (lots s') r0"
    proof (rule request_ok_kept [OF r0(1)])
      fix k l assume "map_of (lots s) k = Some l"
      from kept [OF this] show "\<exists>l' dr di. map_of (lots s') k = Some l' \<and> lot_change dr di l l'" by blast
    qed
    then show ?thesis by (rule request_ok_frozen [OF r0(2)])
  qed
  then show ?thesis
    using lot rq unfolding ledger_inv_def lots_ok_def by blast
qed

section \<open>Every operation is one of them\<close>

lemma check_allocations_sound:
  assumes "check_allocations s input platform reqs seen as tot st = Inr (as', tot', st')"
    and "lots_ok (lots s)" "\<forall>a \<in> set reqs. in64 (in_AmountMinor a)" "0 \<le> tot" "in64 tot"
    and "st \<noteq> [] \<longrightarrow> SourceType_Valid st"
  shows "\<exists>new. as' = as @ new \<and> distinct (map FundingLotID new) \<and> set (map FundingLotID new) \<inter> set seen = {}
    \<and> map (\<lambda>a. (FundingLotID a, AmountMinor a)) new = map (\<lambda>a. (in_FundingLotID a, in_AmountMinor a)) reqs
    \<and> tot' = tot + sum_list (map AmountMinor new) \<and> (st \<noteq> [] \<longrightarrow> st' = st)
    \<and> (\<forall>a \<in> set new. 0 < AmountMinor a \<and> (\<exists>l. map_of (lots s) (FundingLotID a) = Some l
         \<and> lot_PrincipalID l = in_PrincipalID input \<and> lot_SourceInstanceID l = in_SourceInstanceID input
         \<and> lot_SourceType l = st' \<and> (platform \<noteq> [] \<longrightarrow> lot_SourceType l = platform)
         \<and> AmountMinor a \<le> AvailableMinor l))"
  using assms
proof (induction reqs arbitrary: seen as tot st)
  case (Cons q rest)
  obtain lot where lot: "map_of (lots s) (in_FundingLotID q) = Some lot"
    using Cons.prems(1) by (auto split: option.splits if_splits)
  have nn: "wrap64 (max_int64 - tot) = max_int64 - tot"
    using Cons.prems(4,5) by (intro wrap64_id) (simp add: int64_defs)
  note c = Cons.prems(1) [unfolded check_allocations.simps lot option.case nn if_Inl_eq_Inr]
  have id: "lot_ID lot = in_FundingLotID q" "SourceType_Valid (lot_SourceType lot)"
    using Cons.prems(2) lot FundingLot_Validate_iff [of lot "()"] by (auto simp: lots_ok_def lot_identity_def)
  have w: "wrap64 (tot + in_AmountMinor q) = tot + in_AmountMinor q" "in64 (tot + in_AmountMinor q)"
    "0 \<le> tot + in_AmountMinor q"
    using c Cons.prems(4) by (auto simp: int64_defs intro!: wrap64_id)
  have nonempty: "lot_SourceType lot \<noteq> []" using id(2) by (auto simp: SourceType_Valid_def)
  define st1 where "st1 = (if st = [] then lot_SourceType lot else st)"
  have st1: "st1 \<noteq> []" "SourceType_Valid st1" "st1 = lot_SourceType lot" "st \<noteq> [] \<longrightarrow> st1 = st"
    using c nonempty id(2) by (auto simp: st1_def)
  define a1 where "a1 = \<lparr>FundingLotID = lot_ID lot, ExternalOrder = ExternalOrderID lot, AmountMinor = in_AmountMinor q\<rparr>"
  have a1: "FundingLotID a1 = in_FundingLotID q" "AmountMinor a1 = in_AmountMinor q" by (simp_all add: a1_def id)
  have more: "check_allocations s input platform rest (in_FundingLotID q # seen) (as @ [a1]) (tot + in_AmountMinor q) st1
      = Inr (as', tot', st')"
  proof -
    have "check_allocations s input platform rest (in_FundingLotID q # seen) (as @ [a1])
        (wrap64 (tot + in_AmountMinor q)) st1 = Inr (as', tot', st')"
      unfolding st1_def a1_def using c by (elim conjE)
    then show ?thesis unfolding w(1) .
  qed
  have one: "0 < in_AmountMinor q" "in_FundingLotID q \<notin> set seen" "lot_PrincipalID lot = in_PrincipalID input"
    "platform \<noteq> [] \<longrightarrow> lot_SourceType lot = platform" "lot_SourceInstanceID lot = in_SourceInstanceID input"
    "in_AmountMinor q \<le> AvailableMinor lot"
    using c by auto
  have "\<forall>a \<in> set rest. in64 (in_AmountMinor a)" "st1 \<noteq> [] \<longrightarrow> SourceType_Valid st1" using Cons.prems(3) st1(2) by auto
  from Cons.IH [OF more Cons.prems(2) this(1) w(3,2) this(2)] obtain new where new:
    "as' = (as @ [a1]) @ new" "distinct (map FundingLotID new)" "set (map FundingLotID new) \<inter> set (in_FundingLotID q # seen) = {}"
    "map (\<lambda>a. (FundingLotID a, AmountMinor a)) new = map (\<lambda>a. (in_FundingLotID a, in_AmountMinor a)) rest"
    "tot' = tot + in_AmountMinor q + sum_list (map AmountMinor new)" "st1 \<noteq> [] \<longrightarrow> st' = st1"
    and all: "\<forall>a \<in> set new. 0 < AmountMinor a \<and> (\<exists>l. map_of (lots s) (FundingLotID a) = Some l
       \<and> lot_PrincipalID l = in_PrincipalID input \<and> lot_SourceInstanceID l = in_SourceInstanceID input
       \<and> lot_SourceType l = st' \<and> (platform \<noteq> [] \<longrightarrow> lot_SourceType l = platform)
       \<and> AmountMinor a \<le> AvailableMinor l)"
    by blast
  show ?case
  proof (intro exI [of _ "a1 # new"] conjI)
    show "as' = as @ a1 # new" using new(1) by simp
    show "distinct (map FundingLotID (a1 # new))" using new(2,3) by (auto simp: a1)
    show "set (map FundingLotID (a1 # new)) \<inter> set seen = {}" using new(3) one(2) by (auto simp: a1)
    show "st \<noteq> [] \<longrightarrow> st' = st" using new(6) st1 by auto
  qed (use new(4-6) one lot a1 st1 all in auto)
qed simp


lemma ledger_move_refl [simp]: "ledger_move s s"
  by (rule ledger_move.quiet) simp_all

lemma Validate_times [simp]:
  "FundingLot_Validate (l\<lparr>ObservedAt := t\<rparr>) = FundingLot_Validate l"
  "FundingLot_Validate (l\<lparr>lot_UpdatedAt := t\<rparr>) = FundingLot_Validate l"
  "lot_in64 (l\<lparr>ObservedAt := t\<rparr>) = lot_in64 l" "lot_in64 (l\<lparr>lot_UpdatedAt := t\<rparr>) = lot_in64 l"
  by (simp_all add: FundingLot_Validate_def lot_in64_def)

lemma new_lot_move:
  "lot_ID l' = k \<Longrightarrow> map_of (lots s) k = None \<Longrightarrow> lot_in64 l' \<Longrightarrow> FundingLot_Validate l' = Inr ()
    \<Longrightarrow> ledger_move s (s\<lparr>lots := mput k l' (lots s)\<rparr>)"
  by (rule ledger_move.stored [of _ l']) simp_all

lemma AddFundingLot_move: "lot_in64 lot \<Longrightarrow> ledger_move s (fst (AddFundingLot now lot s))"
  unfolding AddFundingLot_def Let_def
  by (auto split: sum.split intro!: new_lot_move)

lemma VerifyNewAPIPayment_move:
  assumes "ledger_inv s" "in64 paid"
  shows "ledger_move s (fst (VerifyNewAPIPayment now lotID paid currency s))"
proof (cases "map_of (lots s) lotID")
  case (Some lot)
  note l = ledger_inv_lot [OF assms(1) Some]
  define l' where "l' = lot\<lparr>lot_Currency := currency, OriginalMinor := paid, CurrentCapMinor := paid,
    Verification := VerificationVerified, lot_UpdatedAt := now\<rparr>"
  have f: "lot_ID l' = lotID" "lot_in64 l'" using l assms(2) by (simp_all add: l'_def lot_in64_def)
  have "ledger_move s (s\<lparr>lots := mput lotID l' (lots s)\<rparr>)" if v: "FundingLot_Validate l' = Inr ()"
    using f v Some by (intro ledger_move.stored [of _ l']) (auto simp: lot_change_def l'_def)
  then show ?thesis
    unfolding VerifyNewAPIPayment_def Some option.case Let_def l'_def [symmetric] f(1) by (simp split: sum.split)
qed (simp add: VerifyNewAPIPayment_def)

lemma Submit_invoice_cases:
  assumes "ledger_inv s" "map_of (requests s) (randomID ''invreq'' rnd) = None"
    and "\<forall>a \<in> set (in_Allocations input). in64 (in_AmountMinor a)"
    and "Submit_invoice now rnd input platform s = (s', Inr r)"
  shows "s' = s \<and> (\<exists>k. map_of (idempotency s) (submit_key input) = Some k \<and> map_of (requests s) k = Some r)
    \<or> map_of (idempotency s) (submit_key input) = None \<and> map_of (requests s) (req_ID r) = None
      \<and> request_ok (lots s) r \<and> Status r = StatusPendingReview \<and> Version r = 1
      \<and> (\<forall>a \<in> set (Allocations r). \<forall>l. map_of (lots s) (FundingLotID a) = Some l \<longrightarrow> AmountMinor a \<le> AvailableMinor l)
      \<and> lots s' = fold (touch (reserve_lot now)) (Allocations r) (lots s)
      \<and> requests s' = mput (req_ID r) r (requests s) \<and> idempotency s' = mput (submit_key input) (req_ID r) (idempotency s)
      \<and> req_PrincipalID r = in_PrincipalID input \<and> minimumRequestMinor s \<le> req_AmountMinor r
      \<and> map (\<lambda>a. (FundingLotID a, AmountMinor a)) (Allocations r)
        = map (\<lambda>a. (in_FundingLotID a, in_AmountMinor a)) (sort_key in_FundingLotID (in_Allocations input))"
proof (cases "map_of (idempotency s) (submit_key input)")
  case (Some k)
  then obtain r0 where "map_of (requests s) k = Some r0" using assms(1) unfolding ledger_inv_def by blast
  then show ?thesis using assms(4) Some by (simp add: Submit_invoice_def split: if_splits)
next
  case None
  have m: "lots_ok (lots s)" using assms(1) by (simp add: ledger_inv_def)
  obtain profile allocs tot st where c: "check_allocations s input platform (sort_key in_FundingLotID (in_Allocations input)) [] [] 0 []
      = Inr (allocs, tot, st)"
    and t: "minimumRequestMinor s \<le> tot"
    and r: "r = new_request now (randomID ''invreq'' rnd) input profile allocs tot st"
    and s': "s' = s\<lparr>lots := fold (touch (reserve_lot now)) allocs (lots s), requests := mput (randomID ''invreq'' rnd) r (requests s),
      idempotency := mput (submit_key input) (randomID ''invreq'' rnd) (idempotency s)\<rparr>"
    using assms(4) None by (auto simp: Submit_invoice_def Let_def split: if_splits option.splits sum.splits)
  have "\<forall>a \<in> set (sort_key in_FundingLotID (in_Allocations input)). in64 (in_AmountMinor a)" using assms(3) by simp
  from check_allocations_sound [OF c m this] have new: "distinct (map FundingLotID allocs)"
    "map (\<lambda>a. (FundingLotID a, AmountMinor a)) allocs
       = map (\<lambda>a. (in_FundingLotID a, in_AmountMinor a)) (sort_key in_FundingLotID (in_Allocations input))"
    "tot = sum_list (map AmountMinor allocs)"
    "\<forall>a \<in> set allocs. 0 < AmountMinor a \<and> (\<exists>l. map_of (lots s) (FundingLotID a) = Some l
         \<and> lot_PrincipalID l = in_PrincipalID input \<and> lot_SourceInstanceID l = in_SourceInstanceID input
         \<and> lot_SourceType l = st \<and> (platform \<noteq> [] \<longrightarrow> lot_SourceType l = platform)
         \<and> AmountMinor a \<le> AvailableMinor l)"
    by simp_all
  have f: "req_ID r = randomID ''invreq'' rnd" "req_PrincipalID r = in_PrincipalID input" "Allocations r = allocs"
    "req_SourceInstanceID r = in_SourceInstanceID input" "req_SourceType r = st" "req_AmountMinor r = tot"
    "Status r = StatusPendingReview" "Version r = 1"
    by (simp_all add: r new_request_def)
  have "request_ok (lots s) r"
    unfolding request_ok_def f using new by blast
  moreover have "\<forall>a \<in> set allocs. \<forall>l. map_of (lots s) (FundingLotID a) = Some l \<longrightarrow> AmountMinor a \<le> AvailableMinor l"
    using new(4) by fastforce
  ultimately show ?thesis using None assms(2) t new(2) unfolding f by (simp add: s' f)
qed

lemma Submit_invoice_fail: "Submit_invoice now rnd input platform s = (s', Inl e) \<Longrightarrow> s' = s"
  unfolding Submit_invoice_def Let_def by (auto split: if_splits option.splits sum.splits)

lemma Submit_invoice_move:
  assumes "ledger_inv s" "map_of (requests s) (randomID ''invreq'' rnd) = None"
    and "\<forall>a \<in> set (in_Allocations input). in64 (in_AmountMinor a)"
  shows "ledger_move s (fst (Submit_invoice now rnd input platform s))"
proof -
  obtain s' res where e: "Submit_invoice now rnd input platform s = (s', res)" by force
  show ?thesis
  proof (cases res)
    case (Inl err)
    then show ?thesis using e Submit_invoice_fail [of now rnd input platform s s' err] by simp
  next
    case (Inr r)
    from Submit_invoice_cases [OF assms e [unfolded Inr]] show ?thesis
      unfolding e fst_conv by (elim disjE conjE) (simp, rule ledger_move.submitted)
  qed
qed


lemma frozen_moves [simp]:
  "frozen (bump now r) = frozen r" "frozen (r\<lparr>Status := st\<rparr>) = frozen r" "frozen (r\<lparr>ReviewedBy := a\<rparr>) = frozen r"
  "frozen (r\<lparr>ReviewNote := n\<rparr>) = frozen r" "frozen (r\<lparr>IssuedBy := a\<rparr>) = frozen r"
  by (simp_all add: frozen_def bump_def)

lemma bump_fields [simp]:
  "Version (bump now r) = wrap64 (Version r + 1)" "Status (bump now r) = Status r" "req_ID (bump now r) = req_ID r"
  by (simp_all add: bump_def)

text \<open>A request stored in its new state, with the lots as \<open>lots_after\<close> has them.\<close>

lemma store_request_move:
  assumes "ledger_inv s" "map_of (requests s) k = Some r" "frozen r' = frozen r" "Version r' = wrap64 (Version r + 1)"
    and "(Status r, Status r') \<in> set transitions" "m = lots_after now r (Status r') (lots s)"
  shows "ledger_move s (store_request r' (s\<lparr>lots := m\<rparr>))"
  using assms ledger_inv_request(1) [OF assms(1,2)] frozen_fields(1) [OF assms(3)]
  by (intro ledger_move.moved [of s r r' _ now]) (simp_all add: store_request_def)

lemma lots_same: "s = s\<lparr>lots := lots s\<rparr>"
  by simp

lemma Cancel_invoice_move:
  assumes "ledger_inv s"
  shows "ledger_move s (fst (Cancel_invoice now principalID requestID v platform s))"
  unfolding Cancel_invoice_def Let_def releaseLocked_def
  by (auto split: option.split intro!: store_request_move [OF assms, where now = now]
      simp: transitions_def lots_after_def open_status_def issued_status_def)

lemma Review_move:
  assumes "ledger_inv s"
  shows "ledger_move s (fst (Review now adminID requestID action note v s))"
proof (cases "map_of (requests s) requestID")
  case (Some r)
  define r' where "r' st = bump now (r\<lparr>Status := st, ReviewedBy := adminID, ReviewNote := trim_space note\<rparr>)" for st
  have f: "frozen (r' st) = frozen r" "Version (r' st) = wrap64 (Version r + 1)" "Status (r' st) = st" for st
    by (simp_all add: r'_def)
  have go: "ledger_move s (store_request (r' st) (s\<lparr>lots := lots_after now r st (lots s)\<rparr>))"
    if "(Status r, st) \<in> set transitions" for st
    by (rule store_request_move [OF assms Some f(1,2)]) (use that f in auto)
  have "ledger_move s (store_request (r' st) s)"
    if "Status r = StatusPendingReview \<or> Status r = StatusNeedsChanges" "st = StatusApproved \<or> st = StatusNeedsChanges" for st
  proof -
    have "(Status r, st) \<in> set transitions" "lots_after now r st (lots s) = lots s"
      using that by (auto simp: transitions_def lots_after_def open_status_def)
    then show ?thesis using go [of st] by simp
  qed
  moreover have "ledger_move s (store_request (r' StatusRejected) (releaseLocked now r s))"
    if "Status r = StatusPendingReview \<or> Status r = StatusNeedsChanges"
  proof -
    have "(Status r, StatusRejected) \<in> set transitions"
      "lots_after now r StatusRejected (lots s) = fold (touch (release_lot now)) (Allocations r) (lots s)"
      using that by (auto simp: transitions_def lots_after_def open_status_def issued_status_def)
    then show ?thesis using go [of StatusRejected] by (simp add: releaseLocked_def)
  qed
  ultimately show ?thesis
    unfolding Review_def Some option.case Let_def r'_def [symmetric] by (simp del: bump_fields)
qed (simp add: Review_def)

lemma issue_lots_open:
  assumes "ledger_inv s" "map_of (requests s) k = Some r" "open_status (Status r)"
  shows "issue_lots now (Allocations r) (lots s) = (fold (touch (issue_lot now)) (Allocations r) (lots s), True)"
proof (rule issue_lots_fold)
  note ok = ledger_inv_request(2) [OF assms(1,2)]
  show "distinct (map FundingLotID (Allocations r))" using ok by (simp add: request_ok_def)
  show "\<forall>k l. map_of (lots s) k = Some l \<longrightarrow> lot_ID l = k" using ledger_inv_lot(1) [OF assms(1)] by blast
  show "\<forall>a \<in> set (Allocations r). \<exists>l. map_of (lots s) (FundingLotID a) = Some l \<and> AmountMinor a \<le> ReservedMinor l"
    using ok open_request_held(2) [OF assms] unfolding request_ok_def by blast
qed

lemma ConfirmManualIssue_eq:
  assumes "ledger_inv s"
  shows "ConfirmManualIssue now adminID requestID v s =
    (case map_of (requests s) requestID of None \<Rightarrow> (s, Inl ErrNotFound)
     | Some r \<Rightarrow>
       if Version r \<noteq> v then (s, Inl ErrVersionConflict)
       else if Status r \<noteq> StatusApproved \<and> Status r \<noteq> StatusManualIssuing then (s, Inl ErrInvalidState)
       else let r' = bump now (r\<lparr>Status := StatusIssuedAwaitingDocument, IssuedBy := adminID\<rparr>) in
         (store_request r' (s\<lparr>lots := fold (touch (issue_lot now)) (Allocations r) (lots s)\<rparr>), Inr r'))"
proof (cases "map_of (requests s) requestID")
  case (Some r)
  have "issue_lots now (Allocations r) (lots s) = (fold (touch (issue_lot now)) (Allocations r) (lots s), True)"
    if "Status r = StatusApproved \<or> Status r = StatusManualIssuing"
    using issue_lots_open [OF assms Some] that by (auto simp: open_status_def)
  then show ?thesis unfolding ConfirmManualIssue_def Some option.case by simp
qed (simp add: ConfirmManualIssue_def)

lemma ConfirmManualIssue_move:
  assumes "ledger_inv s"
  shows "ledger_move s (fst (ConfirmManualIssue now adminID requestID v s))"
  unfolding ConfirmManualIssue_eq [OF assms] Let_def
  by (auto split: option.split intro!: store_request_move [OF assms, where now = now]
      simp: transitions_def lots_after_def open_status_def issued_status_def)

lemma BeginManualIssue_move:
  assumes "ledger_inv s"
  shows "ledger_move s (fst (BeginManualIssue now adminID requestID v s))"
proof (cases "map_of (requests s) requestID")
  case (Some r)
  show ?thesis
    using store_request_move [OF assms Some, of "bump now (r\<lparr>Status := StatusManualIssuing, IssuedBy := adminID\<rparr>)" "lots s"]
    unfolding BeginManualIssue_def Some option.case Let_def
    by (simp add: transitions_def lots_after_def open_status_def)
qed (simp add: BeginManualIssue_def)

lemma ledger_move_cong:
  "ledger_move s a \<Longrightarrow> lots b = lots a \<Longrightarrow> requests b = requests a \<Longrightarrow> idempotency b = idempotency a \<Longrightarrow> ledger_move s b"
  by (erule ledger_move.cases) (auto intro: ledger_move.intros)

lemma AttachDocument_move:
  assumes "ledger_inv s"
  shows "ledger_move s (fst (AttachDocument now rndDoc rndMail adminID doc v s))"
proof (cases "map_of (requests s) (RequestID doc)")
  case (Some r)
  have go: "ledger_move s (store_request (bump now (r\<lparr>Status := StatusIssued\<rparr>)) s)"
    if "Status r = StatusIssuedAwaitingDocument"
    using store_request_move [OF assms Some, of "bump now (r\<lparr>Status := StatusIssued\<rparr>)" "lots s" now] that
    by (simp add: transitions_def lots_after_def open_status_def)
  show ?thesis
    unfolding AttachDocument_def Some option.case Let_def
    by (auto split: sum.split intro!: ledger_move_cong [OF go] simp: store_request_def)
qed (simp add: AttachDocument_def split: sum.split)

lemma ledger_step_move: "ledger_step mail_address s s' \<Longrightarrow> ledger_inv s \<Longrightarrow> ledger_move s s'"
proof (erule ledger_stepE, goal_cases)
  case (1 v)
  then show ?case by (auto simp: SetMinimumRequestMinor_def intro: ledger_move.quiet)
next
  case (3 now rnd p)
  then show ?case by (auto simp: SaveProfile_def Let_def split: sum.split option.split intro: ledger_move.quiet)
next
  case (4 paid now lotID currency evidence)
  then show ?case by (simp add: VerifyNewAPIPaymentWithEvidence_def VerifyNewAPIPayment_move)
qed (simp_all add: AddFundingLot_move Submit_invoice_move Cancel_invoice_move Review_move ConfirmManualIssue_move
  BeginManualIssue_move AttachDocument_move)

lemma ledger_reachable_inv: "ledger_reachable mail_address s \<Longrightarrow> ledger_inv s"
proof (induction rule: ledger_reachable.induct)
  case start
  show ?case by (simp add: ledger_inv_def NewService_def lots_ok_def)
next
  case (step s s')
  then show ?case by (blast intro: ledger_move_inv ledger_step_move)
qed

inductive ledger_steps :: "(string \<Rightarrow> string option) \<Rightarrow> Ledger \<Rightarrow> Ledger \<Rightarrow> bool" for mail_address where
  none: "ledger_steps mail_address s s"
| more: "ledger_steps mail_address s s' \<Longrightarrow> ledger_step mail_address s' s'' \<Longrightarrow> ledger_steps mail_address s s''"

lemma ledger_steps_inv: "ledger_steps mail_address s s' \<Longrightarrow> ledger_inv s \<Longrightarrow> ledger_inv s'"
  by (induction rule: ledger_steps.induct) (blast intro: ledger_move_inv ledger_step_move)+

section \<open>Properties\<close>

text \<open>
  C9. No lot is invoiced beyond its payment. In every reachable ledger each funding lot passes
  its validation, the amounts of all requests that are open or issued add up on it to no more
  than its original amount, and to no more than its consumed cash when it has an eligibility
  kind: however often requests are submitted, cancelled, rejected and issued.
\<close>

theorem never_over_invoiced:
  assumes "ledger_reachable mail_address s" "map_of (lots s) k = Some l"
  shows "FundingLot_Validate l = Inr () \<and> lot_ID l = k
    \<and> 0 \<le> reserved_for k s \<and> 0 \<le> invoiced_for k s
    \<and> reserved_for k s + invoiced_for k s \<le> OriginalMinor l
    \<and> (lot_EligibilityKind l \<noteq> [] \<longrightarrow> reserved_for k s + invoiced_for k s \<le> ConsumedCashMinor l)"
proof -
  note inv = ledger_reachable_inv [OF assms(1)]
  note l = ledger_inv_lot [OF inv assms(2)]
  have "lot_amounts l" using l(2,3) FundingLot_Validate_iff [of l "()"] by simp
  then show ?thesis using l sums_nonneg [OF inv, of k] by (auto simp: lot_amounts_def)
qed

text \<open>
  C10. The books balance exactly. A step never removes a lot, and changes the reserved amount of
  a lot by exactly the change of the sum its open requests allocate to it, and its issued amount
  by exactly the change of the sum of its issued requests: nothing leaks on cancellation or
  rejection, and issuing moves the amount from one counter to the other.
\<close>

theorem ledger_step_conserves:
  assumes "ledger_reachable mail_address s" "ledger_step mail_address s s'" "map_of (lots s) k = Some l"
  shows "\<exists>l'. map_of (lots s') k = Some l'
    \<and> ReservedMinor l' - reserved_for k s' = ReservedMinor l - reserved_for k s
    \<and> IssuedMinor l' - invoiced_for k s' = IssuedMinor l - invoiced_for k s"
proof -
  note inv = ledger_reachable_inv [OF assms(1)]
  have "books_kept s s'" by (rule ledger_move_books [OF ledger_step_move [OF assms(2) inv] inv])
  then show ?thesis using assms(3) by (fastforce simp: books_kept_def lot_change_def)
qed

text \<open>
  C11. A manual issue is all or nothing. In a reachable ledger \<open>ConfirmManualIssue\<close> either moves
  the request to its awaiting-document state and every allocation from reserved to issued, or
  leaves the whole ledger as it was with one of three errors; the branch that stops half way
  through the lots is never taken.
\<close>

theorem confirm_all_or_nothing:
  assumes "ledger_reachable mail_address s"
  shows "case ConfirmManualIssue now adminID requestID v s of
      (s', Inl e) \<Rightarrow> s' = s \<and> e \<in> {ErrNotFound, ErrVersionConflict, ErrInvalidState}
    | (s', Inr r) \<Rightarrow> map_of (requests s') requestID = Some r \<and> Status r = StatusIssuedAwaitingDocument
        \<and> Version r = wrap64 (v + 1)
        \<and> (\<forall>k l. map_of (lots s) k = Some l \<longrightarrow> (\<exists>l'. map_of (lots s') k = Some l'
            \<and> ReservedMinor l' = ReservedMinor l - alloc_to k r \<and> IssuedMinor l' = IssuedMinor l + alloc_to k r))"
proof (cases "map_of (requests s) requestID")
  case (Some r)
  note inv = ledger_reachable_inv [OF assms]
  define r' where "r' = bump now (r\<lparr>Status := StatusIssuedAwaitingDocument, IssuedBy := adminID\<rparr>)"
  have fr: "frozen r' = frozen r" "Status r' = StatusIssuedAwaitingDocument" "Version r' = wrap64 (Version r + 1)"
    by (simp_all add: r'_def)
  have id: "req_ID r = requestID" using ledger_inv_request(1) [OF inv Some] .
  have lot: "\<exists>l'. map_of (fold (touch (issue_lot now)) (Allocations r) (lots s)) k = Some l'
      \<and> ReservedMinor l' = ReservedMinor l - alloc_to k r' \<and> IssuedMinor l' = IssuedMinor l + alloc_to k r'"
    if st: "Status r = StatusApproved \<or> Status r = StatusManualIssuing" and l: "map_of (lots s) k = Some l" for k l
  proof -
    have t: "(Status r, StatusIssuedAwaitingDocument) \<in> set transitions"
      "lots_after now r StatusIssuedAwaitingDocument (lots s) = fold (touch (issue_lot now)) (Allocations r) (lots s)"
      "held k r' - held k r = - alloc_to k r'" "invoiced k r' - invoiced k r = alloc_to k r'"
      using st fr(2) frozen_fields(9) [OF fr(1)]
      by (auto simp: transitions_def lots_after_def open_status_def issued_status_def held_def invoiced_def)
    have "map_of (requests s) (req_ID r) = Some r" using Some id by simp
    from lots_after_change [OF inv this t(1) l fr(1,2), of now] show ?thesis
      unfolding t by (auto simp: lot_change_def)
  qed
  show ?thesis
    using lot id fr frozen_fields(1) [OF fr(1)]
    unfolding ConfirmManualIssue_eq [OF inv] Some option.case Let_def r'_def [symmetric]
    by (simp add: store_request_def)
qed (simp add: ConfirmManualIssue_def)


text \<open>
  C30. The life of a request. A step keeps every request with what was submitted: number, owner,
  source, profile, amount and allocations. Its record either stays as it is or moves along one
  of the listed transitions with its version one higher, so at most once per version; no step
  leaves \<open>issued\<close>, \<open>rejected\<close> or \<open>user_cancelled\<close>.
\<close>

theorem requests_evolve:
  assumes "ledger_reachable mail_address s" "ledger_step mail_address s s'" "map_of (requests s) k = Some r"
  shows "\<exists>r'. map_of (requests s') k = Some r' \<and> frozen r' = frozen r
    \<and> (r' = r \<or> Version r' = wrap64 (Version r + 1) \<and> (Status r, Status r') \<in> set transitions
         \<and> Status r \<notin> {StatusIssued, StatusRejected, StatusUserCancelled})"
proof -
  note inv = ledger_reachable_inv [OF assms(1)]
  from ledger_step_move [OF assms(2) inv] show ?thesis
  proof cases
    case (moved r1 r2 now)
    show ?thesis
    proof (cases "k = req_ID r1")
      case True
      have "Status r \<notin> {StatusIssued, StatusRejected, StatusUserCancelled}"
        using True assms(3) moved(1,4) by (auto simp: transitions_def)
      then show ?thesis using True moved assms(3) by simp
    qed (use moved assms(3) in simp)
  next
    case (submitted r1 now key)
    then show ?thesis using assms(3) by auto
  qed (use assms(3) in auto)
qed

lemma requests_stay:
  assumes "ledger_steps mail_address s s'" "ledger_inv s" "map_of (requests s) k = Some r"
  shows "\<exists>r'. map_of (requests s') k = Some r' \<and> frozen r' = frozen r"
  using assms
proof (induction rule: ledger_steps.induct)
  case (more s s' s'')
  then obtain r' where r': "map_of (requests s') k = Some r'" "frozen r' = frozen r" by blast
  have inv: "ledger_inv s'" using more ledger_steps_inv by blast
  from ledger_step_move [OF more(2) inv] show ?case
    by cases (use r' in \<open>auto split: if_splits\<close>)
qed auto

lemma keys_stay:
  assumes "ledger_steps mail_address s s'" "ledger_inv s" "map_of (idempotency s) k = Some rid"
  shows "map_of (idempotency s') k = Some rid"
  using assms
proof (induction rule: ledger_steps.induct)
  case (more s s' s'')
  then have k: "map_of (idempotency s') k = Some rid" and inv: "ledger_inv s'" using ledger_steps_inv by blast+
  from ledger_step_move [OF more(2) inv] show ?case
    by cases (use k in \<open>auto split: if_splits\<close>)
qed auto

text \<open>The key of an accepted submission determines the principal and the client's key, since
  the latter holds no line break.\<close>

lemma submit_key_inject:
  assumes "submit_valid a" "submit_valid b"
  shows "submit_key a = submit_key b \<longleftrightarrow> in_PrincipalID a = in_PrincipalID b \<and> IdempotencyKey a = IdempotencyKey b"
proof -
  have n: "CHR 0x0A \<notin> set (IdempotencyKey a)" "CHR 0x0A \<notin> set (IdempotencyKey b)"
    using assms by (auto simp: submit_valid_def contains_any_def forbidden_controls_def list_ex_iff)
  have last: "takeWhile (\<lambda>x. x \<noteq> CHR 0x0A) (rev (submit_key i)) = rev (IdempotencyKey i)"
    if "CHR 0x0A \<notin> set (IdempotencyKey i)" for i
    using that by (simp add: submit_key_def takeWhile_neq_append)
  have "rev (IdempotencyKey a) = rev (IdempotencyKey b)" if "submit_key a = submit_key b"
    using last [OF n(1)] last [OF n(2)] that by simp
  then show ?thesis by (auto simp: submit_key_def)
qed



section \<open>An example run\<close>

definition ex_lot :: FundingLot where
  "ex_lot = zero_lot\<lparr>lot_ID := ''lot'', lot_PrincipalID := ''u'', lot_SourceInstanceID := ''i'', lot_SourceType := SourceSub2API,
     ExternalOrderID := ''o'', lot_Currency := CurrencyCNY, OriginalMinor := 50000, CurrentCapMinor := 50000,
     Verification := VerificationVerified\<rparr>"

definition ex_profile :: InvoiceProfile where
  "ex_profile = \<lparr>prof_ID = [], prof_PrincipalID = ''u'', prof_Type = ProfilePersonal, prof_Title = ''T'', prof_TaxID = [],
     prof_Email = ''m'', EmailVerified = True, prof_Address = [], prof_Phone = [], prof_BankName = [], prof_BankAccount = [],
     IsDefault = False, prof_Revision = 0, prof_CreatedAt = 0, prof_UpdatedAt = 0\<rparr>"

definition ex_input :: SubmitInput where
  "ex_input = \<lparr>in_PrincipalID = ''u'', in_ProfileID = randomID ''prof'' ''p'', in_SourceInstanceID = ''i'',
     IdempotencyKey = ''k'', in_Allocations = [\<lparr>in_FundingLotID = ''lot'', in_AmountMinor = 20000\<rparr>]\<rparr>"

definition ex_rid :: string where "ex_rid = randomID ''invreq'' ''r''"

definition ls1 :: Ledger where "ls1 = fst (AddFundingLot 1 ex_lot NewService)"
definition ls2 :: Ledger where "ls2 = fst (SaveProfile Some 2 ''p'' ex_profile ls1)"
definition ls3 :: Ledger where "ls3 = fst (Submit_invoice 3 ''r'' ex_input [] ls2)"
definition ls4 :: Ledger where "ls4 = fst (Review 4 ''admin'' ex_rid ''approve'' [] 1 ls3)"
definition ls5 :: Ledger where "ls5 = fst (ConfirmManualIssue 5 ''admin'' ex_rid 2 ls4)"

lemma ex_fresh: "map_of (requests ls2) (randomID ''invreq'' ''r'') = None"
  by code_simp

lemma ex_submit: "\<exists>r. Submit_invoice 3 ''r'' ex_input [] ls2 = (ls3, Inr r)"
proof -
  have "(case snd (Submit_invoice 3 ''r'' ex_input [] ls2) of Inr _ \<Rightarrow> True | Inl _ \<Rightarrow> False)" by code_simp
  then show ?thesis by (cases "Submit_invoice 3 ''r'' ex_input [] ls2") (auto simp: ls3_def split: sum.splits)
qed

lemma ex_amounts: "\<forall>a \<in> set (in_Allocations ex_input). in64 (in_AmountMinor a)"
  by (simp add: ex_input_def int64_defs)

lemma ex_lot_in64: "lot_in64 ex_lot"
  by (simp add: ex_lot_def zero_lot_def lot_in64_def int64_defs)

lemma ex_steps: "ledger_step Some NewService ls1" "ledger_step Some ls1 ls2" "ledger_step Some ls2 ls3"
    "ledger_step Some ls3 ls4" "ledger_step Some ls4 ls5"
proof -
  show "ledger_step Some NewService ls1" unfolding ls1_def by (rule ledger_step.add_lot [OF ex_lot_in64])
  show "ledger_step Some ls1 ls2" unfolding ls2_def by (rule ledger_step.save_profile)
  show "ledger_step Some ls2 ls3" unfolding ls3_def by (rule ledger_step.submit [OF ex_fresh ex_amounts])
  show "ledger_step Some ls3 ls4" unfolding ls4_def by (rule ledger_step.review)
  show "ledger_step Some ls4 ls5" unfolding ls5_def by (rule ledger_step.confirm)
qed

lemma ex_reachable: "ledger_reachable Some ls2" "ledger_reachable Some ls4"
proof -
  have "ledger_reachable Some ls1" by (rule ledger_reachable.step [OF ledger_reachable.start ex_steps(1)])
  then show r2: "ledger_reachable Some ls2" by (rule ledger_reachable.step) (rule ex_steps(2))
  from r2 have "ledger_reachable Some ls3" by (rule ledger_reachable.step) (rule ex_steps(3))
  then show "ledger_reachable Some ls4" by (rule ledger_reachable.step) (rule ex_steps(4))
qed

lemma ex_values:
  "map_option ReservedMinor (map_of (lots ls4) ''lot'') = Some 20000"
  "map_option Status (map_of (requests ls4) ex_rid) = Some StatusApproved"
  "map_option Version (map_of (requests ls4) ex_rid) = Some 2"
  "map_option OriginalMinor (map_of (lots ls4) ''lot'') = Some 50000"
  by code_simp+

theorem never_over_invoiced_witness:
  "\<exists>l. map_of (lots ls4) ''lot'' = Some l \<and> OriginalMinor l = 50000
    \<and> reserved_for ''lot'' ls4 + invoiced_for ''lot'' ls4 \<le> 50000"
proof -
  obtain l where l: "map_of (lots ls4) ''lot'' = Some l" "OriginalMinor l = 50000" using ex_values(4) by auto
  show ?thesis using never_over_invoiced [OF ex_reachable(2) l(1)] l by auto
qed

theorem ledger_step_conserves_witness:
  "\<exists>l l'. map_of (lots ls4) ''lot'' = Some l \<and> map_of (lots ls5) ''lot'' = Some l'
    \<and> IssuedMinor l' - invoiced_for ''lot'' ls5 = IssuedMinor l - invoiced_for ''lot'' ls4"
proof -
  obtain l where l: "map_of (lots ls4) ''lot'' = Some l" using ex_values(4) by auto
  show ?thesis using ledger_step_conserves [OF ex_reachable(2) ex_steps(5) l] l by blast
qed

theorem confirm_all_or_nothing_witness:
  "snd (ConfirmManualIssue 5 ''admin'' ex_rid 7 ls4) = Inl ErrVersionConflict \<and> fst (ConfirmManualIssue 5 ''admin'' ex_rid 7 ls4) = ls4"
proof -
  have v: "snd (ConfirmManualIssue 5 ''admin'' ex_rid 7 ls4) = Inl ErrVersionConflict" by code_simp
  show ?thesis
    using confirm_all_or_nothing [OF ex_reachable(2), where now = 5 and adminID = "''admin''" and requestID = ex_rid and v = 7] v
    by (auto split: prod.splits)
qed

theorem requests_evolve_witness:
  "\<exists>r r'. map_of (requests ls4) ex_rid = Some r \<and> map_of (requests ls5) ex_rid = Some r' \<and> frozen r' = frozen r"
proof -
  obtain r where r: "map_of (requests ls4) ex_rid = Some r" using ex_values(2) by auto
  show ?thesis using requests_evolve [OF ex_reachable(2) ex_steps(5) r] r by blast
qed


end
