(* ===== verification/Ops.thy ===== *)
theory Ops
  imports Accounts
begin

text \<open>
  Metric observations (\<open>ops/freshness.go\<close>): what a collector records about one metric, how
  fresh it is at an instant, and what a stored observation satisfies. The value of an
  observation is decoded JSON, its numbers kept as their texts. \<open>Duration.Seconds\<close> is taken
  as the exact quotient. The row's identifier, its time of update and the two fields the
  roll-up uses are left out.
\<close>

section \<open>Decoded JSON\<close>

text \<open>The numbers are \<open>json.Number\<close>, as the store decodes them; \<open>Int64\<close> parses the text.\<close>

datatype json = JNull | JBool bool | JNumber string | JString string | JArray "json list" | JObject "(string \<times> json) list"

type_synonym json_object = "(string \<times> json) list"

definition jget :: "json_object \<Rightarrow> string \<Rightarrow> json" where
  "jget m k = (case map_of m k of None \<Rightarrow> JNull | Some v \<Rightarrow> v)"

fun as_string :: "json \<Rightarrow> string option" where
  "as_string (JString s) = Some s" | "as_string _ = None"
fun as_bool :: "json \<Rightarrow> bool option" where
  "as_bool (JBool b) = Some b" | "as_bool _ = None"
fun as_array :: "json \<Rightarrow> json list option" where
  "as_array (JArray xs) = Some xs" | "as_array _ = None"
fun as_object :: "json \<Rightarrow> json_object option" where
  "as_object (JObject m) = Some m" | "as_object _ = None"

text \<open>\<open>v, _ := x.(T)\<close>: the zero value when the assertion fails.\<close>

definition str_or :: "json \<Rightarrow> string" where
  "str_or v = (case as_string v of None \<Rightarrow> [] | Some s \<Rightarrow> s)"
definition bool_or :: "json \<Rightarrow> bool" where
  "bool_or v = (case as_bool v of None \<Rightarrow> False | Some b \<Rightarrow> b)"

section \<open>Observations\<close>

datatype ops_error = ErrOpsInvalidStatus | ErrOpsMissingField | ErrOpsInvalidFormat | ErrOpsInconsistent

datatype State = StateUninitialized | StateFailed | StateStale | StatePartial | StateFresh

type_synonym SyncStatus = string

abbreviation "SyncOK \<equiv> ''ok''"
abbreviation "SyncFailed \<equiv> ''failed''"

definition ParseSyncStatus :: "string \<Rightarrow> ops_error + SyncStatus" where
  "ParseSyncStatus s = (if s = SyncOK \<or> s = SyncFailed then Inr s else Inl ErrOpsInvalidStatus)"

text \<open>The pattern \<open>^[a-z0-9][a-z0-9_.-]{0,127}$\<close>, of metric keys and rule keys.\<close>

definition dotted_key :: "string \<Rightarrow> bool" where
  "dotted_key s \<longleftrightarrow> s \<noteq> [] \<and> lower_alnum (hd s)
     \<and> list_all (\<lambda>c. lower_alnum c \<or> c \<in> set ''_.-'') (tl s) \<and> int (length (tl s)) \<le> 127"

definition ValidMetricKey :: "string \<Rightarrow> bool" where
  "ValidMetricKey key = dotted_key key"

record Observation =
  MetricKey :: string
  ob_Source :: string
  ob_Environment :: string
  ObservedAt :: "time option"
  SyncedAt :: time
  Watermark :: string
  ob_Status :: SyncStatus
  IsPartial :: bool
  LastSuccess :: "time option"
  LastErrorCode :: string
  StalenessThresholdSeconds :: int
  ob_Value :: json_object

record Freshness =
  fr_State :: State
  StalenessSeconds :: "int64 option"
  fr_IsPartial :: bool
  fr_Source :: string
  fr_ObservedAt :: "time option"
  fr_LastSuccess :: "time option"
  fr_LastErrorCode :: string
  ThresholdSeconds :: int

definition whole_seconds :: "duration \<Rightarrow> int64" where
  "whole_seconds d = d sdiv nanos_per_second"

definition freshness_of :: "Observation \<Rightarrow> time \<Rightarrow> Freshness" where
  "freshness_of ob now =
    (let f = (\<lambda>st secs. \<lparr>fr_State = st, StalenessSeconds = secs, fr_IsPartial = IsPartial ob, fr_Source = ob_Source ob,
           fr_ObservedAt = ObservedAt ob, fr_LastSuccess = LastSuccess ob, fr_LastErrorCode = LastErrorCode ob,
           ThresholdSeconds = StalenessThresholdSeconds ob\<rparr>) in
     case ObservedAt ob of
       None \<Rightarrow> if LastErrorCode ob \<noteq> [] then f StateFailed None else f StateUninitialized None
     | Some at0 \<Rightarrow>
       let secs = whole_seconds (time_sub now at0); secs = (if secs < 0 then 0 else secs) in
       f (if ob_Status ob = SyncFailed then StateFailed
          else if StalenessThresholdSeconds ob \<le> secs then StateStale
          else if IsPartial ob then StatePartial
          else StateFresh) (Some secs))"

definition validateShared :: "Observation \<Rightarrow> ops_error + unit" where
  "validateShared ob =
    (if MetricKey ob = [] then Inl ErrOpsMissingField
     else if \<not> ValidMetricKey (MetricKey ob) then Inl ErrOpsInvalidFormat
     else if ob_Source ob = [] then Inl ErrOpsMissingField
     else if ob_Environment ob = [] then Inl ErrOpsMissingField
     else rbind (ParseSyncStatus (ob_Status ob)) (\<lambda>_.
       if SyncedAt ob = 0 then Inl ErrOpsMissingField else Inr ()))"

definition validateStatusConsistency :: "Observation \<Rightarrow> ops_error + unit" where
  "validateStatusConsistency ob =
    (if (ob_Status ob = SyncFailed) \<noteq> (LastErrorCode ob \<noteq> []) then Inl ErrOpsInconsistent else Inr ())"

definition Observation_Validate :: "Observation \<Rightarrow> ops_error + unit" where
  "Observation_Validate ob =
    rbind (validateShared ob) (\<lambda>_.
      if StalenessThresholdSeconds ob \<le> 0 then Inl ErrOpsInvalidFormat else validateStatusConsistency ob)"

definition ValidateSample :: "Observation \<Rightarrow> ops_error + unit" where
  "ValidateSample ob = rbind (validateShared ob) (\<lambda>_. validateStatusConsistency ob)"

text \<open>For a stored observation the state is failed exactly when the last attempt failed.\<close>

lemma failed_iff:
  "Observation_Validate ob = Inr () \<Longrightarrow> fr_State (freshness_of ob now) = StateFailed \<longleftrightarrow> ob_Status ob = SyncFailed"
  by (auto simp: Observation_Validate_def validateStatusConsistency_def freshness_of_def Let_def result_simps
      split: option.splits if_splits)

lemma stale_seconds: "fr_State (freshness_of ob now) = StateStale \<Longrightarrow> StalenessSeconds (freshness_of ob now) \<noteq> None"
  by (auto simp: freshness_of_def Let_def split: option.splits if_splits)

text \<open>What \<open>find\<close> returns, for the tables and samples below.\<close>

lemma find_SomeE: "find P xs = Some x \<Longrightarrow> x \<in> set xs \<and> P x"
  by (induction xs) (auto split: if_splits)

end
