(* ===== verification/Alerts.thy ===== *)
theory Alerts
  imports Ops
begin

text \<open>
  The alert centre (\<open>alerts/alert.go\<close>, \<open>alerts/store.go\<close>, \<open>alerts/reconcile.go\<close>): alerts and
  silence windows, the tables with the statements of \<open>src/platform/db/queries/alerts.sql\<close> and
  the constraints of their schema, the upsert by deduplication key, and one round of
  evaluation, recording, recovery and delivery.

  Every SQL statement is one step. Other processes may act between the statements of one
  operation: where that matters an argument \<open>other\<close>, any change of the database, stands for
  what they did in the meantime. A failed statement changes nothing.
\<close>

section \<open>Types (alert.go)\<close>

type_synonym Severity = string
type_synonym Status = string

abbreviation "SeverityInfo \<equiv> ''info''"
abbreviation "SeverityWarning \<equiv> ''warning''"
abbreviation "SeverityCritical \<equiv> ''critical''"

abbreviation "StatusOpen \<equiv> ''OPEN''"
abbreviation "StatusAcknowledged \<equiv> ''ACKNOWLEDGED''"
abbreviation "StatusSilenced \<equiv> ''SILENCED''"
abbreviation "StatusResolved \<equiv> ''RESOLVED''"
abbreviation "StatusReopened \<equiv> ''REOPENED''"

abbreviation "NotifyPending \<equiv> ''pending''"
abbreviation "NotifyDelivered \<equiv> ''delivered''"
abbreviation "NotifyFailed \<equiv> ''failed''"

text \<open>The domain's sentinels, and the two ways a statement fails.\<close>

datatype alert_error = ErrInvalidSeverity | ErrInvalidStatus | ErrMissingField | ErrInvalidFormat
  | ErrAlertNotFound | ErrNotAcknowledgeable | UniqueViolation | ErrDatabase | ErrAlertText

definition ruleKeyPattern :: "string \<Rightarrow> bool" where
  "ruleKeyPattern s = dotted_key s"

definition ParseSeverity :: "string \<Rightarrow> alert_error + Severity" where
  "ParseSeverity s = (if s \<in> set [SeverityInfo, SeverityWarning, SeverityCritical] then Inr s else Inl ErrInvalidSeverity)"

definition alert_ParseStatus :: "string \<Rightarrow> alert_error + Status" where
  "alert_ParseStatus s = (if s \<in> set [StatusOpen, StatusAcknowledged, StatusSilenced, StatusResolved, StatusReopened]
     then Inr s else Inl ErrInvalidStatus)"

definition activeStatuses :: "Status list" where
  "activeStatuses = [StatusOpen, StatusAcknowledged, StatusSilenced, StatusReopened]"

definition IsActive :: "Status \<Rightarrow> bool" where
  "IsActive s \<longleftrightarrow> s \<in> set activeStatuses"

record Alert =
  al_ID :: uuid
  al_RuleKey :: string
  al_DedupKey :: string
  al_Severity :: Severity
  al_Status :: Status
  al_Title :: string
  al_Detail :: string
  al_Environment :: string
  OpenedAt :: time
  AcknowledgedAt :: "time option"
  ResolvedAt :: "time option"
  LastSeenAt :: time
  FireCount :: int
  TriggerCount :: "int option"
  FirstOpenedAt :: "time option"
  al_SourceMetricKey :: string
  NotifyStatus :: string
  NotifyError :: string
  NotifiedAt :: "time option"

definition EffectiveFirstOpenedAt :: "Alert \<Rightarrow> time \<times> bool" where
  "EffectiveFirstOpenedAt a = (case FirstOpenedAt a of
     Some t \<Rightarrow> if t \<noteq> 0 then (t, False) else (OpenedAt a, True)
   | None \<Rightarrow> (OpenedAt a, True))"

record UpstreamVersionAck =
  ack_Environment :: string
  ack_MetricKey :: string
  ack_Version :: string
  ack_Source :: string
  AcknowledgedBy :: string
  ack_AcknowledgedAt :: time
  ack_Note :: string

record Silence =
  si_ID :: uuid
  si_RuleKey :: string
  si_Environment :: string
  si_Reason :: string
  StartsAt :: time
  EndsAt :: time
  si_CreatedBy :: string

definition Silence_Active :: "Silence \<Rightarrow> time \<Rightarrow> bool" where
  "Silence_Active w t \<longleftrightarrow> \<not> t < StartsAt w \<and> t < EndsAt w"

definition Silence_Matches :: "Silence \<Rightarrow> string \<Rightarrow> time \<Rightarrow> bool" where
  "Silence_Matches w ruleKey t =
    (if si_Environment w = [] \<or> ruleKey = [] then False
     else if si_RuleKey w \<noteq> [] \<and> si_RuleKey w \<noteq> ruleKey then False
     else Silence_Active w t)"

definition Silence_Validate :: "Silence \<Rightarrow> alert_error + unit" where
  "Silence_Validate w =
    (if si_Environment w = [] then Inl ErrMissingField
     else if blank (si_Reason w) then Inl ErrMissingField
     else if blank (si_CreatedBy w) then Inl ErrMissingField
     else if si_RuleKey w \<noteq> [] \<and> \<not> ruleKeyPattern (si_RuleKey w) then Inl ErrInvalidFormat
     else if StartsAt w = 0 \<or> EndsAt w = 0 then Inl ErrMissingField
     else if \<not> StartsAt w < EndsAt w then Inl ErrInvalidFormat
     else Inr ())"

section \<open>Tables and statements (alerts.sql)\<close>

record AlertDB =
  environments :: "string list"
  alerts :: "Alert list"
  silences :: "Silence list"
  acks :: "UpstreamVersionAck list"

definition active :: "Alert \<Rightarrow> bool" where
  "active a = IsActive (al_Status a)"

text \<open>The checks of the table; \<open>btrim\<close> strips spaces.\<close>

definition btrim_blank :: "string \<Rightarrow> bool" where
  "btrim_blank s = list_all (\<lambda>c. c = CHR '' '') s"

definition alert_check :: "Alert \<Rightarrow> bool" where
  "alert_check a \<longleftrightarrow> al_Severity a \<in> set [SeverityInfo, SeverityWarning, SeverityCritical]
     \<and> al_Status a \<in> set [StatusOpen, StatusAcknowledged, StatusSilenced, StatusResolved, StatusReopened]
     \<and> NotifyStatus a \<in> set [NotifyPending, NotifyDelivered, NotifyFailed]
     \<and> dotted_key (al_RuleKey a) \<and> \<not> btrim_blank (al_DedupKey a) \<and> \<not> btrim_blank (al_Title a)
     \<and> 1 \<le> FireCount a \<and> FireCount a \<le> 2147483647
     \<and> (NotifyStatus a = NotifyFailed \<longleftrightarrow> NotifyError a \<noteq> [])
     \<and> (NotifyStatus a = NotifyDelivered \<longleftrightarrow> NotifiedAt a \<noteq> None)
     \<and> (al_Status a = StatusResolved \<longleftrightarrow> ResolvedAt a \<noteq> None)
     \<and> (case TriggerCount a of None \<Rightarrow> True | Some n \<Rightarrow> 1 \<le> n \<and> n \<le> 2147483647)"

text \<open>The primary key and the partial unique index over the active alerts.\<close>

definition unique_ids :: "Alert list \<Rightarrow> bool" where
  "unique_ids rs = distinct (map al_ID rs)"

definition unique_active :: "Alert list \<Rightarrow> bool" where
  "unique_active rs = distinct (map al_DedupKey (filter active rs))"

type_synonym 'a db_result = "AlertDB \<times> (alert_error + 'a)"

text \<open>\<open>UPDATE ... WHERE id = $1 AND ... RETURNING *\<close>: no row is \<open>ErrAlertNotFound\<close> (the
  driver's \<open>ErrNoRows\<close>), a violated check or index an error.\<close>

definition find_alert :: "uuid \<Rightarrow> AlertDB \<Rightarrow> Alert option" where
  "find_alert i db = find (\<lambda>a. al_ID a = i) (alerts db)"

definition update_alert :: "(Alert \<Rightarrow> bool) \<Rightarrow> (Alert \<Rightarrow> Alert) \<Rightarrow> uuid \<Rightarrow> AlertDB \<Rightarrow> Alert db_result" where
  "update_alert cond f i db =
    (case find_alert i db of None \<Rightarrow> (db, Inl ErrAlertNotFound)
     | Some a \<Rightarrow> if \<not> cond a then (db, Inl ErrAlertNotFound)
       else let rs = map (\<lambda>b. if al_ID b = i then f b else b) (alerts db) in
         if \<not> alert_check (f a) then (db, Inl ErrDatabase)
         else if \<not> unique_active rs then (db, Inl UniqueViolation)
         else (db\<lparr>alerts := rs\<rparr>, Inr (f a)))"

definition InsertAlert :: "Alert \<Rightarrow> AlertDB \<Rightarrow> Alert db_result" where
  "InsertAlert a db =
    (if al_Environment a \<notin> set (environments db) \<or> \<not> alert_check a then (db, Inl ErrDatabase)
     else if al_ID a \<in> set (map al_ID (alerts db)) \<or> \<not> unique_active (alerts db @ [a]) then (db, Inl UniqueViolation)
     else (db\<lparr>alerts := alerts db @ [a]\<rparr>, Inr a))"

definition touch_row :: "time \<Rightarrow> Status \<Rightarrow> string \<Rightarrow> bool \<Rightarrow> Alert \<Rightarrow> Alert" where
  "touch_row seenAt target detail resetNotify a =
    a\<lparr>FireCount := FireCount a + 1,
      TriggerCount := (if resetNotify then Some ((case TriggerCount a of None \<Rightarrow> 0 | Some n \<Rightarrow> n) + 1) else TriggerCount a),
      LastSeenAt := seenAt, al_Status := target, al_Detail := detail,
      NotifyStatus := (if resetNotify then NotifyPending else NotifyStatus a),
      NotifyError := (if resetNotify then [] else NotifyError a),
      NotifiedAt := (if resetNotify then None else NotifiedAt a)\<rparr>"

definition TouchAlert :: "uuid \<Rightarrow> time \<Rightarrow> Status \<Rightarrow> string \<Rightarrow> bool \<Rightarrow> AlertDB \<Rightarrow> Alert db_result" where
  "TouchAlert i seenAt target detail resetNotify db =
    update_alert (\<lambda>_. True) (touch_row seenAt target detail resetNotify) i db"

definition resolve_row :: "time \<Rightarrow> Alert \<Rightarrow> Alert" where
  "resolve_row at0 a = a\<lparr>al_Status := StatusResolved, ResolvedAt := Some at0\<rparr>"

definition ack_row :: "time \<Rightarrow> Alert \<Rightarrow> Alert" where
  "ack_row at0 a = a\<lparr>al_Status := StatusAcknowledged, AcknowledgedAt := Some at0\<rparr>"

definition delivered_row :: "time \<Rightarrow> Alert \<Rightarrow> Alert" where
  "delivered_row at0 a = a\<lparr>NotifyStatus := NotifyDelivered, NotifyError := [], NotifiedAt := Some at0\<rparr>"

definition failed_row :: "string \<Rightarrow> Alert \<Rightarrow> Alert" where
  "failed_row reason a = a\<lparr>NotifyStatus := NotifyFailed, NotifyError := reason, NotifiedAt := None\<rparr>"

text \<open>\<open>:exec\<close> statements succeed when no row matches.\<close>

definition exec_update :: "(Alert \<Rightarrow> Alert) \<Rightarrow> uuid \<Rightarrow> AlertDB \<Rightarrow> unit db_result" where
  "exec_update f i db = (case update_alert (\<lambda>_. True) f i db of
     (db', Inl ErrAlertNotFound) \<Rightarrow> (db', Inr ())
   | (db', Inl e) \<Rightarrow> (db', Inl e)
   | (db', Inr _) \<Rightarrow> (db', Inr ()))"

section \<open>The store (store.go)\<close>

definition MaxListLimit :: int where "MaxListLimit = 500"

text \<open>24 hours.\<close>

definition reopenLookback :: duration where "reopenLookback = 86400000000000"

definition ClampListLimit :: "int \<Rightarrow> int" where
  "ClampListLimit lim = (if lim \<le> 0 \<or> lim > MaxListLimit then MaxListLimit else lim)"

record UpsertInput =
  up_RuleKey :: string
  up_DedupKey :: string
  up_Severity :: Severity
  up_Title :: string
  up_Detail :: string
  up_Environment :: string
  up_SourceMetricKey :: string
  Silenced :: bool
  up_Now :: time

definition UpsertInput_validate :: "UpsertInput \<Rightarrow> alert_error + unit" where
  "UpsertInput_validate i =
    (if up_RuleKey i = [] then Inl ErrMissingField
     else if \<not> ruleKeyPattern (up_RuleKey i) then Inl ErrInvalidFormat
     else if up_DedupKey i = [] then Inl ErrMissingField
     else if up_Title i = [] then Inl ErrMissingField
     else if up_Environment i = [] then Inl ErrMissingField
     else rbind (ParseSeverity (up_Severity i)) (\<lambda>_.
       if up_Now i = 0 then Inl ErrMissingField else Inr ()))"

definition GetActiveByDedupKey :: "string \<Rightarrow> AlertDB \<Rightarrow> alert_error + Alert" where
  "GetActiveByDedupKey k db = (case find (\<lambda>a. al_DedupKey a = k \<and> active a) (alerts db) of
     None \<Rightarrow> Inl ErrAlertNotFound | Some a \<Rightarrow> Inr a)"

definition GetAlert :: "uuid \<Rightarrow> AlertDB \<Rightarrow> alert_error + Alert" where
  "GetAlert i db = (case find_alert i db of None \<Rightarrow> Inl ErrAlertNotFound | Some a \<Rightarrow> Inr a)"

text \<open>\<open>ORDER BY resolved_at DESC LIMIT 1\<close> over the resolved rows of the window.\<close>

definition recentlyResolved :: "string \<Rightarrow> time \<Rightarrow> AlertDB \<Rightarrow> Alert option" where
  "recentlyResolved k now db =
    (case sort_key (\<lambda>a. - the (ResolvedAt a))
       (filter (\<lambda>a. al_DedupKey a = k \<and> al_Status a = StatusResolved
          \<and> (case ResolvedAt a of None \<Rightarrow> False | Some t \<Rightarrow> now - reopenLookback \<le> t)) (alerts db)) of
       [] \<Rightarrow> None | a # _ \<Rightarrow> Some a)"

definition touch_target :: "Alert \<Rightarrow> UpsertInput \<Rightarrow> Status \<times> bool" where
  "touch_target existing i =
    (if Silenced i then (StatusSilenced, False)
     else if al_Status existing = StatusSilenced then (StatusOpen, True)
     else (al_Status existing, False))"

definition alert_touch :: "Alert \<Rightarrow> UpsertInput \<Rightarrow> AlertDB \<Rightarrow> Alert db_result" where
  "alert_touch existing i db =
    (case touch_target existing i of (target, resetNotify) \<Rightarrow>
       TouchAlert (al_ID existing) (up_Now i) target (up_Detail i) resetNotify db)"

text \<open>A 32-bit count plus one, as Go stores it.\<close>

definition wrap32 :: "int \<Rightarrow> int" where
  "wrap32 n = (n + 2147483648) mod 4294967296 - 2147483648"

definition open_as :: "UpsertInput \<Rightarrow> AlertDB \<Rightarrow> Status \<times> time option \<times> int option" where
  "open_as i db =
    (if Silenced i then (StatusSilenced, Some (up_Now i), Some 1)
     else case recentlyResolved (up_DedupKey i) (up_Now i) db of
       None \<Rightarrow> (StatusOpen, Some (up_Now i), Some 1)
     | Some previous \<Rightarrow> (StatusReopened,
         (case EffectiveFirstOpenedAt previous of (inherited, wasEstimated) \<Rightarrow>
            if wasEstimated then None else if inherited \<noteq> 0 then Some inherited else Some (up_Now i)),
         map_option (\<lambda>n. wrap32 (n + 1)) (TriggerCount previous)))"

definition alert_insert :: "uuid \<Rightarrow> UpsertInput \<Rightarrow> AlertDB \<Rightarrow> Alert db_result" where
  "alert_insert newID i db =
    (case open_as i db of (status, firstOpened, triggers) \<Rightarrow>
       InsertAlert \<lparr>al_ID = newID, al_RuleKey = up_RuleKey i, al_DedupKey = up_DedupKey i, al_Severity = up_Severity i,
         al_Status = status, al_Title = up_Title i, al_Detail = up_Detail i, al_Environment = up_Environment i,
         OpenedAt = up_Now i, AcknowledgedAt = None, ResolvedAt = None, LastSeenAt = up_Now i, FireCount = 1,
         TriggerCount = triggers, FirstOpenedAt = firstOpened, al_SourceMetricKey = up_SourceMetricKey i,
         NotifyStatus = NotifyPending, NotifyError = [], NotifiedAt = None\<rparr> db)"

text \<open>
  The upsert: the lookup, then what other processes did, then the write; when the index
  refuses the insertion, a second lookup and a merge. \<open>True\<close> means a new alert.
\<close>

definition Upsert :: "(AlertDB \<Rightarrow> AlertDB) \<Rightarrow> uuid \<Rightarrow> UpsertInput \<Rightarrow> AlertDB \<Rightarrow> (Alert \<times> bool) db_result" where
  "Upsert other newID i db =
    (case UpsertInput_validate i of Inl e \<Rightarrow> (db, Inl e)
     | Inr _ \<Rightarrow>
       let merged = (\<lambda>r. case r of (db', Inl e) \<Rightarrow> (db', Inl e) | (db', Inr a) \<Rightarrow> (db', Inr (a, False))) in
       case GetActiveByDedupKey (up_DedupKey i) db of
         Inr existing \<Rightarrow> merged (alert_touch existing i (other db))
       | Inl ErrAlertNotFound \<Rightarrow>
         (case alert_insert newID i (other db) of
            (db', Inr a) \<Rightarrow> (db', Inr (a, True))
          | (db', Inl UniqueViolation) \<Rightarrow>
              (case GetActiveByDedupKey (up_DedupKey i) db' of
                 Inl _ \<Rightarrow> (db', Inl UniqueViolation)
               | Inr raced \<Rightarrow> merged (alert_touch raced i db'))
          | (db', Inl e) \<Rightarrow> (db', Inl e))
       | Inl e \<Rightarrow> (db, Inl e))"

definition Resolve :: "uuid \<Rightarrow> time \<Rightarrow> AlertDB \<Rightarrow> Alert db_result" where
  "Resolve i at0 db = update_alert active (resolve_row at0) i db"

definition Acknowledge :: "uuid \<Rightarrow> time \<Rightarrow> AlertDB \<Rightarrow> Alert db_result" where
  "Acknowledge i at0 db =
    (case update_alert (\<lambda>a. al_Status a = StatusOpen \<or> al_Status a = StatusReopened) (ack_row at0) i db of
       (db', Inl ErrAlertNotFound) \<Rightarrow> (case GetAlert i db' of Inl e \<Rightarrow> (db', Inl e) | Inr _ \<Rightarrow> (db', Inl ErrNotAcknowledgeable))
     | r \<Rightarrow> r)"


text \<open>\<open>ORDER BY last_seen_at DESC, id\<close>.\<close>

definition latest_first :: "Alert list \<Rightarrow> Alert list" where
  "latest_first rs = sort_key (\<lambda>a. - LastSeenAt a) (sort_key al_ID rs)"

definition ListActive :: "string \<Rightarrow> AlertDB \<Rightarrow> Alert list" where
  "ListActive env db = latest_first (filter (\<lambda>a. al_Environment a = env \<and> active a) (alerts db))"

definition by_status :: "string \<Rightarrow> Status list \<Rightarrow> int \<Rightarrow> AlertDB \<Rightarrow> Alert list" where
  "by_status env statuses lim db = (let values = (if statuses = [] then activeStatuses else statuses) in
     take (nat lim) (latest_first (filter (\<lambda>a. al_Environment a = env \<and> al_Status a \<in> set values) (alerts db))))"

definition ListByStatus :: "string \<Rightarrow> Status list \<Rightarrow> int \<Rightarrow> AlertDB \<Rightarrow> Alert list" where
  "ListByStatus env statuses lim db = by_status env statuses (ClampListLimit lim) db"

definition ListByStatusWithTruncation :: "string \<Rightarrow> Status list \<Rightarrow> int \<Rightarrow> AlertDB \<Rightarrow> Alert list \<times> bool" where
  "ListByStatusWithTruncation env statuses lim0 db =
    (let lim = (if lim0 \<le> 0 \<or> lim0 > MaxListLimit then MaxListLimit else lim0);
         rs = by_status env statuses (lim + 1) db;
         truncated = int (length rs) > lim
     in (if truncated then take (nat lim) rs else rs, truncated))"

definition ListRecent :: "string \<Rightarrow> int \<Rightarrow> AlertDB \<Rightarrow> Alert list" where
  "ListRecent env lim db = take (nat (ClampListLimit lim)) (latest_first (filter (\<lambda>a. al_Environment a = env) (alerts db)))"

definition pending_notify :: "Alert \<Rightarrow> bool" where
  "pending_notify a \<longleftrightarrow> (al_Status a = StatusOpen \<or> al_Status a = StatusReopened)
     \<and> (NotifyStatus a = NotifyPending \<or> NotifyStatus a = NotifyFailed)"

definition ListPendingNotify :: "string \<Rightarrow> int \<Rightarrow> AlertDB \<Rightarrow> Alert list" where
  "ListPendingNotify env lim db = take (nat (ClampListLimit lim))
     (sort_key OpenedAt (filter (\<lambda>a. al_Environment a = env \<and> pending_notify a) (alerts db)))"

definition MarkDelivered :: "uuid \<Rightarrow> time \<Rightarrow> AlertDB \<Rightarrow> unit db_result" where
  "MarkDelivered i at0 db = exec_update (delivered_row at0) i db"

text \<open>The text put in place of an empty reason: "delivery failed (no reason given)" in Chinese.\<close>

definition no_reason :: string where
  "no_reason =
    [CHR 0xE6, CHR 0x8A, CHR 0x95, CHR 0xE9, CHR 0x80, CHR 0x92, CHR 0xE5, CHR 0xA4, CHR
     0xB1, CHR 0xE8, CHR 0xB4, CHR 0xA5, CHR 0xEF, CHR 0xBC, CHR 0x88, CHR 0xE6, CHR 0x9C,
     CHR 0xAA, CHR 0xE6, CHR 0x8F, CHR 0x90, CHR 0xE4, CHR 0xBE, CHR 0x9B, CHR 0xE5, CHR
     0x8E, CHR 0x9F, CHR 0xE5, CHR 0x9B, CHR 0xA0, CHR 0xEF, CHR 0xBC, CHR 0x89]"

definition MarkNotifyFailed :: "uuid \<Rightarrow> string \<Rightarrow> AlertDB \<Rightarrow> unit db_result" where
  "MarkNotifyFailed i reason db = exec_update (failed_row (if reason = [] then no_reason else reason)) i db"

definition silence_check :: "Silence \<Rightarrow> bool" where
  "silence_check w \<longleftrightarrow> \<not> btrim_blank (si_Reason w) \<and> \<not> btrim_blank (si_CreatedBy w) \<and> StartsAt w < EndsAt w
     \<and> (si_RuleKey w = [] \<or> dotted_key (si_RuleKey w))"

definition CreateSilence :: "uuid \<Rightarrow> Silence \<Rightarrow> AlertDB \<Rightarrow> Silence db_result" where
  "CreateSilence newID w db =
    (case Silence_Validate w of Inl e \<Rightarrow> (db, Inl e)
     | Inr _ \<Rightarrow> let w = (if si_ID w = 0 then w\<lparr>si_ID := newID\<rparr> else w) in
       if \<not> silence_check w \<or> si_Environment w \<notin> set (environments db) \<or> si_ID w \<in> set (map si_ID (silences db))
       then (db, Inl ErrDatabase)
       else (db\<lparr>silences := silences db @ [w]\<rparr>, Inr w))"

definition ListActiveSilences :: "string \<Rightarrow> time \<Rightarrow> AlertDB \<Rightarrow> Silence list" where
  "ListActiveSilences env at0 db = sort_key (\<lambda>w. - EndsAt w)
     (filter (\<lambda>w. si_Environment w = env \<and> StartsAt w \<le> at0 \<and> at0 < EndsAt w) (silences db))"

definition ListSilences :: "string \<Rightarrow> int \<Rightarrow> AlertDB \<Rightarrow> Silence list" where
  "ListSilences env lim db = take (nat (ClampListLimit lim))
     (sort_key (\<lambda>w. - StartsAt w) (sort_key si_ID (filter (\<lambda>w. si_Environment w = env) (silences db))))"

definition prunable :: "time \<Rightarrow> Alert \<Rightarrow> bool" where
  "prunable cutoff a \<longleftrightarrow> al_Status a = StatusResolved \<and> (case ResolvedAt a of None \<Rightarrow> False | Some t \<Rightarrow> t < cutoff)"

definition PruneResolved :: "time \<Rightarrow> int \<Rightarrow> AlertDB \<Rightarrow> AlertDB \<times> int" where
  "PruneResolved cutoff batchSize db =
    (let victims = map al_ID (take (nat batchSize) (sort_key (\<lambda>a. the (ResolvedAt a)) (filter (prunable cutoff) (alerts db))))
     in (db\<lparr>alerts := filter (\<lambda>a. al_ID a \<notin> set victims) (alerts db)\<rparr>, int (length victims)))"

section \<open>Checked upstream versions\<close>

definition same_ack :: "string \<Rightarrow> string \<Rightarrow> UpstreamVersionAck \<Rightarrow> bool" where
  "same_ack env key a \<longleftrightarrow> ack_Environment a = env \<and> ack_MetricKey a = key"

definition SetUpstreamVersionAck :: "UpstreamVersionAck \<Rightarrow> AlertDB \<Rightarrow> UpstreamVersionAck db_result" where
  "SetUpstreamVersionAck a db =
    (if ack_Environment a = [] then (db, Inl ErrMissingField)
     else if \<not> ruleKeyPattern (ack_MetricKey a) then (db, Inl ErrInvalidFormat)
     else if blank (ack_Version a) then (db, Inl ErrMissingField)
     else if blank (AcknowledgedBy a) then (db, Inl ErrMissingField)
     else if ack_AcknowledgedAt a = 0 then (db, Inl ErrMissingField)
     else if ack_Environment a \<notin> set (environments db) \<or> btrim_blank (ack_Version a) \<or> btrim_blank (AcknowledgedBy a)
     then (db, Inl ErrDatabase)
     else (db\<lparr>acks := filter (\<lambda>b. \<not> same_ack (ack_Environment a) (ack_MetricKey a) b) (acks db) @ [a]\<rparr>, Inr a))"

definition GetUpstreamVersionAck :: "string \<Rightarrow> string \<Rightarrow> AlertDB \<Rightarrow> alert_error + UpstreamVersionAck" where
  "GetUpstreamVersionAck env key db = (case find (same_ack env key) (acks db) of
     None \<Rightarrow> Inl ErrAlertNotFound | Some a \<Rightarrow> Inr a)"

definition DeleteUpstreamVersionAck :: "string \<Rightarrow> string \<Rightarrow> AlertDB \<Rightarrow> UpstreamVersionAck db_result" where
  "DeleteUpstreamVersionAck env key db = (case find (same_ack env key) (acks db) of
     None \<Rightarrow> (db, Inl ErrAlertNotFound)
   | Some a \<Rightarrow> (db\<lparr>acks := filter (\<lambda>b. \<not> same_ack env key b) (acks db)\<rparr>, Inr a))"

text \<open>As a map from metric keys.\<close>

definition ListUpstreamVersionAcks :: "string \<Rightarrow> AlertDB \<Rightarrow> (string \<times> UpstreamVersionAck) list" where
  "ListUpstreamVersionAcks env db =
    map (\<lambda>a. (ack_MetricKey a, a)) (filter (\<lambda>a. ack_Environment a = env) (acks db))"

section \<open>One round (reconcile.go)\<close>

record Finding =
  fi_RuleKey :: string
  fi_DedupKey :: string
  fi_Severity :: Severity
  fi_Title :: string
  fi_Detail :: string
  fi_SourceMetricKey :: string

record EvaluateResult =
  Findings :: "Finding list"
  HysteresisSuppressed :: int
  HysteresisHeld :: int
  VersionAckSuppressed :: int
  ChronicHeld :: int

record ReconcileResult =
  FindingCount :: int
  Opened :: int
  Merged :: int
  Resolved :: int
  Delivered :: int
  NotifyFailures :: int
  NotifySkipped :: int

definition notifyBatchLimit :: int where "notifyBatchLimit = 50"

text \<open>What a notifier answers: accepted, no channel configured, or an error with its sanitised text.\<close>

datatype notify_answer = Accepted | NoNotifier | Refused string

type_synonym notifier = "Alert \<Rightarrow> notify_answer"

definition matchesAnySilence :: "Silence list \<Rightarrow> string \<Rightarrow> time \<Rightarrow> bool" where
  "matchesAnySilence ws ruleKey at0 = list_ex (\<lambda>w. Silence_Matches w ruleKey at0) ws"

definition upsert_input :: "string \<Rightarrow> time \<Rightarrow> Silence list \<Rightarrow> Finding \<Rightarrow> UpsertInput" where
  "upsert_input env now ws f = \<lparr>up_RuleKey = fi_RuleKey f, up_DedupKey = fi_DedupKey f, up_Severity = fi_Severity f,
     up_Title = fi_Title f, up_Detail = fi_Detail f, up_Environment = env, up_SourceMetricKey = fi_SourceMetricKey f,
     Silenced = matchesAnySilence ws (fi_RuleKey f) now, up_Now = now\<rparr>"

text \<open>
  The identifiers of new alerts are drawn from \<open>newIDs\<close>, one per finding. What other
  processes do is \<open>other n\<close> before the \<open>n\<close>th statement of the round that follows a read.
\<close>

type_synonym others = "nat \<Rightarrow> AlertDB \<Rightarrow> AlertDB"

fun record_findings :: "others \<Rightarrow> nat \<Rightarrow> (nat \<Rightarrow> uuid) \<Rightarrow> string \<Rightarrow> time \<Rightarrow> Silence list \<Rightarrow> Finding list \<Rightarrow> AlertDB \<Rightarrow> ReconcileResult
  \<Rightarrow> (AlertDB \<times> ReconcileResult) \<times> alert_error option" where
  "record_findings other n newIDs env now ws [] db res = ((db, res), None)"
| "record_findings other n newIDs env now ws (f # fs) db res =
    (case Upsert (other n) (newIDs n) (upsert_input env now ws f) db of
       (db', Inl e) \<Rightarrow> ((db', res), Some e)
     | (db', Inr (_, created)) \<Rightarrow> record_findings other (Suc n) newIDs env now ws fs db'
         (if created then res\<lparr>Opened := Opened res + 1\<rparr> else res\<lparr>Merged := Merged res + 1\<rparr>))"

fun resolve_missing :: "others \<Rightarrow> nat \<Rightarrow> time \<Rightarrow> string list \<Rightarrow> Alert list \<Rightarrow> AlertDB \<Rightarrow> ReconcileResult
  \<Rightarrow> (AlertDB \<times> ReconcileResult) \<times> alert_error option" where
  "resolve_missing other n now seen [] db res = ((db, res), None)"
| "resolve_missing other n now seen (a # as) db res =
    (if al_DedupKey a \<in> set seen then resolve_missing other n now seen as db res
     else case Resolve (al_ID a) now (other n db) of
       (db', Inl ErrAlertNotFound) \<Rightarrow> resolve_missing other (Suc n) now seen as db' res
     | (db', Inl e) \<Rightarrow> ((db', res), Some e)
     | (db', Inr _) \<Rightarrow> resolve_missing other (Suc n) now seen as db' (res\<lparr>Resolved := Resolved res + 1\<rparr>))"

fun deliver_all :: "others \<Rightarrow> nat \<Rightarrow> notifier \<Rightarrow> time \<Rightarrow> Alert list \<Rightarrow> AlertDB \<Rightarrow> ReconcileResult
  \<Rightarrow> (AlertDB \<times> ReconcileResult) \<times> alert_error option" where
  "deliver_all other n notify now [] db res = ((db, res), None)"
| "deliver_all other n notify now (a # as) db res =
    (case notify a of
       Accepted \<Rightarrow> (case MarkDelivered (al_ID a) now (other n db) of
           (db', Inl e) \<Rightarrow> ((db', res), Some e)
         | (db', Inr _) \<Rightarrow> deliver_all other (Suc n) notify now as db' (res\<lparr>Delivered := Delivered res + 1\<rparr>))
     | NoNotifier \<Rightarrow> deliver_all other n notify now as db (res\<lparr>NotifySkipped := NotifySkipped res + 1\<rparr>)
     | Refused reason \<Rightarrow> (case MarkNotifyFailed (al_ID a) reason (other n db) of
           (db', Inl e) \<Rightarrow> ((db', res), Some e)
         | (db', Inr _) \<Rightarrow> deliver_all other (Suc n) notify now as db' (res\<lparr>NotifyFailures := NotifyFailures res + 1\<rparr>)))"

definition deliver :: "others \<Rightarrow> nat \<Rightarrow> notifier option \<Rightarrow> string \<Rightarrow> time \<Rightarrow> AlertDB \<Rightarrow> ReconcileResult
  \<Rightarrow> (AlertDB \<times> ReconcileResult) \<times> alert_error option" where
  "deliver other n notify env now db res =
    (let pending = ListPendingNotify env notifyBatchLimit db in
     if pending = [] then ((db, res), None)
     else case notify of
       None \<Rightarrow> ((db, res\<lparr>NotifySkipped := int (length pending)\<rparr>), None)
     | Some f \<Rightarrow> deliver_all other n f now pending db res)"

text \<open>Reading fails only in the evaluation; that the store and the evaluator are there is given.\<close>

definition Reconcile :: "others \<Rightarrow> (nat \<Rightarrow> uuid) \<Rightarrow> (string \<Rightarrow> time \<Rightarrow> string list \<Rightarrow> alert_error + EvaluateResult)
  \<Rightarrow> notifier option \<Rightarrow> string \<Rightarrow> time \<Rightarrow> AlertDB \<Rightarrow> (AlertDB \<times> ReconcileResult) \<times> alert_error option" where
  "Reconcile other newIDs evaluate notify env now db =
    (let res = \<lparr>FindingCount = 0, Opened = 0, Merged = 0, Resolved = 0, Delivered = 0, NotifyFailures = 0, NotifySkipped = 0\<rparr> in
     if env = [] then ((db, res), Some ErrMissingField)
     else let before = ListActive env db in
       case evaluate env now (map al_DedupKey before) of Inl e \<Rightarrow> ((db, res), Some e)
       | Inr evaluated \<Rightarrow>
         let findings = Findings evaluated; n = length findings;
             res = res\<lparr>FindingCount := int n\<rparr>;
             ws = ListActiveSilences env now db
         in case record_findings other 0 newIDs env now ws findings db res of
              ((db, res), Some e) \<Rightarrow> ((db, res), Some e)
            | ((db, res), None) \<Rightarrow>
              (case resolve_missing other n now (map fi_DedupKey findings) before db res of
                 ((db, res), Some e) \<Rightarrow> ((db, res), Some e)
               | ((db, res), None) \<Rightarrow> deliver other (n + length before) notify env now db res))"

end
