(* ===== verification/Alert_Rounds.thy ===== *)
theory Alert_Rounds
  imports Alerts
begin

text \<open>
  What a round leaves in the table: the constraints hold, the active alerts of the environment
  are exactly the conditions that were found, an acknowledgement survives, and a notification is
  not repeated. The rounds are quiet ones, in which no other process writes, except where
  \<open>other\<close> is named.
\<close>

section \<open>Statements\<close>

definition db_ok :: "AlertDB \<Rightarrow> bool" where
  "db_ok db \<longleftrightarrow> unique_ids (alerts db) \<and> unique_active (alerts db) \<and> list_all alert_check (alerts db)"

definition active_keys :: "string \<Rightarrow> AlertDB \<Rightarrow> string set" where
  "active_keys env db = al_DedupKey ` {a \<in> set (alerts db). active a \<and> al_Environment a = env}"

definition tables_same :: "AlertDB \<Rightarrow> AlertDB \<Rightarrow> bool" where
  "tables_same db db' \<longleftrightarrow> environments db' = environments db \<and> silences db' = silences db \<and> acks db' = acks db"

lemma unique_ids_eq: "unique_ids rs \<Longrightarrow> a \<in> set rs \<Longrightarrow> b \<in> set rs \<Longrightarrow> al_ID a = al_ID b \<Longrightarrow> a = b"
  unfolding unique_ids_def by (metis distinct_map inj_onD)

lemma unique_active_eq:
  "unique_active rs \<Longrightarrow> a \<in> set rs \<Longrightarrow> b \<in> set rs \<Longrightarrow> active a \<Longrightarrow> active b \<Longrightarrow> al_DedupKey a = al_DedupKey b \<Longrightarrow> a = b"
  unfolding unique_active_def distinct_map inj_on_def by simp

lemma update_alert_Inr:
  assumes "update_alert cond f i db = (db', Inr b)" "unique_ids (alerts db)"
  obtains a where "a \<in> set (alerts db)" "al_ID a = i" "cond a" "b = f a" "alert_check b"
    "unique_active (alerts db')" "tables_same db db'"
    "alerts db' = map (\<lambda>c. if al_ID c = i then f c else c) (alerts db)"
    "set (alerts db') = insert b (set (alerts db) - {a})"
proof -
  obtain a where a: "find_alert i db = Some a" "cond a" "b = f a" "alert_check b"
    and db': "db' = db\<lparr>alerts := map (\<lambda>c. if al_ID c = i then f c else c) (alerts db)\<rparr>" "unique_active (alerts db')"
    using assms(1) by (auto simp: update_alert_def Let_def split: option.splits if_splits)
  have m: "a \<in> set (alerts db)" "al_ID a = i" using a(1) find_SomeE by (force simp: find_alert_def)+
  define g where "g c = (if al_ID c = i then f c else c)" for c
  have ga: "g a = b" using m(2) a(3) by (simp add: g_def)
  have "g c = c" if "c \<in> set (alerts db) - {a}" for c
    using unique_ids_eq [OF assms(2) _ m(1), of c] that m(2) by (auto simp: g_def)
  then have rest: "g ` (set (alerts db) - {a}) = set (alerts db) - {a}" by force
  have "g ` set (alerts db) = g ` insert a (set (alerts db) - {a})" by (simp only: insert_Diff [OF m(1)])
  also have "\<dots> = insert b (set (alerts db) - {a})" by (simp only: image_insert ga rest)
  finally have "set (map g (alerts db)) = insert b (set (alerts db) - {a})" by simp
  moreover have "map g (alerts db) = alerts db'" by (simp add: db' g_def [abs_def])
  ultimately have "set (alerts db') = insert b (set (alerts db) - {a})" by simp
  then show thesis using that [of a] m a db' by (simp add: tables_same_def)
qed

lemma update_alert_fail: "update_alert cond f i db = (db', Inl e) \<Longrightarrow> db' = db"
  by (auto simp: update_alert_def Let_def split: option.splits if_splits)

lemma update_alert_ok:
  assumes "update_alert cond f i db = (db', Inr b)" "db_ok db" "\<And>a. al_ID (f a) = al_ID a"
  shows "db_ok db'"
proof -
  have u: "unique_ids (alerts db)" using assms(2) by (simp add: db_ok_def)
  from assms(1) u obtain a where a: "alert_check b" "unique_active (alerts db')"
    "alerts db' = map (\<lambda>c. if al_ID c = i then f c else c) (alerts db)" "set (alerts db') = insert b (set (alerts db) - {a})"
    by (rule update_alert_Inr)
  have "map al_ID (alerts db') = map al_ID (alerts db)" unfolding a(3) using assms(3) by simp
  then have "unique_ids (alerts db')" using u by (simp add: unique_ids_def)
  then show ?thesis using a(1,2,4) assms(2) by (auto simp: db_ok_def list_all_iff)
qed

lemma InsertAlert_Inr:
  assumes "InsertAlert a db = (db', Inr b)"
  shows "b = a" "alerts db' = alerts db @ [a]" "tables_same db db'" "db_ok db \<Longrightarrow> db_ok db'"
  using assms by (auto simp: InsertAlert_def db_ok_def unique_ids_def tables_same_def split: if_splits)

lemma InsertAlert_fail: "InsertAlert a db = (db', Inl e) \<Longrightarrow> db' = db"
  by (auto simp: InsertAlert_def split: if_splits)

lemma row_ids [simp]:
  "al_ID (touch_row t st d r a) = al_ID a" "al_ID (resolve_row t a) = al_ID a" "al_ID (ack_row t a) = al_ID a"
  "al_ID (delivered_row t a) = al_ID a" "al_ID (failed_row x a) = al_ID a"
  "al_DedupKey (touch_row t st d r a) = al_DedupKey a" "al_DedupKey (resolve_row t a) = al_DedupKey a"
  "al_DedupKey (delivered_row t a) = al_DedupKey a" "al_DedupKey (failed_row x a) = al_DedupKey a"
  "al_Environment (touch_row t st d r a) = al_Environment a" "al_Environment (resolve_row t a) = al_Environment a"
  "al_Environment (delivered_row t a) = al_Environment a" "al_Environment (failed_row x a) = al_Environment a"
  "al_Status (touch_row t st d r a) = st" "al_Status (delivered_row t a) = al_Status a" "al_Status (failed_row x a) = al_Status a"
  "active (delivered_row t a) = active a" "active (failed_row x a) = active a" "\<not> active (resolve_row t a)"
  by (simp_all add: touch_row_def resolve_row_def ack_row_def delivered_row_def failed_row_def active_def IsActive_def activeStatuses_def)

lemma touch_target_active: "active a \<Longrightarrow> IsActive (fst (touch_target a i))"
  by (auto simp: touch_target_def active_def IsActive_def activeStatuses_def)

lemma GetActive_Inr:
  "GetActiveByDedupKey k db = Inr a \<Longrightarrow> a \<in> set (alerts db) \<and> al_DedupKey a = k \<and> active a"
  by (auto simp: GetActiveByDedupKey_def split: option.splits dest!: find_SomeE)

lemma GetActive_Inl: "GetActiveByDedupKey k db = Inl e \<Longrightarrow> e = ErrAlertNotFound \<and> (\<forall>a \<in> set (alerts db). active a \<longrightarrow> al_DedupKey a \<noteq> k)"
  by (auto simp: GetActiveByDedupKey_def find_None_iff split: option.splits)

section \<open>The upsert\<close>

lemma alert_touch_Inr:
  assumes "alert_touch existing i db = (db', Inr b)" "db_ok db"
  shows "\<exists>a \<in> set (alerts db). al_ID a = al_ID existing
    \<and> b = touch_row (up_Now i) (fst (touch_target existing i)) (up_Detail i) (snd (touch_target existing i)) a
    \<and> set (alerts db') = insert b (set (alerts db) - {a}) \<and> db_ok db' \<and> tables_same db db'"
proof -
  have "unique_ids (alerts db)" using assms(2) by (simp add: db_ok_def)
  note u = assms(1) [unfolded alert_touch_def TouchAlert_def case_prod_beta]
  from u \<open>unique_ids (alerts db)\<close> show ?thesis
    by (rule update_alert_Inr) (use update_alert_ok [OF u assms(2)] in auto)
qed

text \<open>The three ways an upsert succeeds.\<close>

lemma Upsert_Inr:
  assumes "Upsert other newID i db = (db', Inr (b, created))" "db_ok (other db)"
  shows "db_ok db' \<and> tables_same (other db) db' \<and>
    (if created then (\<forall>a \<in> set (alerts db). active a \<longrightarrow> al_DedupKey a \<noteq> up_DedupKey i)
        \<and> alerts db' = alerts (other db) @ [b] \<and> al_ID b = newID \<and> al_DedupKey b = up_DedupKey i
        \<and> al_Environment b = up_Environment i \<and> active b \<and> al_Status b = fst (open_as i (other db))
        \<and> al_Severity b = up_Severity i \<and> al_Title b = up_Title i
     else \<exists>existing a. (existing \<in> set (alerts db) \<or> existing \<in> set (alerts (other db))) \<and> active existing
        \<and> al_DedupKey existing = up_DedupKey i \<and> a \<in> set (alerts (other db)) \<and> al_ID a = al_ID existing
        \<and> b = touch_row (up_Now i) (fst (touch_target existing i)) (up_Detail i) (snd (touch_target existing i)) a
        \<and> set (alerts db') = insert b (set (alerts (other db)) - {a}))"
proof (cases "GetActiveByDedupKey (up_DedupKey i) db")
  case (Inr existing)
  then have "alert_touch existing i (other db) = (db', Inr b) \<and> \<not> created"
    using assms(1) by (auto simp: Upsert_def Let_def split: sum.splits prod.splits)
  then show ?thesis using alert_touch_Inr [OF _ assms(2)] GetActive_Inr [OF Inr] by force
next
  case (Inl e)
  note none = GetActive_Inl [OF Inl]
  obtain dbi ri where ins: "alert_insert newID i (other db) = (dbi, ri)" by force
  obtain st fo tr where op: "open_as i (other db) = (st, fo, tr)" by (cases "open_as i (other db)") auto
  have act: "IsActive st"
    using op by (auto simp: open_as_def IsActive_def activeStatuses_def split: if_splits option.splits)
  show ?thesis
  proof (cases ri)
    case (Inr a)
    then have e: "db' = dbi" "b = a" "created"
      using assms(1) Inl none ins by (auto simp: Upsert_def Let_def split: sum.splits)
    have ins2: "alert_insert newID i (other db) = (dbi, Inr a)" using ins Inr by simp
    show ?thesis
      using InsertAlert_Inr [OF ins2 [unfolded alert_insert_def op prod.case]] none e assms(2) act op
      by (simp add: active_def)
  next
    case Inl2: (Inl e2)
    have same: "dbi = other db"
      using ins Inl2 InsertAlert_fail by (auto simp: alert_insert_def op)
    have e2: "e2 = UniqueViolation"
      using assms(1) Inl none ins Inl2 by (cases e2) (auto simp: Upsert_def Let_def split: sum.splits)
    obtain raced where r: "GetActiveByDedupKey (up_DedupKey i) (other db) = Inr raced"
      and t: "alert_touch raced i (other db) = (db', Inr b)" "\<not> created"
      using assms(1) Inl none ins Inl2 e2 same by (auto simp: Upsert_def Let_def split: sum.splits prod.splits)
    show ?thesis using alert_touch_Inr [OF t(1) assms(2)] GetActive_Inr [OF r] t(2) by force
  qed
qed

lemma Upsert_fail: "Upsert other newID i db = (db', Inl e) \<Longrightarrow> db' = db \<or> db' = other db"
proof (cases "GetActiveByDedupKey (up_DedupKey i) db")
  case (Inr existing)
  assume "Upsert other newID i db = (db', Inl e)"
  then show ?thesis using Inr update_alert_fail
    by (auto simp: Upsert_def Let_def alert_touch_def TouchAlert_def split: sum.splits prod.splits)
next
  case (Inl e1)
  assume u: "Upsert other newID i db = (db', Inl e)"
  obtain dbi ri where ins: "alert_insert newID i (other db) = (dbi, ri)" by force
  obtain st fo tr where op: "open_as i (other db) = (st, fo, tr)" by (cases "open_as i (other db)") auto
  have same: "ri = Inl e2 \<Longrightarrow> dbi = other db" for e2
    using ins InsertAlert_fail by (auto simp: alert_insert_def op)
  show ?thesis
    using u Inl GetActive_Inl [OF Inl] ins same update_alert_fail
    by (cases ri) (auto simp: Upsert_def Let_def alert_touch_def TouchAlert_def split: sum.splits prod.splits alert_error.splits)
qed

section \<open>Quiet rounds\<close>

abbreviation quiet :: others where "quiet \<equiv> \<lambda>_ db. db"

definition active_pairs :: "AlertDB \<Rightarrow> (string \<times> string) set" where
  "active_pairs db = (\<lambda>a. (al_Environment a, al_DedupKey a)) ` {a \<in> set (alerts db). active a}"

definition keys_of :: "string \<Rightarrow> string set \<Rightarrow> AlertDB \<Rightarrow> bool" where
  "keys_of env ks db \<longleftrightarrow> (\<forall>a \<in> set (alerts db). active a \<longrightarrow> al_DedupKey a \<in> ks \<longrightarrow> al_Environment a = env)"

lemma active_keys_pairs: "active_keys env db = {k. (env, k) \<in> active_pairs db}"
  by (force simp: active_keys_def active_pairs_def)

lemma db_ok_ids: "db_ok db \<Longrightarrow> unique_ids (alerts db)"
  by (simp add: db_ok_def)

lemma db_ok_active: "db_ok db \<Longrightarrow> unique_active (alerts db)"
  by (simp add: db_ok_def)

text \<open>An upsert with nobody else about: a new row, or the one row of the key replaced.\<close>

lemma quiet_Upsert:
  assumes "Upsert (\<lambda>db. db) newID i db = (db', Inr (b, created))" "db_ok db"
  obtains (new) "created" "\<forall>a \<in> set (alerts db). active a \<longrightarrow> al_DedupKey a \<noteq> up_DedupKey i"
      "set (alerts db') = insert b (set (alerts db))" "al_DedupKey b = up_DedupKey i" "al_Environment b = up_Environment i"
      "active b" "db_ok db'" "tables_same db db'"
  | (merged) a where "\<not> created" "a \<in> set (alerts db)" "active a" "al_DedupKey a = up_DedupKey i"
      "b = touch_row (up_Now i) (fst (touch_target a i)) (up_Detail i) (snd (touch_target a i)) a"
      "set (alerts db') = insert b (set (alerts db) - {a})" "active b" "db_ok db'" "tables_same db db'"
proof (cases created)
  case True
  then show thesis using Upsert_Inr [OF assms] new by simp
next
  case False
  then obtain e a where e: "e \<in> set (alerts db)" "active e" "al_DedupKey e = up_DedupKey i" "a \<in> set (alerts db)"
    "al_ID a = al_ID e" "b = touch_row (up_Now i) (fst (touch_target e i)) (up_Detail i) (snd (touch_target e i)) a"
    "set (alerts db') = insert b (set (alerts db) - {a})" "db_ok db'" "tables_same db db'"
    using Upsert_Inr [OF assms] by auto
  have "a = e" using unique_ids_eq [OF db_ok_ids [OF assms(2)]] e(1,4,5) by simp
  moreover have "active b" using touch_target_active [OF e(2), of i] by (simp add: active_def e(6))
  ultimately show thesis using merged [of e] False e by simp
qed

lemma quiet_Upsert_pairs:
  assumes "Upsert (\<lambda>db. db) newID i db = (db', Inr (b, created))" "db_ok db" "keys_of (up_Environment i) {up_DedupKey i} db"
  shows "active_pairs db' = insert (up_Environment i, up_DedupKey i) (active_pairs db)
    \<and> (keys_of (up_Environment i) ks db \<longrightarrow> keys_of (up_Environment i) ks db')"
  using assms(1,2)
proof (cases rule: quiet_Upsert)
  case new
  have e: "{a \<in> set (alerts db'). active a} = insert b {a \<in> set (alerts db). active a}" using new by auto
  have "active_pairs db' = insert (up_Environment i, up_DedupKey i) (active_pairs db)"
    unfolding active_pairs_def e by (simp add: new)
  then show ?thesis using new by (simp add: keys_of_def)
next
  case (merged a)
  have env: "al_Environment a = up_Environment i" using assms(3) merged by (simp add: keys_of_def)
  have b: "al_Environment b = al_Environment a" "al_DedupKey b = al_DedupKey a" by (simp_all add: merged)
  have e: "{a \<in> set (alerts db'). active a} = insert b ({a \<in> set (alerts db). active a} - {a})" using merged by auto
  have e2: "{a \<in> set (alerts db). active a} = insert a ({a \<in> set (alerts db). active a} - {a})" using merged by auto
  have "active_pairs db' = active_pairs db" unfolding active_pairs_def e by (subst (2) e2) (simp only: image_insert b)
  moreover have "(up_Environment i, up_DedupKey i) \<in> active_pairs db"
    using merged env by (force simp: active_pairs_def)
  ultimately have "active_pairs db' = insert (up_Environment i, up_DedupKey i) (active_pairs db)" by auto
  moreover have "keys_of (up_Environment i) ks db'" if "keys_of (up_Environment i) ks db"
    using that merged(2,3,6) b env by (auto simp: keys_of_def)
  ultimately show ?thesis by blast
qed

text \<open>Rows of other keys are left alone.\<close>

lemma quiet_Upsert_frame:
  assumes "Upsert (\<lambda>db. db) newID i db = (db', Inr (b, created))" "db_ok db" "al_DedupKey c \<noteq> up_DedupKey i"
  shows "c \<in> set (alerts db') \<longleftrightarrow> c \<in> set (alerts db)"
  using assms(1,2) by (cases rule: quiet_Upsert) (use assms(3) in auto)

lemma quiet_record:
  assumes "record_findings quiet n newIDs env now ws fs db res = ((db', res'), None)"
    "db_ok db" "keys_of env (fi_DedupKey ` set fs) db"
  shows "active_pairs db' = Pair env ` fi_DedupKey ` set fs \<union> active_pairs db \<and> db_ok db' \<and> tables_same db db'
    \<and> (\<forall>c. al_DedupKey c \<notin> fi_DedupKey ` set fs \<longrightarrow> (c \<in> set (alerts db') \<longleftrightarrow> c \<in> set (alerts db)))"
  using assms
proof (induction fs arbitrary: n db res)
  case Nil
  then show ?case by (simp add: tables_same_def)
next
  case (Cons f fs)
  obtain db1 b created where u: "Upsert (\<lambda>db. db) (newIDs n) (upsert_input env now ws f) db = (db1, Inr (b, created))"
    using Cons.prems(1) by (auto split: prod.splits sum.splits)
  have i: "up_Environment (upsert_input env now ws f) = env" "up_DedupKey (upsert_input env now ws f) = fi_DedupKey f"
    by (simp_all add: upsert_input_def)
  have k1: "keys_of env {fi_DedupKey f} db" and k2: "keys_of env (fi_DedupKey ` set fs) db"
    using Cons.prems(3) by (simp_all add: keys_of_def)
  have p: "active_pairs db1 = insert (env, fi_DedupKey f) (active_pairs db)"
    "keys_of env (fi_DedupKey ` set fs) db1"
    using quiet_Upsert_pairs [OF u Cons.prems(2), unfolded i] k1 k2 by blast+
  have ok: "db_ok db1 \<and> tables_same db db1" using Upsert_Inr [OF u Cons.prems(2)] by simp
  have IH: "active_pairs db' = Pair env ` fi_DedupKey ` set fs \<union> active_pairs db1 \<and> db_ok db' \<and> tables_same db1 db'
    \<and> (\<forall>c. al_DedupKey c \<notin> fi_DedupKey ` set fs \<longrightarrow> (c \<in> set (alerts db') \<longleftrightarrow> c \<in> set (alerts db1)))"
    by (rule Cons.IH [OF _ ok [THEN conjunct1] p(2)]) (use Cons.prems(1) u in auto)
  then show ?case using p(1) ok quiet_Upsert_frame [OF u Cons.prems(2), unfolded i] by (auto simp: tables_same_def)
qed

text \<open>Recovery: an alert that was active before the round and is still there is resolved.\<close>

lemma quiet_resolve_one:
  assumes "db_ok db" "a \<in> set (alerts db)" "active a"
    "Resolve (al_ID a) now db = (db', r)"
  shows "r = Inr (resolve_row now a) \<and> set (alerts db') = insert (resolve_row now a) (set (alerts db) - {a})
    \<and> db_ok db' \<and> tables_same db db' \<and> active_pairs db' = active_pairs db - {(al_Environment a, al_DedupKey a)}"
proof -
  have fa: "find_alert (al_ID a) db = Some a"
  proof (cases "find_alert (al_ID a) db")
    case None then show ?thesis using assms(2) by (auto simp: find_alert_def find_None_iff)
  next
    case (Some c)
    then have "c \<in> set (alerts db) \<and> al_ID c = al_ID a" using find_SomeE by (force simp: find_alert_def)
    then show ?thesis using Some unique_ids_eq [OF db_ok_ids [OF assms(1)] _ assms(2)] by blast
  qed
  have chk: "alert_check (resolve_row now a)"
    using assms(1-2) unfolding db_ok_def list_all_iff by (auto simp: alert_check_def resolve_row_def)
  define g where "g c = (if al_ID c = al_ID a then resolve_row now c else c)" for c
  have ag: "active (g c) \<Longrightarrow> active c" and gk: "al_DedupKey (g c) = al_DedupKey c" for c
    by (auto simp: g_def split: if_splits)
  have "map al_DedupKey (filter active (map g xs)) = map al_DedupKey (filter (\<lambda>c. active (g c)) (filter active xs))" for xs
    by (induction xs) (use ag in \<open>auto simp: gk\<close>)
  then have "unique_active (map g (alerts db))"
    using db_ok_active [OF assms(1)] by (simp add: unique_active_def distinct_map_filter del: filter_filter)
  then have r: "update_alert active (resolve_row now) (al_ID a) db = (db\<lparr>alerts := map g (alerts db)\<rparr>, Inr (resolve_row now a))"
    by (simp add: update_alert_def fa assms(3) chk Let_def g_def [abs_def])
  then have e: "db' = db\<lparr>alerts := map g (alerts db)\<rparr>" "r = Inr (resolve_row now a)" using assms(4) by (simp_all add: Resolve_def)
  note r2 = r [folded e(1)]
  from r2 db_ok_ids [OF assms(1)] obtain a2 where a2: "a2 \<in> set (alerts db)" "al_ID a2 = al_ID a"
    "resolve_row now a = resolve_row now a2" "tables_same db db'"
    "set (alerts db') = insert (resolve_row now a) (set (alerts db) - {a2})"
    by (rule update_alert_Inr)
  have "a2 = a" by (rule unique_ids_eq [OF db_ok_ids [OF assms(1)] a2(1) assms(2) a2(2)])
  then have s: "set (alerts db') = insert (resolve_row now a) (set (alerts db) - {a})" using a2(5) by simp
  have "db_ok db'" using update_alert_ok [OF r2 assms(1)] by simp
  moreover have "active (resolve_row now a) = False" "resolve_row now a \<noteq> a" "a \<noteq> resolve_row now a"
    using assms(3) by (metis row_ids)+
  then have "{c \<in> set (alerts db'). active c} = {c \<in> set (alerts db). active c} - {a}"
    unfolding s by auto
  then have "active_pairs db' = active_pairs db - {(al_Environment a, al_DedupKey a)}"
    using unique_active_eq [OF db_ok_active [OF assms(1)] _ assms(2) _ assms(3)] assms(2,3)
    unfolding active_pairs_def by auto
  ultimately show ?thesis using s e a2(4) by blast
qed

lemma quiet_resolve:
  assumes "resolve_missing quiet n now seen as db res = ((db', res'), None)" "db_ok db" "distinct as"
    "\<forall>a \<in> set as. al_DedupKey a \<notin> set seen \<longrightarrow> a \<in> set (alerts db) \<and> active a"
  shows "active_pairs db' = active_pairs db - (\<lambda>a. (al_Environment a, al_DedupKey a)) ` {a \<in> set as. al_DedupKey a \<notin> set seen}
    \<and> db_ok db' \<and> tables_same db db'
    \<and> (\<forall>c. al_DedupKey c \<in> set seen \<or> al_Environment c \<notin> al_Environment ` set as \<longrightarrow> (c \<in> set (alerts db') \<longleftrightarrow> c \<in> set (alerts db)))"
  using assms
proof (induction "as" arbitrary: n db res)
  case Nil
  then show ?case by (simp add: tables_same_def)
next
  case (Cons a "as")
  show ?case
  proof (cases "al_DedupKey a \<in> set seen")
    case True
    have IH: "active_pairs db' = active_pairs db - (\<lambda>a. (al_Environment a, al_DedupKey a)) ` {a \<in> set as. al_DedupKey a \<notin> set seen}
      \<and> db_ok db' \<and> tables_same db db'
      \<and> (\<forall>c. al_DedupKey c \<in> set seen \<or> al_Environment c \<notin> al_Environment ` set as \<longrightarrow> (c \<in> set (alerts db') \<longleftrightarrow> c \<in> set (alerts db)))"
      by (rule Cons.IH) (use Cons.prems True in auto)
    moreover have "{b \<in> set (a # as). al_DedupKey b \<notin> set seen} = {b \<in> set as. al_DedupKey b \<notin> set seen}"
      using True by auto
    ultimately show ?thesis by auto
  next
    case False
    then have a: "a \<in> set (alerts db)" "active a" using Cons.prems(4) by auto
    obtain db1 r where u: "Resolve (al_ID a) now db = (db1, r)" by force
    note one = quiet_resolve_one [OF Cons.prems(2) a u]
    then have rest: "resolve_missing quiet (Suc n) now seen as db1 (res\<lparr>Resolved := Resolved res + 1\<rparr>) = ((db', res'), None)"
      using Cons.prems(1) False u by simp
    have IH: "active_pairs db' = active_pairs db1 - (\<lambda>a. (al_Environment a, al_DedupKey a)) ` {a \<in> set as. al_DedupKey a \<notin> set seen}
      \<and> db_ok db' \<and> tables_same db1 db'
      \<and> (\<forall>c. al_DedupKey c \<in> set seen \<or> al_Environment c \<notin> al_Environment ` set as \<longrightarrow> (c \<in> set (alerts db') \<longleftrightarrow> c \<in> set (alerts db1)))"
      by (rule Cons.IH [OF rest]) (use one Cons.prems(3,4) in auto)
    have "{b \<in> set (a # as). al_DedupKey b \<notin> set seen} = insert a {b \<in> set as. al_DedupKey b \<notin> set seen}"
      using False by auto
    then have "active_pairs db' = active_pairs db - (\<lambda>a. (al_Environment a, al_DedupKey a)) ` {b \<in> set (a # as). al_DedupKey b \<notin> set seen}"
      using IH one by auto
    moreover have "c \<in> set (alerts db1) \<longleftrightarrow> c \<in> set (alerts db)"
      if "al_DedupKey c \<in> set seen \<or> al_Environment c \<notin> al_Environment ` set (a # as)" for c
    proof -
      have "c \<noteq> a" "c \<noteq> resolve_row now a" using that False by auto
      then show ?thesis using one by auto
    qed
    ultimately show ?thesis using IH one by (auto simp: tables_same_def)
  qed
qed

text \<open>Delivery changes the notification columns only, and only of the alerts it was given.\<close>

lemma update_pairs:
  assumes "update_alert cond f i db = (db', Inr b)" "db_ok db"
    "\<And>a. al_ID (f a) = al_ID a \<and> active (f a) = active a \<and> al_Environment (f a) = al_Environment a \<and> al_DedupKey (f a) = al_DedupKey a"
  shows "active_pairs db' = active_pairs db \<and> db_ok db' \<and> tables_same db db'
    \<and> (\<forall>c. al_ID c \<noteq> i \<longrightarrow> (c \<in> set (alerts db') \<longleftrightarrow> c \<in> set (alerts db)))"
proof -
  from assms(1) db_ok_ids [OF assms(2)] obtain a where a: "a \<in> set (alerts db)" "al_ID a = i" "b = f a" "tables_same db db'"
    "alerts db' = map (\<lambda>c. if al_ID c = i then f c else c) (alerts db)" "set (alerts db') = insert b (set (alerts db) - {a})"
    by (rule update_alert_Inr)
  have "db_ok db'" by (rule update_alert_ok [OF assms(1,2)]) (simp add: assms(3))
  moreover have "active_pairs db' = active_pairs db"
  proof -
    define g where "g c = (if al_ID c = i then f c else c)" for c
    have g: "active (g c) = active c" "al_Environment (g c) = al_Environment c" "al_DedupKey (g c) = al_DedupKey c" for c
      using assms(3) by (simp_all add: g_def)
    have "alerts db' = map g (alerts db)" unfolding a(5) by (simp add: g_def [abs_def])
    then have "{c \<in> set (alerts db'). active c} = g ` {c \<in> set (alerts db). active c}" by (auto simp: g)
    then have "active_pairs db' = (\<lambda>c. (al_Environment (g c), al_DedupKey (g c))) ` {c \<in> set (alerts db). active c}"
      by (simp add: active_pairs_def image_image)
    also have "(\<lambda>c. (al_Environment (g c), al_DedupKey (g c))) = (\<lambda>c. (al_Environment c, al_DedupKey c))"
      by (simp add: g)
    finally show ?thesis by (simp add: active_pairs_def)
  qed
  moreover have "al_ID b = i" using a(2,3) assms(3) by simp
  ultimately show ?thesis using a(2,4,6) by auto
qed

lemma exec_update_cases:
  assumes "exec_update f i db = (db', Inr ())"
  obtains "db' = db" | b where "update_alert (\<lambda>_. True) f i db = (db', Inr b)"
  using assms update_alert_fail [of "\<lambda>_. True" f i db]
  by (fastforce simp: exec_update_def split: prod.splits sum.splits alert_error.splits)

lemma quiet_exec:
  assumes "exec_update f i db = (db', Inr ())" "db_ok db"
    "\<And>a. al_ID (f a) = al_ID a \<and> active (f a) = active a \<and> al_Environment (f a) = al_Environment a \<and> al_DedupKey (f a) = al_DedupKey a"
  shows "active_pairs db' = active_pairs db \<and> db_ok db' \<and> tables_same db db'
    \<and> (\<forall>c. al_ID c \<noteq> i \<longrightarrow> (c \<in> set (alerts db') \<longleftrightarrow> c \<in> set (alerts db)))"
  using assms(1)
proof (cases rule: exec_update_cases)
  case 1
  then show ?thesis using assms(2) by (simp add: tables_same_def)
next
  case (2 b)
  then show ?thesis using update_pairs [OF _ assms(2,3)] by blast
qed

lemma tables_same_trans: "tables_same a b \<Longrightarrow> tables_same b c \<Longrightarrow> tables_same a c"
  by (simp add: tables_same_def)

lemma quiet_deliver_all:
  assumes "deliver_all quiet n notify now as db res = ((db', res'), None)" "db_ok db"
  shows "active_pairs db' = active_pairs db \<and> db_ok db' \<and> tables_same db db'
    \<and> (\<forall>c. al_ID c \<notin> al_ID ` set as \<longrightarrow> (c \<in> set (alerts db') \<longleftrightarrow> c \<in> set (alerts db)))"
  using assms
proof (induction "as" arbitrary: n db res)
  case Nil
  then show ?case by (simp add: tables_same_def)
next
  case (Cons a "as")
  have step: ?case if "exec_update f (al_ID a) db = (db1, Inr ())"
    "deliver_all quiet m notify now as db1 res1 = ((db', res'), None)"
    "\<And>a. al_ID (f a) = al_ID a \<and> active (f a) = active a \<and> al_Environment (f a) = al_Environment a \<and> al_DedupKey (f a) = al_DedupKey a"
    for f m db1 res1
    using quiet_exec [OF that(1) Cons.prems(2) that(3)] Cons.IH [OF that(2)] by (auto intro: tables_same_trans)
  show ?case
  proof (cases "notify a")
    case Accepted
    obtain db1 where e: "MarkDelivered (al_ID a) now db = (db1, Inr ())"
      using Cons.prems(1) Accepted by (auto split: prod.splits sum.splits)
    show ?thesis by (rule step [OF e [unfolded MarkDelivered_def]]) (use Cons.prems(1) Accepted e in auto)
  next
    case NoNotifier
    then have "deliver_all quiet n notify now as db (res\<lparr>NotifySkipped := NotifySkipped res + 1\<rparr>) = ((db', res'), None)"
      using Cons.prems(1) by simp
    from Cons.IH [OF this Cons.prems(2)] show ?thesis by auto
  next
    case (Refused reason)
    obtain db1 where e: "MarkNotifyFailed (al_ID a) reason db = (db1, Inr ())"
      using Cons.prems(1) Refused by (auto split: prod.splits sum.splits)
    show ?thesis by (rule step [OF e [unfolded MarkNotifyFailed_def]]) (use Cons.prems(1) Refused e in auto)
  qed
qed

lemma quiet_deliver:
  assumes "deliver quiet n notify env now db res = ((db', res'), None)" "db_ok db"
  shows "active_pairs db' = active_pairs db \<and> db_ok db' \<and> tables_same db db'
    \<and> (\<forall>c. al_ID c \<notin> al_ID ` {a \<in> set (alerts db). al_Environment a = env \<and> pending_notify a} \<longrightarrow> (c \<in> set (alerts db') \<longleftrightarrow> c \<in> set (alerts db)))"
proof -
  let ?p = "ListPendingNotify env notifyBatchLimit db"
  have sub: "set ?p \<subseteq> {a \<in> set (alerts db). al_Environment a = env \<and> pending_notify a}"
    using set_take_subset [of "nat (ClampListLimit notifyBatchLimit)"] by (fastforce simp: ListPendingNotify_def)
  show ?thesis
  proof (cases "?p = [] \<or> notify = None")
    case True
    then have "db' = db" using assms(1) by (auto simp: deliver_def Let_def split: if_splits)
    then show ?thesis using assms(2) by (simp add: tables_same_def)
  next
    case False
    then obtain f where "deliver_all quiet n f now ?p db res = ((db', res'), None)"
      using assms(1) by (auto simp: deliver_def)
    from quiet_deliver_all [OF this assms(2)] show ?thesis using sub by blast
  qed
qed

lemma Reconcile_phases:
  assumes "Reconcile quiet newIDs evaluate notify env now db = ((db', res), None)"
  obtains ev db1 r0 r1 db2 r2 n m where "evaluate env now (map al_DedupKey (ListActive env db)) = Inr ev"
    "record_findings quiet 0 newIDs env now (ListActiveSilences env now db) (Findings ev) db r0 = ((db1, r1), None)"
    "resolve_missing quiet n now (map fi_DedupKey (Findings ev)) (ListActive env db) db1 r1 = ((db2, r2), None)"
    "deliver quiet m notify env now db2 r2 = ((db', res), None)"
  using assms unfolding Reconcile_def by (auto simp: Let_def split: if_splits sum.splits prod.splits option.splits)

lemma set_latest_first [simp]: "set (latest_first rs) = set rs"
  by (simp add: latest_first_def)

lemma unique_ids_distinct: "unique_ids rs \<Longrightarrow> distinct rs"
  by (simp add: unique_ids_def distinct_map)

lemma ListActive_facts:
  "set (ListActive env db) = {a \<in> set (alerts db). al_Environment a = env \<and> active a}"
  "db_ok db \<Longrightarrow> distinct (ListActive env db)"
  using unique_ids_distinct [OF db_ok_ids] by (auto simp: ListActive_def latest_first_def)

text \<open>The round up to the delivery.\<close>

lemma quiet_round:
  assumes rec: "record_findings quiet 0 newIDs env now ws fs db r0 = ((db1, r1), None)"
    and res: "resolve_missing quiet n now (map fi_DedupKey fs) (ListActive env db) db1 r1 = ((db2, r2), None)"
    and ok: "db_ok db" "keys_of env (fi_DedupKey ` set fs) db"
  shows "active_pairs db2 = Pair env ` fi_DedupKey ` set fs \<union> {p \<in> active_pairs db. fst p \<noteq> env}"
    "db_ok db1" "db_ok db2" "tables_same db db2"
    "al_DedupKey c \<in> fi_DedupKey ` set fs \<Longrightarrow> c \<in> set (alerts db2) \<longleftrightarrow> c \<in> set (alerts db1)"
    "al_DedupKey c \<notin> fi_DedupKey ` set fs \<Longrightarrow> al_Environment c \<noteq> env \<Longrightarrow> c \<in> set (alerts db2) \<longleftrightarrow> c \<in> set (alerts db)"
proof -
  note r = quiet_record [OF rec ok]
  have still: "\<forall>a \<in> set (ListActive env db). al_DedupKey a \<notin> set (map fi_DedupKey fs) \<longrightarrow> a \<in> set (alerts db1) \<and> active a"
    using r by (auto simp: ListActive_facts)
  note q = quiet_resolve [OF res _ ListActive_facts(2) [OF ok(1)] still]
  show "db_ok db1" "db_ok db2" "tables_same db db2" using r q by (auto simp: tables_same_def)
  show "al_DedupKey c \<in> fi_DedupKey ` set fs \<Longrightarrow> c \<in> set (alerts db2) \<longleftrightarrow> c \<in> set (alerts db1)" using r q by simp
  show "al_DedupKey c \<notin> fi_DedupKey ` set fs \<Longrightarrow> al_Environment c \<noteq> env \<Longrightarrow> c \<in> set (alerts db2) \<longleftrightarrow> c \<in> set (alerts db)"
    using r q by (auto simp: ListActive_facts)
  have "active_pairs db2 = (Pair env ` fi_DedupKey ` set fs \<union> active_pairs db)
      - (\<lambda>a. (al_Environment a, al_DedupKey a)) ` {a \<in> set (ListActive env db). al_DedupKey a \<notin> set (map fi_DedupKey fs)}"
    using r q by simp
  also have "(\<lambda>a. (al_Environment a, al_DedupKey a)) ` {a \<in> set (ListActive env db). al_DedupKey a \<notin> set (map fi_DedupKey fs)}
      = {p \<in> active_pairs db. fst p = env \<and> snd p \<notin> fi_DedupKey ` set fs}"
    unfolding ListActive_facts active_pairs_def by (auto simp: image_iff)
  also have "(Pair env ` fi_DedupKey ` set fs \<union> active_pairs db) - {p \<in> active_pairs db. fst p = env \<and> snd p \<notin> fi_DedupKey ` set fs}
      = Pair env ` fi_DedupKey ` set fs \<union> {p \<in> active_pairs db. fst p \<noteq> env}" by auto
  finally show "active_pairs db2 = Pair env ` fi_DedupKey ` set fs \<union> {p \<in> active_pairs db. fst p \<noteq> env}" .
qed

text \<open>An acknowledged row through the recording phase.\<close>

lemma record_keeps_ack:
  assumes "record_findings quiet n newIDs env now ws fs db res = ((db', res'), None)" "db_ok db"
    "a \<in> set (alerts db)" "al_Status a = StatusAcknowledged"
    "\<forall>f \<in> set fs. fi_DedupKey f = al_DedupKey a \<longrightarrow> \<not> matchesAnySilence ws (fi_RuleKey f) now"
  shows "\<exists>b \<in> set (alerts db'). al_ID b = al_ID a \<and> al_DedupKey b = al_DedupKey a \<and> al_Status b = StatusAcknowledged
    \<and> NotifyStatus b = NotifyStatus a \<and> AcknowledgedAt b = AcknowledgedAt a"
  using assms
proof (induction fs arbitrary: n db res a)
  case (Cons f fs)
  obtain db1 b created where u: "Upsert (\<lambda>db. db) (newIDs n) (upsert_input env now ws f) db = (db1, Inr (b, created))"
    using Cons.prems(1) by (auto split: prod.splits sum.splits)
  have ok: "db_ok db1" using Upsert_Inr [OF u Cons.prems(2)] by simp
  have act: "active a" using Cons.prems(4) by (simp add: active_def IsActive_def activeStatuses_def)
  have one: "\<exists>c \<in> set (alerts db1). al_ID c = al_ID a \<and> al_DedupKey c = al_DedupKey a \<and> al_Status c = StatusAcknowledged
    \<and> NotifyStatus c = NotifyStatus a \<and> AcknowledgedAt c = AcknowledgedAt a"
    using u Cons.prems(2)
  proof (cases rule: quiet_Upsert)
    case new
    then show ?thesis using Cons.prems(3,4) by auto
  next
    case (merged e)
    show ?thesis
    proof (cases "e = a")
      case False
      then show ?thesis using merged Cons.prems(3,4) by auto
    next
      case True
      then have "\<not> Silenced (upsert_input env now ws f)" using Cons.prems(5) merged(4) by (simp add: upsert_input_def)
      then have "touch_target e (upsert_input env now ws f) = (StatusAcknowledged, False)"
        using True Cons.prems(4) by (simp add: touch_target_def)
      then show ?thesis using merged True by (intro bexI [of _ b]) (simp_all add: touch_row_def)
    qed
  qed
  then obtain c where c: "c \<in> set (alerts db1)" "al_ID c = al_ID a" "al_DedupKey c = al_DedupKey a"
    "al_Status c = StatusAcknowledged" "NotifyStatus c = NotifyStatus a" "AcknowledgedAt c = AcknowledgedAt a" by blast
  obtain res1 where "record_findings quiet (Suc n) newIDs env now ws fs db1 res1 = ((db', res'), None)"
    using Cons.prems(1) u by simp
  from Cons.IH [OF this ok c(1,4)] show ?case using Cons.prems(5) c by simp
qed auto

lemma sort_key_hd:
  assumes "p \<in> set xs" "\<And>q. q \<in> set xs \<Longrightarrow> q \<noteq> p \<Longrightarrow> f p < f q"
  shows "\<exists>ys. sort_key f xs = p # ys"
proof (cases "sort_key f xs")
  case Nil
  then show ?thesis using assms(1) by (metis set_sort empty_iff list.set(1))
next
  case (Cons y ys)
  have "sorted (map f (y # ys))" using sorted_sort_key [of f xs] Cons by simp
  moreover have "set (y # ys) = set xs" using Cons by (metis set_sort)
  ultimately have "f y \<le> f p" "y \<in> set xs" using assms(1) by auto
  then show ?thesis using assms(2) [of y] Cons by force
qed

lemma wrap32_Suc:
  assumes "1 \<le> n" "n \<le> 2147483647" "1 \<le> wrap32 (n + 1)"
  shows "wrap32 (n + 1) = n + 1"
proof (cases "n = 2147483647")
  case False
  then have "(n + 1 + 2147483648) mod 4294967296 = n + 1 + 2147483648"
    using assms by (intro mod_pos_pos_trivial) auto
  then show ?thesis by (simp add: wrap32_def)
qed (use assms(3) in \<open>simp add: wrap32_def\<close>)

text \<open>Constraints under interference.\<close>

lemma Upsert_ok:
  assumes "\<And>db. db_ok db \<Longrightarrow> db_ok (other db)" "db_ok db"
  shows "db_ok (fst (Upsert other newID i db))"
proof (cases "Upsert other newID i db")
  case (Pair db' r)
  show ?thesis
  proof (cases r)
    case (Inl e)
    then show ?thesis using Upsert_fail [of other newID i db] Pair assms by auto
  next
    case (Inr p)
    then have "Upsert other newID i db = (db', Inr (fst p, snd p))" using Pair by simp
    then show ?thesis using Upsert_Inr assms Pair by fastforce
  qed
qed

lemma update_alert_keeps: "(\<And>a. al_ID (f a) = al_ID a) \<Longrightarrow> db_ok db \<Longrightarrow> db_ok (fst (update_alert cond f i db))"
  by (metis prod.collapse sum.exhaust_sel update_alert_fail update_alert_ok)

lemma exec_update_keeps: "(\<And>a. al_ID (f a) = al_ID a) \<Longrightarrow> db_ok db \<Longrightarrow> db_ok (fst (exec_update f i db))"
  using update_alert_keeps [of f db "\<lambda>_. True" i]
  by (auto simp: exec_update_def split: prod.splits sum.splits alert_error.splits)

lemma Acknowledge_keeps: "db_ok db \<Longrightarrow> db_ok (fst (Acknowledge i t db))"
proof -
  assume ok: "db_ok db"
  obtain db1 r where u: "update_alert (\<lambda>a. al_Status a = StatusOpen \<or> al_Status a = StatusReopened) (ack_row t) i db = (db1, r)"
    by force
  have "db_ok (fst (update_alert (\<lambda>a. al_Status a = StatusOpen \<or> al_Status a = StatusReopened) (ack_row t) i db))"
    by (rule update_alert_keeps) (simp_all add: ok)
  then have "db_ok db1" by (simp add: u)
  then show ?thesis using u by (auto simp: Acknowledge_def split: sum.splits alert_error.splits)
qed

lemma record_ok:
  assumes "\<And>n db. db_ok db \<Longrightarrow> db_ok (other n db)"
  shows "db_ok db \<Longrightarrow> db_ok (fst (fst (record_findings other n newIDs env now ws fs db res)))"
proof (induction fs arbitrary: n db res)
  case (Cons f fs)
  obtain db1 r where u: "Upsert (other n) (newIDs n) (upsert_input env now ws f) db = (db1, r)" by force
  have "db_ok (fst (Upsert (other n) (newIDs n) (upsert_input env now ws f) db))"
    by (rule Upsert_ok [OF assms Cons.prems])
  then have "db_ok db1" using u by simp
  then show ?case using Cons.IH u by (cases r) auto
qed simp

lemma resolve_ok:
  assumes "\<And>n db. db_ok db \<Longrightarrow> db_ok (other n db)"
  shows "db_ok db \<Longrightarrow> db_ok (fst (fst (resolve_missing other n now seen as db res)))"
proof (induction "as" arbitrary: n db res)
  case (Cons a "as")
  obtain db1 r where u: "Resolve (al_ID a) now (other n db) = (db1, r)" by force
  have "db_ok (fst (Resolve (al_ID a) now (other n db)))"
    unfolding Resolve_def by (rule update_alert_keeps) (simp_all add: assms Cons.prems)
  then have "db_ok db1" using u by simp
  then show ?case using Cons.IH Cons.prems u by (cases r) (auto split: alert_error.splits)
qed simp

lemma deliver_ok:
  assumes "\<And>n db. db_ok db \<Longrightarrow> db_ok (other n db)"
  shows "db_ok db \<Longrightarrow> db_ok (fst (fst (deliver_all other n notify now as db res)))"
proof (induction "as" arbitrary: n db res)
  case (Cons a "as")
  have "db_ok (fst (MarkDelivered (al_ID a) now (other n db)))"
    unfolding MarkDelivered_def by (rule exec_update_keeps) (simp_all add: assms Cons.prems)
  moreover have "db_ok (fst (MarkNotifyFailed (al_ID a) reason (other n db)))" for reason
    unfolding MarkNotifyFailed_def by (rule exec_update_keeps) (simp_all add: assms Cons.prems)
  ultimately have m: "MarkDelivered (al_ID a) now (other n db) = (db1, r) \<Longrightarrow> db_ok db1"
    "MarkNotifyFailed (al_ID a) reason (other n db) = (db1, r) \<Longrightarrow> db_ok db1" for db1 r reason
    by (metis fst_conv)+
  then show ?case using Cons.prems
    by (cases "notify a") (auto split: sum.splits prod.splits intro: Cons.IH m)
qed simp

text \<open>The active keys after a whole round.\<close>

lemma quiet_round_keys:
  assumes "record_findings quiet 0 newIDs env now (ListActiveSilences env now db) (Findings ev) db r0 = ((db1, r1), None)"
    "resolve_missing quiet n now (map fi_DedupKey (Findings ev)) (ListActive env db) db1 r1 = ((db2, r2), None)"
    "deliver quiet m notify env now db2 r2 = ((db', res), None)"
    "db_ok db" "\<forall>c \<in> set (alerts db). al_DedupKey c \<in> fi_DedupKey ` set (Findings ev) \<longrightarrow> al_Environment c = env"
  shows "active_keys env db' = fi_DedupKey ` set (Findings ev)"
proof -
  have "keys_of env (fi_DedupKey ` set (Findings ev)) db" using assms(5) by (simp add: keys_of_def)
  note q = quiet_round [OF assms(1,2,4) this]
  show ?thesis using quiet_deliver [OF assms(3) q(3)] q(1) by (auto simp: active_keys_pairs)
qed

section \<open>Properties\<close>

text \<open>
  C32. One round turns the alert table into the picture of what was found: when nothing
  interferes and the round ends without an error, the active alerts of the environment are
  exactly those whose deduplication key was found (each found condition has one, every other
  one has been resolved), the table's constraints hold, and the alerts of other environments
  are the same rows as before. The keys of this environment's findings must not be those of
  another one's alerts; they carry the environment for that reason.
\<close>

theorem round_mirrors_findings:
  assumes "Reconcile quiet newIDs evaluate notify env now db = ((db', res), None)" "db_ok db"
    "evaluate env now (map al_DedupKey (ListActive env db)) = Inr ev"
    "\<forall>c \<in> set (alerts db). al_DedupKey c \<in> fi_DedupKey ` set (Findings ev) \<longrightarrow> al_Environment c = env"
  shows "active_keys env db' = fi_DedupKey ` set (Findings ev) \<and> db_ok db'
    \<and> silences db' = silences db \<and> acks db' = acks db
    \<and> {c \<in> set (alerts db). al_Environment c \<noteq> env} \<subseteq> set (alerts db')"
proof -
  from assms(1,3) obtain db1 r0 r1 db2 r2 n m where ph:
    "record_findings quiet 0 newIDs env now (ListActiveSilences env now db) (Findings ev) db r0 = ((db1, r1), None)"
    "resolve_missing quiet n now (map fi_DedupKey (Findings ev)) (ListActive env db) db1 r1 = ((db2, r2), None)"
    "deliver quiet m notify env now db2 r2 = ((db', res), None)"
    by (auto elim!: Reconcile_phases)
  have "keys_of env (fi_DedupKey ` set (Findings ev)) db" using assms(4) by (simp add: keys_of_def)
  note q = quiet_round [OF ph(1,2) assms(2) this]
  note d = quiet_deliver [OF ph(3) q(3)]
  have "active_keys env db' = fi_DedupKey ` set (Findings ev)"
    by (rule quiet_round_keys [OF ph assms(2,4)])
  moreover have "c \<in> set (alerts db')" if c: "c \<in> set (alerts db)" "al_Environment c \<noteq> env" for c
  proof -
    have c2: "c \<in> set (alerts db2)" using q(6) [of c] assms(4) c by blast
    have "al_ID c \<notin> al_ID ` {a \<in> set (alerts db2). al_Environment a = env \<and> pending_notify a}"
      using unique_ids_eq [OF db_ok_ids [OF q(3)] c2] c(2) by auto
    then show ?thesis using d c2 by blast
  qed
  ultimately show ?thesis using d q(3,4) by (auto simp: tables_same_def)
qed

text \<open>
  Acknowledging an alert holds: while its condition is still found, and no silence window
  covers it, a round in which nothing interferes leaves it acknowledged, with the time of the
  acknowledgement, and does not notify it again.
\<close>

theorem acknowledged_stays:
  assumes "Reconcile quiet newIDs evaluate notify env now db = ((db', res), None)" "db_ok db"
    "evaluate env now (map al_DedupKey (ListActive env db)) = Inr ev"
    "\<forall>c \<in> set (alerts db). al_DedupKey c \<in> fi_DedupKey ` set (Findings ev) \<longrightarrow> al_Environment c = env"
    "a \<in> set (alerts db)" "al_Status a = StatusAcknowledged" "al_DedupKey a \<in> fi_DedupKey ` set (Findings ev)"
    "\<forall>f \<in> set (Findings ev). fi_DedupKey f = al_DedupKey a \<longrightarrow>
       \<not> matchesAnySilence (ListActiveSilences env now db) (fi_RuleKey f) now"
  shows "\<exists>b \<in> set (alerts db'). al_ID b = al_ID a \<and> al_Status b = StatusAcknowledged
    \<and> AcknowledgedAt b = AcknowledgedAt a \<and> NotifyStatus b = NotifyStatus a"
proof -
  from assms(1,3) obtain db1 r0 r1 db2 r2 n m where ph:
    "record_findings quiet 0 newIDs env now (ListActiveSilences env now db) (Findings ev) db r0 = ((db1, r1), None)"
    "resolve_missing quiet n now (map fi_DedupKey (Findings ev)) (ListActive env db) db1 r1 = ((db2, r2), None)"
    "deliver quiet m notify env now db2 r2 = ((db', res), None)"
    by (auto elim!: Reconcile_phases)
  have "keys_of env (fi_DedupKey ` set (Findings ev)) db" using assms(4) by (simp add: keys_of_def)
  note q = quiet_round [OF ph(1,2) assms(2) this]
  obtain b where b: "b \<in> set (alerts db1)" "al_ID b = al_ID a" "al_DedupKey b = al_DedupKey a"
    "al_Status b = StatusAcknowledged" "NotifyStatus b = NotifyStatus a" "AcknowledgedAt b = AcknowledgedAt a"
    using record_keeps_ack [OF ph(1) assms(2,5,6,8)] by blast
  have b2: "b \<in> set (alerts db2)" using q(5) [of b] assms(7) b(1,3) by simp
  have "al_ID b \<notin> al_ID ` {a \<in> set (alerts db2). al_Environment a = env \<and> pending_notify a}"
    using unique_ids_eq [OF db_ok_ids [OF q(3)] b2] b(4) by (auto simp: pending_notify_def)
  then have "b \<in> set (alerts db')" using quiet_deliver [OF ph(3) q(3)] b2 by blast
  then show ?thesis using b by blast
qed

text \<open>
  C33. The table's constraints survive any round: whatever other processes do between its
  statements, as long as they keep the constraints themselves, and however the round ends, no two
  alerts have one identifier, no two active alerts have one deduplication key, and every row
  passes the table's checks.
\<close>

theorem round_keeps_constraints:
  assumes "\<And>n db. db_ok db \<Longrightarrow> db_ok (other n db)" "db_ok db"
  shows "db_ok (fst (fst (Reconcile other newIDs evaluate notify env now db)))"
proof -
  have 1: "record_findings other n newIDs env now ws fs db r = ((db1, r1), e1) \<Longrightarrow> db_ok db1" for n ws fs r db1 r1 e1
    using record_ok [of other db n newIDs env now ws fs r] assms by auto
  have 2: "resolve_missing other n now seen as db1 r = ((db2, r2), e2) \<Longrightarrow> db_ok db1 \<Longrightarrow> db_ok db2" for n seen "as" db1 r db2 r2 e2
    using resolve_ok [of other db1 n now seen "as" r] assms(1) by auto
  have 3: "db_ok db2 \<Longrightarrow> db_ok (fst (fst (deliver other n notify env now db2 r)))" for n db2 r
    using deliver_ok [of other db2] assms(1) by (auto simp: deliver_def Let_def split: option.splits)
  show ?thesis
    using assms(2) by (auto simp: Reconcile_def Let_def intro: 1 2 3 split: sum.splits prod.splits option.splits)
qed

text \<open>
  A relapse is one story: when the condition of an alert that was resolved within the
  last 24 hours, the latest of its key, is found again outside every silence window, a new alert
  is opened in state \<open>REOPENED\<close> and waits for notification; it inherits the time the story began
  when that is known, and its trigger count is one more; the resolved row stays as it was.
\<close>

theorem relapse_reopens:
  assumes "Upsert (\<lambda>db. db) newID i db = (db', Inr (b, created))" "db_ok db"
    "\<forall>a \<in> set (alerts db). active a \<longrightarrow> al_DedupKey a \<noteq> up_DedupKey i" "\<not> Silenced i"
    "p \<in> set (alerts db)" "al_DedupKey p = up_DedupKey i" "al_Status p = StatusResolved" "ResolvedAt p = Some t"
    "up_Now i - reopenLookback \<le> t"
    "\<forall>q \<in> set (alerts db). q \<noteq> p \<longrightarrow> al_DedupKey q = up_DedupKey i \<longrightarrow> (\<forall>u. ResolvedAt q = Some u \<longrightarrow> u < t)"
  shows "created \<and> al_ID b = newID \<and> al_Status b = StatusReopened \<and> NotifyStatus b = NotifyPending
    \<and> FirstOpenedAt b = (case FirstOpenedAt p of Some u \<Rightarrow> if u \<noteq> 0 then Some u else None | None \<Rightarrow> None)
    \<and> TriggerCount b = map_option (\<lambda>n. n + 1) (TriggerCount p)
    \<and> OpenedAt b = up_Now i \<and> set (alerts db') = insert b (set (alerts db))"
proof -
  have none: "GetActiveByDedupKey (up_DedupKey i) db = Inl ErrAlertNotFound"
    using assms(3) by (auto simp: GetActiveByDedupKey_def find_None_iff split: option.splits)
  have "\<exists>ys. sort_key (\<lambda>a. - the (ResolvedAt a)) (filter (\<lambda>a. al_DedupKey a = up_DedupKey i \<and> al_Status a = StatusResolved
          \<and> (case ResolvedAt a of None \<Rightarrow> False | Some u \<Rightarrow> up_Now i - reopenLookback \<le> u)) (alerts db)) = p # ys"
    by (rule sort_key_hd) (use assms(5-10) in \<open>auto split: option.splits\<close>)
  then have rr: "recentlyResolved (up_DedupKey i) (up_Now i) db = Some p" by (auto simp: recentlyResolved_def)
  obtain dbi r where ins: "alert_insert newID i db = (dbi, r)" by force
  from assms(1,2) have c: "created" by (cases rule: quiet_Upsert) (use assms(3) in auto)
  have e: "db' = dbi" "r = Inr b"
    using assms(1) none ins c by (auto simp: Upsert_def Let_def split: sum.splits prod.splits alert_error.splits)
  obtain fo tr where op: "open_as i db = (StatusReopened, fo, tr)"
    and fo: "fo = (case FirstOpenedAt p of Some u \<Rightarrow> if u \<noteq> 0 then Some u else None | None \<Rightarrow> None)"
    and tr: "tr = map_option (\<lambda>n. wrap32 (n + 1)) (TriggerCount p)"
    using assms(4) rr by (auto simp: open_as_def EffectiveFirstOpenedAt_def split: option.splits)
  note b = InsertAlert_Inr [OF ins [unfolded alert_insert_def op prod.case e(2)]]
  have "b \<in> set (alerts dbi)" by (simp add: b(1,2))
  then have "alert_check b" using b(4) [OF assms(2)] by (simp add: db_ok_def list_all_iff)
  then have "case tr of None \<Rightarrow> True | Some n \<Rightarrow> 1 \<le> n"
    unfolding alert_check_def by (auto simp: b(1) split: option.splits)
  moreover have "case TriggerCount p of None \<Rightarrow> True | Some n \<Rightarrow> 1 \<le> n \<and> n \<le> 2147483647"
    using assms(2,5) by (simp add: db_ok_def list_all_iff alert_check_def)
  ultimately have "tr = map_option (\<lambda>n. n + 1) (TriggerCount p)"
    unfolding tr by (cases "TriggerCount p") (auto intro: wrap32_Suc)
  then show ?thesis using b(2) c by (simp add: b(1) e(1) fo)
qed

text \<open>
  An alert that is already open is merged into: whatever severity and title the finding
  has now, the row keeps those of its first hit and takes over the detail, and the count of hits
  goes up by one.
\<close>

theorem merge_keeps_severity:
  assumes "Upsert (\<lambda>db. db) newID i db = (db', Inr (b, created))" "db_ok db"
    "a \<in> set (alerts db)" "active a" "al_DedupKey a = up_DedupKey i"
  shows "\<not> created \<and> b \<in> set (alerts db') \<and> al_ID b = al_ID a \<and> al_Severity b = al_Severity a \<and> al_Title b = al_Title a
    \<and> al_Detail b = up_Detail i \<and> FireCount b = FireCount a + 1 \<and> OpenedAt b = OpenedAt a"
  using assms(1,2)
proof (cases rule: quiet_Upsert)
  case new
  then show ?thesis using assms by auto
next
  case (merged e)
  then have "e = a" using unique_active_eq [OF db_ok_active [OF assms(2)]] assms(3-5) by simp
  then show ?thesis using merged by (simp add: touch_row_def)
qed

section \<open>Runs\<close>

definition demo_alert :: "uuid \<Rightarrow> string \<Rightarrow> Status \<Rightarrow> Alert" where
  "demo_alert i k st = \<lparr>al_ID = i, al_RuleKey = ''upstream.runway.low'', al_DedupKey = k, al_Severity = SeverityWarning,
     al_Status = st, al_Title = ''8 days left'', al_Detail = ''d'', al_Environment = ''production'', OpenedAt = 100,
     AcknowledgedAt = (if st = StatusAcknowledged then Some 150 else None),
     ResolvedAt = (if st = StatusResolved then Some 200 else None), LastSeenAt = 150, FireCount = 3,
     TriggerCount = Some 1, FirstOpenedAt = Some 100, al_SourceMetricKey = [], NotifyStatus = NotifyDelivered,
     NotifyError = [], NotifiedAt = Some 110\<rparr>"

definition demo_db :: AlertDB where
  "demo_db = \<lparr>environments = [''production''], alerts = [demo_alert 1 ''k1'' StatusOpen, demo_alert 2 ''k2'' StatusAcknowledged,
     demo_alert 3 ''k3'' StatusResolved], silences = [], acks = []\<rparr>"

definition demo_finding :: "string \<Rightarrow> Finding" where
  "demo_finding k = \<lparr>fi_RuleKey = ''upstream.runway.low'', fi_DedupKey = k, fi_Severity = SeverityCritical,
     fi_Title = ''2 days left'', fi_Detail = ''e'', fi_SourceMetricKey = []\<rparr>"

definition demo_evaluate :: "string \<Rightarrow> time \<Rightarrow> string list \<Rightarrow> alert_error + EvaluateResult" where
  "demo_evaluate env now keys = Inr \<lparr>Findings = [demo_finding ''k2'', demo_finding ''k3''], HysteresisSuppressed = 0,
     HysteresisHeld = 0, VersionAckSuppressed = 0, ChronicHeld = 0\<rparr>"

abbreviation "demo_round \<equiv> Reconcile quiet (\<lambda>n. of_nat n + 10) demo_evaluate None ''production'' 1000 demo_db"

lemma demo_round_ends: "snd demo_round = None"
  by code_simp

lemma demo_round_eq: "demo_round = ((fst (fst demo_round), snd (fst demo_round)), None)"
  using demo_round_ends by (metis prod.collapse)

lemma demo_ok: "db_ok demo_db"
  by code_simp

lemma demo_envs: "\<forall>c \<in> set (alerts demo_db). al_DedupKey c \<in> fi_DedupKey ` set [demo_finding ''k2'', demo_finding ''k3'']
    \<longrightarrow> al_Environment c = ''production''"
  by (simp add: demo_db_def demo_alert_def)

definition demo_input :: "string \<Rightarrow> bool \<Rightarrow> UpsertInput" where
  "demo_input k silent = \<lparr>up_RuleKey = ''upstream.runway.low'', up_DedupKey = k, up_Severity = SeverityCritical, up_Title = ''2 days left'',
     up_Detail = ''e'', up_Environment = ''production'', up_SourceMetricKey = [], Silenced = silent, up_Now = 1000\<rparr>"

lemma demo_upsert_k1: "(case snd (Upsert (\<lambda>db. db) 10 (demo_input ''k1'' False) demo_db) of Inr (b, c) \<Rightarrow> \<not> c | _ \<Rightarrow> False)"
  by code_simp

lemma demo_upsert_k3: "(case snd (Upsert (\<lambda>db. db) 10 (demo_input ''k3'' False) demo_db) of Inr (b, c) \<Rightarrow> c | _ \<Rightarrow> False)"
  by code_simp

theorem round_mirrors_findings_witness:
  "active_keys ''production'' (fst (fst demo_round)) = {''k2'', ''k3''}"
  using round_mirrors_findings [OF demo_round_eq demo_ok demo_evaluate_def] demo_envs
  by (simp add: demo_finding_def)

theorem acknowledged_stays_witness:
  "\<exists>b \<in> set (alerts (fst (fst demo_round))). al_ID b = 2 \<and> al_Status b = StatusAcknowledged"
proof -
  let ?a = "demo_alert 2 ''k2'' StatusAcknowledged"
  have h: "?a \<in> set (alerts demo_db)" "al_Status ?a = StatusAcknowledged"
    "al_DedupKey ?a \<in> fi_DedupKey ` set [demo_finding ''k2'', demo_finding ''k3'']" "al_ID ?a = 2"
    by (simp_all add: demo_db_def demo_alert_def demo_finding_def)
  have s: "\<forall>f \<in> set [demo_finding ''k2'', demo_finding ''k3'']. fi_DedupKey f = al_DedupKey ?a \<longrightarrow>
      \<not> matchesAnySilence (ListActiveSilences ''production'' 1000 demo_db) (fi_RuleKey f) 1000"
    by (simp add: demo_db_def ListActiveSilences_def matchesAnySilence_def)
  show ?thesis
    using acknowledged_stays [OF demo_round_eq demo_ok demo_evaluate_def, unfolded EvaluateResult.select_convs,
      OF demo_envs h(1-3) s] unfolding h(4) by blast
qed

theorem round_keeps_constraints_witness:
  "db_ok (fst (fst (Reconcile (\<lambda>_ db. fst (Acknowledge 1 500 db)) (\<lambda>n. of_nat n + 10) demo_evaluate None ''production'' 1000 demo_db)))"
  by (rule round_keeps_constraints [OF _ demo_ok]) (rule Acknowledge_keeps)

theorem relapse_reopens_witness:
  "\<exists>db' b. Upsert (\<lambda>db. db) 10 (demo_input ''k3'' False) demo_db = (db', Inr (b, True)) \<and> al_Status b = StatusReopened
    \<and> FirstOpenedAt b = Some 100 \<and> TriggerCount b = Some 2"
proof -
  obtain db' b c where u: "Upsert (\<lambda>db. db) 10 (demo_input ''k3'' False) demo_db = (db', Inr (b, c))"
    using demo_upsert_k3 by (cases "Upsert (\<lambda>db. db) 10 (demo_input ''k3'' False) demo_db") (auto split: sum.splits)
  show ?thesis
    using relapse_reopens [OF u demo_ok, of "demo_alert 3 ''k3'' StatusResolved" 200] u
    by (simp add: demo_db_def demo_alert_def demo_input_def active_def IsActive_def activeStatuses_def reopenLookback_def)
qed

theorem merge_keeps_severity_witness:
  "\<exists>db' b. Upsert (\<lambda>db. db) 10 (demo_input ''k1'' False) demo_db = (db', Inr (b, False)) \<and> al_Severity b = SeverityWarning
    \<and> al_Title b = ''8 days left''"
proof -
  obtain db' b c where u: "Upsert (\<lambda>db. db) 10 (demo_input ''k1'' False) demo_db = (db', Inr (b, c))"
    using demo_upsert_k1 by (cases "Upsert (\<lambda>db. db) 10 (demo_input ''k1'' False) demo_db") (auto split: sum.splits)
  show ?thesis
    using merge_keeps_severity [OF u demo_ok, of "demo_alert 1 ''k1'' StatusOpen"] u
    by (simp add: demo_db_def demo_alert_def demo_input_def active_def IsActive_def activeStatuses_def)
qed

text \<open>An acknowledgement made between the lookup of a round and its write is lost: the write puts
  back the state that was read.\<close>

lemma acknowledgement_lost:
  "(case Upsert (\<lambda>db. fst (Acknowledge 1 500 db)) 10 (demo_input ''k1'' False) demo_db of
      (db', Inr (b, created)) \<Rightarrow> \<not> created \<and> al_ID b = 1 \<and> al_Status b = StatusOpen \<and> AcknowledgedAt b = Some 500
    | _ \<Rightarrow> False)"
  by code_simp

text \<open>A relapse that starts inside a silence window does not inherit the story.\<close>

lemma silenced_relapse_forgets:
  "(case Upsert (\<lambda>db. db) 10 (demo_input ''k3'' True) demo_db of
      (db', Inr (b, created)) \<Rightarrow> created \<and> al_Status b = StatusSilenced \<and> FirstOpenedAt b = Some 1000 \<and> TriggerCount b = Some 1
    | _ \<Rightarrow> False)"
  by code_simp

end
