(* ===== verification/Alert_Rules.thy ===== *)
theory Alert_Rules
  imports Alerts Runway "HOL-Library.AList" "HOL-Library.List_Lexorder" "HOL-Library.Char_ord"
begin

text \<open>
  The alert rules (\<open>alerts/rules.go\<close>, \<open>alerts/rules\_cards.go\<close>): their configuration, the
  judgements over recent samples (hysteresis, sliding window, change of version, streaks of a
  card step), and one evaluation of all rules. The sources it reads (observations, samples,
  runways, checked versions, thresholds) are arguments. The wording of titles and details is
  the argument \<open>say\<close>, given the rule, the subject and the numbers it prints; stored numbers are
  \<open>json.Number\<close>s, so the branches for other Go number types do not occur.
\<close>

section \<open>Configuration\<close>

abbreviation "RuleMetricSyncFailed \<equiv> ''metric.sync.failed''"
abbreviation "RuleMetricDataStale \<equiv> ''metric.data.stale''"
abbreviation "RuleChannelTokenInvalid \<equiv> ''channel.token.invalid''"
abbreviation "RuleChannelBalanceLow \<equiv> ''channel.balance.low''"
abbreviation "RuleSyncConsecutiveFailed \<equiv> ''metric.sync.consecutive_failed''"
abbreviation "RuleUpstreamVersionChanged \<equiv> ''upstream.version.changed''"
abbreviation "RuleUpstreamRunwayLow \<equiv> ''upstream.runway.low''"
abbreviation "RuleApprovalPendingTooLong \<equiv> ''approval.pending.too_long''"
abbreviation "RuleCardSyncFailed \<equiv> ''cards.sync.failed''"

record RuleConfig =
  CollectionInterval :: duration
  BalanceThresholdMinorUnits :: int64
  SyncFailedHysteresisRounds :: int
  ChronicWindowSamples :: int
  ChronicFailureThreshold :: int
  ChannelBalanceMetricKey :: string
  cfg_RunwayThresholds :: RunwayThresholds
  ApprovalPendingThreshold :: duration
  ApprovalQueueMetricKey :: string
  CardSyncConsecutiveRounds :: int
  cfg_Owner :: string

definition staleCyclesBeforeAlert :: int where "staleCyclesBeforeAlert = 2"
definition minFailureHistorySamples :: int where "minFailureHistorySamples = 24"
definition failureHistoryLookback :: duration where "failureHistoryLookback = 24 * 3600000000000"
definition versionLookback :: duration where "versionLookback = 7 * 24 * 3600000000000"
definition maxVersionSamples :: int where "maxVersionSamples = 200"
definition cardSyncRecoverySamples :: int where "cardSyncRecoverySamples = 2"
definition cardSyncLookback :: duration where "cardSyncLookback = 24 * 3600000000000"
definition cardSyncMaxSamples :: int where "cardSyncMaxSamples = 20"
definition DefaultCardSyncMetricKey :: string where "DefaultCardSyncMetricKey = ''cards.sync.status''"

definition DefaultRuleConfig :: RuleConfig where
  "DefaultRuleConfig = \<lparr>CollectionInterval = 300 * nanos_per_second, BalanceThresholdMinorUnits = 500000,
     SyncFailedHysteresisRounds = 3, ChronicWindowSamples = 12, ChronicFailureThreshold = 9,
     ChannelBalanceMetricKey = ''sub2api.channels.balance'', cfg_RunwayThresholds = DefaultRunwayThresholds,
     ApprovalPendingThreshold = 4 * 3600 * nanos_per_second, ApprovalQueueMetricKey = ''platform.approval.queue'',
     CardSyncConsecutiveRounds = 3, cfg_Owner = ''platform-ops''\<rparr>"

definition normalized :: "RuleConfig \<Rightarrow> RuleConfig" where
  "normalized c =
    (let d = DefaultRuleConfig;
         window = (if ChronicWindowSamples c < 1 then ChronicWindowSamples d else ChronicWindowSamples c);
         fails = (if ChronicFailureThreshold c < 1 then ChronicFailureThreshold d else ChronicFailureThreshold c)
     in \<lparr>CollectionInterval = (if CollectionInterval c \<le> 0 then CollectionInterval d else CollectionInterval c),
       BalanceThresholdMinorUnits = (if BalanceThresholdMinorUnits c \<le> 0 then BalanceThresholdMinorUnits d else BalanceThresholdMinorUnits c),
       SyncFailedHysteresisRounds = (if SyncFailedHysteresisRounds c < 1 then SyncFailedHysteresisRounds d else SyncFailedHysteresisRounds c),
       ChronicWindowSamples = window,
       ChronicFailureThreshold = (if fails > window then window else fails),
       ChannelBalanceMetricKey = (if blank (ChannelBalanceMetricKey c) then ChannelBalanceMetricKey d else ChannelBalanceMetricKey c),
       cfg_RunwayThresholds = (case RunwayThresholds_Validate (cfg_RunwayThresholds c) of
          Inl _ \<Rightarrow> cfg_RunwayThresholds d | Inr _ \<Rightarrow> cfg_RunwayThresholds c),
       ApprovalPendingThreshold = (if ApprovalPendingThreshold c \<le> 0 then ApprovalPendingThreshold d else ApprovalPendingThreshold c),
       ApprovalQueueMetricKey = (if blank (ApprovalQueueMetricKey c) then ApprovalQueueMetricKey d else ApprovalQueueMetricKey c),
       CardSyncConsecutiveRounds = (if CardSyncConsecutiveRounds c < 1 then CardSyncConsecutiveRounds d else CardSyncConsecutiveRounds c),
       cfg_Owner = (if blank (cfg_Owner c) then cfg_Owner d else cfg_Owner c)\<rparr>)"

definition RuleKeys :: "string list" where
  "RuleKeys = sort [RuleMetricSyncFailed, RuleMetricDataStale, RuleChannelTokenInvalid, RuleChannelBalanceLow,
     RuleUpstreamVersionChanged, RuleUpstreamRunwayLow, RuleApprovalPendingTooLong, RuleSyncConsecutiveFailed,
     RuleCardSyncFailed]"

definition KnownRuleKey :: "string \<Rightarrow> bool" where
  "KnownRuleKey k \<longleftrightarrow> k \<in> set RuleKeys"

definition dedupKey :: "string \<Rightarrow> string \<Rightarrow> string \<Rightarrow> string" where
  "dedupKey ruleKey environment subject = ruleKey @ '':'' @ environment @ '':'' @ subject"

section \<open>Judgements over samples\<close>

text \<open>The hysteresis: the state of the loop is open, failures in a row, successes in a row.\<close>

definition fold_step :: "int \<Rightarrow> Observation \<Rightarrow> bool \<times> int \<times> int \<Rightarrow> bool \<times> int \<times> int" where
  "fold_step n ob st = (case st of (is_open, failRun, okRun) \<Rightarrow>
     if ob_Status ob = SyncFailed then (is_open \<or> n \<le> failRun + 1, failRun + 1, 0)
     else (is_open \<and> \<not> n \<le> okRun + 1, 0, okRun + 1))"

definition foldSyncFailure :: "Observation list \<Rightarrow> int \<Rightarrow> bool" where
  "foldSyncFailure samples n = fst (fold (fold_step (if n < 1 then 1 else n)) samples (False, 0, 0))"

definition trailingSameStatusRun :: "Observation list \<Rightarrow> int" where
  "trailingSameStatusRun samples =
    (if samples = [] then 0
     else let failed = (ob_Status (last samples) = SyncFailed)
       in int (length (takeWhile (\<lambda>s. (ob_Status s = SyncFailed) = failed) (rev samples))))"

definition windowedFailures :: "Observation list \<Rightarrow> int \<Rightarrow> int" where
  "windowedFailures samples window =
    (if window < 1 \<or> samples = [] then 0
     else let start = int (length samples) - window; start = (if start < 0 then 0 else start)
       in int (length (filter (\<lambda>s. ob_Status s = SyncFailed) (drop (nat start) samples))))"

text \<open>The conversions to \<open>int32\<close> wrap.\<close>

definition failureHistoryLimit :: "RuleConfig \<Rightarrow> int" where
  "failureHistoryLimit cfg =
    (let lim = minFailureHistorySamples;
         want = wrap32 (3 * SyncFailedHysteresisRounds cfg);
         lim = (if want > lim then want else lim);
         want = wrap32 (ChronicWindowSamples cfg)
     in if want > lim then want else lim)"

definition observedVersion :: "json_object \<Rightarrow> string" where
  "observedVersion v = (case as_string (jget v ''version'') of None \<Rightarrow> [] | Some s \<Rightarrow> trim_space s)"

definition observedSupported :: "json_object \<Rightarrow> bool \<times> bool" where
  "observedSupported v = (case as_bool (jget v ''supported'') of None \<Rightarrow> (False, False) | Some b \<Rightarrow> (b, True))"

text \<open>The latest sample that succeeded and reports another version; samples are oldest first.\<close>

definition previousVersion :: "string \<Rightarrow> Observation list \<Rightarrow> string" where
  "previousVersion current samples =
    (case find (\<lambda>s. ob_Status s \<noteq> SyncFailed \<and> observedVersion (ob_Value s) \<noteq> [] \<and> observedVersion (ob_Value s) \<noteq> current) (rev samples) of
       None \<Rightarrow> [] | Some s \<Rightarrow> observedVersion (ob_Value s))"

section \<open>Channels and queues\<close>

record channel =
  ch_ID :: string
  ch_Name :: string
  ch_Currency :: string
  BalanceMinorUnits :: int64
  HasBalance :: bool
  TokenValid :: "bool option"

definition sharp :: "nat \<Rightarrow> string" where
  "sharp i = ''#'' @ dec_string i"

definition channel_identity :: "channel \<Rightarrow> nat \<Rightarrow> string" where
  "channel_identity c i = (if ch_ID c \<noteq> [] then ch_ID c else sharp i)"

definition display :: "channel \<Rightarrow> nat \<Rightarrow> string" where
  "display c i = (if ch_Name c \<noteq> [] then ch_Name c else if ch_ID c \<noteq> [] then ch_ID c else sharp i)"

definition stringField :: "json_object \<Rightarrow> string \<Rightarrow> string" where
  "stringField m k = trim_space (str_or (jget m k))"

fun asInt64 :: "json \<Rightarrow> int64 option" where
  "asInt64 (JNumber s) = parse_int64 s"
| "asInt64 _ = None"

definition parse_channel :: "json_object \<Rightarrow> channel" where
  "parse_channel m =
    \<lparr>ch_ID = stringField m ''channel_id'', ch_Name = stringField m ''channel_name'', ch_Currency = stringField m ''currency'',
     BalanceMinorUnits = (case asInt64 (jget m ''balance_minor_units'') of None \<Rightarrow> 0 | Some v \<Rightarrow> v),
     HasBalance = (asInt64 (jget m ''balance_minor_units'') \<noteq> None),
     TokenValid = as_bool (jget m ''token_valid'')\<rparr>"

definition parseChannels :: "json_object \<Rightarrow> channel list" where
  "parseChannels v = (case as_array (jget v ''channels'') of None \<Rightarrow> []
     | Some items \<Rightarrow> map parse_channel (List.map_filter as_object items))"

fun number_of_json :: "json \<Rightarrow> int64 option" where
  "number_of_json (JNumber s) = parse_int64 s"
| "number_of_json (JString s) = parse_int64 s"
| "number_of_json _ = None"

definition numericField :: "json_object \<Rightarrow> string \<Rightarrow> int64 option" where
  "numericField v k = number_of_json (jget v k)"

section \<open>Card synchronisation (rules\_cards.go)\<close>

type_synonym cardSyncStepKey = "string \<times> string"

record cardSyncStep =
  st_ok :: bool
  st_skipped :: bool
  st_kind :: string
  st_detail :: string

text \<open>A round is the map from (account, step) to what the step did.\<close>

type_synonym card_round = "(cardSyncStepKey \<times> cardSyncStep) list"

definition cardSyncAccountEntries :: "json_object \<Rightarrow> json_object list" where
  "cardSyncAccountEntries v = (case as_array (jget v ''accounts'') of None \<Rightarrow> []
     | Some items \<Rightarrow> List.map_filter as_object items)"

definition entry_steps :: "json_object \<Rightarrow> json_object list" where
  "entry_steps raw = (case as_array (jget raw ''steps'') of None \<Rightarrow> [] | Some items \<Rightarrow> List.map_filter as_object items)"

definition add_step :: "string \<Rightarrow> json_object \<Rightarrow> card_round \<Rightarrow> card_round" where
  "add_step account m out = (let name = str_or (jget m ''step'') in
     if name = [] then out
     else AList.update (account, name) \<lparr>st_ok = bool_or (jget m ''ok''), st_skipped = bool_or (jget m ''skipped''),
       st_kind = str_or (jget m ''kind''), st_detail = str_or (jget m ''detail'')\<rparr> out)"

definition cardSyncSteps :: "json_object \<Rightarrow> card_round" where
  "cardSyncSteps v = fold (\<lambda>raw out. let account = str_or (jget raw ''account'') in
     if account = [] then out else fold (add_step account) (entry_steps raw) out) (cardSyncAccountEntries v) []"

definition cardSyncPausedAccounts :: "json_object \<Rightarrow> string list" where
  "cardSyncPausedAccounts v = map (\<lambda>raw. str_or (jget raw ''account''))
     (filter (\<lambda>raw. str_or (jget raw ''account'') \<noteq> [] \<and> list_ex (\<lambda>m. bool_or (jget m ''skipped'')) (entry_steps raw))
       (cardSyncAccountEntries v))"

definition cardSyncKeysInWindow :: "card_round list \<Rightarrow> cardSyncStepKey list" where
  "cardSyncKeysInWindow rounds =
    sort_key fst (sort_key snd (remdups (concat (map (map fst) rounds))))"

record cardSyncStreak =
  sk_failures :: int
  sk_okTail :: int
  sk_last :: "cardSyncStep option"
  sk_seen :: bool

definition no_streak :: "int \<Rightarrow> cardSyncStreak" where
  "no_streak tail = \<lparr>sk_failures = 0, sk_okTail = tail, sk_last = None, sk_seen = False\<rparr>"

definition streak_open :: "cardSyncStreak \<Rightarrow> int \<Rightarrow> bool" where
  "streak_open s threshold \<longleftrightarrow> sk_seen s \<and> sk_failures s \<ge> threshold \<and> sk_okTail s < cardSyncRecoverySamples"

text \<open>The two backward walks of \<open>cardSyncStreakOf\<close>, over the rounds newest first.\<close>

fun count_failures :: "cardSyncStepKey \<Rightarrow> card_round list \<Rightarrow> int" where
  "count_failures key [] = 0"
| "count_failures key (r # rs) = (case map_of r key of None \<Rightarrow> 0
     | Some step \<Rightarrow> if st_skipped step \<or> st_ok step then 0 else 1 + count_failures key rs)"

fun walk_ok :: "cardSyncStepKey \<Rightarrow> int \<Rightarrow> card_round list \<Rightarrow> cardSyncStreak" where
  "walk_ok key okRun [] = no_streak okRun"
| "walk_ok key okRun (r # rs) = (case map_of r key of None \<Rightarrow> no_streak 0
     | Some step \<Rightarrow>
       if st_skipped step then no_streak 0
       else if \<not> st_ok step then
         \<lparr>sk_failures = count_failures key (r # rs), sk_okTail = okRun, sk_last = Some step, sk_seen = True\<rparr>
       else if okRun + 1 \<ge> cardSyncRecoverySamples then no_streak 0
       else walk_ok key (okRun + 1) rs)"

definition cardSyncStreakOf :: "card_round list \<Rightarrow> cardSyncStepKey \<Rightarrow> cardSyncStreak" where
  "cardSyncStreakOf rounds key = walk_ok key 0 (rev rounds)"

section \<open>Findings\<close>

text \<open>Title and detail of a rule about a subject, with the numbers they print.\<close>

type_synonym wording = "string \<Rightarrow> string \<Rightarrow> int list \<Rightarrow> string \<times> string"

definition finding :: "wording \<Rightarrow> string \<Rightarrow> string \<Rightarrow> string \<Rightarrow> Severity \<Rightarrow> int list \<Rightarrow> string \<Rightarrow> Finding" where
  "finding say ruleKey environment subject sev ns metricKey =
    \<lparr>fi_RuleKey = ruleKey, fi_DedupKey = dedupKey ruleKey environment subject, fi_Severity = sev,
      fi_Title = fst (say ruleKey subject ns), fi_Detail = snd (say ruleKey subject ns), fi_SourceMetricKey = metricKey\<rparr>"

text \<open>What the evaluator reads.\<close>

record UpstreamRunway =
  ur_AccountID :: uuid
  ur_Name :: string
  ur_SystemType :: string
  ur_AccessMethod :: AccessMethod
  ur_Runway :: Runway

record sources =
  list_observations :: "string \<Rightarrow> alert_error + Observation list"
  list_samples :: "string \<Rightarrow> string \<Rightarrow> time \<Rightarrow> int \<Rightarrow> alert_error + Observation list"
  upstream_runways :: "string \<Rightarrow> RunwayThresholds \<Rightarrow> alert_error + UpstreamRunway list"
  list_acks :: "string \<Rightarrow> alert_error + (string \<times> UpstreamVersionAck) list"
  current_thresholds :: "(string \<Rightarrow> alert_error + RunwayThresholds) option"
  account_text :: "uuid \<Rightarrow> string"
  wording_of :: wording

definition unreadable :: "Freshness \<Rightarrow> bool" where
  "unreadable f \<longleftrightarrow> fr_State f = StateFailed \<or> fr_State f = StateUninitialized"

definition channelFindings :: "wording \<Rightarrow> RuleConfig \<Rightarrow> Observation \<Rightarrow> Freshness \<Rightarrow> string \<Rightarrow> Finding list" where
  "channelFindings say cfg ob f environment =
    (if unreadable f then []
     else concat (map (\<lambda>(i, ch). let ident = channel_identity ch i in
         (if TokenValid ch = Some False
          then [finding say RuleChannelTokenInvalid environment ident SeverityWarning [] (MetricKey ob)] else [])
       @ (if HasBalance ch \<and> BalanceMinorUnits ch < BalanceThresholdMinorUnits cfg
          then [finding say RuleChannelBalanceLow environment ident SeverityWarning [BalanceMinorUnits ch] (MetricKey ob)] else []))
       (enumerate 0 (parseChannels (ob_Value ob)))))"

definition approvalFinding :: "wording \<Rightarrow> RuleConfig \<Rightarrow> Observation \<Rightarrow> Freshness \<Rightarrow> string \<Rightarrow> Finding option" where
  "approvalFinding say cfg ob f environment =
    (let pending = (case numericField (ob_Value ob) ''pending_count'' of None \<Rightarrow> 0 | Some n \<Rightarrow> n);
         ageSeconds = (case numericField (ob_Value ob) ''oldest_pending_age_seconds'' of None \<Rightarrow> 0 | Some n \<Rightarrow> n);
         age = wrap64 (ageSeconds * nanos_per_second)
     in if unreadable f then None
        else if pending \<le> 0 then None
        else if age < ApprovalPendingThreshold cfg then None
        else Some (finding say RuleApprovalPendingTooLong environment ''queue'' SeverityWarning [pending, age] (MetricKey ob)))"

definition versionChangeFinding :: "sources \<Rightarrow> Observation \<Rightarrow> Freshness \<Rightarrow> string \<Rightarrow> time \<Rightarrow> (string \<times> UpstreamVersionAck) list
  \<Rightarrow> alert_error + (Finding option \<times> bool)" where
  "versionChangeFinding src ob f environment now known =
    (let current = observedVersion (ob_Value ob) in
     if unreadable f then Inr (None, False)
     else if current = [] then Inr (None, False)
     else if (case map_of known (MetricKey ob) of None \<Rightarrow> False | Some a \<Rightarrow> ack_Version a = current) then Inr (None, True)
     else rbind (list_samples src environment (MetricKey ob) (now - versionLookback) maxVersionSamples) (\<lambda>samples.
       if previousVersion current samples = [] then Inr (None, False)
       else Inr (Some (finding (wording_of src) RuleUpstreamVersionChanged environment (MetricKey ob @ '':'' @ current)
              SeverityWarning [] (MetricKey ob)), False)))"

definition card_rounds :: "Observation list \<Rightarrow> Observation \<Rightarrow> card_round list" where
  "card_rounds samples ob = map (\<lambda>s. cardSyncSteps (ob_Value s)) samples
     @ (if samples = [] \<or> SyncedAt (last samples) < SyncedAt ob then [cardSyncSteps (ob_Value ob)] else [])"

definition cardSyncFindings :: "sources \<Rightarrow> RuleConfig \<Rightarrow> Observation \<Rightarrow> string \<Rightarrow> time \<Rightarrow> alert_error + Finding list" where
  "cardSyncFindings src cfg ob environment now =
    rbind (list_samples src environment (MetricKey ob) (now - cardSyncLookback) cardSyncMaxSamples) (\<lambda>samples.
      let rounds = card_rounds samples ob in
      Inr (map (\<lambda>key. finding (wording_of src) RuleCardSyncFailed environment (fst key @ ''/'' @ snd key) SeverityCritical
             [sk_failures (cardSyncStreakOf rounds key), sk_okTail (cardSyncStreakOf rounds key)] (MetricKey ob))
        (filter (\<lambda>key. fst key \<notin> set (cardSyncPausedAccounts (ob_Value ob))
             \<and> streak_open (cardSyncStreakOf rounds key) (CardSyncConsecutiveRounds cfg))
          (cardSyncKeysInWindow rounds))))"

fun runway_findings :: "sources \<Rightarrow> RunwayThresholds \<Rightarrow> string \<Rightarrow> UpstreamRunway list \<Rightarrow> alert_error + Finding list" where
  "runway_findings src t environment [] = Inr []"
| "runway_findings src t environment (item # items) =
    (if \<not> IsMetered (ur_AccessMethod item) then runway_findings src t environment items
     else case Days (ur_Runway item) of None \<Rightarrow> runway_findings src t environment items
     | Some days \<Rightarrow> (case Classify t days of Inl _ \<Rightarrow> Inl ErrAlertText
       | Inr level \<Rightarrow>
         if level \<noteq> RunwayCritical \<and> level \<noteq> RunwayWarning then runway_findings src t environment items
         else rbind (runway_findings src t environment items) (\<lambda>rest.
           Inr (finding (wording_of src) RuleUpstreamRunwayLow environment (account_text src (ur_AccountID item))
             (if level = RunwayCritical then SeverityCritical else SeverityWarning) [days] [] # rest))))"

definition runwayFindings :: "sources \<Rightarrow> string \<Rightarrow> RunwayThresholds \<Rightarrow> alert_error + Finding list" where
  "runwayFindings src environment t = rbind (upstream_runways src environment t) (runway_findings src t environment)"

section \<open>One evaluation\<close>

definition no_result :: EvaluateResult where
  "no_result = \<lparr>Findings = [], HysteresisSuppressed = 0, HysteresisHeld = 0, VersionAckSuppressed = 0, ChronicHeld = 0\<rparr>"

text \<open>R1 and R4 share one query of the history, made only when the metric fails now or one of
  its two alerts is active.\<close>

definition syncFailedFinding :: "wording \<Rightarrow> RuleConfig \<Rightarrow> Observation list \<Rightarrow> Observation \<Rightarrow> string \<Rightarrow> Finding" where
  "syncFailedFinding say cfg samples ob environment = finding say RuleMetricSyncFailed environment (MetricKey ob) SeverityCritical
     [SyncFailedHysteresisRounds cfg, trailingSameStatusRun samples] (MetricKey ob)"

definition chronicFinding :: "wording \<Rightarrow> RuleConfig \<Rightarrow> int \<Rightarrow> Observation \<Rightarrow> string \<Rightarrow> Finding" where
  "chronicFinding say cfg failures ob environment = finding say RuleSyncConsecutiveFailed environment (MetricKey ob) SeverityCritical
     [ChronicWindowSamples cfg, failures, ChronicFailureThreshold cfg] (MetricKey ob)"

definition history_findings :: "wording \<Rightarrow> RuleConfig \<Rightarrow> Observation list \<Rightarrow> bool \<Rightarrow> bool \<Rightarrow> Observation \<Rightarrow> string
  \<Rightarrow> EvaluateResult \<Rightarrow> EvaluateResult" where
  "history_findings say cfg samples failing chronicActive ob environment res =
    (let res = (if foldSyncFailure samples (SyncFailedHysteresisRounds cfg)
           then res\<lparr>HysteresisHeld := HysteresisHeld res + (if failing then 0 else 1),
                    Findings := Findings res @ [syncFailedFinding say cfg samples ob environment]\<rparr>
           else if failing then res\<lparr>HysteresisSuppressed := HysteresisSuppressed res + 1\<rparr>
           else res);
         failures = windowedFailures samples (ChronicWindowSamples cfg)
     in if (failing \<or> chronicActive) \<and> failures \<ge> ChronicFailureThreshold cfg
        then res\<lparr>ChronicHeld := ChronicHeld res + (if failing then 0 else 1),
                 Findings := Findings res @ [chronicFinding say cfg failures ob environment]\<rparr>
        else res)"

definition sync_findings :: "sources \<Rightarrow> RuleConfig \<Rightarrow> string \<Rightarrow> time \<Rightarrow> string list \<Rightarrow> Observation \<Rightarrow> EvaluateResult
  \<Rightarrow> alert_error + EvaluateResult" where
  "sync_findings src cfg environment now actives ob res =
    (let failing = (fr_State (freshness_of ob now) = StateFailed);
         syncFailedActive = (dedupKey RuleMetricSyncFailed environment (MetricKey ob) \<in> set actives);
         chronicActive = (dedupKey RuleSyncConsecutiveFailed environment (MetricKey ob) \<in> set actives)
     in if failing \<or> syncFailedActive \<or> chronicActive
        then rbind (list_samples src environment (MetricKey ob) (now - failureHistoryLookback) (failureHistoryLimit cfg))
          (\<lambda>samples. Inr (history_findings (wording_of src) cfg samples failing chronicActive ob environment res))
        else Inr res)"

text \<open>R1b; a metric that is stale but not for long enough ends the metric's turn.\<close>

definition staleFor :: "RuleConfig \<Rightarrow> duration" where
  "staleFor cfg = wrap64 (staleCyclesBeforeAlert * CollectionInterval cfg)"

definition stale_long :: "RuleConfig \<Rightarrow> Freshness \<Rightarrow> bool" where
  "stale_long cfg f = (case StalenessSeconds f of None \<Rightarrow> False
     | Some secs \<Rightarrow> ThresholdSeconds f + whole_seconds (staleFor cfg) \<le> secs)"

definition observation_findings :: "sources \<Rightarrow> RuleConfig \<Rightarrow> string \<Rightarrow> time \<Rightarrow> string list \<Rightarrow> (string \<times> UpstreamVersionAck) list
  \<Rightarrow> Observation \<Rightarrow> EvaluateResult \<Rightarrow> alert_error + EvaluateResult" where
  "observation_findings src cfg environment now actives known ob res =
    (let f = freshness_of ob now; say = wording_of src in
     rbind (sync_findings src cfg environment now actives ob res) (\<lambda>res.
     if fr_State f = StateStale \<and> \<not> stale_long cfg f then Inr res
     else
       let stale = (if fr_State f = StateStale
             then [finding say RuleMetricDataStale environment (MetricKey ob) SeverityWarning
                    [case StalenessSeconds f of None \<Rightarrow> 0 | Some secs \<Rightarrow> secs, ThresholdSeconds f] (MetricKey ob)] else []);
           channels = (if MetricKey ob = ChannelBalanceMetricKey cfg then channelFindings say cfg ob f environment else []);
           approval = (if MetricKey ob = ApprovalQueueMetricKey cfg
             then (case approvalFinding say cfg ob f environment of None \<Rightarrow> [] | Some x \<Rightarrow> [x]) else [])
       in rbind (if MetricKey ob = DefaultCardSyncMetricKey then cardSyncFindings src cfg ob environment now else Inr []) (\<lambda>cards.
          rbind (versionChangeFinding src ob f environment now known) (\<lambda>(version, acked).
          Inr (res\<lparr>VersionAckSuppressed := VersionAckSuppressed res + (if acked then 1 else 0),
                   Findings := Findings res @ stale @ channels @ approval @ cards
                     @ (case version of None \<Rightarrow> [] | Some x \<Rightarrow> [x])\<rparr>)))))"

fun all_observations :: "sources \<Rightarrow> RuleConfig \<Rightarrow> string \<Rightarrow> time \<Rightarrow> string list \<Rightarrow> (string \<times> UpstreamVersionAck) list
  \<Rightarrow> Observation list \<Rightarrow> EvaluateResult \<Rightarrow> alert_error + EvaluateResult" where
  "all_observations src cfg environment now actives known [] res = Inr res"
| "all_observations src cfg environment now actives known (ob # obs) res =
    rbind (observation_findings src cfg environment now actives known ob res)
      (all_observations src cfg environment now actives known obs)"

definition Evaluate_rules :: "sources \<Rightarrow> RuleConfig \<Rightarrow> string \<Rightarrow> time \<Rightarrow> string list \<Rightarrow> alert_error + EvaluateResult" where
  "Evaluate_rules src cfg0 environment now actives =
    (let cfg = normalized cfg0 in
     if environment = [] then Inl ErrMissingField
     else rbind (case current_thresholds src of None \<Rightarrow> Inr (cfg_RunwayThresholds cfg) | Some current \<Rightarrow> current environment) (\<lambda>thresholds.
       rbind (list_acks src environment) (\<lambda>known.
       rbind (list_observations src environment) (\<lambda>observations.
       rbind (all_observations src cfg environment now actives known observations no_result) (\<lambda>res.
       rbind (runwayFindings src environment thresholds) (\<lambda>runway.
         Inr (res\<lparr>Findings := sort_key fi_DedupKey (Findings res @ runway)\<rparr>)))))))"

section \<open>The hysteresis against its reference\<close>

text \<open>A run of at least \<open>n\<close> samples in a row with the given outcome, somewhere in the list.\<close>

definition failed_sample :: "Observation \<Rightarrow> bool" where
  "failed_sample s \<longleftrightarrow> ob_Status s = SyncFailed"

definition tail_run :: "(Observation \<Rightarrow> bool) \<Rightarrow> Observation list \<Rightarrow> nat" where
  "tail_run P xs = length (takeWhile P (rev xs))"

text \<open>Reference: the last run of \<open>n\<close> equal outcomes was one of failures.\<close>

definition has_run :: "(Observation \<Rightarrow> bool) \<Rightarrow> nat \<Rightarrow> Observation list \<Rightarrow> bool" where
  "has_run P n xs \<longleftrightarrow> (\<exists>as run bs. xs = as @ run @ bs \<and> length run = n \<and> list_all P run)"

definition open_reference :: "nat \<Rightarrow> Observation list \<Rightarrow> bool" where
  "open_reference n xs \<longleftrightarrow> (\<exists>as run bs. xs = as @ run @ bs \<and> length run = n \<and> list_all failed_sample run
     \<and> \<not> has_run (\<lambda>s. \<not> failed_sample s) n bs)"

lemma tail_run_snoc: "tail_run P (xs @ [x]) = (if P x then Suc (tail_run P xs) else 0)"
  by (simp add: tail_run_def)

lemma list_all_takeWhile: "list_all P (takeWhile P xs)"
  by (induction xs) auto

lemma tail_run_ge: "n \<le> tail_run P xs \<longleftrightarrow> (\<exists>as run. xs = as @ run \<and> length run = n \<and> list_all P run)"
proof
  assume n: "n \<le> tail_run P xs"
  let ?t = "takeWhile P (rev xs)"
  have "rev xs = take n ?t @ drop n (rev xs)"
    using n by (metis append_take_drop_id takeWhile_eq_take take_take min.absorb1 tail_run_def)
  then have "xs = rev (drop n (rev xs)) @ rev (take n ?t)" by (metis rev_append rev_rev_ident)
  moreover have "length (rev (take n ?t)) = n" using n by (simp add: tail_run_def)
  moreover have "list_all P (rev (take n ?t))"
    using list_all_takeWhile [of P "rev xs"] by (auto simp: list_all_iff dest: in_set_takeD)
  ultimately show "\<exists>as run. xs = as @ run \<and> length run = n \<and> list_all P run" by blast
next
  assume "\<exists>as run. xs = as @ run \<and> length run = n \<and> list_all P run"
  then obtain as run where x: "xs = as @ run" "length run = n" "list_all P run" by blast
  have "takeWhile P (rev run @ rev as) = rev run @ takeWhile P (rev as)"
    by (rule takeWhile_append2) (use x(3) in \<open>simp add: list_all_iff\<close>)
  then have "takeWhile P (rev xs) = rev run @ takeWhile P (rev as)" using x(1) by simp
  then show "n \<le> tail_run P xs" using x by (simp add: tail_run_def)
qed

lemma fold_step_eq:
  "fold_step n ob (b, f, k) = (if failed_sample ob then (b \<or> n \<le> f + 1, f + 1, 0) else (b \<and> \<not> n \<le> k + 1, 0, k + 1))"
  by (simp add: fold_step_def failed_sample_def)

lemma fold_invariant:
  "\<exists>b. fold (fold_step n) xs (False, 0, 0) = (b, int (tail_run failed_sample xs), int (tail_run (\<lambda>s. \<not> failed_sample s) xs))"
proof (induction xs rule: rev_induct)
  case Nil
  show ?case by (rule exI [of _ False]) (simp add: tail_run_def)
next
  case (snoc x xs)
  then obtain b where "fold (fold_step n) xs (False, 0, 0) = (b, int (tail_run failed_sample xs), int (tail_run (\<lambda>s. \<not> failed_sample s) xs))"
    by blast
  then show ?case by (simp add: fold_step_eq tail_run_snoc)
qed

lemma has_run_snoc: "has_run P n (xs @ [x]) \<longleftrightarrow> has_run P n xs \<or> n \<le> tail_run P (xs @ [x])"
proof
  assume "has_run P n (xs @ [x])"
  then obtain as run bs where h: "xs @ [x] = as @ run @ bs" "length run = n" "list_all P run" by (auto simp: has_run_def)
  show "has_run P n xs \<or> n \<le> tail_run P (xs @ [x])"
  proof (cases bs rule: rev_exhaust)
    case Nil
    then show ?thesis using h tail_run_ge [of n P "xs @ [x]"] by auto
  next
    case (snoc cs c)
    then have "xs = as @ run @ cs" using h(1) by (metis append_assoc butlast_snoc)
    then show ?thesis using h by (auto simp: has_run_def)
  qed
next
  assume "has_run P n xs \<or> n \<le> tail_run P (xs @ [x])"
  then show "has_run P n (xs @ [x])"
  proof
    assume "has_run P n xs"
    then obtain as run bs where "xs = as @ run @ bs" "length run = n" "list_all P run" by (auto simp: has_run_def)
    then show ?thesis unfolding has_run_def by (intro exI [of _ as] exI [of _ run] exI [of _ "bs @ [x]"]) simp
  next
    assume "n \<le> tail_run P (xs @ [x])"
    then obtain as run where "xs @ [x] = as @ run" "length run = n" "list_all P run" using tail_run_ge by blast
    then show ?thesis unfolding has_run_def by (intro exI [of _ as] exI [of _ run] exI [of _ "[]"]) simp
  qed
qed

lemma tail_run_cut: "\<not> P y \<Longrightarrow> tail_run P (ys @ y # zs) = tail_run P zs"
  by (simp add: tail_run_def takeWhile_tail)

lemma has_run_Nil: "0 < n \<Longrightarrow> \<not> has_run P n []"
  by (auto simp: has_run_def)

lemma open_reference_snoc:
  assumes "0 < n"
  shows "open_reference n (xs @ [x]) \<longleftrightarrow>
    n \<le> tail_run failed_sample (xs @ [x]) \<or> open_reference n xs \<and> \<not> n \<le> tail_run (\<lambda>s. \<not> failed_sample s) (xs @ [x])"
proof -
  let ?ok = "\<lambda>s. \<not> failed_sample s"
  have cut: "tail_run ?ok ((as @ run @ cs) @ [x]) = tail_run ?ok (cs @ [x])" if r: "length run = n" "list_all failed_sample run"
    for as run cs
  proof -
    obtain run' y where "run = run' @ [y]" using r(1) assms by (cases run rule: rev_exhaust) auto
    then show ?thesis using r(2) tail_run_cut [of ?ok y "as @ run'" "cs @ [x]"] by simp
  qed
  show ?thesis
  proof
    assume "open_reference n (xs @ [x])"
    then obtain as run bs where h: "xs @ [x] = as @ run @ bs" "length run = n" "list_all failed_sample run" "\<not> has_run ?ok n bs"
      by (auto simp: open_reference_def)
    show "n \<le> tail_run failed_sample (xs @ [x]) \<or> open_reference n xs \<and> \<not> n \<le> tail_run ?ok (xs @ [x])"
    proof (cases bs rule: rev_exhaust)
      case Nil
      then show ?thesis using h tail_run_ge [of n failed_sample "xs @ [x]"] by auto
    next
      case (snoc cs c)
      then have e: "xs = as @ run @ cs" "c = x" using h(1) by (simp_all flip: append_assoc)
      have "\<not> has_run ?ok n cs \<and> \<not> n \<le> tail_run ?ok (cs @ [x])" using h(4) snoc e(2) has_run_snoc [of ?ok n cs x] by simp
      then show ?thesis using e(1) h(2,3) cut [OF h(2,3)] by (auto simp: open_reference_def)
    qed
  next
    assume "n \<le> tail_run failed_sample (xs @ [x]) \<or> open_reference n xs \<and> \<not> n \<le> tail_run ?ok (xs @ [x])"
    then show "open_reference n (xs @ [x])"
    proof
      assume "n \<le> tail_run failed_sample (xs @ [x])"
      then obtain as run where "xs @ [x] = as @ run @ []" "length run = n" "list_all failed_sample run"
        using tail_run_ge by force
      then show ?thesis unfolding open_reference_def using has_run_Nil [OF assms] by blast
    next
      assume a: "open_reference n xs \<and> \<not> n \<le> tail_run ?ok (xs @ [x])"
      then obtain as run cs where h: "xs = as @ run @ cs" "length run = n" "list_all failed_sample run" "\<not> has_run ?ok n cs"
        by (auto simp: open_reference_def)
      have "\<not> has_run ?ok n (cs @ [x])" using has_run_snoc [of ?ok n cs x] h(4) a cut [OF h(2,3), of as cs] h(1) by simp
      moreover have "xs @ [x] = as @ run @ cs @ [x]" using h(1) by simp
      ultimately show ?thesis unfolding open_reference_def using h(2,3) by blast
    qed
  qed
qed

lemma fold_open:
  assumes "0 < n"
  shows "fst (fold (fold_step (int n)) xs (False, 0, 0)) \<longleftrightarrow> open_reference n xs"
proof (induction xs rule: rev_induct)
  case Nil
  then show ?case using assms by (auto simp: open_reference_def)
next
  case (snoc x xs)
  obtain b where f: "fold (fold_step (int n)) xs (False, 0, 0) = (b, int (tail_run failed_sample xs), int (tail_run (\<lambda>s. \<not> failed_sample s) xs))"
    using fold_invariant by blast
  then have b: "b \<longleftrightarrow> open_reference n xs" using snoc by simp
  show ?case
    using assms by (auto simp: f fold_step_eq open_reference_snoc [OF assms] b tail_run_snoc)
qed

section \<open>What an evaluation reports\<close>

lemma finding_fields [simp]:
  "fi_RuleKey (finding say rk env sub sev ns mk) = rk" "fi_DedupKey (finding say rk env sub sev ns mk) = dedupKey rk env sub"
  "fi_Severity (finding say rk env sub sev ns mk) = sev"
  by (simp_all add: finding_def)

lemma RuleKeys_members: "set RuleKeys = {RuleMetricSyncFailed, RuleMetricDataStale, RuleChannelTokenInvalid, RuleChannelBalanceLow,
     RuleUpstreamVersionChanged, RuleUpstreamRunwayLow, RuleApprovalPendingTooLong, RuleSyncConsecutiveFailed, RuleCardSyncFailed}"
  unfolding RuleKeys_def by (simp only: set_sort list.set)

definition reportable :: "string \<Rightarrow> Finding \<Rightarrow> bool" where
  "reportable env x \<longleftrightarrow> fi_RuleKey x \<in> set RuleKeys \<and> (\<exists>sub. fi_DedupKey x = dedupKey (fi_RuleKey x) env sub)
     \<and> (fi_Severity x = SeverityWarning \<or> fi_Severity x = SeverityCritical)"

lemma reportable_finding:
  "rk \<in> set RuleKeys \<Longrightarrow> sev = SeverityWarning \<or> sev = SeverityCritical \<Longrightarrow> reportable env (finding say rk env sub sev ns mk)"
  by (auto simp: reportable_def)

text \<open>Findings of the rules other than R1.\<close>

definition side_findings :: "string \<Rightarrow> Finding list \<Rightarrow> bool" where
  "side_findings env xs \<longleftrightarrow> (\<forall>x \<in> set xs. reportable env x \<and> fi_RuleKey x \<noteq> RuleMetricSyncFailed)"

lemma side_findings_simps [simp]:
  "side_findings env []" "side_findings env (xs @ ys) \<longleftrightarrow> side_findings env xs \<and> side_findings env ys"
  "side_findings env (x # xs) \<longleftrightarrow> reportable env x \<and> fi_RuleKey x \<noteq> RuleMetricSyncFailed \<and> side_findings env xs"
  by (auto simp: side_findings_def)

lemma channel_side: "side_findings env (channelFindings say cfg ob f env)"
proof -
  have "side_findings env [finding say RuleChannelTokenInvalid env i SeverityWarning ns mk]"
    "side_findings env [finding say RuleChannelBalanceLow env i SeverityWarning ns mk]" for i ns mk
    by (auto simp: RuleKeys_members intro!: reportable_finding)
  then show ?thesis unfolding channelFindings_def side_findings_def by (auto simp: Let_def split: if_splits)
qed

lemma approval_side: "approvalFinding say cfg ob f env = Some x \<Longrightarrow> side_findings env [x]"
  by (auto simp: approvalFinding_def Let_def RuleKeys_members intro!: reportable_finding split: if_splits)

lemma version_side: "versionChangeFinding src ob f env now known = Inr (Some x, b) \<Longrightarrow> side_findings env [x]"
  by (auto simp: versionChangeFinding_def Let_def RuleKeys_members result_simps intro!: reportable_finding split: if_splits)

lemma card_side: "cardSyncFindings src cfg ob env now = Inr xs \<Longrightarrow> side_findings env xs"
  by (auto simp: cardSyncFindings_def Let_def RuleKeys_members result_simps side_findings_def intro!: reportable_finding)

lemma runway_side: "runway_findings src t env items = Inr xs \<Longrightarrow> side_findings env xs"
proof (induction items arbitrary: xs)
  case (Cons item items)
  then show ?case
    by (auto simp: result_simps RuleKeys_members intro!: reportable_finding split: if_splits option.splits sum.splits)
qed simp

text \<open>When R1 reports a metric.\<close>

definition sync_open :: "sources \<Rightarrow> RuleConfig \<Rightarrow> string \<Rightarrow> time \<Rightarrow> string list \<Rightarrow> Observation \<Rightarrow> bool" where
  "sync_open src cfg env now actives ob \<longleftrightarrow>
    (fr_State (freshness_of ob now) = StateFailed \<or> dedupKey RuleMetricSyncFailed env (MetricKey ob) \<in> set actives
       \<or> dedupKey RuleSyncConsecutiveFailed env (MetricKey ob) \<in> set actives)
    \<and> (\<exists>samples. list_samples src env (MetricKey ob) (now - failureHistoryLookback) (failureHistoryLimit cfg) = Inr samples
         \<and> foldSyncFailure samples (SyncFailedHysteresisRounds cfg))"

definition sync_part :: "string \<Rightarrow> bool \<Rightarrow> Observation \<Rightarrow> Finding list \<Rightarrow> bool" where
  "sync_part env reported ob xs \<longleftrightarrow> (\<forall>x \<in> set xs. reportable env x)
     \<and> (reported \<longleftrightarrow> (\<exists>x \<in> set xs. fi_RuleKey x = RuleMetricSyncFailed))
     \<and> (\<forall>x \<in> set xs. fi_RuleKey x = RuleMetricSyncFailed \<longrightarrow> fi_DedupKey x = dedupKey RuleMetricSyncFailed env (MetricKey ob))"

lemma sync_part_append: "sync_part env r ob xs \<Longrightarrow> side_findings env ys \<Longrightarrow> sync_part env r ob (xs @ ys)"
  by (auto simp: sync_part_def side_findings_def)

lemma history_findings_part:
  "\<exists>xs. Findings (history_findings say cfg samples failing ca ob env res) = Findings res @ xs
    \<and> sync_part env (foldSyncFailure samples (SyncFailedHysteresisRounds cfg)) ob xs"
proof -
  let ?r = "syncFailedFinding say cfg samples ob env"
  let ?c = "chronicFinding say cfg (windowedFailures samples (ChronicWindowSamples cfg)) ob env"
  have r: "reportable env ?r" "fi_RuleKey ?r = RuleMetricSyncFailed" "fi_DedupKey ?r = dedupKey RuleMetricSyncFailed env (MetricKey ob)"
    by (auto simp: syncFailedFinding_def RuleKeys_members intro!: reportable_finding)
  have c: "reportable env ?c" "fi_RuleKey ?c = RuleSyncConsecutiveFailed"
    by (auto simp: chronicFinding_def RuleKeys_members intro!: reportable_finding)
  show ?thesis
    by (rule exI [of _ "(if foldSyncFailure samples (SyncFailedHysteresisRounds cfg) then [?r] else [])
        @ (if (failing \<or> ca) \<and> windowedFailures samples (ChronicWindowSamples cfg) \<ge> ChronicFailureThreshold cfg then [?c] else [])"])
      (simp add: history_findings_def Let_def sync_part_def r c)
qed

lemma sync_findings_part:
  assumes "sync_findings src cfg env now actives ob res = Inr res'"
  shows "\<exists>xs. Findings res' = Findings res @ xs \<and> sync_part env (sync_open src cfg env now actives ob) ob xs"
proof (cases "fr_State (freshness_of ob now) = StateFailed \<or> dedupKey RuleMetricSyncFailed env (MetricKey ob) \<in> set actives
       \<or> dedupKey RuleSyncConsecutiveFailed env (MetricKey ob) \<in> set actives")
  case True
  then obtain samples where "list_samples src env (MetricKey ob) (now - failureHistoryLookback) (failureHistoryLimit cfg) = Inr samples"
    "res' = history_findings (wording_of src) cfg samples (fr_State (freshness_of ob now) = StateFailed)
       (dedupKey RuleSyncConsecutiveFailed env (MetricKey ob) \<in> set actives) ob env res"
    using assms by (auto simp: sync_findings_def Let_def result_simps split: if_splits)
  then show ?thesis using True history_findings_part by (simp add: sync_open_def)
next
  case False
  then have "res' = res" using assms by (simp add: sync_findings_def Let_def)
  then show ?thesis using False by (intro exI [of _ "[]"]) (simp add: sync_part_def sync_open_def)
qed

lemma observation_findings_part:
  assumes "observation_findings src cfg env now actives known ob res = Inr res'"
  shows "\<exists>xs. Findings res' = Findings res @ xs \<and> sync_part env (sync_open src cfg env now actives ob) ob xs"
proof -
  let ?f = "freshness_of ob now"
  obtain r1 where r1: "sync_findings src cfg env now actives ob res = Inr r1"
    using assms by (auto simp: observation_findings_def Let_def result_simps)
  then obtain xs where xs: "Findings r1 = Findings res @ xs" "sync_part env (sync_open src cfg env now actives ob) ob xs"
    using sync_findings_part by blast
  show ?thesis
  proof (cases "fr_State ?f = StateStale \<and> \<not> stale_long cfg ?f")
    case True
    then have "res' = r1" using assms r1 by (simp add: observation_findings_def Let_def)
    then show ?thesis using xs by blast
  next
    case False
    have st: "side_findings env [finding (wording_of src) RuleMetricDataStale env (MetricKey ob) SeverityWarning ns (MetricKey ob)]" for ns
      by (auto simp: RuleKeys_members intro!: reportable_finding)
    obtain cards version acked where parts:
      "(if MetricKey ob = DefaultCardSyncMetricKey then cardSyncFindings src cfg ob env now else Inr []) = Inr cards"
      "versionChangeFinding src ob ?f env now known = Inr (version, acked)"
      using assms r1 False by (auto simp: observation_findings_def Let_def result_simps)
    have s: "side_findings env cards" using parts(1) card_side by (auto split: if_splits)
    have v: "side_findings env (case version of None \<Rightarrow> [] | Some x \<Rightarrow> [x])"
      using parts(2) version_side by (cases version) auto
    have a: "side_findings env (if MetricKey ob = ApprovalQueueMetricKey cfg
        then (case approvalFinding (wording_of src) cfg ob ?f env of None \<Rightarrow> [] | Some x \<Rightarrow> [x]) else [])"
      using approval_side by (cases "approvalFinding (wording_of src) cfg ob ?f env") auto
    have c: "side_findings env (if MetricKey ob = ChannelBalanceMetricKey cfg then channelFindings (wording_of src) cfg ob ?f env else [])"
      using channel_side by simp
    let ?t = "if fr_State ?f = StateStale then [finding (wording_of src) RuleMetricDataStale env (MetricKey ob) SeverityWarning
        [case StalenessSeconds ?f of None \<Rightarrow> 0 | Some secs \<Rightarrow> secs, ThresholdSeconds ?f] (MetricKey ob)] else []"
    have t: "side_findings env ?t" using st by simp
    have "Findings res' = Findings r1 @ ?t
      @ (if MetricKey ob = ChannelBalanceMetricKey cfg then channelFindings (wording_of src) cfg ob ?f env else [])
      @ (if MetricKey ob = ApprovalQueueMetricKey cfg
          then (case approvalFinding (wording_of src) cfg ob ?f env of None \<Rightarrow> [] | Some x \<Rightarrow> [x]) else [])
      @ cards @ (case version of None \<Rightarrow> [] | Some x \<Rightarrow> [x])"
      using assms r1 False parts unfolding observation_findings_def Let_def by (simp only: rbind_simps if_False prod.case) auto
    moreover have "side_findings env (?t
      @ (if MetricKey ob = ChannelBalanceMetricKey cfg then channelFindings (wording_of src) cfg ob ?f env else [])
      @ (if MetricKey ob = ApprovalQueueMetricKey cfg
          then (case approvalFinding (wording_of src) cfg ob ?f env of None \<Rightarrow> [] | Some x \<Rightarrow> [x]) else [])
      @ cards @ (case version of None \<Rightarrow> [] | Some x \<Rightarrow> [x]))"
      using t c a s v by (simp only: side_findings_simps simp_thms)
    ultimately obtain ys where "Findings res' = Findings r1 @ ys" "side_findings env ys" by blast
    then show ?thesis using xs sync_part_append [OF xs(2)] by (intro exI [of _ "xs @ ys"]) simp
  qed
qed

text \<open>Deduplication keys name their rule, environment and subject.\<close>

lemma RuleKeys_no_colon: "r \<in> set RuleKeys \<Longrightarrow> CHR '':'' \<notin> set r"
  by (auto simp: RuleKeys_members)

lemma dedupKey_inject:
  "r \<in> set RuleKeys \<Longrightarrow> r' \<in> set RuleKeys \<Longrightarrow> dedupKey r env sub = dedupKey r' env sub' \<longleftrightarrow> r = r' \<and> sub = sub'"
  using append_sep [OF RuleKeys_no_colon RuleKeys_no_colon] by (simp add: dedupKey_def)

lemma dedupKey_env:
  assumes "r \<in> set RuleKeys" "r' \<in> set RuleKeys" "CHR '':'' \<notin> set env" "CHR '':'' \<notin> set env'"
    "dedupKey r env sub = dedupKey r' env' sub'"
  shows "env = env'"
  using assms append_sep [OF RuleKeys_no_colon RuleKeys_no_colon, of r r'] append_sep [OF assms(3,4)]
  by (simp add: dedupKey_def)

lemma mem_sync: "RuleMetricSyncFailed \<in> set RuleKeys"
  by (simp add: RuleKeys_members)

lemma sync_key_of:
  assumes "reportable env x" "fi_DedupKey x = dedupKey RuleMetricSyncFailed env m"
  shows "fi_RuleKey x = RuleMetricSyncFailed"
proof -
  obtain sub where r: "fi_RuleKey x \<in> set RuleKeys" "fi_DedupKey x = dedupKey (fi_RuleKey x) env sub"
    using assms(1) unfolding reportable_def by blast
  have "dedupKey RuleMetricSyncFailed env m = dedupKey (fi_RuleKey x) env sub" using assms(2) r(2) by (rule subst)
  then show ?thesis using dedupKey_inject [OF mem_sync r(1), of env m sub] by metis
qed

lemma all_observations_part:
  assumes "all_observations src cfg env now actives known obs res = Inr res'"
  shows "\<exists>xs. Findings res' = Findings res @ xs \<and> (\<forall>x \<in> set xs. reportable env x)
    \<and> (\<forall>m. dedupKey RuleMetricSyncFailed env m \<in> fi_DedupKey ` set xs
         \<longleftrightarrow> (\<exists>ob \<in> set obs. MetricKey ob = m \<and> sync_open src cfg env now actives ob))"
  using assms
proof (induction obs arbitrary: res)
  case Nil
  then show ?case by simp
next
  case (Cons ob obs)
  obtain r1 where r1: "observation_findings src cfg env now actives known ob res = Inr r1"
    "all_observations src cfg env now actives known obs r1 = Inr res'"
    using Cons.prems by (auto simp: result_simps)
  obtain ys where ys: "Findings r1 = Findings res @ ys" "sync_part env (sync_open src cfg env now actives ob) ob ys"
    using observation_findings_part [OF r1(1)] by blast
  obtain xs where xs: "Findings res' = Findings r1 @ xs" "\<forall>x \<in> set xs. reportable env x"
    "\<And>m. dedupKey RuleMetricSyncFailed env m \<in> fi_DedupKey ` set xs
         \<longleftrightarrow> (\<exists>ob \<in> set obs. MetricKey ob = m \<and> sync_open src cfg env now actives ob)"
    using Cons.IH [OF r1(2)] by blast
  have "dedupKey RuleMetricSyncFailed env m \<in> fi_DedupKey ` set ys \<longleftrightarrow> MetricKey ob = m \<and> sync_open src cfg env now actives ob" for m
  proof
    assume "dedupKey RuleMetricSyncFailed env m \<in> fi_DedupKey ` set ys"
    then obtain x where x: "x \<in> set ys" "fi_DedupKey x = dedupKey RuleMetricSyncFailed env m" by force
    then have "fi_RuleKey x = RuleMetricSyncFailed" using ys(2) sync_key_of by (auto simp: sync_part_def)
    then show "MetricKey ob = m \<and> sync_open src cfg env now actives ob"
      using x ys(2) dedupKey_inject [OF mem_sync mem_sync] by (auto simp: sync_part_def)
  next
    assume "MetricKey ob = m \<and> sync_open src cfg env now actives ob"
    then obtain x where "x \<in> set ys" "fi_DedupKey x = dedupKey RuleMetricSyncFailed env m"
      using ys(2) by (auto simp: sync_part_def)
    then show "dedupKey RuleMetricSyncFailed env m \<in> fi_DedupKey ` set ys" by force
  qed
  then show ?case using ys xs by (intro exI [of _ "ys @ xs"]) (auto simp: sync_part_def image_Un)
qed

lemma Evaluate_rules_facts:
  assumes "Evaluate_rules src cfg0 env now actives = Inr ev" "list_observations src env = Inr obs"
  shows "sorted (map fi_DedupKey (Findings ev)) \<and> (\<forall>x \<in> set (Findings ev). reportable env x)
    \<and> (dedupKey RuleMetricSyncFailed env m \<in> fi_DedupKey ` set (Findings ev)
         \<longleftrightarrow> (\<exists>ob \<in> set obs. MetricKey ob = m \<and> sync_open src (normalized cfg0) env now actives ob))"
proof -
  let ?c = "normalized cfg0"
  obtain t known res runway where e: "all_observations src ?c env now actives known obs no_result = Inr res"
    "runwayFindings src env t = Inr runway" "ev = res\<lparr>Findings := sort_key fi_DedupKey (Findings res @ runway)\<rparr>"
    using assms by (auto simp: Evaluate_rules_def Let_def result_simps split: if_splits)
  have side: "side_findings env runway" using e(2) runway_side by (auto simp: runwayFindings_def result_simps)
  obtain xs where xs: "Findings res = xs" "\<forall>x \<in> set xs. reportable env x"
    "dedupKey RuleMetricSyncFailed env m \<in> fi_DedupKey ` set xs
         \<longleftrightarrow> (\<exists>ob \<in> set obs. MetricKey ob = m \<and> sync_open src ?c env now actives ob)"
    using all_observations_part [OF e(1)] by (auto simp: no_result_def)
  have "dedupKey RuleMetricSyncFailed env m \<notin> fi_DedupKey ` set runway"
  proof
    assume "dedupKey RuleMetricSyncFailed env m \<in> fi_DedupKey ` set runway"
    then obtain x where "x \<in> set runway" "fi_DedupKey x = dedupKey RuleMetricSyncFailed env m" by force
    then show False using side sync_key_of [of env x m] by (simp add: side_findings_def)
  qed
  then show ?thesis using xs side by (auto simp: e(3) image_Un side_findings_def)
qed

section \<open>Properties\<close>

text \<open>
  The hysteresis of the failure rule is what its comment says: over the samples of the window,
  oldest first, the condition is open exactly when some run of \<open>n\<close> failures in a row is not
  followed by a run of \<open>n\<close> successes in a row. The loop with its two counters computes that, for
  every \<open>n\<close>; values below one count as one.
\<close>

theorem hysteresis_reference:
  "foldSyncFailure samples n \<longleftrightarrow> open_reference (if n < 1 then 1 else nat n) samples"
proof (cases "n < 1")
  case True
  then show ?thesis using fold_open [of 1 samples] by (simp add: foldSyncFailure_def)
next
  case False
  then show ?thesis using fold_open [of "nat n" samples] by (simp add: foldSyncFailure_def)
qed

text \<open>
  The normalised configuration can always fire and never fires on nothing: every number of
  rounds is at least one, the threshold of the sliding window is within the window, intervals,
  balance and waiting thresholds are positive, the runway thresholds validate; and normalising
  again changes nothing.
\<close>

theorem normalized_sound:
  "let c = normalized cfg in 1 \<le> SyncFailedHysteresisRounds c \<and> 1 \<le> ChronicFailureThreshold c
     \<and> ChronicFailureThreshold c \<le> ChronicWindowSamples c \<and> 1 \<le> CardSyncConsecutiveRounds c
     \<and> 0 < CollectionInterval c \<and> 0 < BalanceThresholdMinorUnits c \<and> 0 < ApprovalPendingThreshold c
     \<and> RunwayThresholds_Validate (cfg_RunwayThresholds c) = Inr () \<and> normalized c = c"
proof -
  have d: "RunwayThresholds_Validate DefaultRunwayThresholds = Inr ()" by code_simp
  have b: "\<not> blank (ChannelBalanceMetricKey DefaultRuleConfig)" "\<not> blank (ApprovalQueueMetricKey DefaultRuleConfig)"
    "\<not> blank (cfg_Owner DefaultRuleConfig)" by code_simp+
  have n: "CollectionInterval DefaultRuleConfig = 300000000000" "BalanceThresholdMinorUnits DefaultRuleConfig = 500000"
    "SyncFailedHysteresisRounds DefaultRuleConfig = 3" "ChronicWindowSamples DefaultRuleConfig = 12"
    "ChronicFailureThreshold DefaultRuleConfig = 9" "CardSyncConsecutiveRounds DefaultRuleConfig = 3"
    "ApprovalPendingThreshold DefaultRuleConfig = 14400000000000" "cfg_RunwayThresholds DefaultRuleConfig = DefaultRunwayThresholds"
    by (simp_all add: DefaultRuleConfig_def nanos_per_second_def)
  define c where "c = normalized cfg"
  have window: "1 \<le> ChronicWindowSamples c" "ChronicFailureThreshold c \<le> ChronicWindowSamples c" "1 \<le> ChronicFailureThreshold c"
    by (simp_all add: c_def normalized_def Let_def n)
  have pos: "1 \<le> SyncFailedHysteresisRounds c" "1 \<le> CardSyncConsecutiveRounds c" "0 < CollectionInterval c"
    "0 < BalanceThresholdMinorUnits c" "0 < ApprovalPendingThreshold c"
    by (simp_all add: c_def normalized_def Let_def n)
  have named: "\<not> blank (ChannelBalanceMetricKey c)" "\<not> blank (ApprovalQueueMetricKey c)" "\<not> blank (cfg_Owner c)"
    by (simp_all add: c_def normalized_def Let_def b)
  have t: "RunwayThresholds_Validate (cfg_RunwayThresholds c) = Inr ()"
    by (cases "RunwayThresholds_Validate (cfg_RunwayThresholds cfg)") (simp_all add: c_def normalized_def Let_def n d)
  have "normalized c = c" using window pos named t by (simp add: normalized_def)
  then show ?thesis using window pos t by (simp add: c_def [symmetric])
qed

text \<open>
  The version rule fires exactly when it should: the observation is readable and reports a
  version, nobody has acknowledged that very version for the metric, and some successful sample
  of the last seven days reports another one. The finding is keyed by the new version, so each
  change has its own alert.
\<close>

theorem version_rule_exact:
  assumes "list_samples src env (MetricKey ob) (now - versionLookback) maxVersionSamples = Inr samples"
  shows "versionChangeFinding src ob f env now known = Inr (Some x, acked) \<longleftrightarrow>
    \<not> unreadable f \<and> observedVersion (ob_Value ob) \<noteq> [] \<and> \<not> acked
    \<and> (\<forall>a. map_of known (MetricKey ob) = Some a \<longrightarrow> ack_Version a \<noteq> observedVersion (ob_Value ob))
    \<and> (\<exists>s \<in> set samples. ob_Status s \<noteq> SyncFailed \<and> observedVersion (ob_Value s) \<noteq> []
         \<and> observedVersion (ob_Value s) \<noteq> observedVersion (ob_Value ob))
    \<and> x = finding (wording_of src) RuleUpstreamVersionChanged env (MetricKey ob @ '':'' @ observedVersion (ob_Value ob))
         SeverityWarning [] (MetricKey ob)"
proof -
  have "previousVersion cur samples = [] \<longleftrightarrow> \<not> (\<exists>s \<in> set samples. ob_Status s \<noteq> SyncFailed \<and> observedVersion (ob_Value s) \<noteq> []
      \<and> observedVersion (ob_Value s) \<noteq> cur)" for cur
  proof (cases "find (\<lambda>s. ob_Status s \<noteq> SyncFailed \<and> observedVersion (ob_Value s) \<noteq> [] \<and> observedVersion (ob_Value s) \<noteq> cur) (rev samples)")
    case None
    have "previousVersion cur samples = []" unfolding previousVersion_def None by simp
    then show ?thesis using None by (auto simp: find_None_iff)
  next
    case (Some s)
    then show ?thesis using find_SomeE [OF Some] by (auto simp: previousVersion_def)
  qed
  then show ?thesis using assms by (auto simp: versionChangeFinding_def Let_def split: option.splits)
qed

text \<open>
  The runway rule reports the metered upstreams whose days are known and at or below the
  warning level, each once and in their order, as critical exactly when at or below the critical
  level; and nothing else. It reports an error only for thresholds that do not validate.
\<close>

theorem runway_rule_exact:
  assumes "RunwayThresholds_Validate t = Inr ()" "upstream_runways src env t = Inr items"
  shows "\<exists>xs. runwayFindings src env t = Inr xs
    \<and> map (\<lambda>x. (fi_DedupKey x, fi_Severity x)) xs
      = map (\<lambda>i. (dedupKey RuleUpstreamRunwayLow env (account_text src (ur_AccountID i)),
                  if the (Days (ur_Runway i)) \<le> CriticalDays t then SeverityCritical else SeverityWarning))
          (filter (\<lambda>i. IsMetered (ur_AccessMethod i) \<and> (\<exists>d. Days (ur_Runway i) = Some d \<and> d \<le> WarningDays t)) items)"
proof -
  have less: "CriticalDays t < WarningDays t"
    using assms(1) by (auto simp: RunwayThresholds_Validate_def result_simps split: if_splits)
  have level: "Classify t d = Inr (if d \<le> CriticalDays t then RunwayCritical else if d \<le> WarningDays t then RunwayWarning
      else if d \<le> SeriousDays t then RunwaySerious else RunwayHealthy)" for d
    using assms(1) by (simp add: Classify_def)
  have "\<exists>xs. runway_findings src t env items = Inr xs
    \<and> map (\<lambda>x. (fi_DedupKey x, fi_Severity x)) xs
      = map (\<lambda>i. (dedupKey RuleUpstreamRunwayLow env (account_text src (ur_AccountID i)),
                  if the (Days (ur_Runway i)) \<le> CriticalDays t then SeverityCritical else SeverityWarning))
          (filter (\<lambda>i. IsMetered (ur_AccessMethod i) \<and> (\<exists>d. Days (ur_Runway i) = Some d \<and> d \<le> WarningDays t)) items)"
  proof (induction items)
    case (Cons i items)
    then show ?case using less by (cases "Days (ur_Runway i)") (auto simp: level)
  qed simp
  then show ?thesis using assms(2) by (simp add: runwayFindings_def)
qed

text \<open>
  What an evaluation hands to the alert table: findings sorted by their keys, each under a
  registered rule key that a silence window can name, with a key that carries the environment,
  and with severity warning or critical; and a metric has a failure finding exactly when one of
  its observations fails now or has an active failure alert, and the last run of failures that
  is long enough has not been followed by as long a run of successes.
\<close>

theorem evaluation_exact:
  assumes "Evaluate_rules src cfg env now actives = Inr ev" "list_observations src env = Inr obs"
  shows "sorted (map fi_DedupKey (Findings ev))
    \<and> (\<forall>x \<in> set (Findings ev). KnownRuleKey (fi_RuleKey x) \<and> (\<exists>sub. fi_DedupKey x = dedupKey (fi_RuleKey x) env sub)
         \<and> fi_Severity x \<in> {SeverityWarning, SeverityCritical})
    \<and> (dedupKey RuleMetricSyncFailed env m \<in> fi_DedupKey ` set (Findings ev)
         \<longleftrightarrow> (\<exists>ob \<in> set obs. MetricKey ob = m \<and> sync_open src (normalized cfg) env now actives ob))"
  using Evaluate_rules_facts [OF assms] by (simp add: reportable_def KnownRuleKey_def)

section \<open>Runs\<close>

definition demo_observation :: "SyncStatus \<Rightarrow> string \<Rightarrow> Observation" where
  "demo_observation st ver = \<lparr>MetricKey = ''m'', ob_Source = ''s'', ob_Environment = ''production'', ObservedAt = Some 1000,
     SyncedAt = 1000, Watermark = [], ob_Status = st, IsPartial = False, LastSuccess = None,
     LastErrorCode = (if st = SyncFailed then ''timeout'' else []), StalenessThresholdSeconds = 1800,
     ob_Value = [(''version'', JString ver)]\<rparr>"

definition demo_runway :: "int \<Rightarrow> UpstreamRunway" where
  "demo_runway d = \<lparr>ur_AccountID = 1, ur_Name = ''u'', ur_SystemType = ''newapi'', ur_AccessMethod = AccessUpstreamKey,
     ur_Runway = \<lparr>Days = Some d, Level = NoLevel, Reason = NoReason, WindowDays = 7, CoveredDays = 7, DailyAverageMinor = None,
       BalanceMinor = None, rw_Currency = ''CNY'', BalanceObservedAt = None\<rparr>\<rparr>"

definition demo_sources :: "Observation list \<Rightarrow> sources" where
  "demo_sources samples = \<lparr>list_observations = (\<lambda>_. Inr [demo_observation SyncFailed ''1.1'']),
     list_samples = (\<lambda>_ _ _ _. Inr samples), upstream_runways = (\<lambda>_ _. Inr [demo_runway 3, demo_runway 30]),
     list_acks = (\<lambda>_. Inr []), current_thresholds = None, account_text = (\<lambda>_. ''a1''), wording_of = (\<lambda>r _ _. (r, r))\<rparr>"

definition demo_config :: RuleConfig where "demo_config = DefaultRuleConfig"

text \<open>A collector that fails once and then dies: the state stays failed, so the metric is never
  stale, and one failure is below the hysteresis, so nothing is reported, a month later as well.\<close>

lemma dead_collector_silent:
  "(case Evaluate_rules ((demo_sources [])\<lparr>upstream_runways := \<lambda>_ _. Inr []\<rparr>) demo_config ''production''
        (30 * 24 * 3600 * nanos_per_second) [] of
      Inr ev \<Rightarrow> Findings ev = [] \<and> HysteresisSuppressed ev = 1 | _ \<Rightarrow> False)
   \<and> (case Evaluate_rules ((demo_sources [demo_observation SyncFailed ''1.1''])\<lparr>upstream_runways := \<lambda>_ _. Inr []\<rparr>) demo_config
        ''production'' 2000 [] of Inr ev \<Rightarrow> Findings ev = [] | _ \<Rightarrow> False)"
  by code_simp

definition demo_failures :: "Observation list" where
  "demo_failures = replicate 3 (demo_observation SyncFailed ''1.0'') @ [demo_observation SyncOK ''1.0'']"

lemma demo_evaluation:
  "(case Evaluate_rules (demo_sources demo_failures) demo_config ''production'' 2000 [] of
      Inr ev \<Rightarrow> map fi_RuleKey (Findings ev) = [RuleMetricSyncFailed, RuleUpstreamRunwayLow] | _ \<Rightarrow> False)"
  by code_simp

theorem evaluation_exact_witness:
  "\<exists>ev. Evaluate_rules (demo_sources demo_failures) demo_config ''production'' 2000 [] = Inr ev
    \<and> dedupKey RuleMetricSyncFailed ''production'' ''m'' \<in> fi_DedupKey ` set (Findings ev)"
proof -
  obtain ev where ev: "Evaluate_rules (demo_sources demo_failures) demo_config ''production'' 2000 [] = Inr ev"
    using demo_evaluation by (auto split: sum.splits)
  have "list_observations (demo_sources demo_failures) ''production'' = Inr [demo_observation SyncFailed ''1.1'']"
    by (simp add: demo_sources_def)
  moreover have "sync_open (demo_sources demo_failures) (normalized demo_config) ''production'' 2000 [] (demo_observation SyncFailed ''1.1'')"
  proof -
    have "fr_State (freshness_of (demo_observation SyncFailed ''1.1'') 2000) = StateFailed"
      "foldSyncFailure demo_failures (SyncFailedHysteresisRounds (normalized demo_config))" by code_simp+
    then show ?thesis unfolding sync_open_def by (simp add: demo_sources_def)
  qed
  moreover have "MetricKey (demo_observation SyncFailed ''1.1'') = ''m''" by (simp add: demo_observation_def)
  ultimately show ?thesis using evaluation_exact [OF ev, of "[demo_observation SyncFailed ''1.1'']" "''m''"] ev by auto
qed

theorem runway_rule_exact_witness:
  "\<exists>xs. runwayFindings (demo_sources []) ''production'' DefaultRunwayThresholds = Inr xs \<and> map fi_Severity xs = [SeverityCritical]"
proof -
  have v: "RunwayThresholds_Validate DefaultRunwayThresholds = Inr ()" by code_simp
  have s: "upstream_runways (demo_sources []) ''production'' DefaultRunwayThresholds = Inr [demo_runway 3, demo_runway 30]"
    by (simp add: demo_sources_def)
  have k: "filter (\<lambda>i. IsMetered (ur_AccessMethod i) \<and> (\<exists>d. Days (ur_Runway i) = Some d \<and> d \<le> WarningDays DefaultRunwayThresholds))
      [demo_runway 3, demo_runway 30] = [demo_runway 3]" "the (Days (ur_Runway (demo_runway 3))) \<le> CriticalDays DefaultRunwayThresholds"
    by (simp_all add: demo_runway_def IsMetered_def DefaultRunwayThresholds_def)
  obtain xs where xs: "runwayFindings (demo_sources []) ''production'' DefaultRunwayThresholds = Inr xs"
    and m: "map (\<lambda>x. (fi_DedupKey x, fi_Severity x)) xs
      = [(dedupKey RuleUpstreamRunwayLow ''production'' (account_text (demo_sources []) (ur_AccountID (demo_runway 3))), SeverityCritical)]"
    using runway_rule_exact [OF v s] unfolding k(1) list.map if_P [OF k(2)] by (elim exE conjE) (rule that)
  have "map snd (map (\<lambda>x. (fi_DedupKey x, fi_Severity x)) xs) = [SeverityCritical]" unfolding m by simp
  then have "map fi_Severity xs = [SeverityCritical]" by (simp add: comp_def)
  with xs show ?thesis by (intro exI [of _ xs] conjI)
qed

theorem version_rule_exact_witness:
  "\<exists>x. versionChangeFinding (demo_sources demo_failures) (demo_observation SyncOK ''1.1'')
      (freshness_of (demo_observation SyncOK ''1.1'') 2000) ''production'' 2000 [] = Inr (Some x, False)"
proof -
  let ?ob = "demo_observation SyncOK ''1.1''"
  have s: "list_samples (demo_sources demo_failures) ''production'' (MetricKey ?ob) (2000 - versionLookback) maxVersionSamples = Inr demo_failures"
    by (simp add: demo_sources_def)
  have u: "\<not> unreadable (freshness_of ?ob 2000)" "observedVersion (ob_Value ?ob) \<noteq> []"
    "list_ex (\<lambda>s. ob_Status s \<noteq> SyncFailed \<and> observedVersion (ob_Value s) \<noteq> []
       \<and> observedVersion (ob_Value s) \<noteq> observedVersion (ob_Value ?ob)) demo_failures" by code_simp+
  then show ?thesis using version_rule_exact [OF s, of "freshness_of ?ob 2000" "[]" _ False] by (simp add: list_ex_iff)
qed

end
