(* ===== verification/Alert_Centre.thy ===== *)
theory Alert_Centre
  imports Alert_Rounds Alert_Rules
begin

text \<open>
  The alert centre as a whole: the evaluator of \<open>Alert_Rules\<close> driving the rounds of
  \<open>Alert_Rounds\<close>. Every row's key names its rule and carries its environment, so that the rounds of
  different environments cannot meet, and the failure alerts in the table follow the samples.
\<close>

definition keyed :: "Alert \<Rightarrow> bool" where
  "keyed a \<longleftrightarrow> CHR '':'' \<notin> set (al_Environment a) \<and> (\<exists>r \<in> set RuleKeys. \<exists>sub. al_DedupKey a = dedupKey r (al_Environment a) sub)"

definition all_keyed :: "AlertDB \<Rightarrow> bool" where
  "all_keyed db \<longleftrightarrow> (\<forall>a \<in> set (alerts db). keyed a)"

lemma keyed_cong: "al_Environment a = al_Environment b \<Longrightarrow> al_DedupKey a = al_DedupKey b \<Longrightarrow> keyed a = keyed b"
  by (simp add: keyed_def)

lemma update_keyed:
  assumes "all_keyed db" "\<And>a. al_Environment (f a) = al_Environment a \<and> al_DedupKey (f a) = al_DedupKey a"
  shows "all_keyed (fst (update_alert cond f i db))"
proof -
  have "keyed (f a) = keyed a" for a using assms(2) by (intro keyed_cong) auto
  then show ?thesis using assms(1) by (auto simp: update_alert_def Let_def all_keyed_def split: option.splits)
qed

lemma exec_keyed:
  assumes "all_keyed db" "\<And>a. al_Environment (f a) = al_Environment a \<and> al_DedupKey (f a) = al_DedupKey a"
  shows "all_keyed (fst (exec_update f i db))"
proof -
  obtain db1 r where "update_alert (\<lambda>_. True) f i db = (db1, r)" by force
  moreover have "all_keyed (fst (update_alert (\<lambda>_. True) f i db))" by (rule update_keyed [OF assms])
  ultimately show ?thesis by (auto simp: exec_update_def split: sum.splits alert_error.splits)
qed

lemma Upsert_keyed:
  assumes "Upsert (\<lambda>db. db) newID i db = (db', Inr (b, created))" "db_ok db" "all_keyed db"
    "CHR '':'' \<notin> set (up_Environment i)" "r \<in> set RuleKeys" "up_DedupKey i = dedupKey r (up_Environment i) sub"
  shows "all_keyed db'"
  using assms(1,2)
proof (cases rule: quiet_Upsert)
  case new
  then have "keyed b" using assms(4-6) by (auto simp: keyed_def)
  then show ?thesis using assms(3) new by (simp add: all_keyed_def)
next
  case (merged a)
  have "keyed b = keyed a" by (rule keyed_cong) (simp_all add: merged)
  then show ?thesis using assms(3) merged by (auto simp: all_keyed_def)
qed

lemma record_keyed:
  assumes "record_findings quiet n newIDs env now ws fs db res = ((db', res'), None)" "db_ok db" "all_keyed db"
    "CHR '':'' \<notin> set env" "\<forall>x \<in> set fs. reportable env x"
  shows "all_keyed db'"
  using assms
proof (induction fs arbitrary: n db res)
  case (Cons f fs)
  obtain db1 b created where u: "Upsert (\<lambda>db. db) (newIDs n) (upsert_input env now ws f) db = (db1, Inr (b, created))"
    using Cons.prems(1) by (auto split: prod.splits sum.splits)
  obtain sub where f: "fi_RuleKey f \<in> set RuleKeys" "fi_DedupKey f = dedupKey (fi_RuleKey f) env sub"
    using Cons.prems(5) by (auto simp: reportable_def)
  have i: "up_Environment (upsert_input env now ws f) = env" "up_DedupKey (upsert_input env now ws f) = fi_DedupKey f"
    by (simp_all add: upsert_input_def)
  have k: "all_keyed db1"
    by (rule Upsert_keyed [OF u Cons.prems(2,3) _ f(1), unfolded i]) (rule Cons.prems(4), rule f(2))
  have ok: "db_ok db1" using Upsert_Inr [OF u Cons.prems(2)] by simp
  obtain res1 where "record_findings quiet (Suc n) newIDs env now ws fs db1 res1 = ((db', res'), None)"
    using Cons.prems(1) u by simp
  then show ?case using Cons.IH [OF _ ok k] Cons.prems(4,5) by simp
qed simp

lemma resolve_keyed:
  "resolve_missing quiet n now seen as db res = ((db', res'), e) \<Longrightarrow> all_keyed db \<Longrightarrow> all_keyed db'"
proof (induction "as" arbitrary: n db res)
  case (Cons a "as")
  obtain db1 r where u: "Resolve (al_ID a) now db = (db1, r)" by force
  have "all_keyed (fst (Resolve (al_ID a) now db))"
    unfolding Resolve_def by (rule update_keyed [OF Cons.prems(2)]) simp
  then have "all_keyed db1" by (simp add: u)
  then show ?case using Cons.IH Cons.prems u by (cases r) (auto split: if_splits alert_error.splits)
qed simp

lemma deliver_keyed:
  "deliver_all quiet n notify now as db res = ((db', res'), e) \<Longrightarrow> all_keyed db \<Longrightarrow> all_keyed db'"
proof (induction "as" arbitrary: n db res)
  case (Cons a "as")
  have d: "all_keyed (fst (MarkDelivered (al_ID a) now db))"
    unfolding MarkDelivered_def by (rule exec_keyed [OF Cons.prems(2)]) simp
  have f: "all_keyed (fst (MarkNotifyFailed (al_ID a) reason db))" for reason
    unfolding MarkNotifyFailed_def by (rule exec_keyed [OF Cons.prems(2)]) simp
  obtain db1 r where dm: "MarkDelivered (al_ID a) now db = (db1, r)" by force
  show ?case
  proof (cases "notify a")
    case Accepted
    then show ?thesis using d dm Cons by (cases r) auto
  next
    case NoNotifier
    then show ?thesis using Cons by simp
  next
    case (Refused reason)
    obtain db2 q where fm: "MarkNotifyFailed (al_ID a) reason db = (db2, q)" by force
    show ?thesis using f [of reason] fm Refused Cons by (cases q) auto
  qed
qed simp


section \<open>A run\<close>

definition empty_db :: AlertDB where
  "empty_db = \<lparr>environments = [''production''], alerts = [], silences = [], acks = []\<rparr>"

abbreviation "centre_round \<equiv> Reconcile quiet (\<lambda>n. n + 10) (Evaluate_rules (demo_sources demo_failures) demo_config) None ''production'' 2000 empty_db"

lemma centre_round_ends: "snd centre_round = None"
  by code_simp


end
