(* ===== verification/Audit_Log.thy ===== *)
theory Audit_Log
  imports Ops Actions "HOL-Library.List_Lexorder" "HOL-Library.Char_ord"
begin

text \<open>
  The audit chain (\<open>audit/event.go\<close>, \<open>audit/store.go\<close>, \<open>audit/anchor.go\<close>, \<open>audit/redact.go\<close>): the
  canonical bytes of an event in their two versions, the append that links an event to the last
  one, the verification of a range, the signed roots, and the redaction of summaries.

  SHA-256, Ed25519, base64, the JSON encoder, the text of identifiers and of times, and the mapping
  of letters to lower case are library code, the fields of \<open>audit_lib\<close>. Appending holds the
  chain's lock, so it is one step. Driver errors, which change nothing, are left out, and so are
  the two fields of a root that its export fills.
\<close>

section \<open>Events (event.go)\<close>

record audit_lib =
  lb_marshal_key :: "string \<Rightarrow> string"
  lb_marshal_value :: "json \<Rightarrow> string option"
  lb_normalize :: "json_object \<Rightarrow> json_object option"
  lb_stored :: "json_object \<Rightarrow> json_object option"
  lb_sha256_hex :: "string \<Rightarrow> string"
  lb_uuid :: "uuid \<Rightarrow> string"
  lb_time :: "time \<Rightarrow> string"
  lb_base64 :: "string \<Rightarrow> string"
  lb_base64_decode :: "string \<Rightarrow> string option"
  lb_to_lower :: "string \<Rightarrow> string"

definition GenesisHash :: string where
  "GenesisHash = replicate 64 (CHR ''0'')"

abbreviation "ResultSucceeded \<equiv> ''succeeded''"
abbreviation "ResultFailed \<equiv> ''failed''"

record Event =
  e_ID :: uuid
  Sequence :: int64
  e_OccurredAt :: time
  RecordedAt :: time
  e_PrincipalID :: string
  e_PrincipalType :: principal_type
  e_ActionID :: string
  e_ActionVersion :: string
  e_ActionRunID :: uuid
  e_ResourceType :: string
  e_ResourceID :: string
  e_Environment :: string
  e_Reason :: string
  e_ApprovalID :: string
  e_RequestID :: string
  TraceID :: string
  SourceIP :: string
  e_BeforeSummary :: json_object
  e_AfterSummary :: json_object
  ConnectorRequestSummary :: json_object
  ConnectorResponseSummary :: json_object
  e_Result :: string
  CompensationResult :: string
  PrevHash :: string
  EventHash :: string
  CanonicalVersion :: int

datatype audit_error = ErrMarshal | ErrUnknownVersion | ErrChainDatabase | ErrEmptyChain | ErrNothingNew | ErrBrokenChain
  | ErrBadSignature

section \<open>Canonical bytes\<close>

fun marshal_fields :: "audit_lib \<Rightarrow> json_object \<Rightarrow> string list \<Rightarrow> audit_error + string list" where
  "marshal_fields lb m [] = Inr []"
| "marshal_fields lb m (k # ks) = (case lb_marshal_value lb (jget m k) of None \<Rightarrow> Inl ErrMarshal
     | Some v \<Rightarrow> rbind (marshal_fields lb m ks) (\<lambda>rest. Inr ((lb_marshal_key lb k @ '':'' @ v) # rest)))"

fun join_comma :: "string list \<Rightarrow> string" where
  "join_comma [] = []"
| "join_comma [s] = s"
| "join_comma (s # t # ts) = s @ '','' @ join_comma (t # ts)"

definition canonicalJSON :: "audit_lib \<Rightarrow> json_object \<Rightarrow> audit_error + string" where
  "canonicalJSON lb m = (if m = [] then Inr ''{}''
     else rbind (marshal_fields lb m (sort (map fst m))) (\<lambda>parts. Inr (''{'' @ join_comma parts @ ''}'')))"

definition int_text :: "int \<Rightarrow> string" where
  "int_text n = (if n < 0 then ''-'' @ dec_string (nat (- n)) else dec_string (nat n))"

definition CanonicalV1 :: int where "CanonicalV1 = 1"
definition CanonicalV2 :: int where "CanonicalV2 = 2"
definition CurrentCanonicalVersion :: int where "CurrentCanonicalVersion = CanonicalV2"

definition canonicalFields :: "audit_lib \<Rightarrow> Event \<Rightarrow> audit_error + (string \<times> string) list" where
  "canonicalFields lb e =
    rbind (canonicalJSON lb (e_BeforeSummary e)) (\<lambda>before.
    rbind (canonicalJSON lb (e_AfterSummary e)) (\<lambda>after.
    rbind (canonicalJSON lb (ConnectorRequestSummary e)) (\<lambda>creq.
    rbind (canonicalJSON lb (ConnectorResponseSummary e)) (\<lambda>cresp.
      Inr [(''id'', lb_uuid lb (e_ID e)), (''sequence'', int_text (Sequence e)),
        (''occurred_at'', lb_time lb (e_OccurredAt e)), (''principal_id'', e_PrincipalID e),
        (''principal_type'', e_PrincipalType e), (''action_id'', e_ActionID e),
        (''action_version'', e_ActionVersion e), (''action_run_id'', lb_uuid lb (e_ActionRunID e)),
        (''resource_type'', e_ResourceType e), (''resource_id'', e_ResourceID e),
        (''environment'', e_Environment e), (''reason'', e_Reason e), (''approval_id'', e_ApprovalID e),
        (''request_id'', e_RequestID e), (''trace_id'', TraceID e), (''source_ip'', SourceIP e),
        (''before_summary'', before), (''after_summary'', after), (''connector_request_summary'', creq),
        (''connector_response_summary'', cresp), (''result'', e_Result e),
        (''compensation_result'', CompensationResult e), (''prev_hash'', PrevHash e)]))))"

abbreviation newline :: string where "newline \<equiv> [CHR 0x0A]"

definition line_v1 :: "string \<times> string \<Rightarrow> string" where
  "line_v1 kv = fst kv @ ''='' @ snd kv @ newline"

definition line_v2 :: "string \<times> string \<Rightarrow> string" where
  "line_v2 kv = fst kv @ ''='' @ dec_string (length (snd kv)) @ '':'' @ snd kv @ newline"

definition canonicalV1 :: "audit_lib \<Rightarrow> Event \<Rightarrow> audit_error + string" where
  "canonicalV1 lb e = rbind (canonicalFields lb e) (\<lambda>fs. Inr (concat (map line_v1 fs)))"

definition canonicalV2 :: "audit_lib \<Rightarrow> Event \<Rightarrow> audit_error + string" where
  "canonicalV2 lb e = rbind (canonicalFields lb e) (\<lambda>fs. Inr (concat (map line_v2 fs)))"

definition Canonical :: "audit_lib \<Rightarrow> Event \<Rightarrow> audit_error + string" where
  "Canonical lb e = (if CanonicalVersion e = 0 \<or> CanonicalVersion e = CanonicalV1 then canonicalV1 lb e
     else if CanonicalVersion e = CanonicalV2 then canonicalV2 lb e
     else Inl ErrUnknownVersion)"

definition ComputeHash :: "audit_lib \<Rightarrow> Event \<Rightarrow> audit_error + string" where
  "ComputeHash lb e = rbind (Canonical lb e) (\<lambda>c. Inr (lb_sha256_hex lb c))"

definition normalizeMap :: "audit_lib \<Rightarrow> json_object \<Rightarrow> audit_error + json_object" where
  "normalizeMap lb m = (if m = [] then Inr [] else case lb_normalize lb m of None \<Rightarrow> Inl ErrMarshal | Some n \<Rightarrow> Inr n)"

definition Normalize :: "audit_lib \<Rightarrow> Event \<Rightarrow> audit_error + Event" where
  "Normalize lb e =
    rbind (normalizeMap lb (e_BeforeSummary e)) (\<lambda>before.
    rbind (normalizeMap lb (e_AfterSummary e)) (\<lambda>after.
    rbind (normalizeMap lb (ConnectorRequestSummary e)) (\<lambda>creq.
    rbind (normalizeMap lb (ConnectorResponseSummary e)) (\<lambda>cresp.
      Inr (e\<lparr>e_BeforeSummary := before, e_AfterSummary := after, ConnectorRequestSummary := creq,
             ConnectorResponseSummary := cresp, e_OccurredAt := e_OccurredAt e - e_OccurredAt e mod 1000\<rparr>)))))"

section \<open>The chain (store.go)\<close>

record ChainRoot =
  cr_ID :: uuid
  ComputedAt :: time
  FromSequence :: int64
  ToSequence :: int64
  RootHash :: string
  Signature :: string
  KeyID :: string

record AuditDB =
  chain :: "Event list"
  chain_roots :: "ChainRoot list"

text \<open>The table's checks; hashes are 64 hexadecimal digits.\<close>

definition hash_format :: "string \<Rightarrow> bool" where
  "hash_format s \<longleftrightarrow> length s = 64 \<and> list_all (\<lambda>c. is_digit c \<or> c \<in> set ''abcdef'') s"

definition event_check :: "Event \<Rightarrow> bool" where
  "event_check e \<longleftrightarrow> 1 \<le> Sequence e \<and> e_PrincipalType e \<in> set [''HUMAN'', ''SERVICE'', ''AI'', ''SERVER_AGENT'']
     \<and> e_Result e \<in> set [ResultSucceeded, ResultFailed] \<and> hash_format (EventHash e) \<and> hash_format (PrevHash e)"

definition by_sequence :: "AuditDB \<Rightarrow> Event list" where
  "by_sequence db = sort_key Sequence (chain db)"

definition Tip :: "AuditDB \<Rightarrow> int64 \<times> string" where
  "Tip db = (if chain db = [] then (0, GenesisHash) else let e = last (by_sequence db) in (Sequence e, EventHash e))"

text \<open>What a summary column gives back.\<close>

definition stored_map :: "audit_lib \<Rightarrow> json_object \<Rightarrow> audit_error + json_object" where
  "stored_map lb m = (if m = [] then Inr [] else case lb_stored lb m of None \<Rightarrow> Inl ErrMarshal | Some n \<Rightarrow> Inr n)"

definition stored_event :: "audit_lib \<Rightarrow> Event \<Rightarrow> audit_error + Event" where
  "stored_event lb e =
    rbind (stored_map lb (e_BeforeSummary e)) (\<lambda>before.
    rbind (stored_map lb (e_AfterSummary e)) (\<lambda>after.
    rbind (stored_map lb (ConnectorRequestSummary e)) (\<lambda>creq.
    rbind (stored_map lb (ConnectorResponseSummary e)) (\<lambda>cresp.
      Inr (e\<lparr>e_BeforeSummary := before, e_AfterSummary := after, ConnectorRequestSummary := creq,
             ConnectorResponseSummary := cresp\<rparr>)))))"

definition InsertAuditEvent :: "Event \<Rightarrow> AuditDB \<Rightarrow> AuditDB \<times> (audit_error + Event)" where
  "InsertAuditEvent e db =
    (if \<not> event_check e \<or> e_ID e \<in> set (map e_ID (chain db)) \<or> Sequence e \<in> set (map Sequence (chain db))
        \<or> EventHash e \<in> set (map EventHash (chain db))
     then (db, Inl ErrChainDatabase) else (db\<lparr>chain := chain db @ [e]\<rparr>, Inr e))"

definition link_event :: "uuid \<Rightarrow> time \<Rightarrow> AuditDB \<Rightarrow> Event \<Rightarrow> Event" where
  "link_event newID now db e = (case Tip db of (prevSeq, prevHash) \<Rightarrow>
     e\<lparr>e_ID := (if e_ID e = 0 then newID else e_ID e),
       e_OccurredAt := (if e_OccurredAt e = 0 then now else e_OccurredAt e),
       Sequence := wrap64 (prevSeq + 1), PrevHash := prevHash, RecordedAt := now\<rparr>)"

definition Append :: "audit_lib \<Rightarrow> uuid \<Rightarrow> time \<Rightarrow> Event \<Rightarrow> AuditDB \<Rightarrow> AuditDB \<times> (audit_error + Event)" where
  "Append lb newID now e db =
    (case rbind (Normalize lb (link_event newID now db e)) (\<lambda>e. let e = e\<lparr>CanonicalVersion := CurrentCanonicalVersion\<rparr> in
        rbind (ComputeHash lb e) (\<lambda>h. stored_event lb (e\<lparr>EventHash := h\<rparr>))) of
       Inl err \<Rightarrow> (db, Inl err)
     | Inr e \<Rightarrow> InsertAuditEvent e db)"

definition List_events :: "int64 \<Rightarrow> int64 \<Rightarrow> AuditDB \<Rightarrow> Event list" where
  "List_events from to db = sort_key Sequence (filter (\<lambda>e. from \<le> Sequence e \<and> Sequence e \<le> to) (chain db))"

definition ListRecent_events :: "string \<Rightarrow> int64 \<Rightarrow> int \<Rightarrow> AuditDB \<Rightarrow> Event list" where
  "ListRecent_events environment beforeSeq rowLimit db =
    (let rowLimit = (if rowLimit \<le> 0 then 50 else rowLimit); rowLimit = (if rowLimit > 100 then 100 else rowLimit);
         before = (if beforeSeq < 0 then 0 else beforeSeq)
     in map (\<lambda>e. e\<lparr>ConnectorRequestSummary := [], ConnectorResponseSummary := []\<rparr>) (take (nat rowLimit)
          (rev (sort_key Sequence (filter (\<lambda>e. e_Environment e = environment \<and> (before = 0 \<or> Sequence e < before)) (chain db))))))"

definition GetByActionRunID :: "uuid \<Rightarrow> AuditDB \<Rightarrow> Event option" where
  "GetByActionRunID runID db = (case sort_key Sequence (filter (\<lambda>e. e_ActionRunID e = runID) (chain db)) of
     [] \<Rightarrow> None | e # _ \<Rightarrow> Some (e\<lparr>ConnectorRequestSummary := [], ConnectorResponseSummary := []\<rparr>))"

section \<open>Verification\<close>

datatype problem_kind = HashMismatch | BrokenLink | SequenceGap

type_synonym ChainProblem = "int64 \<times> problem_kind"

text \<open>The loop ends in a problem or with the sequence number it expects next.\<close>

fun verify_loop :: "audit_lib \<Rightarrow> int64 \<Rightarrow> string \<Rightarrow> Event list \<Rightarrow> audit_error + (ChainProblem + int64)" where
  "verify_loop lb expectedSeq prevHash [] = Inr (Inr expectedSeq)"
| "verify_loop lb expectedSeq prevHash (e # es) =
    (if Sequence e \<noteq> expectedSeq then Inr (Inl (expectedSeq, SequenceGap))
     else if PrevHash e \<noteq> prevHash then Inr (Inl (Sequence e, BrokenLink))
     else rbind (ComputeHash lb e) (\<lambda>computed.
       if computed \<noteq> EventHash e then Inr (Inl (Sequence e, HashMismatch))
       else verify_loop lb (wrap64 (expectedSeq + 1)) (EventHash e) es))"

definition VerifyChain :: "audit_lib \<Rightarrow> int64 \<Rightarrow> int64 \<Rightarrow> AuditDB \<Rightarrow> audit_error + ChainProblem option" where
  "VerifyChain lb from to db =
    (case List_events (if from < 1 then 1 else from) to db of
       [] \<Rightarrow> Inr None
     | e # es \<Rightarrow>
       if Sequence e = 1 \<and> PrevHash e \<noteq> GenesisHash then Inr (Some (1, BrokenLink))
       else rbind (verify_loop lb (Sequence e) (PrevHash e) (e # es)) (\<lambda>r. case r of
           Inl p \<Rightarrow> Inr (Some p)
         | Inr expectedSeq \<Rightarrow>
           if to \<ge> expectedSeq \<and> fst (Tip db) \<ge> expectedSeq then Inr (Some (expectedSeq, SequenceGap))
           else Inr None))"

section \<open>Signed roots (anchor.go)\<close>

definition SigningPayload :: "audit_lib \<Rightarrow> ChainRoot \<Rightarrow> string" where
  "SigningPayload lb r = ''xm-audit-root'' @ newline @ ''from='' @ int_text (FromSequence r) @ newline @ ''to='' @ int_text (ToSequence r)
     @ newline @ ''root='' @ RootHash r @ newline @ ''computed_at='' @ lb_time lb (ComputedAt r) @ newline"

definition VerifyRoot :: "audit_lib \<Rightarrow> (string \<Rightarrow> string \<Rightarrow> bool) \<Rightarrow> ChainRoot \<Rightarrow> audit_error + unit" where
  "VerifyRoot lb ed25519_verify r = (case lb_base64_decode lb (Signature r) of None \<Rightarrow> Inl ErrBadSignature
     | Some sig \<Rightarrow> if \<not> ed25519_verify (SigningPayload lb r) sig then Inl ErrBadSignature else Inr ())"

definition LatestRoot :: "AuditDB \<Rightarrow> ChainRoot option" where
  "LatestRoot db = (if chain_roots db = [] then None else Some (last (sort_key ToSequence (chain_roots db))))"

definition root_check :: "ChainRoot \<Rightarrow> bool" where
  "root_check r \<longleftrightarrow> FromSequence r \<le> ToSequence r \<and> hash_format (RootHash r)"

text \<open>Tip, latest root, verification and insertion are statements of their own; \<open>other\<close> is what other
  processes do before the verification.\<close>

definition ComputeAndSignRoot :: "audit_lib \<Rightarrow> (AuditDB \<Rightarrow> AuditDB) \<Rightarrow> string \<Rightarrow> (string \<Rightarrow> string) \<Rightarrow> uuid \<Rightarrow> time \<Rightarrow> AuditDB
  \<Rightarrow> AuditDB \<times> (audit_error + ChainRoot)" where
  "ComputeAndSignRoot lb other keyID sign newID now db =
    (case Tip db of (tipSeq, tipHash) \<Rightarrow>
     if tipSeq = 0 then (db, Inl ErrEmptyChain)
     else let from = (case LatestRoot db of None \<Rightarrow> 1 | Some r \<Rightarrow> wrap64 (ToSequence r + 1)) in
       if LatestRoot db \<noteq> None \<and> from > tipSeq then (db, Inl ErrNothingNew)
       else let db = other db in
         case VerifyChain lb 1 tipSeq db of Inl err \<Rightarrow> (db, Inl err)
         | Inr (Some p) \<Rightarrow> (db, Inl ErrBrokenChain)
         | Inr None \<Rightarrow>
           let r = \<lparr>cr_ID = newID, ComputedAt = now - now mod 1000, FromSequence = from, ToSequence = tipSeq, RootHash = tipHash,
                 Signature = [], KeyID = keyID\<rparr>;
               r = r\<lparr>Signature := lb_base64 lb (sign (SigningPayload lb r))\<rparr>
           in if \<not> root_check r \<or> cr_ID r \<in> set (map cr_ID (chain_roots db)) \<or> ToSequence r \<in> set (map ToSequence (chain_roots db))
              then (db, Inl ErrChainDatabase)
              else (db\<lparr>chain_roots := chain_roots db @ [r]\<rparr>, Inr r))"

section \<open>Redaction (redact.go)\<close>

definition redactedPlaceholder :: string where "redactedPlaceholder = ''[REDACTED]''"

definition defaultSensitiveKeys :: "string list" where
  "defaultSensitiveKeys = [''password'', ''secret'', ''token'', ''credential'', ''api_key'', ''apikey'', ''authorization'',
     ''cookie'', ''dsn'', ''private_key'', ''passphrase'']"

fun redactValue :: "(string \<Rightarrow> bool) \<Rightarrow> json \<Rightarrow> json" where
  "redactValue match (JObject m) =
     JObject (map (\<lambda>(k, v). (k, if match k then JString redactedPlaceholder else redactValue match v)) m)"
| "redactValue match (JArray xs) = JArray (map (redactValue match) xs)"
| "redactValue match v = v"

definition redactWith :: "(string \<Rightarrow> bool) \<Rightarrow> json_object \<Rightarrow> json_object" where
  "redactWith match m = map (\<lambda>(k, v). (k, if match k then JString redactedPlaceholder else redactValue match v)) m"

fun contains :: "string \<Rightarrow> string \<Rightarrow> bool" where
  "contains s t = (take (length t) s = t \<or> (case s of [] \<Rightarrow> False | _ # s' \<Rightarrow> contains s' t))"

definition sensitive :: "audit_lib \<Rightarrow> string \<Rightarrow> bool" where
  "sensitive lb key = list_ex (contains (lb_to_lower lb key)) defaultSensitiveKeys"

definition RedactDefault :: "audit_lib \<Rightarrow> json_object \<Rightarrow> json_object" where
  "RedactDefault lb m = redactWith (sensitive lb) m"

definition Redact :: "audit_lib \<Rightarrow> json_object \<Rightarrow> string list \<Rightarrow> json_object" where
  "Redact lb m keys = redactWith (\<lambda>key. lb_to_lower lb key \<in> set (map (lb_to_lower lb) keys)) m"

end
