(* ===== verification/Audit_Chain.thy ===== *)
theory Audit_Chain
  imports Audit_Log
begin

text \<open>
  What the audit chain guarantees: the canonical form of version 2 loses nothing, appending keeps
  the chain intact, verification accepts exactly the intact ranges, and two verified histories that
  end in one hash agree on every row. And what it does not: rows missing at the head of a range.
\<close>

section \<open>Canonical bytes\<close>

lemma sep_not_digit: "CHR '':'' \<notin> set (dec_string n)" "CHR ''-'' \<notin> set (dec_string n)" "CHR 0x0A \<notin> set (dec_string n)"
  using all_digits_dec_string [of n] by (auto simp: all_digits_def list_all_iff is_digit_def)

lemma int_text_inject: "int_text a = int_text b \<longleftrightarrow> a = b"
proof
  assume h: "int_text a = int_text b"
  have "\<not> (x < 0 \<and> 0 \<le> y)" if t: "int_text x = int_text y" for x y
    using t sep_not_digit(2) [of "nat y"] by (auto simp: int_text_def) (metis list.set_intros(1))
  then have "a < 0 \<longleftrightarrow> b < 0" using h by (metis not_less)
  then show "a = b" using h by (auto simp: int_text_def dec_string_inject split: if_splits)
qed simp

lemma lines_v2_inject:
  "map fst fs = map fst gs \<Longrightarrow> concat (map line_v2 fs) = concat (map line_v2 gs) \<Longrightarrow> fs = gs"
proof (induction fs arbitrary: gs)
  case (Cons f fs)
  then obtain g gs' where gs: "gs = g # gs'" "fst f = fst g" "map fst fs = map fst gs'" by (cases gs) auto
  have "line_v2 f @ concat (map line_v2 fs) = line_v2 g @ concat (map line_v2 gs')"
    using Cons.prems(2) by (simp add: gs(1))
  then have "dec_string (length (snd f)) @ CHR '':'' # (snd f @ newline @ concat (map line_v2 fs))
      = dec_string (length (snd g)) @ CHR '':'' # (snd g @ newline @ concat (map line_v2 gs'))"
    by (simp add: line_v2_def [of f] line_v2_def [of g] gs(2))
  then have e: "dec_string (length (snd f)) = dec_string (length (snd g))"
    "snd f @ newline @ concat (map line_v2 fs) = snd g @ newline @ concat (map line_v2 gs')"
    using append_sep [OF sep_not_digit(1) sep_not_digit(1)] by blast+
  then have "length (snd f) = length (snd g)" by (simp add: dec_string_inject)
  then have "snd f = snd g" "concat (map line_v2 fs) = concat (map line_v2 gs')" using e(2) by auto
  then show ?case using Cons.IH [OF gs(3)] gs by (simp add: prod_eq_iff)
qed simp

text \<open>What the canonical fields of an event determine.\<close>

lemma canonicalFields_names:
  "canonicalFields lb e = Inr fs \<Longrightarrow> canonicalFields lb e' = Inr fs' \<Longrightarrow> map fst fs = map fst fs'"
  by (auto simp: canonicalFields_def result_simps)

lemma canonicalFields_values:
  assumes "canonicalFields lb e = Inr fs" "canonicalFields lb e' = Inr fs"
  shows "Sequence e = Sequence e' \<and> PrevHash e = PrevHash e' \<and> e_PrincipalID e = e_PrincipalID e'
    \<and> e_PrincipalType e = e_PrincipalType e' \<and> e_ActionID e = e_ActionID e' \<and> e_ActionVersion e = e_ActionVersion e'
    \<and> e_ResourceType e = e_ResourceType e' \<and> e_ResourceID e = e_ResourceID e' \<and> e_Environment e = e_Environment e'
    \<and> e_Reason e = e_Reason e' \<and> e_ApprovalID e = e_ApprovalID e' \<and> e_RequestID e = e_RequestID e'
    \<and> TraceID e = TraceID e' \<and> SourceIP e = SourceIP e' \<and> e_Result e = e_Result e'
    \<and> CompensationResult e = CompensationResult e' \<and> lb_uuid lb (e_ID e) = lb_uuid lb (e_ID e')
    \<and> lb_uuid lb (e_ActionRunID e) = lb_uuid lb (e_ActionRunID e') \<and> lb_time lb (e_OccurredAt e) = lb_time lb (e_OccurredAt e')
    \<and> canonicalJSON lb (e_BeforeSummary e) = canonicalJSON lb (e_BeforeSummary e')
    \<and> canonicalJSON lb (e_AfterSummary e) = canonicalJSON lb (e_AfterSummary e')"
  using assms by (auto simp: canonicalFields_def result_simps int_text_inject)

lemma canonicalFields_head: "canonicalFields lb e = Inr fs \<Longrightarrow> \<exists>gs. fs = (''id'', lb_uuid lb (e_ID e)) # gs"
  by (auto simp: canonicalFields_def rbind_eq_Inr)

lemma canonicalV2_fields:
  assumes "canonicalV2 lb e = Inr c" "canonicalV2 lb e' = Inr c"
  shows "\<exists>fs. canonicalFields lb e = Inr fs \<and> canonicalFields lb e' = Inr fs"
proof -
  obtain fs fs' where f: "canonicalFields lb e = Inr fs" "canonicalFields lb e' = Inr fs'"
    "concat (map line_v2 fs) = concat (map line_v2 fs')"
    using assms by (auto simp: canonicalV2_def result_simps)
  then have "fs = fs'" using lines_v2_inject canonicalFields_names by blast
  then show ?thesis using f by simp
qed

text \<open>
  C36. The canonical bytes of version 2 determine everything they are computed from: the identifiers'
  and the time's texts, every text field, the sequence number, the previous hash and the canonical
  form of all four summaries.
\<close>
theorem canonicalV2_injective:
  assumes "canonicalV2 lb e = Inr c" "canonicalV2 lb e' = Inr c"
  shows "canonicalFields lb e = canonicalFields lb e' \<and> Sequence e = Sequence e' \<and> PrevHash e = PrevHash e'
    \<and> e_PrincipalID e = e_PrincipalID e' \<and> e_PrincipalType e = e_PrincipalType e' \<and> e_ActionID e = e_ActionID e'
    \<and> e_ActionVersion e = e_ActionVersion e' \<and> e_ResourceType e = e_ResourceType e' \<and> e_ResourceID e = e_ResourceID e'
    \<and> e_Environment e = e_Environment e' \<and> e_Reason e = e_Reason e' \<and> e_ApprovalID e = e_ApprovalID e'
    \<and> e_RequestID e = e_RequestID e' \<and> TraceID e = TraceID e' \<and> SourceIP e = SourceIP e' \<and> e_Result e = e_Result e'
    \<and> CompensationResult e = CompensationResult e' \<and> lb_uuid lb (e_ID e) = lb_uuid lb (e_ID e')
    \<and> lb_uuid lb (e_ActionRunID e) = lb_uuid lb (e_ActionRunID e') \<and> lb_time lb (e_OccurredAt e) = lb_time lb (e_OccurredAt e')"
proof -
  obtain fs where "canonicalFields lb e = Inr fs" "canonicalFields lb e' = Inr fs" using canonicalV2_fields [OF assms] by blast
  then show ?thesis using canonicalFields_values by metis
qed

definition sample_lib :: audit_lib where
  "sample_lib = \<lparr>lb_marshal_key = (\<lambda>k. k), lb_marshal_value = (\<lambda>v. Some ''v''), lb_normalize = Some, lb_stored = Some,
     lb_sha256_hex = (\<lambda>s. replicate 64 (if take 12 (drop 7 s) = ''sequence=1:1'' then CHR ''a'' else CHR ''b'')),
     lb_uuid = (\<lambda>u. ''u''), lb_time = (\<lambda>t. ''t''), lb_base64 = (\<lambda>s. s), lb_base64_decode = Some, lb_to_lower = (\<lambda>s. s)\<rparr>"

definition sample_event :: Event where
  "sample_event = \<lparr>e_ID = 7, Sequence = 1, e_OccurredAt = 5, RecordedAt = 5, e_PrincipalID = ''p'', e_PrincipalType = ''HUMAN'',
     e_ActionID = ''a'', e_ActionVersion = ''1'', e_ActionRunID = 9, e_ResourceType = [], e_ResourceID = [], e_Environment = ''prod'',
     e_Reason = ''why'', e_ApprovalID = [], e_RequestID = [], TraceID = [], SourceIP = [], e_BeforeSummary = [], e_AfterSummary = [],
     ConnectorRequestSummary = [], ConnectorResponseSummary = [], e_Result = ''succeeded'', CompensationResult = [],
     PrevHash = GenesisHash, EventHash = replicate 64 (CHR ''a''), CanonicalVersion = 2\<rparr>"

theorem canonicalV2_injective_witness:
  "canonicalFields sample_lib sample_event = canonicalFields sample_lib (sample_event\<lparr>EventHash := []\<rparr>)"
proof -
  have "canonicalV2 sample_lib (sample_event\<lparr>EventHash := []\<rparr>) = canonicalV2 sample_lib sample_event"
    by (simp add: canonicalV2_def canonicalFields_def)
  moreover obtain c where "canonicalV2 sample_lib sample_event = Inr c"
    by (auto simp: canonicalV2_def canonicalFields_def canonicalJSON_def sample_event_def)
  ultimately show ?thesis using canonicalV2_injective [of sample_lib sample_event c "sample_event\<lparr>EventHash := []\<rparr>"] by simp
qed

text \<open>Version 1 does lose: a line break in one field moves text into the next.\<close>

lemma canonicalV1_ambiguous:
  "canonicalV1 lb (sample_event\<lparr>e_Reason := ''x'' @ newline @ ''approval_id=y'', e_ApprovalID := ''z''\<rparr>) \<noteq> Inl ErrMarshal
   \<and> canonicalV1 lb (sample_event\<lparr>e_Reason := ''x'', e_ApprovalID := ''y'' @ newline @ ''approval_id=z''\<rparr>)
     = canonicalV1 lb (sample_event\<lparr>e_Reason := ''x'' @ newline @ ''approval_id=y'', e_ApprovalID := ''z''\<rparr>)"
  by (simp add: canonicalV1_def canonicalFields_def canonicalJSON_def sample_event_def line_v1_def)

text \<open>The example in the comment on \<open>canonicalV1\<close> is not one of these pairs: its bytes differ.\<close>

lemma canonicalV1_comment_example:
  "canonicalV1 lb (sample_event\<lparr>e_Reason := ''x'' @ newline @ ''approval_id=APR-1'', e_ApprovalID := []\<rparr>)
   \<noteq> canonicalV1 lb (sample_event\<lparr>e_Reason := ''x'', e_ApprovalID := ''APR-1''\<rparr>)"
  by (simp add: canonicalV1_def canonicalFields_def canonicalJSON_def sample_event_def line_v1_def)

text \<open>Bytes of version 1 are never bytes of version 2, because the text of an identifier has no colon.\<close>

lemma versions_disjoint:
  assumes "\<And>u. CHR '':'' \<notin> set (lb_uuid lb u)" "canonicalV1 lb e = Inr c" "canonicalV2 lb e' = Inr c'"
  shows "c \<noteq> c'"
proof
  assume eq: "c = c'"
  obtain fs where f: "canonicalFields lb e = Inr fs" "c = concat (map line_v1 fs)"
    using assms(2) by (auto simp: canonicalV1_def rbind_eq_Inr)
  obtain fs' where f': "canonicalFields lb e' = Inr fs'" "c' = concat (map line_v2 fs')"
    using assms(3) by (auto simp: canonicalV2_def rbind_eq_Inr)
  obtain gs gs' where g: "fs = (''id'', lb_uuid lb (e_ID e)) # gs" "fs' = (''id'', lb_uuid lb (e_ID e')) # gs'"
    using canonicalFields_head [OF f(1)] canonicalFields_head [OF f'(1)] by blast
  define r r' where "r = concat (map line_v1 gs)" and "r' = lb_uuid lb (e_ID e') @ newline @ concat (map line_v2 gs')"
  have c: "c = ''id='' @ lb_uuid lb (e_ID e) @ CHR 0x0A # r"
    by (simp add: f(2) g(1) line_v1_def r_def)
  have c': "c' = ''id='' @ dec_string (length (lb_uuid lb (e_ID e'))) @ CHR '':'' # r'"
    by (simp add: f'(2) g(2) line_v2_def r'_def)
  let ?u = "lb_uuid lb (e_ID e)" and ?d = "dec_string (length (lb_uuid lb (e_ID e')))"
  have e: "?u @ CHR 0x0A # r = ?d @ CHR '':'' # r'" using eq c c' by simp
  obtain us where "?u = ?d @ us \<and> us @ CHR 0x0A # r = CHR '':'' # r' \<or> ?u @ us = ?d \<and> CHR 0x0A # r = us @ CHR '':'' # r'"
    using e [unfolded append_eq_append_conv2] by (elim exE) (rule that)
  then show False
  proof
    assume s: "?u = ?d @ us \<and> us @ CHR 0x0A # r = CHR '':'' # r'"
    have "CHR '':'' \<notin> set us" using assms(1) [of "e_ID e"] s [THEN conjunct1] by simp
    then show False using s [THEN conjunct2] by (cases us) simp_all
  next
    assume s: "?u @ us = ?d \<and> CHR 0x0A # r = us @ CHR '':'' # r'"
    have "CHR 0x0A \<notin> set us" using sep_not_digit(3) [of "length (lb_uuid lb (e_ID e'))"] s [THEN conjunct1, symmetric] by simp
    then show False using s [THEN conjunct2] by (cases us) simp_all
  qed
qed

section \<open>Intact chains\<close>

fun linked :: "audit_lib \<Rightarrow> int64 \<Rightarrow> string \<Rightarrow> Event list \<Rightarrow> bool" where
  "linked lb n h [] \<longleftrightarrow> True"
| "linked lb n h (e # es) \<longleftrightarrow> Sequence e = n \<and> PrevHash e = h \<and> ComputeHash lb e = Inr (EventHash e) \<and> linked lb (n + 1) (EventHash e) es"

definition tip_hash :: "string \<Rightarrow> Event list \<Rightarrow> string" where
  "tip_hash h es = (if es = [] then h else EventHash (last es))"

lemma linked_snoc:
  "linked lb n h (es @ [e]) \<longleftrightarrow> linked lb n h es \<and> Sequence e = n + int (length es) \<and> PrevHash e = tip_hash h es
     \<and> ComputeHash lb e = Inr (EventHash e)"
  by (induction es arbitrary: n h) (auto simp: tip_hash_def)

lemma linked_sequences: "linked lb n h es \<Longrightarrow> i < length es \<Longrightarrow> Sequence (es ! i) = n + int i"
  by (induction es arbitrary: n h i) (auto simp: nth_Cons split: nat.splits)

definition chain_ok :: "audit_lib \<Rightarrow> AuditDB \<Rightarrow> bool" where
  "chain_ok lb db \<longleftrightarrow> linked lb 1 GenesisHash (by_sequence db)"

text \<open>The table's constraints, with room above the last sequence number.\<close>

definition table_ok :: "AuditDB \<Rightarrow> bool" where
  "table_ok db \<longleftrightarrow> distinct (map Sequence (chain db)) \<and> (\<forall>e \<in> set (chain db). 1 \<le> Sequence e \<and> Sequence e < max_int64)"

lemma insort_key_snoc: "f a < f x \<Longrightarrow> insort_key f a (ys @ [x]) = insort_key f a ys @ [x]"
  by (induction ys) auto

lemma sort_key_snoc: "\<forall>y \<in> set xs. f y < f x \<Longrightarrow> sort_key f (xs @ [x]) = sort_key f xs @ [x]"
  by (induction xs) (auto simp: insort_key_snoc)

lemma by_sequence_set [simp]: "set (by_sequence db) = set (chain db)" "length (by_sequence db) = length (chain db)"
  by (simp_all add: by_sequence_def)

lemma chain_ok_tip:
  assumes "chain_ok lb db"
  shows "Tip db = (int (length (chain db)), tip_hash GenesisHash (by_sequence db))"
    "e \<in> set (chain db) \<Longrightarrow> Sequence e \<le> int (length (chain db))"
proof -
  let ?es = "by_sequence db"
  show "Tip db = (int (length (chain db)), tip_hash GenesisHash ?es)"
  proof (cases "chain db = []")
    case True
    then show ?thesis by (simp add: Tip_def tip_hash_def by_sequence_def)
  next
    case False
    then have ne: "?es \<noteq> []" by (metis by_sequence_set(2) length_0_conv)
    have "Sequence (last ?es) = int (length (chain db))"
      using linked_sequences [OF assms [unfolded chain_ok_def], of "length (chain db) - 1"] False
      by (simp add: last_conv_nth [OF ne] of_nat_diff Suc_le_eq)
    then show ?thesis using False ne by (simp add: Tip_def tip_hash_def Let_def)
  qed
  show "Sequence e \<le> int (length (chain db))" if "e \<in> set (chain db)"
  proof -
    have "e \<in> set ?es" using that by simp
    then obtain i where "i < length (chain db)" "e = ?es ! i" unfolding in_set_conv_nth by auto
    then show ?thesis using linked_sequences [OF assms [unfolded chain_ok_def], of i] by simp
  qed
qed


section \<open>Appending\<close>

lemma normalized_stored:
  assumes "\<And>m n. lb_normalize lb m = Some n \<Longrightarrow> lb_stored lb n = Some n" "normalizeMap lb m = Inr n"
  shows "stored_map lb n = Inr n"
  using assms by (auto simp: normalizeMap_def stored_map_def split: if_splits option.splits)

lemma Normalize_fields:
  assumes "Normalize lb e = Inr n"
  shows "normalizeMap lb (e_BeforeSummary e) = Inr (e_BeforeSummary n)" "normalizeMap lb (e_AfterSummary e) = Inr (e_AfterSummary n)"
    "normalizeMap lb (ConnectorRequestSummary e) = Inr (ConnectorRequestSummary n)"
    "normalizeMap lb (ConnectorResponseSummary e) = Inr (ConnectorResponseSummary n)"
    "Sequence n = Sequence e" "PrevHash n = PrevHash e"
  using assms by (auto simp: Normalize_def rbind_eq_Inr)

text \<open>A normalised event is stored as it is.\<close>

lemma stored_as_is:
  assumes "\<And>m n. lb_normalize lb m = Some n \<Longrightarrow> lb_stored lb n = Some n" "Normalize lb e = Inr n"
  shows "stored_event lb (n\<lparr>CanonicalVersion := v, EventHash := h\<rparr>) = Inr (n\<lparr>CanonicalVersion := v, EventHash := h\<rparr>)"
  using normalized_stored [OF assms(1) Normalize_fields(1) [OF assms(2)]] normalized_stored [OF assms(1) Normalize_fields(2) [OF assms(2)]]
    normalized_stored [OF assms(1) Normalize_fields(3) [OF assms(2)]] normalized_stored [OF assms(1) Normalize_fields(4) [OF assms(2)]]
  by (simp add: stored_event_def)

lemma ComputeHash_ignores: "ComputeHash lb (e\<lparr>EventHash := h\<rparr>) = ComputeHash lb e"
  by (simp add: ComputeHash_def Canonical_def canonicalV1_def canonicalV2_def canonicalFields_def)

lemma Append_cases:
  assumes "\<And>m n. lb_normalize lb m = Some n \<Longrightarrow> lb_stored lb n = Some n"
  obtains (refused) err where "Append lb newID now e db = (db, Inl err)"
  | (linked) e' where "Append lb newID now e db = (db\<lparr>chain := chain db @ [e']\<rparr>, Inr e')" "event_check e'"
      "ComputeHash lb e' = Inr (EventHash e')" "Sequence e' = wrap64 (fst (Tip db) + 1)" "PrevHash e' = snd (Tip db)"
      "\<exists>n. Normalize lb (link_event newID now db e) = Inr n \<and> e' = n\<lparr>CanonicalVersion := CurrentCanonicalVersion, EventHash := EventHash e'\<rparr>"
proof (cases "Normalize lb (link_event newID now db e)")
  case (Inl err)
  then show ?thesis using refused by (simp add: Append_def)
next
  case (Inr n)
  let ?n = "n\<lparr>CanonicalVersion := CurrentCanonicalVersion\<rparr>"
  show ?thesis
  proof (cases "ComputeHash lb ?n")
    case (Inl err)
    then show ?thesis using refused Inr by (simp add: Append_def Let_def)
  next
    case h: (Inr h)
    let ?e = "n\<lparr>CanonicalVersion := CurrentCanonicalVersion, EventHash := h\<rparr>"
    have r: "Append lb newID now e db = InsertAuditEvent ?e db"
      using Inr h stored_as_is [OF assms Inr, of _ h] by (simp add: Append_def Let_def)
    have "ComputeHash lb ?e = Inr (EventHash ?e)" using h ComputeHash_ignores [of lb h ?n] by simp
    moreover have "Sequence ?e = wrap64 (fst (Tip db) + 1)" "PrevHash ?e = snd (Tip db)"
      using Normalize_fields(5,6) [OF Inr] by (simp_all add: link_event_def split: prod.splits)
    ultimately show ?thesis using refused linked [of ?e] r Inr by (simp add: InsertAuditEvent_def split: if_splits)
  qed
qed

lemma Normalize_link:
  assumes "Normalize lb (link_event newID now db e) = Inr n"
  shows "normalizeMap lb (e_BeforeSummary e) = Inr (e_BeforeSummary n)" "normalizeMap lb (e_AfterSummary e) = Inr (e_AfterSummary n)"
    "normalizeMap lb (ConnectorRequestSummary e) = Inr (ConnectorRequestSummary n)"
    "normalizeMap lb (ConnectorResponseSummary e) = Inr (ConnectorResponseSummary n)"
    "e_Result n = e_Result e" "CompensationResult n = CompensationResult e" "e_ActionRunID n = e_ActionRunID e"
    "e_PrincipalID n = e_PrincipalID e" "e_PrincipalType n = e_PrincipalType e"
  using assms by (auto simp: Normalize_def link_event_def rbind_eq_Inr split: prod.splits)

lemma chain_ok_snoc:
  assumes "chain_ok lb db" "int (length (chain db)) < max_int64"
    "ComputeHash lb e' = Inr (EventHash e')" "Sequence e' = wrap64 (fst (Tip db) + 1)" "PrevHash e' = snd (Tip db)"
  shows "chain_ok lb (db\<lparr>chain := chain db @ [e']\<rparr>) \<and> Sequence e' = int (length (chain db)) + 1"
proof -
  have s: "Sequence e' = int (length (chain db)) + 1"
    using assms(4) chain_ok_tip(1) [OF assms(1)] assms(2) by (simp add: int64_defs)
  have "by_sequence (db\<lparr>chain := chain db @ [e']\<rparr>) = by_sequence db @ [e']"
    using chain_ok_tip(2) [OF assms(1)] s by (auto simp: by_sequence_def intro!: sort_key_snoc)
  then show ?thesis
    using assms(1,3,5) s chain_ok_tip(1) [OF assms(1)] by (simp add: chain_ok_def linked_snoc)
qed


definition sample_db :: AuditDB where
  "sample_db = \<lparr>chain = [sample_event], chain_roots = []\<rparr>"


section \<open>Verifying\<close>

text \<open>The loop reaches its end exactly on linked rows; below the largest integer it never wraps.\<close>

lemma verify_loop_done:
  "\<forall>e \<in> set es. Sequence e < max_int64 \<Longrightarrow> 1 \<le> n \<Longrightarrow>
   verify_loop lb n h es = Inr (Inr k) \<longleftrightarrow> linked lb n h es \<and> k = n + int (length es)"
proof (induction es arbitrary: n h)
  case (Cons e es)
  have "wrap64 (n + 1) = n + 1" if "Sequence e = n"
    using that Cons.prems by (simp add: int64_defs)
  then show ?case using Cons.IH [of "n + 1" "EventHash e"] Cons.prems
    by (auto simp: rbind_eq_Inr)
qed auto

lemma linked_last:
  assumes "linked lb n h es" "es \<noteq> []"
  shows "Sequence (last es) = n + int (length es) - 1"
  using linked_sequences [OF assms(1), of "length es - 1"] assms(2)
  by (simp add: last_conv_nth of_nat_diff Suc_le_eq)

definition range_ok :: "audit_lib \<Rightarrow> int64 \<Rightarrow> int64 \<Rightarrow> AuditDB \<Rightarrow> bool" where
  "range_ok lb from to db \<longleftrightarrow> (case List_events from to db of [] \<Rightarrow> True
     | e # es \<Rightarrow> (Sequence e = 1 \<longrightarrow> PrevHash e = GenesisHash) \<and> linked lb (Sequence e) (PrevHash e) (e # es)
         \<and> (to \<le> Sequence (last (e # es)) \<or> fst (Tip db) \<le> Sequence (last (e # es))))"

text \<open>
  C15. Verification reports no problem on exactly these ranges: the range has no rows at all, or its
  rows, in order, are numbered without a gap from the first row found, each carries the hash of the
  one before, each stored hash is the hash of the row, row number one carries the genesis hash, and
  no row is missing at the right end of the range. Nothing is asked of the left end.
\<close>
theorem verify_exact:
  assumes "table_ok db"
  shows "VerifyChain lb from to db = Inr None \<longleftrightarrow> range_ok lb (max 1 from) to db"
proof -
  have f: "(if from < 1 then 1 else from) = max 1 from" by simp
  show ?thesis
  proof (cases "List_events (max 1 from) to db")
    case Nil
    then show ?thesis by (simp add: VerifyChain_def range_ok_def f)
  next
    case (Cons e es)
    have "set (e # es) \<subseteq> set (chain db)" by (simp add: Cons [symmetric] List_events_def)
    then have b: "\<forall>x \<in> set (e # es). Sequence x < max_int64" "1 \<le> Sequence e"
      using assms by (auto simp: table_ok_def)
    note l = verify_loop_done [OF b, of lb "PrevHash e"]
    show ?thesis
    proof (cases "linked lb (Sequence e) (PrevHash e) (e # es)")
      case True
      then have "verify_loop lb (Sequence e) (PrevHash e) (e # es) = Inr (Inr (Sequence (last (e # es)) + 1))"
        using l linked_last [OF True] by simp
      then show ?thesis using True by (auto simp: VerifyChain_def range_ok_def f Cons simp del: verify_loop.simps)
    next
      case False
      then have "verify_loop lb (Sequence e) (PrevHash e) (e # es) \<noteq> Inr (Inr k)" for k using l by blast
      then show ?thesis using False
        by (auto simp: VerifyChain_def range_ok_def f Cons rbind_eq_Inr simp del: verify_loop.simps linked.simps split: sum.splits)
    qed
  qed
qed

definition tampered_db :: AuditDB where
  "tampered_db = \<lparr>chain = [sample_event, sample_event\<lparr>e_ID := 8, Sequence := 3, PrevHash := EventHash sample_event\<rparr>], chain_roots = []\<rparr>"

theorem verify_exact_witness:
  "VerifyChain sample_lib 0 9 sample_db = Inr None \<and> VerifyChain sample_lib 0 9 tampered_db \<noteq> Inr None"
proof -
  have "table_ok sample_db" "table_ok tampered_db"
    by (simp_all add: table_ok_def sample_db_def tampered_db_def sample_event_def int64_defs)
  moreover have "range_ok sample_lib (max 1 0) 9 sample_db" "\<not> range_ok sample_lib (max 1 0) 9 tampered_db" by code_simp+
  ultimately show ?thesis using verify_exact [of sample_db sample_lib 0 9] verify_exact [of tampered_db sample_lib 0 9] by simp
qed

text \<open>The two verdicts on a whole table: an intact chain is never reported, and a table that still holds
  row number one and is not reported up to its tip is an intact chain.\<close>

lemma list_events_all:
  assumes "\<forall>e \<in> set (chain db). from \<le> Sequence e \<and> Sequence e \<le> to"
  shows "List_events from to db = by_sequence db"
proof -
  have "filter (\<lambda>e. from \<le> Sequence e \<and> Sequence e \<le> to) (chain db) = chain db" using assms by (simp add: filter_id_conv)
  then show ?thesis by (simp add: List_events_def by_sequence_def)
qed

lemma sorted_key_hd: "x \<in> set xs \<Longrightarrow> f (hd (sort_key f xs)) \<le> f x"
proof -
  assume x: "x \<in> set xs"
  have "sorted (map f (sort_key f xs))" by simp
  moreover obtain y ys where y: "sort_key f xs = y # ys" using x by (cases "sort_key f xs") (metis empty_iff list.set(1) set_sort)
  moreover have "x \<in> set (sort_key f xs)" using x by simp
  ultimately show ?thesis by auto
qed

lemma tip_max:
  assumes "e \<in> set (chain db)"
  shows "Sequence e \<le> fst (Tip db)"
proof -
  have n: "by_sequence db \<noteq> []" using assms by (metis by_sequence_set(1) empty_iff list.set(1))
  have s: "sorted (map Sequence (by_sequence db))" by (simp add: by_sequence_def)
  have "e \<in> set (by_sequence db)" using assms by simp
  then obtain i where i: "i < length (by_sequence db)" "by_sequence db ! i = e" unfolding in_set_conv_nth by auto
  have "Sequence e \<le> Sequence (last (by_sequence db))"
    using sorted_nth_mono [OF s, of i "length (by_sequence db) - 1"] i n by (simp add: last_conv_nth)
  then show ?thesis using assms by (auto simp: Tip_def Let_def)
qed

lemma verified_chain:
  assumes "table_ok db" "VerifyChain lb 1 (fst (Tip db)) db = Inr None" "\<exists>e \<in> set (chain db). Sequence e = 1"
  shows "chain_ok lb db"
proof -
  obtain e1 where e1: "e1 \<in> set (chain db)" "Sequence e1 = 1" using assms(3) by blast
  have l: "List_events 1 (fst (Tip db)) db = by_sequence db"
    using assms(1) tip_max by (intro list_events_all) (auto simp: table_ok_def)
  obtain e es where e: "by_sequence db = e # es" using e1(1) by (cases "by_sequence db") (metis by_sequence_set(1) empty_iff list.set(1))
  have "e \<in> set (chain db)" using e by (metis by_sequence_set(1) list.set_intros(1))
  then have "1 \<le> Sequence e" using assms(1) by (auto simp: table_ok_def)
  moreover have "Sequence e \<le> 1" using sorted_key_hd [OF e1(1), of Sequence] e e1(2) by (simp add: by_sequence_def)
  ultimately have "Sequence e = 1" by simp
  then show ?thesis using verify_exact [OF assms(1), of lb 1 "fst (Tip db)"] assms(2)
    by (simp add: range_ok_def l e chain_ok_def)
qed

section \<open>Two verified histories\<close>

text \<open>Two rows with different bytes and one hash.\<close>

definition collision :: "audit_lib \<Rightarrow> Event \<Rightarrow> Event \<Rightarrow> bool" where
  "collision lb e f \<longleftrightarrow> (case (Canonical lb e, Canonical lb f) of
     (Inr c, Inr d) \<Rightarrow> c \<noteq> d \<and> lb_sha256_hex lb c = lb_sha256_hex lb d | _ \<Rightarrow> False)"

lemma same_hash_same_row:
  assumes "ComputeHash lb e = Inr h" "ComputeHash lb f = Inr h" "CanonicalVersion e = CanonicalV2" "\<not> collision lb e f"
    "\<And>u. CHR '':'' \<notin> set (lb_uuid lb u)"
  shows "canonicalFields lb e = canonicalFields lb f \<and> PrevHash e = PrevHash f"
proof -
  obtain c where c: "Canonical lb e = Inr c" "h = lb_sha256_hex lb c" using assms(1) by (auto simp: ComputeHash_def rbind_eq_Inr)
  obtain d where d: "Canonical lb f = Inr d" "h = lb_sha256_hex lb d" using assms(2) by (auto simp: ComputeHash_def rbind_eq_Inr)
  have "c = d" using assms(4) c d by (simp add: collision_def)
  moreover have e: "canonicalV2 lb e = Inr c" using c(1) assms(3) by (simp add: Canonical_def CanonicalV1_def CanonicalV2_def)
  moreover have "canonicalV1 lb f \<noteq> Inr c" using versions_disjoint [OF assms(5) _ e, of f c] by blast
  ultimately have "canonicalV2 lb f = Inr c" using d(1) by (auto simp: Canonical_def split: if_splits)
  then obtain fs where fs: "canonicalFields lb e = Inr fs" "canonicalFields lb f = Inr fs" using canonicalV2_fields [OF e] by blast
  then show ?thesis using canonicalFields_values [OF fs] by simp
qed

lemma same_tip_same_rows:
  assumes "\<And>u. CHR '':'' \<notin> set (lb_uuid lb u)"
  shows "linked lb m h es \<Longrightarrow> linked lb m k fs \<Longrightarrow> length es = length fs \<Longrightarrow> tip_hash h es = tip_hash k fs
    \<Longrightarrow> \<forall>e \<in> set es. CanonicalVersion e = CanonicalV2 \<Longrightarrow> \<forall>e \<in> set es. \<forall>f \<in> set fs. \<not> collision lb e f
    \<Longrightarrow> map (canonicalFields lb) es = map (canonicalFields lb) fs"
proof (induction es arbitrary: fs rule: rev_induct)
  case (snoc e es)
  obtain f fs' where f: "fs = fs' @ [f]" using snoc.prems(3) by (cases fs rule: rev_cases) auto
  have "ComputeHash lb e = Inr (EventHash e)" "ComputeHash lb f = Inr (EventHash e)"
    using snoc.prems(1,2,4) by (simp_all add: linked_snoc f tip_hash_def)
  then have r: "canonicalFields lb e = canonicalFields lb f" "PrevHash e = PrevHash f"
    using same_hash_same_row [of lb e _ f] assms snoc.prems(5,6) by (simp_all add: f)
  have "map (canonicalFields lb) es = map (canonicalFields lb) fs'"
    using snoc.prems r(2) by (intro snoc.IH) (simp_all add: linked_snoc f)
  then show ?case using r(1) f by simp
qed simp

lemma verified_range:
  assumes "table_ok db" "VerifyChain lb 1 n db = Inr None" "f \<in> set (chain db)" "Sequence f = 1"
    "e \<in> set (chain db)" "Sequence e = n"
  shows "linked lb 1 GenesisHash (List_events 1 n db) \<and> int (length (List_events 1 n db)) = n
    \<and> tip_hash GenesisHash (List_events 1 n db) = EventHash e"
proof -
  let ?es = "List_events 1 n db" and ?P = "\<lambda>e. 1 \<le> Sequence e \<and> Sequence e \<le> n"
  have n: "1 \<le> n" using assms(1,5,6) by (auto simp: table_ok_def)
  have f: "f \<in> set (filter ?P (chain db))" and e: "e \<in> set ?es"
    using assms(3-6) n by (simp_all add: List_events_def)
  obtain x xs where x: "?es = x # xs" using e by (cases ?es) simp_all
  have "x \<in> set ?es" using x by simp
  then have "1 \<le> Sequence x" by (simp add: List_events_def)
  moreover have "Sequence x \<le> 1" using sorted_key_hd [OF f, of Sequence] x assms(4) by (simp add: List_events_def)
  ultimately have "range_ok lb 1 n db \<Longrightarrow> linked lb 1 GenesisHash ?es" by (simp add: range_ok_def x)
  then have l: "linked lb 1 GenesisHash ?es" using verify_exact [OF assms(1), of lb 1 n] assms(2) by simp
  obtain i where i: "i < length ?es" "?es ! i = e" using e unfolding in_set_conv_nth by auto
  have s: "n = 1 + int i" using linked_sequences [OF l i(1)] i(2) assms(6) by simp
  have "last ?es \<in> set ?es" using x by simp
  then have "Sequence (last ?es) \<le> n" by (simp add: List_events_def)
  then have "int (length ?es) \<le> n" using linked_last [OF l] x by simp
  then have len: "length ?es = Suc i" using s i(1) by simp
  then have "last ?es = e" using i by (simp add: last_conv_nth [of ?es] x [symmetric]) (metis diff_Suc_1 last_conv_nth length_0_conv nat.distinct(1))
  then show ?thesis using l len s x by (simp add: tip_hash_def)
qed

text \<open>
  C12. A verified history is pinned by its last hash. Take two tables that both verify from row one to
  row n, and whose row n carries the same hash, the first one with rows of version 2 only: then the
  two tables agree, row by row from one to n, on everything that is canonicalised - or a row of the
  one and a row of the other are an explicit collision of SHA-256. The versions of the second table
  do not matter.
\<close>
theorem verified_history_pinned:
  assumes "\<And>u. CHR '':'' \<notin> set (lb_uuid lb u)" "\<forall>e \<in> set (chain db). CanonicalVersion e = CanonicalV2"
    and "table_ok db" "VerifyChain lb 1 n db = Inr None" "f \<in> set (chain db)" "Sequence f = 1"
    and "table_ok db'" "VerifyChain lb 1 n db' = Inr None" "f' \<in> set (chain db')" "Sequence f' = 1"
    and "e \<in> set (chain db)" "Sequence e = n" "e' \<in> set (chain db')" "Sequence e' = n" "EventHash e = EventHash e'"
  shows "map (canonicalFields lb) (List_events 1 n db) = map (canonicalFields lb) (List_events 1 n db')
    \<or> (\<exists>x \<in> set (chain db). \<exists>y \<in> set (chain db'). collision lb x y)"
proof (rule disjCI)
  assume n: "\<not> (\<exists>x \<in> set (chain db). \<exists>y \<in> set (chain db'). collision lb x y)"
  have s: "set (List_events 1 n d) \<subseteq> set (chain d)" for d by (auto simp: List_events_def)
  note r = verified_range [OF assms(3-6) assms(11,12)] verified_range [OF assms(7-10) assms(13,14)]
  show "map (canonicalFields lb) (List_events 1 n db) = map (canonicalFields lb) (List_events 1 n db')"
    using same_tip_same_rows [OF assms(1), of 1 GenesisHash "List_events 1 n db" GenesisHash "List_events 1 n db'"]
      r s [of db] s [of db'] n assms(2,15) by (metis nat_int subset_iff)
qed

theorem verified_history_pinned_witness:
  "canonicalFields sample_lib sample_event = canonicalFields sample_lib (sample_event\<lparr>RecordedAt := 99\<rparr>)"
proof -
  let ?e = "sample_event\<lparr>RecordedAt := 99\<rparr>" and ?db = "\<lparr>chain = [sample_event\<lparr>RecordedAt := 99\<rparr>], chain_roots = []\<rparr>"
  have t: "table_ok sample_db" "table_ok ?db" by (simp_all add: table_ok_def sample_db_def sample_event_def int64_defs)
  have v: "VerifyChain sample_lib 1 1 sample_db = Inr None" "VerifyChain sample_lib 1 1 ?db = Inr None" by code_simp+
  have l: "List_events 1 1 sample_db = [sample_event]" "List_events 1 1 ?db = [?e]"
    by (simp_all add: List_events_def sample_db_def sample_event_def)
  have c: "\<not> collision sample_lib sample_event ?e" by code_simp
  have m: "sample_event \<in> set (chain sample_db)" "Sequence sample_event = 1" "CanonicalVersion sample_event = CanonicalV2"
    by (simp_all add: sample_db_def sample_event_def CanonicalV2_def)
  have u: "CHR '':'' \<notin> set (lb_uuid sample_lib u)" for u by (simp add: sample_lib_def)
  have a: "\<forall>e \<in> set (chain sample_db). CanonicalVersion e = CanonicalV2" using m(3) by (simp add: sample_db_def)
  have "map (canonicalFields sample_lib) (List_events 1 1 sample_db) = map (canonicalFields sample_lib) (List_events 1 1 ?db)
    \<or> (\<exists>x \<in> set (chain sample_db). \<exists>y \<in> set (chain ?db). collision sample_lib x y)"
    by (rule verified_history_pinned [OF u a t(1) v(1) m(1,2) t(2) v(2), of ?e sample_event ?e])
      (simp_all add: m(1,2))
  then show ?thesis using c unfolding l by (simp add: sample_db_def)
qed

text \<open>Rows missing on the left are not missed: with row one deleted the table still verifies, and a root is signed over it.\<close>

lemma deleted_head_verifies:
  "let db = snd (Pair () \<lparr>chain = [sample_event\<lparr>Sequence := 2, PrevHash := replicate 64 (CHR ''a''), EventHash := replicate 64 (CHR ''b'')\<rparr>],
        chain_roots = []\<rparr>)
   in VerifyChain sample_lib 1 2 db = Inr None \<and> snd (ComputeAndSignRoot sample_lib (\<lambda>d. d) ''k'' (\<lambda>s. s) 3 4000 db) \<noteq> Inl err"
  by code_simp

end
