(* ===== verification/Audit_Sink.thy ===== *)
theory Audit_Sink
  imports Audit_Chain Kernel
begin

text \<open>
  The way from the action kernel into the chain (\<open>audit/actionsink.go\<close>), and what redaction
  guarantees on it. The kernel's summaries and the event's hold the same Go values, seen as \<open>any\<close>
  and as \<open>json\<close>; \<open>view\<close> is the passage between the two views.
\<close>

section \<open>Redacted values\<close>

fun clean :: "(string \<Rightarrow> bool) \<Rightarrow> json \<Rightarrow> bool" where
  "clean match (JObject m) \<longleftrightarrow> list_all (\<lambda>(k, v). if match k then v = JString redactedPlaceholder else clean match v) m"
| "clean match (JArray xs) \<longleftrightarrow> list_all (clean match) xs"
| "clean match v \<longleftrightarrow> True"

lemma redactValue_clean: "clean match (redactValue match v)"
  by (induction match v rule: redactValue.induct) (auto simp: list_all_iff)

lemma clean_redactValue: "clean match v \<Longrightarrow> redactValue match v = v"
  by (induction match v rule: clean.induct) (auto simp: list_all_iff intro!: map_idI split: if_splits)

lemma redactWith_object: "JObject (redactWith match m) = redactValue match (JObject m)"
  by (simp add: redactWith_def)

text \<open>
  Redaction is exactly the removal of sensitive values: in the result no key that matches keeps
  a value, at whatever depth of objects and lists, the keys and their order are those of the input,
  and an input that is already clean comes back unchanged - so redacting twice is redacting once.
\<close>
theorem redaction_exact:
  "clean match (JObject (redactWith match m)) \<and> map fst (redactWith match m) = map fst m
    \<and> (redactWith match m = m \<longleftrightarrow> clean match (JObject m))
    \<and> redactWith match (redactWith match m) = redactWith match m"
proof -
  have c: "clean match (JObject (redactWith match m))" unfolding redactWith_object by (rule redactValue_clean)
  have i: "redactWith match m = m" if "clean match (JObject m)" for m
    using clean_redactValue [OF that] by (simp add: redactWith_def)
  have "map fst (redactWith match m) = map fst m" by (auto simp: redactWith_def)
  then show ?thesis using c i [OF c] i [of m] by metis
qed

section \<open>The sink (actionsink.go)\<close>

fun error_code_text :: "Code \<Rightarrow> string" where
  "error_code_text CodeInvalidParams = ''INVALID_PARAMS''"
| "error_code_text CodePermissionDenied = ''PERMISSION_DENIED''"
| "error_code_text CodeEnvironmentMismatch = ''ENVIRONMENT_MISMATCH''"
| "error_code_text CodeConflict = ''CONFLICT''"
| "error_code_text CodePreconditionFailed = ''PRECONDITION_FAILED''"
| "error_code_text CodeNotRegistered = ''ACTION_NOT_REGISTERED''"
| "error_code_text CodePrincipalTypeNotAllowed = ''PRINCIPAL_TYPE_NOT_ALLOWED''"
| "error_code_text CodeAdvancedControlsRequired = ''ADVANCED_CONTROLS_REQUIRED''"
| "error_code_text CodeApprovalRequired = ''APPROVAL_REQUIRED''"
| "error_code_text CodeApprovalNotFound = ''APPROVAL_NOT_FOUND''"
| "error_code_text CodeExecutionFailed = ''EXECUTION_FAILED''"
| "error_code_text CodeRunwayConfigUnavailable = ''RUNWAY_CONFIG_UNAVAILABLE''"
| "error_code_text CodeRevisionConflict = ''REVISION_CONFLICT''"
| "error_code_text CodeInternal = ''INTERNAL''"

definition summary_object :: "(any \<Rightarrow> json) \<Rightarrow> params option \<Rightarrow> json_object" where
  "summary_object view ps = (case ps of None \<Rightarrow> [] | Some m \<Rightarrow> map (\<lambda>(k, v). (k, view v)) m)"

definition eventFromActionEvent :: "audit_lib \<Rightarrow> (any \<Rightarrow> json) \<Rightarrow> AuditEvent \<Rightarrow> Event" where
  "eventFromActionEvent lb view e =
    \<lparr>e_ID = 0, Sequence = 0, e_OccurredAt = OccurredAt e, RecordedAt = 0, e_PrincipalID = ev_PrincipalID e,
     e_PrincipalType = ev_PrincipalType e, e_ActionID = ev_ActionID e, e_ActionVersion = ev_ActionVersion e,
     e_ActionRunID = ev_ActionRunID e, e_ResourceType = ev_ResourceType e, e_ResourceID = ev_ResourceID e,
     e_Environment = ev_Environment e, e_Reason = ev_Reason e, e_ApprovalID = [], e_RequestID = ev_RequestID e, TraceID = [],
     SourceIP = [], e_BeforeSummary = RedactDefault lb (summary_object view (BeforeSummary e)),
     e_AfterSummary = RedactDefault lb (summary_object view (AfterSummary e)), ConnectorRequestSummary = [],
     ConnectorResponseSummary = [], e_Result = (if Succeeded e then ResultSucceeded else ResultFailed),
     CompensationResult = (case ev_ErrorCode e of Some c \<Rightarrow> if Succeeded e then [] else error_code_text c | None \<Rightarrow> []),
     PrevHash = [], EventHash = [], CanonicalVersion = 0\<rparr>"

definition ActionSink_Append :: "audit_lib \<Rightarrow> (any \<Rightarrow> json) \<Rightarrow> uuid \<Rightarrow> time \<Rightarrow> AuditEvent \<Rightarrow> AuditDB \<Rightarrow> AuditDB \<times> (audit_error + unit)" where
  "ActionSink_Append lb view newID now e db = (case Append lb newID now (eventFromActionEvent lb view e) db of
     (db', Inl err) \<Rightarrow> (db', Inl err) | (db', Inr _) \<Rightarrow> (db', Inr ()))"

definition clean_row :: "audit_lib \<Rightarrow> Event \<Rightarrow> bool" where
  "clean_row lb e \<longleftrightarrow> clean (sensitive lb) (JObject (e_BeforeSummary e)) \<and> clean (sensitive lb) (JObject (e_AfterSummary e))
     \<and> ConnectorRequestSummary e = [] \<and> ConnectorResponseSummary e = []"

lemma normalizeMap_clean:
  assumes "\<And>m n. lb_normalize lb m = Some n \<Longrightarrow> clean match (JObject m) \<Longrightarrow> clean match (JObject n)"
    "normalizeMap lb m = Inr n" "clean match (JObject m)"
  shows "clean match (JObject n)"
proof (cases "m = []")
  case True
  then show ?thesis using assms(2) by (simp add: normalizeMap_def)
next
  case False
  then have "lb_normalize lb m = Some n" using assms(2) by (simp add: normalizeMap_def split: option.splits)
  then show ?thesis using assms(1,3) by blast
qed


definition sample_action_event :: AuditEvent where
  "sample_action_event = \<lparr>OccurredAt = 5000, ev_PrincipalID = ''p'', ev_PrincipalType = ''AI'', ev_ActionID = ''a'', ev_ActionVersion = ''1'',
     ev_ActionRunID = 4, ev_ResourceType = [], ev_ResourceID = [], ev_Environment = ''prod'', ev_Reason = [], ev_RequestID = ''r'',
     BeforeSummary = Some [(''access_token'', VString ''abc'')], AfterSummary = None, Succeeded = False,
     ev_ErrorCode = Some CodeExecutionFailed\<rparr>"


end
