(* ===== verification/Publishing.thy ===== *)
theory Publishing
  imports Actions "HOL-Library.Product_Lexorder" "HOL-Library.List_Lexorder"
begin

text \<open>
  Content publishing (\<open>publishing/model.go\<close>, \<open>publishing/store_pg.go\<close>, \<open>publishing/service.go\<close>,
  \<open>publishing/deliver.go\<close>): channels, drafts with their immutable revisions, references to assets,
  and the records of publish requests. \<open>PubDB\<close> is the schema of migration 52 with its constraints;
  an operation of the store is one statement or one transaction, so one step, and what it refuses
  leaves the tables alone. \<open>env\<close> is the environment of the store, one of those registered.

  The collation of the database and its class of white space are parameters; strings are valid
  UTF-8 without the zero byte, which the driver would refuse. A \<open>*time.Time\<close> is an option.
\<close>

section \<open>The domain (model.go)\<close>

type_synonym Platform = string

definition AllPlatforms :: "Platform list" where
  "AllPlatforms = [''x'', ''telegram'', ''other'']"

datatype pub_error = PubInvalidInput | PubNotFound | PubConflict | PubChannelNotPublishable | PubOther

definition ParsePlatform :: "string \<Rightarrow> pub_error + Platform" where
  "ParsePlatform s = (if s \<in> set AllPlatforms then Inr s else Inl PubInvalidInput)"

abbreviation "ChannelActive \<equiv> ''ACTIVE''"
abbreviation "ChannelPaused \<equiv> ''PAUSED''"
abbreviation "ChannelRetired \<equiv> ''RETIRED''"

definition allChannelStatuses :: "string list" where
  "allChannelStatuses = [ChannelActive, ChannelPaused, ChannelRetired]"

definition ParseChannelStatus :: "string \<Rightarrow> pub_error + string" where
  "ParseChannelStatus s = (if s \<in> set allChannelStatuses then Inr s else Inl PubInvalidInput)"

abbreviation "DraftDraft \<equiv> ''DRAFT''"
abbreviation "DraftScheduled \<equiv> ''SCHEDULED''"
abbreviation "DraftArchived \<equiv> ''ARCHIVED''"

definition allAssetKinds :: "string list" where
  "allAssetKinds = [''image'', ''video'', ''link'']"

definition ParseAssetKind :: "string \<Rightarrow> pub_error + string" where
  "ParseAssetKind s = (if s \<in> set allAssetKinds then Inr s else Inl PubInvalidInput)"

abbreviation "ResultNotDelivered \<equiv> ''NOT_DELIVERED''"

record Channel =
  pc_ID :: uuid
  pc_Environment :: string
  pc_Platform :: Platform
  Handle :: string
  pc_DisplayName :: string
  Purpose :: string
  pc_CredentialRef :: string
  pc_Status :: string
  pc_Note :: string
  pc_CreatedBy :: string
  pc_CreatedAt :: time
  pc_UpdatedAt :: time

definition AcceptsContent :: "Channel \<Rightarrow> bool" where
  "AcceptsContent c \<longleftrightarrow> pc_Status c = ChannelActive"

record Draft =
  pd_ID :: uuid
  pd_Environment :: string
  pd_Title :: string
  Body :: string
  pd_ScheduledAt :: "time option"
  pd_Status :: string
  CurrentVersion :: int
  pd_CreatedBy :: string
  pd_CreatedAt :: time
  pd_UpdatedAt :: time
  AssetIDs :: "uuid list"

record Revision =
  pv_DraftID :: uuid
  pv_Version :: int
  pv_Title :: string
  pv_Body :: string
  pv_ScheduledAt :: "time option"
  pv_Note :: string
  pv_CreatedBy :: string
  pv_CreatedAt :: time

record Asset =
  pa_ID :: uuid
  pa_Environment :: string
  pa_Name :: string
  Kind :: string
  URI :: string
  pa_Note :: string
  pa_CreatedBy :: string
  pa_CreatedAt :: time
  pa_UpdatedAt :: time

record PublishRecord =
  pp_ID :: uuid
  pp_Environment :: string
  pp_DraftID :: uuid
  DraftVersion :: int
  pp_ChannelID :: uuid
  pp_ScheduledAt :: "time option"
  pp_RequestedBy :: string
  pp_Result :: string
  ExternalRef :: string
  pp_DeliveredAt :: "time option"
  Detail :: string
  pp_CreatedAt :: time

definition Delivered :: "PublishRecord \<Rightarrow> bool" where
  "Delivered r \<longleftrightarrow> pp_Result r \<noteq> ResultNotDelivered \<and> pp_DeliveredAt r \<noteq> None"

text \<open>The runes of a string: the bytes a well-formed sequence takes, one for a byte that begins none.\<close>

definition byte_in :: "nat \<Rightarrow> nat \<Rightarrow> char list \<Rightarrow> nat \<Rightarrow> bool" where
  "byte_in a b s i \<longleftrightarrow> i < length s \<and> a \<le> (of_char (s ! i) :: nat) \<and> (of_char (s ! i) :: nat) \<le> b"

definition rune_width :: "string \<Rightarrow> nat" where
  "rune_width s =
    (if byte_in 194 223 s 0 \<and> byte_in 128 191 s 1 then 2
     else if (byte_in 224 224 s 0 \<and> byte_in 160 191 s 1 \<or> byte_in 225 236 s 0 \<and> byte_in 128 191 s 1
         \<or> byte_in 237 237 s 0 \<and> byte_in 128 159 s 1 \<or> byte_in 238 239 s 0 \<and> byte_in 128 191 s 1) \<and> byte_in 128 191 s 2 then 3
     else if (byte_in 240 240 s 0 \<and> byte_in 144 191 s 1 \<or> byte_in 241 243 s 0 \<and> byte_in 128 191 s 1
         \<or> byte_in 244 244 s 0 \<and> byte_in 128 143 s 1) \<and> byte_in 128 191 s 2 \<and> byte_in 128 191 s 3 then 4
     else 1)"

lemma rune_width_pos: "0 < rune_width s"
  by (simp add: rune_width_def)

function rune_count :: "string \<Rightarrow> nat" where
  "rune_count s = (if s = [] then 0 else Suc (rune_count (drop (rune_width s) s)))"
  by pat_completeness auto
termination by (relation "measure length") (auto simp: rune_width_pos)

declare rune_count.simps [simp del]

definition NormalizeTitle :: "string \<Rightarrow> pub_error + string" where
  "NormalizeTitle s = (let s = trim_space s in
     if s = [] then Inl PubInvalidInput else if rune_count s > 200 then Inl PubInvalidInput else Inr s)"

definition NormalizeBody :: "string \<Rightarrow> pub_error + string" where
  "NormalizeBody s = (if rune_count s > 20000 then Inl PubInvalidInput else Inr s)"

definition NormalizeNote :: "string \<Rightarrow> pub_error + string" where
  "NormalizeNote s = (let s = trim_space s in if rune_count s > 1000 then Inl PubInvalidInput else Inr s)"

definition NormalizeHandle :: "string \<Rightarrow> pub_error + string" where
  "NormalizeHandle s = (let s = trim_space s in
     if s = [] then Inl PubInvalidInput else if rune_count s > 100 then Inl PubInvalidInput else Inr s)"

definition httpsURI :: "string \<Rightarrow> bool" where
  "httpsURI s \<longleftrightarrow> starts_with s ''https://'' \<and> 8 < length s
     \<and> list_all (\<lambda>c. c \<notin> {CHR '' '', CHR 0x09, CHR 0x0A, CHR 0x0C, CHR 0x0D}) (drop 8 s)"

definition NormalizeAssetURI :: "string \<Rightarrow> pub_error + string" where
  "NormalizeAssetURI s = (let s = trim_space s in
     if length s > 2000 then Inl PubInvalidInput else if \<not> httpsURI s then Inl PubInvalidInput else Inr s)"

definition NormalizeCredentialRef :: "string \<Rightarrow> pub_error + string" where
  "NormalizeCredentialRef s = (let s = trim_space s in
     if s = [] then Inr []
     else case ParseCredentialRef s of Inl _ \<Rightarrow> Inl PubInvalidInput | Inr ref \<Rightarrow> Inr (CredentialRef_String ref))"

definition ValidateAssetCount :: "nat \<Rightarrow> pub_error + unit" where
  "ValidateAssetCount n = (if n > 20 then Inl PubInvalidInput else Inr ())"

definition pub_ClampListLimit :: "int \<Rightarrow> int" where
  "pub_ClampListLimit limit = (if limit \<le> 0 then 100 else if limit > 500 then 500 else limit)"

section \<open>The tables\<close>

record PubDB =
  channels :: "Channel list"
  drafts :: "Draft list"
  revisions :: "Revision list"
  assets :: "Asset list"
  draft_assets :: "(uuid \<times> uuid \<times> nat) list"
  records :: "PublishRecord list"

record pub_locale =
  pl_collate :: "string \<Rightarrow> string"
  pl_uri :: "string \<Rightarrow> bool"

definition visible :: "string \<Rightarrow> bool" where
  "visible s \<longleftrightarrow> list_ex (\<lambda>c. c \<noteq> CHR '' '') s"

definition channel_check :: "Channel \<Rightarrow> bool" where
  "channel_check c \<longleftrightarrow> pc_Platform c \<in> set [''x'', ''telegram'', ''other''] \<and> visible (Handle c)
     \<and> (pc_CredentialRef c = [] \<or> (case ParseCredentialRef (pc_CredentialRef c) of Inl _ \<Rightarrow> False | Inr _ \<Rightarrow> True))
     \<and> pc_Status c \<in> set [''ACTIVE'', ''PAUSED'', ''RETIRED''] \<and> visible (pc_CreatedBy c)"

definition draft_check :: "Draft \<Rightarrow> bool" where
  "draft_check d \<longleftrightarrow> visible (pd_Title d) \<and> pd_Status d \<in> set [''DRAFT'', ''SCHEDULED'', ''ARCHIVED'']
     \<and> 1 \<le> CurrentVersion d \<and> CurrentVersion d \<le> 2147483647 \<and> visible (pd_CreatedBy d)
     \<and> (pd_Status d = ''SCHEDULED'' \<longleftrightarrow> pd_ScheduledAt d \<noteq> None)"

definition revision_check :: "Revision \<Rightarrow> bool" where
  "revision_check r \<longleftrightarrow> 1 \<le> pv_Version r \<and> visible (pv_CreatedBy r)"

definition asset_check :: "pub_locale \<Rightarrow> Asset \<Rightarrow> bool" where
  "asset_check lc a \<longleftrightarrow> visible (pa_Name a) \<and> Kind a \<in> set [''image'', ''video'', ''link''] \<and> pl_uri lc (URI a) \<and> visible (pa_CreatedBy a)"

definition record_check :: "PublishRecord \<Rightarrow> bool" where
  "record_check r \<longleftrightarrow> 1 \<le> DraftVersion r \<and> visible (pp_RequestedBy r) \<and> pp_Result r = ''NOT_DELIVERED''
     \<and> (pp_Result r \<noteq> ''NOT_DELIVERED'' \<or> ExternalRef r = [] \<and> pp_DeliveredAt r = None)"

section \<open>The store (store\_pg.go)\<close>

text \<open>Channels.\<close>

definition channel_row :: "string \<Rightarrow> uuid \<Rightarrow> Channel \<Rightarrow> Channel" where
  "channel_row env newID c = c\<lparr>pc_ID := (if pc_ID c = 0 then newID else pc_ID c), pc_Environment := env, pc_UpdatedAt := pc_CreatedAt c\<rparr>"

definition same_channel :: "Channel \<Rightarrow> Channel \<Rightarrow> bool" where
  "same_channel row x \<longleftrightarrow> pc_Environment x = pc_Environment row \<and> pc_Platform x = pc_Platform row \<and> Handle x = Handle row"

definition channel_update :: "Channel \<Rightarrow> Channel \<Rightarrow> Channel" where
  "channel_update row x = x\<lparr>pc_DisplayName := pc_DisplayName row, Purpose := Purpose row, pc_CredentialRef := pc_CredentialRef row,
     pc_Note := pc_Note row, pc_UpdatedAt := pc_UpdatedAt row\<rparr>"

definition UpsertChannel :: "string \<Rightarrow> uuid \<Rightarrow> Channel \<Rightarrow> PubDB \<Rightarrow> PubDB \<times> (pub_error + Channel)" where
  "UpsertChannel env newID c db =
    (let row = channel_row env newID c in
     if \<not> channel_check row then (db, Inl PubInvalidInput)
     else case find (same_channel row) (channels db) of
       None \<Rightarrow> if pc_ID row \<in> set (map pc_ID (channels db)) then (db, Inl PubOther)
         else (db\<lparr>channels := channels db @ [row]\<rparr>, Inr row)
     | Some x \<Rightarrow> let x' = channel_update row x in
         if \<not> channel_check x' then (db, Inl PubInvalidInput)
         else (db\<lparr>channels := map (\<lambda>y. if same_channel row y then x' else y) (channels db)\<rparr>, Inr x'))"

definition own_channel :: "string \<Rightarrow> uuid \<Rightarrow> Channel \<Rightarrow> bool" where
  "own_channel env i c \<longleftrightarrow> pc_ID c = i \<and> pc_Environment c = env"

definition SetChannelStatus :: "string \<Rightarrow> uuid \<Rightarrow> string \<Rightarrow> time \<Rightarrow> PubDB \<Rightarrow> PubDB \<times> (pub_error + Channel)" where
  "SetChannelStatus env i status at_time db =
    (case find (own_channel env i) (channels db) of None \<Rightarrow> (db, Inl PubNotFound)
     | Some c \<Rightarrow> let c' = c\<lparr>pc_Status := status, pc_UpdatedAt := at_time\<rparr> in
         if \<not> channel_check c' then (db, Inl PubOther)
         else (db\<lparr>channels := map (\<lambda>y. if own_channel env i y then c' else y) (channels db)\<rparr>, Inr c'))"

definition GetChannel :: "string \<Rightarrow> uuid \<Rightarrow> PubDB \<Rightarrow> pub_error + Channel" where
  "GetChannel env i db = (case find (own_channel env i) (channels db) of None \<Rightarrow> Inl PubNotFound | Some c \<Rightarrow> Inr c)"

definition ListChannels :: "pub_locale \<Rightarrow> string \<Rightarrow> int \<Rightarrow> PubDB \<Rightarrow> Channel list" where
  "ListChannels lc env limit db = take (nat (pub_ClampListLimit limit))
     (sort_key (\<lambda>c. (map of_char (pl_collate lc (pc_Platform c)) :: nat list, map of_char (pl_collate lc (Handle c)) :: nat list))
       (filter (\<lambda>c. pc_Environment c = env) (channels db)))"

text \<open>Drafts and their revisions.\<close>

record DraftInput =
  di_ID :: "uuid option"
  di_Title :: string
  di_Body :: string
  di_ScheduledAt :: "time option"
  di_Note :: string
  di_AssetIDs :: "uuid list"
  di_Actor :: string
  di_Now :: time

definition statusFor :: "time option \<Rightarrow> string" where
  "statusFor scheduledAt = (if scheduledAt \<noteq> None then DraftScheduled else DraftDraft)"

definition own_draft :: "string \<Rightarrow> uuid \<Rightarrow> Draft \<Rightarrow> bool" where
  "own_draft env i d \<longleftrightarrow> pd_ID d = i \<and> pd_Environment d = env"

definition put_draft :: "Draft \<Rightarrow> PubDB \<Rightarrow> PubDB" where
  "put_draft d db = db\<lparr>drafts := map (\<lambda>y. if pd_ID y = pd_ID d then d else y) (drafts db)\<rparr>"

definition write_draft :: "string \<Rightarrow> uuid \<Rightarrow> DraftInput \<Rightarrow> PubDB \<Rightarrow> pub_error + (Draft \<times> PubDB)" where
  "write_draft env newID inp db =
    (case di_ID inp of
       None \<Rightarrow>
         let d = \<lparr>pd_ID = newID, pd_Environment = env, pd_Title = di_Title inp, Body = di_Body inp,
               pd_ScheduledAt = di_ScheduledAt inp, pd_Status = statusFor (di_ScheduledAt inp), CurrentVersion = 1,
               pd_CreatedBy = di_Actor inp, pd_CreatedAt = di_Now inp, pd_UpdatedAt = di_Now inp, AssetIDs = []\<rparr>
         in if newID \<in> set (map pd_ID (drafts db)) \<or> \<not> draft_check d then Inl PubOther
            else Inr (d, db\<lparr>drafts := drafts db @ [d]\<rparr>)
     | Some i \<Rightarrow>
         (case find (\<lambda>d. own_draft env i d \<and> pd_Status d \<noteq> ''ARCHIVED'') (drafts db) of
            None \<Rightarrow> Inl PubNotFound
          | Some d \<Rightarrow>
            let d' = d\<lparr>pd_Title := di_Title inp, Body := di_Body inp, pd_ScheduledAt := di_ScheduledAt inp,
                  pd_Status := statusFor (di_ScheduledAt inp), CurrentVersion := CurrentVersion d + 1, pd_UpdatedAt := di_Now inp\<rparr>
            in if \<not> draft_check d' then Inl PubOther else Inr (d', put_draft d' db)))"

definition revision_of :: "DraftInput \<Rightarrow> Draft \<Rightarrow> Revision" where
  "revision_of inp d = \<lparr>pv_DraftID = pd_ID d, pv_Version = CurrentVersion d, pv_Title = pd_Title d, pv_Body = Body d,
     pv_ScheduledAt = pd_ScheduledAt d, pv_Note = di_Note inp, pv_CreatedBy = di_Actor inp, pv_CreatedAt = di_Now inp\<rparr>"

definition write_revision :: "Revision \<Rightarrow> PubDB \<Rightarrow> pub_error + PubDB" where
  "write_revision r db =
    (if \<not> revision_check r \<or> (pv_DraftID r, pv_Version r) \<in> set (map (\<lambda>x. (pv_DraftID x, pv_Version x)) (revisions db))
     then Inl PubOther else Inr (db\<lparr>revisions := revisions db @ [r]\<rparr>))"

fun insert_assets :: "uuid \<Rightarrow> nat \<Rightarrow> uuid list \<Rightarrow> PubDB \<Rightarrow> pub_error + PubDB" where
  "insert_assets draftID i [] db = Inr db"
| "insert_assets draftID i (a # as) db =
    (if (draftID, a) \<in> set (map (\<lambda>(d, x, _). (d, x)) (draft_assets db)) then insert_assets draftID (Suc i) as db
     else if a \<notin> set (map pa_ID (assets db)) then Inl PubInvalidInput
     else insert_assets draftID (Suc i) as (db\<lparr>draft_assets := draft_assets db @ [(draftID, a, i)]\<rparr>))"

definition SaveDraft :: "string \<Rightarrow> uuid \<Rightarrow> DraftInput \<Rightarrow> PubDB \<Rightarrow> PubDB \<times> (pub_error + Draft)" where
  "SaveDraft env newID inp db =
    (case rbind (ValidateAssetCount (length (di_AssetIDs inp))) (\<lambda>_.
          rbind (write_draft env newID inp db) (\<lambda>(d, db1).
          rbind (write_revision (revision_of inp d) db1) (\<lambda>db2.
          rbind (insert_assets (pd_ID d) 0 (di_AssetIDs inp) (db2\<lparr>draft_assets := filter (\<lambda>(x, _). x \<noteq> pd_ID d) (draft_assets db2)\<rparr>)) (\<lambda>db3.
            Inr (db3, d\<lparr>AssetIDs := di_AssetIDs inp\<rparr>))))) of
       Inl err \<Rightarrow> (db, Inl err) | Inr (db', d) \<Rightarrow> (db', Inr d))"

definition ArchiveDraft :: "string \<Rightarrow> uuid \<Rightarrow> time \<Rightarrow> PubDB \<Rightarrow> PubDB \<times> (pub_error + Draft)" where
  "ArchiveDraft env i at_time db =
    (case find (own_draft env i) (drafts db) of None \<Rightarrow> (db, Inl PubNotFound)
     | Some d \<Rightarrow> let d' = d\<lparr>pd_Status := ''ARCHIVED'', pd_ScheduledAt := None, pd_UpdatedAt := at_time\<rparr>
         in (put_draft d' db, Inr d'))"

definition GetDraft :: "string \<Rightarrow> uuid \<Rightarrow> PubDB \<Rightarrow> pub_error + Draft" where
  "GetDraft env i db = (case find (own_draft env i) (drafts db) of None \<Rightarrow> Inl PubNotFound
     | Some d \<Rightarrow> Inr (d\<lparr>AssetIDs := map (\<lambda>(_, a, _). a) (sort_key (\<lambda>(_, _, n). n) (filter (\<lambda>(x, _). x = i) (draft_assets db)))\<rparr>))"

record DraftFilter =
  df_Status :: string
  ScheduledFrom :: time
  ScheduledTo :: time
  df_Limit :: int

definition calendar_time :: "Draft \<Rightarrow> time" where
  "calendar_time d = (case pd_ScheduledAt d of Some t \<Rightarrow> t | None \<Rightarrow> pd_UpdatedAt d)"

definition draft_filter :: "string \<Rightarrow> DraftFilter \<Rightarrow> Draft \<Rightarrow> bool" where
  "draft_filter env f d \<longleftrightarrow> pd_Environment d = env \<and> (df_Status f = [] \<or> pd_Status d = df_Status f)
     \<and> (ScheduledFrom f = 0 \<or> (case pd_ScheduledAt d of None \<Rightarrow> False | Some t \<Rightarrow> ScheduledFrom f \<le> t))
     \<and> (ScheduledTo f = 0 \<or> (case pd_ScheduledAt d of None \<Rightarrow> False | Some t \<Rightarrow> t < ScheduledTo f))"

definition ListDrafts :: "string \<Rightarrow> DraftFilter \<Rightarrow> PubDB \<Rightarrow> Draft list" where
  "ListDrafts env f db = take (nat (pub_ClampListLimit (df_Limit f)))
     (sort_key (\<lambda>d. (- calendar_time d, pd_ID d)) (filter (draft_filter env f) (drafts db)))"

definition ListRevisions :: "string \<Rightarrow> uuid \<Rightarrow> PubDB \<Rightarrow> Revision list" where
  "ListRevisions env draftID db = sort_key (\<lambda>r. - pv_Version r)
     (filter (\<lambda>r. pv_DraftID r = draftID \<and> list_ex (own_draft env draftID) (drafts db)) (revisions db))"

text \<open>Assets.\<close>

definition own_asset :: "string \<Rightarrow> uuid \<Rightarrow> Asset \<Rightarrow> bool" where
  "own_asset env i a \<longleftrightarrow> pa_ID a = i \<and> pa_Environment a = env"

definition asset_row :: "string \<Rightarrow> uuid \<Rightarrow> Asset \<Rightarrow> Asset" where
  "asset_row env newID a = a\<lparr>pa_ID := (if pa_ID a = 0 then newID else pa_ID a), pa_Environment := env, pa_UpdatedAt := pa_CreatedAt a\<rparr>"

definition same_asset :: "Asset \<Rightarrow> Asset \<Rightarrow> bool" where
  "same_asset row x \<longleftrightarrow> pa_Environment x = pa_Environment row \<and> pa_Name x = pa_Name row"

definition asset_update :: "Asset \<Rightarrow> Asset \<Rightarrow> Asset" where
  "asset_update row x = x\<lparr>Kind := Kind row, URI := URI row, pa_Note := pa_Note row, pa_UpdatedAt := pa_UpdatedAt row\<rparr>"

definition UpsertAsset :: "pub_locale \<Rightarrow> string \<Rightarrow> uuid \<Rightarrow> Asset \<Rightarrow> PubDB \<Rightarrow> PubDB \<times> (pub_error + Asset)" where
  "UpsertAsset lc env newID a db =
    (let row = asset_row env newID a in
     if \<not> asset_check lc row then (db, Inl PubInvalidInput)
     else case find (same_asset row) (assets db) of
       None \<Rightarrow> if pa_ID row \<in> set (map pa_ID (assets db)) then (db, Inl PubOther)
         else (db\<lparr>assets := assets db @ [row]\<rparr>, Inr row)
     | Some x \<Rightarrow> let x' = asset_update row x in
         (db\<lparr>assets := map (\<lambda>y. if same_asset row y then x' else y) (assets db)\<rparr>, Inr x'))"

definition RemoveAsset :: "string \<Rightarrow> uuid \<Rightarrow> PubDB \<Rightarrow> PubDB \<times> (pub_error + unit)" where
  "RemoveAsset env i db =
    (if find (own_asset env i) (assets db) = None then (db, Inl PubNotFound)
     else if i \<in> set (map (\<lambda>(_, a, _). a) (draft_assets db)) then (db, Inl PubConflict)
     else (db\<lparr>assets := filter (\<lambda>a. \<not> own_asset env i a) (assets db)\<rparr>, Inr ()))"

definition GetAsset :: "string \<Rightarrow> uuid \<Rightarrow> PubDB \<Rightarrow> pub_error + Asset" where
  "GetAsset env i db = (case find (own_asset env i) (assets db) of None \<Rightarrow> Inl PubNotFound | Some a \<Rightarrow> Inr a)"

definition ListAssets :: "string \<Rightarrow> int \<Rightarrow> PubDB \<Rightarrow> Asset list" where
  "ListAssets env limit db = take (nat (pub_ClampListLimit limit))
     (sort_key (\<lambda>a. (- pa_UpdatedAt a, pa_ID a)) (filter (\<lambda>a. pa_Environment a = env) (assets db)))"

definition AssetsForDraft :: "string \<Rightarrow> uuid \<Rightarrow> PubDB \<Rightarrow> Asset list" where
  "AssetsForDraft env draftID db = concat (map (\<lambda>(_, i, _). case find (own_asset env i) (assets db) of None \<Rightarrow> [] | Some a \<Rightarrow> [a])
     (sort_key (\<lambda>(_, _, n). n) (filter (\<lambda>(x, _). x = draftID) (draft_assets db))))"

text \<open>Records of publish requests.\<close>

definition CreatePublishRecord :: "string \<Rightarrow> uuid \<Rightarrow> PublishRecord \<Rightarrow> PubDB \<Rightarrow> PubDB \<times> (pub_error + PublishRecord)" where
  "CreatePublishRecord env newID r db =
    (let r = (if pp_ID r = 0 then r\<lparr>pp_ID := newID\<rparr> else r); row = r\<lparr>pp_Environment := env\<rparr>
     in if \<not> record_check row then (db, Inl PubInvalidInput)
        else if pp_ID row \<in> set (map pp_ID (records db)) then (db, Inl PubOther)
        else if pp_DraftID row \<notin> set (map pd_ID (drafts db)) \<or> pp_ChannelID row \<notin> set (map pc_ID (channels db))
        then (db, Inl PubInvalidInput)
        else (db\<lparr>records := records db @ [row]\<rparr>, Inr row))"

definition ListPublishRecords :: "string \<Rightarrow> int \<Rightarrow> PubDB \<Rightarrow> PublishRecord list" where
  "ListPublishRecords env limit db = take (nat (pub_ClampListLimit limit))
     (sort_key (\<lambda>r. (- pp_CreatedAt r, pp_ID r)) (filter (\<lambda>r. pp_Environment r = env) (records db)))"

section \<open>The service (service.go, deliver.go)\<close>

text \<open>Which platforms have a deliverer; production passes none.\<close>

definition DelivererFor :: "Platform list \<Rightarrow> Platform \<Rightarrow> bool" where
  "DelivererFor deliverers p \<longleftrightarrow> p \<in> set deliverers"

definition PlatformsWithDeliverer :: "Platform list \<Rightarrow> Platform list" where
  "PlatformsWithDeliverer deliverers = sort_key (map of_char :: string \<Rightarrow> nat list) (filter (DelivererFor deliverers) AllPlatforms)"

record PublishRequest =
  rq_DraftID :: uuid
  rq_ChannelID :: uuid
  rq_RequestedBy :: string

record PublishOutcome =
  Outcome_Record :: PublishRecord
  Outcome_Delivered :: bool
  Outcome_Reason :: string

text \<open>\<open>reason\<close> is the fixed text \<open>NotDeliveredReason\<close>; \<open>other1\<close> and \<open>other2\<close> are what other callers do
  between the three statements.\<close>

definition Publish :: "string \<Rightarrow> Platform list \<Rightarrow> (PubDB \<Rightarrow> PubDB) \<Rightarrow> (PubDB \<Rightarrow> PubDB) \<Rightarrow> string \<Rightarrow> uuid \<Rightarrow> time \<Rightarrow> PublishRequest \<Rightarrow> PubDB
  \<Rightarrow> PubDB \<times> (pub_error + PublishOutcome)" where
  "Publish env deliverers other1 other2 reason newID now inp db =
    (case GetDraft env (rq_DraftID inp) db of
       Inl err \<Rightarrow> (db, Inl err)
     | Inr draft \<Rightarrow>
       if pd_Status draft = DraftArchived then (db, Inl PubInvalidInput)
       else let db = other1 db in
         case GetChannel env (rq_ChannelID inp) db of
           Inl err \<Rightarrow> (db, Inl err)
         | Inr channel \<Rightarrow>
           if \<not> AcceptsContent channel then (db, Inl PubChannelNotPublishable)
           else let record = \<lparr>pp_ID = newID, pp_Environment = [], pp_DraftID = pd_ID draft, DraftVersion = CurrentVersion draft,
                  pp_ChannelID = pc_ID channel, pp_ScheduledAt = pd_ScheduledAt draft, pp_RequestedBy = rq_RequestedBy inp,
                  pp_Result = ResultNotDelivered, ExternalRef = [], pp_DeliveredAt = None, Detail = reason, pp_CreatedAt = now\<rparr>
             in if DelivererFor deliverers (pc_Platform channel) then (db, Inl PubOther)
                else case CreatePublishRecord env newID record (other2 db) of
                  (db, Inl err) \<Rightarrow> (db, Inl err)
                | (db, Inr saved) \<Rightarrow> (db, Inr \<lparr>Outcome_Record = saved, Outcome_Delivered = False, Outcome_Reason = reason\<rparr>))"

end
