(* ===== verification/Publishing_Actions.thy ===== *)
theory Publishing_Actions
  imports Publishing Kernel
begin

text \<open>
  The seven actions of content publishing (\<open>publishing/actions.go\<close>): their definitions, their handlers
  over the tables, and their registration in the kernel's registry. A handler runs in a context: the
  store's environment, the actor, the clock's answer, a fresh identifier, and what other callers do
  between its statements. Parsing and printing of identifiers and times is library code.
\<close>

section \<open>Definitions\<close>

abbreviation "ScopeManage \<equiv> ''publishing.manage''"
abbreviation "ScopePublish \<equiv> ''publishing.publish''"

definition allEnvironments :: "string list" where
  "allEnvironments = [''development'', ''staging'', ''production'']"

definition humanOnly :: "principal_type list" where
  "humanOnly = [TypeHuman]"

abbreviation string_field :: "string \<Rightarrow> bool \<Rightarrow> string list \<Rightarrow> Field" where
  "string_field nm required enum \<equiv> \<lparr>f_Name = nm, f_Type = FieldString, Required = required, Enum = enum\<rparr>"

abbreviation pub_definition :: "string \<Rightarrow> RiskLevel \<Rightarrow> string \<Rightarrow> Schema \<Rightarrow> Definition" where
  "pub_definition i risk scope schema \<equiv> \<lparr>d_ID = i, d_Version = ''1'', d_RiskLevel = risk, Permission = scope, d_Schema = schema,
     Environments = allEnvironments, PrincipalTypes = humanOnly\<rparr>"

definition draftSetDefinition :: Definition where
  "draftSetDefinition = pub_definition ''publishing.draft.set'' ''L1'' ScopeManage
    [string_field ''draft_id'' False [], string_field ''title'' True [], string_field ''body'' False [],
     string_field ''scheduled_at'' False [], string_field ''note'' False [],
     \<lparr>f_Name = ''asset_ids'', f_Type = FieldStringSlice, Required = False, Enum = []\<rparr>]"

definition draftArchiveDefinition :: Definition where
  "draftArchiveDefinition = pub_definition ''publishing.draft.archive'' ''L1'' ScopeManage [string_field ''draft_id'' True []]"

definition assetSetDefinition :: Definition where
  "assetSetDefinition = pub_definition ''publishing.asset.set'' ''L1'' ScopeManage
    [string_field ''asset_id'' False [], string_field ''name'' True [], string_field ''kind'' True [''image'', ''video'', ''link''],
     string_field ''uri'' True [], string_field ''note'' False []]"

definition assetRemoveDefinition :: Definition where
  "assetRemoveDefinition = pub_definition ''publishing.asset.remove'' ''L1'' ScopeManage [string_field ''asset_id'' True []]"

definition channelSetDefinition :: Definition where
  "channelSetDefinition = pub_definition ''publishing.channel.set'' ''L1'' ScopeManage
    [string_field ''platform'' True [''x'', ''telegram'', ''other''], string_field ''handle'' True [],
     string_field ''display_name'' False [], string_field ''purpose'' False [], string_field ''credential_ref'' False [],
     string_field ''note'' False []]"

definition channelSetStatusDefinition :: Definition where
  "channelSetStatusDefinition = pub_definition ''publishing.channel.set_status'' ''L1'' ScopeManage
    [string_field ''channel_id'' True [], string_field ''status'' True [''ACTIVE'', ''PAUSED'', ''RETIRED'']]"

definition publishSubmitDefinition :: Definition where
  "publishSubmitDefinition = pub_definition ''publishing.publish.submit'' ''L3'' ScopePublish
    [string_field ''draft_id'' True [], string_field ''channel_id'' True []]"

section \<open>Handlers\<close>

record pub_context =
  cx_env :: string
  cx_principal :: "Principal option"
  cx_now :: time
  cx_newID :: uuid
  cx_deliverers :: "Platform list"
  cx_other :: "PubDB \<Rightarrow> PubDB"
  cx_other2 :: "PubDB \<Rightarrow> PubDB"
  cx_locale :: pub_locale
  cx_reason :: string
  cx_uuid_parse :: "string \<Rightarrow> uuid option"
  cx_uuid_text :: "uuid \<Rightarrow> string"
  cx_time_parse :: "string \<Rightarrow> time option"
  cx_time_text :: "time \<Rightarrow> string"

definition domainError :: "pub_error \<Rightarrow> go_error" where
  "domainError err = (case err of
     PubInvalidInput \<Rightarrow> Coded (newError CodeInvalidParams)
   | PubNotFound \<Rightarrow> Coded (newError CodePreconditionFailed)
   | PubConflict \<Rightarrow> Coded (newError CodeConflict)
   | PubChannelNotPublishable \<Rightarrow> Coded (newError CodePreconditionFailed)
   | PubOther \<Rightarrow> Plain)"

definition actorFrom :: "pub_context \<Rightarrow> go_error + string" where
  "actorFrom cx = (case cx_principal cx of
     None \<Rightarrow> Inl (Coded (newError CodePermissionDenied))
   | Some p \<Rightarrow> if blank (p_ID p) then Inl (Coded (newError CodePermissionDenied)) else Inr (p_ID p))"

definition parseOptionalUUID :: "pub_context \<Rightarrow> string \<Rightarrow> pub_error + uuid option" where
  "parseOptionalUUID cx raw = (let raw = trim_space raw in
     if raw = [] then Inr None
     else case cx_uuid_parse cx raw of None \<Rightarrow> Inl PubInvalidInput | Some i \<Rightarrow> Inr (Some i))"

definition parseRequiredUUID :: "pub_context \<Rightarrow> string \<Rightarrow> pub_error + uuid" where
  "parseRequiredUUID cx raw = (case cx_uuid_parse cx (trim_space raw) of None \<Rightarrow> Inl PubInvalidInput | Some i \<Rightarrow> Inr i)"

definition parseOptionalTime :: "pub_context \<Rightarrow> string \<Rightarrow> pub_error + time option" where
  "parseOptionalTime cx raw = (let raw = trim_space raw in
     if raw = [] then Inr None
     else case cx_time_parse cx raw of None \<Rightarrow> Inl PubInvalidInput | Some t \<Rightarrow> Inr (Some t))"

fun parse_asset_ids :: "pub_context \<Rightarrow> string list \<Rightarrow> pub_error + uuid list" where
  "parse_asset_ids cx [] = Inr []"
| "parse_asset_ids cx (raw # raws) =
    (if blank raw then parse_asset_ids cx raws
     else rbind (parseRequiredUUID cx raw) (\<lambda>i. rbind (parse_asset_ids cx raws) (\<lambda>is. Inr (i # is))))"

text \<open>The answers.\<close>

record draftWire =
  dw_ID :: string
  dw_Title :: string
  dw_Body :: string
  dw_Status :: string
  dw_CurrentVersion :: int
  dw_ScheduledAt :: string
  dw_AssetIDs :: "string list"
  dw_UpdatedAt :: string

record assetWire =
  aw_ID :: string
  aw_Name :: string
  aw_Kind :: string
  aw_URI :: string
  aw_Note :: string
  aw_UpdatedAt :: string

record channelWire =
  cw_ID :: string
  cw_Platform :: string
  cw_Handle :: string
  cw_DisplayName :: string
  cw_Purpose :: string
  cw_CredentialRef :: string
  cw_Status :: string
  cw_Note :: string
  cw_UpdatedAt :: string

record publishWire =
  pw_RecordID :: string
  pw_DraftID :: string
  pw_DraftVersion :: int
  pw_ChannelID :: string
  pw_Result :: string
  pw_Delivered :: bool
  pw_Reason :: string
  pw_CreatedAt :: string

datatype pub_value = DraftValue draftWire | AssetValue assetWire | AssetRemoved string | ChannelValue channelWire | PublishValue publishWire

definition rfc3339 :: "pub_context \<Rightarrow> time option \<Rightarrow> string" where
  "rfc3339 cx t = (case t of None \<Rightarrow> [] | Some t \<Rightarrow> cx_time_text cx t)"

definition draftResponse :: "pub_context \<Rightarrow> Draft \<Rightarrow> draftWire" where
  "draftResponse cx d = \<lparr>dw_ID = cx_uuid_text cx (pd_ID d), dw_Title = pd_Title d, dw_Body = Body d, dw_Status = pd_Status d,
     dw_CurrentVersion = CurrentVersion d, dw_ScheduledAt = rfc3339 cx (pd_ScheduledAt d),
     dw_AssetIDs = map (cx_uuid_text cx) (AssetIDs d), dw_UpdatedAt = cx_time_text cx (pd_UpdatedAt d)\<rparr>"

definition assetResponse :: "pub_context \<Rightarrow> Asset \<Rightarrow> assetWire" where
  "assetResponse cx a = \<lparr>aw_ID = cx_uuid_text cx (pa_ID a), aw_Name = pa_Name a, aw_Kind = Kind a, aw_URI = URI a,
     aw_Note = pa_Note a, aw_UpdatedAt = cx_time_text cx (pa_UpdatedAt a)\<rparr>"

definition channelResponse :: "pub_context \<Rightarrow> Channel \<Rightarrow> channelWire" where
  "channelResponse cx c = \<lparr>cw_ID = cx_uuid_text cx (pc_ID c), cw_Platform = pc_Platform c, cw_Handle = Handle c,
     cw_DisplayName = pc_DisplayName c, cw_Purpose = Purpose c, cw_CredentialRef = pc_CredentialRef c, cw_Status = pc_Status c,
     cw_Note = pc_Note c, cw_UpdatedAt = cx_time_text cx (pc_UpdatedAt c)\<rparr>"

definition publishResponse :: "pub_context \<Rightarrow> PublishOutcome \<Rightarrow> publishWire" where
  "publishResponse cx out = (let r = Outcome_Record out in
     \<lparr>pw_RecordID = cx_uuid_text cx (pp_ID r), pw_DraftID = cx_uuid_text cx (pp_DraftID r), pw_DraftVersion = DraftVersion r,
      pw_ChannelID = cx_uuid_text cx (pp_ChannelID r), pw_Result = pp_Result r, pw_Delivered = Outcome_Delivered out,
      pw_Reason = Outcome_Reason out, pw_CreatedAt = cx_time_text cx (pp_CreatedAt r)\<rparr>)"

text \<open>A step of a handler that refuses leaves the tables as they are then and records nothing.\<close>

type_synonym pub_handler = "(PubDB, pub_value) handler"

definition stop :: "PubDB \<Rightarrow> go_error \<Rightarrow> PubDB \<times> meta_op list \<times> (go_error + pub_value)" where
  "stop db err = (db, [], Inl err)"

definition draftSetHandler :: "pub_context \<Rightarrow> pub_handler" where
  "draftSetHandler cx ps db =
    (case rbind (actorFrom cx) (\<lambda>actor. map_error domainError (
          rbind (parseOptionalUUID cx (StringParam ps ''draft_id'')) (\<lambda>draftID.
          rbind (NormalizeTitle (StringParam ps ''title'')) (\<lambda>title.
          rbind (NormalizeBody (StringParam ps ''body'')) (\<lambda>body.
          rbind (NormalizeNote (StringParam ps ''note'')) (\<lambda>note.
          rbind (parseOptionalTime cx (StringParam ps ''scheduled_at'')) (\<lambda>scheduledAt.
          rbind (parse_asset_ids cx (StringSliceParam ps ''asset_ids'')) (\<lambda>assetIDs.
            Inr \<lparr>di_ID = draftID, di_Title = title, di_Body = body, di_ScheduledAt = scheduledAt, di_Note = note,
                  di_AssetIDs = assetIDs, di_Actor = actor, di_Now = cx_now cx\<rparr>)))))))) of
       Inl err \<Rightarrow> stop db err
     | Inr inp \<Rightarrow> (case SaveDraft (cx_env cx) (cx_newID cx) inp db of
         (db, Inl err) \<Rightarrow> stop db (domainError err)
       | (db, Inr draft) \<Rightarrow> (db,
           [RecordResource ''publishing.draft'' (cx_uuid_text cx (pd_ID draft)),
            RecordAfter (Some [(''draft_id'', VString (cx_uuid_text cx (pd_ID draft))), (''version'', VInt (CurrentVersion draft)),
              (''status'', VString (pd_Status draft)), (''asset_count'', VInt (int (length (AssetIDs draft)))),
              (''scheduled'', VBool (pd_ScheduledAt draft \<noteq> None))])],
           Inr (DraftValue (draftResponse cx draft)))))"

definition draftArchiveHandler :: "pub_context \<Rightarrow> pub_handler" where
  "draftArchiveHandler cx ps db =
    (case rbind (actorFrom cx) (\<lambda>_. map_error domainError (parseRequiredUUID cx (StringParam ps ''draft_id''))) of
       Inl err \<Rightarrow> stop db err
     | Inr i \<Rightarrow> (case ArchiveDraft (cx_env cx) i (cx_now cx) db of
         (db, Inl err) \<Rightarrow> stop db (domainError err)
       | (db, Inr draft) \<Rightarrow> (db, [RecordResource ''publishing.draft'' (cx_uuid_text cx (pd_ID draft)),
           RecordAfter (Some [(''status'', VString (pd_Status draft))])], Inr (DraftValue (draftResponse cx draft)))))"

definition assetSetHandler :: "pub_context \<Rightarrow> pub_handler" where
  "assetSetHandler cx ps db =
    (case rbind (actorFrom cx) (\<lambda>actor. map_error domainError (
          rbind (parseOptionalUUID cx (StringParam ps ''asset_id'')) (\<lambda>assetID.
          rbind (NormalizeTitle (StringParam ps ''name'')) (\<lambda>nm.
          rbind (ParseAssetKind (StringParam ps ''kind'')) (\<lambda>kind.
          rbind (NormalizeAssetURI (StringParam ps ''uri'')) (\<lambda>uri.
          rbind (NormalizeNote (StringParam ps ''note'')) (\<lambda>note.
            Inr \<lparr>pa_ID = (case assetID of None \<Rightarrow> 0 | Some i \<Rightarrow> i), pa_Environment = [], pa_Name = nm, Kind = kind, URI = uri,
                  pa_Note = note, pa_CreatedBy = actor, pa_CreatedAt = cx_now cx, pa_UpdatedAt = 0\<rparr>))))))) of
       Inl err \<Rightarrow> stop db err
     | Inr asset \<Rightarrow> (case UpsertAsset (cx_locale cx) (cx_env cx) (cx_newID cx) asset db of
         (db, Inl err) \<Rightarrow> stop db (domainError err)
       | (db, Inr saved) \<Rightarrow> (db, [RecordResource ''publishing.asset'' (cx_uuid_text cx (pa_ID saved)),
           RecordAfter (Some [(''asset_id'', VString (cx_uuid_text cx (pa_ID saved))), (''name'', VString (pa_Name saved)),
             (''kind'', VString (Kind saved))])], Inr (AssetValue (assetResponse cx saved)))))"

definition assetRemoveHandler :: "pub_context \<Rightarrow> pub_handler" where
  "assetRemoveHandler cx ps db =
    (case rbind (actorFrom cx) (\<lambda>_. map_error domainError (parseRequiredUUID cx (StringParam ps ''asset_id''))) of
       Inl err \<Rightarrow> stop db err
     | Inr i \<Rightarrow> (case RemoveAsset (cx_env cx) i db of
         (db, Inl err) \<Rightarrow> stop db (domainError err)
       | (db, Inr _) \<Rightarrow> (db, [RecordResource ''publishing.asset'' (cx_uuid_text cx i)], Inr (AssetRemoved (cx_uuid_text cx i)))))"

definition channelSetHandler :: "pub_context \<Rightarrow> pub_handler" where
  "channelSetHandler cx ps db =
    (case rbind (actorFrom cx) (\<lambda>actor. map_error domainError (
          rbind (ParsePlatform (StringParam ps ''platform'')) (\<lambda>platform.
          rbind (NormalizeHandle (StringParam ps ''handle'')) (\<lambda>handle.
          rbind (NormalizeCredentialRef (StringParam ps ''credential_ref'')) (\<lambda>ref.
          rbind (NormalizeNote (StringParam ps ''purpose'')) (\<lambda>purpose.
          rbind (NormalizeNote (StringParam ps ''note'')) (\<lambda>note.
          rbind (NormalizeNote (StringParam ps ''display_name'')) (\<lambda>displayName.
            Inr \<lparr>pc_ID = 0, pc_Environment = [], pc_Platform = platform, Handle = handle, pc_DisplayName = displayName,
                  Purpose = purpose, pc_CredentialRef = ref, pc_Status = ChannelActive, pc_Note = note, pc_CreatedBy = actor,
                  pc_CreatedAt = cx_now cx, pc_UpdatedAt = 0\<rparr>)))))))) of
       Inl err \<Rightarrow> stop db err
     | Inr channel \<Rightarrow> (case UpsertChannel (cx_env cx) (cx_newID cx) channel db of
         (db, Inl err) \<Rightarrow> stop db (domainError err)
       | (db, Inr saved) \<Rightarrow> (db, [RecordResource ''publishing.channel'' (cx_uuid_text cx (pc_ID saved)),
           RecordAfter (Some [(''channel_id'', VString (cx_uuid_text cx (pc_ID saved))), (''platform'', VString (pc_Platform saved)),
             (''handle'', VString (Handle saved)), (''credential_ref_present'', VBool (pc_CredentialRef saved \<noteq> []))])],
           Inr (ChannelValue (channelResponse cx saved)))))"

definition channelSetStatusHandler :: "pub_context \<Rightarrow> pub_handler" where
  "channelSetStatusHandler cx ps db =
    (case rbind (actorFrom cx) (\<lambda>_. map_error domainError (
          rbind (parseRequiredUUID cx (StringParam ps ''channel_id'')) (\<lambda>i.
          rbind (ParseChannelStatus (StringParam ps ''status'')) (\<lambda>status.
          rbind (GetChannel (cx_env cx) i db) (\<lambda>before. Inr (i, status, before)))))) of
       Inl err \<Rightarrow> stop db err
     | Inr (i, status, before) \<Rightarrow> (case SetChannelStatus (cx_env cx) i status (cx_now cx) (cx_other cx db) of
         (db, Inl err) \<Rightarrow> stop db (domainError err)
       | (db, Inr saved) \<Rightarrow> (db, [RecordResource ''publishing.channel'' (cx_uuid_text cx (pc_ID saved)),
           RecordBefore (Some [(''status'', VString (pc_Status before))]), RecordAfter (Some [(''status'', VString (pc_Status saved))])],
           Inr (ChannelValue (channelResponse cx saved)))))"

definition publishSubmitHandler :: "pub_context \<Rightarrow> pub_handler" where
  "publishSubmitHandler cx ps db =
    (case rbind (actorFrom cx) (\<lambda>actor. map_error domainError (
          rbind (parseRequiredUUID cx (StringParam ps ''draft_id'')) (\<lambda>draftID.
          rbind (parseRequiredUUID cx (StringParam ps ''channel_id'')) (\<lambda>channelID.
            Inr \<lparr>rq_DraftID = draftID, rq_ChannelID = channelID, rq_RequestedBy = actor\<rparr>)))) of
       Inl err \<Rightarrow> stop db err
     | Inr req \<Rightarrow> (case Publish (cx_env cx) (cx_deliverers cx) (cx_other cx) (cx_other2 cx) (cx_reason cx) (cx_newID cx) (cx_now cx) req db of
         (db, Inl err) \<Rightarrow> stop db (domainError err)
       | (db, Inr out) \<Rightarrow> (db,
           [RecordResource ''publishing.publish_record'' (cx_uuid_text cx (pp_ID (Outcome_Record out))),
            RecordAfter (Some [(''record_id'', VString (cx_uuid_text cx (pp_ID (Outcome_Record out)))),
              (''draft_id'', VString (cx_uuid_text cx (pp_DraftID (Outcome_Record out)))), (''version'', VInt (DraftVersion (Outcome_Record out))),
              (''result'', VString (pp_Result (Outcome_Record out))), (''delivered'', VBool (Outcome_Delivered out))])],
           Inr (PublishValue (publishResponse cx out)))))"

section \<open>Registration\<close>

definition pub_items :: "pub_context \<Rightarrow> (Definition \<times> pub_handler) list" where
  "pub_items cx = [(draftSetDefinition, draftSetHandler cx), (draftArchiveDefinition, draftArchiveHandler cx),
     (assetSetDefinition, assetSetHandler cx), (assetRemoveDefinition, assetRemoveHandler cx), (channelSetDefinition, channelSetHandler cx),
     (channelSetStatusDefinition, channelSetStatusHandler cx), (publishSubmitDefinition, publishSubmitHandler cx)]"

fun register_all :: "(Definition \<times> 'h) list \<Rightarrow> 'h Registry \<Rightarrow> unit + 'h Registry" where
  "register_all [] reg = Inr reg"
| "register_all ((d, h) # items) reg = rbind (Register reg d (Some h)) (register_all items)"

definition RegisterActions :: "pub_context \<Rightarrow> pub_handler Registry \<Rightarrow> unit + pub_handler Registry" where
  "RegisterActions cx reg = register_all (pub_items cx) reg"

end
