(* ===== verification/Publishing_Laws.thy ===== *)
theory Publishing_Laws
  imports Publishing_Actions
begin

text \<open>
  What content publishing guarantees, over every interleaving of its operations: drafts and their
  immutable revisions agree, publish requests pin a revision that exists, references to assets do
  not dangle, nothing is ever reported as delivered. And what the approval of a publish request
  does not pin: the version.
\<close>

section \<open>The invariant of the tables\<close>

definition draft_history :: "uuid \<Rightarrow> PubDB \<Rightarrow> Revision list" where
  "draft_history i db = filter (\<lambda>r. pv_DraftID r = i) (revisions db)"

definition draft_ok :: "PubDB \<Rightarrow> Draft \<Rightarrow> bool" where
  "draft_ok db d \<longleftrightarrow> draft_check d \<and> (let h = draft_history (pd_ID d) db in
     map pv_Version h = map int [1..<nat (CurrentVersion d) + 1] \<and> pv_Title (last h) = pd_Title d \<and> pv_Body (last h) = Body d
     \<and> (pd_Status d \<noteq> DraftArchived \<longrightarrow> pv_ScheduledAt (last h) = pd_ScheduledAt d))"

definition record_ok :: "PubDB \<Rightarrow> PublishRecord \<Rightarrow> bool" where
  "record_ok db p \<longleftrightarrow> record_check p \<and> (\<exists>r \<in> set (revisions db). pv_DraftID r = pp_DraftID p \<and> pv_Version r = DraftVersion p
     \<and> pv_ScheduledAt r = pp_ScheduledAt p)"

definition drafts_ok :: "PubDB \<Rightarrow> bool" where
  "drafts_ok db \<longleftrightarrow> distinct (map pd_ID (drafts db)) \<and> (\<forall>d \<in> set (drafts db). draft_ok db d)
     \<and> (\<forall>r \<in> set (revisions db). pv_DraftID r \<in> set (map pd_ID (drafts db))) \<and> (\<forall>p \<in> set (records db). record_ok db p)"

definition refs_ok :: "PubDB \<Rightarrow> bool" where
  "refs_ok db \<longleftrightarrow> distinct (map (\<lambda>(d, a, _). (d, a)) (draft_assets db))
     \<and> (\<forall>(d, a, _) \<in> set (draft_assets db). d \<in> set (map pd_ID (drafts db)) \<and> a \<in> set (map pa_ID (assets db)))
     \<and> (\<forall>i. length (filter (\<lambda>(d, _). d = i) (draft_assets db)) \<le> 20)"

definition channels_ok :: "PubDB \<Rightarrow> bool" where
  "channels_ok db \<longleftrightarrow> distinct (map pc_ID (channels db)) \<and> distinct (map (\<lambda>c. (pc_Environment c, pc_Platform c, Handle c)) (channels db))
     \<and> (\<forall>c \<in> set (channels db). channel_check c)"

definition assets_ok :: "PubDB \<Rightarrow> bool" where
  "assets_ok db \<longleftrightarrow> distinct (map pa_ID (assets db)) \<and> distinct (map (\<lambda>a. (pa_Environment a, pa_Name a)) (assets db))"

definition pub_ok :: "PubDB \<Rightarrow> bool" where
  "pub_ok db \<longleftrightarrow> drafts_ok db \<and> refs_ok db \<and> assets_ok db \<and> channels_ok db"

definition history_kept :: "PubDB \<Rightarrow> PubDB \<Rightarrow> bool" where
  "history_kept a b \<longleftrightarrow> (\<exists>rs ps. revisions b = revisions a @ rs \<and> records b = records a @ ps)"

lemma history_kept_refl [simp]: "history_kept a a"
  by (simp add: history_kept_def)

lemma history_kept_trans: "history_kept a b \<Longrightarrow> history_kept b c \<Longrightarrow> history_kept a c"
  by (auto simp: history_kept_def)

lemma record_ok_kept: "record_ok a p \<Longrightarrow> history_kept a b \<Longrightarrow> record_ok b p"
  by (auto simp: record_ok_def history_kept_def)

section \<open>Saving a draft\<close>

lemma put_draft_ids [simp]: "map pd_ID (drafts (put_draft d db)) = map pd_ID (drafts db)"
  by (auto simp: put_draft_def)

lemma put_draft_other [simp]:
  "channels (put_draft d db) = channels db" "revisions (put_draft d db) = revisions db" "assets (put_draft d db) = assets db"
  "draft_assets (put_draft d db) = draft_assets db" "records (put_draft d db) = records db"
  by (simp_all add: put_draft_def)

lemma put_draft_set: "x \<in> set (drafts (put_draft d db)) \<Longrightarrow> x = d \<or> x \<in> set (drafts db) \<and> pd_ID x \<noteq> pd_ID d"
  by (auto simp: put_draft_def split: if_splits)

lemma write_draft_cases:
  assumes "write_draft env newID inp db = Inr (d, db1)"
  shows "(pd_ID d \<notin> set (map pd_ID (drafts db)) \<and> draft_check d \<and> CurrentVersion d = 1 \<and> db1 = db\<lparr>drafts := drafts db @ [d]\<rparr>
      \<and> pd_Status d \<noteq> DraftArchived)
    \<or> (\<exists>d0 \<in> set (drafts db). pd_ID d0 = pd_ID d \<and> CurrentVersion d = CurrentVersion d0 + 1 \<and> draft_check d
      \<and> pd_Status d0 \<noteq> DraftArchived \<and> db1 = put_draft d db \<and> pd_Status d \<noteq> DraftArchived)"
proof (cases "di_ID inp")
  case None
  have n: "newID \<notin> set (map pd_ID (drafts db))"
    using assms None by (simp add: write_draft_def Let_def split: if_splits)
  have "draft_check d" "pd_ID d = newID" "CurrentVersion d = 1" "pd_Status d \<noteq> DraftArchived" "db1 = db\<lparr>drafts := drafts db @ [d]\<rparr>"
    using assms None by (auto simp: write_draft_def Let_def statusFor_def split: if_splits)
  then show ?thesis using n by simp
next
  case (Some i)
  then obtain d0 where f: "find (\<lambda>d. own_draft env i d \<and> pd_Status d \<noteq> ''ARCHIVED'') (drafts db) = Some d0"
    using assms by (auto simp: write_draft_def split: option.splits)
  then have m: "d0 \<in> set (drafts db)" "pd_Status d0 \<noteq> DraftArchived" by (auto simp: find_Some_iff)
  have "pd_ID d0 = pd_ID d" "CurrentVersion d = CurrentVersion d0 + 1" "draft_check d" "db1 = put_draft d db" "pd_Status d \<noteq> DraftArchived"
    using assms Some f by (auto simp: write_draft_def Let_def statusFor_def split: if_splits)
  then show ?thesis using m by blast
qed

lemma write_draft_other:
  assumes "write_draft env newID inp db = Inr (d, db1)"
  shows "channels db1 = channels db \<and> revisions db1 = revisions db \<and> assets db1 = assets db \<and> draft_assets db1 = draft_assets db
    \<and> records db1 = records db \<and> set (map pd_ID (drafts db1)) = insert (pd_ID d) (set (map pd_ID (drafts db)))"
  using write_draft_cases [OF assms]
proof (elim disjE bexE conjE)
  fix d0 assume a: "d0 \<in> set (drafts db)" "pd_ID d0 = pd_ID d" "db1 = put_draft d db"
  have m: "pd_ID d \<in> set (map pd_ID (drafts db))" using a(1,2) by (metis image_eqI set_map)
  have "set (map pd_ID (drafts db1)) = insert (pd_ID d) (set (map pd_ID (drafts db)))" using m unfolding a(3) put_draft_ids by blast
  then show ?thesis by (simp add: a(3) del: set_map)
qed simp

lemma write_revision_ok:
  "write_revision r db = Inr db2 \<Longrightarrow> db2 = db\<lparr>revisions := revisions db @ [r]\<rparr>"
  by (simp add: write_revision_def split: if_splits)

lemma insert_assets_other:
  "insert_assets i n as db = Inr db' \<Longrightarrow> channels db' = channels db \<and> drafts db' = drafts db \<and> revisions db' = revisions db
    \<and> assets db' = assets db \<and> records db' = records db"
  by (induction i n as db rule: insert_assets.induct) (auto split: if_splits)

lemma insert_assets_distinct:
  "insert_assets i n as db = Inr db' \<Longrightarrow> distinct (map (\<lambda>(d, a, _). (d, a)) (draft_assets db))
    \<Longrightarrow> distinct (map (\<lambda>(d, a, _). (d, a)) (draft_assets db'))"
proof (induction i n as db rule: insert_assets.induct)
  case (2 i n a as db)
  show ?case
  proof (cases "(i, a) \<in> set (map (\<lambda>(d, x, _). (d, x)) (draft_assets db))")
    case True
    then show ?thesis using "2.IH"(1) [OF True] "2.prems" by simp
  next
    case False
    then have "distinct (map (\<lambda>(d, a, _). (d, a)) (draft_assets db @ [(i, a, n)]))" using "2.prems"(2) by simp
    then show ?thesis using "2.IH"(2) [OF False] "2.prems"(1) False by (auto split: if_splits)
  qed
qed simp

lemma insert_assets_refs:
  "insert_assets i n as db = Inr db' \<Longrightarrow>
     \<exists>new. draft_assets db' = draft_assets db @ new \<and> length new \<le> length as \<and> (\<forall>(d, a, _) \<in> set new. d = i \<and> a \<in> set (map pa_ID (assets db)))"
proof (induction i n as db rule: insert_assets.induct)
  case (2 i n a as db)
  show ?case
  proof (cases "(i, a) \<in> set (map (\<lambda>(d, x, _). (d, x)) (draft_assets db))")
    case True
    then have "insert_assets i (Suc n) as db = Inr db'" using "2.prems" by simp
    then show ?thesis using "2.IH"(1) [OF True] by fastforce
  next
    case False
    then have a: "a \<in> set (map pa_ID (assets db))" and r: "insert_assets i (Suc n) as (db\<lparr>draft_assets := draft_assets db @ [(i, a, n)]\<rparr>) = Inr db'"
      using "2.prems" by (auto split: if_splits)
    obtain new where new: "draft_assets db' = (draft_assets db @ [(i, a, n)]) @ new" "length new \<le> length as"
      "\<forall>(d, a, _) \<in> set new. d = i \<and> a \<in> set (map pa_ID (assets db))"
      using "2.IH"(2) [OF False] a r by auto
    show ?thesis using new a by (intro exI [of _ "(i, a, n) # new"]) simp
  qed
qed simp

text \<open>A successful save is the three writes in order.\<close>

lemma SaveDraft_steps:
  assumes "SaveDraft env newID inp db = (db', Inr d')"
  obtains d db1 where "write_draft env newID inp db = Inr (d, db1)" "d' = d\<lparr>AssetIDs := di_AssetIDs inp\<rparr>"
    "write_revision (revision_of inp d) db1 = Inr (db1\<lparr>revisions := revisions db1 @ [revision_of inp d]\<rparr>)"
    "insert_assets (pd_ID d) 0 (di_AssetIDs inp) (db1\<lparr>revisions := revisions db1 @ [revision_of inp d],
       draft_assets := filter (\<lambda>(x, _). x \<noteq> pd_ID d) (draft_assets db1)\<rparr>) = Inr db'" "length (di_AssetIDs inp) \<le> 20"
proof -
  have len: "length (di_AssetIDs inp) \<le> 20"
    using assms by (simp add: SaveDraft_def ValidateAssetCount_def split: if_splits)
  obtain d db1 where w: "write_draft env newID inp db = Inr (d, db1)"
    using assms len by (auto simp: SaveDraft_def ValidateAssetCount_def rbind_def split: sum.splits)
  obtain db2 where r: "write_revision (revision_of inp d) db1 = Inr db2"
    using assms len w by (auto simp: SaveDraft_def ValidateAssetCount_def split: sum.splits) (auto simp: rbind_def split: sum.splits)
  note r2 = write_revision_ok [OF r]
  show ?thesis
  proof (rule that [OF w _ _ _ len])
    show "write_revision (revision_of inp d) db1 = Inr (db1\<lparr>revisions := revisions db1 @ [revision_of inp d]\<rparr>)" using r r2 by simp
    show "d' = d\<lparr>AssetIDs := di_AssetIDs inp\<rparr>"
      using assms len w r by (auto simp: SaveDraft_def ValidateAssetCount_def rbind_def split: sum.splits)
    show "insert_assets (pd_ID d) 0 (di_AssetIDs inp) (db1\<lparr>revisions := revisions db1 @ [revision_of inp d],
       draft_assets := filter (\<lambda>(x, _). x \<noteq> pd_ID d) (draft_assets db1)\<rparr>) = Inr db'"
      using assms len w r by (auto simp: SaveDraft_def ValidateAssetCount_def rbind_def r2 split: sum.splits)
  qed
qed

lemma SaveDraft_refused: "SaveDraft env newID inp db = (db', Inl err) \<Longrightarrow> db' = db"
  by (auto simp: SaveDraft_def split: sum.splits)

lemma history_none: "drafts_ok db \<Longrightarrow> i \<notin> set (map pd_ID (drafts db)) \<Longrightarrow> draft_history i db = []"
  by (auto simp: drafts_ok_def draft_history_def filter_empty_conv)

lemma history_snoc:
  "draft_history i (db\<lparr>revisions := rs @ [r]\<rparr>) = draft_history i (db\<lparr>revisions := rs\<rparr>) @ (if pv_DraftID r = i then [r] else [])"
  by (simp add: draft_history_def)

text \<open>The draft written and its new revision agree.\<close>

lemma saved_draft_ok:
  assumes ok: "drafts_ok db" and w: "write_draft env newID inp db = Inr (d, db1)" and db': "revisions db' = revisions db @ [revision_of inp d]"
  shows "draft_ok db' d"
proof -
  let ?h = "draft_history (pd_ID d) db"
  have h: "draft_history (pd_ID d) db' = ?h @ [revision_of inp d]" using db' by (simp add: draft_history_def revision_of_def)
  have v: "map pv_Version ?h = map int [1..<nat (CurrentVersion d)]" "draft_check d" "1 \<le> CurrentVersion d"
  proof -
    show c: "draft_check d" using write_draft_cases [OF w] by blast
    then show p: "1 \<le> CurrentVersion d" by (simp add: draft_check_def)
    show "map pv_Version ?h = map int [1..<nat (CurrentVersion d)]" using write_draft_cases [OF w]
    proof (elim disjE bexE conjE)
      assume "pd_ID d \<notin> set (map pd_ID (drafts db))" "CurrentVersion d = 1"
      then show ?thesis using history_none [OF ok] by simp
    next
      fix d0 assume a: "d0 \<in> set (drafts db)" "pd_ID d0 = pd_ID d" "CurrentVersion d = CurrentVersion d0 + 1"
      have "draft_ok db d0" using ok a(1) by (simp add: drafts_ok_def)
      then have "map pv_Version ?h = map int [1..<nat (CurrentVersion d0) + 1]" "1 \<le> CurrentVersion d0"
        by (simp_all add: draft_ok_def Let_def a(2) draft_check_def)
      moreover have "nat (CurrentVersion d) = nat (CurrentVersion d0) + 1" using a(3) calculation(2) by simp
      ultimately show ?thesis by simp
    qed
  qed
  have "[1..<nat (CurrentVersion d) + 1] = [1..<nat (CurrentVersion d)] @ [nat (CurrentVersion d)]" using v(3) by simp
  then show ?thesis using v by (simp add: draft_ok_def h revision_of_def)
qed

lemma other_draft_ok:
  assumes "draft_ok db x" "revisions db' = revisions db @ [r]" "pv_DraftID r \<noteq> pd_ID x"
  shows "draft_ok db' x"
  using assms by (simp add: draft_ok_def draft_history_def)

lemma draft_ok_revisions: "revisions b = revisions a \<Longrightarrow> draft_ok b d = draft_ok a d"
  by (simp add: draft_ok_def draft_history_def)

lemma SaveDraft_drafts_ok:
  assumes ok: "drafts_ok db" and sv: "SaveDraft env newID inp db = (db', Inr d')"
  shows "drafts_ok db' \<and> history_kept db db' \<and> channels db' = channels db \<and> assets db' = assets db"
proof (rule SaveDraft_steps [OF sv])
  fix d db1
  assume w: "write_draft env newID inp db = Inr (d, db1)"
    and i: "insert_assets (pd_ID d) 0 (di_AssetIDs inp) (db1\<lparr>revisions := revisions db1 @ [revision_of inp d],
       draft_assets := filter (\<lambda>(x, _). x \<noteq> pd_ID d) (draft_assets db1)\<rparr>) = Inr db'"
  note o = write_draft_other [OF w] and io = insert_assets_other [OF i]
  have r: "revisions db' = revisions db @ [revision_of inp d]" and rec: "records db' = records db" and dr: "drafts db' = drafts db1"
    using o io by simp_all
  have k: "history_kept db db'" by (simp add: history_kept_def r rec)
  have new: "draft_ok db' d" by (rule saved_draft_ok [OF ok w r])
  have old: "draft_ok db' x" if "x \<in> set (drafts db)" "pd_ID x \<noteq> pd_ID d" for x
    using other_draft_ok [OF _ r, of x] ok that by (simp add: drafts_ok_def revision_of_def)
  have ids: "set (map pd_ID (drafts db')) = insert (pd_ID d) (set (map pd_ID (drafts db)))" using o dr by simp
  have "distinct (map pd_ID (drafts db')) \<and> (\<forall>x \<in> set (drafts db'). draft_ok db' x)"
    using write_draft_cases [OF w]
  proof (elim disjE bexE conjE)
    assume a: "pd_ID d \<notin> set (map pd_ID (drafts db))" "db1 = db\<lparr>drafts := drafts db @ [d]\<rparr>"
    have "pd_ID x \<noteq> pd_ID d" if "x \<in> set (drafts db)" for x using a(1) that by (metis image_eqI set_map)
    then show ?thesis using ok a new old by (auto simp: dr drafts_ok_def)
  next
    fix d0 assume a: "db1 = put_draft d db"
    then show ?thesis using ok new old put_draft_set by (metis dr drafts_ok_def put_draft_ids)
  qed
  moreover have "\<forall>x \<in> set (revisions db'). pv_DraftID x \<in> set (map pd_ID (drafts db'))"
    using ok unfolding ids by (simp add: r drafts_ok_def revision_of_def)
  moreover have "\<forall>p \<in> set (records db'). record_ok db' p" using ok record_ok_kept [OF _ k] by (simp add: rec drafts_ok_def)
  ultimately show ?thesis using k o io by (simp add: drafts_ok_def)
qed

lemma SaveDraft_refs_ok:
  assumes ok: "refs_ok db" and sv: "SaveDraft env newID inp db = (db', Inr d')"
  shows "refs_ok db'"
proof (rule SaveDraft_steps [OF sv])
  fix d db1
  assume w: "write_draft env newID inp db = Inr (d, db1)" and n: "length (di_AssetIDs inp) \<le> 20"
    and i: "insert_assets (pd_ID d) 0 (di_AssetIDs inp) (db1\<lparr>revisions := revisions db1 @ [revision_of inp d],
       draft_assets := filter (\<lambda>(x, _). x \<noteq> pd_ID d) (draft_assets db1)\<rparr>) = Inr db'"
  note o = write_draft_other [OF w] and io = insert_assets_other [OF i]
  let ?kept = "filter (\<lambda>(x, _). x \<noteq> pd_ID d) (draft_assets db)"
  have as: "set (map pa_ID (assets db')) = set (map pa_ID (assets db))" and dr: "set (map pd_ID (drafts db')) = insert (pd_ID d) (set (map pd_ID (drafts db)))"
    using o io by simp_all
  obtain new where new: "draft_assets db' = ?kept @ new" "length new \<le> 20" "\<forall>(x, a, _) \<in> set new. x = pd_ID d \<and> a \<in> set (map pa_ID (assets db))"
    using insert_assets_refs [OF i] n o by auto
  have "distinct (map (\<lambda>(d, a, _). (d, a)) ?kept)" using ok by (simp add: refs_ok_def distinct_map_filter)
  then have "distinct (map (\<lambda>(d, a, _). (d, a)) (draft_assets db'))" using insert_assets_distinct [OF i] o by simp
  moreover have "\<forall>(x, a, _) \<in> set (draft_assets db'). x \<in> set (map pd_ID (drafts db')) \<and> a \<in> set (map pa_ID (assets db'))"
    using ok new(3) unfolding as dr by (auto simp: new(1) refs_ok_def)
  moreover have "length (filter (\<lambda>(x, _). x = j) (draft_assets db')) \<le> 20" for j
  proof (cases "j = pd_ID d")
    case True
    have "filter (\<lambda>(x, _). x = j) ?kept = []" by (auto simp: True filter_empty_conv)
    then show ?thesis using new(1,2) le_trans [OF length_filter_le] by (metis append_Nil filter_append)
  next
    case False
    have "filter (\<lambda>(x, _). x = j) new = []" using new(3) False by (auto simp: filter_empty_conv)
    moreover have "filter (\<lambda>(x, _). x = j) ?kept = filter (\<lambda>(x, _). x = j) (draft_assets db)"
      using False by (auto simp: filter_filter intro!: filter_cong)
    ultimately show ?thesis using ok by (simp add: new(1) refs_ok_def)
  qed
  ultimately show ?thesis by (simp add: refs_ok_def)
qed

section \<open>The other operations\<close>

lemma ArchiveDraft_ok:
  assumes "drafts_ok db"
  shows "drafts_ok (fst (ArchiveDraft env i t db))"
proof (cases "find (own_draft env i) (drafts db)")
  case None
  then show ?thesis using assms by (simp add: ArchiveDraft_def)
next
  case (Some d)
  then have m: "d \<in> set (drafts db)" by (auto simp: find_Some_iff)
  let ?d = "d\<lparr>pd_Status := ''ARCHIVED'', pd_ScheduledAt := None, pd_UpdatedAt := t\<rparr>"
  have e: "fst (ArchiveDraft env i t db) = put_draft ?d db" by (simp add: ArchiveDraft_def Some Let_def)
  have "draft_ok db d" using assms m by (simp add: drafts_ok_def)
  then have d: "draft_ok db ?d" by (simp add: draft_ok_def draft_check_def Let_def del: upt_Suc)
  have "draft_ok (put_draft ?d db) x" if "x \<in> set (drafts (put_draft ?d db))" for x
    using put_draft_set [OF that] d assms draft_ok_revisions [of "put_draft ?d db" db] by (auto simp: drafts_ok_def)
  then show ?thesis using assms unfolding e
    by (simp add: drafts_ok_def record_ok_def del: set_map) 
qed

lemma ArchiveDraft_other:
  "revisions (fst (ArchiveDraft env i t db)) = revisions db \<and> records (fst (ArchiveDraft env i t db)) = records db
   \<and> channels (fst (ArchiveDraft env i t db)) = channels db \<and> assets (fst (ArchiveDraft env i t db)) = assets db
   \<and> draft_assets (fst (ArchiveDraft env i t db)) = draft_assets db
   \<and> map pd_ID (drafts (fst (ArchiveDraft env i t db))) = map pd_ID (drafts db)"
  by (simp add: ArchiveDraft_def Let_def split: option.splits del: map_map)

lemma refs_ok_ids:
  assumes "refs_ok a" "draft_assets b = draft_assets a" "set (map pd_ID (drafts a)) \<subseteq> set (map pd_ID (drafts b))"
    "set (map pa_ID (assets a)) \<subseteq> set (map pa_ID (assets b))"
  shows "refs_ok b"
  using assms unfolding refs_ok_def by (fastforce simp del: set_map)

text \<open>Replacing the row with a given key by one that agrees with it on \<open>f\<close> leaves all values of \<open>f\<close> alone.\<close>

lemma replace_row:
  assumes "distinct (map k xs)" "x \<in> set xs" "\<And>y. P y \<longleftrightarrow> k y = k x" "f x' = f x"
  shows "map f (map (\<lambda>y. if P y then x' else y) xs) = map f xs"
proof -
  have "f (if P y then x' else y) = f y" if "y \<in> set xs" for y
    using assms(1-3) that inj_onD [of k "set xs" y x] by (auto simp: distinct_map assms(4))
  then show ?thesis by simp
qed

lemma replace_row_set: "y \<in> set (map (\<lambda>y. if P y then x' else y) xs) \<Longrightarrow> y = x' \<or> y \<in> set xs"
  by (auto split: if_splits)

lemma UpsertAsset_other:
  "drafts (fst (UpsertAsset lc env newID a db)) = drafts db \<and> revisions (fst (UpsertAsset lc env newID a db)) = revisions db
   \<and> records (fst (UpsertAsset lc env newID a db)) = records db \<and> channels (fst (UpsertAsset lc env newID a db)) = channels db
   \<and> draft_assets (fst (UpsertAsset lc env newID a db)) = draft_assets db"
  by (simp add: UpsertAsset_def Let_def split: option.splits)

lemma RemoveAsset_other:
  "drafts (fst (RemoveAsset env i db)) = drafts db \<and> revisions (fst (RemoveAsset env i db)) = revisions db
   \<and> records (fst (RemoveAsset env i db)) = records db \<and> channels (fst (RemoveAsset env i db)) = channels db
   \<and> draft_assets (fst (RemoveAsset env i db)) = draft_assets db"
  by (simp add: RemoveAsset_def)

text \<open>Updating an asset by its name keeps its identifier; removing one is refused while a draft refers to it.\<close>

lemma UpsertAsset_ok:
  assumes "assets_ok db"
  shows "assets_ok (fst (UpsertAsset lc env newID a db)) \<and> set (map pa_ID (assets db)) \<subseteq> set (map pa_ID (assets (fst (UpsertAsset lc env newID a db))))"
proof -
  define row where "row = asset_row env newID a"
  let ?k = "\<lambda>x. (pa_Environment x, pa_Name x)"
  show ?thesis
  proof (cases "find (same_asset row) (assets db)")
    case None
    then have n: "?k row \<notin> set (map ?k (assets db))" by (auto simp: find_None_iff same_asset_def)
    have "fst (UpsertAsset lc env newID a db) = db
      \<or> pa_ID row \<notin> set (map pa_ID (assets db)) \<and> fst (UpsertAsset lc env newID a db) = db\<lparr>assets := assets db @ [row]\<rparr>"
      by (simp add: UpsertAsset_def Let_def None flip: row_def)
    then show ?thesis using assms n by (auto simp: assets_ok_def)
  next
    case (Some x)
    then have x: "x \<in> set (assets db)" "same_asset row x" by (auto simp: find_Some_iff)
    have k: "same_asset row y \<longleftrightarrow> ?k y = ?k x" for y using x(2) by (auto simp: same_asset_def)
    have d: "distinct (map ?k (assets db))" using assms by (simp add: assets_ok_def)
    have u: "pa_ID (asset_update row x) = pa_ID x" "?k (asset_update row x) = ?k x" by (simp_all add: asset_update_def)
    have "fst (UpsertAsset lc env newID a db) = db
      \<or> fst (UpsertAsset lc env newID a db) = db\<lparr>assets := map (\<lambda>y. if same_asset row y then asset_update row x else y) (assets db)\<rparr>"
      by (simp add: UpsertAsset_def Let_def Some flip: row_def)
    then show ?thesis
      using assms replace_row [OF d x(1) k u(1)] replace_row [OF d x(1) k u(2)] by (elim disjE) (simp_all add: assets_ok_def del: map_map set_map)
  qed
qed

lemma UpsertChannel_ok:
  assumes "channels_ok db"
  shows "channels_ok (fst (UpsertChannel env newID c db))"
proof -
  define row where "row = channel_row env newID c"
  let ?k = "\<lambda>x. (pc_Environment x, pc_Platform x, Handle x)"
  show ?thesis
  proof (cases "find (same_channel row) (channels db)")
    case None
    then have n: "?k row \<notin> set (map ?k (channels db))" by (auto simp: find_None_iff same_channel_def)
    have "fst (UpsertChannel env newID c db) = db
      \<or> channel_check row \<and> pc_ID row \<notin> set (map pc_ID (channels db)) \<and> fst (UpsertChannel env newID c db) = db\<lparr>channels := channels db @ [row]\<rparr>"
      by (simp add: UpsertChannel_def Let_def None flip: row_def)
    then show ?thesis using assms n by (auto simp: channels_ok_def)
  next
    case (Some x)
    then have x: "x \<in> set (channels db)" "same_channel row x" by (auto simp: find_Some_iff)
    have k: "same_channel row y \<longleftrightarrow> ?k y = ?k x" for y using x(2) by (auto simp: same_channel_def)
    have d: "distinct (map ?k (channels db))" using assms by (simp add: channels_ok_def)
    have u: "pc_ID (channel_update row x) = pc_ID x" "?k (channel_update row x) = ?k x" by (simp_all add: channel_update_def)
    have "fst (UpsertChannel env newID c db) = db \<or> channel_check (channel_update row x)
      \<and> fst (UpsertChannel env newID c db) = db\<lparr>channels := map (\<lambda>y. if same_channel row y then channel_update row x else y) (channels db)\<rparr>"
      by (simp add: UpsertChannel_def Let_def Some flip: row_def)
    then show ?thesis
      using assms replace_row [OF d x(1) k u(1)] replace_row [OF d x(1) k u(2)]
      by (elim disjE conjE) (auto simp: channels_ok_def simp del: map_map)
  qed
qed

lemma SetChannelStatus_ok:
  assumes "channels_ok db"
  shows "channels_ok (fst (SetChannelStatus env i st t db))"
proof (cases "find (own_channel env i) (channels db)")
  case None
  then show ?thesis using assms by (simp add: SetChannelStatus_def)
next
  case (Some x)
  then have x: "x \<in> set (channels db)" "own_channel env i x" by (auto simp: find_Some_iff)
  define x' where "x' = x\<lparr>pc_Status := st, pc_UpdatedAt := t\<rparr>"
  let ?k = "\<lambda>x. (pc_ID x, pc_Environment x)"
  have k: "own_channel env i y \<longleftrightarrow> ?k y = ?k x" for y using x(2) by (auto simp: own_channel_def)
  have d: "distinct (map ?k (channels db))" using assms by (auto simp: channels_ok_def distinct_map inj_on_def)
  have "fst (SetChannelStatus env i st t db) = db \<or> channel_check x'
    \<and> fst (SetChannelStatus env i st t db) = db\<lparr>channels := map (\<lambda>y. if own_channel env i y then x' else y) (channels db)\<rparr>"
    by (simp add: SetChannelStatus_def Let_def Some x'_def)
  then show ?thesis
    using assms replace_row [OF d x(1) k, of pc_ID x'] replace_row [OF d x(1) k, of "\<lambda>x. (pc_Environment x, pc_Platform x, Handle x)" x']
    by (elim disjE conjE) (auto simp: channels_ok_def x'_def simp del: map_map)
qed

lemma channel_ops_other:
  "drafts (fst (UpsertChannel env newID c db)) = drafts db \<and> revisions (fst (UpsertChannel env newID c db)) = revisions db
   \<and> records (fst (UpsertChannel env newID c db)) = records db \<and> assets (fst (UpsertChannel env newID c db)) = assets db
   \<and> draft_assets (fst (UpsertChannel env newID c db)) = draft_assets db"
  "drafts (fst (SetChannelStatus env i st t db)) = drafts db \<and> revisions (fst (SetChannelStatus env i st t db)) = revisions db
   \<and> records (fst (SetChannelStatus env i st t db)) = records db \<and> assets (fst (SetChannelStatus env i st t db)) = assets db
   \<and> draft_assets (fst (SetChannelStatus env i st t db)) = draft_assets db"
  by (simp_all add: UpsertChannel_def SetChannelStatus_def Let_def split: option.splits)

lemma RemoveAsset_ok:
  assumes "assets_ok db" "refs_ok db"
  shows "assets_ok (fst (RemoveAsset env i db)) \<and> refs_ok (fst (RemoveAsset env i db))"
proof (cases "fst (RemoveAsset env i db) = db")
  case False
  then have e: "fst (RemoveAsset env i db) = db\<lparr>assets := filter (\<lambda>a. \<not> own_asset env i a) (assets db)\<rparr>"
    and n: "i \<notin> set (map (\<lambda>(_, a, _). a) (draft_assets db))"
    by (auto simp: RemoveAsset_def split: if_splits)
  have "a \<in> set (map pa_ID (filter (\<lambda>a. \<not> own_asset env i a) (assets db)))" if "(d, a, m) \<in> set (draft_assets db)" for d a m
  proof -
    have "a \<in> set (map pa_ID (assets db))" using assms(2) that by (auto simp: refs_ok_def)
    moreover have "a \<noteq> i" using n that by force
    ultimately show ?thesis by (auto simp: own_asset_def)
  qed
  then have "refs_ok (fst (RemoveAsset env i db))" using assms(2) unfolding e refs_ok_def by fastforce
  then show ?thesis using assms(1) unfolding e by (simp add: assets_ok_def distinct_map_filter)
qed (use assms in simp)

section \<open>Publishing\<close>

definition pinned_record :: "string \<Rightarrow> string \<Rightarrow> uuid \<Rightarrow> time \<Rightarrow> PublishRequest \<Rightarrow> Draft \<Rightarrow> Channel \<Rightarrow> PublishRecord" where
  "pinned_record env reason newID now inp d c = \<lparr>pp_ID = newID, pp_Environment = env, pp_DraftID = pd_ID d, DraftVersion = CurrentVersion d,
     pp_ChannelID = pc_ID c, pp_ScheduledAt = pd_ScheduledAt d, pp_RequestedBy = rq_RequestedBy inp, pp_Result = ResultNotDelivered,
     ExternalRef = [], pp_DeliveredAt = None, Detail = reason, pp_CreatedAt = now\<rparr>"

lemma GetDraft_Inr:
  "GetDraft env i db = Inr d \<Longrightarrow> \<exists>d0 \<in> set (drafts db). pd_ID d0 = i \<and> pd_Environment d0 = env \<and> d = d0\<lparr>AssetIDs := AssetIDs d\<rparr>"
  by (auto simp: GetDraft_def find_Some_iff own_draft_def split: option.splits intro!: nth_mem)

lemma GetChannel_Inr: "GetChannel env i db = Inr c \<Longrightarrow> c \<in> set (channels db) \<and> pc_ID c = i \<and> pc_Environment c = env"
  by (auto simp: GetChannel_def find_Some_iff own_channel_def split: option.splits)

lemma Publish_cases:
  obtains (refused) err db' where "Publish env dl o1 o2 reason newID now inp db = (db', Inl err)" "db' = db \<or> db' = o1 db \<or> db' = o2 (o1 db)"
  | (recorded) d c where "GetDraft env (rq_DraftID inp) db = Inr d" "pd_Status d \<noteq> DraftArchived"
      "GetChannel env (rq_ChannelID inp) (o1 db) = Inr c" "AcceptsContent c" "pc_Platform c \<notin> set dl"
      "record_check (pinned_record env reason newID now inp d c)"
      "Publish env dl o1 o2 reason newID now inp db =
        ((o2 (o1 db))\<lparr>records := records (o2 (o1 db)) @ [pinned_record env reason newID now inp d c]\<rparr>,
         Inr \<lparr>Outcome_Record = pinned_record env reason newID now inp d c, Outcome_Delivered = False, Outcome_Reason = reason\<rparr>)"
proof (cases "GetDraft env (rq_DraftID inp) db")
  case (Inl err)
  then show ?thesis using refused by (simp add: Publish_def)
next
  case d: (Inr d)
  show ?thesis
  proof (cases "pd_Status d = DraftArchived")
    case True
    then show ?thesis using refused d by (simp add: Publish_def)
  next
    case na: False
    show ?thesis
    proof (cases "GetChannel env (rq_ChannelID inp) (o1 db)")
      case (Inl err)
      then show ?thesis using refused d na by (simp add: Publish_def)
    next
      case c: (Inr c)
      let ?p = "(pinned_record env reason newID now inp d c)\<lparr>pp_Environment := []\<rparr>"
      have r: "(if pp_ID ?p = 0 then ?p\<lparr>pp_ID := newID\<rparr> else ?p)\<lparr>pp_Environment := env\<rparr> = pinned_record env reason newID now inp d c"
        by (simp add: pinned_record_def)
      show ?thesis
      proof (cases "AcceptsContent c \<and> pc_Platform c \<notin> set dl")
        case False
        then have "\<exists>err. Publish env dl o1 o2 reason newID now inp db = (o1 db, Inl err)"
          using d na c by (simp add: Publish_def DelivererFor_def Let_def)
        then show ?thesis using refused by blast
      next
        case True
        then have e: "Publish env dl o1 o2 reason newID now inp db = (case CreatePublishRecord env newID ?p (o2 (o1 db)) of
            (db, Inl err) \<Rightarrow> (db, Inl err)
          | (db, Inr saved) \<Rightarrow> (db, Inr \<lparr>Outcome_Record = saved, Outcome_Delivered = False, Outcome_Reason = reason\<rparr>))"
          using d na c by (simp add: Publish_def DelivererFor_def pinned_record_def)
        let ?q = "pinned_record env reason newID now inp d c"
        have "(\<exists>err. CreatePublishRecord env newID ?p (o2 (o1 db)) = (o2 (o1 db), Inl err))
          \<or> record_check ?q \<and> CreatePublishRecord env newID ?p (o2 (o1 db)) = ((o2 (o1 db))\<lparr>records := records (o2 (o1 db)) @ [?q]\<rparr>, Inr ?q)"
          unfolding CreatePublishRecord_def Let_def r by simp
        then show ?thesis using refused [of "o2 (o1 db)"] recorded [OF d na c] True e by (elim disjE exE conjE) simp_all
      qed
    qed
  qed
qed

text \<open>The current version of a draft is its last revision.\<close>

lemma current_revision:
  assumes "draft_ok db d"
  shows "\<exists>r \<in> set (revisions db). pv_DraftID r = pd_ID d \<and> pv_Version r = CurrentVersion d \<and> pv_Title r = pd_Title d \<and> pv_Body r = Body d
    \<and> (pd_Status d \<noteq> DraftArchived \<longrightarrow> pv_ScheduledAt r = pd_ScheduledAt d)"
proof -
  let ?h = "draft_history (pd_ID d) db"
  have h: "map pv_Version ?h = map int [1..<nat (CurrentVersion d) + 1]" "1 \<le> CurrentVersion d" "pv_Title (last ?h) = pd_Title d"
    "pv_Body (last ?h) = Body d" "pd_Status d \<noteq> DraftArchived \<longrightarrow> pv_ScheduledAt (last ?h) = pd_ScheduledAt d"
    using assms by (simp_all add: draft_ok_def Let_def draft_check_def)
  have e: "[1..<nat (CurrentVersion d) + 1] = [1..<nat (CurrentVersion d)] @ [nat (CurrentVersion d)]" using h(2) by simp
  have ne: "?h \<noteq> []" using h(1) unfolding e by auto
  have "pv_Version (last ?h) = last (map pv_Version ?h)" using ne by (simp add: last_map)
  then have "pv_Version (last ?h) = CurrentVersion d" using h(2) unfolding h(1) e by simp
  moreover have "last ?h \<in> set (revisions db)" "pv_DraftID (last ?h) = pd_ID d"
    using last_in_set [OF ne] by (simp_all add: draft_history_def)
  ultimately show ?thesis using h(3-5) by blast
qed

lemma pinned_record_ok:
  assumes "drafts_ok db" "GetDraft env i db = Inr d" "pd_Status d \<noteq> DraftArchived" "record_check (pinned_record env reason newID now inp d c)"
  shows "record_ok db (pinned_record env reason newID now inp d c)"
proof -
  obtain d0 where d0: "d0 \<in> set (drafts db)" "d = d0\<lparr>AssetIDs := AssetIDs d\<rparr>" using GetDraft_Inr [OF assms(2)] by blast
  define as where "as = AssetIDs d"
  have d: "d = d0\<lparr>AssetIDs := as\<rparr>" using d0(2) by (simp add: as_def)
  have "draft_ok db d0" using assms(1) d0(1) by (simp add: drafts_ok_def)
  then obtain r where "r \<in> set (revisions db)" "pv_DraftID r = pd_ID d0" "pv_Version r = CurrentVersion d0"
    "pd_Status d0 \<noteq> DraftArchived \<longrightarrow> pv_ScheduledAt r = pd_ScheduledAt d0" using current_revision by blast
  then show ?thesis using assms(3,4) by (auto simp: record_ok_def pinned_record_def d)
qed

section \<open>All interleavings\<close>

text \<open>A publish request reads the draft, reads the channel and writes its record with other operations in between.\<close>

inductive pub_steps :: "PubDB \<Rightarrow> PubDB \<Rightarrow> bool" where
  start: "pub_steps a a"
| save: "pub_steps a b \<Longrightarrow> pub_steps a (fst (SaveDraft env newID inp b))"
| archive: "pub_steps a b \<Longrightarrow> pub_steps a (fst (ArchiveDraft env i t b))"
| channel: "pub_steps a b \<Longrightarrow> pub_steps a (fst (UpsertChannel env newID c b))"
| status: "pub_steps a b \<Longrightarrow> pub_steps a (fst (SetChannelStatus env i st t b))"
| asset: "pub_steps a b \<Longrightarrow> pub_steps a (fst (UpsertAsset lc env newID x b))"
| remove: "pub_steps a b \<Longrightarrow> pub_steps a (fst (RemoveAsset env i b))"
| publish: "pub_steps a b \<Longrightarrow> pub_steps b (o1 b) \<Longrightarrow> pub_steps (o1 b) (o2 (o1 b))
    \<Longrightarrow> pub_steps a (fst (Publish env dl o1 o2 reason newID now inp b))"

lemma pub_ok_save:
  assumes "pub_ok b"
  shows "pub_ok (fst (SaveDraft env newID inp b)) \<and> history_kept b (fst (SaveDraft env newID inp b))"
proof (cases "SaveDraft env newID inp b")
  case (Pair db' r)
  show ?thesis
  proof (cases r)
    case (Inl err)
    then show ?thesis using SaveDraft_refused [of env newID inp b db' err] Pair assms by simp
  next
    case (Inr d')
    have sv: "SaveDraft env newID inp b = (db', Inr d')" using Pair Inr by simp
    then show ?thesis using assms SaveDraft_drafts_ok [OF _ sv] SaveDraft_refs_ok [OF _ sv]
      by (simp add: pub_ok_def assets_ok_def channels_ok_def)
  qed
qed

lemma pub_ok_archive:
  assumes "pub_ok b"
  shows "pub_ok (fst (ArchiveDraft env i t b)) \<and> history_kept b (fst (ArchiveDraft env i t b))"
proof -
  note o = ArchiveDraft_other [of env i t b]
  have "refs_ok (fst (ArchiveDraft env i t b))" using refs_ok_ids [of b] assms o by (simp add: pub_ok_def del: set_map)
  then show ?thesis using assms ArchiveDraft_ok [of b] o
    by (simp add: pub_ok_def history_kept_def assets_ok_def channels_ok_def)
qed

lemma pub_ok_channel:
  assumes "pub_ok b"
  shows "pub_ok (fst (UpsertChannel env newID c b)) \<and> history_kept b (fst (UpsertChannel env newID c b))"
    "pub_ok (fst (SetChannelStatus env i st t b)) \<and> history_kept b (fst (SetChannelStatus env i st t b))"
proof -
  have r: "pub_ok x \<and> history_kept b x" if "drafts x = drafts b \<and> revisions x = revisions b \<and> records x = records b
    \<and> assets x = assets b \<and> draft_assets x = draft_assets b" "channels_ok x" for x
  proof -
    have "drafts_ok x = drafts_ok b" "refs_ok x = refs_ok b" using that(1)
      by (simp_all add: drafts_ok_def draft_ok_def record_ok_def draft_history_def refs_ok_def)
    then show ?thesis using assms that by (simp add: pub_ok_def history_kept_def assets_ok_def)
  qed
  have "channels_ok b" using assms by (simp add: pub_ok_def)
  then show "pub_ok (fst (UpsertChannel env newID c b)) \<and> history_kept b (fst (UpsertChannel env newID c b))"
    "pub_ok (fst (SetChannelStatus env i st t b)) \<and> history_kept b (fst (SetChannelStatus env i st t b))"
    using r [OF channel_ops_other(1) UpsertChannel_ok] r [OF channel_ops_other(2) SetChannelStatus_ok] by blast+
qed

lemma pub_ok_asset:
  assumes "pub_ok b"
  shows "pub_ok (fst (UpsertAsset lc env newID x b)) \<and> history_kept b (fst (UpsertAsset lc env newID x b))"
    "pub_ok (fst (RemoveAsset env i b)) \<and> history_kept b (fst (RemoveAsset env i b))"
proof -
  have r: "pub_ok y \<and> history_kept b y" if "drafts y = drafts b \<and> revisions y = revisions b \<and> records y = records b
    \<and> channels y = channels b \<and> draft_assets y = draft_assets b" "assets_ok y" "refs_ok y" for y
  proof -
    have "drafts_ok y = drafts_ok b" "channels_ok y = channels_ok b" using that(1)
      by (simp_all add: drafts_ok_def draft_ok_def record_ok_def draft_history_def channels_ok_def)
    then show ?thesis using assms that by (simp add: pub_ok_def history_kept_def)
  qed
  have ok: "assets_ok b" "refs_ok b" using assms by (simp_all add: pub_ok_def)
  have u: "assets_ok (fst (UpsertAsset lc env newID x b))" "refs_ok (fst (UpsertAsset lc env newID x b))"
    using UpsertAsset_ok [OF ok(1), of lc env newID x] UpsertAsset_other [of lc env newID x b]
    by (auto intro!: refs_ok_ids [OF ok(2)] simp del: set_map)
  show "pub_ok (fst (UpsertAsset lc env newID x b)) \<and> history_kept b (fst (UpsertAsset lc env newID x b))"
    using r [OF UpsertAsset_other u] .
  show "pub_ok (fst (RemoveAsset env i b)) \<and> history_kept b (fst (RemoveAsset env i b))"
    using r [OF RemoveAsset_other] RemoveAsset_ok [OF ok, of env i] by blast
qed

lemma pub_ok_publish:
  assumes "pub_ok b" "pub_ok (o1 b)" "pub_ok (o2 (o1 b))" "history_kept b (o1 b)" "history_kept (o1 b) (o2 (o1 b))"
  shows "pub_ok (fst (Publish env dl o1 o2 reason newID now inp b)) \<and> history_kept b (fst (Publish env dl o1 o2 reason newID now inp b))"
proof (rule Publish_cases [of env dl o1 o2 reason newID now inp b])
  fix err db'
  assume "Publish env dl o1 o2 reason newID now inp b = (db', Inl err)" "db' = b \<or> db' = o1 b \<or> db' = o2 (o1 b)"
  then show ?thesis using assms history_kept_trans by auto
next
  fix d c
  let ?p = "pinned_record env reason newID now inp d c" and ?b = "o2 (o1 b)"
  assume g: "GetDraft env (rq_DraftID inp) b = Inr d" "pd_Status d \<noteq> DraftArchived" "record_check ?p"
    and e: "Publish env dl o1 o2 reason newID now inp b = (?b\<lparr>records := records ?b @ [?p]\<rparr>,
       Inr \<lparr>Outcome_Record = ?p, Outcome_Delivered = False, Outcome_Reason = reason\<rparr>)"
  have k: "history_kept b ?b" using assms(4,5) by (rule history_kept_trans)
  have "record_ok b ?p" using assms(1) g by (intro pinned_record_ok) (simp_all add: pub_ok_def)
  then have p: "record_ok ?b ?p" using k by (rule record_ok_kept)
  have "drafts_ok (?b\<lparr>records := records ?b @ [?p]\<rparr>)"
    using assms(3) p by (simp add: pub_ok_def drafts_ok_def draft_ok_def draft_history_def record_ok_def)
  moreover have "refs_ok (?b\<lparr>records := records ?b @ [?p]\<rparr>)" "assets_ok (?b\<lparr>records := records ?b @ [?p]\<rparr>)"
    "channels_ok (?b\<lparr>records := records ?b @ [?p]\<rparr>)" using assms(3) by (simp_all add: pub_ok_def refs_ok_def assets_ok_def channels_ok_def)
  moreover have "history_kept b (?b\<lparr>records := records ?b @ [?p]\<rparr>)" using k by (auto simp: history_kept_def)
  ultimately show ?thesis by (simp add: e pub_ok_def)
qed

text \<open>
  C16. Over every interleaving of saving, archiving, registering, removing and publishing - the three
  statements of a publish request among them - the tables stay consistent: each draft has exactly the
  revisions 1 to its current version, the last one with its title and text; a draft is scheduled
  exactly when it has a time; every publish record pins a revision that exists, with the time planned in it,
  and claims no delivery; references lead to existing drafts and assets, at most twenty of a draft;
  channels and assets are unique under their names. Revisions and records are only ever added.
\<close>
theorem publishing_invariant:
  assumes "pub_steps a b" "pub_ok a"
  shows "pub_ok b \<and> history_kept a b"
  using assms
proof (induction rule: pub_steps.induct)
  case (publish a b o1 o2 env dl reason newID now inp)
  then show ?case using pub_ok_publish [of b o1 o2 env dl reason newID now inp] history_kept_trans by blast
next
  case (save a b env newID inp)
  then show ?case using pub_ok_save [of b env newID inp] history_kept_trans by blast
next
  case (archive a b env i t)
  then show ?case using pub_ok_archive [of b env i t] history_kept_trans by blast
next
  case (channel a b env newID c)
  then show ?case using pub_ok_channel(1) [of b env newID c] history_kept_trans by blast
next
  case (status a b env i st t)
  then show ?case using pub_ok_channel(2) [of b env i st t] history_kept_trans by blast
next
  case (asset a b lc env newID x)
  then show ?case using pub_ok_asset(1) [of b lc env newID x] history_kept_trans by blast
next
  case (remove a b env i)
  then show ?case using pub_ok_asset(2) [of b env i] history_kept_trans by blast
qed simp

definition empty_pub :: PubDB where
  "empty_pub = \<lparr>channels = [], drafts = [], revisions = [], assets = [], draft_assets = [], records = []\<rparr>"

definition demo_input :: DraftInput where
  "demo_input = \<lparr>di_ID = None, di_Title = ''T'', di_Body = ''b'', di_ScheduledAt = Some 90, di_Note = [], di_AssetIDs = [],
     di_Actor = ''u'', di_Now = 10\<rparr>"

definition demo_channel :: Channel where
  "demo_channel = \<lparr>pc_ID = 0, pc_Environment = [], pc_Platform = ''x'', Handle = ''h'', pc_DisplayName = [], Purpose = [], pc_CredentialRef = [],
     pc_Status = ''ACTIVE'', pc_Note = [], pc_CreatedBy = ''u'', pc_CreatedAt = 5, pc_UpdatedAt = 0\<rparr>"

definition demo_pub :: PubDB where
  "demo_pub = fst (UpsertChannel ''production'' 2 demo_channel (fst (SaveDraft ''production'' 1 demo_input empty_pub)))"

definition demo_edited :: "PubDB \<Rightarrow> PubDB" where
  "demo_edited db = fst (SaveDraft ''production'' 9 (demo_input\<lparr>di_ID := Some 1, di_Body := ''other'', di_ScheduledAt := None\<rparr>) db)"

definition demo_request :: PublishRequest where
  "demo_request = \<lparr>rq_DraftID = 1, rq_ChannelID = 2, rq_RequestedBy = ''u''\<rparr>"

lemma demo_steps: "pub_steps empty_pub demo_pub" "pub_steps db (demo_edited db)" "pub_ok empty_pub"
  by (simp_all add: demo_pub_def demo_edited_def pub_steps.intros pub_ok_def drafts_ok_def refs_ok_def assets_ok_def channels_ok_def empty_pub_def)

theorem publishing_invariant_witness:
  "let b = fst (Publish ''production'' [] demo_edited (\<lambda>d. d) ''no'' 3 20 demo_request demo_pub)
   in pub_ok b \<and> length (records b) = 1 \<and> map DraftVersion (records b) = [1] \<and> map CurrentVersion (drafts b) = [2]"
proof -
  let ?b = "fst (Publish ''production'' [] demo_edited (\<lambda>d. d) ''no'' 3 20 demo_request demo_pub)"
  have "pub_steps empty_pub ?b"
    using pub_steps.publish [of empty_pub demo_pub demo_edited "\<lambda>d. d"] by (simp add: demo_steps pub_steps.start)
  then have "pub_ok ?b" using publishing_invariant demo_steps(3) by blast
  moreover have "length (records ?b) = 1 \<and> map DraftVersion (records ?b) = [1] \<and> map CurrentVersion (drafts ?b) = [2]" by code_simp
  ultimately show ?thesis by (simp add: Let_def)
qed

text \<open>
  C17. What a publish request does, on every branch and with others writing in between: if it is
  refused it has changed nothing itself; otherwise the draft, as first read, was not archived and
  the channel, as read after it, was active and without a deliverer, and exactly one record is added,
  which pins the version read and the time planned in it, names the requester, says that nothing was
  delivered and carries no external reference - and the answer says the same.
\<close>
theorem publish_exact:
  "case Publish env dl o1 o2 reason newID now inp db of
     (db', Inl err) \<Rightarrow> db' \<in> {db, o1 db, o2 (o1 db)}
   | (db', Inr out) \<Rightarrow> \<not> Outcome_Delivered out \<and> \<not> Delivered (Outcome_Record out) \<and> Outcome_Reason out = reason
       \<and> db' = (o2 (o1 db))\<lparr>records := records (o2 (o1 db)) @ [Outcome_Record out]\<rparr>
       \<and> (\<exists>d \<in> set (drafts db). pd_ID d = rq_DraftID inp \<and> pd_Environment d = env \<and> pd_Status d \<noteq> DraftArchived
           \<and> (\<exists>c \<in> set (channels (o1 db)). pc_ID c = rq_ChannelID inp \<and> pc_Environment c = env \<and> pc_Status c = ChannelActive
               \<and> pc_Platform c \<notin> set dl \<and> Outcome_Record out = pinned_record env reason newID now inp d c))"
proof (rule Publish_cases [of env dl o1 o2 reason newID now inp db])
  fix d c
  assume g: "GetDraft env (rq_DraftID inp) db = Inr d" "pd_Status d \<noteq> DraftArchived" "GetChannel env (rq_ChannelID inp) (o1 db) = Inr c"
    "AcceptsContent c" "pc_Platform c \<notin> set dl"
    and e: "Publish env dl o1 o2 reason newID now inp db =
        ((o2 (o1 db))\<lparr>records := records (o2 (o1 db)) @ [pinned_record env reason newID now inp d c]\<rparr>,
         Inr \<lparr>Outcome_Record = pinned_record env reason newID now inp d c, Outcome_Delivered = False, Outcome_Reason = reason\<rparr>)"
  obtain d0 where d0: "d0 \<in> set (drafts db)" "pd_ID d0 = rq_DraftID inp" "pd_Environment d0 = env" "d = d0\<lparr>AssetIDs := AssetIDs d\<rparr>"
    using GetDraft_Inr [OF g(1)] by blast
  define as where "as = AssetIDs d"
  have d: "d = d0\<lparr>AssetIDs := as\<rparr>" using d0(4) by (simp add: as_def)
  have p: "pinned_record env reason newID now inp d c = pinned_record env reason newID now inp d0 c" "pd_Status d0 \<noteq> DraftArchived"
    using g(2) by (simp_all add: pinned_record_def d)
  have c: "c \<in> set (channels (o1 db))" "pc_ID c = rq_ChannelID inp" "pc_Environment c = env" "pc_Status c = ChannelActive"
    using GetChannel_Inr [OF g(3)] g(4) by (simp_all add: AcceptsContent_def)
  have "\<not> Delivered (pinned_record env reason newID now inp d0 c)" by (simp add: Delivered_def pinned_record_def)
  then show ?thesis using e p d0(1-3) c g(5) by auto
qed auto

text \<open>The approval of a publish request freezes its parameters, and these name no version: what runs
  after the approval is the version current then, not the one the approvers read.\<close>

definition demo_context :: pub_context where
  "demo_context = \<lparr>cx_env = ''production'', cx_principal = Some \<lparr>p_ID = ''u'', p_Type = TypeHuman, IdentityZone = [], Issuer = [], Subject = [],
     ClientID = [], AuthenticationLevel = [], p_Environment = ''production'', Scopes = [], MFAAt = None\<rparr>, cx_now = 20, cx_newID = 3, cx_deliverers = [],
     cx_other = (\<lambda>d. d), cx_other2 = (\<lambda>d. d), cx_locale = \<lparr>pl_collate = (\<lambda>s. s), pl_uri = (\<lambda>s. True)\<rparr>, cx_reason = ''no'',
     cx_uuid_parse = (\<lambda>s. if s = ''1'' then Some 1 else if s = ''2'' then Some 2 else None), cx_uuid_text = dec_string,
     cx_time_parse = (\<lambda>s. None), cx_time_text = (\<lambda>t. ''t'')\<rparr>"

lemma submit_params_name_no_version:
  assumes "Schema_Validate (d_Schema publishSubmitDefinition) ps = Inr ()"
  shows "set (map fst ps) \<subseteq> {''draft_id'', ''channel_id''}"
proof -
  have "\<not> list_ex (\<lambda>(nm, _). nm \<notin> set (map f_Name (d_Schema publishSubmitDefinition))) ps"
  proof
    assume "list_ex (\<lambda>(nm, _). nm \<notin> set (map f_Name (d_Schema publishSubmitDefinition))) ps"
    then have "Schema_Validate (d_Schema publishSubmitDefinition) ps = Inl ErrUnknownField" by (simp only: Schema_Validate_def if_True)
    then show False using assms by simp
  qed
  then have "set (map fst ps) \<subseteq> set (map f_Name (d_Schema publishSubmitDefinition))" by (auto simp: list_ex_iff)
  moreover have "map f_Name (d_Schema publishSubmitDefinition) = [''draft_id'', ''channel_id'']" by (simp add: publishSubmitDefinition_def)
  ultimately show ?thesis by (simp only: list.set)
qed

lemma approval_does_not_pin_version:
  "let ps = [(''draft_id'', VString ''1''), (''channel_id'', VString ''2'')]
   in map DraftVersion (records (fst (publishSubmitHandler demo_context ps demo_pub))) = [1]
    \<and> map DraftVersion (records (fst (publishSubmitHandler demo_context ps (demo_edited demo_pub)))) = [2]"
  by code_simp

text \<open>An asset cannot be renamed: under a new name the identifier is taken, which is no conflict but a plain failure.\<close>

lemma asset_rename_fails:
  assumes "pa_ID a \<noteq> 0" "pa_ID a \<in> set (map pa_ID (assets db))" "\<forall>x \<in> set (assets db). \<not> (pa_Environment x = env \<and> pa_Name x = pa_Name a)"
  shows "\<exists>err \<in> {PubInvalidInput, PubOther}. UpsertAsset lc env newID a db = (db, Inl err)"
proof -
  have "find (same_asset (asset_row env newID a)) (assets db) = None"
    using assms(3) by (simp add: find_None_iff same_asset_def asset_row_def)
  moreover have "pa_ID (asset_row env newID a) = pa_ID a" using assms(1) by (simp add: asset_row_def)
  ultimately show ?thesis using assms(2) by (simp add: UpsertAsset_def Let_def)
qed

section \<open>The actions\<close>

definition item_key :: "Definition \<times> 'h \<Rightarrow> string" where
  "item_key x = registry_key (d_ID (fst x)) (d_Version (fst x))"

lemma register_all_Inr:
  "\<forall>x \<in> set items. Definition_Validate (fst x) = Inr () \<Longrightarrow> distinct (map item_key items) \<Longrightarrow> \<forall>x \<in> set items. reg (item_key x) = None
   \<Longrightarrow> \<exists>reg'. register_all items reg = Inr reg' \<and> (\<forall>x \<in> set items. reg' (item_key x) = Some x)
     \<and> (\<forall>k. k \<notin> item_key ` set items \<longrightarrow> reg' k = reg k)"
proof (induction items arbitrary: reg)
  case (Cons item items)
  let ?reg = "reg(item_key item \<mapsto> item)"
  have r: "Register reg (fst item) (Some (snd item)) = Inr ?reg" using Cons.prems by (simp add: Register_def item_key_def)
  have k: "item_key item \<notin> item_key ` set items" using Cons.prems(2) by simp
  have n: "\<forall>x \<in> set items. ?reg (item_key x) = None" using k Cons.prems(3) by (metis fun_upd_apply image_eqI list.set_intros(2))
  have "\<exists>reg'. register_all items ?reg = Inr reg' \<and> (\<forall>x \<in> set items. reg' (item_key x) = Some x)
     \<and> (\<forall>k. k \<notin> item_key ` set items \<longrightarrow> reg' k = ?reg k)"
    by (rule Cons.IH) (use Cons.prems(1,2) n in simp_all)
  then obtain reg' where reg': "register_all items ?reg = Inr reg'" "\<forall>x \<in> set items. reg' (item_key x) = Some x"
    "\<forall>k. k \<notin> item_key ` set items \<longrightarrow> reg' k = ?reg k"
    by blast
  have "register_all (item # items) reg = Inr reg'" using r reg'(1) by (cases item) simp
  moreover have "reg' (item_key item) = Some item" using reg'(3) k by simp
  ultimately show ?case using reg'(2,3) by (intro exI [of _ reg']) simp
qed simp

text \<open>
  The seven actions register in an empty registry, each is found under its identifier and version
  with its own handler, all are for humans only, and of the seven exactly the submission of a publish
  request is of a risk that needs approval, and only it needs the publishing scope.
\<close>
theorem publishing_actions_registered:
  "\<exists>reg. RegisterActions cx (\<lambda>_. None) = Inr reg
    \<and> list_all (\<lambda>(d, h). Lookup reg (d_ID d) (d_Version d) = Some (d, h) \<and> PrincipalTypes d = [''HUMAN'']) (pub_items cx)
    \<and> map (\<lambda>(d, _). d_ID d) (filter (\<lambda>(d, _). RequiresAdvancedControls (d_RiskLevel d)) (pub_items cx)) = [''publishing.publish.submit'']
    \<and> map (\<lambda>(d, _). d_ID d) (filter (\<lambda>(d, _). Permission d = ''publishing.publish'') (pub_items cx)) = [''publishing.publish.submit'']"
proof -
  have v: "list_all (\<lambda>d. Definition_Validate d = Inr ()) (map fst (pub_items cx))" unfolding pub_items_def list.map fst_conv by code_simp
  have "distinct (map (\<lambda>d. registry_key (d_ID d) (d_Version d)) (map fst (pub_items cx)))" unfolding pub_items_def list.map fst_conv by code_simp
  then have k: "distinct (map item_key (pub_items cx))" by (simp add: comp_def item_key_def [abs_def])
  obtain reg where reg: "register_all (pub_items cx) (\<lambda>_. None) = Inr reg" "\<forall>x \<in> set (pub_items cx). reg (item_key x) = Some x"
    using register_all_Inr [of "pub_items cx" "\<lambda>_. None", OF _ k] v by (auto simp: list_all_iff)
  have l: "\<forall>x \<in> set (pub_items cx). Lookup reg (d_ID (fst x)) (d_Version (fst x)) = Some x" using reg(2) by (simp add: Lookup_def item_key_def)
  have h: "list_all (\<lambda>(d, h). PrincipalTypes d = [''HUMAN'']) (pub_items cx)"
    by (simp add: pub_items_def draftSetDefinition_def draftArchiveDefinition_def assetSetDefinition_def assetRemoveDefinition_def
        channelSetDefinition_def channelSetStatusDefinition_def publishSubmitDefinition_def humanOnly_def)
  have a: "map (\<lambda>(d, _). d_ID d) (filter (\<lambda>(d, _). RequiresAdvancedControls (d_RiskLevel d)) (pub_items cx)) = [''publishing.publish.submit'']"
    "map (\<lambda>(d, _). d_ID d) (filter (\<lambda>(d, _). Permission d = ''publishing.publish'') (pub_items cx)) = [''publishing.publish.submit'']"
    by (simp_all add: pub_items_def draftSetDefinition_def draftArchiveDefinition_def assetSetDefinition_def assetRemoveDefinition_def
        channelSetDefinition_def channelSetStatusDefinition_def publishSubmitDefinition_def RequiresAdvancedControls_def)
  show ?thesis using reg(1) l h a by (intro exI [of _ reg]) (simp add: RegisterActions_def list_all_iff case_prod_beta)
qed

text \<open>The comment on the scope \<open>publishing.manage\<close> speaks of four actions of level L1 and one of level L2.\<close>

lemma manage_actions_all_L1:
  "map (\<lambda>(d, _). d_RiskLevel d) (filter (\<lambda>(d, _). Permission d = ''publishing.manage'') (pub_items cx)) = replicate 6 ''L1''"
  by (simp add: pub_items_def draftSetDefinition_def draftArchiveDefinition_def assetSetDefinition_def assetRemoveDefinition_def
      channelSetDefinition_def channelSetStatusDefinition_def publishSubmitDefinition_def numeral_eq_Suc)

lemma store_refusals:
  "ArchiveDraft env i t db = (db', Inl err) \<Longrightarrow> db' = db" "UpsertAsset lc env newID a db = (db', Inl err) \<Longrightarrow> db' = db"
  "RemoveAsset env i db = (db', Inl err) \<Longrightarrow> db' = db" "UpsertChannel env newID c db = (db', Inl err) \<Longrightarrow> db' = db"
  "SetChannelStatus env i st t db = (db', Inl err) \<Longrightarrow> db' = db"
  by (auto simp: ArchiveDraft_def UpsertAsset_def RemoveAsset_def UpsertChannel_def SetChannelStatus_def Let_def split: option.splits if_splits)

lemma publish_refusal: "Publish env dl (\<lambda>d. d) (\<lambda>d. d) reason newID now inp db = (db', Inl err) \<Longrightarrow> db' = db"
  by (rule Publish_cases [of env dl "\<lambda>d. d" "\<lambda>d. d" reason newID now inp db]) auto

definition clean_handler :: "pub_handler \<Rightarrow> bool" where
  "clean_handler h \<longleftrightarrow> (\<forall>ps db. case h ps db of (db', ops, Inl err) \<Rightarrow> db' = db \<and> ops = [] | (db', ops, Inr v) \<Rightarrow> ops \<noteq> [])"

text \<open>
  C18. Every handler is all or nothing when nobody else writes in between: if it answers with an error,
  whichever of its checks or the store found it, the tables are as before and nothing is said to the
  audit record; if it succeeds it has named what it touched.
\<close>
theorem handlers_all_or_nothing:
  assumes "cx_other cx = (\<lambda>d. d)" "cx_other2 cx = (\<lambda>d. d)"
  shows "list_all (\<lambda>(d, h). clean_handler h) (pub_items cx)"
proof -
  have "clean_handler (draftSetHandler cx)"
    by (auto simp: clean_handler_def draftSetHandler_def stop_def dest: SaveDraft_refused split: sum.splits prod.splits)
  moreover have "clean_handler (draftArchiveHandler cx)"
    by (auto simp: clean_handler_def draftArchiveHandler_def stop_def dest: store_refusals split: sum.splits prod.splits)
  moreover have "clean_handler (assetSetHandler cx)"
    by (auto simp: clean_handler_def assetSetHandler_def stop_def dest: store_refusals split: sum.splits prod.splits)
  moreover have "clean_handler (assetRemoveHandler cx)"
    by (auto simp: clean_handler_def assetRemoveHandler_def stop_def dest: store_refusals split: sum.splits prod.splits)
  moreover have "clean_handler (channelSetHandler cx)"
    by (auto simp: clean_handler_def channelSetHandler_def stop_def dest: store_refusals split: sum.splits prod.splits)
  moreover have "clean_handler (channelSetStatusHandler cx)"
    by (auto simp: clean_handler_def channelSetStatusHandler_def stop_def assms dest: store_refusals split: sum.splits prod.splits)
  moreover have "clean_handler (publishSubmitHandler cx)"
    by (auto simp: clean_handler_def publishSubmitHandler_def stop_def assms dest: publish_refusal split: sum.splits prod.splits)
  ultimately show ?thesis by (simp add: pub_items_def)
qed

theorem handlers_all_or_nothing_witness: "list_all (\<lambda>(d, h). clean_handler h) (pub_items demo_context)"
  by (rule handlers_all_or_nothing) (simp_all add: demo_context_def)

end
