(* ===== verification/Rollup.thy ===== *)
theory Rollup
  imports Ops Actions Go_Map "HOL-Library.List_Lexorder" "HOL-Library.Char_ord"
begin

text \<open>
  The daily roll-up of metric samples: the versioned policies (\<open>ops/rollup_policy.go\<close>) and the
  accumulator of one bucket (\<open>ops/rollup.go\<close>).

  The policy document is taken as decoded: the JSON decoder, SHA-256 and the bytes of the canonical
  document are library code, \<open>digest\<close>. Maps and \<open>big.Int\<close> values are values here, so cloning is
  the identity; the branch of \<open>Merge\<close> for an accumulator without its set of seen identifiers is
  never taken, as cloning always makes one. Counters are unbounded: identifiers increase strictly
  within \<open>int64\<close>, so no counter can reach its bound. A policy hash is ASCII text.
\<close>

section \<open>Policies (rollup_policy.go)\<close>

type_synonym ValueKind = string
type_synonym PrimaryKind = string

abbreviation "ValueGauge \<equiv> ''gauge''"
abbreviation "ValueDailySnapshot \<equiv> ''daily_snapshot''"
abbreviation "ValueAdditiveDelta \<equiv> ''additive_delta''"
abbreviation "ValueDocumentStatus \<equiv> ''document_status''"
abbreviation "PrimaryCount \<equiv> ''count''"
abbreviation "PrimaryMoneyMinor \<equiv> ''money_minor''"
abbreviation "PrimaryFixedPoint \<equiv> ''fixed_point''"
abbreviation "PrimaryNone \<equiv> ''none''"

definition value_kinds :: "string list" where
  "value_kinds = [ValueGauge, ValueDailySnapshot, ValueAdditiveDelta, ValueDocumentStatus]"

definition primary_kinds :: "string list" where
  "primary_kinds = [PrimaryCount, PrimaryMoneyMinor, PrimaryFixedPoint, PrimaryNone]"

definition RollupPolicyVersion :: int where "RollupPolicyVersion = 1"

datatype rollup_error = ErrRollupGated | ErrRollupPolicy | ErrRollupDocument | ErrRollupUnknown | ErrRollupSample | ErrRollupStream
  | ErrRollupDay | ErrRollupOrder | ErrRollupValue | ErrRollupInvalid

record RollupPolicy =
  rp_Version :: int
  rp_MetricKey :: string
  rp_ValueKind :: ValueKind
  rp_PrimaryKind :: PrimaryKind
  PrimaryJSONPointer :: string
  CurrencyJSONPointer :: string
  BusinessDayJSONPointer :: string
  rp_Unit :: string
  rp_Scale :: int64
  rp_SumMode :: string
  rp_BucketTimezone :: string
  rp_ExpectedIntervalSeconds :: "int option"
  FullValueRequired :: bool
  PartialValueAllowed :: bool
  rp_PolicyHash :: string

record ExcludedRollupMetric =
  ex_MetricKey :: string
  ex_Gate :: string
  ex_Reason :: string

definition excludedRollupMetrics :: "ExcludedRollupMetric list" where
  "excludedRollupMetrics = map (\<lambda>(k, g, r). \<lparr>ex_MetricKey = k, ex_Gate = g, ex_Reason = r\<rparr>)
    [(''invoice.amount.daily'', ''CR-0002'', ''invoice contract is not frozen''),
     (''invoice.requests.daily'', ''CR-0002'', ''invoice contract is not frozen''),
     (''sub2api.requests.success_rate_24h'', ''XM-REQLOG-METRICS'', ''requests metrics rollup policy not yet designed (windowed/multi-day shapes in the same family)''),
     (''sub2api.requests.trend_7d'', ''XM-REQLOG-METRICS'', ''requests metrics rollup policy not yet designed (windowed/multi-day shapes in the same family)''),
     (''newapi.requests.success_rate_24h'', ''XM-REQLOG-METRICS'', ''requests metrics rollup policy not yet designed (windowed/multi-day shapes in the same family)''),
     (''newapi.requests.trend_7d'', ''XM-REQLOG-METRICS'', ''requests metrics rollup policy not yet designed (windowed/multi-day shapes in the same family)''),
     (''sub2api.payments.daily'', ''ROLLUP-MULTI-BUCKET'', ''by_status has multiple money buckets; v1 policy schema supports only one primary_json_pointer per metric''),
     (''newapi.payments.daily'', ''ROLLUP-MULTI-BUCKET'', ''by_status has multiple money buckets; v1 policy schema supports only one primary_json_pointer per metric'')]"

definition excludedRollupKeySet :: "string list" where
  "excludedRollupKeySet = map ex_MetricKey excludedRollupMetrics"

definition ExcludedRollupMetricKeys :: "string list" where
  "ExcludedRollupMetricKeys = sort (map ex_MetricKey excludedRollupMetrics)"

record rollupPolicyWire =
  w_PolicyVersion :: int
  w_MetricKey :: string
  w_ValueKind :: string
  w_PrimaryKind :: string
  w_PrimaryJSONPointer :: string
  w_CurrencyJSONPointer :: string
  w_BusinessDayJSONPointer :: string
  w_Unit :: string
  w_Scale :: int64
  w_SumMode :: string
  w_BucketTimezone :: string
  w_ExpectedIntervalSeconds :: "int option"
  w_FullValueRequired :: "bool option"
  w_PartialValueAllowed :: "bool option"

record rollupPolicyDocumentWire =
  doc_PolicyVersion :: int
  doc_ExcludedMetricKeys :: "ExcludedRollupMetric list"
  doc_Policies :: "rollupPolicyWire list"

text \<open>A pointer is empty, or begins with a slash, without line breaks or tabs, each tilde before 0 or 1.\<close>

fun valid_escapes :: "string \<Rightarrow> bool" where
  "valid_escapes [] = True"
| "valid_escapes (c # s) = (if c = CHR ''~'' then (case s of [] \<Rightarrow> False | d # t \<Rightarrow> d \<in> {CHR ''0'', CHR ''1''} \<and> valid_escapes t)
     else valid_escapes s)"

definition validateJSONPointer :: "string \<Rightarrow> bool" where
  "validateJSONPointer p \<longleftrightarrow> p = [] \<or> (hd p = CHR ''/'' \<and> \<not> list_ex (\<lambda>c. c \<in> {CHR 0x0D, CHR 0x0A, CHR 0x09}) p \<and> valid_escapes p)"

definition validatePolicyWire :: "rollupPolicyWire \<Rightarrow> rollup_error + RollupPolicy" where
  "validatePolicyWire w =
    (if w_PolicyVersion w \<noteq> RollupPolicyVersion then Inl ErrRollupPolicy
     else if \<not> ValidMetricKey (w_MetricKey w) then Inl ErrRollupPolicy
     else if w_ValueKind w \<notin> set value_kinds then Inl ErrRollupPolicy
     else if w_PrimaryKind w \<notin> set primary_kinds then Inl ErrRollupPolicy
     else if blank (w_Unit w) \<or> list_ex (\<lambda>c. c \<in> {CHR 0x0D, CHR 0x0A, CHR 0x09, CHR '' ''}) (w_Unit w) then Inl ErrRollupPolicy
     else if w_Scale w \<le> 0 then Inl ErrRollupPolicy
     else if w_BucketTimezone w \<noteq> ''UTC'' then Inl ErrRollupPolicy
     else if w_SumMode w \<noteq> ''forbidden'' \<and> w_SumMode w \<noteq> ''additive'' then Inl ErrRollupPolicy
     else if w_ValueKind w \<noteq> ValueAdditiveDelta \<and> w_SumMode w \<noteq> ''forbidden'' then Inl ErrRollupPolicy
     else if w_ValueKind w = ValueAdditiveDelta \<and> w_SumMode w \<noteq> ''additive'' then Inl ErrRollupPolicy
     else if (case w_ExpectedIntervalSeconds w of None \<Rightarrow> False | Some n \<Rightarrow> n \<le> 0) then Inl ErrRollupPolicy
     else case (w_FullValueRequired w, w_PartialValueAllowed w) of
       (Some full, Some part) \<Rightarrow>
         if \<not> validateJSONPointer (w_PrimaryJSONPointer w) then Inl ErrRollupPolicy
         else if \<not> validateJSONPointer (w_CurrencyJSONPointer w) then Inl ErrRollupPolicy
         else if \<not> validateJSONPointer (w_BusinessDayJSONPointer w) then Inl ErrRollupPolicy
         else if w_PrimaryKind w = PrimaryNone \<and> w_PrimaryJSONPointer w \<noteq> [] then Inl ErrRollupPolicy
         else if w_PrimaryKind w \<noteq> PrimaryNone \<and> w_PrimaryJSONPointer w = [] then Inl ErrRollupPolicy
         else if w_PrimaryKind w = PrimaryMoneyMinor \<and> w_CurrencyJSONPointer w = [] then Inl ErrRollupPolicy
         else if w_PrimaryKind w \<noteq> PrimaryMoneyMinor \<and> w_CurrencyJSONPointer w \<noteq> [] then Inl ErrRollupPolicy
         else Inr \<lparr>rp_Version = RollupPolicyVersion, rp_MetricKey = w_MetricKey w, rp_ValueKind = w_ValueKind w, rp_PrimaryKind = w_PrimaryKind w,
           PrimaryJSONPointer = w_PrimaryJSONPointer w, CurrencyJSONPointer = w_CurrencyJSONPointer w,
           BusinessDayJSONPointer = w_BusinessDayJSONPointer w, rp_Unit = w_Unit w, rp_Scale = w_Scale w, rp_SumMode = w_SumMode w,
           rp_BucketTimezone = w_BucketTimezone w, rp_ExpectedIntervalSeconds = w_ExpectedIntervalSeconds w, FullValueRequired = full,
           PartialValueAllowed = part, rp_PolicyHash = []\<rparr>
     | _ \<Rightarrow> Inl ErrRollupPolicy)"

fun check_exclusions :: "string list \<Rightarrow> ExcludedRollupMetric list \<Rightarrow> rollup_error + string list" where
  "check_exclusions seen [] = Inr seen"
| "check_exclusions seen (w # ws) =
    (if ex_MetricKey w \<in> set seen then Inl ErrRollupDocument
     else case find (\<lambda>e. ex_MetricKey e = ex_MetricKey w) excludedRollupMetrics of
       None \<Rightarrow> Inl ErrRollupDocument
     | Some expected \<Rightarrow>
       if ex_Gate w \<noteq> ex_Gate expected \<or> blank (ex_Reason w) then Inl ErrRollupDocument
       else if ex_Reason w \<noteq> ex_Reason expected then Inl ErrRollupDocument
       else check_exclusions (seen @ [ex_MetricKey w]) ws)"

definition validateExclusions :: "ExcludedRollupMetric list \<Rightarrow> rollup_error + string list" where
  "validateExclusions items =
    (if length items \<noteq> length excludedRollupMetrics then Inl ErrRollupDocument
     else rbind (check_exclusions [] items) (\<lambda>seen.
       if list_ex (\<lambda>k. k \<notin> set seen) excludedRollupKeySet then Inl ErrRollupDocument else Inr seen))"

fun load_wires :: "string list \<Rightarrow> (string \<times> RollupPolicy) list \<Rightarrow> rollupPolicyWire list \<Rightarrow> rollup_error + (string \<times> RollupPolicy) list" where
  "load_wires excluded policies [] = Inr policies"
| "load_wires excluded policies (w # ws) =
    (if w_MetricKey w \<in> set excluded then Inl ErrRollupGated
     else if map_of policies (w_MetricKey w) \<noteq> None then Inl ErrRollupDocument
     else rbind (validatePolicyWire w) (\<lambda>p. load_wires excluded (policies @ [(rp_MetricKey p, p)]) ws))"

definition canonicalPolicyDocument :: "rollupPolicyDocumentWire \<Rightarrow> rollupPolicyDocumentWire" where
  "canonicalPolicyDocument doc = doc\<lparr>doc_ExcludedMetricKeys := sort_key ex_MetricKey (doc_ExcludedMetricKeys doc),
     doc_Policies := sort_key w_MetricKey (doc_Policies doc)\<rparr>"

definition LoadRollupPolicies :: "(rollupPolicyDocumentWire \<Rightarrow> string) \<Rightarrow> string list \<Rightarrow> rollupPolicyDocumentWire
  \<Rightarrow> rollup_error + ((string \<times> RollupPolicy) list \<times> string)" where
  "LoadRollupPolicies digest registered doc =
    (if doc_PolicyVersion doc \<noteq> RollupPolicyVersion then Inl ErrRollupDocument
     else if doc_Policies doc = [] then Inl ErrRollupDocument
     else rbind (validateExclusions (doc_ExcludedMetricKeys doc)) (\<lambda>excluded.
       if list_ex (\<lambda>k. k \<notin> set registered) excluded then Inl ErrRollupDocument
       else rbind (load_wires excluded [] (doc_Policies doc)) (\<lambda>policies.
         if list_ex (\<lambda>(k, _). k \<notin> set registered) policies then Inl ErrRollupDocument
         else if list_ex (\<lambda>k. map_of policies k = None \<and> k \<notin> set excluded) registered then Inl ErrRollupDocument
         else if length policies + length excluded \<noteq> length registered then Inl ErrRollupDocument
         else let hash = digest (canonicalPolicyDocument doc) in
           Inr (map (\<lambda>(k, p). (k, p\<lparr>rp_PolicyHash := hash\<rparr>)) policies, hash))))"

definition RollupPolicyFor :: "(string \<times> RollupPolicy) list \<Rightarrow> string \<Rightarrow> rollup_error + RollupPolicy" where
  "RollupPolicyFor policies metricKey =
    (if metricKey \<in> set excludedRollupKeySet then Inl ErrRollupGated
     else case map_of policies metricKey of
       None \<Rightarrow> Inl ErrRollupUnknown
     | Some p \<Rightarrow> if rp_Version p \<noteq> RollupPolicyVersion \<or> rp_MetricKey p \<noteq> metricKey then Inl ErrRollupUnknown else Inr p)"

section \<open>The accumulator (rollup.go)\<close>

definition secondsPerDay :: int where "secondsPerDay = 24 * 60 * 60"
definition microsPerCoverage :: int where "microsPerCoverage = 1000000"
definition maxNumericDigits :: nat where "maxNumericDigits = 39"

record RawRollupSample =
  s_ID :: int64
  s_MetricKey :: string
  s_Source :: string
  s_Environment :: string
  s_ObservedAt :: "time option"
  s_SyncedAt :: time
  s_Status :: SyncStatus
  s_IsPartial :: bool
  s_Watermark :: string
  s_LastErrorCode :: string
  s_Value :: "json_object option"
  s_PolicyVersion :: int
  s_ExpectedIntervalSeconds :: "int option"

record DailyAccumulator =
  a_Environment :: string
  a_MetricKey :: string
  a_Source :: string
  BucketDay :: time
  a_PolicyVersion :: int
  a_PolicyHash :: string
  a_ValueKind :: ValueKind
  a_PrimaryKind :: PrimaryKind
  a_SumMode :: string
  a_Unit :: string
  a_Scale :: int64
  a_BucketTimezone :: string
  a_Currency :: string
  CurrencySet :: "string list"
  FirstNumeric :: "int option"
  LastNumeric :: "int option"
  MinNumeric :: "int option"
  MaxNumeric :: "int option"
  SumNumeric :: "int option"
  NumericCount :: int
  SampleCount :: int
  FullSuccessCount :: int
  PartialSuccessCount :: int
  FailedCount :: int
  ExpectedSlotCount :: "int option"
  CoveredSlotCount :: "int option"
  DuplicateCount :: int
  CoveragePPM :: "int option"
  CoverageUnknownReason :: string
  NumericUnknownReason :: string
  ErrorCounts :: "(string, int) gomap"
  FirstFullValue :: "json_object option"
  LastFullValue :: "json_object option"
  LastPartialValue :: "json_object option"
  FirstFullSampleID :: int64
  LastFullSampleID :: int64
  LastPartialSampleID :: int64
  FirstSyncedAt :: "time option"
  LastSyncedAt :: "time option"
  FirstObservedAt :: "time option"
  LastObservedAt :: "time option"
  FirstWatermark :: string
  LastWatermark :: string
  MinSampleID :: int64
  MaxSampleID :: int64
  coverageInterval :: "int option"
  coverageSlots :: "int list"
  seenSampleIDs :: "int64 list"
  lastPartialSyncedAt :: "time option"

definition zero_accumulator :: DailyAccumulator where
  "zero_accumulator = \<lparr>a_Environment = [], a_MetricKey = [], a_Source = [], BucketDay = 0, a_PolicyVersion = 0, a_PolicyHash = [],
     a_ValueKind = [], a_PrimaryKind = [], a_SumMode = [], a_Unit = [], a_Scale = 0, a_BucketTimezone = [], a_Currency = [],
     CurrencySet = [], FirstNumeric = None, LastNumeric = None, MinNumeric = None, MaxNumeric = None, SumNumeric = None,
     NumericCount = 0, SampleCount = 0, FullSuccessCount = 0, PartialSuccessCount = 0, FailedCount = 0, ExpectedSlotCount = None,
     CoveredSlotCount = None, DuplicateCount = 0, CoveragePPM = None, CoverageUnknownReason = [], NumericUnknownReason = [],
     ErrorCounts = [], FirstFullValue = None, LastFullValue = None, LastPartialValue = None, FirstFullSampleID = 0,
     LastFullSampleID = 0, LastPartialSampleID = 0, FirstSyncedAt = None, LastSyncedAt = None, FirstObservedAt = None,
     LastObservedAt = None, FirstWatermark = [], LastWatermark = [], MinSampleID = 0, MaxSampleID = 0, coverageInterval = None,
     coverageSlots = [], seenSampleIDs = [], lastPartialSyncedAt = None\<rparr>"

text \<open>A UTC day has 86,400 seconds; Go's zero time is the beginning of one, 62,135,596,800 seconds before 1970.\<close>

definition nanos_per_day :: int where "nanos_per_day = 86400000000000"

definition utcBucketDay :: "time \<Rightarrow> time" where
  "utcBucketDay t = t - t mod nanos_per_day"

definition Unix :: "time \<Rightarrow> int" where
  "Unix t = t div nanos_per_second - 62135596800"

definition tupleBefore :: "time \<Rightarrow> int64 \<Rightarrow> time \<Rightarrow> int64 \<Rightarrow> bool" where
  "tupleBefore t i other otherID \<longleftrightarrow> t < other \<or> t = other \<and> i < otherID"

definition tupleAfter :: "time \<Rightarrow> int64 \<Rightarrow> time \<Rightarrow> int64 \<Rightarrow> bool" where
  "tupleAfter t i other otherID \<longleftrightarrow> t > other \<or> t = other \<and> i > otherID"

definition derefTime :: "time option \<Rightarrow> time" where
  "derefTime t = (case t of None \<Rightarrow> 0 | Some t \<Rightarrow> t)"

definition floorDiv :: "int \<Rightarrow> int \<Rightarrow> int" where
  "floorDiv n d = (if d \<le> 0 then 0 else let q = n sdiv d; r = n smod d in if r < 0 then q - 1 else q)"

text \<open>Reading a value at a JSON pointer. An index is what \<open>Sscanf\<close> reads: blanks but no line break, a sign, digits.\<close>

fun unescape :: "char \<Rightarrow> char \<Rightarrow> string \<Rightarrow> string" where
  "unescape d c (x # y # s) = (if x = CHR ''~'' \<and> y = d then c # unescape d c s else x # unescape d c (y # s))"
| "unescape d c s = s"

definition scan_index :: "string \<Rightarrow> int option" where
  "scan_index part =
    (let rest = trim_left part; lead = take (length part - length rest) part; (neg, s) = split_sign rest; ds = takeWhile is_digit s;
         v = (if neg then - dec_value ds else dec_value ds)
     in if CHR 0x0A \<in> set lead \<or> ds = [] \<or> \<not> in64 v then None else Some v)"

fun walk_pointer :: "json \<Rightarrow> string list \<Rightarrow> rollup_error + json option" where
  "walk_pointer cur [] = Inr (Some cur)"
| "walk_pointer cur (raw # raws) =
    (let part = unescape (CHR ''0'') (CHR ''~'') (unescape (CHR ''1'') (CHR ''/'') raw) in
     case cur of
       JObject m \<Rightarrow> (case map_of m part of None \<Rightarrow> Inr None | Some v \<Rightarrow> walk_pointer v raws)
     | JArray xs \<Rightarrow> if part = [] then Inl ErrRollupValue
         else (case scan_index part of None \<Rightarrow> Inl ErrRollupValue
           | Some i \<Rightarrow> if i < 0 \<or> i \<ge> int (length xs) then Inl ErrRollupValue else walk_pointer (xs ! nat i) raws)
     | _ \<Rightarrow> Inr None)"

definition valueAtJSONPointer :: "json_object \<Rightarrow> string \<Rightarrow> rollup_error + json option" where
  "valueAtJSONPointer whole p =
    (if p = [] then Inr (Some (JObject whole))
     else if hd p \<noteq> CHR ''/'' then Inl ErrRollupValue
     else walk_pointer (JObject whole) (split_on (CHR ''/'') (tl p)))"

definition integer_of_text :: "string \<Rightarrow> rollup_error + int" where
  "integer_of_text t =
    (if t = [] \<or> list_ex (\<lambda>c. c \<in> {CHR ''.'', CHR ''e'', CHR ''E''}) t then Inl ErrRollupValue
     else let (neg, ds) = split_sign t in
       if ds = [] \<or> \<not> all_digits ds then Inl ErrRollupValue else Inr (if neg then - dec_value ds else dec_value ds))"

fun exactInteger :: "json \<Rightarrow> rollup_error + int" where
  "exactInteger (JNumber t) = integer_of_text t"
| "exactInteger (JString t) = integer_of_text t"
| "exactInteger _ = Inl ErrRollupValue"

definition integerAtPointer :: "json_object \<Rightarrow> string \<Rightarrow> rollup_error + int option" where
  "integerAtPointer v p =
    (if p = [] then Inr None
     else rbind (valueAtJSONPointer v p) (\<lambda>item. case item of None \<Rightarrow> Inr None
       | Some x \<Rightarrow> rbind (exactInteger x) (\<lambda>n. Inr (Some n))))"

definition stringAtPointer :: "json_object \<Rightarrow> string \<Rightarrow> rollup_error + string option" where
  "stringAtPointer v p = rbind (valueAtJSONPointer v p) (\<lambda>item. case item of None \<Rightarrow> Inr None
     | Some x \<Rightarrow> (case as_string x of None \<Rightarrow> Inl ErrRollupValue | Some t \<Rightarrow> Inr (Some t)))"

definition addCurrency :: "string \<Rightarrow> DailyAccumulator \<Rightarrow> DailyAccumulator" where
  "addCurrency currency a =
    (if currency \<in> set (CurrencySet a) then (if length (CurrencySet a) = 1 then a\<lparr>a_Currency := currency\<rparr> else a)
     else let cs = sort (CurrencySet a @ [currency]) in
       a\<lparr>CurrencySet := cs, a_Currency := (if length cs = 1 then currency else [])\<rparr>)"

definition option_pick :: "(int \<Rightarrow> bool) \<Rightarrow> int \<Rightarrow> int option \<Rightarrow> int option" where
  "option_pick better x old = (case old of None \<Rightarrow> Some x | Some y \<Rightarrow> if better y then Some x else old)"

definition put_numeric :: "RollupPolicy \<Rightarrow> int \<Rightarrow> bool \<Rightarrow> bool \<Rightarrow> DailyAccumulator \<Rightarrow> DailyAccumulator" where
  "put_numeric policy primary before after a =
    (let a = a\<lparr>NumericCount := NumericCount a + 1\<rparr> in
     if length (CurrencySet a) > 1
     then a\<lparr>NumericUnknownReason := ''mixed_currency'', FirstNumeric := None, LastNumeric := None, MinNumeric := None,
            MaxNumeric := None, SumNumeric := None\<rparr>
     else a\<lparr>FirstNumeric := (if FirstNumeric a = None \<or> before then Some primary else FirstNumeric a),
            LastNumeric := (if LastNumeric a = None \<or> after then Some primary else LastNumeric a),
            MinNumeric := option_pick (\<lambda>y. primary < y) primary (MinNumeric a),
            MaxNumeric := option_pick (\<lambda>y. primary > y) primary (MaxNumeric a),
            SumNumeric := (if rp_SumMode policy = ''additive''
              then Some ((case SumNumeric a of None \<Rightarrow> 0 | Some y \<Rightarrow> y) + primary) else None)\<rparr>)"

text \<open>What a sample contributes as a number: nothing, or its primary value with its currency, if any.\<close>

definition numeric_of :: "RollupPolicy \<Rightarrow> RawRollupSample \<Rightarrow> json_object \<Rightarrow> rollup_error + (int \<times> string option) option" where
  "numeric_of policy s v =
    (if rp_PrimaryKind policy = PrimaryNone then Inr None
     else rbind (integerAtPointer v (PrimaryJSONPointer policy)) (\<lambda>n. case n of
       None \<Rightarrow> if FullValueRequired policy \<and> \<not> s_IsPartial s then Inl ErrRollupValue else Inr None
     | Some primary \<Rightarrow>
       if rp_PrimaryKind policy = PrimaryCount \<and> primary < 0 then Inl ErrRollupValue
       else if length (dec_string (nat \<bar>primary\<bar>)) > maxNumericDigits then Inl ErrRollupValue
       else if rp_PrimaryKind policy = PrimaryMoneyMinor
       then rbind (stringAtPointer v (CurrencyJSONPointer policy)) (\<lambda>c.
         if c = None \<or> c = Some [] then (if FullValueRequired policy \<and> \<not> s_IsPartial s then Inl ErrRollupValue else Inr None)
         else Inr (Some (primary, c)))
       else Inr (Some (primary, None))))"

definition mergeSuccessfulValue :: "RollupPolicy \<Rightarrow> RawRollupSample \<Rightarrow> time \<Rightarrow> DailyAccumulator \<Rightarrow> rollup_error + DailyAccumulator" where
  "mergeSuccessfulValue policy s synced a =
    (let v = (case s_Value s of None \<Rightarrow> [] | Some v \<Rightarrow> v);
         before = tupleBefore synced (s_ID s) (derefTime (FirstSyncedAt a)) (FirstFullSampleID a);
         after = tupleAfter synced (s_ID s) (derefTime (LastSyncedAt a)) (LastFullSampleID a);
         a = (if \<not> s_IsPartial s \<and> (FirstFullValue a = None \<or> before) then a\<lparr>FirstFullValue := Some v, FirstFullSampleID := s_ID s\<rparr> else a);
         a = (if \<not> s_IsPartial s \<and> (LastFullValue a = None \<or> after) then a\<lparr>LastFullValue := Some v, LastFullSampleID := s_ID s\<rparr> else a)
     in rbind (numeric_of policy s v) (\<lambda>n. case n of None \<Rightarrow> Inr a
       | Some (primary, c) \<Rightarrow> Inr (put_numeric policy primary before after (case c of None \<Rightarrow> a | Some c \<Rightarrow> addCurrency c a))))"

definition setCoverageUnknown :: "string \<Rightarrow> DailyAccumulator \<Rightarrow> DailyAccumulator" where
  "setCoverageUnknown reason a = a\<lparr>CoverageUnknownReason := (if CoverageUnknownReason a = [] then reason else CoverageUnknownReason a),
     ExpectedSlotCount := None, CoveredSlotCount := None, CoveragePPM := None\<rparr>"

definition count_slot :: "int \<Rightarrow> time \<Rightarrow> DailyAccumulator \<Rightarrow> DailyAccumulator" where
  "count_slot interval synced a =
    (let slot = floorDiv (Unix synced) interval;
         a = (if slot \<in> set (coverageSlots a) then a\<lparr>DuplicateCount := DuplicateCount a + 1\<rparr> else a\<lparr>coverageSlots := slot # coverageSlots a\<rparr>);
         expected = secondsPerDay sdiv interval; covered = int (length (coverageSlots a))
     in a\<lparr>ExpectedSlotCount := Some expected, CoveredSlotCount := Some covered, CoveragePPM := Some ((covered * microsPerCoverage) sdiv expected)\<rparr>)"

definition mergeCoverage :: "RawRollupSample \<Rightarrow> time \<Rightarrow> DailyAccumulator \<Rightarrow> DailyAccumulator" where
  "mergeCoverage s synced a =
    (case s_ExpectedIntervalSeconds s of
       None \<Rightarrow> setCoverageUnknown ''cadence_unknown'' a
     | Some interval \<Rightarrow>
       if interval \<le> 0 then setCoverageUnknown ''cadence_unknown'' a
       else if secondsPerDay smod interval \<noteq> 0 then setCoverageUnknown ''cadence_not_divisor'' a
       else if coverageInterval a \<noteq> None \<and> coverageInterval a \<noteq> Some interval then setCoverageUnknown ''cadence_changed'' a
       else let a = (if coverageInterval a = None then a\<lparr>coverageInterval := Some interval\<rparr> else a) in
         if CoverageUnknownReason a \<noteq> [] then a else count_slot interval synced a)"

definition mergeRepresentativeTimes :: "RawRollupSample \<Rightarrow> time \<Rightarrow> DailyAccumulator \<Rightarrow> DailyAccumulator" where
  "mergeRepresentativeTimes s synced a =
    (if s_Status s \<noteq> SyncOK \<or> s_IsPartial s then a
     else let a = (if FirstSyncedAt a = None \<or> tupleBefore synced (s_ID s) (derefTime (FirstSyncedAt a)) (FirstFullSampleID a)
            then a\<lparr>FirstSyncedAt := Some synced, FirstObservedAt := s_ObservedAt s, FirstWatermark := s_Watermark s\<rparr> else a)
       in if LastSyncedAt a = None \<or> tupleAfter synced (s_ID s) (derefTime (LastSyncedAt a)) (LastFullSampleID a)
          then a\<lparr>LastSyncedAt := Some synced, LastObservedAt := s_ObservedAt s, LastWatermark := s_Watermark s\<rparr> else a)"

definition check_sample :: "RollupPolicy \<Rightarrow> RawRollupSample \<Rightarrow> rollup_error + unit" where
  "check_sample policy s =
    (if s_ID s \<le> 0 then Inl ErrRollupSample
     else if s_MetricKey s \<noteq> rp_MetricKey policy then Inl ErrRollupSample
     else if s_Source s = [] \<or> s_Environment s = [] then Inl ErrRollupSample
     else if s_SyncedAt s = 0 then Inl ErrRollupSample
     else if s_PolicyVersion s \<noteq> rp_Version policy then Inl ErrRollupSample
     else if s_Status s \<noteq> SyncOK \<and> s_Status s \<noteq> SyncFailed then Inl ErrRollupSample
     else if (s_Status s = SyncFailed) \<noteq> (\<not> blank (s_LastErrorCode s)) then Inl ErrRollupSample
     else if s_Status s = SyncOK \<and> s_IsPartial s \<and> \<not> PartialValueAllowed policy then Inl ErrRollupSample
     else Inr ())"

definition open_bucket :: "RollupPolicy \<Rightarrow> RawRollupSample \<Rightarrow> DailyAccumulator \<Rightarrow> DailyAccumulator" where
  "open_bucket policy s a = a\<lparr>a_Environment := s_Environment s, a_MetricKey := s_MetricKey s, a_Source := s_Source s,
     BucketDay := utcBucketDay (s_SyncedAt s), a_PolicyVersion := rp_Version policy, a_PolicyHash := rp_PolicyHash policy,
     a_ValueKind := rp_ValueKind policy, a_PrimaryKind := rp_PrimaryKind policy, a_SumMode := rp_SumMode policy, a_Unit := rp_Unit policy,
     a_Scale := rp_Scale policy, a_BucketTimezone := rp_BucketTimezone policy, MinSampleID := s_ID s, MaxSampleID := s_ID s,
     ErrorCounts := [], coverageSlots := [], seenSampleIDs := []\<rparr>"

definition enter_bucket :: "RollupPolicy \<Rightarrow> RawRollupSample \<Rightarrow> DailyAccumulator \<Rightarrow> rollup_error + DailyAccumulator" where
  "enter_bucket policy s a =
    (if a_Environment a \<noteq> s_Environment s \<or> a_MetricKey a \<noteq> s_MetricKey s \<or> a_Source a \<noteq> s_Source s then Inl ErrRollupStream
     else if BucketDay a \<noteq> utcBucketDay (s_SyncedAt s) then Inl ErrRollupDay
     else if a_PolicyVersion a \<noteq> rp_Version policy then Inl ErrRollupPolicy
     else if s_ID s \<le> MaxSampleID a then Inl ErrRollupOrder
     else Inr (a\<lparr>MaxSampleID := s_ID s\<rparr>))"

definition count_sample :: "RawRollupSample \<Rightarrow> time \<Rightarrow> DailyAccumulator \<Rightarrow> DailyAccumulator" where
  "count_sample s synced a =
    (let a = a\<lparr>SampleCount := SampleCount a + 1\<rparr> in
     if s_Status s = SyncFailed
     then a\<lparr>FailedCount := FailedCount a + 1,
            ErrorCounts := mput (s_LastErrorCode s) ((case map_of (ErrorCounts a) (s_LastErrorCode s) of None \<Rightarrow> 0 | Some n \<Rightarrow> n) + 1) (ErrorCounts a)\<rparr>
     else if s_IsPartial s
     then let a = a\<lparr>PartialSuccessCount := PartialSuccessCount a + 1\<rparr> in
       if s_Value s \<noteq> None \<and> (LastPartialValue a = None \<or> tupleAfter synced (s_ID s) (derefTime (lastPartialSyncedAt a)) (LastPartialSampleID a))
       then a\<lparr>LastPartialValue := s_Value s, LastPartialSampleID := s_ID s, lastPartialSyncedAt := Some synced\<rparr> else a
     else a\<lparr>FullSuccessCount := FullSuccessCount a + 1\<rparr>)"

definition mergeSample :: "RollupPolicy \<Rightarrow> RawRollupSample \<Rightarrow> bool \<Rightarrow> DailyAccumulator \<Rightarrow> rollup_error + DailyAccumulator" where
  "mergeSample policy s first a =
    rbind (check_sample policy s) (\<lambda>_.
    rbind (if first then Inr (open_bucket policy s a) else enter_bucket policy s a) (\<lambda>a.
    if s_ID s \<in> set (seenSampleIDs a) then Inl ErrRollupOrder
    else let synced = s_SyncedAt s;
             a = a\<lparr>seenSampleIDs := s_ID s # seenSampleIDs a, MinSampleID := (if s_ID s < MinSampleID a then s_ID s else MinSampleID a)\<rparr>
      in rbind (if s_Status s = SyncOK \<and> \<not> s_IsPartial s then mergeSuccessfulValue policy s synced (count_sample s synced a)
                else Inr (count_sample s synced a)) (\<lambda>a.
         Inr (mergeRepresentativeTimes s synced (mergeCoverage s synced a)))))"

definition validateAccumulatorPolicy :: "RollupPolicy \<Rightarrow> rollup_error + unit" where
  "validateAccumulatorPolicy policy =
    (if rp_Version policy \<le> 0 \<or> rp_MetricKey policy = [] then Inl ErrRollupPolicy
     else if rp_MetricKey policy \<in> set excludedRollupKeySet then Inl ErrRollupGated
     else if \<not> ValidMetricKey (rp_MetricKey policy) then Inl ErrRollupPolicy
     else if rp_BucketTimezone policy \<noteq> ''UTC'' then Inl ErrRollupPolicy
     else if rp_Scale policy \<le> 0 then Inl ErrRollupPolicy
     else if rp_ValueKind policy \<notin> set value_kinds then Inl ErrRollupPolicy
     else if rp_PrimaryKind policy \<notin> set primary_kinds then Inl ErrRollupPolicy
     else if rp_PrimaryKind policy = PrimaryNone \<and> PrimaryJSONPointer policy \<noteq> [] then Inl ErrRollupPolicy
     else if rp_PrimaryKind policy \<noteq> PrimaryNone \<and> PrimaryJSONPointer policy = [] then Inl ErrRollupPolicy
     else if rp_PrimaryKind policy = PrimaryMoneyMinor \<and> CurrencyJSONPointer policy = [] then Inl ErrRollupPolicy
     else if rp_PrimaryKind policy \<noteq> PrimaryMoneyMinor \<and> CurrencyJSONPointer policy \<noteq> [] then Inl ErrRollupPolicy
     else if rp_SumMode policy \<noteq> ''forbidden'' \<and> rp_SumMode policy \<noteq> ''additive'' then Inl ErrRollupPolicy
     else if rp_ValueKind policy \<noteq> ValueAdditiveDelta \<and> rp_SumMode policy \<noteq> ''forbidden'' then Inl ErrRollupPolicy
     else if (case rp_ExpectedIntervalSeconds policy of None \<Rightarrow> False | Some n \<Rightarrow> n \<le> 0) then Inl ErrRollupPolicy
     else Inr ())"

definition numerics :: "DailyAccumulator \<Rightarrow> int option list" where
  "numerics a = [FirstNumeric a, LastNumeric a, MinNumeric a, MaxNumeric a, SumNumeric a]"

fun check_errors :: "int \<Rightarrow> (string, int) gomap \<Rightarrow> rollup_error + int" where
  "check_errors n [] = Inr n"
| "check_errors n ((code, c) # m) = (if code = [] \<or> c < 0 then Inl ErrRollupInvalid else if c > max_int64 - n then Inl ErrRollupInvalid
     else check_errors (n + c) m)"

definition currency_check :: "DailyAccumulator \<Rightarrow> bool" where
  "currency_check a \<longleftrightarrow>
     (a_PrimaryKind a \<noteq> PrimaryMoneyMinor \<longrightarrow> CurrencySet a = [])
     \<and> list_all (\<lambda>c. c \<noteq> []) (CurrencySet a) \<and> sorted_wrt (<) (CurrencySet a)
     \<and> (a_PrimaryKind a = PrimaryMoneyMinor \<longrightarrow> (case CurrencySet a of
          [] \<Rightarrow> a_Currency a = [] \<and> list_all (\<lambda>n. n = None) (numerics a)
        | [c] \<Rightarrow> a_Currency a = c
        | _ \<Rightarrow> a_Currency a = [] \<and> list_all (\<lambda>n. n = None) (numerics a)))"

definition Validate_accumulator :: "DailyAccumulator \<Rightarrow> rollup_error + unit" where
  "Validate_accumulator a =
    (if a_Environment a = [] \<or> a_MetricKey a = [] \<or> a_Source a = [] \<or> BucketDay a = 0 then Inl ErrRollupInvalid
     else if a_BucketTimezone a \<noteq> ''UTC'' \<or> BucketDay a \<noteq> utcBucketDay (BucketDay a) then Inl ErrRollupInvalid
     else if a_PolicyVersion a \<le> 0 \<or> a_Scale a \<le> 0 then Inl ErrRollupInvalid
     else if a_PolicyHash a \<noteq> [] \<and> (length (a_PolicyHash a) \<noteq> 64 \<or> list_ex (\<lambda>c. CHR ''A'' \<le> c \<and> c \<le> CHR ''Z'') (a_PolicyHash a)) then Inl ErrRollupInvalid
     else if SampleCount a < 0 \<or> FullSuccessCount a < 0 \<or> PartialSuccessCount a < 0 \<or> FailedCount a < 0 \<or> NumericCount a < 0
        \<or> DuplicateCount a < 0 then Inl ErrRollupInvalid
     else if SampleCount a \<noteq> FullSuccessCount a + PartialSuccessCount a + FailedCount a then Inl ErrRollupInvalid
     else if NumericCount a > FullSuccessCount a then Inl ErrRollupInvalid
     else if MinSampleID a \<le> 0 \<or> MaxSampleID a < MinSampleID a then Inl ErrRollupInvalid
     else if a_SumMode a = ''forbidden'' \<and> SumNumeric a \<noteq> None \<or> a_SumMode a \<noteq> ''forbidden'' \<and> a_SumMode a \<noteq> ''additive'' then Inl ErrRollupInvalid
     else if (case (MinNumeric a, MaxNumeric a) of (Some x, Some y) \<Rightarrow> x > y | _ \<Rightarrow> False) then Inl ErrRollupInvalid
     else if a_PrimaryKind a = PrimaryCount \<and> list_ex (\<lambda>n. case n of None \<Rightarrow> False | Some x \<Rightarrow> x < 0) (numerics a) then Inl ErrRollupInvalid
     else if \<not> currency_check a then Inl ErrRollupInvalid
     else if (case (ExpectedSlotCount a, CoveredSlotCount a, CoveragePPM a) of
          (Some e, Some c, Some p) \<Rightarrow> e \<le> 0 \<or> c < 0 \<or> c > e \<or> p < 0 \<or> p > 1000000
        | _ \<Rightarrow> CoverageUnknownReason a = []) then Inl ErrRollupInvalid
     else if LastPartialSampleID a = 0 \<and> LastPartialValue a \<noteq> None then Inl ErrRollupInvalid
     else if FirstFullSampleID a = 0 \<and> (FirstFullValue a \<noteq> None \<or> FirstSyncedAt a \<noteq> None) then Inl ErrRollupInvalid
     else if LastFullSampleID a = 0 \<and> (LastFullValue a \<noteq> None \<or> LastSyncedAt a \<noteq> None) then Inl ErrRollupInvalid
     else rbind (check_errors 0 (ErrorCounts a)) (\<lambda>n. if n \<noteq> FailedCount a then Inl ErrRollupInvalid else Inr ()))"

definition NewDailyAccumulator :: "RollupPolicy \<Rightarrow> RawRollupSample \<Rightarrow> rollup_error + DailyAccumulator" where
  "NewDailyAccumulator policy s =
    rbind (validateAccumulatorPolicy policy) (\<lambda>_. rbind (mergeSample policy s True zero_accumulator) (\<lambda>a.
    rbind (Validate_accumulator a) (\<lambda>_. Inr a)))"

fun merge_samples :: "RollupPolicy \<Rightarrow> RawRollupSample list \<Rightarrow> DailyAccumulator \<Rightarrow> rollup_error + DailyAccumulator" where
  "merge_samples policy [] a = Inr a"
| "merge_samples policy (s # ss) a = rbind (mergeSample policy s False a) (merge_samples policy ss)"

definition Merge :: "DailyAccumulator \<Rightarrow> RollupPolicy \<Rightarrow> RawRollupSample list \<Rightarrow> rollup_error + DailyAccumulator" where
  "Merge a policy samples =
    rbind (validateAccumulatorPolicy policy) (\<lambda>_.
    if a_PolicyVersion a \<noteq> 0 \<and> (a_PolicyVersion a \<noteq> rp_Version policy \<or> a_MetricKey a \<noteq> rp_MetricKey policy
        \<or> (a_PolicyHash a \<noteq> [] \<and> rp_PolicyHash policy \<noteq> [] \<and> a_PolicyHash a \<noteq> rp_PolicyHash policy)) then Inl ErrRollupPolicy
    else rbind (merge_samples policy samples a) (\<lambda>out. rbind (Validate_accumulator out) (\<lambda>_. Inr out)))"

end
