(* ===== verification/Rollup_Policies.thy ===== *)
theory Rollup_Policies
  imports Rollup
begin

text \<open>
  The policy set that is loaded at start covers every registered metric once: by a policy that the
  accumulator accepts, or by an exclusion.
\<close>

lemma check_exclusions_seen:
  "check_exclusions seen ws = Inr r \<Longrightarrow> distinct seen \<Longrightarrow> r = seen @ map ex_MetricKey ws \<and> distinct r
     \<and> set (map ex_MetricKey ws) \<subseteq> set excludedRollupKeySet"
proof (induction ws arbitrary: seen)
  case (Cons w ws)
  obtain e where e: "find (\<lambda>e. ex_MetricKey e = ex_MetricKey w) excludedRollupMetrics = Some e" "ex_MetricKey w \<notin> set seen"
    "check_exclusions (seen @ [ex_MetricKey w]) ws = Inr r"
    using Cons.prems(1) by (auto split: if_splits option.splits)
  have w: "e \<in> set excludedRollupMetrics" "ex_MetricKey e = ex_MetricKey w" using e(1) by (auto simp: find_Some_iff)
  have "ex_MetricKey e \<in> set excludedRollupKeySet" unfolding excludedRollupKeySet_def set_map by (rule imageI) (rule w(1))
  then have "ex_MetricKey w \<in> set excludedRollupKeySet" by (simp only: w(2))
  moreover have "r = (seen @ [ex_MetricKey w]) @ map ex_MetricKey ws \<and> distinct r \<and> set (map ex_MetricKey ws) \<subseteq> set excludedRollupKeySet"
    by (rule Cons.IH [OF e(3)]) (use Cons.prems(2) e(2) in simp)
  moreover have l: "(seen @ [ex_MetricKey w]) @ map ex_MetricKey ws = seen @ map ex_MetricKey (w # ws)" by simp
  ultimately show ?case unfolding l list.map list.set insert_subset by (elim conjE) (intro conjI; assumption)
qed simp

lemma validateExclusions_exact:
  assumes "validateExclusions items = Inr r"
  shows "distinct r" "set r = set excludedRollupKeySet"
proof -
  have "check_exclusions [] items = Inr r" "set excludedRollupKeySet \<subseteq> set r"
    using assms by (auto simp: validateExclusions_def rbind_eq_Inr list_ex_iff split: if_splits)
  then show "distinct r" "set r = set excludedRollupKeySet" using check_exclusions_seen [of "[]" items r] by auto
qed

text \<open>A policy taken from the document is one the accumulator accepts, once its key is not excluded.\<close>

lemma validatePolicyWire_accepts:
  assumes "validatePolicyWire w = Inr p" "w_MetricKey w \<notin> set excludedRollupKeySet"
  shows "rp_MetricKey p = w_MetricKey w" "validateAccumulatorPolicy (p\<lparr>rp_PolicyHash := h\<rparr>) = Inr ()" "rp_Version p = RollupPolicyVersion"
proof -
  obtain full part where fp: "w_FullValueRequired w = Some full" "w_PartialValueAllowed w = Some part"
    using assms(1) by (cases "w_FullValueRequired w"; cases "w_PartialValueAllowed w") (simp_all add: validatePolicyWire_def split: if_splits)
  have p: "p = \<lparr>rp_Version = RollupPolicyVersion, rp_MetricKey = w_MetricKey w, rp_ValueKind = w_ValueKind w, rp_PrimaryKind = w_PrimaryKind w,
           PrimaryJSONPointer = w_PrimaryJSONPointer w, CurrencyJSONPointer = w_CurrencyJSONPointer w,
           BusinessDayJSONPointer = w_BusinessDayJSONPointer w, rp_Unit = w_Unit w, rp_Scale = w_Scale w, rp_SumMode = w_SumMode w,
           rp_BucketTimezone = w_BucketTimezone w, rp_ExpectedIntervalSeconds = w_ExpectedIntervalSeconds w, FullValueRequired = full,
           PartialValueAllowed = part, rp_PolicyHash = []\<rparr>"
    using assms(1) by (simp add: validatePolicyWire_def fp split: if_splits)
  have m: "w_MetricKey w \<noteq> []" "ValidMetricKey (w_MetricKey w)"
    using assms(1) by (auto simp: validatePolicyWire_def ValidMetricKey_def dotted_key_def split: if_splits)
  show "rp_MetricKey p = w_MetricKey w" "rp_Version p = RollupPolicyVersion" by (simp_all add: p)
  show "validateAccumulatorPolicy (p\<lparr>rp_PolicyHash := h\<rparr>) = Inr ()"
  proof -
    have "w_ValueKind w \<in> set value_kinds" "w_PrimaryKind w \<in> set primary_kinds" "\<not> w_Scale w \<le> 0" "w_BucketTimezone w = ''UTC''"
      "\<not> (w_SumMode w \<noteq> ''forbidden'' \<and> w_SumMode w \<noteq> ''additive'')" "\<not> (w_ValueKind w \<noteq> ValueAdditiveDelta \<and> w_SumMode w \<noteq> ''forbidden'')"
      "\<not> (case w_ExpectedIntervalSeconds w of None \<Rightarrow> False | Some n \<Rightarrow> n \<le> 0)"
      "\<not> (w_PrimaryKind w = PrimaryNone \<and> w_PrimaryJSONPointer w \<noteq> [])" "\<not> (w_PrimaryKind w \<noteq> PrimaryNone \<and> w_PrimaryJSONPointer w = [])"
      "\<not> (w_PrimaryKind w = PrimaryMoneyMinor \<and> w_CurrencyJSONPointer w = [])" "\<not> (w_PrimaryKind w \<noteq> PrimaryMoneyMinor \<and> w_CurrencyJSONPointer w \<noteq> [])"
      using assms(1) by (auto simp: validatePolicyWire_def fp split: if_splits)
    note f = this
    have g: "\<not> (rp_Version (p\<lparr>rp_PolicyHash := h\<rparr>) \<le> 0 \<or> rp_MetricKey (p\<lparr>rp_PolicyHash := h\<rparr>) = [])"
      using m(1) by (simp add: p RollupPolicyVersion_def)
    show ?thesis unfolding validateAccumulatorPolicy_def if_not_P [OF g] using f assms(2) m(2)
      by (simp only: p RollupPolicy.simps if_False if_True simp_thms not_not)
  qed
qed

definition accepted_entry :: "string \<times> RollupPolicy \<Rightarrow> bool" where
  "accepted_entry e \<longleftrightarrow> rp_MetricKey (snd e) = fst e \<and> rp_Version (snd e) = RollupPolicyVersion
     \<and> (\<forall>h. validateAccumulatorPolicy ((snd e)\<lparr>rp_PolicyHash := h\<rparr>) = Inr ()) \<and> fst e \<notin> set excludedRollupKeySet"

lemma load_wires_exact:
  "load_wires ex ps ws = Inr qs \<Longrightarrow> set ex = set excludedRollupKeySet \<Longrightarrow> distinct (map fst ps) \<Longrightarrow> list_all accepted_entry ps
     \<Longrightarrow> map fst qs = map fst ps @ map w_MetricKey ws \<and> distinct (map fst qs) \<and> list_all accepted_entry qs"
proof (induction ws arbitrary: ps)
  case (Cons w ws)
  obtain p where p: "w_MetricKey w \<notin> set ex" "map_of ps (w_MetricKey w) = None" "validatePolicyWire w = Inr p"
    "load_wires ex (ps @ [(rp_MetricKey p, p)]) ws = Inr qs"
    using Cons.prems(1) by (auto simp: rbind_eq_Inr split: if_splits)
  note v = validatePolicyWire_accepts [OF p(3)]
  have k: "rp_MetricKey p = w_MetricKey w" "w_MetricKey w \<notin> fst ` set ps" "w_MetricKey w \<notin> set excludedRollupKeySet"
    using v(1) p(1,2) Cons.prems(2) by (simp_all add: map_of_eq_None_iff)
  have "accepted_entry (rp_MetricKey p, p)" using v(2,3) k by (simp add: accepted_entry_def)
  then have ih: "map fst qs = map fst (ps @ [(rp_MetricKey p, p)]) @ map w_MetricKey ws \<and> distinct (map fst qs) \<and> list_all accepted_entry qs"
    using Cons.prems(3,4) k(1,2) by (intro Cons.IH [OF p(4) Cons.prems(2)]) simp_all
  have "map fst (ps @ [(rp_MetricKey p, p)]) @ map w_MetricKey ws = map fst ps @ map w_MetricKey (w # ws)" using k(1) by simp
  from trans [OF conjunct1 [OF ih] this] show ?case using conjunct2 [OF ih] by (rule conjI)
qed simp

text \<open>
  C28. A policy document that loads covers the registered metrics exactly: none is registered
  twice, each either has one policy - under its own key, with the hash of the document, and accepted by the
  accumulator - or is one of the excluded metrics, and asking for its policy answers accordingly;
  for a metric that is not registered nothing is found.
\<close>
theorem loaded_policies_exact:
  assumes "LoadRollupPolicies digest registered doc = Inr (ps, hash)"
  shows "distinct registered \<and> set registered = set (map fst ps) \<union> set ExcludedRollupMetricKeys \<and> hash = digest (canonicalPolicyDocument doc)
    \<and> (\<forall>k. case RollupPolicyFor ps k of
         Inr p \<Rightarrow> k \<in> set registered \<and> k \<notin> set ExcludedRollupMetricKeys \<and> rp_MetricKey p = k \<and> rp_PolicyHash p = hash \<and> validateAccumulatorPolicy p = Inr ()
       | Inl e \<Rightarrow> (if k \<in> set ExcludedRollupMetricKeys then e = ErrRollupGated else e = ErrRollupUnknown \<and> k \<notin> set registered))"
proof -
  obtain ex qs where q: "validateExclusions (doc_ExcludedMetricKeys doc) = Inr ex" "\<not> list_ex (\<lambda>k. k \<notin> set registered) ex"
    "load_wires ex [] (doc_Policies doc) = Inr qs" "\<not> list_ex (\<lambda>(k, _). k \<notin> set registered) qs"
    "\<not> list_ex (\<lambda>k. map_of qs k = None \<and> k \<notin> set ex) registered" "length qs + length ex = length registered"
    "hash = digest (canonicalPolicyDocument doc)" "ps = map (\<lambda>(k, p). (k, p\<lparr>rp_PolicyHash := hash\<rparr>)) qs"
    using assms by (auto simp: LoadRollupPolicies_def rbind_eq_Inr Let_def split: if_splits)
  note ex = validateExclusions_exact [OF q(1)]
  have "map fst qs = map fst ([] :: (string \<times> RollupPolicy) list) @ map w_MetricKey (doc_Policies doc) \<and> distinct (map fst qs) \<and> list_all accepted_entry qs"
    by (rule load_wires_exact [OF q(3) ex(2)]) simp_all
  then have qs: "distinct (map fst qs)" "list_all accepted_entry qs" by blast+
  have ex2: "set ExcludedRollupMetricKeys = set ex" by (simp add: ExcludedRollupMetricKeys_def ex(2) excludedRollupKeySet_def)
  have keys: "map fst ps = map fst qs" by (simp add: q(8) case_prod_beta)
  have dj: "set (map fst qs) \<inter> set ex = {}" using qs(2) ex(2) by (auto simp: list_all_iff accepted_entry_def)
  have r: "set registered = set (map fst qs) \<union> set ex"
    using q(2,4,5) by (fastforce simp: list_ex_iff map_of_eq_None_iff)
  have "card (set registered) = card (set (map fst qs)) + card (set ex)" unfolding r using dj by (intro card_Un_disjoint) auto
  then have "card (set registered) = length registered" using q(6) distinct_card [OF qs(1)] distinct_card [OF ex(1)] by simp
  then have d: "distinct registered" by (rule card_distinct)
  have "case RollupPolicyFor ps k of
         Inr p \<Rightarrow> k \<in> set registered \<and> k \<notin> set ex \<and> rp_MetricKey p = k \<and> rp_PolicyHash p = hash \<and> validateAccumulatorPolicy p = Inr ()
       | Inl e \<Rightarrow> (if k \<in> set ex then e = ErrRollupGated else e = ErrRollupUnknown \<and> k \<notin> set registered)" for k
  proof (cases "k \<in> set ex \<or> map_of qs k = None")
    case True
    show ?thesis
    proof (cases "k \<in> set ex")
      case False
      then have n: "map_of qs k = None" using True by simp
      then have "k \<notin> set registered" using r False by (simp add: map_of_eq_None_iff)
      then show ?thesis using False n by (simp add: RollupPolicyFor_def ex(2) [symmetric] q(8) map_of_map)
    qed (simp add: RollupPolicyFor_def ex(2) [symmetric])
  next
    case False
    then obtain p where p: "map_of qs k = Some p" "k \<notin> set ex" by auto
    then have "accepted_entry (k, p)" using qs(2) map_of_SomeD by (fastforce simp: list_all_iff)
    moreover have "k \<in> set registered" using p(1) r map_of_SomeD [OF p(1)] by force
    ultimately show ?thesis using p by (auto simp: RollupPolicyFor_def ex(2) [symmetric] q(8) map_of_map accepted_entry_def)
  qed
  then show ?thesis using d r q(7) unfolding ex2 keys by blast
qed

definition demo_wire :: rollupPolicyWire where
  "demo_wire = \<lparr>w_PolicyVersion = 1, w_MetricKey = ''sub2api.revenue.daily'', w_ValueKind = ValueAdditiveDelta, w_PrimaryKind = PrimaryMoneyMinor,
     w_PrimaryJSONPointer = ''/amount'', w_CurrencyJSONPointer = ''/currency'', w_BusinessDayJSONPointer = [], w_Unit = ''minor'', w_Scale = 1,
     w_SumMode = ''additive'', w_BucketTimezone = ''UTC'', w_ExpectedIntervalSeconds = Some 3600, w_FullValueRequired = Some True,
     w_PartialValueAllowed = Some False\<rparr>"

definition demo_document :: rollupPolicyDocumentWire where
  "demo_document = \<lparr>doc_PolicyVersion = 1, doc_ExcludedMetricKeys = excludedRollupMetrics, doc_Policies = [demo_wire]\<rparr>"

theorem loaded_policies_exact_witness:
  "case LoadRollupPolicies (\<lambda>d. ''digest'') (''sub2api.revenue.daily'' # excludedRollupKeySet) demo_document of
     Inr (ps, hash) \<Rightarrow> distinct (''sub2api.revenue.daily'' # excludedRollupKeySet) \<and> map fst ps = [''sub2api.revenue.daily'']
   | Inl _ \<Rightarrow> False"
proof -
  let ?r = "''sub2api.revenue.daily'' # excludedRollupKeySet"
  have "case LoadRollupPolicies (\<lambda>d. ''digest'') ?r demo_document of Inr (ps, hash) \<Rightarrow> map fst ps = [''sub2api.revenue.daily''] | Inl _ \<Rightarrow> False"
    by code_simp
  then obtain ps hash where e: "LoadRollupPolicies (\<lambda>d. ''digest'') ?r demo_document = Inr (ps, hash)" "map fst ps = [''sub2api.revenue.daily'']"
    by (auto split: sum.splits)
  show ?thesis using loaded_policies_exact [OF e(1)] e by simp
qed

end
