(* ===== verification/Rollup_Laws.thy ===== *)
theory Rollup_Laws
  imports Rollup
begin

text \<open>
  What the roll-up guarantees: the accumulator of a bucket equals reference functions of the list of
  its samples, merging in portions equals merging at once and never ends in an accumulator that its
  own validation refuses, and a loaded policy set covers the registered metrics exactly.
\<close>

section \<open>The parts of an accumulator and who writes them\<close>

definition cnt_part :: "DailyAccumulator \<Rightarrow> int \<times> int \<times> int \<times> int \<times> (string, int) gomap" where
  "cnt_part a = (SampleCount a, FullSuccessCount a, PartialSuccessCount a, FailedCount a, ErrorCounts a)"

definition num_part :: "DailyAccumulator \<Rightarrow> string \<times> string list \<times> int option list \<times> int" where
  "num_part a = (a_Currency a, CurrencySet a, numerics a, NumericCount a)"

definition cov_part :: "DailyAccumulator \<Rightarrow> int option \<times> int list \<times> int option \<times> int option \<times> int option \<times> string \<times> int" where
  "cov_part a = (coverageInterval a, coverageSlots a, ExpectedSlotCount a, CoveredSlotCount a, CoveragePPM a, CoverageUnknownReason a, DuplicateCount a)"

definition id_part :: "DailyAccumulator \<Rightarrow> string \<times> string \<times> string \<times> time \<times> int \<times> string \<times> PrimaryKind \<times> string \<times> int \<times> string" where
  "id_part a = (a_Environment a, a_MetricKey a, a_Source a, BucketDay a, a_PolicyVersion a, a_PolicyHash a, a_PrimaryKind a, a_SumMode a,
     a_Scale a, a_BucketTimezone a)"

definition key_part :: "DailyAccumulator \<Rightarrow> int \<times> int \<times> int list" where
  "key_part a = (MinSampleID a, MaxSampleID a, seenSampleIDs a)"

definition rep_part :: "DailyAccumulator \<Rightarrow> json_object option \<times> json_object option \<times> json_object option \<times> int \<times> int \<times> int \<times> time option \<times> time option" where
  "rep_part a = (FirstFullValue a, LastFullValue a, LastPartialValue a, FirstFullSampleID a, LastFullSampleID a, LastPartialSampleID a,
     FirstSyncedAt a, LastSyncedAt a)"

lemmas part_defs = cnt_part_def num_part_def cov_part_def id_part_def key_part_def rep_part_def numerics_def

lemma put_numeric_parts:
  "cnt_part (put_numeric p x b c a) = cnt_part a" "cov_part (put_numeric p x b c a) = cov_part a" "id_part (put_numeric p x b c a) = id_part a"
  "key_part (put_numeric p x b c a) = key_part a" "rep_part (put_numeric p x b c a) = rep_part a"
  by (simp_all add: part_defs put_numeric_def Let_def)

lemma addCurrency_parts:
  "cnt_part (addCurrency c a) = cnt_part a" "cov_part (addCurrency c a) = cov_part a" "id_part (addCurrency c a) = id_part a"
  "key_part (addCurrency c a) = key_part a" "rep_part (addCurrency c a) = rep_part a" "numerics (addCurrency c a) = numerics a"
  "NumericCount (addCurrency c a) = NumericCount a"
  by (simp_all add: part_defs addCurrency_def Let_def)

lemma mergeCoverage_parts:
  "cnt_part (mergeCoverage s t a) = cnt_part a" "num_part (mergeCoverage s t a) = num_part a" "id_part (mergeCoverage s t a) = id_part a"
  "key_part (mergeCoverage s t a) = key_part a" "rep_part (mergeCoverage s t a) = rep_part a"
  by (simp_all add: part_defs mergeCoverage_def setCoverageUnknown_def count_slot_def Let_def split: option.splits)

lemma mergeRepresentativeTimes_parts:
  "cnt_part (mergeRepresentativeTimes s t a) = cnt_part a" "num_part (mergeRepresentativeTimes s t a) = num_part a"
  "id_part (mergeRepresentativeTimes s t a) = id_part a" "key_part (mergeRepresentativeTimes s t a) = key_part a"
  "cov_part (mergeRepresentativeTimes s t a) = cov_part a"
  by (simp_all add: part_defs mergeRepresentativeTimes_def Let_def)

lemma count_sample_parts:
  "num_part (count_sample s t a) = num_part a" "id_part (count_sample s t a) = id_part a" "key_part (count_sample s t a) = key_part a"
  "cov_part (count_sample s t a) = cov_part a"
  by (simp_all add: part_defs count_sample_def Let_def)

section \<open>One sample\<close>

text \<open>A sample with a value that counts, and the number it brings.\<close>

definition is_full :: "RawRollupSample \<Rightarrow> bool" where
  "is_full s \<longleftrightarrow> s_Status s = SyncOK \<and> \<not> s_IsPartial s"

definition sample_value :: "RawRollupSample \<Rightarrow> json_object" where
  "sample_value s = (case s_Value s of None \<Rightarrow> [] | Some v \<Rightarrow> v)"

definition sample_numeric :: "RollupPolicy \<Rightarrow> RawRollupSample \<Rightarrow> (int \<times> string option) list" where
  "sample_numeric p s = (if is_full s then (case numeric_of p s (sample_value s) of Inr (Some x) \<Rightarrow> [x] | _ \<Rightarrow> []) else [])"

text \<open>The accumulator a sample is merged into: the opened bucket, or the one entered.\<close>

definition entered :: "RollupPolicy \<Rightarrow> RawRollupSample \<Rightarrow> bool \<Rightarrow> DailyAccumulator \<Rightarrow> rollup_error + DailyAccumulator" where
  "entered p s first a = rbind (check_sample p s) (\<lambda>_. rbind (if first then Inr (open_bucket p s a) else enter_bucket p s a) (\<lambda>a.
     if s_ID s \<in> set (seenSampleIDs a) then Inl ErrRollupOrder
     else Inr (a\<lparr>seenSampleIDs := s_ID s # seenSampleIDs a, MinSampleID := (if s_ID s < MinSampleID a then s_ID s else MinSampleID a)\<rparr>)))"

lemma mergeSample_entered:
  assumes "mergeSample p s first a = Inr b"
  obtains a0 c where "entered p s first a = Inr a0"
    "(if is_full s then mergeSuccessfulValue p s (s_SyncedAt s) (count_sample s (s_SyncedAt s) a0) else Inr (count_sample s (s_SyncedAt s) a0)) = Inr c"
    "b = mergeRepresentativeTimes s (s_SyncedAt s) (mergeCoverage s (s_SyncedAt s) c)"
proof -
  obtain a1 where a1: "check_sample p s = Inr ()" "(if first then Inr (open_bucket p s a) else enter_bucket p s a) = Inr a1"
    "s_ID s \<notin> set (seenSampleIDs a1)"
  proof -
    obtain u a1 where *: "check_sample p s = Inr u" "(if first then Inr (open_bucket p s a) else enter_bucket p s a) = Inr a1"
      and r: "(if s_ID s \<in> set (seenSampleIDs a1) then (Inl ErrRollupOrder :: rollup_error + DailyAccumulator) else let synced = s_SyncedAt s;
             a = a1\<lparr>seenSampleIDs := s_ID s # seenSampleIDs a1, MinSampleID := (if s_ID s < MinSampleID a1 then s_ID s else MinSampleID a1)\<rparr>
      in rbind (if s_Status s = SyncOK \<and> \<not> s_IsPartial s then mergeSuccessfulValue p s synced (count_sample s synced a)
                else Inr (count_sample s synced a)) (\<lambda>a.
         Inr (mergeRepresentativeTimes s synced (mergeCoverage s synced a)))) = Inr b"
      using assms unfolding mergeSample_def rbind_eq_Inr by (elim exE conjE) (rule that)
    have "s_ID s \<notin> set (seenSampleIDs a1)" using r by (rule_tac notI) (simp only: if_True sum.distinct)
    then show ?thesis using that * by (cases u) simp
  qed
  define a0 where "a0 = a1\<lparr>seenSampleIDs := s_ID s # seenSampleIDs a1, MinSampleID := (if s_ID s < MinSampleID a1 then s_ID s else MinSampleID a1)\<rparr>"
  have e: "entered p s first a = Inr a0" unfolding entered_def a1(1,2) using a1(3) by (simp add: a0_def)
  have "mergeSample p s first a = rbind (if is_full s then mergeSuccessfulValue p s (s_SyncedAt s) (count_sample s (s_SyncedAt s) a0)
      else Inr (count_sample s (s_SyncedAt s) a0)) (\<lambda>a. Inr (mergeRepresentativeTimes s (s_SyncedAt s) (mergeCoverage s (s_SyncedAt s) a)))"
    unfolding mergeSample_def a1(1,2) using a1(3) by (simp add: a0_def is_full_def Let_def)
  from this [symmetric] have "rbind (if is_full s then mergeSuccessfulValue p s (s_SyncedAt s) (count_sample s (s_SyncedAt s) a0)
      else Inr (count_sample s (s_SyncedAt s) a0)) (\<lambda>a. Inr (mergeRepresentativeTimes s (s_SyncedAt s) (mergeCoverage s (s_SyncedAt s) a))) = Inr b"
    by (rule trans) (rule assms)
  then show ?thesis unfolding rbind_eq_Inr sum.inject by (elim exE conjE) (rule that [OF e _ sym])
qed

text \<open>What a full sample adds, beside the representatives: its number.\<close>

definition with_number :: "RollupPolicy \<Rightarrow> int \<times> string option \<Rightarrow> bool \<Rightarrow> bool \<Rightarrow> DailyAccumulator \<Rightarrow> DailyAccumulator" where
  "with_number p x before after a = put_numeric p (fst x) before after (case snd x of None \<Rightarrow> a | Some c \<Rightarrow> addCurrency c a)"

lemma mergeSuccessfulValue_cases:
  assumes "mergeSuccessfulValue p s t a = Inr c" "is_full s"
  obtains a1 before after where "cnt_part a1 = cnt_part a" "num_part a1 = num_part a" "cov_part a1 = cov_part a" "id_part a1 = id_part a"
    "key_part a1 = key_part a" "c = (case sample_numeric p s of [] \<Rightarrow> a1 | x # _ \<Rightarrow> with_number p x before after a1)"
    "numeric_of p s (sample_value s) = Inr None \<or> (\<exists>x. numeric_of p s (sample_value s) = Inr (Some x))"
    "FirstFullSampleID a1 = (if FirstFullValue a = None \<or> tupleBefore t (s_ID s) (derefTime (FirstSyncedAt a)) (FirstFullSampleID a) then s_ID s else FirstFullSampleID a)"
    "LastFullSampleID a1 = (if LastFullValue a = None \<or> tupleAfter t (s_ID s) (derefTime (LastSyncedAt a)) (LastFullSampleID a) then s_ID s else LastFullSampleID a)"
    "FirstFullValue a1 \<noteq> None" "LastFullValue a1 \<noteq> None" "LastPartialValue a1 = LastPartialValue a" "LastPartialSampleID a1 = LastPartialSampleID a"
    "FirstSyncedAt a1 = FirstSyncedAt a" "LastSyncedAt a1 = LastSyncedAt a"
proof -
  define before after where "before = tupleBefore t (s_ID s) (derefTime (FirstSyncedAt a)) (FirstFullSampleID a)"
    and "after = tupleAfter t (s_ID s) (derefTime (LastSyncedAt a)) (LastFullSampleID a)"
  define f where "f = (if FirstFullValue a = None \<or> before then a\<lparr>FirstFullValue := Some (sample_value s), FirstFullSampleID := s_ID s\<rparr> else a)"
  define a1 where "a1 = (if LastFullValue f = None \<or> after then f\<lparr>LastFullValue := Some (sample_value s), LastFullSampleID := s_ID s\<rparr> else f)"
  have np: "s_IsPartial s = False" using assms(2) by (simp add: is_full_def)
  have e: "mergeSuccessfulValue p s t a = rbind (numeric_of p s (sample_value s)) (\<lambda>n. case n of None \<Rightarrow> Inr a1
      | Some (x, c) \<Rightarrow> Inr (put_numeric p x before after (case c of None \<Rightarrow> a1 | Some c \<Rightarrow> addCurrency c a1)))"
    unfolding mergeSuccessfulValue_def Let_def sample_value_def before_def after_def f_def a1_def np by (simp only: simp_thms)
  obtain n where n: "numeric_of p s (sample_value s) = Inr n"
    "(case n of None \<Rightarrow> Inr a1 | Some x \<Rightarrow> Inr (with_number p x before after a1)) = (Inr c :: rollup_error + DailyAccumulator)"
  proof -
    obtain n where *: "numeric_of p s (sample_value s) = Inr n" "(case n of None \<Rightarrow> Inr a1
      | Some (x, c) \<Rightarrow> Inr (put_numeric p x before after (case c of None \<Rightarrow> a1 | Some c \<Rightarrow> addCurrency c a1))) = (Inr c :: rollup_error + DailyAccumulator)"
      using assms(1) unfolding e rbind_eq_Inr by blast
    show ?thesis using that [OF *(1)] *(2) by (cases n) (simp_all add: with_number_def split: prod.splits)
  qed
  show ?thesis
  proof (rule that [of a1 before after])
    show "c = (case sample_numeric p s of [] \<Rightarrow> a1 | x # _ \<Rightarrow> with_number p x before after a1)"
      using n assms(2) by (auto simp: sample_numeric_def split: option.splits)
    show "numeric_of p s (sample_value s) = Inr None \<or> (\<exists>x. numeric_of p s (sample_value s) = Inr (Some x))" using n(1) by (cases n) auto
  qed (simp_all add: part_defs a1_def f_def before_def after_def)
qed

lemma with_number_parts:
  "cnt_part (with_number p x b c a) = cnt_part a" "cov_part (with_number p x b c a) = cov_part a" "id_part (with_number p x b c a) = id_part a"
  "key_part (with_number p x b c a) = key_part a" "rep_part (with_number p x b c a) = rep_part a"
  by (simp_all add: with_number_def put_numeric_parts addCurrency_parts split: option.splits)

text \<open>The numbers after one more, as a function of the numbers before.\<close>

definition numbers_after :: "RollupPolicy \<Rightarrow> int \<Rightarrow> bool \<Rightarrow> bool \<Rightarrow> string \<times> string list \<times> int option list \<times> int \<Rightarrow> string \<times> string list \<times> int option list \<times> int" where
  "numbers_after p x before after n = (case n of (cur, cs, ns, k) \<Rightarrow>
     (cur, cs, if length cs > 1 then replicate 5 None else
       [if ns ! 0 = None \<or> before then Some x else ns ! 0, if ns ! 1 = None \<or> after then Some x else ns ! 1,
        option_pick (\<lambda>y. x < y) x (ns ! 2), option_pick (\<lambda>y. x > y) x (ns ! 3),
        if rp_SumMode p = ''additive'' then Some ((case ns ! 4 of None \<Rightarrow> 0 | Some y \<Rightarrow> y) + x) else None], k + 1))"

definition currency_after :: "string option \<Rightarrow> string \<times> string list \<times> int option list \<times> int \<Rightarrow> string \<times> string list \<times> int option list \<times> int" where
  "currency_after c n = (case n of (cur, cs, r) \<Rightarrow> (case c of None \<Rightarrow> n | Some c \<Rightarrow>
     if c \<in> set cs then (if length cs = 1 then c else cur, cs, r)
     else (if length (sort (cs @ [c])) = 1 then c else [], sort (cs @ [c]), r)))"

lemma put_numeric_num: "num_part (put_numeric p x b c a) = numbers_after p x b c (num_part a)"
  by (simp add: num_part_def numbers_after_def put_numeric_def numerics_def Let_def eval_nat_numeral)

lemma addCurrency_num: "num_part (case c of None \<Rightarrow> a | Some c \<Rightarrow> addCurrency c a) = currency_after c (num_part a)"
  by (cases c) (simp_all add: num_part_def currency_after_def addCurrency_def numerics_def Let_def del: length_sort)

lemma with_number_num: "num_part (with_number p x b c a) = numbers_after p (fst x) b c (currency_after (snd x) (num_part a))"
  by (simp add: with_number_def put_numeric_num addCurrency_num)

lemma with_number_cong: "num_part a = num_part a' \<Longrightarrow> num_part (with_number p x b c a) = num_part (with_number p x b c a')"
  by (simp add: with_number_num)

lemma cov_partD:
  assumes "cov_part a = cov_part a'"
  shows "coverageInterval a = coverageInterval a'" "coverageSlots a = coverageSlots a'" "ExpectedSlotCount a = ExpectedSlotCount a'"
    "CoveredSlotCount a = CoveredSlotCount a'" "CoveragePPM a = CoveragePPM a'" "CoverageUnknownReason a = CoverageUnknownReason a'"
    "DuplicateCount a = DuplicateCount a'"
  using assms by (simp_all add: cov_part_def)

lemma setCoverageUnknown_part:
  "cov_part (setCoverageUnknown r a) = (coverageInterval a, coverageSlots a, None, None, None,
     (if CoverageUnknownReason a = [] then r else CoverageUnknownReason a), DuplicateCount a)"
  by (simp add: setCoverageUnknown_def cov_part_def)

definition slots_after :: "int \<Rightarrow> time \<Rightarrow> int list \<Rightarrow> int list" where
  "slots_after i t ss = (let slot = floorDiv (Unix t) i in if slot \<in> set ss then ss else slot # ss)"

lemma count_slot_part:
  "cov_part (count_slot i t a) = (coverageInterval a, slots_after i t (coverageSlots a), Some (secondsPerDay sdiv i),
     Some (int (length (slots_after i t (coverageSlots a)))),
     Some ((int (length (slots_after i t (coverageSlots a))) * microsPerCoverage) sdiv (secondsPerDay sdiv i)), CoverageUnknownReason a,
     DuplicateCount a + (if floorDiv (Unix t) i \<in> set (coverageSlots a) then 1 else 0))"
  by (simp add: count_slot_def slots_after_def cov_part_def Let_def)

lemma with_interval_part:
  "cov_part (a\<lparr>coverageInterval := i\<rparr>) = (i, coverageSlots a, ExpectedSlotCount a, CoveredSlotCount a, CoveragePPM a, CoverageUnknownReason a, DuplicateCount a)"
  by (simp add: cov_part_def)

lemma mergeCoverage_cong:
  assumes "cov_part a = cov_part a'"
  shows "cov_part (mergeCoverage s t a) = cov_part (mergeCoverage s t a')"
proof (cases "s_ExpectedIntervalSeconds s")
  case None
  then show ?thesis by (simp add: mergeCoverage_def setCoverageUnknown_part cov_partD [OF assms])
next
  case (Some i)
  show ?thesis by (simp add: mergeCoverage_def Some setCoverageUnknown_part count_slot_part with_interval_part assms cov_partD [OF assms])
qed

text \<open>One merge, part by part, over the accumulator the sample entered.\<close>

lemma mergeSample_parts:
  assumes "mergeSample p s first a = Inr b"
  obtains a0 before after where "entered p s first a = Inr a0" "cnt_part b = cnt_part (count_sample s (s_SyncedAt s) a0)" "id_part b = id_part a0"
    "key_part b = key_part a0" "cov_part b = cov_part (mergeCoverage s (s_SyncedAt s) a0)"
    "num_part b = (case sample_numeric p s of [] \<Rightarrow> num_part a0 | x # _ \<Rightarrow> num_part (with_number p x before after a0))"
proof -
  obtain a0 c where a0: "entered p s first a = Inr a0"
    "(if is_full s then mergeSuccessfulValue p s (s_SyncedAt s) (count_sample s (s_SyncedAt s) a0) else Inr (count_sample s (s_SyncedAt s) a0)) = Inr c"
    "b = mergeRepresentativeTimes s (s_SyncedAt s) (mergeCoverage s (s_SyncedAt s) c)"
    by (rule mergeSample_entered [OF assms])
  let ?k = "count_sample s (s_SyncedAt s) a0"
  have b: "cnt_part b = cnt_part c" "num_part b = num_part c" "id_part b = id_part c" "key_part b = key_part c"
    "cov_part b = cov_part (mergeCoverage s (s_SyncedAt s) c)"
    by (simp_all add: a0(3) mergeRepresentativeTimes_parts mergeCoverage_parts)
  show ?thesis
  proof (cases "is_full s")
    case False
    then have c: "c = ?k" using a0(2) by simp
    have "sample_numeric p s = []" using False by (simp add: sample_numeric_def)
    then show ?thesis using that [OF a0(1), of True True] b
      by (simp add: c count_sample_parts mergeCoverage_cong [OF count_sample_parts(4)])
  next
    case True
    then have "mergeSuccessfulValue p s (s_SyncedAt s) ?k = Inr c" using a0(2) by simp
    then obtain a1 before after where a1: "cnt_part a1 = cnt_part ?k" "num_part a1 = num_part ?k" "cov_part a1 = cov_part ?k" "id_part a1 = id_part ?k"
      "key_part a1 = key_part ?k" "c = (case sample_numeric p s of [] \<Rightarrow> a1 | x # _ \<Rightarrow> with_number p x before after a1)"
      by (rule mergeSuccessfulValue_cases [OF _ True])
    have "cov_part c = cov_part a0" using a1(3,6) by (simp add: with_number_parts count_sample_parts split: list.splits)
    then have v: "cov_part b = cov_part (mergeCoverage s (s_SyncedAt s) a0)" using b(5) mergeCoverage_cong by metis
    show ?thesis using a1(1,2,4-6) b
      by (intro that [OF a0(1) _ _ _ v, of before after])
        (simp_all add: with_number_parts count_sample_parts with_number_cong [of a1 a0] split: list.splits)
  qed
qed

section \<open>Runs\<close>

text \<open>The accumulators a list of samples can lead to.\<close>

inductive rolled :: "RollupPolicy \<Rightarrow> RawRollupSample list \<Rightarrow> DailyAccumulator \<Rightarrow> bool" for p where
  opened: "mergeSample p s True zero_accumulator = Inr a \<Longrightarrow> rolled p [s] a"
| merged: "rolled p ss a \<Longrightarrow> mergeSample p s False a = Inr b \<Longrightarrow> rolled p (ss @ [s]) b"

lemma rolled_samples:
  "rolled p ss a \<Longrightarrow> merge_samples p rest a = Inr b \<Longrightarrow> rolled p (ss @ rest) b"
proof (induction rest arbitrary: ss a)
  case (Cons s rest)
  obtain a1 where "mergeSample p s False a = Inr a1" "merge_samples p rest a1 = Inr b" using Cons.prems(2) by (auto simp: rbind_eq_Inr)
  then show ?case using Cons.IH [of "ss @ [s]" a1] rolled.merged [OF Cons.prems(1)] by simp
qed simp

lemma rolled_NewDailyAccumulator: "NewDailyAccumulator p s = Inr a \<Longrightarrow> rolled p [s] a"
  by (auto simp: NewDailyAccumulator_def rbind_eq_Inr intro: rolled.opened)

text \<open>Who gets in: the first sample opens the bucket, a later one belongs to it and comes after all others.\<close>

definition belongs :: "RollupPolicy \<Rightarrow> RawRollupSample \<Rightarrow> bool" where
  "belongs p s \<longleftrightarrow> 0 < s_ID s \<and> s_MetricKey s = rp_MetricKey p \<and> s_Source s \<noteq> [] \<and> s_Environment s \<noteq> []
     \<and> (s_Status s = SyncFailed \<longleftrightarrow> \<not> blank (s_LastErrorCode s)) \<and> (s_Status s = SyncOK \<or> s_Status s = SyncFailed)
     \<and> (s_Status s = SyncOK \<and> s_IsPartial s \<longrightarrow> PartialValueAllowed p)"

lemma belongs_key: "belongs p s \<Longrightarrow> s_MetricKey s = rp_MetricKey p"
  by (simp add: belongs_def)

lemma check_sample_belongs: "check_sample p s = Inr u \<Longrightarrow> belongs p s"
  by (auto simp: check_sample_def belongs_def split: if_splits)

lemma entered_first:
  assumes "entered p s True zero_accumulator = Inr a0"
  shows "belongs p s" "a0 = (open_bucket p s zero_accumulator)\<lparr>seenSampleIDs := [s_ID s]\<rparr>"
proof -
  obtain u where u: "check_sample p s = Inr u" using assms by (auto simp: entered_def rbind_eq_Inr)
  show "belongs p s" by (rule check_sample_belongs [OF u])
  show "a0 = (open_bucket p s zero_accumulator)\<lparr>seenSampleIDs := [s_ID s]\<rparr>"
    using assms by (simp add: entered_def u open_bucket_def zero_accumulator_def)
qed

lemma entered_next:
  assumes "entered p s False a = Inr a0"
  shows "belongs p s" "s_Environment s = a_Environment a" "s_Source s = a_Source a" "utcBucketDay (s_SyncedAt s) = BucketDay a" "MaxSampleID a < s_ID s"
    "a0 = a\<lparr>MaxSampleID := s_ID s, seenSampleIDs := s_ID s # seenSampleIDs a, MinSampleID := (if s_ID s < MinSampleID a then s_ID s else MinSampleID a)\<rparr>"
proof -
  obtain u where u: "check_sample p s = Inr u" using assms by (auto simp: entered_def rbind_eq_Inr)
  show "belongs p s" by (rule check_sample_belongs [OF u])
  obtain a1 where a1: "enter_bucket p s a = Inr a1" using assms by (auto simp: entered_def u rbind_eq_Inr)
  show "s_Environment s = a_Environment a" "s_Source s = a_Source a" "utcBucketDay (s_SyncedAt s) = BucketDay a" "MaxSampleID a < s_ID s"
    using a1 by (auto simp: enter_bucket_def split: if_splits)
  have e: "a1 = a\<lparr>MaxSampleID := s_ID s\<rparr>" using a1 by (simp add: enter_bucket_def split: if_splits)
  show "a0 = a\<lparr>MaxSampleID := s_ID s, seenSampleIDs := s_ID s # seenSampleIDs a, MinSampleID := (if s_ID s < MinSampleID a then s_ID s else MinSampleID a)\<rparr>"
    using assms by (simp add: entered_def u a1 e split: if_splits)
qed

text \<open>The bucket and its identifiers.\<close>

definition keys_ref :: "RollupPolicy \<Rightarrow> RawRollupSample list \<Rightarrow> DailyAccumulator \<Rightarrow> bool" where
  "keys_ref p ss a \<longleftrightarrow> ss \<noteq> [] \<and> list_all (belongs p) ss \<and> sorted_wrt (<) (map s_ID ss) \<and> MinSampleID a = s_ID (hd ss) \<and> MaxSampleID a = s_ID (last ss)
     \<and> list_all (\<lambda>s. s_Environment s = a_Environment a \<and> s_Source s = a_Source a \<and> utcBucketDay (s_SyncedAt s) = BucketDay a) ss
     \<and> a_MetricKey a = rp_MetricKey p \<and> a_PolicyVersion a = rp_Version p \<and> a_PolicyHash a = rp_PolicyHash p \<and> a_PrimaryKind a = rp_PrimaryKind p
     \<and> a_SumMode a = rp_SumMode p \<and> a_Scale a = rp_Scale p \<and> a_BucketTimezone a = rp_BucketTimezone p"

lemma same_id_part:
  assumes "id_part b = id_part a" "key_part b = key_part a"
  shows "keys_ref p ss b = keys_ref p ss a"
  using assms by (simp add: id_part_def key_part_def keys_ref_def)

lemma sorted_last_le: "sorted_wrt (<) (map s_ID ss) \<Longrightarrow> ss \<noteq> [] \<Longrightarrow> s_ID (hd ss) \<le> s_ID (last ss)"
  by (cases ss) (auto intro: less_imp_le)

lemma rolled_keys: "rolled p ss a \<Longrightarrow> keys_ref p ss a"
proof (induction rule: rolled.induct)
  case (opened s a)
  obtain a0 where a0: "entered p s True zero_accumulator = Inr a0" "id_part a = id_part a0" "key_part a = key_part a0"
    by (rule mergeSample_parts [OF opened])
  show ?case unfolding same_id_part [OF a0(2,3)] using entered_first [OF a0(1)]
      belongs_key [OF entered_first(1) [OF a0(1)]] by (simp add: keys_ref_def open_bucket_def)
next
  case (merged ss a s b)
  obtain a0 where a0: "entered p s False a = Inr a0" "id_part b = id_part a0" "key_part b = key_part a0"
    by (rule mergeSample_parts [OF merged(2)])
  note e = entered_next [OF a0(1)]
  have "sorted_wrt (<) (map s_ID (ss @ [s]))"
  proof -
    have ne: "ss \<noteq> []" "sorted_wrt (<) (map s_ID ss)" "s_ID (last ss) < s_ID s" using merged.IH e(5) by (auto simp: keys_ref_def)
    have "s_ID x \<le> s_ID (last ss)" if "x \<in> set ss" for x
    proof -
      have "sorted (map s_ID ss)" using ne(2) by (rule strict_sorted_imp_sorted)
      then show ?thesis using that ne(1) by (induction ss) (auto simp: last_in_set)
    qed
    then show ?thesis using ne by (fastforce simp: sorted_wrt_append)
  qed
  moreover have "s_ID (hd ss) < s_ID s" using sorted_last_le [of ss] merged.IH e(5) by (simp add: keys_ref_def)
  ultimately show ?case unfolding same_id_part [OF a0(2,3)] using e merged.IH by (simp add: keys_ref_def)
qed

section \<open>Counters\<close>

definition is_failed :: "RawRollupSample \<Rightarrow> bool" where
  "is_failed s \<longleftrightarrow> s_Status s = SyncFailed"

definition is_partial :: "RawRollupSample \<Rightarrow> bool" where
  "is_partial s \<longleftrightarrow> s_Status s \<noteq> SyncFailed \<and> s_IsPartial s"

definition count_of :: "(RawRollupSample \<Rightarrow> bool) \<Rightarrow> RawRollupSample list \<Rightarrow> int" where
  "count_of P ss = int (length (filter P ss))"

definition errors_with :: "(string, int) gomap \<Rightarrow> string \<Rightarrow> int" where
  "errors_with m code = (case map_of m code of None \<Rightarrow> 0 | Some n \<Rightarrow> n)"

lemma count_of_snoc [simp]: "count_of P [] = 0" "count_of P (ss @ [s]) = count_of P ss + (if P s then 1 else 0)"
  by (simp_all add: count_of_def)

definition counts_ref :: "RawRollupSample list \<Rightarrow> int \<times> int \<times> int \<times> int \<times> (string, int) gomap \<Rightarrow> bool" where
  "counts_ref ss n \<longleftrightarrow> (case n of (k, full, part, failed, errs) \<Rightarrow> k = int (length ss) \<and> full = count_of is_full ss \<and> part = count_of is_partial ss
     \<and> failed = count_of is_failed ss \<and> distinct (map fst errs) \<and> list_all (\<lambda>(c, n). c \<noteq> [] \<and> 0 < n) errs \<and> msum (\<lambda>n. n) errs = failed
     \<and> (\<forall>c. errors_with errs c = count_of (\<lambda>s. is_failed s \<and> s_LastErrorCode s = c) ss))"

lemma count_sample_cnt:
  "cnt_part (count_sample s t a) =
    (SampleCount a + 1, FullSuccessCount a + (if is_failed s \<or> s_IsPartial s then 0 else 1), PartialSuccessCount a + (if is_partial s then 1 else 0),
     FailedCount a + (if is_failed s then 1 else 0),
     (if is_failed s then mput (s_LastErrorCode s) (errors_with (ErrorCounts a) (s_LastErrorCode s) + 1) (ErrorCounts a) else ErrorCounts a))"
  by (simp add: cnt_part_def count_sample_def is_failed_def is_partial_def errors_with_def Let_def)

lemma belongs_class: "belongs p s \<Longrightarrow> is_full s \<longleftrightarrow> \<not> is_failed s \<and> \<not> s_IsPartial s"
  by (auto simp: belongs_def is_full_def is_failed_def)

lemma list_all_mput: "list_all P m \<Longrightarrow> P (k, v) \<Longrightarrow> list_all P (mput k v m)"
  by (induction m) auto

lemma counts_step:
  assumes "counts_ref ss (cnt_part a)" "belongs p s"
  shows "counts_ref (ss @ [s]) (cnt_part (count_sample s t a))"
proof (cases "is_failed s")
  case False
  have "SampleCount a = int (length ss)" "FullSuccessCount a = count_of is_full ss" "PartialSuccessCount a = count_of is_partial ss"
    "FailedCount a = count_of is_failed ss" "distinct (map fst (ErrorCounts a))" "list_all (\<lambda>(c, n). c \<noteq> [] \<and> 0 < n) (ErrorCounts a)"
    "msum (\<lambda>n. n) (ErrorCounts a) = FailedCount a" "\<And>c. errors_with (ErrorCounts a) c = count_of (\<lambda>s. is_failed s \<and> s_LastErrorCode s = c) ss"
    using assms(1) by (simp_all add: counts_ref_def cnt_part_def)
  then show ?thesis using False by (simp add: counts_ref_def count_sample_cnt belongs_class [OF assms(2)])
next
  case True
  let ?c = "s_LastErrorCode s"
  let ?m = "ErrorCounts a"
  have c: "?c \<noteq> []" using True assms(2) by (auto simp: belongs_def is_failed_def)
  have m: "distinct (map fst ?m)" "list_all (\<lambda>(c, n). c \<noteq> [] \<and> 0 < n) ?m" "msum (\<lambda>n. n) ?m = FailedCount a"
    "\<And>c. errors_with ?m c = count_of (\<lambda>s. is_failed s \<and> s_LastErrorCode s = c) ss"
    using assms(1) by (simp_all add: counts_ref_def cnt_part_def)
  have p: "0 \<le> errors_with ?m ?c" unfolding m(4) by (simp add: count_of_def)
  have "msum (\<lambda>n. n) (mput ?c (errors_with ?m ?c + 1) ?m) = msum (\<lambda>n. n) ?m + 1"
    by (cases "map_of ?m ?c") (simp_all add: errors_with_def msum_new msum_old)
  moreover have "list_all (\<lambda>(c, n). c \<noteq> [] \<and> 0 < n) (mput ?c (errors_with ?m ?c + 1) ?m)" using m(2) c p by (intro list_all_mput) auto
  moreover have "errors_with (mput ?c (errors_with ?m ?c + 1) ?m) d = count_of (\<lambda>s. is_failed s \<and> s_LastErrorCode s = d) (ss @ [s])" for d
    using True m(4) [of d] by (simp add: errors_with_def)
  ultimately show ?thesis using True m(1,3) assms(1)
    by (simp add: counts_ref_def count_sample_cnt belongs_class [OF assms(2)] is_partial_def is_failed_def) (simp add: cnt_part_def)
qed

lemma rolled_counts: "rolled p ss a \<Longrightarrow> counts_ref ss (cnt_part a)"
proof (induction rule: rolled.induct)
  case (opened s a)
  obtain a0 where a0: "entered p s True zero_accumulator = Inr a0" "cnt_part a = cnt_part (count_sample s (s_SyncedAt s) a0)"
    by (rule mergeSample_parts [OF opened])
  have "counts_ref [] (cnt_part a0)"
    by (simp add: entered_first(2) [OF a0(1)] cnt_part_def counts_ref_def open_bucket_def zero_accumulator_def errors_with_def)
  from counts_step [OF this entered_first(1) [OF a0(1)]] show ?case by (simp add: a0(2))
next
  case (merged ss a s b)
  obtain a0 where a0: "entered p s False a = Inr a0" "cnt_part b = cnt_part (count_sample s (s_SyncedAt s) a0)"
    by (rule mergeSample_parts [OF merged(2)])
  have "cnt_part a0 = cnt_part a" by (simp add: entered_next(6) [OF a0(1)] cnt_part_def)
  then show ?case using counts_step [OF _ entered_next(1) [OF a0(1)], of ss a0] merged.IH by (simp add: a0(2))
qed

section \<open>Numbers\<close>

definition currencies :: "(int \<times> string option) list \<Rightarrow> string list" where
  "currencies ns = concat (map (\<lambda>(_, c). case c of None \<Rightarrow> [] | Some c \<Rightarrow> [c]) ns)"

definition numbers_ref :: "RollupPolicy \<Rightarrow> (int \<times> string option) list \<Rightarrow> string \<times> string list \<times> int option list \<times> int \<Rightarrow> bool" where
  "numbers_ref p ns n \<longleftrightarrow> (case n of (cur, cs, qs, k) \<Rightarrow>
     sorted cs \<and> distinct cs \<and> set cs = set (currencies ns) \<and> cur = (if length cs = 1 then hd cs else []) \<and> k = int (length ns)
     \<and> (if ns = [] \<or> length cs > 1 then qs = replicate 5 None
        else \<exists>x y. x \<in> set (map fst ns) \<and> y \<in> set (map fst ns) \<and> qs = [Some x, Some y, Some (Min (set (map fst ns))), Some (Max (set (map fst ns))),
          if rp_SumMode p = ''additive'' then Some (sum_list (map fst ns)) else None]))"

lemma currencies_snoc: "set (currencies (ns @ [x])) = set (currencies ns) \<union> (case snd x of None \<Rightarrow> {} | Some c \<Rightarrow> {c})"
  by (cases x) (auto simp: currencies_def split: option.splits)

lemma currency_step:
  assumes "sorted cs" "distinct cs" "set cs = set (currencies ns)" "cur = (if length cs = 1 then hd cs else [])"
  obtains cs' cur' where "currency_after (snd x) (cur, cs, r) = (cur', cs', r)" "sorted cs'" "distinct cs'" "set cs' = set (currencies (ns @ [x]))"
    "cur' = (if length cs' = 1 then hd cs' else [])" "length cs \<le> length cs'"
proof (cases "snd x")
  case None
  then show ?thesis using that [of cur cs] assms by (simp add: currency_after_def currencies_snoc)
next
  case (Some c)
  show ?thesis
  proof (cases "c \<in> set cs")
    case True
    have "length cs = 1 \<Longrightarrow> hd cs = c" using True by (cases cs) auto
    then have "(if length cs = 1 then c else cur) = cur" using assms(4) by simp
    then have "currency_after (snd x) (cur, cs, r) = (cur, cs, r)" using True by (simp add: currency_after_def Some)
    then show ?thesis using that [of cur cs] True assms by (simp add: currencies_snoc Some insert_absorb)
  next
    case False
    have h: "length (sort (cs @ [c])) = 1 \<Longrightarrow> hd (sort (cs @ [c])) = c" by simp
    show ?thesis
    proof (rule that)
      show "currency_after (snd x) (cur, cs, r) = (if length (sort (cs @ [c])) = 1 then c else [], sort (cs @ [c]), r)"
        using False by (simp add: currency_after_def Some del: length_sort)
      show "(if length (sort (cs @ [c])) = 1 then c else []) = (if length (sort (cs @ [c])) = 1 then hd (sort (cs @ [c])) else [])"
        using h by simp
    qed (use False assms in \<open>auto simp: currencies_snoc Some\<close>)
  qed
qed

lemma numbers_step:
  assumes "numbers_ref p ns n"
  shows "numbers_ref p (ns @ [x]) (numbers_after p (fst x) before after (currency_after (snd x) n))"
proof -
  obtain cur cs qs k where n: "n = (cur, cs, qs, k)" by (cases n)
  note r = assms [unfolded n numbers_ref_def prod.case]
  obtain cs' cur' where c: "currency_after (snd x) (cur, cs, qs, k) = (cur', cs', qs, k)" "sorted cs'" "distinct cs'" "set cs' = set (currencies (ns @ [x]))"
    "cur' = (if length cs' = 1 then hd cs' else [])" "length cs \<le> length cs'"
    by (rule currency_step [of cs ns cur x]) (use r in auto)
  have k: "k = int (length ns)" using r by simp
  have e: "numbers_after p (fst x) before after (currency_after (snd x) n) = numbers_after p (fst x) before after (cur', cs', qs, k)"
    by (simp only: n c(1))
  show ?thesis unfolding e
  proof (cases "length cs' > 1")
    case True
    then show "numbers_ref p (ns @ [x]) (numbers_after p (fst x) before after (cur', cs', qs, k))"
      using c(2-5) k by (simp add: numbers_after_def numbers_ref_def)
  next
    case False
    have q: "if ns = [] then qs = replicate 5 None
        else \<exists>x y. x \<in> set (map fst ns) \<and> y \<in> set (map fst ns) \<and> qs = [Some x, Some y, Some (Min (set (map fst ns))), Some (Max (set (map fst ns))),
          if rp_SumMode p = ''additive'' then Some (sum_list (map fst ns)) else None]"
      using r False c(6) by (auto split: if_splits)
    show "numbers_ref p (ns @ [x]) (numbers_after p (fst x) before after (cur', cs', qs, k))"
    proof (cases "ns = []")
      case True
      then have "qs = replicate 5 None" using q by simp
      then show "numbers_ref p (ns @ [x]) (numbers_after p (fst x) before after (cur', cs', qs, k))" using c(2-5) k False True
        by (simp add: numbers_after_def numbers_ref_def option_pick_def eval_nat_numeral)
    next
      case ne: False
      then obtain u v where uv: "u \<in> set (map fst ns)" "v \<in> set (map fst ns)" "qs = [Some u, Some v, Some (Min (set (map fst ns))), Some (Max (set (map fst ns))),
          if rp_SumMode p = ''additive'' then Some (sum_list (map fst ns)) else None]" using q by auto
      let ?u = "if before then fst x else u" let ?v = "if after then fst x else v"
      have mm: "Min (set (map fst (ns @ [x]))) = min (fst x) (Min (set (map fst ns)))" "Max (set (map fst (ns @ [x]))) = max (fst x) (Max (set (map fst ns)))"
        using ne by simp_all
      have "numbers_after p (fst x) before after (cur', cs', qs, k) = (cur', cs', [Some ?u, Some ?v, Some (Min (set (map fst (ns @ [x])))),
          Some (Max (set (map fst (ns @ [x])))), if rp_SumMode p = ''additive'' then Some (sum_list (map fst (ns @ [x]))) else None], k + 1)"
        unfolding mm using False by (simp add: numbers_after_def uv(3) option_pick_def min_def max_def)
      moreover have "?u \<in> set (map fst (ns @ [x]))" "?v \<in> set (map fst (ns @ [x]))" using uv(1,2) by auto
      ultimately show "numbers_ref p (ns @ [x]) (numbers_after p (fst x) before after (cur', cs', qs, k))" using c(2-5) k False
        unfolding numbers_ref_def by (simp del: set_map set_append)
    qed
  qed
qed

text \<open>The numbers of a list of samples, in their order.\<close>

definition nums :: "RollupPolicy \<Rightarrow> RawRollupSample list \<Rightarrow> (int \<times> string option) list" where
  "nums p ss = concat (map (sample_numeric p) ss)"

lemma sample_numeric_cases: "sample_numeric p s = [] \<or> (\<exists>x. sample_numeric p s = [x] \<and> is_full s \<and> numeric_of p s (sample_value s) = Inr (Some x))"
  by (auto simp: sample_numeric_def split: sum.splits option.splits)

lemma numbers_merge:
  assumes "numbers_ref p ns (num_part a0)" "num_part b = (case sample_numeric p s of [] \<Rightarrow> num_part a0 | x # _ \<Rightarrow> num_part (with_number p x before after a0))"
  shows "numbers_ref p (ns @ sample_numeric p s) (num_part b)"
  using sample_numeric_cases [of p s] numbers_step [OF assms(1)] assms by (auto simp: with_number_num)

lemma rolled_numbers: "rolled p ss a \<Longrightarrow> numbers_ref p (nums p ss) (num_part a)"
proof (induction rule: rolled.induct)
  case (opened s a)
  obtain a0 before after where a0: "entered p s True zero_accumulator = Inr a0"
    "num_part a = (case sample_numeric p s of [] \<Rightarrow> num_part a0 | x # _ \<Rightarrow> num_part (with_number p x before after a0))"
    by (rule mergeSample_parts [OF opened])
  have "numbers_ref p [] (num_part a0)"
    by (simp add: entered_first(2) [OF a0(1)] num_part_def numerics_def numbers_ref_def open_bucket_def zero_accumulator_def currencies_def eval_nat_numeral)
  from numbers_merge [OF this a0(2)] show ?case by (simp add: nums_def)
next
  case (merged ss a s b)
  obtain a0 before after where a0: "entered p s False a = Inr a0"
    "num_part b = (case sample_numeric p s of [] \<Rightarrow> num_part a0 | x # _ \<Rightarrow> num_part (with_number p x before after a0))"
    by (rule mergeSample_parts [OF merged(2)])
  have "num_part a0 = num_part a" by (simp add: entered_next(6) [OF a0(1)] num_part_def numerics_def)
  then show ?case using numbers_merge [OF _ a0(2), of "nums p ss"] merged.IH by (simp add: nums_def)
qed

text \<open>What kinds of numbers come in.\<close>

lemma numeric_of_kind:
  assumes "numeric_of p s v = Inr (Some x)"
  shows "rp_PrimaryKind p = PrimaryCount \<longrightarrow> 0 \<le> fst x" "rp_PrimaryKind p = PrimaryMoneyMinor \<longleftrightarrow> snd x \<noteq> None" "snd x \<noteq> Some []"
proof -
  obtain primary where r: "(if rp_PrimaryKind p = PrimaryCount \<and> primary < 0 then Inl ErrRollupValue
       else if length (dec_string (nat \<bar>primary\<bar>)) > maxNumericDigits then Inl ErrRollupValue
       else if rp_PrimaryKind p = PrimaryMoneyMinor
       then rbind (stringAtPointer v (CurrencyJSONPointer p)) (\<lambda>c.
         if c = None \<or> c = Some [] then (if FullValueRequired p \<and> \<not> s_IsPartial s then Inl ErrRollupValue else Inr None)
         else Inr (Some (primary, c)))
       else Inr (Some (primary, None))) = Inr (Some x)"
  proof -
    obtain n where n: "integerAtPointer v (PrimaryJSONPointer p) = Inr n"
      using assms by (cases "integerAtPointer v (PrimaryJSONPointer p)") (auto simp: numeric_of_def split: if_splits)
    then obtain primary where "n = Some primary" using assms by (cases n) (simp_all add: numeric_of_def split: if_splits)
    then show ?thesis using that [of primary] assms n by (simp add: numeric_of_def split: if_splits)
  qed
  show "rp_PrimaryKind p = PrimaryCount \<longrightarrow> 0 \<le> fst x" using r by (auto split: if_splits)
  show "rp_PrimaryKind p = PrimaryMoneyMinor \<longleftrightarrow> snd x \<noteq> None" using r by (auto simp: rbind_eq_Inr split: if_splits)
  show "snd x \<noteq> Some []" using r by (auto simp: rbind_eq_Inr split: if_splits)
qed

lemma nums_kind:
  assumes "x \<in> set (nums p ss)"
  shows "rp_PrimaryKind p = PrimaryCount \<longrightarrow> 0 \<le> fst x" "rp_PrimaryKind p = PrimaryMoneyMinor \<longleftrightarrow> snd x \<noteq> None" "snd x \<noteq> Some []"
proof -
  obtain s where "x \<in> set (sample_numeric p s)" using assms by (auto simp: nums_def)
  then have "numeric_of p s (sample_value s) = Inr (Some x)" using sample_numeric_cases [of p s] by auto
  from numeric_of_kind [OF this] show "rp_PrimaryKind p = PrimaryCount \<longrightarrow> 0 \<le> fst x" "rp_PrimaryKind p = PrimaryMoneyMinor \<longleftrightarrow> snd x \<noteq> None"
    "snd x \<noteq> Some []" by blast+
qed

lemma nums_length: "int (length (nums p ss)) \<le> count_of is_full ss"
proof (induction ss)
  case (Cons s ss)
  then show ?case using sample_numeric_cases [of p s] by (auto simp: nums_def count_of_def)
qed (simp add: nums_def count_of_def)

section \<open>Coverage\<close>

lemma floorDiv_eq:
  assumes "0 < d"
  shows "floorDiv n d = n div d"
proof (cases "0 \<le> n")
  case True
  then have q: "n sdiv d = n div d" "n smod d = n mod d" using assms by simp_all
  have "\<not> n mod d < 0" using pos_mod_sign [OF assms, of n] by linarith
  then show ?thesis using assms by (simp add: floorDiv_def Let_def q)
next
  case False
  then have q: "n sdiv d = - ((- n) div d)" "n smod d = - ((- n) mod d)" using assms
    by (simp_all add: signed_divide_int_def signed_modulo_int_def)
  have "0 \<le> (- n) mod d" using pos_mod_sign [OF assms] .
  then have "(- n) mod d = 0 \<or> 0 < (- n) mod d" by linarith
  then show ?thesis using zdiv_zminus1_eq_if [of d "- n"] assms by (auto simp: floorDiv_def Let_def q)
qed

definition slot_of :: "int \<Rightarrow> RawRollupSample \<Rightarrow> int" where
  "slot_of i s = Unix (s_SyncedAt s) div i"

definition good_cadence :: "int \<Rightarrow> bool" where
  "good_cadence i \<longleftrightarrow> 0 < i \<and> secondsPerDay mod i = 0"

text \<open>The cadence of a list of samples: the one interval all of them name, if it divides the day.\<close>

definition cadence :: "RawRollupSample list \<Rightarrow> int option" where
  "cadence ss = (case ss of [] \<Rightarrow> None | s # _ \<Rightarrow> (case s_ExpectedIntervalSeconds s of None \<Rightarrow> None
     | Some i \<Rightarrow> if good_cadence i \<and> list_all (\<lambda>s. s_ExpectedIntervalSeconds s = Some i) ss then Some i else None))"

definition coverage_ref :: "RawRollupSample list \<Rightarrow> int option \<times> int list \<times> int option \<times> int option \<times> int option \<times> string \<times> int \<Rightarrow> bool" where
  "coverage_ref ss v \<longleftrightarrow> (case v of (iv, sl, e, c, m, r, d) \<Rightarrow>
     if ss = [] then v = (None, [], None, None, None, [], 0)
     else (case cadence ss of
       None \<Rightarrow> e = None \<and> c = None \<and> m = None \<and> r \<noteq> [] \<and> 0 \<le> d
     | Some i \<Rightarrow> iv = Some i \<and> distinct sl \<and> set sl = set (map (slot_of i) ss) \<and> e = Some (secondsPerDay div i)
         \<and> c = Some (int (length sl)) \<and> m = Some (int (length sl) * 1000000 div (secondsPerDay div i)) \<and> r = [] \<and> d = int (length ss) - int (length sl)
         \<and> 0 \<le> d))"

lemma cadence_Some: "cadence ss = Some i \<longleftrightarrow> ss \<noteq> [] \<and> good_cadence i \<and> list_all (\<lambda>s. s_ExpectedIntervalSeconds s = Some i) ss"
  by (cases ss) (auto simp: cadence_def split: option.splits)

lemma cadence_snoc:
  "cadence (ss @ [s]) = (case s_ExpectedIntervalSeconds s of None \<Rightarrow> None
     | Some i \<Rightarrow> if good_cadence i \<and> (ss = [] \<or> cadence ss = Some i) then Some i else None)"
proof (cases "ss = []")
  case True
  then show ?thesis by (simp add: cadence_def split: option.splits)
next
  case False
  show ?thesis
  proof (cases "s_ExpectedIntervalSeconds s")
    case None
    then have "cadence (ss @ [s]) \<noteq> Some i" for i by (simp add: cadence_Some)
    then show ?thesis using None by (cases "cadence (ss @ [s])") auto
  next
    case (Some j)
    have "cadence (ss @ [s]) = Some i \<longleftrightarrow> good_cadence j \<and> cadence ss = Some j \<and> i = j" for i
      using False Some by (auto simp: cadence_Some)
    then show ?thesis using Some False by (cases "cadence (ss @ [s])") (auto split: if_splits)
  qed
qed

lemma good_cadence_smod: "0 < i \<Longrightarrow> secondsPerDay smod i = secondsPerDay mod i" "0 < i \<Longrightarrow> secondsPerDay sdiv i = secondsPerDay div i"
  by (simp_all add: smod_nonneg sdiv_nonneg secondsPerDay_def)

lemma coverage_counted:
  assumes i: "good_cadence i" "s_ExpectedIntervalSeconds s = Some i" and r: "CoverageUnknownReason a = []" "coverageInterval a = None \<or> coverageInterval a = Some i"
  shows "cov_part (mergeCoverage s t a) = cov_part (count_slot i t (a\<lparr>coverageInterval := Some i\<rparr>))"
proof -
  have g: "0 < i" "secondsPerDay smod i = 0" using i(1) good_cadence_smod(1) [of i] by (simp_all add: good_cadence_def)
  show ?thesis
  proof (cases "coverageInterval a")
    case None
    then show ?thesis using g by (simp add: mergeCoverage_def i(2) r(1))
  next
    case (Some j)
    then have "coverageInterval a = Some i" using r(2) by simp
    then show ?thesis using g by (simp add: mergeCoverage_def i(2) r(1) count_slot_part)
  qed
qed

lemma coverage_lost:
  assumes "s_ExpectedIntervalSeconds s = None \<or> (\<exists>i. s_ExpectedIntervalSeconds s = Some i \<and>
      (\<not> good_cadence i \<or> (coverageInterval a \<noteq> None \<and> coverageInterval a \<noteq> Some i) \<or> CoverageUnknownReason a \<noteq> [] \<and> ExpectedSlotCount a = None
        \<and> CoveredSlotCount a = None \<and> CoveragePPM a = None))"
  shows "\<exists>iv sl r. cov_part (mergeCoverage s t a) = (iv, sl, None, None, None, r, DuplicateCount a) \<and> r \<noteq> []"
proof (cases "s_ExpectedIntervalSeconds s")
  case None
  then show ?thesis by (simp add: mergeCoverage_def setCoverageUnknown_part)
next
  case (Some i)
  have u: "\<exists>iv sl r. cov_part (setCoverageUnknown x a) = (iv, sl, None, None, None, r, DuplicateCount a) \<and> r \<noteq> []" if "x \<noteq> []" for x
    using that by (simp add: setCoverageUnknown_part)
  consider "\<not> good_cadence i" | "good_cadence i" "\<not> (coverageInterval a = None \<or> coverageInterval a = Some i)"
    | "good_cadence i" "coverageInterval a = None \<or> coverageInterval a = Some i" "CoverageUnknownReason a \<noteq> []" "ExpectedSlotCount a = None"
      "CoveredSlotCount a = None" "CoveragePPM a = None"
    using assms Some by fastforce
  then show ?thesis
  proof cases
    case 1
    show ?thesis
    proof (cases "0 < i")
      case True
      then have "secondsPerDay smod i \<noteq> 0" using 1 by (simp add: good_cadence_def good_cadence_smod)
      then show ?thesis using True u by (simp add: mergeCoverage_def Some)
    qed (use u in \<open>simp add: mergeCoverage_def Some\<close>)
  next
    case 2
    then show ?thesis using u by (simp add: mergeCoverage_def Some good_cadence_def good_cadence_smod)
  next
    case 3
    have "0 < i" "secondsPerDay smod i = 0" using 3(1) by (simp_all add: good_cadence_def good_cadence_smod)
    then have "mergeCoverage s t a = (if coverageInterval a = None then a\<lparr>coverageInterval := Some i\<rparr> else a)"
      using 3(2,3) by (auto simp: mergeCoverage_def Some)
    then show ?thesis using 3 by (simp add: cov_part_def)
  qed
qed

lemma expected_slots:
  assumes "good_cadence i"
  shows "secondsPerDay = i * (secondsPerDay div i)" "0 < secondsPerDay div i"
proof -
  show e: "secondsPerDay = i * (secondsPerDay div i)" using assms mult_div_mod_eq [of i secondsPerDay] by (simp add: good_cadence_def)
  have "0 < i" "0 < i * (secondsPerDay div i)" using assms e [symmetric] by (simp_all add: good_cadence_def secondsPerDay_def)
  then show "0 < secondsPerDay div i" by (simp add: zero_less_mult_iff)
qed

text \<open>The slots of one day are no more than expected.\<close>

lemma slot_in_day:
  assumes "good_cadence i" "utcBucketDay t = d"
  shows "Unix t div i \<in> {Unix d div i ..< Unix d div i + secondsPerDay div i}"
proof -
  define q where "q = secondsPerDay div i"
  define r where "r = t mod nanos_per_day"
  define n where "n = t div nanos_per_day - 719162"
  have t: "t = nanos_per_day * (n + 719162) + r" "d = nanos_per_day * (n + 719162)" "0 \<le> r" "r < nanos_per_day"
    using assms(2) mult_div_mod_eq [of nanos_per_day t] by (simp_all add: r_def n_def utcBucketDay_def nanos_per_day_def minus_mod_eq_mult_div [symmetric])
  have q: "secondsPerDay = i * q" and i: "0 < i" using expected_slots(1) [OF assms(1)] assms(1) by (simp_all add: q_def good_cadence_def)
  have "Unix d = 86400 * n" unfolding Unix_def t(2) nanos_per_day_def nanos_per_second_def by (simp add: algebra_simps)
  then have d: "Unix d = i * (q * n)" using q by (simp add: secondsPerDay_def)
  define s where "s = r div nanos_per_second"
  have "r div 1000000000 < 86400" using t(4) unfolding nanos_per_day_def by (simp add: div_less_iff_less_mult)
  then have s: "0 \<le> s" "s < i * q" using t(3) q by (simp_all add: s_def nanos_per_second_def secondsPerDay_def)
  have "nanos_per_day * (n + 719162) + r = r + (86400 * (n + 719162)) * 1000000000" by (simp add: nanos_per_day_def)
  then have "(nanos_per_day * (n + 719162) + r) div 1000000000 = 86400 * (n + 719162) + r div 1000000000" by simp
  then have "Unix t = 86400 * n + s" unfolding Unix_def s_def t(1) nanos_per_second_def by simp
  then have "Unix t = s + i * (q * n)" using q by (simp add: secondsPerDay_def)
  then have "Unix t div i = s div i + q * n" using i by simp
  moreover have "s div i < q"
  proof (rule ccontr)
    assume "\<not> s div i < q"
    then have "i * q \<le> i * (s div i)" using i by (simp add: mult_left_mono)
    moreover have "i * (s div i) \<le> s" using mult_div_mod_eq [of i s] pos_mod_sign [OF i, of s] by linarith
    ultimately show False using s(2) by linarith
  qed
  moreover have "0 \<le> s div i" using s i by (simp add: pos_imp_zdiv_nonneg_iff)
  moreover have "Unix d div i = q * n" using i d by simp
  ultimately show ?thesis by (simp add: q_def)
qed

lemma slots_bound:
  assumes "good_cadence i" "list_all (\<lambda>s. utcBucketDay (s_SyncedAt s) = d) ss" "distinct sl" "set sl = set (map (slot_of i) ss)"
  shows "int (length sl) \<le> secondsPerDay div i"
proof -
  have "set sl \<subseteq> {Unix d div i ..< Unix d div i + secondsPerDay div i}"
    using slot_in_day [OF assms(1)] assms(2,4) by (auto simp: slot_of_def list_all_iff)
  from card_mono [OF _ this] have "length sl \<le> nat (secondsPerDay div i)" by (simp add: distinct_card [OF assms(3)])
  then show ?thesis using expected_slots(2) [OF assms(1)] by simp
qed

text \<open>One sample more.\<close>

lemma coverage_step:
  assumes "coverage_ref ss (cov_part a)"
  shows "coverage_ref (ss @ [s]) (cov_part (mergeCoverage s (s_SyncedAt s) a))"
proof (cases "cadence (ss @ [s])")
  case None
  have d: "0 \<le> DuplicateCount a" using assms by (auto simp: coverage_ref_def cov_part_def split: if_splits option.splits)
  have "s_ExpectedIntervalSeconds s = None \<or> (\<exists>i. s_ExpectedIntervalSeconds s = Some i \<and>
      (\<not> good_cadence i \<or> (coverageInterval a \<noteq> None \<and> coverageInterval a \<noteq> Some i) \<or> CoverageUnknownReason a \<noteq> [] \<and> ExpectedSlotCount a = None
        \<and> CoveredSlotCount a = None \<and> CoveragePPM a = None))"
    using None assms by (auto simp: cadence_snoc coverage_ref_def cov_part_def split: option.splits if_splits)
  from coverage_lost [OF this, of "s_SyncedAt s"] show ?thesis using None d by (auto simp: coverage_ref_def)
next
  case (Some i)
  then have i: "good_cadence i" "s_ExpectedIntervalSeconds s = Some i" "ss = [] \<or> cadence ss = Some i"
    by (auto simp: cadence_snoc split: option.splits if_splits)
  have a: "CoverageUnknownReason a = []" "coverageInterval a = None \<or> coverageInterval a = Some i"
    "distinct (coverageSlots a)" "set (coverageSlots a) = set (map (slot_of i) ss)" "DuplicateCount a = int (length ss) - int (length (coverageSlots a))"
  proof -
    have *: "ss \<noteq> [] \<Longrightarrow> cadence ss = Some i" using i(3) by simp
    show "CoverageUnknownReason a = []" "coverageInterval a = None \<or> coverageInterval a = Some i"
      "distinct (coverageSlots a)" "set (coverageSlots a) = set (map (slot_of i) ss)" "DuplicateCount a = int (length ss) - int (length (coverageSlots a))"
      using assms * by (cases "ss = []"; simp add: coverage_ref_def cov_part_def)+
  qed
  have p: "0 < i" using i(1) by (simp add: good_cadence_def)
  let ?sl = "slots_after i (s_SyncedAt s) (coverageSlots a)"
  have f: "floorDiv (Unix (s_SyncedAt s)) i = slot_of i s" by (simp add: floorDiv_eq [OF p] slot_of_def)
  have sl: "distinct ?sl" "set ?sl = set (map (slot_of i) (ss @ [s]))" using a(3,4) by (auto simp: slots_after_def Let_def f)
  have "length (coverageSlots a) \<le> length ss" using a(3,4) card_length [of "map (slot_of i) ss"] distinct_card [of "coverageSlots a"] by simp
  moreover have "0 < secondsPerDay div i" using expected_slots(2) [OF i(1)] .
  ultimately show ?thesis using sl a(5)
    by (simp add: coverage_counted [OF i(1,2) a(1,2)] count_slot_part coverage_ref_def Some f good_cadence_smod(2) [OF p] microsPerCoverage_def)
      (simp add: slots_after_def f a(1) Let_def)
qed

lemma rolled_coverage: "rolled p ss a \<Longrightarrow> coverage_ref ss (cov_part a)"
proof (induction rule: rolled.induct)
  case (opened s a)
  obtain a0 where a0: "entered p s True zero_accumulator = Inr a0" "cov_part a = cov_part (mergeCoverage s (s_SyncedAt s) a0)"
    by (rule mergeSample_parts [OF opened])
  have "coverage_ref [] (cov_part a0)"
    by (simp add: entered_first(2) [OF a0(1)] cov_part_def coverage_ref_def open_bucket_def zero_accumulator_def)
  from coverage_step [OF this, of s] show ?case by (simp add: a0(2))
next
  case (merged ss a s b)
  obtain a0 where a0: "entered p s False a = Inr a0" "cov_part b = cov_part (mergeCoverage s (s_SyncedAt s) a0)"
    by (rule mergeSample_parts [OF merged(2)])
  have "cov_part a0 = cov_part a" by (simp add: entered_next(6) [OF a0(1)] cov_part_def)
  then show ?case using coverage_step [of ss a0 s] merged.IH by (simp add: a0(2))
qed

section \<open>Representatives\<close>

definition rep_ok :: "DailyAccumulator \<Rightarrow> bool" where
  "rep_ok a \<longleftrightarrow> (LastPartialSampleID a = 0 \<longrightarrow> LastPartialValue a = None) \<and> (FirstFullSampleID a = 0 \<longrightarrow> FirstFullValue a = None \<and> FirstSyncedAt a = None)
     \<and> (LastFullSampleID a = 0 \<longrightarrow> LastFullValue a = None \<and> LastSyncedAt a = None)"

lemma rep_ok_cong: "rep_part a = rep_part b \<Longrightarrow> rep_ok a = rep_ok b"
  by (simp add: rep_part_def rep_ok_def)

lemma rep_step:
  assumes "mergeSample p s first a = Inr b" and prev: "\<And>a0. entered p s first a = Inr a0 \<Longrightarrow> belongs p s \<and> rep_ok a0"
  shows "rep_ok b"
proof -
  obtain a0 c where a0: "entered p s first a = Inr a0"
    "(if is_full s then mergeSuccessfulValue p s (s_SyncedAt s) (count_sample s (s_SyncedAt s) a0) else Inr (count_sample s (s_SyncedAt s) a0)) = Inr c"
    "b = mergeRepresentativeTimes s (s_SyncedAt s) (mergeCoverage s (s_SyncedAt s) c)"
    by (rule mergeSample_entered [OF assms(1)])
  have i: "0 < s_ID s" "rep_ok a0" using prev [OF a0(1)] by (simp_all add: belongs_def)
  have k: "rep_ok (count_sample s t a0)" for t using i by (simp add: rep_ok_def count_sample_def Let_def)
  let ?c = "mergeCoverage s (s_SyncedAt s) c"
  have r: "rep_part ?c = rep_part c" by (rule mergeCoverage_parts)
  show ?thesis
  proof (cases "is_full s")
    case False
    then have "b = ?c" by (auto simp: a0(3) mergeRepresentativeTimes_def is_full_def)
    moreover have "c = count_sample s (s_SyncedAt s) a0" using a0(2) False by simp
    ultimately show ?thesis using rep_ok_cong [OF r] k by simp
  next
    case True
    then have "mergeSuccessfulValue p s (s_SyncedAt s) (count_sample s (s_SyncedAt s) a0) = Inr c" using a0(2) by simp
    then obtain a1 before after where a1: "c = (case sample_numeric p s of [] \<Rightarrow> a1 | x # _ \<Rightarrow> with_number p x before after a1)"
      "FirstFullSampleID a1 \<noteq> 0" "LastFullSampleID a1 \<noteq> 0" "LastPartialSampleID a1 = 0 \<longrightarrow> LastPartialValue a1 = None"
      by (rule mergeSuccessfulValue_cases [OF _ True]) (use i(1) k [of "s_SyncedAt s"] that in \<open>auto simp: rep_ok_def split: if_splits\<close>)
    have "rep_part c = rep_part a1" by (simp add: a1(1) with_number_parts split: list.splits)
    then have "FirstFullSampleID ?c \<noteq> 0" "LastFullSampleID ?c \<noteq> 0" "LastPartialSampleID ?c = 0 \<longrightarrow> LastPartialValue ?c = None"
      using r a1(2-4) by (simp_all add: rep_part_def)
    then show ?thesis by (simp add: a0(3) rep_ok_def mergeRepresentativeTimes_def Let_def)
  qed
qed

lemma rolled_rep: "rolled p ss a \<Longrightarrow> rep_ok a"
proof (induction rule: rolled.induct)
  case (opened s a)
  have "belongs p s \<and> rep_ok a0" if "entered p s True zero_accumulator = Inr a0" for a0
    using entered_first [OF that] by (simp add: rep_ok_def open_bucket_def zero_accumulator_def)
  then show ?case by (rule rep_step [OF opened])
next
  case (merged ss a s b)
  have "belongs p s \<and> rep_ok a0" if "entered p s False a = Inr a0" for a0
    using entered_next(1,6) [OF that] merged.IH by (simp add: rep_ok_def)
  then show ?case by (rule rep_step [OF merged(2)])
qed

section \<open>The accumulator equals its reference\<close>

text \<open>What the document says of a bucket, as a function of its samples.\<close>

definition rollup_ref :: "RollupPolicy \<Rightarrow> RawRollupSample list \<Rightarrow> DailyAccumulator \<Rightarrow> bool" where
  "rollup_ref p ss a \<longleftrightarrow> keys_ref p ss a \<and> counts_ref ss (cnt_part a) \<and> numbers_ref p (nums p ss) (num_part a) \<and> coverage_ref ss (cov_part a) \<and> rep_ok a"

lemma rolled_ref: "rolled p ss a \<Longrightarrow> rollup_ref p ss a"
  by (simp add: rollup_ref_def rolled_keys rolled_counts rolled_numbers rolled_coverage rolled_rep)

text \<open>A policy the accumulator takes, with a hash that is absent or 64 characters without capitals.\<close>

definition sound_policy :: "RollupPolicy \<Rightarrow> bool" where
  "sound_policy p \<longleftrightarrow> validateAccumulatorPolicy p = Inr () \<and> (rp_PolicyHash p \<noteq> [] \<longrightarrow> length (rp_PolicyHash p) = 64
     \<and> \<not> list_ex (\<lambda>c. CHR ''A'' \<le> c \<and> c \<le> CHR ''Z'') (rp_PolicyHash p))"

lemma valid_policy_facts:
  assumes "validateAccumulatorPolicy p = Inr ()"
  shows "0 < rp_Version p" "rp_MetricKey p \<noteq> []" "rp_BucketTimezone p = ''UTC''" "0 < rp_Scale p"
    "rp_SumMode p = ''forbidden'' \<or> rp_SumMode p = ''additive''"
  using assms by (auto simp: validateAccumulatorPolicy_def split: if_splits)

text \<open>Identifiers leave room for the counters.\<close>

lemma ids_bound:
  assumes "sorted_wrt (<) (map s_ID ss)" "list_all (\<lambda>s. 0 < s_ID s \<and> in64 (s_ID s)) ss"
  shows "int (length ss) \<le> max_int64"
proof -
  have "set (map s_ID ss) \<subseteq> {1 .. max_int64}" using assms(2) by (auto simp: list_all_iff in64_def)
  from card_mono [OF _ this] have "card (set (map s_ID ss)) \<le> nat max_int64" by simp
  moreover have "card (set (map s_ID ss)) = length ss" using strict_sorted_iff [of "map s_ID ss"] assms(1) distinct_card by fastforce
  ultimately show ?thesis by (simp add: max_int64_def)
qed

lemma check_errors_ok:
  assumes "list_all (\<lambda>(c, n). c \<noteq> [] \<and> 0 < n) m" "n + msum (\<lambda>n. n) m \<le> max_int64" "0 \<le> n"
  shows "check_errors n m = Inr (n + msum (\<lambda>n. n) m)"
  using assms
proof (induction m arbitrary: n)
  case (Cons e m)
  obtain code c where e: "e = (code, c)" by (cases e)
  have m: "0 \<le> msum (\<lambda>n. n) m" using Cons.prems(1) by (intro msum_nonneg) (fastforce simp: list_all_iff)
  have s: "msum (\<lambda>n. n) (e # m) = c + msum (\<lambda>n. n) m" by (simp add: msum_def e)
  have p: "code \<noteq> []" "0 < c" "n + (c + msum (\<lambda>n. n) m) \<le> max_int64" using Cons.prems(1) Cons.prems(2) [unfolded s] by (simp_all only: e list.pred_inject prod.case simp_thms)
  have "check_errors (n + c) m = Inr (n + c + msum (\<lambda>n. n) m)" using Cons.prems(1,3) p by (intro Cons.IH) (simp_all add: e)
  moreover have "\<not> (code = [] \<or> c < 0)" "\<not> c > max_int64 - n" using p m by simp_all
  ultimately show ?case unfolding s [unfolded e] e check_errors.simps by (simp only: if_False add.assoc)
qed simp

text \<open>The quantities \<open>Validate\<close> looks at.\<close>

lemma ref_currencies:
  assumes "numbers_ref p (nums p ss) (num_part a)"
  shows "sorted_wrt (<) (CurrencySet a)" "[] \<notin> set (CurrencySet a)" "rp_PrimaryKind p \<noteq> PrimaryMoneyMinor \<Longrightarrow> CurrencySet a = []"
    "rp_PrimaryKind p = PrimaryMoneyMinor \<Longrightarrow> CurrencySet a = [] \<Longrightarrow> nums p ss = []" "a_Currency a = (if length (CurrencySet a) = 1 then hd (CurrencySet a) else [])"
    "nums p ss = [] \<or> length (CurrencySet a) > 1 \<Longrightarrow> numerics a = replicate 5 None"
proof -
  have r: "sorted (CurrencySet a)" "distinct (CurrencySet a)" "set (CurrencySet a) = set (currencies (nums p ss))"
    using assms by (simp_all add: numbers_ref_def num_part_def)
  show "sorted_wrt (<) (CurrencySet a)" using r by (simp add: strict_sorted_iff)
  have m: "c \<in> set (CurrencySet a) \<longleftrightarrow> (\<exists>x \<in> set (nums p ss). snd x = Some c)" for c
    unfolding r(3) by (force simp: currencies_def split: option.splits)
  show "[] \<notin> set (CurrencySet a)" using m nums_kind(3) by blast
  show "rp_PrimaryKind p \<noteq> PrimaryMoneyMinor \<Longrightarrow> CurrencySet a = []" using m nums_kind(2) by (metis last_in_set option.distinct(1))
  show "rp_PrimaryKind p = PrimaryMoneyMinor \<Longrightarrow> CurrencySet a = [] \<Longrightarrow> nums p ss = []"
    using m nums_kind(2) by (metis last_in_set list.set(1) empty_iff option.exhaust)
  show "a_Currency a = (if length (CurrencySet a) = 1 then hd (CurrencySet a) else [])"
    "nums p ss = [] \<or> length (CurrencySet a) > 1 \<Longrightarrow> numerics a = replicate 5 None"
    using assms by (simp_all add: numbers_ref_def num_part_def)
qed

lemma ref_numerics:
  assumes "numbers_ref p (nums p ss) (num_part a)"
  shows "numerics a = replicate 5 None \<or> (\<exists>x y. x \<in> set (map fst (nums p ss)) \<and> y \<in> set (map fst (nums p ss)) \<and> nums p ss \<noteq> []
    \<and> numerics a = [Some x, Some y, Some (Min (set (map fst (nums p ss)))), Some (Max (set (map fst (nums p ss)))),
        if rp_SumMode p = ''additive'' then Some (sum_list (map fst (nums p ss))) else None])"
  using assms by (auto simp: numbers_ref_def num_part_def split: if_splits)

lemma ref_number_checks:
  assumes "numbers_ref p (nums p ss) (num_part a)"
  shows "rp_SumMode p = ''forbidden'' \<Longrightarrow> SumNumeric a = None" "\<And>x y. MinNumeric a = Some x \<Longrightarrow> MaxNumeric a = Some y \<Longrightarrow> x \<le> y"
    "rp_PrimaryKind p = PrimaryCount \<Longrightarrow> \<not> list_ex (\<lambda>n. case n of None \<Rightarrow> False | Some x \<Rightarrow> x < 0) (numerics a)"
proof -
  let ?ns = "map fst (nums p ss)"
  have r: "numerics a = replicate 5 None \<or> (\<exists>x y. x \<in> set ?ns \<and> y \<in> set ?ns \<and> ?ns \<noteq> []
    \<and> numerics a = [Some x, Some y, Some (Min (set ?ns)), Some (Max (set ?ns)), if rp_SumMode p = ''additive'' then Some (sum_list ?ns) else None])"
    using ref_numerics [OF assms] by (simp del: set_map)
  show "rp_SumMode p = ''forbidden'' \<Longrightarrow> SumNumeric a = None" using r by (auto simp: numerics_def eval_nat_numeral)
  show "x \<le> y" if "MinNumeric a = Some x" "MaxNumeric a = Some y" for x y
  proof -
    have "?ns \<noteq> []" "x = Min (set ?ns)" "y = Max (set ?ns)" using r that by (auto simp: numerics_def eval_nat_numeral simp del: set_map)
    moreover have "Min (set ?ns) \<le> hd ?ns" "hd ?ns \<le> Max (set ?ns)" using calculation(1) by (simp_all del: set_map)
    ultimately show ?thesis by linarith
  qed
  show "\<not> list_ex (\<lambda>n. case n of None \<Rightarrow> False | Some x \<Rightarrow> x < 0) (numerics a)" if k: "rp_PrimaryKind p = PrimaryCount"
  proof -
    have p: "0 \<le> x" if "x \<in> set ?ns" for x using that nums_kind(1) k by fastforce
    consider "numerics a = replicate 5 None" | x y where "x \<in> set ?ns" "y \<in> set ?ns" "?ns \<noteq> []"
      "numerics a = [Some x, Some y, Some (Min (set ?ns)), Some (Max (set ?ns)), if rp_SumMode p = ''additive'' then Some (sum_list ?ns) else None]"
      using r by blast
    then show ?thesis
    proof cases
      case 1
      then show ?thesis by (simp add: eval_nat_numeral)
    next
      case 2
      have "Min (set ?ns) \<in> set ?ns" "Max (set ?ns) \<in> set ?ns" using 2(3) by (simp_all only: Min_in Max_in List.finite_set set_empty not_False_eq_True)
      then have "0 \<le> Min (set ?ns) \<and> 0 \<le> Max (set ?ns)" using p by blast
      moreover have "0 \<le> sum_list ?ns" by (rule sum_list_nonneg) (rule p)
      ultimately show ?thesis unfolding 2(4) using p [OF 2(1)] p [OF 2(2)] by (simp del: set_map)
    qed
  qed
qed

lemma utcBucketDay_idem: "utcBucketDay (utcBucketDay t) = utcBucketDay t"
  by (simp add: utcBucketDay_def minus_mod_eq_mult_div)

lemma ref_coverage_check:
  assumes "coverage_ref ss (cov_part a)" "ss \<noteq> []" "list_all (\<lambda>s. utcBucketDay (s_SyncedAt s) = d) ss"
  shows "\<not> (case (ExpectedSlotCount a, CoveredSlotCount a, CoveragePPM a) of
          (Some e, Some c, Some p) \<Rightarrow> e \<le> 0 \<or> c < 0 \<or> c > e \<or> p < 0 \<or> p > 1000000
        | _ \<Rightarrow> CoverageUnknownReason a = [])"
proof (cases "cadence ss")
  case None
  then show ?thesis using assms(1,2) by (simp add: coverage_ref_def cov_part_def)
next
  case (Some i)
  then have g: "good_cadence i" by (simp add: cadence_Some)
  let ?l = "int (length (coverageSlots a))" let ?e = "secondsPerDay div i"
  have r: "distinct (coverageSlots a)" "set (coverageSlots a) = set (map (slot_of i) ss)" "ExpectedSlotCount a = Some ?e" "CoveredSlotCount a = Some ?l"
    "CoveragePPM a = Some (?l * 1000000 div ?e)"
    using assms(1,2) Some by (simp_all add: coverage_ref_def cov_part_def)
  have l: "?l \<le> ?e" "0 < ?e" using slots_bound [OF g assms(3) r(1,2)] expected_slots(2) [OF g] by blast+
  have "?l * 1000000 div ?e \<le> (?e * 1000000) div ?e" using l by (intro zdiv_mono1) simp_all
  then have "?l * 1000000 div ?e \<le> 1000000" using l(2) by simp
  moreover have "0 \<le> ?l * 1000000 div ?e" using l(2) by (simp add: pos_imp_zdiv_nonneg_iff)
  ultimately show ?thesis using l by (simp add: r(3-5))
qed

lemma ref_currency_check:
  assumes "numbers_ref p (nums p ss) (num_part a)" "a_PrimaryKind a = rp_PrimaryKind p"
  shows "currency_check a"
proof -
  note c = ref_currencies [OF assms(1)]
  have n: "list_all (\<lambda>n. n = None) (replicate 5 (None :: int option))" by (simp add: eval_nat_numeral)
  have m: "case CurrencySet a of [] \<Rightarrow> a_Currency a = [] \<and> list_all (\<lambda>n. n = None) (numerics a) | [c] \<Rightarrow> a_Currency a = c
        | _ \<Rightarrow> a_Currency a = [] \<and> list_all (\<lambda>n. n = None) (numerics a)" if "rp_PrimaryKind p = PrimaryMoneyMinor"
    using c(4) [OF that] c(5,6) n by (auto split: list.splits)
  have "list_all (\<lambda>c. c \<noteq> []) (CurrencySet a)" using c(2) by (auto simp: list_all_iff)
  then show ?thesis using c(1,3) m assms(2) by (simp add: currency_check_def)
qed

lemma rolled_validates:
  assumes "rolled p ss a" "sound_policy p" "list_all (\<lambda>s. in64 (s_ID s)) ss" "BucketDay a \<noteq> 0"
  shows "Validate_accumulator a = Inr ()"
proof -
  have r: "keys_ref p ss a" "counts_ref ss (cnt_part a)" "numbers_ref p (nums p ss) (num_part a)" "coverage_ref ss (cov_part a)" "rep_ok a"
    using rolled_ref [OF assms(1)] by (simp_all add: rollup_ref_def)
  have p: "validateAccumulatorPolicy p = Inr ()" using assms(2) by (simp add: sound_policy_def)
  note v = valid_policy_facts [OF p]
  have ss: "ss \<noteq> []" and first: "belongs p (hd ss)" "s_Environment (hd ss) = a_Environment a" "s_Source (hd ss) = a_Source a"
    "utcBucketDay (s_SyncedAt (hd ss)) = BucketDay a" using r(1) by (auto simp: keys_ref_def list_all_iff)
  have day: "list_all (\<lambda>s. utcBucketDay (s_SyncedAt s) = BucketDay a) ss" using r(1) by (simp add: keys_ref_def list_all_iff)
  have f1: "\<not> (a_Environment a = [] \<or> a_MetricKey a = [] \<or> a_Source a = [] \<or> BucketDay a = 0)"
    using first(1-3) v(2) assms(4) r(1) by (auto simp: belongs_def keys_ref_def)
  have f2: "\<not> (a_BucketTimezone a \<noteq> ''UTC'' \<or> BucketDay a \<noteq> utcBucketDay (BucketDay a))"
    using r(1) v(3) utcBucketDay_idem [of "s_SyncedAt (hd ss)"] first(4) by (simp add: keys_ref_def)
  have f3: "\<not> (a_PolicyVersion a \<le> 0 \<or> a_Scale a \<le> 0)" using r(1) v(1,4) by (simp add: keys_ref_def)
  have f4: "\<not> (a_PolicyHash a \<noteq> [] \<and> (length (a_PolicyHash a) \<noteq> 64 \<or> list_ex (\<lambda>c. CHR ''A'' \<le> c \<and> c \<le> CHR ''Z'') (a_PolicyHash a)))"
    using r(1) assms(2) by (auto simp: keys_ref_def sound_policy_def)
  have c: "SampleCount a = int (length ss)" "FullSuccessCount a = count_of is_full ss" "PartialSuccessCount a = count_of is_partial ss"
    "FailedCount a = count_of is_failed ss" "list_all (\<lambda>(c, n). c \<noteq> [] \<and> 0 < n) (ErrorCounts a)" "msum (\<lambda>n. n) (ErrorCounts a) = FailedCount a"
    using r(2) by (simp_all add: counts_ref_def cnt_part_def)
  have nn: "0 \<le> count_of P ss" for P by (simp add: count_of_def)
  have k: "NumericCount a = int (length (nums p ss))" using r(3) by (simp add: numbers_ref_def num_part_def)
  have d: "0 \<le> DuplicateCount a" using r(4) ss by (auto simp: coverage_ref_def cov_part_def split: option.splits)
  have f5: "\<not> (SampleCount a < 0 \<or> FullSuccessCount a < 0 \<or> PartialSuccessCount a < 0 \<or> FailedCount a < 0 \<or> NumericCount a < 0 \<or> DuplicateCount a < 0)"
    using d by (simp add: c(1-4) nn k not_less)
  have f6: "\<not> SampleCount a \<noteq> FullSuccessCount a + PartialSuccessCount a + FailedCount a"
  proof -
    have "list_all (belongs p) ss" using r(1) by (simp add: keys_ref_def)
    then have "int (length ss) = count_of is_full ss + count_of is_partial ss + count_of is_failed ss"
      by (induction ss) (auto simp: count_of_def belongs_class is_partial_def is_failed_def)
    then show ?thesis by (simp add: c(1-4))
  qed
  have f7: "\<not> NumericCount a > FullSuccessCount a" using nums_length [of p ss] by (simp add: k c(2))
  have f8: "\<not> (MinSampleID a \<le> 0 \<or> MaxSampleID a < MinSampleID a)"
    using r(1) first(1) sorted_last_le [of ss] by (simp add: keys_ref_def belongs_def)
  have id: "a_SumMode a = rp_SumMode p" "a_PrimaryKind a = rp_PrimaryKind p" using r(1) by (simp_all add: keys_ref_def)
  have f9: "\<not> (a_SumMode a = ''forbidden'' \<and> SumNumeric a \<noteq> None \<or> a_SumMode a \<noteq> ''forbidden'' \<and> a_SumMode a \<noteq> ''additive'')"
    using v(5) ref_number_checks(1) [OF r(3)] id(1) by auto
  have f10: "\<not> (case (MinNumeric a, MaxNumeric a) of (Some x, Some y) \<Rightarrow> x > y | _ \<Rightarrow> False)"
    using ref_number_checks(2) [OF r(3)] by (auto split: option.splits simp: not_less)
  have f11: "\<not> (a_PrimaryKind a = PrimaryCount \<and> list_ex (\<lambda>n. case n of None \<Rightarrow> False | Some x \<Rightarrow> x < 0) (numerics a))"
    using ref_number_checks(3) [OF r(3)] id(2) by simp
  have f12: "\<not> \<not> currency_check a" using ref_currency_check [OF r(3) id(2)] by simp
  note f13 = ref_coverage_check [OF r(4) ss day]
  have f14: "\<not> (LastPartialSampleID a = 0 \<and> LastPartialValue a \<noteq> None)" "\<not> (FirstFullSampleID a = 0 \<and> (FirstFullValue a \<noteq> None \<or> FirstSyncedAt a \<noteq> None))"
    "\<not> (LastFullSampleID a = 0 \<and> (LastFullValue a \<noteq> None \<or> LastSyncedAt a \<noteq> None))" using r(5) by (auto simp: rep_ok_def)
  have "count_of is_failed ss \<le> int (length ss)" by (simp add: count_of_def)
  also have "\<dots> \<le> max_int64"
    using r(1) assms(3) by (intro ids_bound) (auto simp: keys_ref_def belongs_def list_all_iff)
  finally have e: "check_errors 0 (ErrorCounts a) = Inr (FailedCount a)"
    using check_errors_ok [OF c(5), of 0] c(4,6) by simp
  show ?thesis unfolding Validate_accumulator_def if_not_P [OF f1] if_not_P [OF f2] if_not_P [OF f3] if_not_P [OF f4] if_not_P [OF f5] if_not_P [OF f6]
      if_not_P [OF f7] if_not_P [OF f8] if_not_P [OF f9] if_not_P [OF f10] if_not_P [OF f11] if_not_P [OF f12] if_not_P [OF f13]
      if_not_P [OF f14(1)] if_not_P [OF f14(2)] if_not_P [OF f14(3)] e by simp
qed

section \<open>Merging in portions\<close>

lemma rolled_policy: "rolled p ss a \<Longrightarrow> a_PolicyVersion a = rp_Version p \<and> a_MetricKey a = rp_MetricKey p \<and> a_PolicyHash a = rp_PolicyHash p"
  using rolled_keys [of p ss a] by (simp add: keys_ref_def)

lemma rolled_day: "rolled p ss a \<Longrightarrow> BucketDay a = utcBucketDay (s_SyncedAt (hd ss))"
  using rolled_keys [of p ss a] by (auto simp: keys_ref_def list_all_iff)

lemma rolled_nonempty: "rolled p ss a \<Longrightarrow> ss \<noteq> []"
  using rolled_keys [of p ss a] by (simp add: keys_ref_def)

text \<open>The last step of a merge, its validation, never refuses what the samples made.\<close>

lemma Merge_samples:
  assumes "rolled p all a" "sound_policy p" "list_all (\<lambda>s. in64 (s_ID s)) (all @ ss)" "BucketDay a \<noteq> 0"
  shows "Merge a p ss = merge_samples p ss a"
proof -
  have p: "validateAccumulatorPolicy p = Inr ()" using assms(2) by (simp add: sound_policy_def)
  have m: "Merge a p ss = rbind (merge_samples p ss a) (\<lambda>out. rbind (Validate_accumulator out) (\<lambda>_. Inr out))"
    by (simp add: Merge_def p rolled_policy [OF assms(1)])
  show ?thesis
  proof (cases "merge_samples p ss a")
    case (Inr b)
    have r: "rolled p (all @ ss) b" by (rule rolled_samples [OF assms(1) Inr])
    have "BucketDay b = BucketDay a" using rolled_day [OF r] rolled_day [OF assms(1)] rolled_nonempty [OF assms(1)] by simp
    then show ?thesis using rolled_validates [OF r assms(2,3)] assms(4) by (simp add: m Inr)
  qed (simp add: m)
qed

lemma merge_samples_append: "merge_samples p (xs @ ys) a = rbind (merge_samples p xs a) (merge_samples p ys)"
proof (induction xs arbitrary: a)
  case (Cons s xs)
  then have "merge_samples p (xs @ ys) = (\<lambda>a. rbind (merge_samples p xs a) (merge_samples p ys))" by (intro ext)
  then show ?case by (simp add: rbind_assoc)
qed simp

text \<open>
  C26. A day is rolled up in as many portions as one likes: merging two portions one after the other
  gives what merging them at once gives, refusals included, and the validation that ends every merge
  never refuses what the samples made.
\<close>
theorem rollup_portions:
  assumes "NewDailyAccumulator p s = Inr a" "sound_policy p" "list_all (\<lambda>s. in64 (s_ID s)) (s # xs @ ys)" "utcBucketDay (s_SyncedAt s) \<noteq> 0"
  shows "Merge a p (xs @ ys) = rbind (Merge a p xs) (\<lambda>b. Merge b p ys) \<and> Merge a p xs = merge_samples p xs a"
proof -
  note r = rolled_NewDailyAccumulator [OF assms(1)]
  have d: "BucketDay a \<noteq> 0" using rolled_day [OF r] assms(4) by simp
  have m: "Merge a p (xs @ ys) = merge_samples p (xs @ ys) a" "Merge a p xs = merge_samples p xs a"
    using Merge_samples [OF r assms(2) _ d] assms(3) by simp_all
  have "Merge b p ys = merge_samples p ys b" if "merge_samples p xs a = Inr b" for b
  proof -
    have rb: "rolled p ([s] @ xs) b" by (rule rolled_samples [OF r that])
    have "BucketDay b \<noteq> 0" using rolled_day [OF rb] assms(4) by simp
    then show ?thesis using Merge_samples [OF rb assms(2)] assms(3) by simp
  qed
  then show ?thesis by (cases "merge_samples p xs a") (simp_all add: m merge_samples_append)
qed

text \<open>
  C25. The roll-up of a day equals its reference, a function of the list of samples: the counters
  count the full, the partial and the failed samples and the failures per error code; the numbers are those of the
  full samples, with their currencies in order, and least, greatest and (where the metric is
  additive) sum are theirs, unless the currencies are mixed, when none is given; the samples were
  taken once each, in increasing order of their identifiers, from one stream and one UTC day.
\<close>
theorem rollup_reference:
  assumes "NewDailyAccumulator p s = Inr a0" "Merge a0 p ss = Inr a"
  shows "let all = s # ss; ns = nums p all; cs = sorted_list_of_set (set (currencies ns)); none = (ns = [] \<or> length cs > 1)
    in SampleCount a = int (length all) \<and> FullSuccessCount a = count_of is_full all \<and> PartialSuccessCount a = count_of is_partial all
      \<and> FailedCount a = count_of is_failed all \<and> (\<forall>c. errors_with (ErrorCounts a) c = count_of (\<lambda>s. is_failed s \<and> s_LastErrorCode s = c) all)
      \<and> NumericCount a = int (length ns) \<and> CurrencySet a = cs \<and> a_Currency a = (if length cs = 1 then hd cs else [])
      \<and> MinNumeric a = (if none then None else Some (Min (set (map fst ns)))) \<and> MaxNumeric a = (if none then None else Some (Max (set (map fst ns))))
      \<and> SumNumeric a = (if none \<or> rp_SumMode p \<noteq> ''additive'' then None else Some (sum_list (map fst ns)))
      \<and> sorted_wrt (<) (map s_ID all) \<and> MinSampleID a = s_ID s \<and> MaxSampleID a = s_ID (last all)
      \<and> list_all (\<lambda>x. s_Environment x = s_Environment s \<and> s_Source x = s_Source s \<and> s_MetricKey x = s_MetricKey s
          \<and> utcBucketDay (s_SyncedAt x) = utcBucketDay (s_SyncedAt s)) all"
proof -
  have "merge_samples p ss a0 = Inr a" using assms(2) by (auto simp: Merge_def rbind_eq_Inr split: if_splits)
  from rolled_samples [OF rolled_NewDailyAccumulator [OF assms(1)] this] have "rolled p (s # ss) a" by simp
  from rolled_ref [OF this] have r: "keys_ref p (s # ss) a" "counts_ref (s # ss) (cnt_part a)" "numbers_ref p (nums p (s # ss)) (num_part a)"
    by (simp_all add: rollup_ref_def)
  let ?ns = "nums p (s # ss)"
  have cs: "CurrencySet a = sorted_list_of_set (set (currencies ?ns))"
    using r(3) by (intro sorted_distinct_set_unique) (simp_all add: numbers_ref_def num_part_def)
  have n: "numerics a = (if ?ns = [] \<or> length (CurrencySet a) > 1 then replicate 5 None else
    [FirstNumeric a, LastNumeric a, Some (Min (set (map fst ?ns))), Some (Max (set (map fst ?ns))),
     if rp_SumMode p = ''additive'' then Some (sum_list (map fst ?ns)) else None])"
    using r(3) by (auto simp: numbers_ref_def num_part_def numerics_def simp del: set_map)
  have "list_all (\<lambda>x. s_Environment x = s_Environment s \<and> s_Source x = s_Source s \<and> s_MetricKey x = s_MetricKey s
          \<and> utcBucketDay (s_SyncedAt x) = utcBucketDay (s_SyncedAt s)) (s # ss)"
    using r(1) by (simp add: keys_ref_def list_all_iff belongs_def)
  moreover have "a_Currency a = (if length (CurrencySet a) = 1 then hd (CurrencySet a) else [])" by (rule ref_currencies(5) [OF r(3)])
  moreover have "MinNumeric a = numerics a ! 2" "MaxNumeric a = numerics a ! 3" "SumNumeric a = numerics a ! 4" by (simp_all add: numerics_def)
  ultimately show ?thesis using r(1,2) r(3) unfolding Let_def cs [symmetric] n
    by (simp add: keys_ref_def counts_ref_def cnt_part_def numbers_ref_def num_part_def del: set_map)
qed

text \<open>
  C27. Coverage is exact: where all samples name one interval that divides the day, the slots covered
  are the intervals of the day in which a sample fell, the others count as duplicates, and there
  are never more slots covered than expected; otherwise no coverage is claimed and a reason is given.
\<close>
theorem rollup_coverage_exact:
  assumes "NewDailyAccumulator p s = Inr a0" "Merge a0 p ss = Inr a"
  shows "case cadence (s # ss) of
      Some i \<Rightarrow> let covered = int (card (set (map (slot_of i) (s # ss)))) in
        ExpectedSlotCount a = Some (86400 div i) \<and> CoveredSlotCount a = Some covered \<and> covered \<le> 86400 div i
        \<and> CoveragePPM a = Some (covered * 1000000 div (86400 div i)) \<and> DuplicateCount a = int (length (s # ss)) - covered \<and> CoverageUnknownReason a = []
    | None \<Rightarrow> ExpectedSlotCount a = None \<and> CoveredSlotCount a = None \<and> CoveragePPM a = None \<and> CoverageUnknownReason a \<noteq> []"
proof -
  have "merge_samples p ss a0 = Inr a" using assms(2) by (auto simp: Merge_def rbind_eq_Inr split: if_splits)
  from rolled_samples [OF rolled_NewDailyAccumulator [OF assms(1)] this] have "rolled p (s # ss) a" by simp
  from rolled_ref [OF this] have r: "coverage_ref (s # ss) (cov_part a)"
    and day: "list_all (\<lambda>s. utcBucketDay (s_SyncedAt s) = BucketDay a) (s # ss)" by (simp_all add: rollup_ref_def keys_ref_def list_all_iff)
  show ?thesis
  proof (cases "cadence (s # ss)")
    case None
    then show ?thesis using r by (simp add: coverage_ref_def cov_part_def)
  next
    case (Some i)
    then have g: "good_cadence i" by (simp add: cadence_Some)
    have v: "distinct (coverageSlots a)" "set (coverageSlots a) = set (map (slot_of i) (s # ss))" using r Some by (simp_all add: coverage_ref_def cov_part_def)
    have "card (set (map (slot_of i) (s # ss))) = length (coverageSlots a)" using distinct_card [OF v(1)] v(2) by simp
    then show ?thesis using r Some slots_bound [OF g day v]
      by (simp add: coverage_ref_def cov_part_def secondsPerDay_def Let_def del: set_map list.map list.set)
  qed
qed

section \<open>Examples\<close>

definition demo_policy :: RollupPolicy where
  "demo_policy = \<lparr>rp_Version = 1, rp_MetricKey = ''sub2api.revenue.daily'', rp_ValueKind = ValueAdditiveDelta, rp_PrimaryKind = PrimaryMoneyMinor,
     PrimaryJSONPointer = ''/amount'', CurrencyJSONPointer = ''/currency'', BusinessDayJSONPointer = [], rp_Unit = ''minor'', rp_Scale = 1,
     rp_SumMode = ''additive'', rp_BucketTimezone = ''UTC'', rp_ExpectedIntervalSeconds = Some 3600, FullValueRequired = True,
     PartialValueAllowed = True, rp_PolicyHash = []\<rparr>"

definition demo_sample :: "int \<Rightarrow> time \<Rightarrow> string \<Rightarrow> string \<Rightarrow> RawRollupSample" where
  "demo_sample i t num cur = \<lparr>s_ID = i, s_MetricKey = ''sub2api.revenue.daily'', s_Source = ''main'', s_Environment = ''production'',
     s_ObservedAt = Some (t - 5), s_SyncedAt = t, s_Status = SyncOK, s_IsPartial = False, s_Watermark = num, s_LastErrorCode = [],
     s_Value = Some [(''amount'', JNumber num), (''currency'', JString cur)], s_PolicyVersion = 1, s_ExpectedIntervalSeconds = Some 3600\<rparr>"

definition demo_failed :: "int \<Rightarrow> time \<Rightarrow> RawRollupSample" where
  "demo_failed i t = (demo_sample i t [] [])\<lparr>s_Status := SyncFailed, s_LastErrorCode := ''timeout'', s_Value := None\<rparr>"

definition demo_time :: "int \<Rightarrow> time" where
  "demo_time h = 738000 * nanos_per_day + h * 3600 * nanos_per_second"

definition demo_day :: "RawRollupSample list" where
  "demo_day = [demo_sample 4 (demo_time 1) ''120'' ''USD'', demo_failed 6 (demo_time 2), demo_sample 9 (demo_time 2) ''-30'' ''USD'']"

definition demo_opened :: DailyAccumulator where
  "demo_opened = (case NewDailyAccumulator demo_policy (hd demo_day) of Inr a \<Rightarrow> a | Inl _ \<Rightarrow> zero_accumulator)"

definition demo_rolled :: DailyAccumulator where
  "demo_rolled = (case Merge demo_opened demo_policy (tl demo_day) of Inr a \<Rightarrow> a | Inl _ \<Rightarrow> zero_accumulator)"

lemma demo_runs:
  "NewDailyAccumulator demo_policy (hd demo_day) = Inr demo_opened" "Merge demo_opened demo_policy (tl demo_day) = Inr demo_rolled"
  by code_simp+

lemma demo_fits: "sound_policy demo_policy" "list_all (\<lambda>s. in64 (s_ID s)) demo_day" "utcBucketDay (s_SyncedAt (hd demo_day)) \<noteq> 0"
  by code_simp+

lemma demo_day_eq: "demo_day = hd demo_day # tl demo_day"
  by (simp add: demo_day_def)

theorem rollup_portions_witness:
  "Merge demo_opened demo_policy (tl demo_day) = rbind (Merge demo_opened demo_policy [demo_day ! 1]) (\<lambda>b. Merge b demo_policy [demo_day ! 2])"
proof -
  have "tl demo_day = [demo_day ! 1] @ [demo_day ! 2]" by (simp add: demo_day_def)
  moreover have "list_all (\<lambda>s. in64 (s_ID s)) (hd demo_day # [demo_day ! 1] @ [demo_day ! 2])" using demo_fits(2) by (simp add: demo_day_def)
  ultimately show ?thesis using rollup_portions [OF demo_runs(1) demo_fits(1) _ demo_fits(3), of "[demo_day ! 1]" "[demo_day ! 2]"] by simp
qed

theorem rollup_reference_witness:
  "SampleCount demo_rolled = 3 \<and> FailedCount demo_rolled = 1 \<and> SumNumeric demo_rolled = Some 90 \<and> MinNumeric demo_rolled = Some (- 30)
   \<and> CurrencySet demo_rolled = [''USD''] \<and> MaxSampleID demo_rolled = 9"
proof -
  have n: "nums demo_policy demo_day = [(120, Some ''USD''), (-30, Some ''USD'')]" by code_simp
  have c: "currencies [(120, Some ''USD''), (-30, Some ''USD'')] = [''USD'', ''USD'']" by code_simp
  have k: "length demo_day = 3" "count_of is_failed demo_day = 1" "s_ID (last demo_day) = 9" "rp_SumMode demo_policy = ''additive''" by code_simp+
  show ?thesis using rollup_reference [OF demo_runs, folded demo_day_eq] by (simp add: n c k Let_def)
qed

theorem rollup_coverage_exact_witness:
  "ExpectedSlotCount demo_rolled = Some 24 \<and> CoveredSlotCount demo_rolled = Some 2 \<and> DuplicateCount demo_rolled = 1"
proof -
  have c: "cadence demo_day = Some 3600" "card (set (map (slot_of 3600) demo_day)) = 2" "length demo_day = 3" by code_simp+
  show ?thesis using rollup_coverage_exact [OF demo_runs, folded demo_day_eq] by (simp add: c Let_def del: set_map list.map list.set)
qed

text \<open>Two full samples at one instant: the value is the later one's, the times and the watermark stay the earlier one's.\<close>

definition demo_twins :: "RawRollupSample list" where
  "demo_twins = [demo_sample 4 (demo_time 1) ''120'' ''USD'', (demo_sample 5 (demo_time 1) ''200'' ''USD'')\<lparr>s_ObservedAt := Some (demo_time 1)\<rparr>]"

lemma last_representative_torn:
  "case rbind (NewDailyAccumulator demo_policy (hd demo_twins)) (\<lambda>a. Merge a demo_policy (tl demo_twins)) of
     Inr a \<Rightarrow> LastFullSampleID a = 5 \<and> LastFullValue a = s_Value (demo_twins ! 1) \<and> LastNumeric a = Some 200
       \<and> LastWatermark a = ''120'' \<and> LastObservedAt a = s_ObservedAt (demo_twins ! 0)
   | Inl _ \<Rightarrow> False"
  by code_simp

end
