(* ===== verification/Sms.thy ===== *)
theory Sms
  imports Actions "HOL-Library.List_Lexorder" "HOL-Library.Char_ord"
begin

text \<open>
  The centre for received text messages: the types of \<open>sms/model.go\<close> and \<open>sms/store.go\<close>, the registry
  of providers (\<open>sms/registry.go\<close>), the classification of upstream errors (\<open>sms/classify.go\<close>) and the
  tables with one operation per statement (\<open>sms/store_pg.go\<close>).

  The tables hold the rows of the one environment a store serves. An empty string stands for the null
  the store writes for it, instant 0 for the zero time. A statement can fail as a whole, see
  \<open>sql\<close>; what other processes do comes before it. Columns nobody reads are left out. Reasons of
  failures are texts; the fixed Chinese texts of the code are represented by short English ones.
\<close>

section \<open>Constants and states (model.go)\<close>

abbreviation "ProviderSMS62 \<equiv> ''sms62''"
abbreviation "ProviderHero \<equiv> ''hero_sms''"
abbreviation "KindPurchase \<equiv> ''purchase''"
abbreviation "KindCancel \<equiv> ''cancel''"
abbreviation "KindFinish \<equiv> ''finish''"
abbreviation "KindReplace \<equiv> ''replace''"
abbreviation "KindReactivate \<equiv> ''reactivate''"
abbreviation "KindProlong \<equiv> ''prolong''"
abbreviation "KindRent \<equiv> ''rent''"
abbreviation "KindEmailPurchase \<equiv> ''email_purchase''"
abbreviation "KindEmailCancel \<equiv> ''email_cancel''"
abbreviation "KindEmailReorder \<equiv> ''email_reorder''"
abbreviation "KindFavoriteSet \<equiv> ''favorite_set''"
abbreviation "KindFavoriteRemove \<equiv> ''favorite_remove''"

datatype NumberState = StateUnmapped | StateWaitingCode | StateCodeReceived | StateFinished | StateCancelled | StateExpired

definition MapHeroStatus :: "string \<Rightarrow> NumberState" where
  "MapHeroStatus status =
    (let s = trim_space status in
     if s = ''4'' then StateCodeReceived
     else if s = ''6'' then StateFinished
     else if s = ''7'' then StateExpired
     else if s = ''8'' \<or> s = ''10'' then StateCancelled
     else StateWaitingCode)"

definition SubtypeRent :: int where "SubtypeRent = 2"

datatype OperationState = StatePrepared | StateSubmitted | StateSucceeded | StateFailed | StateUnknown
  | StateReconciledSucceeded | StateReconciledFailed

text \<open>Upstream errors: what \<open>errors.As\<close> finds in them, with their text.\<close>

datatype upstream_kind = BusinessError int | RejectedError | UnknownOutcomeError | ConnectorError string | OtherError

type_synonym cause = "upstream_kind \<times> string"

datatype sms_error = SmsProviderUnknown | SmsProviderDisabled | SmsNotVerified | SmsActionNotSupported | SmsPendingDuplicate
  | SmsCodeNotAvailable | SmsExtrasNotSupported | SmsOperationNotFound | SmsNotPrepared | SmsNotFound | SmsShape | SmsInvalid
  | SmsRequestInvalid | SmsQuotaNotRegistered | SmsQuotaExceeded | SmsQuotaInvalid | SmsRuleInvalid | SmsRuleNotFound
  | SmsAlertConfigInvalid | SmsStore | SmsUpstream cause

definition definitelyRejected :: "cause \<Rightarrow> bool" where
  "definitelyRejected c = (case fst c of
     BusinessError status \<Rightarrow> status < 500
   | RejectedError \<Rightarrow> True
   | UnknownOutcomeError \<Rightarrow> False
   | ConnectorError k \<Rightarrow> k \<in> {''rejected'', ''auth'', ''not_supported'', ''method_not_allowed'', ''forbidden_target'', ''ip_not_allowed''}
   | OtherError \<Rightarrow> False)"

record Operation =
  so_ID :: string
  so_Provider :: string
  so_Kind :: string
  so_PrincipalID :: string
  so_State :: OperationState
  so_ResourceID :: string
  so_OrderID :: string
  so_RequestHash :: string
  so_ParamsSummary :: string
  so_ProviderRequestID :: string
  so_ProviderRef :: string
  so_FailureReason :: string
  so_NeedsHumanReview :: bool
  so_ResolveNote :: string
  so_StartedAt :: time
  so_UpdatedAt :: time
  so_EmailID :: string

definition RetryAllowed :: "Operation \<Rightarrow> bool" where
  "RetryAllowed op \<longleftrightarrow> so_State op = StateFailed"

definition Pending :: "Operation \<Rightarrow> bool" where
  "Pending op \<longleftrightarrow> so_State op \<in> {StatePrepared, StateSubmitted, StateUnknown}"

record Resource =
  sn_ID :: string
  sn_Provider :: string
  ExternalID :: string
  Phone :: string
  PhoneMask :: string
  ProviderToken :: string
  sn_Service :: string
  sn_Country :: string
  sn_Status :: string
  sn_OrderID :: string
  sn_OperationID :: string
  LastCodeAt :: time
  UpstreamCreatedAt :: time
  sn_ExpiresAt :: time
  sn_SyncedAt :: time
  Operator :: string
  PriceText :: string
  VerificationType :: string
  Subtype :: int
  CountryPhoneCode :: string
  sn_State :: NumberState

definition EffectiveState :: "time \<Rightarrow> Resource \<Rightarrow> NumberState" where
  "EffectiveState now r = (if sn_State r = StateWaitingCode \<and> sn_ExpiresAt r \<noteq> 0 \<and> now > sn_ExpiresAt r then StateExpired else sn_State r)"

record Email =
  em_ID :: string
  em_Provider :: string
  em_ExternalID :: string
  em_Site :: string
  em_Email :: string
  em_Status :: string
  em_Value :: string
  CostText :: string
  em_Currency :: int
  UpstreamDate :: time
  em_Message :: string
  em_SyncedAt :: time
  em_CreatedAt :: time

record sms_Code =
  sc_ID :: string
  sc_Provider :: string
  sc_ResourceID :: string
  sc_Code :: string
  sc_Sender :: string
  sc_ReceivedAt :: time
  sc_CreatedAt :: time

definition MaskPhone :: "string \<Rightarrow> string" where
  "MaskPhone phone =
    (let digits = filter is_digit phone; n = length digits in
     if n \<le> 4 then replicate n CHR ''*''
     else let head = (if n > 8 then take (n - 8) digits else []) in
       head @ replicate (n - length head - 4) CHR ''*'' @ drop (n - 4) digits)"

text \<open>Parameters as a Go map; the fingerprint sorts them by name. \<open>digest\<close> is SHA-256 in hexadecimal.\<close>

type_synonym sms_params = "(string \<times> string) list"

definition request_text :: "string \<Rightarrow> string \<Rightarrow> sms_params \<Rightarrow> string" where
  "request_text provider kind params =
     provider @ [CHR 0x0A] @ kind @ concat (map (\<lambda>(k, v). [CHR 0x0A] @ k @ ''='' @ v) (sort_key fst params))"

definition CanonicalRequestHash :: "(string \<Rightarrow> string) \<Rightarrow> string \<Rightarrow> string \<Rightarrow> sms_params \<Rightarrow> string" where
  "CanonicalRequestHash digest provider kind params = digest (request_text provider kind params)"

section \<open>The registry (registry.go)\<close>

datatype SmsCapability = CapPurchase | CapLifecycle | CapRent | CapEmail | CapCatalog | CapHistory | CapBalance | CapFavorites | CapOrders | CapToken

record ProviderSpec =
  spec_ID :: string
  Capabilities :: "SmsCapability list"

definition Has :: "ProviderSpec \<Rightarrow> SmsCapability \<Rightarrow> bool" where
  "Has p c \<longleftrightarrow> c \<in> set (Capabilities p)"

definition sms_registry :: "ProviderSpec list" where
  "sms_registry =
    [\<lparr>spec_ID = ProviderSMS62, Capabilities = [CapPurchase, CapCatalog, CapOrders, CapToken]\<rparr>,
     \<lparr>spec_ID = ProviderHero, Capabilities = [CapPurchase, CapLifecycle, CapRent, CapEmail, CapCatalog, CapHistory, CapBalance, CapFavorites]\<rparr>]"

definition Spec :: "string \<Rightarrow> ProviderSpec option" where
  "Spec i = find (\<lambda>p. spec_ID p = i) sms_registry"

definition ProviderIDs :: "string list" where
  "ProviderIDs = map spec_ID sms_registry"

definition ProvidersWith :: "SmsCapability \<Rightarrow> string list" where
  "ProvidersWith c = map spec_ID (filter (\<lambda>p. Has p c) sms_registry)"

definition capabilityForKind :: "string \<Rightarrow> SmsCapability option" where
  "capabilityForKind kind =
    (if kind = KindPurchase then Some CapPurchase
     else if kind \<in> {KindCancel, KindFinish, KindReplace, KindReactivate, KindProlong} then Some CapLifecycle
     else if kind = KindRent then Some CapRent
     else if kind \<in> {KindEmailPurchase, KindEmailCancel, KindEmailReorder} then Some CapEmail
     else if kind \<in> {KindFavoriteSet, KindFavoriteRemove} then Some CapFavorites
     else None)"

definition SupportsAction :: "string \<Rightarrow> string \<Rightarrow> bool" where
  "SupportsAction provider kind = (case capabilityForKind kind of None \<Rightarrow> False
     | Some c \<Rightarrow> (case Spec provider of None \<Rightarrow> False | Some spec \<Rightarrow> Has spec c))"

definition ValidateProvider :: "string \<Rightarrow> sms_error + unit" where
  "ValidateProvider provider = (case Spec provider of Some _ \<Rightarrow> Inr () | None \<Rightarrow> Inl SmsProviderUnknown)"

section \<open>The tables (store.go, store_pg.go)\<close>

record sms_Order =
  sd_ID :: string
  sd_Provider :: string
  ProviderOrderID :: string
  sd_GoodsID :: string
  sd_Quantity :: int
  sd_AmountText :: string
  sd_Status :: string

record ProviderStatus =
  ps_Provider :: string
  ps_Enabled :: bool
  VerifiedAt :: time
  ps_ClientIP :: string
  ps_LastError :: string
  ps_UpdatedAt :: time

definition Verified :: "ProviderStatus \<Rightarrow> bool" where
  "Verified s \<longleftrightarrow> VerifiedAt s \<noteq> 0"

definition Usable :: "ProviderStatus \<Rightarrow> bool" where
  "Usable s \<longleftrightarrow> ps_Enabled s \<and> Verified s"

text \<open>An amount is the rational its decimal text denotes; a cost event without a text has none.\<close>

record CostEvent =
  ce_ID :: string
  ce_OperationID :: string
  ce_Provider :: string
  ce_Kind :: string
  ce_Subject :: string
  ce_ProviderRef :: string
  ce_Service :: string
  ce_Country :: string
  ce_AmountText :: string
  ce_Currency :: string
  AmountSource :: string
  OccurredAt :: time

record ConsumerQuota =
  Consumer :: string
  DailyRequests :: int
  DailySpendCapText :: string
  cq_Enabled :: bool
  cq_UpdatedAt :: time

record RoutingRule =
  rr_ID :: string
  rr_Service :: string
  rr_Country :: string
  rr_Providers :: "string list"
  MaxUnitPriceText :: string
  rr_Enabled :: bool
  rr_UpdatedAt :: time

record BalanceSnapshot =
  bs_ID :: string
  bs_Provider :: string
  bs_AmountText :: string
  bs_Currency :: string
  TakenAt :: time

record BalanceThreshold =
  bt_Provider :: string
  MinAmountText :: string
  bt_UpdatedAt :: time

record AlertEvent =
  ae_ID :: string
  ae_Kind :: string
  ae_Provider :: string
  ae_Subject :: string
  ae_Severity :: string
  ae_Fingerprint :: string
  ae_FirstSeenAt :: time
  ae_LastSeenAt :: time
  ae_ResolvedAt :: time

text \<open>\<open>calls\<close> records the requests sent to an upstream system on behalf of an operation, \<open>pushed\<close> the codes
  handed to the notifier.\<close>

record SmsDB =
  operations :: "Operation list"
  numbers :: "Resource list"
  orders :: "sms_Order list"
  codes :: "sms_Code list"
  emails :: "Email list"
  statuses :: "ProviderStatus list"
  costs :: "CostEvent list"
  quotas :: "ConsumerQuota list"
  rules :: "RoutingRule list"
  snapshots :: "BalanceSnapshot list"
  thresholds :: "BalanceThreshold list"
  sms_alerts :: "AlertEvent list"
  calls :: "(string \<times> string) list"
  pushed :: "(string \<times> string \<times> string) list"

type_synonym 'a sms = "SmsDB \<Rightarrow> SmsDB \<times> (sms_error + 'a)"

definition keep_text :: "string \<Rightarrow> string \<Rightarrow> string" where
  "keep_text new old = (if new = [] then old else new)"

definition keep_time :: "time \<Rightarrow> time \<Rightarrow> time" where
  "keep_time new old = (if new = 0 then old else new)"

definition limited :: "int \<Rightarrow> int \<Rightarrow> 'a list \<Rightarrow> 'a list" where
  "limited dflt limit xs = take (nat (if limit \<le> 0 then dflt else limit)) xs"

subsection \<open>Operations\<close>

text \<open>The two partial unique indexes over pending rows.\<close>

definition pending_clash :: "Operation \<Rightarrow> Operation \<Rightarrow> bool" where
  "pending_clash a b \<longleftrightarrow> Pending a \<and> Pending b \<and> so_Provider a = so_Provider b
     \<and> (so_RequestHash a = so_RequestHash b
        \<or> so_ResourceID a \<noteq> [] \<and> so_ResourceID a = so_ResourceID b \<and> so_Kind a = so_Kind b)"

definition op_row :: "Operation \<Rightarrow> Operation" where
  "op_row op = op\<lparr>so_State := StatePrepared, so_OrderID := [], so_ProviderRequestID := [], so_ProviderRef := [], so_FailureReason := [],
     so_NeedsHumanReview := False, so_ResolveNote := [], so_UpdatedAt := so_StartedAt op\<rparr>"

definition PrepareOperation :: "Operation \<Rightarrow> unit sms" where
  "PrepareOperation op db =
    (if list_ex (\<lambda>r. so_ID r = so_ID op) (operations db) \<or> list_ex (pending_clash (op_row op)) (operations db) then (db, Inl SmsPendingDuplicate)
     else if so_ResourceID op \<noteq> [] \<and> \<not> list_ex (\<lambda>r. sn_ID r = so_ResourceID op) (numbers db) then (db, Inl SmsStore)
     else if so_EmailID op \<noteq> [] \<and> \<not> list_ex (\<lambda>e. em_ID e = so_EmailID op) (emails db) then (db, Inl SmsStore)
     else (db\<lparr>operations := operations db @ [op_row op]\<rparr>, Inr ()))"

definition map_op :: "string \<Rightarrow> (Operation \<Rightarrow> Operation) \<Rightarrow> SmsDB \<Rightarrow> SmsDB" where
  "map_op i f db = db\<lparr>operations := map (\<lambda>r. if so_ID r = i then f r else r) (operations db)\<rparr>"

definition MarkSubmitted :: "string \<Rightarrow> time \<Rightarrow> unit sms" where
  "MarkSubmitted i t db =
    (if list_ex (\<lambda>r. so_ID r = i \<and> so_State r = StatePrepared) (operations db)
     then (map_op i (\<lambda>r. if so_State r = StatePrepared then r\<lparr>so_State := StateSubmitted, so_UpdatedAt := t\<rparr> else r) db, Inr ())
     else (db, Inl SmsNotPrepared))"

definition resolve_op :: "Operation \<Rightarrow> Operation \<Rightarrow> Operation" where
  "resolve_op op r = r\<lparr>so_State := so_State op, so_ResourceID := keep_text (so_ResourceID op) (so_ResourceID r),
     so_OrderID := keep_text (so_OrderID op) (so_OrderID r), so_ProviderRequestID := keep_text (so_ProviderRequestID op) (so_ProviderRequestID r),
     so_ProviderRef := keep_text (so_ProviderRef op) (so_ProviderRef r), so_FailureReason := so_FailureReason op,
     so_NeedsHumanReview := so_NeedsHumanReview op, so_ResolveNote := keep_text (so_ResolveNote op) (so_ResolveNote r), so_UpdatedAt := so_UpdatedAt op\<rparr>"

definition ResolveOperation :: "Operation \<Rightarrow> unit sms" where
  "ResolveOperation op db =
    (case find (\<lambda>r. so_ID r = so_ID op) (operations db) of
       None \<Rightarrow> (db, Inl SmsNotFound)
     | Some r \<Rightarrow>
       if list_ex (\<lambda>q. so_ID q \<noteq> so_ID op \<and> pending_clash (resolve_op op r) q) (operations db) then (db, Inl SmsStore)
       else if so_ResourceID op \<noteq> [] \<and> \<not> list_ex (\<lambda>n. sn_ID n = so_ResourceID op) (numbers db) then (db, Inl SmsStore)
       else if so_OrderID op \<noteq> [] \<and> \<not> list_ex (\<lambda>d. sd_ID d = so_OrderID op) (orders db) then (db, Inl SmsStore)
       else (map_op (so_ID op) (resolve_op op) db, Inr ()))"

definition GetOperation :: "string \<Rightarrow> Operation sms" where
  "GetOperation i db = (case find (\<lambda>r. so_ID r = i) (operations db) of None \<Rightarrow> (db, Inl SmsOperationNotFound) | Some r \<Rightarrow> (db, Inr r))"

definition ListOperations :: "string \<Rightarrow> int \<Rightarrow> SmsDB \<Rightarrow> Operation list" where
  "ListOperations provider limit db = limited 100 limit (sort_key (\<lambda>r. - so_StartedAt r) (sort_key so_ID
     (filter (\<lambda>r. provider = [] \<or> so_Provider r = provider) (operations db))))"

definition prepared_failed :: "time \<Rightarrow> Operation \<Rightarrow> Operation" where
  "prepared_failed t r = (if so_State r = StatePrepared
     then r\<lparr>so_State := StateFailed, so_FailureReason := ''interrupted before sending'', so_UpdatedAt := t\<rparr> else r)"

definition recover_prepared :: "time \<Rightarrow> SmsDB \<Rightarrow> SmsDB" where
  "recover_prepared t db = db\<lparr>operations := map (prepared_failed t) (operations db)\<rparr>"

definition submitted_unknown :: "time \<Rightarrow> Operation \<Rightarrow> Operation" where
  "submitted_unknown t r = (if so_State r = StateSubmitted
     then r\<lparr>so_State := StateUnknown, so_NeedsHumanReview := True, so_FailureReason := ''interrupted while waiting'', so_UpdatedAt := t\<rparr> else r)"

definition recover_submitted :: "time \<Rightarrow> SmsDB \<Rightarrow> SmsDB" where
  "recover_submitted t db = db\<lparr>operations := map (submitted_unknown t) (operations db)\<rparr>"

definition ListStaleUnknownOperations :: "time \<Rightarrow> SmsDB \<Rightarrow> Operation list" where
  "ListStaleUnknownOperations before db = sort_key so_UpdatedAt
     (filter (\<lambda>r. so_State r = StateUnknown \<and> so_NeedsHumanReview r \<and> so_UpdatedAt r < before) (operations db))"

subsection \<open>Numbers, orders, codes\<close>

definition checkResourceShape :: "Resource \<Rightarrow> sms_error + unit" where
  "checkResourceShape r =
    (case Spec (sn_Provider r) of
       None \<Rightarrow> Inl SmsProviderUnknown
     | Some spec \<Rightarrow>
       if Has spec CapToken \<and> ProviderToken r = [] then Inl SmsShape
       else if \<not> Has spec CapToken \<and> ProviderToken r \<noteq> [] then Inl SmsShape
       else Inr ())"

definition number_row :: "string \<Rightarrow> time \<Rightarrow> Resource \<Rightarrow> Resource" where
  "number_row newID now r = r\<lparr>sn_ID := newID, LastCodeAt := 0, sn_SyncedAt := now\<rparr>"

definition number_update :: "time \<Rightarrow> Resource \<Rightarrow> Resource \<Rightarrow> Resource" where
  "number_update now r old = old\<lparr>sn_OperationID := keep_text (sn_OperationID r) (sn_OperationID old),
     sn_State := (if sn_State r = StateUnmapped then sn_State old else sn_State r), Operator := keep_text (Operator r) (Operator old),
     PriceText := keep_text (PriceText r) (PriceText old), VerificationType := keep_text (VerificationType r) (VerificationType old),
     Subtype := (if Subtype r > 0 then Subtype r else Subtype old), CountryPhoneCode := keep_text (CountryPhoneCode r) (CountryPhoneCode old),
     Phone := keep_text (Phone r) (Phone old), PhoneMask := keep_text (PhoneMask r) (PhoneMask old),
     ProviderToken := keep_text (ProviderToken r) (ProviderToken old), sn_Service := keep_text (sn_Service r) (sn_Service old),
     sn_Country := keep_text (sn_Country r) (sn_Country old), sn_Status := keep_text (sn_Status r) (sn_Status old),
     sn_OrderID := keep_text (sn_OrderID r) (sn_OrderID old), sn_ExpiresAt := keep_time (sn_ExpiresAt r) (sn_ExpiresAt old), sn_SyncedAt := now\<rparr>"

definition same_number :: "Resource \<Rightarrow> Resource \<Rightarrow> bool" where
  "same_number a b \<longleftrightarrow> sn_Provider a = sn_Provider b \<and> ExternalID a = ExternalID b"

definition UpsertResource :: "string \<Rightarrow> time \<Rightarrow> Resource \<Rightarrow> string sms" where
  "UpsertResource newID now r db =
    (case checkResourceShape r of
       Inl e \<Rightarrow> (db, Inl e)
     | Inr _ \<Rightarrow>
       if sn_OrderID r \<noteq> [] \<and> \<not> list_ex (\<lambda>d. sd_ID d = sn_OrderID r) (orders db) then (db, Inl SmsStore)
       else if sn_OperationID r \<noteq> [] \<and> \<not> list_ex (\<lambda>q. so_ID q = sn_OperationID r) (operations db) then (db, Inl SmsStore)
       else case find (same_number r) (numbers db) of
         Some old \<Rightarrow> (db\<lparr>numbers := map (\<lambda>n. if same_number r n then number_update now r n else n) (numbers db)\<rparr>, Inr (sn_ID old))
       | None \<Rightarrow> (db\<lparr>numbers := numbers db @ [number_row newID now r]\<rparr>, Inr newID))"

definition GetResource :: "string \<Rightarrow> Resource sms" where
  "GetResource i db = (case find (\<lambda>r. sn_ID r = i) (numbers db) of None \<Rightarrow> (db, Inl SmsNotFound) | Some r \<Rightarrow> (db, Inr r))"

definition TouchResourceCodeAt :: "string \<Rightarrow> time \<Rightarrow> unit sms" where
  "TouchResourceCodeAt i t db = (db\<lparr>numbers := map (\<lambda>r. if sn_ID r = i then r\<lparr>LastCodeAt := t\<rparr> else r) (numbers db)\<rparr>, Inr ())"

definition SetResourceState :: "string \<Rightarrow> NumberState \<Rightarrow> unit sms" where
  "SetResourceState i st db =
    (if list_ex (\<lambda>r. sn_ID r = i) (numbers db)
     then (db\<lparr>numbers := map (\<lambda>r. if sn_ID r = i then r\<lparr>sn_State := st\<rparr> else r) (numbers db)\<rparr>, Inr ())
     else (db, Inl SmsNotFound))"

definition ListResourcesByOperation :: "string \<Rightarrow> SmsDB \<Rightarrow> Resource list" where
  "ListResourcesByOperation i db = filter (\<lambda>r. i \<noteq> [] \<and> sn_OperationID r = i) (numbers db)"

definition ListExpiringRentals :: "time \<Rightarrow> time \<Rightarrow> SmsDB \<Rightarrow> Resource list" where
  "ListExpiringRentals from until db = sort_key sn_ExpiresAt (filter (\<lambda>r. Subtype r = SubtypeRent \<and> sn_State r = StateWaitingCode
     \<and> sn_ExpiresAt r \<noteq> 0 \<and> sn_ExpiresAt r > from \<and> sn_ExpiresAt r \<le> until) (numbers db))"

definition same_order :: "sms_Order \<Rightarrow> sms_Order \<Rightarrow> bool" where
  "same_order a b \<longleftrightarrow> sd_Provider a = sd_Provider b \<and> ProviderOrderID a = ProviderOrderID b"

definition UpsertOrder :: "string \<Rightarrow> sms_Order \<Rightarrow> string sms" where
  "UpsertOrder newID d db =
    (if sd_Quantity d < 0 \<or> sd_Quantity d > 200 then (db, Inl SmsStore)
     else case find (same_order d) (orders db) of
       Some old \<Rightarrow> (db\<lparr>orders := map (\<lambda>q. if same_order d q
           then q\<lparr>sd_Status := keep_text (sd_Status d) (sd_Status q), sd_AmountText := keep_text (sd_AmountText d) (sd_AmountText q)\<rparr> else q) (orders db)\<rparr>,
         Inr (sd_ID old))
     | None \<Rightarrow> (db\<lparr>orders := orders db @ [d\<lparr>sd_ID := newID\<rparr>]\<rparr>, Inr newID))"

definition RecordCode :: "string \<Rightarrow> sms_Code \<Rightarrow> (sms_Code \<times> bool) sms" where
  "RecordCode newID c db =
    (if \<not> list_ex (\<lambda>r. sn_ID r = sc_ResourceID c) (numbers db) then (db, Inl SmsStore)
     else case find (\<lambda>d. sc_ResourceID d = sc_ResourceID c \<and> sc_Code d = sc_Code c) (codes db) of
       Some old \<Rightarrow> (db, Inr (old, False))
     | None \<Rightarrow> let c = c\<lparr>sc_ID := newID\<rparr> in (db\<lparr>codes := codes db @ [c]\<rparr>, Inr (c, True)))"

definition same_email :: "Email \<Rightarrow> Email \<Rightarrow> bool" where
  "same_email a b \<longleftrightarrow> em_Provider a = em_Provider b \<and> em_ExternalID a = em_ExternalID b"

definition email_update :: "time \<Rightarrow> Email \<Rightarrow> Email \<Rightarrow> Email" where
  "email_update now e old = old\<lparr>em_Site := keep_text (em_Site e) (em_Site old), em_Email := keep_text (em_Email e) (em_Email old),
     em_Status := keep_text (em_Status e) (em_Status old), em_Value := keep_text (em_Value e) (em_Value old),
     CostText := keep_text (CostText e) (CostText old), em_Currency := (if em_Currency e > 0 then em_Currency e else em_Currency old),
     UpstreamDate := keep_time (UpstreamDate e) (UpstreamDate old), em_Message := keep_text (em_Message e) (em_Message old), em_SyncedAt := now\<rparr>"

definition UpsertEmail :: "string \<Rightarrow> time \<Rightarrow> Email \<Rightarrow> string sms" where
  "UpsertEmail newID now e db =
    (if (case Spec (em_Provider e) of None \<Rightarrow> True | Some spec \<Rightarrow> \<not> Has spec CapEmail) then (db, Inl SmsExtrasNotSupported)
     else case find (same_email e) (emails db) of
       Some old \<Rightarrow> (db\<lparr>emails := map (\<lambda>q. if same_email e q then email_update now e q else q) (emails db)\<rparr>, Inr (em_ID old))
     | None \<Rightarrow> (db\<lparr>emails := emails db @ [e\<lparr>em_ID := newID, em_SyncedAt := now, em_CreatedAt := now\<rparr>]\<rparr>, Inr newID))"

definition GetEmail :: "string \<Rightarrow> Email sms" where
  "GetEmail i db = (case find (\<lambda>e. em_ID e = i) (emails db) of None \<Rightarrow> (db, Inl SmsNotFound) | Some e \<Rightarrow> (db, Inr e))"

subsection \<open>Providers\<close>

definition no_status :: "string \<Rightarrow> ProviderStatus" where
  "no_status provider = \<lparr>ps_Provider = provider, ps_Enabled = False, VerifiedAt = 0, ps_ClientIP = [], ps_LastError = [], ps_UpdatedAt = 0\<rparr>"

definition status_of :: "string \<Rightarrow> SmsDB \<Rightarrow> ProviderStatus" where
  "status_of provider db = (case find (\<lambda>s. ps_Provider s = provider) (statuses db) of None \<Rightarrow> no_status provider | Some s \<Rightarrow> s)"

definition get_status :: "string \<Rightarrow> ProviderStatus sms" where
  "get_status provider db = (db, Inr (status_of provider db))"

definition put_status :: "string \<Rightarrow> (ProviderStatus \<Rightarrow> ProviderStatus) \<Rightarrow> SmsDB \<Rightarrow> SmsDB" where
  "put_status provider f db =
    (if list_ex (\<lambda>s. ps_Provider s = provider) (statuses db)
     then db\<lparr>statuses := map (\<lambda>s. if ps_Provider s = provider then f s else s) (statuses db)\<rparr>
     else db\<lparr>statuses := statuses db @ [f (no_status provider)]\<rparr>)"

definition SaveProviderStatus :: "ProviderStatus \<Rightarrow> unit sms" where
  "SaveProviderStatus st db = (put_status (ps_Provider st) (\<lambda>s. s\<lparr>VerifiedAt := VerifiedAt st,
     ps_ClientIP := keep_text (ps_ClientIP st) (ps_ClientIP s), ps_LastError := ps_LastError st, ps_UpdatedAt := ps_UpdatedAt st\<rparr>) db, Inr ())"

definition pg_SetProviderEnabled :: "string \<Rightarrow> bool \<Rightarrow> time \<Rightarrow> unit sms" where
  "pg_SetProviderEnabled provider enabled t db = (put_status provider (\<lambda>s. s\<lparr>ps_Enabled := enabled, ps_UpdatedAt := t\<rparr>) db, Inr ())"

subsection \<open>Costs, balances, quotas\<close>

text \<open>\<open>numeric\<close> is the reading of a text as a number of the database; a text it does not read fails the statement.\<close>

definition append_cost :: "(string \<Rightarrow> rat option) \<Rightarrow> string \<Rightarrow> CostEvent \<Rightarrow> SmsDB \<Rightarrow> SmsDB option" where
  "append_cost numeric newID ev db =
    (if ce_AmountText ev \<noteq> [] \<and> numeric (ce_AmountText ev) = None then None
     else if ce_OperationID ev \<noteq> [] \<and> \<not> list_ex (\<lambda>q. so_ID q = ce_OperationID ev) (operations db) then None
     else if list_ex (\<lambda>e. ce_OperationID ev \<noteq> [] \<and> ce_OperationID e = ce_OperationID ev \<and> ce_Subject e = ce_Subject ev) (costs db) then Some db
     else Some (db\<lparr>costs := costs db @ [ev\<lparr>ce_ID := newID\<rparr>]\<rparr>))"

definition window_costs :: "string \<Rightarrow> time \<Rightarrow> time \<Rightarrow> SmsDB \<Rightarrow> CostEvent list" where
  "window_costs provider from until db = filter (\<lambda>e. ce_Provider e = provider \<and> OccurredAt e > from \<and> OccurredAt e \<le> until) (costs db)"

record CostSummary =
  cs_Currency :: string
  cs_Sum :: rat
  cs_Count :: int
  cs_UnknownCount :: int

definition amount_of :: "(string \<Rightarrow> rat option) \<Rightarrow> CostEvent \<Rightarrow> rat" where
  "amount_of numeric e = (case numeric (ce_AmountText e) of None \<Rightarrow> 0 | Some a \<Rightarrow> if ce_AmountText e = [] then 0 else a)"

definition by_currency :: "(string \<Rightarrow> rat option) \<Rightarrow> CostEvent list \<Rightarrow> CostSummary list" where
  "by_currency numeric es = map (\<lambda>c. let g = filter (\<lambda>e. ce_Currency e = c) es in
     \<lparr>cs_Currency = c, cs_Sum = sum_list (map (amount_of numeric) g), cs_Count = int (length g),
      cs_UnknownCount = int (length (filter (\<lambda>e. ce_AmountText e = []) g))\<rparr>) (sort (remdups (map ce_Currency es)))"

definition SumCostEventsByCurrency :: "(string \<Rightarrow> rat option) \<Rightarrow> string \<Rightarrow> time \<Rightarrow> time \<Rightarrow> SmsDB \<Rightarrow> CostSummary list" where
  "SumCostEventsByCurrency numeric provider from until db = by_currency numeric (window_costs provider from until db)"

definition ListRecentBalanceSnapshots :: "string \<Rightarrow> int \<Rightarrow> SmsDB \<Rightarrow> BalanceSnapshot list" where
  "ListRecentBalanceSnapshots provider limit db = limited 2 limit (sort_key (\<lambda>s. - TakenAt s) (rev (sort_key bs_ID
     (filter (\<lambda>s. bs_Provider s = provider) (snapshots db)))))"

definition SaveBalanceSnapshot :: "(string \<Rightarrow> rat option) \<Rightarrow> string \<Rightarrow> BalanceSnapshot \<Rightarrow> string sms" where
  "SaveBalanceSnapshot numeric newID s db =
    (if numeric (bs_AmountText s) = None then (db, Inl SmsStore) else (db\<lparr>snapshots := snapshots db @ [s\<lparr>bs_ID := newID\<rparr>]\<rparr>, Inr newID))"

definition quota_ok :: "(string \<Rightarrow> rat option) \<Rightarrow> ConsumerQuota \<Rightarrow> bool" where
  "quota_ok numeric q \<longleftrightarrow> DailyRequests q \<ge> 0 \<and> (DailySpendCapText q = [] \<or> (case numeric (DailySpendCapText q) of None \<Rightarrow> False | Some a \<Rightarrow> a > 0))"

definition SaveConsumerQuota :: "(string \<Rightarrow> rat option) \<Rightarrow> ConsumerQuota \<Rightarrow> unit sms" where
  "SaveConsumerQuota numeric q db =
    (if \<not> quota_ok numeric q then (db, Inl SmsStore)
     else if list_ex (\<lambda>r. Consumer r = Consumer q) (quotas db)
     then (db\<lparr>quotas := map (\<lambda>r. if Consumer r = Consumer q then q else r) (quotas db)\<rparr>, Inr ())
     else (db\<lparr>quotas := quotas db @ [q]\<rparr>, Inr ()))"

definition pg_RemoveConsumerQuota :: "string \<Rightarrow> unit sms" where
  "pg_RemoveConsumerQuota consumer db = (db\<lparr>quotas := filter (\<lambda>q. Consumer q \<noteq> consumer) (quotas db)\<rparr>, Inr ())"

definition GetConsumerQuota :: "string \<Rightarrow> SmsDB \<Rightarrow> ConsumerQuota option" where
  "GetConsumerQuota consumer db = find (\<lambda>q. Consumer q = consumer) (quotas db)"

record ConsumerUsage =
  Numbers :: int
  SpendByCurrency :: "CostSummary list"

definition op_of :: "SmsDB \<Rightarrow> string \<Rightarrow> Operation option" where
  "op_of db i = (if i = [] then None else find (\<lambda>q. so_ID q = i) (operations db))"

definition ConsumerUsageSince :: "(string \<Rightarrow> rat option) \<Rightarrow> string \<Rightarrow> time \<Rightarrow> SmsDB \<Rightarrow> ConsumerUsage" where
  "ConsumerUsageSince numeric consumer since db =
    \<lparr>Numbers = int (length (filter (\<lambda>r. case op_of db (sn_OperationID r) of None \<Rightarrow> False
         | Some q \<Rightarrow> so_PrincipalID q = consumer \<and> so_StartedAt q \<ge> since) (numbers db))),
     SpendByCurrency = by_currency numeric (filter (\<lambda>e. OccurredAt e \<ge> since \<and> (case op_of db (ce_OperationID e) of None \<Rightarrow> False
         | Some q \<Rightarrow> so_PrincipalID q = consumer)) (costs db))\<rparr>"

subsection \<open>Routing rules\<close>

definition UpsertRoutingRule :: "string \<Rightarrow> RoutingRule \<Rightarrow> string sms" where
  "UpsertRoutingRule newID r db =
    (if rr_Providers r = [] then (db, Inl SmsStore)
     else case find (\<lambda>q. rr_Service q = rr_Service r \<and> rr_Country q = rr_Country r) (rules db) of
       Some old \<Rightarrow> (db\<lparr>rules := map (\<lambda>q. if rr_Service q = rr_Service r \<and> rr_Country q = rr_Country r then r\<lparr>rr_ID := rr_ID q\<rparr> else q) (rules db)\<rparr>,
         Inr (rr_ID old))
     | None \<Rightarrow> (db\<lparr>rules := rules db @ [r\<lparr>rr_ID := newID\<rparr>]\<rparr>, Inr newID))"

definition pg_RemoveRoutingRule :: "string \<Rightarrow> unit sms" where
  "pg_RemoveRoutingRule i db =
    (if list_ex (\<lambda>r. rr_ID r = i) (rules db) then (db\<lparr>rules := filter (\<lambda>r. rr_ID r \<noteq> i) (rules db)\<rparr>, Inr ()) else (db, Inl SmsRuleNotFound))"

definition pg_ListRoutingRules :: "SmsDB \<Rightarrow> RoutingRule list" where
  "pg_ListRoutingRules db = sort_key rr_Service (sort_key rr_Country (rules db))"

section \<open>Statements and the world around them\<close>

text \<open>
  One call of the service runs in a context: its instant, the identifiers the database draws, the
  caller if it is a machine, the fingerprint, the reading of a number by the database, \<open>strings.ToLower\<close>,
  \<open>big.Rat.SetString\<close>, the name-based identifiers of the package \<open>uuid\<close>, and for each statement, named by its place in the
  procedure, what other processes did before it (\<open>sx_other\<close>) and whether the database fails it
  (\<open>sx_fails\<close>).
\<close>

type_synonym place = "nat list"

record sms_context =
  sx_now :: time
  sx_id :: "place \<Rightarrow> string"
  sx_consumer :: string
  sx_digest :: "string \<Rightarrow> string"
  sx_numeric :: "string \<Rightarrow> rat option"
  sx_lower :: "string \<Rightarrow> string"
  sx_rat :: "string \<Rightarrow> rat option"
  sx_uuid :: "string \<Rightarrow> string"
  sx_other :: "place \<Rightarrow> SmsDB \<Rightarrow> SmsDB"
  sx_fails :: "place \<Rightarrow> bool"

definition sql :: "sms_context \<Rightarrow> place \<Rightarrow> 'a sms \<Rightarrow> 'a sms" where
  "sql x k f db = (if sx_fails x k then (sx_other x k db, Inl SmsStore) else f (sx_other x k db))"

definition reading :: "(SmsDB \<Rightarrow> 'a) \<Rightarrow> 'a sms" where
  "reading f db = (db, Inr (f db))"

definition sbind :: "'a sms \<Rightarrow> ('a \<Rightarrow> 'b sms) \<Rightarrow> 'b sms" where
  "sbind m k db = (case m db of (db', Inl e) \<Rightarrow> (db', Inl e) | (db', Inr a) \<Rightarrow> k a db')"

definition scatch :: "'a sms \<Rightarrow> (sms_error + 'a \<Rightarrow> 'b sms) \<Rightarrow> 'b sms" where
  "scatch m k db = (case m db of (db', r) \<Rightarrow> k r db')"

definition sreturn :: "sms_error + 'a \<Rightarrow> 'a sms" where
  "sreturn r db = (db, r)"

definition RecoverStaleOperations :: "sms_context \<Rightarrow> int sms" where
  "RecoverStaleOperations x =
     sbind (sql x [0] (\<lambda>db. (recover_prepared (sx_now x) db, Inr (length (filter (\<lambda>r. so_State r = StatePrepared) (operations db)))))) (\<lambda>a.
     sbind (sql x [1] (\<lambda>db. (recover_submitted (sx_now x) db, Inr (length (filter (\<lambda>r. so_State r = StateSubmitted) (operations db)))))) (\<lambda>b.
     sreturn (Inr (int a + int b))))"

end
