(* ===== verification/Sms_Service.thy ===== *)
theory Sms_Service
  imports Sms
begin

text \<open>
  The service of the centre for received text messages: \<open>sms/service.go\<close>, \<open>sms/cost.go\<close>,
  \<open>sms/extras.go\<close> and \<open>sms/import.go\<close>. Adapters of providers are parameters: a record of what the
  upstream system answers in this call. Sending a request that changes something there is recorded in
  \<open>calls\<close> at the moment the adapter is asked. The clock is read once per call.
\<close>

section \<open>Adapters\<close>

record CatalogItem =
  it_ID :: string
  it_Name :: string
  it_Country :: string
  DefaultPrice :: string
  Available :: int64

record PurchaseInput =
  GoodsID :: string
  FirstNumber :: string
  NoFirstNumber :: string
  pi_Service :: string
  pi_Country :: int64
  pi_Operator :: string
  MaxPrice :: string
  Duration :: int64
  pi_Quantity :: int64

record PurchaseOutcome =
  OrderRef :: string
  po_Resources :: "Resource list"
  po_RequestID :: string

record RentInput =
  ri_Service :: string
  ri_Country :: int64
  DurationHours :: int64
  ri_Operator :: string
  ri_Currency :: int64

record Adapter =
  ad_TestConnection :: "cause + string"
  ad_ListCatalog :: "string \<Rightarrow> string \<Rightarrow> cause + CatalogItem list"
  ad_Purchase :: "PurchaseInput \<Rightarrow> cause + PurchaseOutcome"
  ad_Import :: "string \<Rightarrow> cause + Resource list"
  ad_FetchCode :: "Resource \<Rightarrow> sms_error + sms_Code"
  ad_Execute :: "string \<Rightarrow> Resource \<Rightarrow> int64 \<Rightarrow> cause + Resource"
  ad_IsHero :: bool
  ad_Rent :: "RentInput \<Rightarrow> cause + Resource"
  ad_PurchaseEmail :: "string \<Rightarrow> string \<Rightarrow> cause + Email"
  ad_PurchaseEmailBatch :: "string \<Rightarrow> string \<Rightarrow> int64 \<Rightarrow> string \<Rightarrow> cause + string list"
  ad_ListEmails :: "cause + Email list"
  ad_GetEmail :: "string \<Rightarrow> cause + Email"
  ad_CancelEmail :: "string \<Rightarrow> cause + unit"
  ad_ReorderEmail :: "string \<Rightarrow> cause + Email"
  ad_Balance :: "(cause + string) option"

text \<open>The service: its providers in their order, and whether it has a notifier.\<close>

record sms_service =
  sv_providers :: "(string \<times> Adapter) list"
  sv_notifier :: bool

definition sms_adapter :: "sms_service \<Rightarrow> string \<Rightarrow> sms_error + Adapter" where
  "sms_adapter sv provider = (case map_of (rev (sv_providers sv)) provider of None \<Rightarrow> Inl SmsProviderUnknown | Some a \<Rightarrow> Inr a)"

definition service_order :: "sms_service \<Rightarrow> string list" where
  "service_order sv = map fst (sv_providers sv)"

definition lift :: "sms_error + 'a \<Rightarrow> 'a sms" where
  "lift r db = (db, r)"

definition from_upstream :: "cause + 'a \<Rightarrow> sms_error + 'a" where
  "from_upstream r = (case r of Inl c \<Rightarrow> Inl (SmsUpstream c) | Inr a \<Rightarrow> Inr a)"

definition requireVerified :: "sms_context \<Rightarrow> place \<Rightarrow> string \<Rightarrow> unit sms" where
  "requireVerified x l provider = sbind (sql x l (get_status provider)) (\<lambda>status.
     lift (if \<not> ps_Enabled status then Inl SmsProviderDisabled
       else if \<not> Verified status then Inl SmsNotVerified
       else Inr ()))"

section \<open>Connection test and switch\<close>

definition TestConnection :: "sms_context \<Rightarrow> place \<Rightarrow> sms_service \<Rightarrow> string \<Rightarrow> ProviderStatus sms" where
  "TestConnection x l sv provider =
    sbind (lift (sms_adapter sv provider)) (\<lambda>adapter.
    case ad_TestConnection adapter of
      Inl testErr \<Rightarrow>
        scatch (sql x (l @ [0]) (get_status provider)) (\<lambda>prev.
        let status = (no_status provider)\<lparr>VerifiedAt := (case prev of Inl _ \<Rightarrow> 0 | Inr p \<Rightarrow> VerifiedAt p), ps_LastError := snd testErr, ps_UpdatedAt := sx_now x\<rparr>
        in sbind (sql x (l @ [1]) (SaveProviderStatus status)) (\<lambda>_. lift (Inl (SmsUpstream testErr))))
    | Inr clientIP \<Rightarrow>
        let status = (no_status provider)\<lparr>VerifiedAt := sx_now x, ps_ClientIP := clientIP, ps_UpdatedAt := sx_now x\<rparr>
        in sbind (sql x (l @ [1]) (SaveProviderStatus status)) (\<lambda>_. lift (Inr status)))"

definition SetProviderEnabled :: "sms_context \<Rightarrow> sms_service \<Rightarrow> string \<Rightarrow> bool \<Rightarrow> ProviderStatus sms" where
  "SetProviderEnabled x sv provider enabled =
    sbind (lift (sms_adapter sv provider)) (\<lambda>_.
    sbind (sql x [0] (pg_SetProviderEnabled provider enabled (sx_now x))) (\<lambda>_.
    sql x [1] (get_status provider)))"

section \<open>Costs (cost.go)\<close>

abbreviation "CostPurchase \<equiv> ''purchase''"
abbreviation "CostRent \<equiv> ''rent''"
abbreviation "CostProlong \<equiv> ''prolong''"
abbreviation "CostReactivate \<equiv> ''reactivate''"
abbreviation "CostEmailPurchase \<equiv> ''email_purchase''"
abbreviation "CostEmailReorder \<equiv> ''email_reorder''"
abbreviation "CostRefund \<equiv> ''refund''"

definition costKindFor :: "string \<Rightarrow> string" where
  "costKindFor opKind =
    (if opKind = KindPurchase then CostPurchase
     else if opKind = KindRent then CostRent
     else if opKind = KindProlong then CostProlong
     else if opKind = KindReactivate then CostReactivate
     else if opKind = KindEmailPurchase then CostEmailPurchase
     else if opKind = KindEmailReorder then CostEmailReorder
     else if opKind = KindCancel then CostRefund
     else [])"

definition currencyFor :: "string \<Rightarrow> string" where
  "currencyFor provider = (if provider = ProviderSMS62 then ''USD'' else [])"

definition isoCurrency :: "int64 \<Rightarrow> string" where
  "isoCurrency code = (if code \<le> 0 then [] else dec_string (nat code))"

definition cost_event :: "Operation \<Rightarrow> string \<Rightarrow> time \<Rightarrow> CostEvent" where
  "cost_event op kind now = \<lparr>ce_ID = [], ce_OperationID = so_ID op, ce_Provider = so_Provider op, ce_Kind = kind, ce_Subject = [],
     ce_ProviderRef = so_ProviderRef op, ce_Service = [], ce_Country = [], ce_AmountText = [], ce_Currency = currencyFor (so_Provider op),
     AmountSource = [], OccurredAt = now\<rparr>"

definition purchaseCostEvents :: "time \<Rightarrow> Operation \<Rightarrow> string \<Rightarrow> Resource list \<Rightarrow> string list \<Rightarrow> CostEvent list" where
  "purchaseCostEvents now op kind resources ids =
    (let subject = (\<lambda>i r. if sn_ID r = [] \<and> i < length ids then ids ! i else sn_ID r);
         priced = map (\<lambda>(i, r). (cost_event op kind now)\<lparr>ce_Subject := subject i r, ce_Service := sn_Service r, ce_Country := sn_Country r,
             ce_AmountText := PriceText r, AmountSource := ''upstream_price''\<rparr>) (filter (\<lambda>(i, r). \<not> blank (PriceText r)) (enumerate 0 resources))
     in if priced \<noteq> [] then priced
        else [(cost_event op kind now)\<lparr>ce_Service := (case resources of [] \<Rightarrow> [] | r # _ \<Rightarrow> sn_Service r),
             ce_Country := (case resources of [] \<Rightarrow> [] | r # _ \<Rightarrow> sn_Country r), AmountSource := ''pending_order_amount''\<rparr>])"

definition emailCostEvents :: "time \<Rightarrow> Operation \<Rightarrow> string \<Rightarrow> Email list \<Rightarrow> CostEvent list" where
  "emailCostEvents now op kind es = map (\<lambda>e. (cost_event op kind now)\<lparr>ce_Subject := em_ID e, ce_ProviderRef := em_ExternalID e,
     ce_Service := em_Site e, ce_AmountText := trim_space (CostText e), ce_Currency := isoCurrency (em_Currency e),
     AmountSource := ''upstream_price''\<rparr>) es"

definition lifecycleCostEvent :: "time \<Rightarrow> Operation \<Rightarrow> string \<Rightarrow> Resource \<Rightarrow> CostEvent list" where
  "lifecycleCostEvent now op kind r =
    (let ev = (cost_event op kind now)\<lparr>ce_Subject := sn_ID r, ce_ProviderRef := ExternalID r, ce_Service := sn_Service r, ce_Country := sn_Country r\<rparr>
     in [if kind = CostRefund \<and> \<not> blank (PriceText r)
         then ev\<lparr>ce_AmountText := CHR ''-'' # trim_space (PriceText r), AmountSource := ''refund_of_price''\<rparr>
         else ev\<lparr>AmountSource := ''upstream_silent''\<rparr>])"

fun AppendCostEvents :: "sms_context \<Rightarrow> place \<Rightarrow> nat \<Rightarrow> CostEvent list \<Rightarrow> unit sms" where
  "AppendCostEvents x l i [] = lift (Inr ())"
| "AppendCostEvents x l i (ev # evs) =
    sbind (sql x (l @ [i]) (\<lambda>db. case append_cost (sx_numeric x) (sx_id x (l @ [i])) ev db of None \<Rightarrow> (db, Inl SmsStore) | Some db' \<Rightarrow> (db', Inr ())))
      (\<lambda>_. AppendCostEvents x l (i + 1) evs)"

definition recordCosts :: "sms_context \<Rightarrow> place \<Rightarrow> CostEvent list \<Rightarrow> unit sms" where
  "recordCosts x l events = scatch (AppendCostEvents x l 0 events) (\<lambda>_. lift (Inr ()))"

section \<open>Buying a number (service.go)\<close>

definition itoa :: "int \<Rightarrow> string" where
  "itoa n = (if n < 0 then CHR ''-'' # dec_string (nat (- n)) else dec_string (nat n))"

definition purchaseParams :: "string \<Rightarrow> PurchaseInput \<Rightarrow> sms_params" where
  "purchaseParams provider i =
    (''quantity'', itoa (pi_Quantity i)) #
    (if provider = ProviderSMS62
     then (''goods_id'', GoodsID i) # (if FirstNumber i \<noteq> [] then [(''first_number'', FirstNumber i)] else [])
        @ (if NoFirstNumber i \<noteq> [] then [(''no_first_number'', NoFirstNumber i)] else [])
     else [(''service'', pi_Service i), (''country'', itoa (pi_Country i))] @ (if pi_Operator i \<noteq> [] then [(''operator'', pi_Operator i)] else [])
        @ (if MaxPrice i \<noteq> [] then [(''max_price'', MaxPrice i)] else []) @ (if Duration i > 0 then [(''duration'', itoa (Duration i))] else []))"

definition summarize :: "sms_params \<Rightarrow> string" where
  "summarize params = concat (map (\<lambda>(i, k, v). (if i = 0 then [] else '' '') @ k @ ''='' @ v) (enumerate (0 :: nat) (sort_key fst params)))"

definition newOperation :: "sms_context \<Rightarrow> string \<Rightarrow> string \<Rightarrow> string \<Rightarrow> sms_params \<Rightarrow> Operation" where
  "newOperation x i provider kind params = \<lparr>so_ID = i, so_Provider = provider, so_Kind = kind, so_PrincipalID = [], so_State = StatePrepared,
     so_ResourceID = [], so_OrderID = [], so_RequestHash = CanonicalRequestHash (sx_digest x) provider kind params,
     so_ParamsSummary = summarize params, so_ProviderRequestID = [], so_ProviderRef = [], so_FailureReason = [], so_NeedsHumanReview = False,
     so_ResolveNote = [], so_StartedAt = sx_now x, so_UpdatedAt = sx_now x, so_EmailID = []\<rparr>"

text \<open>Marking an operation as submitted, and then asking the adapter, which is recorded.\<close>

definition send_call :: "string \<Rightarrow> string \<Rightarrow> unit sms" where
  "send_call i provider db = (db\<lparr>calls := calls db @ [(i, provider)]\<rparr>, Inr ())"

definition submit :: "sms_context \<Rightarrow> place \<Rightarrow> Operation \<Rightarrow> Operation sms" where
  "submit x l op =
    sbind (sql x (l @ [1]) (PrepareOperation op)) (\<lambda>_.
    sbind (sql x (l @ [2]) (\<lambda>db. sbind (MarkSubmitted (so_ID op) (sx_now x)) (\<lambda>_. send_call (so_ID op) (so_Provider op)) db)) (\<lambda>_.
    lift (Inr (op\<lparr>so_State := StateSubmitted\<rparr>))))"

definition settled_failure :: "time \<Rightarrow> Operation \<Rightarrow> cause \<Rightarrow> Operation" where
  "settled_failure now op c = (if definitelyRejected c then op\<lparr>so_UpdatedAt := now, so_FailureReason := snd c, so_State := StateFailed\<rparr>
     else op\<lparr>so_UpdatedAt := now, so_FailureReason := snd c, so_State := StateUnknown, so_NeedsHumanReview := True\<rparr>)"

definition settleFailure :: "sms_context \<Rightarrow> place \<Rightarrow> Operation \<Rightarrow> cause \<Rightarrow> Operation sms" where
  "settleFailure x l op c = sbind (sql x l (ResolveOperation (settled_failure (sx_now x) op c))) (\<lambda>_. lift (Inr (settled_failure (sx_now x) op c)))"

definition as_unknown :: "time \<Rightarrow> string \<Rightarrow> Operation \<Rightarrow> Operation" where
  "as_unknown now reason op = op\<lparr>so_State := StateUnknown, so_NeedsHumanReview := True, so_FailureReason := reason, so_UpdatedAt := now\<rparr>"

definition settleUnknownAfterSuccess :: "sms_context \<Rightarrow> place \<Rightarrow> Operation \<Rightarrow> string \<Rightarrow> Operation sms" where
  "settleUnknownAfterSuccess x l op reason =
     scatch (sql x l (ResolveOperation (as_unknown (sx_now x) reason op))) (\<lambda>_. lift (Inr (as_unknown (sx_now x) reason op)))"

definition saveOrder :: "sms_context \<Rightarrow> place \<Rightarrow> string \<Rightarrow> PurchaseOutcome \<Rightarrow> PurchaseInput \<Rightarrow> string sms" where
  "saveOrder x l provider outcome inp =
    (if OrderRef outcome = [] then lift (Inr [])
     else sql x l (UpsertOrder (sx_id x l) \<lparr>sd_ID = [], sd_Provider = provider, ProviderOrderID = OrderRef outcome, sd_GoodsID = GoodsID inp,
       sd_Quantity = pi_Quantity inp, sd_AmountText = [], sd_Status = []\<rparr>))"

definition bought :: "sms_context \<Rightarrow> Operation \<Rightarrow> Resource \<Rightarrow> Resource" where
  "bought x op r = r\<lparr>sn_Provider := so_Provider op, sn_OrderID := so_OrderID op, sn_SyncedAt := sx_now x, sn_OperationID := so_ID op,
     sn_State := (if sn_State r = StateUnmapped then StateWaitingCode else sn_State r)\<rparr>"

text \<open>The numbers of a purchase, one statement each; the result says with which operation it stopped and the numbers stored.\<close>

fun save_numbers :: "sms_context \<Rightarrow> place \<Rightarrow> nat \<Rightarrow> Operation \<Rightarrow> string list \<Rightarrow> Resource list \<Rightarrow> (bool \<times> Operation \<times> string list) sms" where
  "save_numbers x l i op ids [] = lift (Inr (True, op, ids))"
| "save_numbers x l i op ids (r # rs) =
    scatch (sql x (l @ [5, i]) (UpsertResource (sx_id x (l @ [5, i])) (sx_now x) (bought x op r))) (\<lambda>res. case res of
      Inl e \<Rightarrow> lift (Inr (False, op, ids))
    | Inr n \<Rightarrow> save_numbers x l (i + 1) (if so_ResourceID op = [] then op\<lparr>so_ResourceID := n\<rparr> else op) (ids @ [n]) rs)"

definition finish_purchase :: "sms_context \<Rightarrow> place \<Rightarrow> Resource list \<Rightarrow> bool \<times> Operation \<times> string list \<Rightarrow> (Operation \<times> string list) sms" where
  "finish_purchase x l resources res =
    (case res of (stored, op, ids) \<Rightarrow>
       if \<not> stored then sbind (settleUnknownAfterSuccess x (l @ [6]) op ''number not stored'') (\<lambda>op. lift (Inr (op, [])))
       else let op = op\<lparr>so_State := StateSucceeded, so_UpdatedAt := sx_now x\<rparr> in
         sbind (sql x (l @ [6]) (ResolveOperation op)) (\<lambda>_.
         sbind (recordCosts x (l @ [7]) (purchaseCostEvents (sx_now x) op CostPurchase (map (bought x op) resources) ids)) (\<lambda>_.
         lift (Inr (op, ids)))))"

definition after_purchase :: "sms_context \<Rightarrow> place \<Rightarrow> Adapter \<Rightarrow> PurchaseInput \<Rightarrow> Operation \<Rightarrow> PurchaseOutcome \<Rightarrow> (Operation \<times> string list) sms" where
  "after_purchase x l adapter inp op outcome =
    (let op = op\<lparr>so_ProviderRequestID := po_RequestID outcome, so_ProviderRef := OrderRef outcome\<rparr> in
     case (if po_Resources outcome = [] \<and> OrderRef outcome \<noteq> [] then ad_Import adapter (OrderRef outcome) else Inr (po_Resources outcome)) of
       Inl importErr \<Rightarrow>
         let op = as_unknown (sx_now x) (''numbers not read: '' @ snd importErr) op in
         sbind (sql x (l @ [3]) (ResolveOperation op)) (\<lambda>_. lift (Inr (op, [])))
     | Inr resources \<Rightarrow>
         scatch (saveOrder x (l @ [4]) (so_Provider op) outcome inp) (\<lambda>order.
         let op = (case order of Inl _ \<Rightarrow> op | Inr i \<Rightarrow> op\<lparr>so_OrderID := i\<rparr>) in
         sbind (save_numbers x l 0 op [] resources) (finish_purchase x l resources)))"

definition purchase :: "sms_context \<Rightarrow> place \<Rightarrow> sms_service \<Rightarrow> string \<Rightarrow> string \<Rightarrow> PurchaseInput \<Rightarrow> (Operation \<times> string list) sms" where
  "purchase x l sv operationID provider inp =
    sbind (lift (sms_adapter sv provider)) (\<lambda>adapter.
    if \<not> SupportsAction provider KindPurchase then lift (Inl SmsActionNotSupported)
    else sbind (requireVerified x (l @ [0]) provider) (\<lambda>_.
    sbind (submit x l ((newOperation x operationID provider KindPurchase (purchaseParams provider inp))\<lparr>so_PrincipalID := sx_consumer x\<rparr>)) (\<lambda>op.
    case ad_Purchase adapter inp of
      Inl purchaseErr \<Rightarrow> sbind (settleFailure x (l @ [3]) op purchaseErr) (\<lambda>op. lift (Inr (op, [])))
    | Inr outcome \<Rightarrow> after_purchase x l adapter inp op outcome)))"

definition sms_Purchase :: "sms_context \<Rightarrow> sms_service \<Rightarrow> string \<Rightarrow> string \<Rightarrow> PurchaseInput \<Rightarrow> Operation sms" where
  "sms_Purchase x sv operationID provider inp = sbind (purchase x [] sv operationID provider inp) (\<lambda>(op, _). lift (Inr op))"

section \<open>Actions on a number (service.go)\<close>

definition final_state :: "string \<Rightarrow> NumberState" where
  "final_state kind = (if kind = KindCancel then StateCancelled else if kind = KindFinish then StateFinished else StateUnmapped)"

definition acted :: "sms_context \<Rightarrow> string \<Rightarrow> Resource \<Rightarrow> Resource \<Rightarrow> Resource" where
  "acted x kind resource updated =
    (let updated = updated\<lparr>sn_Provider := sn_Provider resource, sn_SyncedAt := sx_now x\<rparr> in
     if ExternalID updated = ExternalID resource \<and> final_state kind \<noteq> StateUnmapped then updated\<lparr>sn_State := final_state kind\<rparr>
     else if ExternalID updated \<noteq> ExternalID resource \<and> sn_State updated = StateUnmapped then updated\<lparr>sn_State := StateWaitingCode\<rparr>
     else updated)"

definition finish_action :: "sms_context \<Rightarrow> string \<Rightarrow> Resource \<Rightarrow> Operation \<Rightarrow> Operation sms" where
  "finish_action x kind resource op =
    scatch (if final_state kind = StateUnmapped then lift (Inr ()) else sql x [5] (SetResourceState (sn_ID resource) (final_state kind))) (\<lambda>_.
    sbind (recordCosts x [6] (if costKindFor kind = [] then [] else lifecycleCostEvent (sx_now x) op (costKindFor kind) resource)) (\<lambda>_.
    let op = op\<lparr>so_State := StateSucceeded, so_UpdatedAt := sx_now x\<rparr> in
    sbind (sql x [7] (ResolveOperation op)) (\<lambda>_. lift (Inr op))))"

definition after_action :: "sms_context \<Rightarrow> string \<Rightarrow> Resource \<Rightarrow> Operation \<Rightarrow> Resource \<Rightarrow> Operation sms" where
  "after_action x kind resource op updated =
    (if ExternalID updated = [] then finish_action x kind resource op
     else scatch (sql x [4] (UpsertResource (sx_id x [4]) (sx_now x) (acted x kind resource updated))) (\<lambda>res. case res of
       Inl _ \<Rightarrow> settleUnknownAfterSuccess x [5] op ''action done but number not stored''
     | Inr _ \<Rightarrow> finish_action x kind resource (op\<lparr>so_ProviderRef := ExternalID updated\<rparr>)))"

definition sms_ExecuteAction :: "sms_context \<Rightarrow> sms_service \<Rightarrow> string \<Rightarrow> string \<Rightarrow> string \<Rightarrow> int64 \<Rightarrow> Operation sms" where
  "sms_ExecuteAction x sv operationID kind resourceID duration =
    sbind (sql x [0] (GetResource resourceID)) (\<lambda>resource.
    sbind (lift (sms_adapter sv (sn_Provider resource))) (\<lambda>adapter.
    if \<not> SupportsAction (sn_Provider resource) kind then lift (Inl SmsActionNotSupported)
    else sbind (requireVerified x [1] (sn_Provider resource)) (\<lambda>_.
    sbind (submit x [2] ((newOperation x operationID (sn_Provider resource) kind
        [(''resource'', ExternalID resource), (''duration'', itoa duration)])\<lparr>so_ResourceID := sn_ID resource\<rparr>)) (\<lambda>op.
    case ad_Execute adapter kind resource duration of
      Inl actionErr \<Rightarrow> settleFailure x [3] op actionErr
    | Inr updated \<Rightarrow> after_action x kind resource op updated))))"

section \<open>Receiving a code (service.go)\<close>

definition NotifyCode :: "sms_service \<Rightarrow> bool \<Rightarrow> string \<Rightarrow> string \<Rightarrow> string \<Rightarrow> unit sms" where
  "NotifyCode sv cond provider phone code db =
    (if cond \<and> sv_notifier sv then (db\<lparr>pushed := pushed db @ [(provider, phone, code)]\<rparr>, Inr ()) else (db, Inr ()))"

definition sms_FetchCode :: "sms_context \<Rightarrow> sms_service \<Rightarrow> string \<Rightarrow> sms_Code sms" where
  "sms_FetchCode x sv resourceID =
    sbind (sql x [0] (GetResource resourceID)) (\<lambda>resource.
    sbind (lift (sms_adapter sv (sn_Provider resource))) (\<lambda>adapter.
    sbind (lift (ad_FetchCode adapter resource)) (\<lambda>code.
    let code = code\<lparr>sc_Provider := sn_Provider resource, sc_ResourceID := sn_ID resource, sc_CreatedAt := sx_now x\<rparr> in
    sbind (sql x [1] (RecordCode (sx_id x [1]) code)) (\<lambda>(stored, isNew).
    sbind (sql x [2] (TouchResourceCodeAt (sn_ID resource) (sx_now x))) (\<lambda>_.
    sbind (sql x [3] (SetResourceState (sn_ID resource) StateCodeReceived)) (\<lambda>_.
    sbind (NotifyCode sv isNew (sn_Provider resource) (PhoneMask resource) (sc_Code stored)) (\<lambda>_.
    lift (Inr stored))))))))"

section \<open>Human review (service.go)\<close>

definition reviewed :: "time \<Rightarrow> Operation \<Rightarrow> bool \<Rightarrow> string \<Rightarrow> string \<Rightarrow> Operation" where
  "reviewed now op succeeded resourceID note = op\<lparr>so_State := (if succeeded then StateReconciledSucceeded else StateReconciledFailed),
     so_ResourceID := (if resourceID \<noteq> [] then resourceID else so_ResourceID op), so_ResolveNote := note,
     so_NeedsHumanReview := False, so_UpdatedAt := now\<rparr>"

definition sms_Resolve :: "sms_context \<Rightarrow> string \<Rightarrow> bool \<Rightarrow> string \<Rightarrow> string \<Rightarrow> Operation sms" where
  "sms_Resolve x operationID succeeded resourceID note =
    sbind (sql x [0] (GetOperation operationID)) (\<lambda>op.
    if so_State op \<noteq> StateUnknown then lift (Inl SmsInvalid)
    else if blank note then lift (Inl SmsInvalid)
    else if succeeded \<and> blank resourceID \<and> so_Kind op = KindPurchase then lift (Inl SmsInvalid)
    else let op = reviewed (sx_now x) op succeeded resourceID note in
      sbind (sql x [1] (ResolveOperation op)) (\<lambda>_. lift (Inr op)))"

section \<open>The ledger runner and its three users (extras.go)\<close>

definition sms_Hero :: "sms_context \<Rightarrow> place \<Rightarrow> sms_service \<Rightarrow> string \<Rightarrow> Adapter sms" where
  "sms_Hero x l sv provider =
    sbind (lift (sms_adapter sv provider)) (\<lambda>adapter.
    if \<not> ad_IsHero adapter then lift (Inl SmsExtrasNotSupported)
    else sbind (requireVerified x l provider) (\<lambda>_. lift (Inr adapter)))"

record ledgerResult =
  lr_resources :: "Resource list"
  lr_emails :: "Email list"
  lr_providerRef :: string

definition store_number :: "sms_context \<Rightarrow> place \<Rightarrow> Operation \<Rightarrow> Resource \<Rightarrow> string sms" where
  "store_number x l op r = sql x l (UpsertResource (sx_id x l) (sx_now x) (r\<lparr>sn_Provider := so_Provider op, sn_SyncedAt := sx_now x\<rparr>))"

definition store_email :: "sms_context \<Rightarrow> place \<Rightarrow> Operation \<Rightarrow> Email \<Rightarrow> string sms" where
  "store_email x l op e = sql x l (UpsertEmail (sx_id x l) (sx_now x) (e\<lparr>em_Provider := so_Provider op, em_SyncedAt := sx_now x\<rparr>))"

fun ledger_numbers :: "sms_context \<Rightarrow> nat \<Rightarrow> Operation \<Rightarrow> Resource list \<Rightarrow> Resource list \<Rightarrow> (bool \<times> Operation \<times> Resource list) sms" where
  "ledger_numbers x i op done [] = lift (Inr (True, op, done))"
| "ledger_numbers x i op done (r # rs) =
    scatch (store_number x [5, i] op r) (\<lambda>res. case res of
      Inl e \<Rightarrow> lift (Inr (False, op, done))
    | Inr n \<Rightarrow> ledger_numbers x (i + 1) (if so_ResourceID op = [] then op\<lparr>so_ResourceID := n\<rparr> else op)
        (done @ [r\<lparr>sn_Provider := so_Provider op, sn_SyncedAt := sx_now x, sn_ID := n\<rparr>]) rs)"

fun ledger_emails :: "sms_context \<Rightarrow> nat \<Rightarrow> Operation \<Rightarrow> Email list \<Rightarrow> Email list \<Rightarrow> (bool \<times> Operation \<times> Email list) sms" where
  "ledger_emails x i op done [] = lift (Inr (True, op, done))"
| "ledger_emails x i op done (e # es) =
    scatch (store_email x [6, i] op e) (\<lambda>res. case res of
      Inl _ \<Rightarrow> lift (Inr (False, op, done))
    | Inr n \<Rightarrow> ledger_emails x (i + 1) (if so_EmailID op = [] then op\<lparr>so_EmailID := n\<rparr> else op)
        (done @ [e\<lparr>em_Provider := so_Provider op, em_SyncedAt := sx_now x, em_ID := n\<rparr>]) es)"

definition ledger_costs :: "time \<Rightarrow> Operation \<Rightarrow> Resource list \<Rightarrow> Email list \<Rightarrow> CostEvent list" where
  "ledger_costs now op rs es =
    (if costKindFor (so_Kind op) = [] then []
     else if es \<noteq> [] then emailCostEvents now op (costKindFor (so_Kind op)) es
     else purchaseCostEvents now op (costKindFor (so_Kind op)) rs [])"

definition after_ledger :: "sms_context \<Rightarrow> Operation \<Rightarrow> ledgerResult \<Rightarrow> Operation sms" where
  "after_ledger x op result =
    sbind (ledger_numbers x 0 op [] (lr_resources result)) (\<lambda>(stored, op, rs).
    if \<not> stored then settleUnknownAfterSuccess x [7] op ''done upstream but number not stored''
    else sbind (ledger_emails x 0 op [] (lr_emails result)) (\<lambda>(stored, op, es).
    if \<not> stored then settleUnknownAfterSuccess x [7] op ''done upstream but email not stored''
    else let op = op\<lparr>so_State := StateSucceeded, so_UpdatedAt := sx_now x\<rparr> in
      sbind (sql x [7] (ResolveOperation op)) (\<lambda>_.
      sbind (recordCosts x [8] (ledger_costs (sx_now x) op rs es)) (\<lambda>_. lift (Inr op)))))"

definition runLedger :: "sms_context \<Rightarrow> Operation \<Rightarrow> cause + ledgerResult \<Rightarrow> Operation sms" where
  "runLedger x op do_it =
    sbind (submit x [2] op) (\<lambda>op. case do_it of
      Inl err \<Rightarrow> settleFailure x [3] op err
    | Inr result \<Rightarrow> after_ledger x (op\<lparr>so_ProviderRef := lr_providerRef result\<rparr>) result)"

definition sms_Rent :: "sms_context \<Rightarrow> sms_service \<Rightarrow> string \<Rightarrow> string \<Rightarrow> RentInput \<Rightarrow> Operation sms" where
  "sms_Rent x sv operationID provider inp =
    sbind (sms_Hero x [0] sv provider) (\<lambda>extras.
    if \<not> SupportsAction provider KindRent then lift (Inl SmsActionNotSupported)
    else runLedger x (newOperation x operationID provider KindRent
        [(''service'', sx_lower x (trim_space (ri_Service inp))), (''country'', itoa (ri_Country inp)), (''hours'', itoa (DurationHours inp)),
         (''operator'', trim_space (ri_Operator inp)), (''currency'', itoa (ri_Currency inp))])
      (case ad_Rent extras inp of Inl err \<Rightarrow> Inl err
       | Inr r \<Rightarrow> Inr \<lparr>lr_resources = [r], lr_emails = [], lr_providerRef = ExternalID r\<rparr>))"

definition protocol_error :: "string \<Rightarrow> cause" where
  "protocol_error kind = (OtherError, ''sms: protocol error ('' @ kind @ '')'')"

text \<open>Finding the emails of a batch again by their addresses; the last of two with one address counts.\<close>

fun by_address :: "Email list \<Rightarrow> string list \<Rightarrow> cause + Email list" where
  "by_address listed [] = Inr []"
| "by_address listed (a # as) =
    (case map_of (rev (map (\<lambda>e. (em_Email e, e)) listed)) a of
       None \<Rightarrow> Inl (protocol_error (''missing '' @ a))
     | Some e \<Rightarrow> (case by_address listed as of Inl err \<Rightarrow> Inl err | Inr es \<Rightarrow> Inr (e # es)))"

definition buy_emails :: "Adapter \<Rightarrow> string \<Rightarrow> string \<Rightarrow> int64 \<Rightarrow> string \<Rightarrow> cause + ledgerResult" where
  "buy_emails extras site domain count service =
    (if count = 1
     then (case ad_PurchaseEmail extras site domain of Inl err \<Rightarrow> Inl err
           | Inr e \<Rightarrow> Inr \<lparr>lr_resources = [], lr_emails = [e], lr_providerRef = em_ExternalID e\<rparr>)
     else (case ad_PurchaseEmailBatch extras site domain count service of Inl err \<Rightarrow> Inl err
       | Inr items \<Rightarrow> (case ad_ListEmails extras of Inl err \<Rightarrow> Inl (protocol_error (''list not read: '' @ snd err))
         | Inr listed \<Rightarrow> (case by_address listed items of Inl err \<Rightarrow> Inl err
           | Inr es \<Rightarrow> Inr \<lparr>lr_resources = [], lr_emails = es, lr_providerRef = dec_string (length es) @ '' emails''\<rparr>))))"

definition sms_PurchaseEmails :: "sms_context \<Rightarrow> sms_service \<Rightarrow> string \<Rightarrow> string \<Rightarrow> string \<Rightarrow> string \<Rightarrow> int64 \<Rightarrow> string \<Rightarrow> Operation sms" where
  "sms_PurchaseEmails x sv operationID provider site domain count0 service =
    sbind (sms_Hero x [0] sv provider) (\<lambda>extras.
    let count = (if count0 < 1 then 1 else count0) in
    runLedger x (newOperation x operationID provider KindEmailPurchase
        [(''site'', trim_space site), (''domain'', trim_space domain), (''count'', itoa count), (''service'', trim_space service)])
      (buy_emails extras site domain count service))"

definition change_email :: "Adapter \<Rightarrow> string \<Rightarrow> Email \<Rightarrow> cause + ledgerResult" where
  "change_email extras kind email =
    (if kind = KindEmailCancel
     then (case ad_CancelEmail extras (em_ExternalID email) of Inl err \<Rightarrow> Inl err
           | Inr _ \<Rightarrow> Inr \<lparr>lr_resources = [], lr_emails = [], lr_providerRef = em_ExternalID email\<rparr>)
     else (case ad_ReorderEmail extras (em_ExternalID email) of Inl err \<Rightarrow> Inl err
           | Inr e \<Rightarrow> Inr \<lparr>lr_resources = [], lr_emails = [e], lr_providerRef = em_ExternalID e\<rparr>))"

definition sms_EmailAction :: "sms_context \<Rightarrow> sms_service \<Rightarrow> string \<Rightarrow> string \<Rightarrow> string \<Rightarrow> Operation sms" where
  "sms_EmailAction x sv operationID kind emailID =
    sbind (sql x [0] (GetEmail emailID)) (\<lambda>email.
    sbind (sms_Hero x [1] sv (em_Provider email)) (\<lambda>extras.
    if kind \<noteq> KindEmailCancel \<and> kind \<noteq> KindEmailReorder then lift (Inl SmsActionNotSupported)
    else runLedger x ((newOperation x operationID (em_Provider email) kind [(''email'', em_ExternalID email)])\<lparr>so_EmailID := em_ID email\<rparr>)
      (change_email extras kind email)))"

definition sms_RefreshEmail :: "sms_context \<Rightarrow> sms_service \<Rightarrow> string \<Rightarrow> Email sms" where
  "sms_RefreshEmail x sv emailID =
    sbind (sql x [0] (GetEmail emailID)) (\<lambda>email.
    sbind (sms_Hero x [1] sv (em_Provider email)) (\<lambda>extras.
    sbind (lift (from_upstream (ad_GetEmail extras (em_ExternalID email)))) (\<lambda>updated.
    let updated = updated\<lparr>em_Provider := em_Provider email, em_SyncedAt := sx_now x\<rparr> in
    sbind (sql x [2] (UpsertEmail (sx_id x [2]) (sx_now x) updated)) (\<lambda>_.
    sbind (NotifyCode sv (em_Value updated \<noteq> [] \<and> em_Value email = []) (em_Provider email) (em_Email updated) (em_Value updated)) (\<lambda>_.
    sql x [3] (GetEmail emailID))))))"

section \<open>Reading in an order made elsewhere (import.go)\<close>

fun import_numbers :: "sms_context \<Rightarrow> nat \<Rightarrow> string \<Rightarrow> string \<Rightarrow> Resource list \<Rightarrow> Resource list \<Rightarrow> Resource list sms" where
  "import_numbers x i provider orderID done [] = lift (Inr done)"
| "import_numbers x i provider orderID done (r # rs) =
    (let r = r\<lparr>sn_Provider := provider, sn_OrderID := orderID, sn_SyncedAt := sx_now x\<rparr> in
     sbind (sql x [2, i] (UpsertResource (sx_id x [2, i]) (sx_now x) r)) (\<lambda>n.
     import_numbers x (i + 1) provider orderID (done @ [r\<lparr>sn_ID := n\<rparr>]) rs))"

definition sms_ImportUpstream :: "sms_context \<Rightarrow> sms_service \<Rightarrow> string \<Rightarrow> string \<Rightarrow> Resource list sms" where
  "sms_ImportUpstream x sv provider upstreamRef =
    sbind (lift (sms_adapter sv provider)) (\<lambda>adapter.
    sbind (requireVerified x [0] provider) (\<lambda>_.
    let ref = trim_space upstreamRef in
    if ref = [] then lift (Inl SmsActionNotSupported)
    else sbind (lift (from_upstream (ad_Import adapter ref))) (\<lambda>imported.
    if imported = [] then lift (Inl SmsInvalid)
    else sbind (if provider = ProviderSMS62
        then sql x [1] (UpsertOrder (sx_id x [1]) \<lparr>sd_ID = [], sd_Provider = provider, ProviderOrderID = ref, sd_GoodsID = [],
          sd_Quantity = int (length imported), sd_AmountText = [], sd_Status = ''imported''\<rparr>)
        else lift (Inr [])) (\<lambda>orderID.
    import_numbers x 0 provider orderID [] imported))))"

end
