(* ===== verification/Sms_Routing.thy ===== *)
theory Sms_Routing
  imports Sms_Service
begin

text \<open>
  Which provider a number is requested from, and requesting it: \<open>sms/routing.go\<close>, \<open>sms/quota.go\<close> and
  \<open>sms/request.go\<close>. The texts of errors a caller reads in an attempt are represented by short ones.
\<close>

section \<open>Routing rules (routing.go)\<close>

abbreviation RouteAny :: string where "RouteAny \<equiv> ''*''"

record Route =
  rt_Providers :: "string list"
  rt_RuleID :: string
  rt_MaxUnitPriceText :: string

text \<open>\<open>^[0-9]+(\.[0-9]{1,6})?$\<close>\<close>

definition unit_price :: "string \<Rightarrow> bool" where
  "unit_price s = (case cut_at CHR ''.'' s of (a, b, found) \<Rightarrow>
     a \<noteq> [] \<and> all_digits a \<and> (found \<longrightarrow> all_digits b \<and> 1 \<le> length b \<and> length b \<le> 6))"

definition NormalizeRoutingRule :: "(string \<Rightarrow> string) \<Rightarrow> RoutingRule \<Rightarrow> RoutingRule" where
  "NormalizeRoutingRule lower r = r\<lparr>rr_Service := lower (trim_space (rr_Service r)), rr_Country := trim_space (rr_Country r),
     MaxUnitPriceText := trim_space (MaxUnitPriceText r), rr_Providers := filter (\<lambda>p. p \<noteq> []) (map trim_space (rr_Providers r))\<rparr>"

fun valid_providers :: "string list \<Rightarrow> string list \<Rightarrow> string list \<Rightarrow> bool" where
  "valid_providers configured seen [] = True"
| "valid_providers configured seen (p # ps) =
    (p \<notin> set seen \<and> p \<in> set configured \<and> SupportsAction p KindPurchase \<and> valid_providers configured (p # seen) ps)"

definition ValidateRoutingRule :: "(string \<Rightarrow> string) \<Rightarrow> RoutingRule \<Rightarrow> string list \<Rightarrow> sms_error + unit" where
  "ValidateRoutingRule lower r0 configured =
    (let r = NormalizeRoutingRule lower r0 in
     if rr_Service r = [] then Inl SmsRuleInvalid
     else if rr_Country r = [] then Inl SmsRuleInvalid
     else if rr_Providers r = [] then Inl SmsRuleInvalid
     else if \<not> valid_providers configured [] (rr_Providers r) then Inl SmsRuleInvalid
     else if MaxUnitPriceText r \<noteq> [] \<and> \<not> unit_price (MaxUnitPriceText r) then Inl SmsRuleInvalid
     else if MaxUnitPriceText r \<noteq> [] \<and> list_all (\<lambda>c. c \<in> {CHR ''0'', CHR ''.''}) (MaxUnitPriceText r) then Inl SmsRuleInvalid
     else Inr ())"

definition routeRank :: "RoutingRule \<Rightarrow> string \<Rightarrow> string \<Rightarrow> int" where
  "routeRank r service country =
    (if rr_Service r = service \<and> rr_Country r = country then 0
     else if rr_Service r = service \<and> rr_Country r = RouteAny then 1
     else if rr_Service r = RouteAny \<and> rr_Country r = country then 2
     else if rr_Service r = RouteAny \<and> rr_Country r = RouteAny then 3
     else - 1)"

fun best_rule :: "string \<Rightarrow> string \<Rightarrow> RoutingRule option \<Rightarrow> int \<Rightarrow> RoutingRule list \<Rightarrow> RoutingRule option" where
  "best_rule service country best bestRank [] = best"
| "best_rule service country best bestRank (r # rs) =
    (if \<not> rr_Enabled r then best_rule service country best bestRank rs
     else let rank = routeRank r service country in
       if rank \<ge> 0 \<and> rank < bestRank then best_rule service country (Some r) rank rs
       else best_rule service country best bestRank rs)"

definition ResolveRoute :: "(string \<Rightarrow> string) \<Rightarrow> RoutingRule list \<Rightarrow> string list \<Rightarrow> string \<Rightarrow> string \<Rightarrow> string \<Rightarrow> Route" where
  "ResolveRoute lower rs defaults service0 country0 preferred0 =
    (let service = lower (trim_space service0); country = trim_space country0; preferred = trim_space preferred0;
         route = (case best_rule service country None 4 rs of
           Some r \<Rightarrow> \<lparr>rt_Providers = rr_Providers r, rt_RuleID = rr_ID r, rt_MaxUnitPriceText = MaxUnitPriceText r\<rparr>
         | None \<Rightarrow> \<lparr>rt_Providers = defaults, rt_RuleID = [], rt_MaxUnitPriceText = []\<rparr>)
     in if preferred \<noteq> [] then route\<lparr>rt_Providers := [preferred]\<rparr> else route)"

definition sms_SetRoutingRule :: "sms_context \<Rightarrow> sms_service \<Rightarrow> RoutingRule \<Rightarrow> RoutingRule sms" where
  "sms_SetRoutingRule x sv r0 =
    (let r = NormalizeRoutingRule (sx_lower x) r0 in
     sbind (lift (ValidateRoutingRule (sx_lower x) r (service_order sv))) (\<lambda>_.
     let r = r\<lparr>rr_UpdatedAt := sx_now x\<rparr> in
     sbind (sql x [0] (UpsertRoutingRule (sx_id x [0]) r)) (\<lambda>i. lift (Inr (r\<lparr>rr_ID := i\<rparr>)))))"

definition sms_RemoveRoutingRule :: "sms_context \<Rightarrow> string \<Rightarrow> unit sms" where
  "sms_RemoveRoutingRule x i = (if blank i then lift (Inl SmsRuleNotFound) else sql x [0] (pg_RemoveRoutingRule (trim_space i)))"

definition sms_Route :: "sms_context \<Rightarrow> place \<Rightarrow> sms_service \<Rightarrow> string \<Rightarrow> string \<Rightarrow> string \<Rightarrow> Route sms" where
  "sms_Route x l sv service country preferred0 =
    (let preferred = trim_space preferred0 in
     if preferred \<noteq> [] \<and> map_of (rev (sv_providers sv)) preferred = None then lift (Inl SmsProviderUnknown)
     else sbind (sql x l (reading pg_ListRoutingRules)) (\<lambda>rs. lift (Inr (ResolveRoute (sx_lower x) rs (service_order sv) service country preferred))))"

section \<open>Quotas of machines (quota.go)\<close>

definition parseDecimal :: "(string \<Rightarrow> rat option) \<Rightarrow> string \<Rightarrow> rat option" where
  "parseDecimal rat s = (if blank s then None else case rat (trim_space s) of None \<Rightarrow> None | Some r \<Rightarrow> if r < 0 then None else Some r)"

definition sms_SetConsumerQuota :: "sms_context \<Rightarrow> ConsumerQuota \<Rightarrow> ConsumerQuota sms" where
  "sms_SetConsumerQuota x q0 =
    (let q = q0\<lparr>Consumer := trim_space (Consumer q0), DailySpendCapText := trim_space (DailySpendCapText q0)\<rparr> in
     if Consumer q = [] then lift (Inl SmsQuotaInvalid)
     else if DailyRequests q < 0 then lift (Inl SmsQuotaInvalid)
     else if DailySpendCapText q \<noteq> [] \<and> \<not> unit_price (DailySpendCapText q) then lift (Inl SmsQuotaInvalid)
     else let q = q\<lparr>cq_UpdatedAt := sx_now x\<rparr> in
       sbind (sql x [0] (SaveConsumerQuota (sx_numeric x) q)) (\<lambda>_. lift (Inr q)))"

definition sms_RemoveConsumerQuota :: "sms_context \<Rightarrow> string \<Rightarrow> unit sms" where
  "sms_RemoveConsumerQuota x consumer = sql x [0] (pg_RemoveConsumerQuota (trim_space consumer))"

text \<open>The start of the day of an instant, which counts nanoseconds from midnight.\<close>

definition day_begin :: "time \<Rightarrow> time" where
  "day_begin t = t - t mod 86400000000000"

definition over_quota :: "(string \<Rightarrow> rat option) \<Rightarrow> ConsumerQuota \<Rightarrow> ConsumerUsage \<Rightarrow> int64 \<Rightarrow> bool" where
  "over_quota rat quota used want \<longleftrightarrow> Numbers used + want > DailyRequests quota
     \<or> (case parseDecimal rat (DailySpendCapText quota) of None \<Rightarrow> False
        | Some limit \<Rightarrow> list_ex (\<lambda>row. cs_Sum row > 0 \<and> cs_Sum row \<ge> limit) (SpendByCurrency used))"

definition checkQuota :: "sms_context \<Rightarrow> place \<Rightarrow> int64 \<Rightarrow> unit sms" where
  "checkQuota x l want =
    (if sx_consumer x = [] then lift (Inr ())
     else sbind (sql x (l @ [0]) (reading (GetConsumerQuota (sx_consumer x)))) (\<lambda>found.
     case found of None \<Rightarrow> lift (Inl SmsQuotaNotRegistered)
     | Some quota \<Rightarrow> if \<not> cq_Enabled quota then lift (Inl SmsQuotaNotRegistered)
       else sbind (sql x (l @ [1]) (reading (ConsumerUsageSince (sx_numeric x) (sx_consumer x) (day_begin (sx_now x))))) (\<lambda>used.
       lift (if over_quota (sx_rat x) quota used want then Inl SmsQuotaExceeded else Inr ()))))"

section \<open>Requesting a number (request.go)\<close>

record RequestInput =
  rq_Service :: string
  rq_Country :: string
  rq_Quantity :: int64
  rq_Provider :: string

record RequestAttempt =
  ra_Provider :: string
  ra_OperationID :: string
  ra_State :: "OperationState option"
  ra_ProviderRef :: string
  ra_Reason :: string
  Replayed :: bool

record RequestOutcome =
  ro_RequestID :: string
  ro_Service :: string
  ro_Country :: string
  ro_Quantity :: int64
  ro_RuleID :: string
  ro_State :: OperationState
  ro_Provider :: string
  ro_OperationID :: string
  ResourceIDs :: "string list"
  Attempts :: "RequestAttempt list"

definition maxRequestQuantity :: int64 where "maxRequestQuantity = 200"

definition attemptOperationID :: "sms_context \<Rightarrow> string \<Rightarrow> string \<Rightarrow> string" where
  "attemptOperationID x requestID provider = sx_uuid x (requestID @ [CHR 0x00] @ provider)"

definition sms_isDigits :: "string \<Rightarrow> bool" where
  "sms_isDigits s \<longleftrightarrow> s \<noteq> [] \<and> all_digits s"

fun has_substring :: "string \<Rightarrow> string \<Rightarrow> bool" where
  "has_substring s t = (starts_with s t \<or> (case s of [] \<Rightarrow> False | _ # s' \<Rightarrow> has_substring s' t))"

definition matches62 :: "(string \<Rightarrow> string) \<Rightarrow> CatalogItem \<Rightarrow> RequestInput \<Rightarrow> bool" where
  "matches62 lower it inp =
    (if it_Country it \<noteq> [] \<and> it_Country it \<noteq> rq_Country inp then False
     else if sms_isDigits (rq_Service inp) then starts_with (it_ID it) (rq_Service inp @ ''-'')
     else has_substring (lower (it_Name it)) (rq_Service inp))"

record pick_state =
  best :: "(CatalogItem \<times> rat) option"
  matched :: nat
  noStock :: nat
  overCap :: nat
  noPrice :: nat

definition pick_step :: "sms_context \<Rightarrow> RequestInput \<Rightarrow> rat option \<Rightarrow> CatalogItem \<Rightarrow> pick_state \<Rightarrow> pick_state" where
  "pick_step x inp capPrice it p =
    (if \<not> matches62 (sx_lower x) it inp then p
     else let p = p\<lparr>matched := matched p + 1\<rparr> in
       if Available it < rq_Quantity inp then p\<lparr>noStock := noStock p + 1\<rparr>
       else case parseDecimal (sx_rat x) (DefaultPrice it) of
         None \<Rightarrow> p\<lparr>noPrice := noPrice p + 1\<rparr>
       | Some price \<Rightarrow>
           if (case capPrice of None \<Rightarrow> False | Some c \<Rightarrow> price > c) then p\<lparr>overCap := overCap p + 1\<rparr>
           else if (case best p of None \<Rightarrow> True | Some (_, b) \<Rightarrow> price < b) then p\<lparr>best := Some (it, price)\<rparr> else p)"

definition pick62Goods :: "sms_context \<Rightarrow> CatalogItem list \<Rightarrow> RequestInput \<Rightarrow> string \<Rightarrow> string + CatalogItem" where
  "pick62Goods x items inp capText =
    (let capPrice = (if capText \<noteq> [] then parseDecimal (sx_rat x) capText else None);
         p = fold (pick_step x inp capPrice) items \<lparr>best = None, matched = 0, noStock = 0, overCap = 0, noPrice = 0\<rparr>
     in case best p of
       Some (it, _) \<Rightarrow> Inr it
     | None \<Rightarrow> Inl (if matched p = 0 then ''no goods match'' else if overCap p > 0 then ''over the price limit''
         else if noStock p > 0 then ''out of stock'' else ''no price''))"

definition error_text :: "sms_error \<Rightarrow> string" where
  "error_text e = (case e of SmsProviderUnknown \<Rightarrow> ''provider unknown'' | SmsProviderDisabled \<Rightarrow> ''provider disabled''
     | SmsNotVerified \<Rightarrow> ''not verified'' | SmsActionNotSupported \<Rightarrow> ''not supported'' | SmsUpstream c \<Rightarrow> snd c
     | SmsNotPrepared \<Rightarrow> ''not prepared'' | _ \<Rightarrow> ''store'')"

definition purchaseInputFor :: "sms_context \<Rightarrow> sms_service \<Rightarrow> string \<Rightarrow> RequestInput \<Rightarrow> string \<Rightarrow> string + PurchaseInput" where
  "purchaseInputFor x sv provider inp capText =
    (let pin = \<lparr>GoodsID = [], FirstNumber = [], NoFirstNumber = [], pi_Service = [], pi_Country = 0, pi_Operator = [], MaxPrice = [],
       Duration = 0, pi_Quantity = rq_Quantity inp\<rparr> in
     if provider = ProviderHero then
       (case parse_int64 (rq_Country inp) of
          None \<Rightarrow> Inl ''country must be a number''
        | Some c \<Rightarrow> if c < 0 then Inl ''country must be a number''
            else Inr (pin\<lparr>pi_Service := rq_Service inp, pi_Country := c, MaxPrice := capText\<rparr>))
     else if provider = ProviderSMS62 then
       (case sms_adapter sv provider of
          Inl e \<Rightarrow> Inl (error_text e)
        | Inr adapter \<Rightarrow>
            (case ad_ListCatalog adapter (if sms_isDigits (rq_Service inp) then rq_Service inp else []) (rq_Country inp) of
               Inl c \<Rightarrow> Inl (''catalog not read: '' @ snd c)
             | Inr items \<Rightarrow> (case pick62Goods x items inp capText of
                 Inl reason \<Rightarrow> Inl reason
               | Inr it \<Rightarrow> Inr (pin\<lparr>GoodsID := it_ID it\<rparr>))))
     else Inl ''no translation for this provider'')"

definition resource_ids :: "Operation \<Rightarrow> sms_error + Resource list \<Rightarrow> string list" where
  "resource_ids op rs = (case rs of Inr (r # rs') \<Rightarrow> map sn_ID (r # rs') | _ \<Rightarrow> if so_ResourceID op \<noteq> [] then [so_ResourceID op] else [])"

text \<open>The result says whether to stop.\<close>

definition settleRequest :: "sms_context \<Rightarrow> place \<Rightarrow> RequestOutcome \<Rightarrow> string \<Rightarrow> Operation \<Rightarrow> string list \<Rightarrow> (bool \<times> RequestOutcome) sms" where
  "settleRequest x l out provider op ids =
    (if so_State op = StateSucceeded \<or> so_State op = StateReconciledSucceeded then
       let out = out\<lparr>ro_State := StateSucceeded, ro_Provider := provider, ro_OperationID := so_ID op\<rparr> in
       if ids = [] then scatch (sql x l (reading (ListResourcesByOperation (so_ID op)))) (\<lambda>rs.
         lift (Inr (True, out\<lparr>ResourceIDs := resource_ids op rs\<rparr>)))
       else lift (Inr (True, out\<lparr>ResourceIDs := ids\<rparr>))
     else if so_State op = StateUnknown \<or> so_State op = StatePrepared \<or> so_State op = StateSubmitted then
       lift (Inr (True, out\<lparr>ro_State := StateUnknown, ro_Provider := provider, ro_OperationID := so_ID op\<rparr>))
     else lift (Inr (False, out)))"

definition attempt_of :: "string \<Rightarrow> string \<Rightarrow> bool \<Rightarrow> Operation \<Rightarrow> RequestAttempt" where
  "attempt_of provider i replayed op = \<lparr>ra_Provider = provider, ra_OperationID = i, ra_State = Some (so_State op),
     ra_ProviderRef = so_ProviderRef op, ra_Reason = so_FailureReason op, Replayed = replayed\<rparr>"

definition skipped :: "string \<Rightarrow> string \<Rightarrow> string \<Rightarrow> RequestAttempt" where
  "skipped provider i reason = \<lparr>ra_Provider = provider, ra_OperationID = i, ra_State = None, ra_ProviderRef = [], ra_Reason = reason, Replayed = False\<rparr>"

definition add_attempt :: "RequestAttempt \<Rightarrow> RequestOutcome \<Rightarrow> RequestOutcome" where
  "add_attempt a out = out\<lparr>Attempts := Attempts out @ [a]\<rparr>"

text \<open>One provider of the route; the result says whether to stop.\<close>

definition try_provider :: "sms_context \<Rightarrow> place \<Rightarrow> sms_service \<Rightarrow> string \<Rightarrow> RequestInput \<Rightarrow> string \<Rightarrow> RequestOutcome \<Rightarrow> string \<Rightarrow> (bool \<times> RequestOutcome) sms" where
  "try_provider x l sv requestID inp capText out provider =
    (let i = attemptOperationID x requestID provider in
     scatch (sql x (l @ [0]) (GetOperation i)) (\<lambda>prior. case prior of
       Inr op \<Rightarrow> settleRequest x (l @ [1]) (add_attempt (attempt_of provider i True op) out) provider op []
     | Inl e \<Rightarrow> if e \<noteq> SmsOperationNotFound then lift (Inl e)
       else case purchaseInputFor x sv provider inp capText of
         Inl reason \<Rightarrow> lift (Inr (False, add_attempt (skipped provider i reason) out))
       | Inr pin \<Rightarrow> scatch (purchase x (l @ [2]) sv i provider pin) (\<lambda>res. case res of
           Inl e \<Rightarrow> if e = SmsPendingDuplicate then lift (Inl e) else lift (Inr (False, add_attempt (skipped provider i (error_text e)) out))
         | Inr (op, ids) \<Rightarrow> settleRequest x (l @ [3]) (add_attempt (attempt_of provider i False op) out) provider op ids)))"

fun try_providers :: "sms_context \<Rightarrow> nat \<Rightarrow> sms_service \<Rightarrow> string \<Rightarrow> RequestInput \<Rightarrow> string \<Rightarrow> RequestOutcome \<Rightarrow> string list \<Rightarrow> RequestOutcome sms" where
  "try_providers x n sv requestID inp capText out [] = lift (Inr out)"
| "try_providers x n sv requestID inp capText out (p # ps) =
    sbind (try_provider x [3, n] sv requestID inp capText out p) (\<lambda>(stop, out).
    if stop then lift (Inr out) else try_providers x (n + 1) sv requestID inp capText out ps)"

fun hasPriorAttempt :: "sms_context \<Rightarrow> nat \<Rightarrow> string \<Rightarrow> string list \<Rightarrow> bool sms" where
  "hasPriorAttempt x n requestID [] = lift (Inr False)"
| "hasPriorAttempt x n requestID (p # ps) =
    scatch (sql x [1, n] (GetOperation (attemptOperationID x requestID p))) (\<lambda>prior. case prior of
      Inr _ \<Rightarrow> lift (Inr True)
    | Inl e \<Rightarrow> if e \<noteq> SmsOperationNotFound then lift (Inl e) else hasPriorAttempt x (n + 1) requestID ps)"

definition bad_request :: "sms_service \<Rightarrow> string \<Rightarrow> RequestInput \<Rightarrow> bool" where
  "bad_request sv requestID inp \<longleftrightarrow> requestID = [] \<or> rq_Service inp = [] \<or> rq_Service inp = RouteAny \<or> rq_Country inp = [] \<or> rq_Country inp = RouteAny
     \<or> rq_Quantity inp < 1 \<or> rq_Quantity inp > maxRequestQuantity
     \<or> rq_Provider inp \<noteq> [] \<and> map_of (rev (sv_providers sv)) (rq_Provider inp) = None"

definition normal_request :: "sms_context \<Rightarrow> RequestInput \<Rightarrow> RequestInput" where
  "normal_request x inp = inp\<lparr>rq_Service := sx_lower x (trim_space (rq_Service inp)), rq_Country := trim_space (rq_Country inp),
     rq_Provider := trim_space (rq_Provider inp)\<rparr>"

definition no_outcome :: "string \<Rightarrow> RequestInput \<Rightarrow> Route \<Rightarrow> RequestOutcome" where
  "no_outcome requestID inp route = \<lparr>ro_RequestID = requestID, ro_Service = rq_Service inp, ro_Country = rq_Country inp, ro_Quantity = rq_Quantity inp,
     ro_RuleID = rt_RuleID route, ro_State = StateFailed, ro_Provider = [], ro_OperationID = [], ResourceIDs = [], Attempts = []\<rparr>"

definition RequestNumber :: "sms_context \<Rightarrow> sms_service \<Rightarrow> string \<Rightarrow> RequestInput \<Rightarrow> RequestOutcome sms" where
  "RequestNumber x sv requestID0 inp0 =
    (let requestID = trim_space requestID0; inp = normal_request x inp0 in
     if bad_request sv requestID inp then lift (Inl SmsRequestInvalid)
     else sbind (sms_Route x [0] sv (rq_Service inp) (rq_Country inp) (rq_Provider inp)) (\<lambda>route.
       sbind (hasPriorAttempt x 0 requestID (rt_Providers route)) (\<lambda>replay.
       sbind (if replay then lift (Inr ()) else checkQuota x [2] (rq_Quantity inp)) (\<lambda>_.
       try_providers x 0 sv requestID inp (rt_MaxUnitPriceText route) (no_outcome requestID inp route) (rt_Providers route)))))"

end
