(* ===== verification/Sms_Alerts.thy ===== *)
theory Sms_Alerts
  imports Sms_Routing
begin

text \<open>
  Probing the providers, reconciling their balances and the alerts of the centre: \<open>sms/probe.go\<close>,
  \<open>sms/reconcile.go\<close> and \<open>sms/alerts.go\<close>. A column of numbers gives back the number its text was read
  as. The sentences written for people are left out.
\<close>

section \<open>Statements (store_pg.go)\<close>

definition newest_first :: "BalanceSnapshot list \<Rightarrow> BalanceSnapshot list" where
  "newest_first ss = sort_key (\<lambda>s. - TakenAt s) (rev (sort_key bs_ID ss))"

definition LatestBalanceSnapshots :: "SmsDB \<Rightarrow> BalanceSnapshot list" where
  "LatestBalanceSnapshots db = map (\<lambda>p. hd (newest_first (filter (\<lambda>s. bs_Provider s = p) (snapshots db)))) (sort (remdups (map bs_Provider (snapshots db))))"

definition SaveBalanceThreshold :: "(string \<Rightarrow> rat option) \<Rightarrow> BalanceThreshold \<Rightarrow> unit sms" where
  "SaveBalanceThreshold numeric t db =
    (if numeric (MinAmountText t) = None then (db, Inl SmsStore)
     else if list_ex (\<lambda>q. bt_Provider q = bt_Provider t) (thresholds db)
     then (db\<lparr>thresholds := map (\<lambda>q. if bt_Provider q = bt_Provider t then t else q) (thresholds db)\<rparr>, Inr ())
     else (db\<lparr>thresholds := thresholds db @ [t]\<rparr>, Inr ()))"

definition RemoveBalanceThreshold :: "string \<Rightarrow> unit sms" where
  "RemoveBalanceThreshold provider db = (db\<lparr>thresholds := filter (\<lambda>q. bt_Provider q \<noteq> provider) (thresholds db)\<rparr>, Inr ())"

definition ListBalanceThresholds :: "SmsDB \<Rightarrow> BalanceThreshold list" where
  "ListBalanceThresholds db = sort_key bt_Provider (thresholds db)"

definition alert_seen :: "AlertEvent \<Rightarrow> AlertEvent \<Rightarrow> AlertEvent" where
  "alert_seen ev old = old\<lparr>ae_Severity := ae_Severity ev, ae_LastSeenAt := ae_LastSeenAt ev,
     ae_FirstSeenAt := (if ae_ResolvedAt old = 0 then ae_FirstSeenAt old else ae_LastSeenAt ev), ae_ResolvedAt := 0\<rparr>"

definition UpsertAlertEvent :: "string \<Rightarrow> AlertEvent \<Rightarrow> string sms" where
  "UpsertAlertEvent newID ev db =
    (case find (\<lambda>q. ae_Fingerprint q = ae_Fingerprint ev) (sms_alerts db) of
       Some old \<Rightarrow> (db\<lparr>sms_alerts := map (\<lambda>q. if ae_Fingerprint q = ae_Fingerprint ev then alert_seen ev q else q) (sms_alerts db)\<rparr>, Inr (ae_ID old))
     | None \<Rightarrow> (db\<lparr>sms_alerts := sms_alerts db @ [ev\<lparr>ae_ID := newID, ae_FirstSeenAt := ae_LastSeenAt ev, ae_ResolvedAt := 0\<rparr>]\<rparr>, Inr newID))"

definition ResolveAlertEventsNotIn :: "string list \<Rightarrow> time \<Rightarrow> int sms" where
  "ResolveAlertEventsNotIn fingerprints t db =
    (let gone = (\<lambda>q. ae_ResolvedAt q = 0 \<and> ae_Fingerprint q \<notin> set fingerprints) in
     (db\<lparr>sms_alerts := map (\<lambda>q. if gone q then q\<lparr>ae_ResolvedAt := t\<rparr> else q) (sms_alerts db)\<rparr>, Inr (int (length (filter gone (sms_alerts db))))))"

definition ListOpenAlertEvents :: "SmsDB \<Rightarrow> AlertEvent list" where
  "ListOpenAlertEvents db = sort_key ae_Severity (sort_key ae_FirstSeenAt (filter (\<lambda>q. ae_ResolvedAt q = 0) (sms_alerts db)))"

section \<open>Probing (probe.go)\<close>

record ProbeResult =
  pr_Provider :: string
  pr_Skipped :: bool
  pr_Verified :: bool
  pr_ClientIP :: string
  pr_AmountText :: string
  pr_Reason :: string

datatype balance_result = NoBalance | BalanceFailed string | BalanceNotStored sms_error | BalanceTaken BalanceSnapshot

definition snapshotBalance :: "sms_context \<Rightarrow> place \<Rightarrow> sms_service \<Rightarrow> string \<Rightarrow> balance_result sms" where
  "snapshotBalance x l sv provider =
    (if (case Spec provider of None \<Rightarrow> True | Some spec \<Rightarrow> \<not> Has spec CapBalance) then lift (Inr NoBalance)
     else case sms_adapter sv provider of
       Inl e \<Rightarrow> lift (Inr (BalanceFailed (error_text e)))
     | Inr adapter \<Rightarrow> (case ad_Balance adapter of
         None \<Rightarrow> lift (Inr (BalanceFailed ''no balance reader''))
       | Some (Inl c) \<Rightarrow> lift (Inr (BalanceFailed (snd c)))
       | Some (Inr a) \<Rightarrow>
           let snap = \<lparr>bs_ID = [], bs_Provider = provider, bs_AmountText = a, bs_Currency = [], TakenAt = sx_now x\<rparr> in
           scatch (sql x l (SaveBalanceSnapshot (sx_numeric x) (sx_id x l) snap)) (\<lambda>res. case res of
             Inl e \<Rightarrow> lift (Inr (BalanceNotStored e))
           | Inr i \<Rightarrow> lift (Inr (BalanceTaken (snap\<lparr>bs_ID := i\<rparr>))))))"

definition probe_result :: "string \<Rightarrow> ProbeResult" where
  "probe_result provider = \<lparr>pr_Provider = provider, pr_Skipped = False, pr_Verified = False, pr_ClientIP = [], pr_AmountText = [], pr_Reason = []\<rparr>"

definition probe_provider :: "sms_context \<Rightarrow> place \<Rightarrow> sms_service \<Rightarrow> string \<Rightarrow> ProbeResult sms" where
  "probe_provider x l sv provider =
    (let result = probe_result provider in
     sbind (sql x (l @ [0]) (get_status provider)) (\<lambda>status.
     if \<not> ps_Enabled status then lift (Inr (result\<lparr>pr_Skipped := True, pr_Reason := ''not enabled''\<rparr>))
     else scatch (TestConnection x (l @ [1]) sv provider) (\<lambda>test. case test of
       Inl testErr \<Rightarrow> lift (Inr (result\<lparr>pr_Reason := ''connection test failed: '' @ error_text testErr\<rparr>))
     | Inr verified \<Rightarrow>
         let result = result\<lparr>pr_ClientIP := ps_ClientIP verified, pr_Verified := Verified verified\<rparr> in
         sbind (snapshotBalance x (l @ [2]) sv provider) (\<lambda>b. case b of
           NoBalance \<Rightarrow> lift (Inr result)
         | BalanceFailed reason \<Rightarrow> lift (Inr (result\<lparr>pr_Reason := reason\<rparr>))
         | BalanceNotStored e \<Rightarrow> lift (Inl e)
         | BalanceTaken snap \<Rightarrow> lift (Inr (result\<lparr>pr_AmountText := bs_AmountText snap\<rparr>))))))"

fun probe_all :: "sms_context \<Rightarrow> nat \<Rightarrow> sms_service \<Rightarrow> ProbeResult list \<Rightarrow> string list \<Rightarrow> ProbeResult list sms" where
  "probe_all x i sv done [] = lift (Inr done)"
| "probe_all x i sv done (p # ps) = sbind (probe_provider x [i] sv p) (\<lambda>r. probe_all x (i + 1) sv (done @ [r]) ps)"

definition ProbeOnce :: "sms_context \<Rightarrow> sms_service \<Rightarrow> ProbeResult list sms" where
  "ProbeOnce x sv = probe_all x 0 sv [] (service_order sv)"

section \<open>Reconciling a balance (reconcile.go)\<close>

abbreviation "AlertBalanceLow \<equiv> ''balance_low''"
abbreviation "AlertUnknownStale \<equiv> ''operation_unknown_stale''"
abbreviation "AlertRentExpiring \<equiv> ''rent_expiring''"
abbreviation "AlertBalanceDrift \<equiv> ''balance_drift''"
abbreviation "SmsWarning \<equiv> ''warning''"
abbreviation "SmsCritical \<equiv> ''critical''"

definition alertFingerprint :: "string \<Rightarrow> string \<Rightarrow> string \<Rightarrow> string" where
  "alertFingerprint kind provider subject = kind @ ''|'' @ provider @ ''|'' @ subject"

definition sms_alert :: "string \<Rightarrow> string \<Rightarrow> string \<Rightarrow> string \<Rightarrow> AlertEvent" where
  "sms_alert kind provider subject severity = \<lparr>ae_ID = [], ae_Kind = kind, ae_Provider = provider, ae_Subject = subject, ae_Severity = severity,
     ae_Fingerprint = alertFingerprint kind provider subject, ae_FirstSeenAt = 0, ae_LastSeenAt = 0, ae_ResolvedAt = 0\<rparr>"

text \<open>\<open>DefaultReconcileTolerance\<close>, as the number its text 0.05 denotes.\<close>

definition reconcile_tolerance :: rat where "reconcile_tolerance = 1 / 20"

text \<open>The comparable row of the summaries: none when there are no costs; the outer none stops.\<close>

fun comparable_row :: "string \<Rightarrow> CostSummary option \<Rightarrow> CostSummary list \<Rightarrow> CostSummary option option" where
  "comparable_row currency c [] = Some c"
| "comparable_row currency c (row # rows) =
    (if cs_Count row = 0 then comparable_row currency c rows
     else if cs_Currency row \<noteq> currency then None
     else if cs_UnknownCount row > 0 then None
     else comparable_row currency (Some row) rows)"

definition drifted :: "rat \<Rightarrow> rat \<Rightarrow> rat \<Rightarrow> bool" where
  "drifted before after spent =
    (let actual = after - before; expected = - spent; drift = actual - expected in
     \<not> (drift \<ge> 0 \<or> - drift \<le> reconcile_tolerance))"

definition reconcileBalance :: "sms_context \<Rightarrow> place \<Rightarrow> string \<Rightarrow> AlertEvent list sms" where
  "reconcileBalance x l provider =
    sbind (sql x (l @ [0]) (reading (ListRecentBalanceSnapshots provider 2))) (\<lambda>ss. case ss of
      latest # previous # _ \<Rightarrow>
        sbind (sql x (l @ [1]) (reading (SumCostEventsByCurrency (sx_numeric x) provider (TakenAt previous) (TakenAt latest)))) (\<lambda>summaries.
        case comparable_row (bs_Currency latest) None summaries of
          None \<Rightarrow> lift (Inr [])
        | Some c \<Rightarrow>
            let spent = (case c of None \<Rightarrow> 0 | Some row \<Rightarrow> cs_Sum row) in
            (case (sx_numeric x (bs_AmountText previous), sx_numeric x (bs_AmountText latest)) of
               (Some before, Some after) \<Rightarrow>
                 lift (Inr (if drifted before after spent then [sms_alert AlertBalanceDrift provider provider SmsWarning] else []))
             | _ \<Rightarrow> lift (Inr [])))
    | _ \<Rightarrow> lift (Inr []))"

section \<open>Alerts (alerts.go)\<close>

definition DefaultUnknownGrace :: duration where "DefaultUnknownGrace = 1800000000000"
definition DefaultRentExpiryLead :: duration where "DefaultRentExpiryLead = 3600000000000"

definition sms_SetBalanceThreshold :: "sms_context \<Rightarrow> sms_service \<Rightarrow> string \<Rightarrow> string \<Rightarrow> BalanceThreshold sms" where
  "sms_SetBalanceThreshold x sv provider0 minAmount0 =
    (let provider = trim_space provider0; minAmount = trim_space minAmount0;
         t = \<lparr>bt_Provider = provider, MinAmountText = minAmount, bt_UpdatedAt = sx_now x\<rparr> in
     if map_of (rev (sv_providers sv)) provider = None then lift (Inl SmsAlertConfigInvalid)
     else if minAmount = [] then sbind (sql x [0] (RemoveBalanceThreshold provider)) (\<lambda>_. lift (Inr (t\<lparr>bt_UpdatedAt := 0\<rparr>)))
     else if \<not> unit_price minAmount then lift (Inl SmsAlertConfigInvalid)
     else sbind (sql x [0] (SaveBalanceThreshold (sx_numeric x) t)) (\<lambda>_. lift (Inr t)))"

definition balance_low :: "(string \<Rightarrow> rat option) \<Rightarrow> BalanceSnapshot list \<Rightarrow> BalanceThreshold \<Rightarrow> bool" where
  "balance_low numeric snaps t =
    (case find (\<lambda>s. bs_Provider s = bt_Provider t) (rev snaps) of None \<Rightarrow> False
     | Some snap \<Rightarrow> (case (numeric (bs_AmountText snap), numeric (MinAmountText t)) of
         (Some a, Some m) \<Rightarrow> a \<ge> 0 \<and> m \<ge> 0 \<and> a < m
       | _ \<Rightarrow> False))"

definition evaluateBalances :: "sms_context \<Rightarrow> place \<Rightarrow> AlertEvent list sms" where
  "evaluateBalances x l =
    sbind (sql x (l @ [0]) (reading ListBalanceThresholds)) (\<lambda>ts.
    if ts = [] then lift (Inr [])
    else sbind (sql x (l @ [1]) (reading LatestBalanceSnapshots)) (\<lambda>snaps.
      lift (Inr (map (\<lambda>t. sms_alert AlertBalanceLow (bt_Provider t) (bt_Provider t) SmsWarning) (filter (balance_low (sx_numeric x) snaps) ts)))))"

definition stale_alert :: "Operation \<Rightarrow> AlertEvent" where
  "stale_alert op = sms_alert AlertUnknownStale (so_Provider op) (so_ID op) SmsCritical"

definition expiring_alert :: "Resource \<Rightarrow> AlertEvent" where
  "expiring_alert r = sms_alert AlertRentExpiring (sn_Provider r) (sn_ID r) SmsWarning"

fun reconcile_all :: "sms_context \<Rightarrow> nat \<Rightarrow> AlertEvent list \<Rightarrow> string list \<Rightarrow> AlertEvent list sms" where
  "reconcile_all x i done [] = lift (Inr done)"
| "reconcile_all x i done (p # ps) = sbind (reconcileBalance x [3, i] p) (\<lambda>es. reconcile_all x (i + 1) (done @ es) ps)"

fun save_alerts :: "sms_context \<Rightarrow> nat \<Rightarrow> AlertEvent list \<Rightarrow> AlertEvent list \<Rightarrow> AlertEvent list sms" where
  "save_alerts x i done [] = lift (Inr done)"
| "save_alerts x i done (e # es) =
    (let e = e\<lparr>ae_FirstSeenAt := sx_now x, ae_LastSeenAt := sx_now x\<rparr> in
     sbind (sql x [4, i] (UpsertAlertEvent (sx_id x [4, i]) e)) (\<lambda>n. save_alerts x (i + 1) (done @ [e\<lparr>ae_ID := n\<rparr>]) es))"

definition firing_alerts :: "sms_context \<Rightarrow> sms_service \<Rightarrow> AlertEvent list sms" where
  "firing_alerts x sv =
    sbind (evaluateBalances x [0]) (\<lambda>low.
    sbind (sql x [1] (reading (ListStaleUnknownOperations (sx_now x - DefaultUnknownGrace)))) (\<lambda>stale.
    sbind (sql x [2] (reading (ListExpiringRentals (sx_now x) (sx_now x + DefaultRentExpiryLead)))) (\<lambda>expiring.
    reconcile_all x 0 (low @ map stale_alert stale @ map expiring_alert expiring) (service_order sv))))"

definition EvaluateAlerts :: "sms_context \<Rightarrow> sms_service \<Rightarrow> AlertEvent list sms" where
  "EvaluateAlerts x sv =
    sbind (firing_alerts x sv) (\<lambda>firing.
    sbind (save_alerts x 0 [] (sort_key ae_Fingerprint firing)) (\<lambda>saved.
    sbind (sql x [5] (ResolveAlertEventsNotIn (map ae_Fingerprint saved) (sx_now x))) (\<lambda>_.
    lift (Inr saved))))"

end
