(* ===== verification/Sms_Laws.thy ===== *)
theory Sms_Laws
  imports Sms_Alerts
begin

text \<open>
  The ledger of the centre. Every operation of the service, run among arbitrary other processes, is a
  sequence of the statements of the step relation \<open>sms_stmt\<close>, and no sequence of statements sends an
  operation upstream twice, leaves two unsettled operations for one request, or sends one that is not
  in the ledger any more.
\<close>

section \<open>The statements\<close>

definition settled_op :: "Operation \<Rightarrow> bool" where
  "settled_op op \<longleftrightarrow> so_State op \<noteq> StatePrepared \<and> so_State op \<noteq> StateSubmitted"

definition same_ledger :: "SmsDB \<Rightarrow> SmsDB \<Rightarrow> bool" where
  "same_ledger a b \<longleftrightarrow> operations b = operations a \<and> calls b = calls a"

definition send :: "string \<Rightarrow> time \<Rightarrow> string \<Rightarrow> unit sms" where
  "send i t provider = sbind (MarkSubmitted i t) (\<lambda>_. send_call i provider)"

inductive sms_stmt :: "SmsDB \<Rightarrow> SmsDB \<Rightarrow> bool" where
  stmt_prepare: "sms_stmt db (fst (PrepareOperation op db))"
| stmt_send: "sms_stmt db (fst (send i t provider db))"
| stmt_resolve: "settled_op op \<Longrightarrow> sms_stmt db (fst (ResolveOperation op db))"
| stmt_recover_prepared: "sms_stmt db (recover_prepared t db)"
| stmt_recover_submitted: "sms_stmt db (recover_submitted t db)"
| stmt_other: "same_ledger db db' \<Longrightarrow> sms_stmt db db'"

abbreviation sms_stmts :: "SmsDB \<Rightarrow> SmsDB \<Rightarrow> bool" where
  "sms_stmts \<equiv> sms_stmt\<^sup>*\<^sup>*"

section \<open>Operations of the service are sequences of statements\<close>

text \<open>A context whose other processes are sequences of statements too.\<close>

definition fair :: "sms_context \<Rightarrow> bool" where
  "fair x \<longleftrightarrow> (\<forall>k db. sms_stmts db (sx_other x k db))"

definition runs :: "'a sms \<Rightarrow> bool" where
  "runs m \<longleftrightarrow> (\<forall>db. sms_stmts db (fst (m db)))"

named_theorems runs_rules

lemma runs_lift [runs_rules]: "runs (lift r)"
  by (simp add: runs_def lift_def)

lemma runs_return [runs_rules]: "runs (sreturn r)"
  by (simp add: runs_def sreturn_def)

lemma runs_sbind [runs_rules]: "runs m \<Longrightarrow> (\<And>a. runs (k a)) \<Longrightarrow> runs (sbind m k)"
  unfolding runs_def sbind_def by (auto split: prod.splits sum.splits) (metis fst_conv rtranclp_trans)+

lemma runs_scatch [runs_rules]: "runs m \<Longrightarrow> (\<And>a. runs (k a)) \<Longrightarrow> runs (scatch m k)"
  unfolding runs_def scatch_def by (auto split: prod.splits) (metis fst_conv rtranclp_trans)

definition stays :: "'a sms \<Rightarrow> bool" where
  "stays f \<longleftrightarrow> (\<forall>db. sms_stmt db (fst (f db)))"

lemma runs_sql [runs_rules]:
  assumes "fair x" "stays f"
  shows "runs (sql x l f)"
  using assms unfolding runs_def sql_def fair_def stays_def
  by (auto intro: rtranclp.rtrancl_into_rtrancl)

named_theorems stays_rules

lemma stays_other: "(\<And>db. same_ledger db (fst (f db))) \<Longrightarrow> stays f"
  by (simp add: stays_def stmt_other)

lemma stays_reading [stays_rules]: "stays (reading f)"
  by (rule stays_other) (simp add: reading_def same_ledger_def)

lemma stays_prepare [stays_rules]: "stays (PrepareOperation op)"
  by (simp add: stays_def stmt_prepare)

lemma stays_send [stays_rules]: "stays (\<lambda>db. sbind (MarkSubmitted i t) (\<lambda>_. send_call i provider) db)"
  using stmt_send by (simp add: stays_def send_def)

lemma stays_resolve [stays_rules]: "settled_op op \<Longrightarrow> stays (ResolveOperation op)"
  by (simp add: stays_def stmt_resolve)

lemma stays_GetOperation [stays_rules]: "stays (GetOperation i)"
  and stays_GetResource [stays_rules]: "stays (GetResource i)"
  and stays_GetEmail [stays_rules]: "stays (GetEmail i)"
  and stays_get_status [stays_rules]: "stays (get_status p)"
  by (rule stays_other; simp add: GetOperation_def GetResource_def GetEmail_def get_status_def same_ledger_def split: option.splits)+

lemma stays_UpsertResource [stays_rules]: "stays (UpsertResource n t r)"
  by (rule stays_other) (auto simp: UpsertResource_def same_ledger_def split: option.splits sum.splits)

lemma stays_UpsertOrder [stays_rules]: "stays (UpsertOrder n d)"
  and stays_RecordCode [stays_rules]: "stays (RecordCode n c)"
  and stays_UpsertEmail [stays_rules]: "stays (UpsertEmail n t e)"
  and stays_Touch [stays_rules]: "stays (TouchResourceCodeAt i t)"
  and stays_SetResourceState [stays_rules]: "stays (SetResourceState i st)"
  by (rule stays_other; auto simp: UpsertOrder_def RecordCode_def UpsertEmail_def TouchResourceCodeAt_def SetResourceState_def same_ledger_def Let_def
    split: option.splits)+

lemma stays_SaveProviderStatus [stays_rules]: "stays (SaveProviderStatus st)"
  and stays_SetProviderEnabled [stays_rules]: "stays (pg_SetProviderEnabled p e t)"
  and stays_SaveBalanceSnapshot [stays_rules]: "stays (SaveBalanceSnapshot num n s)"
  and stays_SaveConsumerQuota [stays_rules]: "stays (SaveConsumerQuota num q)"
  and stays_RemoveConsumerQuota [stays_rules]: "stays (pg_RemoveConsumerQuota c)"
  and stays_UpsertRoutingRule [stays_rules]: "stays (UpsertRoutingRule n r)"
  and stays_RemoveRoutingRule [stays_rules]: "stays (pg_RemoveRoutingRule i)"
  by (rule stays_other; auto simp: SaveProviderStatus_def pg_SetProviderEnabled_def put_status_def SaveBalanceSnapshot_def SaveConsumerQuota_def
    pg_RemoveConsumerQuota_def UpsertRoutingRule_def pg_RemoveRoutingRule_def same_ledger_def Let_def split: option.splits)+

lemma stays_alerts [stays_rules]: "stays (SaveBalanceThreshold num b)" "stays (RemoveBalanceThreshold p)" "stays (UpsertAlertEvent n e)"
    "stays (ResolveAlertEventsNotIn fps t)"
  by (rule stays_other; auto simp: SaveBalanceThreshold_def RemoveBalanceThreshold_def UpsertAlertEvent_def ResolveAlertEventsNotIn_def same_ledger_def Let_def
    split: option.splits)+

lemma stays_cost [stays_rules]: "stays (\<lambda>db. case append_cost num i ev db of None \<Rightarrow> (db, Inl SmsStore) | Some db' \<Rightarrow> (db', Inr ()))"
  by (rule stays_other) (auto simp: append_cost_def same_ledger_def split: option.splits if_splits)

lemma stays_recover [stays_rules]: "stays (\<lambda>db. (recover_prepared t db, f db))" "stays (\<lambda>db. (recover_submitted t db, f db))"
  by (simp_all add: stays_def stmt_recover_prepared stmt_recover_submitted)

lemma runs_NotifyCode [runs_rules]: "runs (NotifyCode sv c p ph code)"
  unfolding runs_def NotifyCode_def by (auto intro!: r_into_rtranclp stmt_other simp: same_ledger_def)

lemma runs_cases [runs_rules]:
  "(b \<Longrightarrow> runs m) \<Longrightarrow> (\<not> b \<Longrightarrow> runs m') \<Longrightarrow> runs (if b then m else m')"
  "(\<And>e. runs (f e)) \<Longrightarrow> (\<And>a. runs (g a)) \<Longrightarrow> runs (case s of Inl e \<Rightarrow> f e | Inr a \<Rightarrow> g a)"
  "runs n \<Longrightarrow> (\<And>a. runs (g a)) \<Longrightarrow> runs (case opt of None \<Rightarrow> n | Some a \<Rightarrow> g a)"
  "(\<And>a b. runs (h a b)) \<Longrightarrow> runs (case p of (a, b) \<Rightarrow> h a b)"
  by (auto split: sum.splits option.splits prod.splits)

lemma runs_list [runs_rules]: "runs n \<Longrightarrow> (\<And>a as. runs (l a as)) \<Longrightarrow> runs (case xs of [] \<Rightarrow> n | a # as \<Rightarrow> l a as)"
  by (cases xs) auto

lemma settled_simps [simp]:
  "settled_op (settled_failure t op c)" "settled_op (as_unknown t r op)" "settled_op (reviewed t op b i n)"
  "settled_op (op\<lparr>so_State := StateSucceeded, so_UpdatedAt := t\<rparr>)"
  by (auto simp: settled_op_def settled_failure_def as_unknown_def reviewed_def)


lemma stays_split [stays_rules]: "stays f \<Longrightarrow> stays (\<lambda>db. f db)"
  by simp

lemma runs_requireVerified [runs_rules]: "fair x \<Longrightarrow> runs (requireVerified x l p)"
  unfolding requireVerified_def by (intro runs_rules stays_rules)

lemma runs_costs [runs_rules]: "fair x \<Longrightarrow> runs (recordCosts x l evs)"
proof -
  assume "fair x"
  then have "runs (AppendCostEvents x l i evs)" for i
    by (induction evs arbitrary: i) (auto intro!: runs_rules stays_rules)
  then show ?thesis unfolding recordCosts_def by (intro runs_rules)
qed

lemma runs_submit [runs_rules]: "fair x \<Longrightarrow> runs (submit x l op)"
  unfolding submit_def by (intro runs_rules stays_rules)

lemma runs_settle [runs_rules]: "fair x \<Longrightarrow> runs (settleFailure x l op c)" "fair x \<Longrightarrow> runs (settleUnknownAfterSuccess x l op r)"
  unfolding settleFailure_def settleUnknownAfterSuccess_def by (intro runs_rules stays_rules; simp)+

lemma runs_numbers [runs_rules]: "fair x \<Longrightarrow> runs (save_numbers x l i op ids rs)" "fair x \<Longrightarrow> runs (ledger_numbers x i op done rs)"
   "fair x \<Longrightarrow> runs (import_numbers x i p d done rs)"
proof -
  assume f: "fair x"
  show "runs (save_numbers x l i op ids rs)"
    by (induction rs arbitrary: i op ids) (simp_all add: runs_rules stays_rules f split: sum.splits)
  show "runs (ledger_numbers x i op done rs)"
    by (induction rs arbitrary: i op "done") (simp_all add: runs_rules stays_rules f store_number_def)
  show "runs (import_numbers x i p d done rs)"
    by (induction rs arbitrary: i "done") (simp_all add: runs_rules stays_rules f Let_def)
qed

lemma runs_emails [runs_rules]: "fair x \<Longrightarrow> runs (ledger_emails x i op done es)"
  by (induction es arbitrary: i op "done") (simp_all add: runs_rules stays_rules store_email_def)

lemma runs_purchase [runs_rules]: "fair x \<Longrightarrow> runs (purchase x l sv i p inp)"
  unfolding purchase_def after_purchase_def finish_purchase_def saveOrder_def Let_def
  by (intro runs_rules stays_rules; simp)


lemma runs_operations [runs_rules]:
  assumes "fair x"
  shows "runs (TestConnection x l sv p)" "runs (SetProviderEnabled x sv p b)" "runs (sms_Purchase x sv i p inp)"
    "runs (sms_ExecuteAction x sv i kind n d)" "runs (sms_FetchCode x sv n)" "runs (sms_Resolve x i b n note)"
    "runs (RecoverStaleOperations x)" "runs (sms_Hero x l sv p)" "runs (runLedger x op r)"
  unfolding TestConnection_def SetProviderEnabled_def sms_Purchase_def sms_ExecuteAction_def after_action_def finish_action_def sms_FetchCode_def
    sms_Resolve_def RecoverStaleOperations_def sms_Hero_def runLedger_def after_ledger_def Let_def
  using assms by - (intro runs_rules stays_rules; simp)+

lemma runs_extras [runs_rules]:
  assumes "fair x"
  shows "runs (sms_Rent x sv i p rin)" "runs (sms_PurchaseEmails x sv i p site dmn cnt serv)" "runs (sms_EmailAction x sv i kind e)"
    "runs (sms_RefreshEmail x sv e)" "runs (sms_ImportUpstream x sv p ref)" "runs (sms_SetRoutingRule x sv rule)" "runs (sms_RemoveRoutingRule x i)"
    "runs (sms_SetConsumerQuota x q)" "runs (sms_RemoveConsumerQuota x c)" "runs (sms_SetBalanceThreshold x sv p m)"
  unfolding sms_Rent_def sms_PurchaseEmails_def sms_EmailAction_def sms_RefreshEmail_def sms_ImportUpstream_def sms_SetRoutingRule_def
    sms_RemoveRoutingRule_def sms_SetConsumerQuota_def sms_RemoveConsumerQuota_def sms_SetBalanceThreshold_def Let_def
  using assms by - (intro runs_rules stays_rules; assumption)+

lemma runs_settleRequest [runs_rules]: "fair x \<Longrightarrow> runs (settleRequest x l out p op ids)"
  unfolding settleRequest_def Let_def by (intro runs_rules stays_rules)

lemma runs_try_providers [runs_rules]: "fair x \<Longrightarrow> runs (try_providers x n sv i inp cap out ps)"
proof (induction ps arbitrary: n out)
  case (Cons p ps)
  have "runs (try_provider x l sv i inp cap out p)" for l out
    using Cons.prems unfolding try_provider_def Let_def by (intro runs_rules stays_rules)
  with Cons show ?case by (auto intro!: runs_rules)
qed (simp add: runs_rules)

lemma runs_request [runs_rules]:
  assumes "fair x"
  shows "runs (RequestNumber x sv i inp)"
proof -
  have "runs (hasPriorAttempt x n j ps)" for n j ps
    by (induction ps arbitrary: n) (auto intro!: runs_rules stays_rules assms split: sum.splits)
  moreover have "runs (checkQuota x l w)" for l w
    unfolding checkQuota_def by (intro runs_rules stays_rules assms)
  moreover have "runs (sms_Route x l sv a b c)" for l a b c
    unfolding sms_Route_def Let_def by (intro runs_rules stays_rules assms)
  ultimately show ?thesis
    unfolding RequestNumber_def Let_def using assms by (auto intro!: runs_rules)
qed

lemma runs_probe [runs_rules]:
  assumes "fair x"
  shows "runs (ProbeOnce x sv)"
proof -
  have "runs (snapshotBalance x l sv p)" for l p
    unfolding snapshotBalance_def Let_def
    by (auto intro!: runs_rules stays_rules assms split: option.splits sum.splits)
  then have "runs (probe_provider x l sv p)" for l p
    unfolding probe_provider_def Let_def
    by (auto intro!: runs_rules stays_rules assms split: sum.splits balance_result.splits)
  then have "runs (probe_all x n sv done ps)" for n "done" ps
    by (induction ps arbitrary: n "done") (auto intro!: runs_rules)
  then show ?thesis by (simp add: ProbeOnce_def)
qed

lemma runs_alerts [runs_rules]:
  assumes "fair x"
  shows "runs (EvaluateAlerts x sv)"
proof -
  have "runs (reconcileBalance x l p)" for l p
    unfolding reconcileBalance_def Let_def
    by (auto intro!: runs_rules stays_rules assms split: list.splits option.splits)
  then have rec: "runs (reconcile_all x n done ps)" for n "done" ps
    by (induction ps arbitrary: n "done") (auto intro!: runs_rules)
  have save: "runs (save_alerts x n done es)" for n "done" es
    by (induction es arbitrary: n "done") (auto intro!: runs_rules stays_rules assms simp: Let_def)
  have "runs (evaluateBalances x l)" for l
    unfolding evaluateBalances_def by (intro runs_rules stays_rules assms)
  with rec save show ?thesis
    unfolding EvaluateAlerts_def firing_alerts_def by (auto intro!: runs_rules stays_rules assms)
qed

section \<open>Histories of calls\<close>

datatype sms_command =
    CmdTest string
  | CmdEnable string bool
  | CmdPurchase string string PurchaseInput
  | CmdRequest string RequestInput
  | CmdAction string string string int64
  | CmdFetchCode string
  | CmdResolve string bool string string
  | CmdRecover
  | CmdRent string string RentInput
  | CmdPurchaseEmails string string string string int64 string
  | CmdEmailAction string string string
  | CmdRefreshEmail string
  | CmdImport string string
  | CmdSetRule RoutingRule
  | CmdRemoveRule string
  | CmdSetQuota ConsumerQuota
  | CmdRemoveQuota string
  | CmdSetThreshold string string
  | CmdProbe
  | CmdAlerts

fun sms_run :: "sms_context \<Rightarrow> sms_service \<Rightarrow> sms_command \<Rightarrow> SmsDB \<Rightarrow> SmsDB" where
  "sms_run x sv (CmdTest p) db = fst (TestConnection x [] sv p db)"
| "sms_run x sv (CmdEnable p b) db = fst (SetProviderEnabled x sv p b db)"
| "sms_run x sv (CmdPurchase i p inp) db = fst (sms_Purchase x sv i p inp db)"
| "sms_run x sv (CmdRequest i inp) db = fst (RequestNumber x sv i inp db)"
| "sms_run x sv (CmdAction i kind n d) db = fst (sms_ExecuteAction x sv i kind n d db)"
| "sms_run x sv (CmdFetchCode n) db = fst (sms_FetchCode x sv n db)"
| "sms_run x sv (CmdResolve i b n note) db = fst (sms_Resolve x i b n note db)"
| "sms_run x sv CmdRecover db = fst (RecoverStaleOperations x db)"
| "sms_run x sv (CmdRent i p inp) db = fst (sms_Rent x sv i p inp db)"
| "sms_run x sv (CmdPurchaseEmails i p site domain n service) db = fst (sms_PurchaseEmails x sv i p site domain n service db)"
| "sms_run x sv (CmdEmailAction i kind e) db = fst (sms_EmailAction x sv i kind e db)"
| "sms_run x sv (CmdRefreshEmail e) db = fst (sms_RefreshEmail x sv e db)"
| "sms_run x sv (CmdImport p ref) db = fst (sms_ImportUpstream x sv p ref db)"
| "sms_run x sv (CmdSetRule r) db = fst (sms_SetRoutingRule x sv r db)"
| "sms_run x sv (CmdRemoveRule i) db = fst (sms_RemoveRoutingRule x i db)"
| "sms_run x sv (CmdSetQuota q) db = fst (sms_SetConsumerQuota x q db)"
| "sms_run x sv (CmdRemoveQuota c) db = fst (sms_RemoveConsumerQuota x c db)"
| "sms_run x sv (CmdSetThreshold p m) db = fst (sms_SetBalanceThreshold x sv p m db)"
| "sms_run x sv CmdProbe db = fst (ProbeOnce x sv db)"
| "sms_run x sv CmdAlerts db = fst (EvaluateAlerts x sv db)"

fun sms_history :: "(sms_context \<times> sms_service \<times> sms_command) list \<Rightarrow> SmsDB \<Rightarrow> SmsDB" where
  "sms_history [] db = db"
| "sms_history ((x, sv, cmd) # h) db = sms_history h (sms_run x sv cmd db)"

lemma runsD: "runs m \<Longrightarrow> sms_stmts db (fst (m db))"
  by (simp add: runs_def)

lemma sms_run_stmts: "fair x \<Longrightarrow> sms_stmts db (sms_run x sv cmd db)"
  by (cases cmd) (auto intro!: runsD runs_rules)

lemma sms_history_stmts: "list_all (\<lambda>(x, _). fair x) h \<Longrightarrow> sms_stmts db (sms_history h db)"
  by (induction h db rule: sms_history.induct) (auto intro: rtranclp_trans sms_run_stmts)

section \<open>The invariant of the ledger\<close>

definition ledger_ok :: "SmsDB \<Rightarrow> bool" where
  "ledger_ok db \<longleftrightarrow> distinct (map so_ID (operations db))
     \<and> (\<forall>a \<in> set (operations db). \<forall>b \<in> set (operations db). so_ID a \<noteq> so_ID b \<longrightarrow> \<not> pending_clash a b)
     \<and> distinct (map fst (calls db))
     \<and> (\<forall>c \<in> set (calls db). \<exists>r \<in> set (operations db). so_ID r = fst c \<and> so_State r \<noteq> StatePrepared)"

lemma pending_clash_sym: "pending_clash a b \<longleftrightarrow> pending_clash b a"
  by (auto simp: pending_clash_def)

lemma ledger_ok_prepare:
  assumes "ledger_ok db"
  shows "ledger_ok (fst (PrepareOperation op db))"
proof (cases "operations (fst (PrepareOperation op db)) = operations db")
  case True
  then show ?thesis using assms
    by (auto simp: ledger_ok_def PrepareOperation_def split: if_splits)
next
  case False
  have row: "so_ID (op_row op) = so_ID op" "so_State (op_row op) = StatePrepared" by (simp_all add: op_row_def)
  from False have new: "fst (PrepareOperation op db) = db\<lparr>operations := operations db @ [op_row op]\<rparr>"
    "\<not> list_ex (\<lambda>r. so_ID r = so_ID op) (operations db)" "\<not> list_ex (pending_clash (op_row op)) (operations db)"
    by (auto simp: PrepareOperation_def split: if_splits)
  from new(2) have fresh: "so_ID op \<notin> so_ID ` set (operations db)" by (auto simp: list_ex_iff)
  from new(3) have free: "\<forall>r \<in> set (operations db). \<not> pending_clash (op_row op) r \<and> \<not> pending_clash r (op_row op)"
    by (auto simp: list_ex_iff pending_clash_sym)
  show ?thesis using assms fresh free unfolding ledger_ok_def new(1) by (auto simp: row)
qed

text \<open>A statement that changes rows one by one.\<close>

lemma ledger_ok_map:
  assumes ok: "ledger_ok db" and ops: "operations db' = map f (operations db)" and same: "calls db' = calls db"
    and key: "\<And>r. so_ID (f r) = so_ID r"
    and clash: "\<And>a b. a \<in> set (operations db) \<Longrightarrow> b \<in> set (operations db) \<Longrightarrow> so_ID a \<noteq> so_ID b \<Longrightarrow> pending_clash (f a) (f b) \<Longrightarrow> pending_clash a b"
    and sent: "\<And>r. r \<in> set (operations db) \<Longrightarrow> so_State r \<noteq> StatePrepared \<Longrightarrow> so_State (f r) \<noteq> StatePrepared"
  shows "ledger_ok db'"
  unfolding ledger_ok_def
proof (intro conjI)
  have "so_ID \<circ> f = so_ID" using key by (simp add: comp_def)
  then show "distinct (map so_ID (operations db'))" using ok unfolding ops ledger_ok_def by simp
  show "\<forall>a \<in> set (operations db'). \<forall>b \<in> set (operations db'). so_ID a \<noteq> so_ID b \<longrightarrow> \<not> pending_clash a b"
    using ok clash key unfolding ops ledger_ok_def by auto
  show "distinct (map fst (calls db'))" using ok unfolding same ledger_ok_def by simp
  show "\<forall>c \<in> set (calls db'). \<exists>r \<in> set (operations db'). so_ID r = fst c \<and> so_State r \<noteq> StatePrepared"
    using ok sent key unfolding ops same ledger_ok_def by fastforce
qed

lemma ledger_ok_recover:
  assumes "ledger_ok db"
  shows "ledger_ok (recover_prepared t db)" "ledger_ok (recover_submitted t db)"
  by (rule ledger_ok_map [OF assms, where f = "prepared_failed t"];
      auto simp: recover_prepared_def prepared_failed_def pending_clash_def Pending_def split: if_splits)
    (rule ledger_ok_map [OF assms, where f = "submitted_unknown t"];
      auto simp: recover_submitted_def submitted_unknown_def pending_clash_def Pending_def split: if_splits)

lemma ledger_ok_resolve:
  assumes ok: "ledger_ok db" and settled: "settled_op op"
  shows "ledger_ok (fst (ResolveOperation op db))"
proof (cases "fst (ResolveOperation op db) = db")
  case False
  then obtain r where r: "find (\<lambda>r. so_ID r = so_ID op) (operations db) = Some r"
    and free: "\<not> list_ex (\<lambda>q. so_ID q \<noteq> so_ID op \<and> pending_clash (resolve_op op r) q) (operations db)"
    and new: "fst (ResolveOperation op db) = map_op (so_ID op) (resolve_op op) db"
    unfolding ResolveOperation_def by (auto split: option.splits if_splits)
  from r have rin: "r \<in> set (operations db)" and rid: "so_ID r = so_ID op" by (auto simp: find_Some_iff)
  have only: "q = r" if "q \<in> set (operations db)" "so_ID q = so_ID op" for q
    using ok that rin rid unfolding ledger_ok_def by (auto simp: distinct_map inj_on_def)
  let ?f = "\<lambda>q. if so_ID q = so_ID op then resolve_op op q else q"
  have idf: "so_ID (?f q) = so_ID q" for q by (simp add: resolve_op_def)
  show ?thesis unfolding new
  proof (rule ledger_ok_map [OF ok, where f = ?f])
    show "operations (map_op (so_ID op) (resolve_op op) db) = map ?f (operations db)" by (simp add: map_op_def)
    show "calls (map_op (so_ID op) (resolve_op op) db) = calls db" by (simp add: map_op_def)
    show "so_ID (?f q) = so_ID q" for q by (rule idf)
    show "so_State (?f q) \<noteq> StatePrepared" if "so_State q \<noteq> StatePrepared" for q
      using that settled by (simp add: settled_op_def resolve_op_def)
    fix a b assume ab: "a \<in> set (operations db)" "b \<in> set (operations db)" "so_ID a \<noteq> so_ID b" "pending_clash (?f a) (?f b)"
    show "pending_clash a b"
    proof (cases "so_ID a = so_ID op")
      case True
      then have "a = r" "so_ID b \<noteq> so_ID op" using only ab by auto
      then show ?thesis using free ab rid by (auto simp: list_ex_iff)
    next
      case na: False
      show ?thesis
      proof (cases "so_ID b = so_ID op")
        case True
        then have "b = r" using only ab by auto
        then show ?thesis using free ab na True rid by (auto simp: list_ex_iff pending_clash_sym)
      qed (use ab na in simp)
    qed
  qed
qed (use ok in simp)

lemma ledger_ok_send:
  assumes ok: "ledger_ok db"
  shows "ledger_ok (fst (send i t provider db))"
proof (cases "list_ex (\<lambda>r. so_ID r = i \<and> so_State r = StatePrepared) (operations db)")
  case True
  then obtain r where r: "r \<in> set (operations db)" "so_ID r = i" "so_State r = StatePrepared" by (auto simp: list_ex_iff)
  let ?f = "\<lambda>r. if so_ID r = i then (if so_State r = StatePrepared then r\<lparr>so_State := StateSubmitted, so_UpdatedAt := t\<rparr> else r) else r"
  let ?m = "map_op i (\<lambda>r. if so_State r = StatePrepared then r\<lparr>so_State := StateSubmitted, so_UpdatedAt := t\<rparr> else r) db"
  have new: "fst (send i t provider db) = ?m\<lparr>calls := calls ?m @ [(i, provider)]\<rparr>"
    using True by (simp add: send_def MarkSubmitted_def send_call_def sbind_def)
  have ops: "operations ?m = map ?f (operations db)" "calls ?m = calls db" by (simp_all add: map_op_def)
  have m: "ledger_ok ?m"
    by (rule ledger_ok_map [OF ok ops]) (auto simp: pending_clash_def Pending_def split: if_splits)
  have unsent: "i \<notin> fst ` set (calls db)"
  proof
    assume "i \<in> fst ` set (calls db)"
    then obtain q where "q \<in> set (operations db)" "so_ID q = i" "so_State q \<noteq> StatePrepared"
      using ok unfolding ledger_ok_def by force
    then show False using r ok unfolding ledger_ok_def by (auto simp: distinct_map inj_on_def)
  qed
  have "?f r \<in> set (operations ?m)" using r(1) unfolding ops by simp
  then have "\<exists>q \<in> set (operations ?m). so_ID q = i \<and> so_State q \<noteq> StatePrepared" using r by (intro bexI [of _ "?f r"]) auto
  then show ?thesis
    using m unsent unfolding new by (auto simp: ledger_ok_def map_op_def)
next
  case False
  then show ?thesis using ok by (simp add: send_def MarkSubmitted_def sbind_def)
qed

lemma ledger_ok_stmt: "sms_stmt db db' \<Longrightarrow> ledger_ok db \<Longrightarrow> ledger_ok db'"
  by (induction rule: sms_stmt.induct)
    (auto simp: ledger_ok_prepare ledger_ok_send ledger_ok_resolve ledger_ok_recover, auto simp: ledger_ok_def same_ledger_def)

lemma ledger_ok_stmts: "sms_stmts db db' \<Longrightarrow> ledger_ok db \<Longrightarrow> ledger_ok db'"
  by (induction rule: rtranclp_induct) (auto intro: ledger_ok_stmt)

section \<open>A sample world\<close>

text \<open>Two providers that both sell; the fingerprint, the identifiers and the numbers are simple functions.\<close>

definition sms_demo_numeric :: "string \<Rightarrow> rat option" where
  "sms_demo_numeric s = (if s \<noteq> [] \<and> all_digits s then Some (of_int (dec_value s)) else None)"

definition sms_demo_context :: "nat \<Rightarrow> sms_context" where
  "sms_demo_context n = \<lparr>sx_now = int n, sx_id = (\<lambda>l. concat (map (\<lambda>i. dec_string i @ ''.'') (n # l))), sx_consumer = [], sx_digest = (\<lambda>s. s),
     sx_numeric = sms_demo_numeric, sx_lower = (\<lambda>s. s), sx_rat = sms_demo_numeric, sx_uuid = (\<lambda>s. s), sx_other = (\<lambda>l db. db), sx_fails = (\<lambda>l. False)\<rparr>"

lemma fair_demo [simp]: "fair (sms_demo_context n)"
  by (simp add: fair_def sms_demo_context_def)

definition sms_demo_number :: "string \<Rightarrow> string \<Rightarrow> Resource" where
  "sms_demo_number i token = \<lparr>sn_ID = [], sn_Provider = [], ExternalID = i, Phone = ''155501'', PhoneMask = ''**5501'', ProviderToken = token,
     sn_Service = ''tg'', sn_Country = ''7'', sn_Status = ''4'', sn_OrderID = [], sn_OperationID = [], LastCodeAt = 0, UpstreamCreatedAt = 0,
     sn_ExpiresAt = 0, sn_SyncedAt = 0, Operator = [], PriceText = ''2'', VerificationType = [], Subtype = 0, CountryPhoneCode = [], sn_State = StateUnmapped\<rparr>"

definition sms_demo_adapter :: "cause + PurchaseOutcome \<Rightarrow> string \<Rightarrow> Adapter" where
  "sms_demo_adapter outcome token = \<lparr>ad_TestConnection = Inr [], ad_ListCatalog = (\<lambda>p c. Inr [\<lparr>it_ID = ''9'', it_Name = ''tg'', it_Country = [], DefaultPrice = ''2'', Available = 5\<rparr>]),
     ad_Purchase = (\<lambda>_. outcome), ad_Import = (\<lambda>_. Inr [sms_demo_number ''n2'' token]), ad_FetchCode = (\<lambda>_. Inl SmsCodeNotAvailable),
     ad_Execute = (\<lambda>_ r _. Inr r), ad_IsHero = False, ad_Rent = (\<lambda>_. Inl (OtherError, [])), ad_PurchaseEmail = (\<lambda>_ _. Inl (OtherError, [])),
     ad_PurchaseEmailBatch = (\<lambda>_ _ _ _. Inr []), ad_ListEmails = Inr [], ad_GetEmail = (\<lambda>_. Inl (OtherError, [])), ad_CancelEmail = (\<lambda>_. Inr ()),
     ad_ReorderEmail = (\<lambda>_. Inl (OtherError, [])), ad_Balance = None\<rparr>"

definition sms_demo_service :: "cause + PurchaseOutcome \<Rightarrow> cause + PurchaseOutcome \<Rightarrow> sms_service" where
  "sms_demo_service hero sms62 = \<lparr>sv_providers = [(ProviderHero, sms_demo_adapter hero []), (ProviderSMS62, sms_demo_adapter sms62 ''t'')], sv_notifier = True\<rparr>"

definition hero_sells :: "cause + PurchaseOutcome" where
  "hero_sells = Inr \<lparr>OrderRef = [], po_Resources = [sms_demo_number ''n1'' []], po_RequestID = ''r''\<rparr>"

definition sms62_sells :: "cause + PurchaseOutcome" where
  "sms62_sells = Inr \<lparr>OrderRef = ''o1'', po_Resources = [], po_RequestID = ''r''\<rparr>"

definition empty_sms :: SmsDB where
  "empty_sms = \<lparr>operations = [], numbers = [], orders = [], codes = [], emails = [], statuses = [], costs = [], quotas = [], rules = [], snapshots = [],
     thresholds = [], sms_alerts = [], calls = [], pushed = []\<rparr>"

definition sms_demo_request :: RequestInput where
  "sms_demo_request = \<lparr>rq_Service = ''tg'', rq_Country = ''7'', rq_Quantity = 1, rq_Provider = []\<rparr>"

text \<open>Both providers are verified, the second is switched on.\<close>

definition sms_demo_db :: SmsDB where
  "sms_demo_db = sms_history (map (\<lambda>c. (sms_demo_context 1, sms_demo_service hero_sells sms62_sells, c)) [CmdTest ProviderHero, CmdTest ProviderSMS62, CmdEnable ProviderSMS62 True]) empty_sms"

section \<open>The properties\<close>



text \<open>
  C19. In every history of calls from an empty ledger, whatever providers answer, statements fail or other
  processes interleave: an operation is sent upstream at most once; one still prepared, which is what recovery
  declares failed, was never sent; and no two unsettled operations share a provider and a
  fingerprint, or a provider, a number and a kind.
\<close>

theorem sms_sent_once:
  assumes "list_all (\<lambda>(x, _). fair x) h" and "operations db = []" and "calls db = []"
  shows "distinct (map fst (calls (sms_history h db)))
    \<and> (\<forall>r \<in> set (operations (sms_history h db)). so_State r = StatePrepared \<longrightarrow> so_ID r \<notin> fst ` set (calls (sms_history h db)))
    \<and> (\<forall>a \<in> set (operations (sms_history h db)). \<forall>b \<in> set (operations (sms_history h db)).
         Pending a \<and> Pending b \<and> so_Provider a = so_Provider b
         \<and> (so_RequestHash a = so_RequestHash b \<or> so_ResourceID a \<noteq> [] \<and> so_ResourceID a = so_ResourceID b \<and> so_Kind a = so_Kind b)
         \<longrightarrow> so_ID a = so_ID b)"
proof -
  have "ledger_ok db" using assms(2,3) by (simp add: ledger_ok_def)
  then have ok: "ledger_ok (sms_history h db)" by (rule ledger_ok_stmts [OF sms_history_stmts [OF assms(1)]])
  have "so_ID r \<notin> fst ` set (calls (sms_history h db))" if "r \<in> set (operations (sms_history h db))" "so_State r = StatePrepared" for r
  proof
    assume "so_ID r \<in> fst ` set (calls (sms_history h db))"
    then obtain q where "q \<in> set (operations (sms_history h db))" "so_ID q = so_ID r" "so_State q \<noteq> StatePrepared"
      using ok unfolding ledger_ok_def by fastforce
    then show False using that ok unfolding ledger_ok_def by (auto simp: distinct_map inj_on_def)
  qed
  with ok show ?thesis unfolding ledger_ok_def pending_clash_def by blast
qed

theorem sms_sent_once_witness:
  "distinct (map fst (calls (sms_history
      [(sms_demo_context 1, sms_demo_service hero_sells sms62_sells, CmdTest ProviderHero),
       (sms_demo_context 2, sms_demo_service hero_sells sms62_sells, CmdEnable ProviderHero True),
       (sms_demo_context 3, sms_demo_service hero_sells sms62_sells, CmdRequest ''q'' sms_demo_request),
       (sms_demo_context 4, sms_demo_service hero_sells sms62_sells, CmdRequest ''q'' sms_demo_request)] empty_sms)))"
  by (rule sms_sent_once [THEN conjunct1]) (simp_all add: empty_sms_def)

end
