(* ===== verification/Sms_Request_Laws.thy ===== *)
theory Sms_Request_Laws
  imports Sms_Laws
begin

text \<open>
  What one purchase and one request do: the verdict on a purchase, that a request spends at most once,
  that a settled one is replayed without a call, which route it takes and when a machine is stopped.
\<close>

section \<open>A quiet world\<close>

text \<open>No other process interferes and no statement fails.\<close>

definition quiet :: "sms_context \<Rightarrow> bool" where
  "quiet x \<longleftrightarrow> (\<forall>l db. sx_other x l db = db) \<and> (\<forall>l. \<not> sx_fails x l)"

lemma quiet_fair: "quiet x \<Longrightarrow> fair x"
  by (simp add: quiet_def fair_def)

lemma quiet_sql [simp]: "quiet x \<Longrightarrow> sql x l f = f"
  by (rule ext) (simp add: quiet_def sql_def)

lemma sbind_lift [simp]: "sbind (lift (Inr a)) k = k a" "sbind (lift (Inl e)) k = lift (Inl e)"
  by (rule ext; simp add: sbind_def lift_def)+

lemma scatch_lift [simp]: "scatch (lift r) k = k r"
  by (rule ext) (simp add: scatch_def lift_def)

lemma lift_apply [simp]: "lift r db = (db, r)"
  by (simp add: lift_def)

lemma sbind_pair: "sbind m k db = (case m db of (db', Inl e) \<Rightarrow> (db', Inl e) | (db', Inr a) \<Rightarrow> k a db')"
  by (simp add: sbind_def)

lemma scatch_pair: "scatch m k db = (case m db of (db', r) \<Rightarrow> k r db')"
  by (simp add: scatch_def)

section \<open>Verdicts always reach the ledger\<close>

definition ledger_row :: "string \<Rightarrow> SmsDB \<Rightarrow> Operation option" where
  "ledger_row i db = find (\<lambda>r. so_ID r = i) (operations db)"

definition has_number :: "SmsDB \<Rightarrow> string \<Rightarrow> bool" where
  "has_number db i \<longleftrightarrow> list_ex (\<lambda>n. sn_ID n = i) (numbers db)"

definition has_order :: "SmsDB \<Rightarrow> string \<Rightarrow> bool" where
  "has_order db i \<longleftrightarrow> list_ex (\<lambda>d. sd_ID d = i) (orders db)"

lemma resolve_succeeds:
  assumes ok: "ledger_ok db" and row: "ledger_row (so_ID op) db = Some r" "Pending r"
    and state: "\<not> Pending op \<or> so_ResourceID op = [] \<or> so_ResourceID op = so_ResourceID r"
    and refs: "so_ResourceID op = [] \<or> has_number db (so_ResourceID op)" "so_OrderID op = [] \<or> has_order db (so_OrderID op)"
  shows "ResolveOperation op db = (map_op (so_ID op) (resolve_op op) db, Inr ())"
proof -
  have r: "r \<in> set (operations db)" "so_ID r = so_ID op" "find (\<lambda>r. so_ID r = so_ID op) (operations db) = Some r"
    using row(1) unfolding ledger_row_def by (auto simp: find_Some_iff)
  have "\<not> pending_clash (resolve_op op r) q" if "q \<in> set (operations db)" "so_ID q \<noteq> so_ID op" for q
  proof
    assume clash: "pending_clash (resolve_op op r) q"
    then have "Pending op" by (simp add: pending_clash_def resolve_op_def Pending_def)
    then have "so_ResourceID (resolve_op op r) = so_ResourceID r" using state by (auto simp: resolve_op_def keep_text_def)
    then have "pending_clash r q" using clash row(2) by (simp add: pending_clash_def resolve_op_def)
    then show False using ok r that unfolding ledger_ok_def by metis
  qed
  then have "\<not> list_ex (\<lambda>q. so_ID q \<noteq> so_ID op \<and> pending_clash (resolve_op op r) q) (operations db)"
    by (auto simp: list_ex_iff)
  then show ?thesis using refs unfolding ResolveOperation_def r(3) has_number_def has_order_def by auto
qed

text \<open>An operation just sent: its row is submitted and names no number yet.\<close>

definition just_sent :: "Operation \<Rightarrow> SmsDB \<Rightarrow> bool" where
  "just_sent op db \<longleftrightarrow> ledger_ok db \<and> (\<exists>r. ledger_row (so_ID op) db = Some r \<and> Pending r \<and> so_ResourceID r = [])"

lemma just_sent_settle:
  assumes "just_sent op db" "so_ResourceID op = []" "so_OrderID op = []"
  shows "ResolveOperation op db = (map_op (so_ID op) (resolve_op op) db, Inr ())"
  using assms by (auto simp: just_sent_def intro: resolve_succeeds)

lemma find_snoc: "(\<And>y. y \<in> set ys \<Longrightarrow> \<not> P y) \<Longrightarrow> P z \<Longrightarrow> find P (ys @ [z]) = Some z"
  by (induction ys) auto

lemma PrepareOperation_Inr:
  assumes "PrepareOperation op db = (db', Inr ())"
  shows "db' = db\<lparr>operations := operations db @ [op_row op]\<rparr>" "ledger_row (so_ID op) db = None"
  using assms by (auto simp: PrepareOperation_def ledger_row_def find_None_iff list_ex_iff split: if_splits)

lemma submit_quiet:
  assumes q: "quiet x" and ok: "ledger_ok db" and res: "so_ResourceID op = []"
  shows "(\<exists>e. submit x l op db = (db, Inl e))
    \<or> (\<exists>db'. submit x l op db = (db', Inr (op\<lparr>so_State := StateSubmitted\<rparr>)) \<and> calls db' = calls db @ [(so_ID op, so_Provider op)] \<and> just_sent op db'
         \<and> orders db' = orders db \<and> numbers db' = numbers db)"
proof (cases "snd (PrepareOperation op db)")
  case (Inl e)
  then have "PrepareOperation op db = (db, Inl e)" by (auto simp: PrepareOperation_def split: if_splits)
  then show ?thesis using q by (simp add: submit_def sbind_pair)
next
  case (Inr u)
  then obtain db1 where p: "PrepareOperation op db = (db1, Inr ())" by (cases "PrepareOperation op db") auto
  note n = PrepareOperation_Inr [OF p]
  let ?g = "\<lambda>r. if so_State r = StatePrepared then r\<lparr>so_State := StateSubmitted, so_UpdatedAt := sx_now x\<rparr> else r"
  let ?db2 = "map_op (so_ID op) ?g db1"
  let ?db3 = "?db2\<lparr>calls := calls ?db2 @ [(so_ID op, so_Provider op)]\<rparr>"
  have old: "\<forall>r \<in> set (operations db). so_ID r \<noteq> so_ID op" using n(2) unfolding ledger_row_def by (auto simp: find_None_iff)
  have marked: "MarkSubmitted (so_ID op) (sx_now x) db1 = (?db2, Inr ())"
    by (simp add: MarkSubmitted_def n(1) op_row_def)
  have s: "submit x l op db = (?db3, Inr (op\<lparr>so_State := StateSubmitted\<rparr>))"
    using q by (simp add: submit_def sbind_pair p marked send_call_def)
  have "ledger_ok (fst (submit x l op db))"
    using runs_submit [OF quiet_fair [OF q], of l op] ok by (auto simp: runs_def intro: ledger_ok_stmts)
  then have okd: "ledger_ok ?db3" by (simp add: s)
  have same: "map (\<lambda>r. if so_ID r = so_ID op then ?g r else r) (operations db) = operations db"
    using old by (intro map_idI) auto
  have ops: "operations ?db3 = operations db @ [?g (op_row op)]"
    using same by (simp add: map_op_def n(1) op_row_def)
  have "ledger_row (so_ID op) ?db3 = Some (?g (op_row op))"
    unfolding ledger_row_def ops by (rule find_snoc) (use old in \<open>auto simp: op_row_def\<close>)
  then have "just_sent op ?db3" using okd res by (auto simp: just_sent_def op_row_def Pending_def)
  moreover have "calls ?db3 = calls db @ [(so_ID op, so_Provider op)]" "orders ?db3 = orders db" "numbers ?db3 = numbers db"
    by (simp_all add: map_op_def n(1))
  ultimately show ?thesis using s by blast
qed

lemma ledger_row_map_op: "(\<And>r. so_ID (f r) = so_ID r) \<Longrightarrow> ledger_row i (map_op i f db) = map_option f (ledger_row i db)"
proof -
  assume f: "\<And>r. so_ID (f r) = so_ID r"
  have "find (\<lambda>r. so_ID r = i) (map (\<lambda>r. if so_ID r = i then f r else r) rs) = map_option f (find (\<lambda>r. so_ID r = i) rs)" for rs
    by (induction rs) (simp_all add: f)
  then show ?thesis by (simp add: ledger_row_def map_op_def)
qed

lemma calls_map_op [simp]: "calls (map_op i f db) = calls db"
  by (simp add: map_op_def)

lemma ledger_row_cong: "operations db' = operations db \<Longrightarrow> ledger_row i db' = ledger_row i db"
  by (simp add: ledger_row_def)

text \<open>What the statements about numbers and orders leave alone.\<close>

definition keeps :: "SmsDB \<Rightarrow> SmsDB \<Rightarrow> bool" where
  "keeps db db' \<longleftrightarrow> operations db' = operations db \<and> calls db' = calls db
     \<and> (\<forall>i. has_order db i \<longrightarrow> has_order db' i) \<and> (\<forall>i. has_number db i \<longrightarrow> has_number db' i)"

lemma keeps_refl [simp]: "keeps db db"
  by (simp add: keeps_def)

lemma keeps_trans [trans]: "keeps a b \<Longrightarrow> keeps b c \<Longrightarrow> keeps a c"
  by (simp add: keeps_def)

lemma list_ex_map_same: "(\<And>n. k (f n) = k n) \<Longrightarrow> list_ex (\<lambda>n. k n = i) (map f xs) = list_ex (\<lambda>n. k n = i) xs"
  by (induction xs) auto

lemma number_update_ID [simp]: "sn_ID (number_update t r n) = sn_ID n"
  by (simp add: number_update_def)

lemma UpsertResource_keeps:
  assumes "UpsertResource newID now r db = (db', res)"
  shows "keeps db db' \<and> (\<forall>i. res = Inr i \<longrightarrow> has_number db' i)"
proof (cases "find (same_number r) (numbers db)")
  case None
  then show ?thesis using assms
    by (auto simp: UpsertResource_def keeps_def has_order_def has_number_def number_row_def list_ex_iff split: sum.splits if_splits)
next
  case (Some old)
  have "list_ex (\<lambda>n. sn_ID n = i) (map (\<lambda>n. if same_number r n then number_update now r n else n) (numbers db))
      = list_ex (\<lambda>n. sn_ID n = i) (numbers db)" for i
    by (rule list_ex_map_same) simp
  moreover have "list_ex (\<lambda>n. sn_ID n = sn_ID old) (numbers db)" using Some by (auto simp: find_Some_iff list_ex_iff)
  ultimately show ?thesis using assms Some
    by (auto simp: UpsertResource_def keeps_def has_order_def has_number_def split: sum.splits if_splits)
qed

lemma UpsertOrder_keeps:
  assumes "UpsertOrder newID d db = (db', res)"
  shows "keeps db db' \<and> (\<forall>i. res = Inr i \<longrightarrow> has_order db' i)"
proof (cases "find (same_order d) (orders db)")
  case None
  then show ?thesis using assms
    by (auto simp: UpsertOrder_def keeps_def has_order_def has_number_def list_ex_iff split: if_splits)
next
  case (Some old)
  have "list_ex (\<lambda>n. sd_ID n = i) (map (\<lambda>q. if same_order d q
      then q\<lparr>sd_Status := keep_text (sd_Status d) (sd_Status q), sd_AmountText := keep_text (sd_AmountText d) (sd_AmountText q)\<rparr> else q) (orders db))
      = list_ex (\<lambda>n. sd_ID n = i) (orders db)" for i
    by (rule list_ex_map_same) simp
  moreover have "list_ex (\<lambda>n. sd_ID n = sd_ID old) (orders db)" using Some by (auto simp: find_Some_iff list_ex_iff)
  ultimately show ?thesis using assms Some
    by (auto simp: UpsertOrder_def keeps_def has_order_def has_number_def split: if_splits)
qed

lemma save_numbers_quiet:
  assumes "quiet x" and "list_all (has_number db) ids" and "so_ResourceID op = [] \<or> has_number db (so_ResourceID op)"
  shows "\<exists>db' b n ids'. save_numbers x l i op ids rs db = (db', Inr (b, op\<lparr>so_ResourceID := n\<rparr>, ids')) \<and> keeps db db'
    \<and> (n = [] \<or> has_number db' n) \<and> list_all (has_number db') ids' \<and> (b \<longrightarrow> length ids' = length ids + length rs)"
  using assms(2,3)
proof (induction rs arbitrary: i op ids db)
  case Nil
  then show ?case by (intro exI [of _ db] exI [of _ True] exI [of _ "so_ResourceID op"] exI [of _ ids]) simp
next
  case (Cons r rs)
  obtain db1 res where u: "UpsertResource (sx_id x (l @ [5, i])) (sx_now x) (bought x op r) db = (db1, res)" by fastforce
  note k = UpsertResource_keeps [OF u]
  have ids1: "list_all (has_number db1) ids" using Cons.prems(1) k by (auto simp: list_all_iff keeps_def)
  show ?case
  proof (cases res)
    case (Inl e)
    then show ?thesis using k u assms(1) Cons.prems ids1
      by (intro exI [of _ db1] exI [of _ False] exI [of _ "so_ResourceID op"] exI [of _ ids]) (auto simp: scatch_pair keeps_def)
  next
    case (Inr n)
    let ?op = "if so_ResourceID op = [] then op\<lparr>so_ResourceID := n\<rparr> else op"
    have n: "has_number db1 n" using k Inr by simp
    have "list_all (has_number db1) (ids @ [n])" "so_ResourceID ?op = [] \<or> has_number db1 (so_ResourceID ?op)"
      using ids1 n Cons.prems(2) k by (auto simp: keeps_def)
    from Cons.IH [OF this, of "i + 1"] obtain db' b m ids' where
      s: "save_numbers x l (i + 1) ?op (ids @ [n]) rs db1 = (db', Inr (b, ?op\<lparr>so_ResourceID := m\<rparr>, ids'))"
      and r: "keeps db1 db'" "m = [] \<or> has_number db' m" "list_all (has_number db') ids'" "b \<longrightarrow> length ids' = length (ids @ [n]) + length rs"
      by blast
    have "save_numbers x l i op ids (r # rs) db = (db', Inr (b, op\<lparr>so_ResourceID := m\<rparr>, ids'))"
      using s u Inr assms(1) by (simp add: scatch_pair)
    then show ?thesis using r k keeps_trans by (intro exI [of _ db'] exI [of _ b] exI [of _ m] exI [of _ ids']) auto
  qed
qed

lemma recordCosts_quiet:
  assumes "quiet x"
  shows "\<exists>db'. recordCosts x l evs db = (db', Inr ()) \<and> keeps db db'"
proof -
  have "\<exists>db' r. AppendCostEvents x l i evs db = (db', r) \<and> keeps db db'" for i
  proof (induction evs arbitrary: i db)
    case (Cons ev evs)
    show ?case
    proof (cases "append_cost (sx_numeric x) (sx_id x (l @ [i])) ev db")
      case None
      then show ?thesis using assms by (simp add: sbind_pair)
    next
      case (Some db1)
      then have "keeps db db1" by (auto simp: append_cost_def keeps_def has_order_def has_number_def split: if_splits)
      then show ?thesis using Cons.IH [of "i + 1" db1] Some assms keeps_trans by (fastforce simp: sbind_pair)
    qed
  qed simp
  then obtain db' r where "AppendCostEvents x l 0 evs db = (db', r)" "keeps db db'" by blast
  then show ?thesis by (simp add: recordCosts_def scatch_pair)
qed

text \<open>What the ledger says of an operation a purchase returned: an unknown one is unsettled there.\<close>

definition verdict_row :: "Operation \<Rightarrow> SmsDB \<Rightarrow> bool" where
  "verdict_row op db \<longleftrightarrow> (\<exists>r. ledger_row (so_ID op) db = Some r \<and> (if so_State op = StateUnknown then Pending r else so_State r = so_State op))"

lemma resolve_op_ID [simp]: "so_ID (resolve_op op r) = so_ID r"
  by (simp add: resolve_op_def)

lemma verdict_resolved:
  assumes "ledger_row (so_ID op) db = Some r"
  shows "verdict_row op (map_op (so_ID op) (resolve_op op) db)"
  using assms by (simp add: verdict_row_def ledger_row_map_op resolve_op_def Pending_def)

lemma verdict_keeps: "verdict_row op db \<Longrightarrow> keeps db db' \<Longrightarrow> verdict_row op db'"
  by (auto simp: verdict_row_def keeps_def ledger_row_def)

lemma just_sent_keeps: "just_sent op db \<Longrightarrow> keeps db db' \<Longrightarrow> just_sent op db'"
  by (auto simp: just_sent_def keeps_def ledger_row_def ledger_ok_def)

definition purchased_numbers :: "Adapter \<Rightarrow> PurchaseOutcome \<Rightarrow> cause + Resource list" where
  "purchased_numbers adapter outcome =
    (if po_Resources outcome = [] \<and> OrderRef outcome \<noteq> [] then ad_Import adapter (OrderRef outcome) else Inr (po_Resources outcome))"

lemma settle_unknown_quiet:
  assumes q: "quiet x" and sent: "ledger_row (so_ID op) db = Some r" "Pending r"
  shows "\<exists>db'. settleUnknownAfterSuccess x l op reason db = (db', Inr (as_unknown (sx_now x) reason op)) \<and> calls db' = calls db
    \<and> verdict_row (as_unknown (sx_now x) reason op) db'"
proof -
  let ?op = "as_unknown (sx_now x) reason op"
  have idu: "so_ID ?op = so_ID op" by (simp add: as_unknown_def)
  obtain db' res where res: "ResolveOperation ?op db = (db', res)" by fastforce
  then have "db' = db \<or> db' = map_op (so_ID ?op) (resolve_op ?op) db"
    by (auto simp: ResolveOperation_def split: option.splits if_splits)
  moreover have "verdict_row ?op db" using sent by (simp add: verdict_row_def as_unknown_def)
  moreover have "verdict_row ?op (map_op (so_ID ?op) (resolve_op ?op) db)" using sent idu by (intro verdict_resolved) simp
  ultimately show ?thesis using res q by (auto simp: settleUnknownAfterSuccess_def scatch_pair)
qed

lemma finish_purchase_quiet:
  assumes q: "quiet x" and sent: "just_sent op db"
    and refs: "so_ResourceID op = [] \<or> has_number db (so_ResourceID op)" "so_OrderID op = [] \<or> has_order db (so_OrderID op)"
  shows "\<exists>db' op' ids'. finish_purchase x l rs (b, op, ids) db = (db', Inr (op', ids')) \<and> calls db' = calls db \<and> so_ID op' = so_ID op
    \<and> verdict_row op' db'
    \<and> (if b then so_State op' = StateSucceeded \<and> ids' = ids else so_State op' = StateUnknown \<and> so_NeedsHumanReview op' \<and> ids' = [])"
proof -
  from sent obtain r where ok: "ledger_ok db" and r: "ledger_row (so_ID op) db = Some r" "Pending r" by (auto simp: just_sent_def)
  show ?thesis
  proof (cases b)
    case True
    let ?op = "op\<lparr>so_State := StateSucceeded, so_UpdatedAt := sx_now x\<rparr>"
    have "ResolveOperation ?op db = (map_op (so_ID ?op) (resolve_op ?op) db, Inr ())"
      by (rule resolve_succeeds [OF ok]) (use r refs in \<open>auto simp: Pending_def\<close>)
    moreover obtain db' where "recordCosts x (l @ [7]) (purchaseCostEvents (sx_now x) ?op CostPurchase (map (bought x ?op) rs) ids)
        (map_op (so_ID ?op) (resolve_op ?op) db) = (db', Inr ())" "keeps (map_op (so_ID ?op) (resolve_op ?op) db) db'"
      using recordCosts_quiet [OF q] by blast
    moreover have "verdict_row ?op (map_op (so_ID ?op) (resolve_op ?op) db)" using r by (intro verdict_resolved) simp
    ultimately show ?thesis using True q verdict_keeps
      by (fastforce simp: finish_purchase_def sbind_pair Let_def keeps_def)
  next
    case False
    obtain db' where "settleUnknownAfterSuccess x (l @ [6]) op ''number not stored'' db = (db', Inr (as_unknown (sx_now x) ''number not stored'' op))"
      "calls db' = calls db" "verdict_row (as_unknown (sx_now x) ''number not stored'' op) db'"
      using settle_unknown_quiet [OF q r] by blast
    then show ?thesis using False by (simp add: finish_purchase_def sbind_pair) (simp add: as_unknown_def)
  qed
qed

lemma verdict_row_cong: "so_ID op = so_ID op' \<Longrightarrow> so_State op = so_State op' \<Longrightarrow> verdict_row op db = verdict_row op' db"
  by (simp add: verdict_row_def)

text \<open>What a purchase the provider accepted ends with: never a failure.\<close>

definition accepted_end :: "Adapter \<Rightarrow> PurchaseOutcome \<Rightarrow> Operation \<Rightarrow> string list \<Rightarrow> bool" where
  "accepted_end adapter outcome op ids \<longleftrightarrow>
    so_State op = StateSucceeded \<and> (\<exists>rs. purchased_numbers adapter outcome = Inr rs \<and> length ids = length rs)
    \<or> so_State op = StateUnknown \<and> so_NeedsHumanReview op \<and> ids = []"

lemma after_purchase_quiet:
  assumes q: "quiet x" and sent: "just_sent op db" and clean: "so_ResourceID op = []" "so_OrderID op = []"
  shows "\<exists>db' op' ids. after_purchase x l adapter inp op outcome db = (db', Inr (op', ids)) \<and> calls db' = calls db \<and> so_ID op' = so_ID op
    \<and> verdict_row op' db' \<and> accepted_end adapter outcome op' ids"
proof -
  let ?op = "op\<lparr>so_ProviderRequestID := po_RequestID outcome, so_ProviderRef := OrderRef outcome\<rparr>"
  have sent1: "just_sent ?op db" using sent by (simp add: just_sent_def)
  show ?thesis
  proof (cases "purchased_numbers adapter outcome")
    case (Inl c)
    let ?u = "as_unknown (sx_now x) (''numbers not read: '' @ snd c) ?op"
    have u: "just_sent ?u db" "so_ResourceID ?u = []" "so_OrderID ?u = []" using sent1 clean by (simp_all add: as_unknown_def just_sent_def)
    from u(1) obtain r where "ledger_row (so_ID ?u) db = Some r" by (auto simp: just_sent_def)
    then have "verdict_row ?u (map_op (so_ID ?u) (resolve_op ?u) db)" by (rule verdict_resolved)
    moreover have "after_purchase x l adapter inp op outcome db = (map_op (so_ID ?u) (resolve_op ?u) db, Inr (?u, []))"
      using just_sent_settle [OF u] Inl q unfolding purchased_numbers_def by (simp add: after_purchase_def sbind_pair Let_def)
    moreover have "so_State ?u = StateUnknown" "so_NeedsHumanReview ?u" "so_ID ?u = so_ID op" by (simp_all add: as_unknown_def)
    ultimately show ?thesis by (simp add: accepted_end_def)
  next
    case (Inr rs)
    obtain db1 res where o: "saveOrder x (l @ [4]) (so_Provider ?op) outcome inp db = (db1, res)" by fastforce
    let ?op1 = "case res of Inl _ \<Rightarrow> ?op | Inr i \<Rightarrow> ?op\<lparr>so_OrderID := i\<rparr>"
    have k1: "keeps db db1" and ref: "so_OrderID ?op1 = [] \<or> has_order db1 (so_OrderID ?op1)"
      using o q clean UpsertOrder_keeps by (auto simp: saveOrder_def split: if_splits sum.splits)
    have op1: "so_ID ?op1 = so_ID op" "so_ResourceID ?op1 = []" using clean by (auto split: sum.splits)
    obtain db2 b n ids where s: "save_numbers x l 0 ?op1 [] rs db1 = (db2, Inr (b, ?op1\<lparr>so_ResourceID := n\<rparr>, ids))"
      and k2: "keeps db1 db2" and n: "n = [] \<or> has_number db2 n" and len: "b \<longrightarrow> length ids = length rs"
      using save_numbers_quiet [OF q, of db1 "[]" ?op1 l 0 rs] op1 by auto
    let ?op2 = "?op1\<lparr>so_ResourceID := n\<rparr>"
    have sent2: "just_sent ?op2 db2"
      using just_sent_keeps [OF just_sent_keeps [OF sent k1] k2] op1 by (simp add: just_sent_def)
    have "so_ResourceID ?op2 = [] \<or> has_number db2 (so_ResourceID ?op2)" "so_OrderID ?op2 = [] \<or> has_order db2 (so_OrderID ?op2)"
      using n ref k2 by (auto simp: keeps_def)
    from finish_purchase_quiet [OF q sent2 this, of l rs b ids] obtain db' op' ids' where
      f: "finish_purchase x l rs (b, ?op2, ids) db2 = (db', Inr (op', ids'))" "calls db' = calls db2" "so_ID op' = so_ID ?op2" "verdict_row op' db'"
        "if b then so_State op' = StateSucceeded \<and> ids' = ids else so_State op' = StateUnknown \<and> so_NeedsHumanReview op' \<and> ids' = []" by blast
    have "after_purchase x l adapter inp op outcome db = (db', Inr (op', ids'))"
      using Inr o s f(1) q unfolding purchased_numbers_def by (simp add: after_purchase_def sbind_pair scatch_pair Let_def)
    moreover have "accepted_end adapter outcome op' ids'" using f(5) len Inr by (auto simp: accepted_end_def split: if_splits)
    moreover have "calls db' = calls db" using f(2) k1 k2 by (simp add: keeps_def)
    ultimately show ?thesis using f op1 by simp
  qed
qed

text \<open>The verdict on a purchase.\<close>

definition purchase_end :: "Adapter \<Rightarrow> PurchaseInput \<Rightarrow> Operation \<Rightarrow> string list \<Rightarrow> bool" where
  "purchase_end adapter inp op ids = (case ad_Purchase adapter inp of
     Inl c \<Rightarrow> ids = [] \<and> (if definitelyRejected c then so_State op = StateFailed else so_State op = StateUnknown \<and> so_NeedsHumanReview op)
   | Inr outcome \<Rightarrow> accepted_end adapter outcome op ids)"

lemma purchase_sent_quiet:
  assumes q: "quiet x" and sent: "just_sent op db" and clean: "so_ResourceID op = []" "so_OrderID op = []"
  shows "\<exists>db' op' ids. (case ad_Purchase adapter inp of
      Inl purchaseErr \<Rightarrow> sbind (settleFailure x l op purchaseErr) (\<lambda>op. lift (Inr (op, [])))
    | Inr outcome \<Rightarrow> after_purchase x l' adapter inp op outcome) db = (db', Inr (op', ids)) \<and> calls db' = calls db \<and> so_ID op' = so_ID op
    \<and> verdict_row op' db' \<and> purchase_end adapter inp op' ids"
proof (cases "ad_Purchase adapter inp")
  case (Inl c)
  let ?f = "settled_failure (sx_now x) op c"
  have f: "just_sent ?f db" "so_ResourceID ?f = []" "so_OrderID ?f = []" "so_ID ?f = so_ID op"
    using sent clean by (simp_all add: settled_failure_def just_sent_def)
  from f(1) obtain r where "ledger_row (so_ID ?f) db = Some r" by (auto simp: just_sent_def)
  then have "verdict_row ?f (map_op (so_ID ?f) (resolve_op ?f) db)" by (rule verdict_resolved)
  moreover have "purchase_end adapter inp ?f []" using Inl by (simp add: purchase_end_def settled_failure_def)
  ultimately show ?thesis using just_sent_settle [OF f(1-3)] Inl q f(4) by (simp add: settleFailure_def sbind_pair)
next
  case (Inr outcome)
  then show ?thesis using after_purchase_quiet [OF q sent clean, of l' adapter inp outcome] by (simp add: purchase_end_def)
qed

lemma purchase_quiet:
  assumes q: "quiet x" and ok: "ledger_ok db"
  shows "(\<exists>e. purchase x l sv i provider inp db = (db, Inl e))
    \<or> (\<exists>adapter db' op ids. sms_adapter sv provider = Inr adapter \<and> purchase x l sv i provider inp db = (db', Inr (op, ids))
         \<and> calls db' = calls db @ [(i, provider)] \<and> so_ID op = i \<and> verdict_row op db' \<and> purchase_end adapter inp op ids)"
proof (cases "sms_adapter sv provider")
  case (Inl e)
  then show ?thesis by (simp add: purchase_def)
next
  case (Inr adapter)
  let ?op = "(newOperation x i provider KindPurchase (purchaseParams provider inp))\<lparr>so_PrincipalID := sx_consumer x\<rparr>"
  have clean: "so_ResourceID ?op = []" "so_OrderID ?op = []" "so_ID ?op = i" "so_Provider ?op = provider" by (simp_all add: newOperation_def)
  show ?thesis
  proof (cases "\<not> SupportsAction provider KindPurchase \<or> snd (requireVerified x (l @ [0]) provider db) \<noteq> Inr ()")
    case True
    then show ?thesis using Inr q
      by (auto simp: purchase_def requireVerified_def sbind_pair get_status_def split: if_splits)
  next
    case False
    have "requireVerified x (l @ [0]) provider db = (db, Inr ())" using False q
      by (auto simp: requireVerified_def sbind_pair get_status_def split: if_splits)
    then have p: "purchase x l sv i provider inp db = sbind (submit x l ?op) (\<lambda>op. case ad_Purchase adapter inp of
      Inl purchaseErr \<Rightarrow> sbind (settleFailure x (l @ [3]) op purchaseErr) (\<lambda>op. lift (Inr (op, [])))
    | Inr outcome \<Rightarrow> after_purchase x l adapter inp op outcome) db"
      using False Inr by (simp add: purchase_def sbind_pair)
    from submit_quiet [OF q ok clean(1), of l] show ?thesis
    proof (elim disjE exE conjE)
      fix e assume "submit x l ?op db = (db, Inl e)"
      then show ?thesis unfolding p by (simp add: sbind_pair)
    next
      fix db1 assume s: "submit x l ?op db = (db1, Inr (?op\<lparr>so_State := StateSubmitted\<rparr>))" "calls db1 = calls db @ [(so_ID ?op, so_Provider ?op)]"
        and sent: "just_sent ?op db1"
      have "just_sent (?op\<lparr>so_State := StateSubmitted\<rparr>) db1" "so_ResourceID (?op\<lparr>so_State := StateSubmitted\<rparr>) = []" "so_OrderID (?op\<lparr>so_State := StateSubmitted\<rparr>) = []"
        using sent clean by (simp_all add: just_sent_def)
      from purchase_sent_quiet [OF q this, where adapter = adapter and inp = inp and l = "l @ [3]" and l' = l]
      show ?thesis using s clean Inr unfolding p by (auto simp: sbind_pair)
    qed
  qed
qed

section \<open>A request\<close>

text \<open>A provider that definitely rejected the purchase of this request.\<close>

definition rejects :: "sms_context \<Rightarrow> sms_service \<Rightarrow> RequestInput \<Rightarrow> string \<Rightarrow> string \<Rightarrow> bool" where
  "rejects x sv inp capText provider = (case sms_adapter sv provider of Inl _ \<Rightarrow> False
     | Inr adapter \<Rightarrow> (case purchaseInputFor x sv provider inp capText of Inl _ \<Rightarrow> False
       | Inr pin \<Rightarrow> (case ad_Purchase adapter pin of Inl c \<Rightarrow> definitelyRejected c | Inr _ \<Rightarrow> False)))"

definition stopped_at :: "RequestOutcome \<Rightarrow> string \<Rightarrow> string \<Rightarrow> bool" where
  "stopped_at out i provider \<longleftrightarrow> (ro_State out = StateSucceeded \<or> ro_State out = StateUnknown) \<and> ro_Provider out = provider \<and> ro_OperationID out = i"

lemma GetOperation_row: "GetOperation i db = (db, case ledger_row i db of None \<Rightarrow> Inl SmsOperationNotFound | Some r \<Rightarrow> Inr r)"
  by (simp add: GetOperation_def ledger_row_def split: option.splits)

lemma settleRequest_quiet:
  assumes "quiet x"
  shows "fst (settleRequest x l out p op ids db) = db"
    and "so_State op = StateFailed \<or> so_State op = StateReconciledFailed \<Longrightarrow> snd (settleRequest x l out p op ids db) = Inr (False, out)"
    and "\<not> (so_State op = StateFailed \<or> so_State op = StateReconciledFailed) \<Longrightarrow>
      \<exists>out'. snd (settleRequest x l out p op ids db) = Inr (True, out') \<and> stopped_at out' (so_ID op) p
        \<and> ro_State out' = (if so_State op = StateSucceeded \<or> so_State op = StateReconciledSucceeded then StateSucceeded else StateUnknown)"
  using assms by (cases "so_State op"; auto simp: settleRequest_def Let_def scatch_pair reading_def stopped_at_def)+

text \<open>One provider: it is asked or not, and the loop goes on after a call only if it was rejected.\<close>

lemma try_provider_quiet:
  assumes q: "quiet x" and ok: "ledger_ok db"
  obtains db' res where "try_provider x l sv requestID inp capText out p db = (db', res)" "ledger_ok db'"
    "calls db' = calls db
     \<or> calls db' = calls db @ [(attemptOperationID x requestID p, p)] \<and>
        (if rejects x sv inp capText p then \<exists>out'. res = Inr (False, out') else \<exists>out'. res = Inr (True, out') \<and> stopped_at out' (attemptOperationID x requestID p) p)"
proof -
  let ?i = "attemptOperationID x requestID p"
  obtain db' res where t: "try_provider x l sv requestID inp capText out p db = (db', res)" by fastforce
  have "runs (try_provider x l sv requestID inp capText out p)"
    using quiet_fair [OF q] unfolding try_provider_def Let_def by (intro runs_rules stays_rules)
  then have "sms_stmts db db'" using t by (metis runs_def fst_conv)
  then have ok': "ledger_ok db'" using ok by (rule ledger_ok_stmts)
  show thesis
  proof (cases "ledger_row ?i db")
    case (Some r)
    have "fst (try_provider x l sv requestID inp capText out p db) = db"
      using q Some settleRequest_quiet(1) [OF q] by (simp add: try_provider_def Let_def scatch_pair GetOperation_row)
    then show thesis using that [OF t ok'] t by simp
  next
    case None
    show thesis
    proof (cases "purchaseInputFor x sv p inp capText")
      case (Inl reason)
      have "db' = db" using t q None Inl by (simp add: try_provider_def Let_def scatch_pair GetOperation_row)
      then show thesis using that [OF t ok'] by simp
    next
      case (Inr pin)
      have e: "try_provider x l sv requestID inp capText out p db =
        (case purchase x (l @ [2]) sv ?i p pin db of (db1, Inl e) \<Rightarrow> (db1, if e = SmsPendingDuplicate then Inl e else Inr (False, add_attempt (skipped p ?i (error_text e)) out))
           | (db1, Inr (op, ids)) \<Rightarrow> settleRequest x (l @ [3]) (add_attempt (attempt_of p ?i False op) out) p op ids db1)"
        using q None Inr by (simp add: try_provider_def Let_def scatch_pair GetOperation_row split: prod.splits sum.splits)
      from purchase_quiet [OF q ok, of "l @ [2]" sv ?i p pin] show thesis
      proof (elim disjE exE conjE)
        fix e assume "purchase x (l @ [2]) sv ?i p pin db = (db, Inl e)"
        then have "db' = db" using t unfolding e by simp
        then show thesis using that [OF t ok'] by simp
      next
        fix adapter db1 op ids
        assume a: "sms_adapter sv p = Inr adapter" and pu: "purchase x (l @ [2]) sv ?i p pin db = (db1, Inr (op, ids))"
          and c: "calls db1 = calls db @ [(?i, p)]" and i: "so_ID op = ?i" and v: "purchase_end adapter pin op ids"
        let ?o = "add_attempt (attempt_of p ?i False op) out"
        have r: "rejects x sv inp capText p \<longleftrightarrow> so_State op = StateFailed" and nr: "so_State op \<noteq> StateReconciledFailed"
          using v a Inr by (auto simp: rejects_def purchase_end_def accepted_end_def split: sum.splits if_splits)
        have s: "(db', res) = settleRequest x (l @ [3]) ?o p op ids db1" using t unfolding e pu by simp
        then have "db' = db1" using settleRequest_quiet(1) [OF q] by (metis fst_conv)
        then have "calls db' = calls db @ [(?i, p)]" using c by simp
        moreover have "if rejects x sv inp capText p then \<exists>out'. res = Inr (False, out') else \<exists>out'. res = Inr (True, out') \<and> stopped_at out' ?i p"
          using settleRequest_quiet(2,3) [OF q, where op = op] s r nr i by (metis snd_conv)
        ultimately show thesis using that [OF t ok'] by blast
      qed
    qed
  qed
qed

definition spends_once :: "(string \<Rightarrow> bool) \<Rightarrow> (string \<times> string) list \<Rightarrow> sms_error + RequestOutcome \<Rightarrow> bool" where
  "spends_once rejected cs res \<longleftrightarrow> (\<forall>c \<in> set cs. rejected (snd c))
     \<or> (\<exists>cs' i p out. cs = cs' @ [(i, p)] \<and> (\<forall>c \<in> set cs'. rejected (snd c)) \<and> \<not> rejected p \<and> res = Inr out \<and> stopped_at out i p)"

lemma spends_once_Cons:
  assumes "rejected (snd c)" "spends_once rejected cs res"
  shows "spends_once rejected (c # cs) res"
proof (cases "\<forall>d \<in> set cs. rejected (snd d)")
  case True
  then show ?thesis using assms(1) by (simp add: spends_once_def)
next
  case False
  then obtain cs' i p out where *: "cs = cs' @ [(i, p)]" "\<forall>d \<in> set cs'. rejected (snd d)" "\<not> rejected p" "res = Inr out" "stopped_at out i p"
    using assms(2) unfolding spends_once_def by blast
  then have "c # cs = (c # cs') @ [(i, p)]" "\<forall>d \<in> set (c # cs'). rejected (snd d)" using assms(1) by auto
  then show ?thesis using * unfolding spends_once_def by blast
qed

lemma try_providers_quiet:
  assumes q: "quiet x" and "ledger_ok db"
  shows "\<exists>cs. calls (fst (try_providers x n sv requestID inp capText out ps db)) = calls db @ cs
    \<and> spends_once (rejects x sv inp capText) cs (snd (try_providers x n sv requestID inp capText out ps db))"
  using assms(2)
proof (induction ps arbitrary: n out db)
  case Nil
  then show ?case by (intro exI [of _ "[]"]) (simp add: spends_once_def)
next
  case (Cons p ps)
  obtain db1 res where t: "try_provider x [3, n] sv requestID inp capText out p db = (db1, res)" and ok: "ledger_ok db1"
    and c: "calls db1 = calls db
     \<or> calls db1 = calls db @ [(attemptOperationID x requestID p, p)] \<and>
        (if rejects x sv inp capText p then \<exists>out'. res = Inr (False, out') else \<exists>out'. res = Inr (True, out') \<and> stopped_at out' (attemptOperationID x requestID p) p)"
    using try_provider_quiet [OF q Cons.prems] by blast
  let ?r = "try_providers x n sv requestID inp capText out (p # ps) db"
  show ?case
  proof (cases res)
    case (Inl e)
    then have "?r = (db1, Inl e)" using t by (simp add: sbind_pair)
    moreover have "calls db1 = calls db" using c Inl by (auto split: if_splits)
    ultimately show ?thesis by (intro exI [of _ "[]"]) (simp add: spends_once_def)
  next
    case (Inr so)
    obtain stop out' where so: "so = (stop, out')" by fastforce
    show ?thesis
    proof (cases stop)
      case True
      then have r: "?r = (db1, Inr out')" using t Inr so by (simp add: sbind_pair)
      show ?thesis
      proof (cases "calls db1 = calls db")
        case True
        then show ?thesis using r by (intro exI [of _ "[]"]) (simp add: spends_once_def)
      next
        case False
        then show ?thesis using r c Inr so \<open>stop\<close>
          by (intro exI [of _ "[(attemptOperationID x requestID p, p)]"]) (auto simp: spends_once_def split: if_splits)
      qed
    next
      case False
      then have r: "?r = try_providers x (n + 1) sv requestID inp capText out' ps db1" using t Inr so by (simp add: sbind_pair)
      obtain cs where cs: "calls (fst ?r) = calls db1 @ cs" "spends_once (rejects x sv inp capText) cs (snd ?r)"
        using Cons.IH [OF ok, of "n + 1" out'] unfolding r by blast
      show ?thesis
      proof (cases "calls db1 = calls db")
        case True
        then show ?thesis using cs by auto
      next
        case f: False
        let ?c = "(attemptOperationID x requestID p, p)"
        have "rejects x sv inp capText p" "calls db1 = calls db @ [?c]" using c f Inr so False by (auto split: if_splits)
        then have "spends_once (rejects x sv inp capText) (?c # cs) (snd ?r)" "calls (fst ?r) = calls db @ (?c # cs)"
          using cs by (simp_all add: spends_once_Cons)
        then show ?thesis by blast
      qed
    qed
  qed
qed

text \<open>What comes before the providers only reads.\<close>

lemma hasPriorAttempt_quiet:
  assumes "quiet x"
  shows "hasPriorAttempt x n requestID ps db = (db, Inr (list_ex (\<lambda>p. ledger_row (attemptOperationID x requestID p) db \<noteq> None) ps))"
  by (induction ps arbitrary: n) (auto simp: scatch_pair GetOperation_row assms split: option.splits)

lemma sms_Route_quiet:
  assumes "quiet x" "trim_space pr = pr" "pr = [] \<or> map_of (rev (sv_providers sv)) pr \<noteq> None"
  shows "sms_Route x l sv service country pr db = (db, Inr (ResolveRoute (sx_lower x) (pg_ListRoutingRules db) (service_order sv) service country pr))"
  using assms by (auto simp: sms_Route_def Let_def sbind_pair reading_def)

definition quota_error :: "sms_context \<Rightarrow> SmsDB \<Rightarrow> int64 \<Rightarrow> sms_error option" where
  "quota_error x db want = (if sx_consumer x = [] then None
     else case GetConsumerQuota (sx_consumer x) db of None \<Rightarrow> Some SmsQuotaNotRegistered
       | Some quota \<Rightarrow> if \<not> cq_Enabled quota then Some SmsQuotaNotRegistered
         else if over_quota (sx_rat x) quota (ConsumerUsageSince (sx_numeric x) (sx_consumer x) (day_begin (sx_now x)) db) want then Some SmsQuotaExceeded
         else None)"

lemma checkQuota_quiet: "quiet x \<Longrightarrow> checkQuota x l want db = (db, case quota_error x db want of None \<Rightarrow> Inr () | Some e \<Rightarrow> Inl e)"
  by (auto simp: checkQuota_def quota_error_def sbind_pair reading_def split: option.splits)

text \<open>The request as the code normalises it, and its route.\<close>

definition request_route :: "sms_context \<Rightarrow> sms_service \<Rightarrow> RequestInput \<Rightarrow> SmsDB \<Rightarrow> Route" where
  "request_route x sv inp db = ResolveRoute (sx_lower x) (pg_ListRoutingRules db) (service_order sv) (rq_Service inp) (rq_Country inp) (rq_Provider inp)"

lemma RequestNumber_quiet:
  assumes q: "quiet x" and good: "\<not> bad_request sv (trim_space requestID) (normal_request x inp)"
  shows "RequestNumber x sv requestID inp db =
    (let inp = normal_request x inp; route = request_route x sv inp db; i = trim_space requestID in
     if \<not> list_ex (\<lambda>p. ledger_row (attemptOperationID x i p) db \<noteq> None) (rt_Providers route) \<and> quota_error x db (rq_Quantity inp) \<noteq> None
     then (db, Inl (the (quota_error x db (rq_Quantity inp))))
     else try_providers x 0 sv i inp (rt_MaxUnitPriceText route) (no_outcome i inp route) (rt_Providers route) db)"
proof -
  let ?i = "normal_request x inp"
  have "trim_space (rq_Provider ?i) = rq_Provider ?i" by (simp add: normal_request_def trim_space_idem)
  moreover have "rq_Provider ?i = [] \<or> map_of (rev (sv_providers sv)) (rq_Provider ?i) \<noteq> None"
    using good by (auto simp: bad_request_def)
  ultimately have r: "sms_Route x [0] sv (rq_Service ?i) (rq_Country ?i) (rq_Provider ?i) db = (db, Inr (request_route x sv ?i db))"
    unfolding request_route_def by (rule sms_Route_quiet [OF q])
  show ?thesis
    using good q r unfolding RequestNumber_def Let_def
    by (auto simp: sbind_pair hasPriorAttempt_quiet checkQuota_quiet split: option.splits)
qed

definition failed_op :: "Operation \<Rightarrow> bool" where
  "failed_op op \<longleftrightarrow> so_State op = StateFailed \<or> so_State op = StateReconciledFailed"

lemma try_provider_replayed:
  assumes "quiet x" and "ledger_row (attemptOperationID x requestID p) db = Some r"
  shows "try_provider x l sv requestID inp capText out p db
    = settleRequest x (l @ [1]) (add_attempt (attempt_of p (attemptOperationID x requestID p) True r) out) p r [] db"
  using assms by (simp add: try_provider_def Let_def scatch_pair GetOperation_row)

lemma try_providers_failed:
  assumes q: "quiet x" and "\<forall>b \<in> set before. \<exists>r. ledger_row (attemptOperationID x requestID b) db = Some r \<and> failed_op r"
  shows "\<exists>n' out'. try_providers x n sv requestID inp capText out (before @ ps) db = try_providers x n' sv requestID inp capText out' ps db"
  using assms(2)
proof (induction before arbitrary: n out)
  case Nil
  then show ?case by auto
next
  case (Cons b bs)
  then obtain r where r: "ledger_row (attemptOperationID x requestID b) db = Some r" "failed_op r" by auto
  let ?o = "add_attempt (attempt_of b (attemptOperationID x requestID b) True r) out"
  have s: "settleRequest x ([3, n] @ [1]) ?o b r [] db = (db, Inr (False, ?o))"
    using settleRequest_quiet(1,2) [OF q, where l = "[3, n] @ [1]" and out = ?o and p = b and op = r and ids = "[]" and db = db] r(2) by (simp add: failed_op_def prod_eq_iff)
  have "try_provider x [3, n] sv requestID inp capText out b db = (db, Inr (False, ?o))"
    using try_provider_replayed [OF q r(1)] s by simp
  then have "try_providers x n sv requestID inp capText out ((b # bs) @ ps) db = try_providers x (n + 1) sv requestID inp capText ?o (bs @ ps) db"
    by (simp add: sbind_pair)
  then show ?case using Cons.IH [of "n + 1" ?o] Cons.prems by auto
qed

lemma try_providers_replayed:
  assumes q: "quiet x" and fail: "\<forall>b \<in> set before. \<exists>r. ledger_row (attemptOperationID x requestID b) db = Some r \<and> failed_op r"
    and r: "ledger_row (attemptOperationID x requestID p) db = Some r" "\<not> failed_op r"
  shows "\<exists>out'. try_providers x n sv requestID inp capText out (before @ p # ps) db = (db, Inr out') \<and> stopped_at out' (so_ID r) p
    \<and> ro_State out' = (if so_State r = StateSucceeded \<or> so_State r = StateReconciledSucceeded then StateSucceeded else StateUnknown)"
proof -
  obtain m out1 where e: "try_providers x n sv requestID inp capText out (before @ p # ps) db = try_providers x m sv requestID inp capText out1 (p # ps) db"
    using try_providers_failed [OF q fail] by blast
  let ?o = "add_attempt (attempt_of p (attemptOperationID x requestID p) True r) out1"
  obtain out' where "settleRequest x ([3, m] @ [1]) ?o p r [] db = (db, Inr (True, out'))" "stopped_at out' (so_ID r) p"
    "ro_State out' = (if so_State r = StateSucceeded \<or> so_State r = StateReconciledSucceeded then StateSucceeded else StateUnknown)"
    using settleRequest_quiet(1,3) [OF q, where l = "[3, m] @ [1]" and out = ?o and p = p and op = r and ids = "[]" and db = db] r(2) by (auto simp: failed_op_def prod_eq_iff)
  then show ?thesis using e try_provider_replayed [OF q r(1)] by (simp add: sbind_pair)
qed

section \<open>The properties\<close>

lemma quiet_demo [simp]: "quiet (sms_demo_context n)"
  by (simp add: quiet_def sms_demo_context_def)

lemma ledger_ok_history: "list_all (\<lambda>(x, _). fair x) h \<Longrightarrow> ledger_ok (sms_history h empty_sms)"
  by (rule ledger_ok_stmts [OF sms_history_stmts]) (simp_all add: ledger_ok_def empty_sms_def)

lemma ledger_ok_demo [simp]: "ledger_ok sms_demo_db"
  unfolding sms_demo_db_def by (rule ledger_ok_history) simp

definition sms_demo_input :: PurchaseInput where
  "sms_demo_input = \<lparr>GoodsID = ''9'', FirstNumber = [], NoFirstNumber = [], pi_Service = [], pi_Country = 0, pi_Operator = [], MaxPrice = [], Duration = 0, pi_Quantity = 1\<rparr>"

text \<open>The sample after a request, and with a machine that may buy three numbers a day.\<close>

definition bought_db :: SmsDB where
  "bought_db = sms_run (sms_demo_context 2) (sms_demo_service hero_sells sms62_sells) (CmdRequest ''q'' sms_demo_request) sms_demo_db"

definition machine_db :: SmsDB where
  "machine_db = sms_run (sms_demo_context 2) (sms_demo_service hero_sells sms62_sells)
     (CmdSetQuota \<lparr>Consumer = ''bot'', DailyRequests = 3, DailySpendCapText = ''5'', cq_Enabled = True, cq_UpdatedAt = 0\<rparr>) sms_demo_db"







text \<open>
  A machine is stopped before any provider is asked. If its request changes anything or answers without an error, and none of the
  route's providers has an attempt of this request yet, then the machine is registered and enabled, the numbers it
  bought today and those it asks for are within its daily number, and in no currency has it spent its daily limit.
\<close>

theorem request_within_quota:
  assumes "quiet x" and "sx_consumer x \<noteq> []"
    and "\<forall>p \<in> set (rt_Providers (request_route x sv (normal_request x inp) db)). ledger_row (attemptOperationID x (trim_space requestID) p) db = None"
    and "fst (RequestNumber x sv requestID inp db) \<noteq> db \<or> (\<exists>out. snd (RequestNumber x sv requestID inp db) = Inr out)"
  shows "\<exists>quota. GetConsumerQuota (sx_consumer x) db = Some quota \<and> cq_Enabled quota
    \<and> \<not> over_quota (sx_rat x) quota (ConsumerUsageSince (sx_numeric x) (sx_consumer x) (day_begin (sx_now x)) db) (rq_Quantity inp)"
proof (cases "bad_request sv (trim_space requestID) (normal_request x inp)")
  case True
  then show ?thesis using assms(4) by (simp add: RequestNumber_def Let_def)
next
  case False
  have "\<not> list_ex (\<lambda>p. ledger_row (attemptOperationID x (trim_space requestID) p) db \<noteq> None) (rt_Providers (request_route x sv (normal_request x inp) db))"
    using assms(3) by (simp add: list_ex_iff)
  then have "quota_error x db (rq_Quantity (normal_request x inp)) = None"
    using assms(4) unfolding RequestNumber_quiet [OF assms(1) False] Let_def by (auto split: if_splits)
  then show ?thesis using assms(2) by (auto simp: quota_error_def normal_request_def split: option.splits if_splits)
qed

theorem request_within_quota_witness:
  "\<exists>quota. GetConsumerQuota ''bot'' machine_db = Some quota \<and> cq_Enabled quota
    \<and> \<not> over_quota sms_demo_numeric quota (ConsumerUsageSince sms_demo_numeric ''bot'' 0 machine_db) 1"
proof -
  let ?x = "(sms_demo_context 3)\<lparr>sx_consumer := ''bot''\<rparr>" let ?sv = "sms_demo_service hero_sells sms62_sells"
  have q: "quiet ?x" and c: "sx_consumer ?x \<noteq> []" by (simp_all add: quiet_def sms_demo_context_def)
  have "list_all (\<lambda>p. ledger_row (attemptOperationID ?x (trim_space ''q'') p) machine_db = None)
      (rt_Providers (request_route ?x ?sv (normal_request ?x sms_demo_request) machine_db))" by code_simp
  then have fresh: "\<forall>p \<in> set (rt_Providers (request_route ?x ?sv (normal_request ?x sms_demo_request) machine_db)).
      ledger_row (attemptOperationID ?x (trim_space ''q'') p) machine_db = None" by (simp add: list_all_iff)
  have "case snd (RequestNumber ?x ?sv ''q'' sms_demo_request machine_db) of Inl e \<Rightarrow> False | Inr out \<Rightarrow> True" by code_simp
  then have "fst (RequestNumber ?x ?sv ''q'' sms_demo_request machine_db) \<noteq> machine_db \<or> (\<exists>out. snd (RequestNumber ?x ?sv ''q'' sms_demo_request machine_db) = Inr out)"
    by (auto split: sum.splits)
  from request_within_quota [OF q c fresh this] show ?thesis
    by (simp add: sms_demo_context_def day_begin_def sms_demo_request_def)
qed

end
