(* ===== verification/Sms_Centre_Laws.thy ===== *)
theory Sms_Centre_Laws
  imports Sms_Request_Laws
begin

text \<open>
  The choice of a route and the reconciliation of balances agree with reference definitions, and two
  computed scenarios: a request replayed after an earlier provider of its route became usable, and a
  request whose first verdict could not be stored.
\<close>

section \<open>Routes\<close>

text \<open>The reference: the first enabled rule for the service and country, else for the service, else for the country, else for all.\<close>

definition rule_for :: "RoutingRule list \<Rightarrow> string \<Rightarrow> string \<Rightarrow> RoutingRule option" where
  "rule_for rs service country = find (\<lambda>r. rr_Enabled r \<and> rr_Service r = service \<and> rr_Country r = country) rs"

definition or_else :: "'a option \<Rightarrow> 'a option \<Rightarrow> 'a option" where
  "or_else a b = (case a of None \<Rightarrow> b | Some _ \<Rightarrow> a)"

lemma or_else_simps [simp]: "or_else (Some a) b = Some a" "or_else None b = b"
  by (simp_all add: or_else_def)

definition chosen_rule :: "RoutingRule list \<Rightarrow> string \<Rightarrow> string \<Rightarrow> RoutingRule option" where
  "chosen_rule rs service country =
    or_else (rule_for rs service country) (or_else (rule_for rs service RouteAny) (or_else (rule_for rs RouteAny country) (rule_for rs RouteAny RouteAny)))"

definition ranked :: "string \<Rightarrow> string \<Rightarrow> int \<Rightarrow> int \<Rightarrow> RoutingRule list \<Rightarrow> RoutingRule option" where
  "ranked service country k j rs = (if j < k then find (\<lambda>r. rr_Enabled r \<and> routeRank r service country = j) rs else None)"

lemma routeRank_cases: "routeRank r s c = - 1 \<or> routeRank r s c = 0 \<or> routeRank r s c = 1 \<or> routeRank r s c = 2 \<or> routeRank r s c = 3"
  by (simp add: routeRank_def)

lemma best_rule_ranked:
  assumes "k = 0 \<or> k = 1 \<or> k = 2 \<or> k = 3 \<or> k = 4"
  shows "best_rule s c b k rs = or_else (ranked s c k 0 rs) (or_else (ranked s c k 1 rs) (or_else (ranked s c k 2 rs) (or_else (ranked s c k 3 rs) b)))"
  using assms
proof (induction rs arbitrary: b k)
  case (Cons r rs)
  show ?case
  proof (cases "rr_Enabled r \<and> 0 \<le> routeRank r s c \<and> routeRank r s c < k")
    case True
    then have "best_rule s c b k (r # rs) = best_rule s c (Some r) (routeRank r s c) rs" by simp
    also have "\<dots> = or_else (ranked s c (routeRank r s c) 0 rs) (or_else (ranked s c (routeRank r s c) 1 rs)
        (or_else (ranked s c (routeRank r s c) 2 rs) (or_else (ranked s c (routeRank r s c) 3 rs) (Some r))))"
      by (rule Cons.IH) (use True routeRank_cases [of r s c] in auto)
    finally show ?thesis using True Cons.prems routeRank_cases [of r s c]
      by (auto simp: ranked_def or_else_def split: option.splits)
  next
    case False
    then have "best_rule s c b k (r # rs) = best_rule s c b k rs" by auto
    then show ?thesis using False Cons.IH [OF Cons.prems, of b] routeRank_cases [of r s c] Cons.prems
      by (auto simp: ranked_def)
  qed
qed (simp add: ranked_def)

lemma find_cong_where: "(\<And>y. y \<in> set ys \<Longrightarrow> P y = Q y) \<Longrightarrow> find P ys = find Q ys"
  by (induction ys) auto

lemma ranked_chosen:
  "or_else (ranked s c 4 0 rs) (or_else (ranked s c 4 1 rs) (or_else (ranked s c 4 2 rs) (or_else (ranked s c 4 3 rs) None))) = chosen_rule rs s c"
proof -
  have r0: "ranked s c 4 0 rs = rule_for rs s c"
    unfolding ranked_def rule_for_def by (simp, rule find_cong_where) (simp add: routeRank_def)
  have r1: "ranked s c 4 1 rs = rule_for rs s RouteAny" if "rule_for rs s c = None"
    using that unfolding ranked_def rule_for_def by (simp, intro find_cong_where) (auto simp: routeRank_def find_None_iff)
  have r2: "ranked s c 4 2 rs = rule_for rs RouteAny c" if "rule_for rs s c = None" "rule_for rs s RouteAny = None"
    using that unfolding ranked_def rule_for_def by (simp, intro find_cong_where) (auto simp: routeRank_def find_None_iff)
  have r3: "ranked s c 4 3 rs = rule_for rs RouteAny RouteAny"
    if "rule_for rs s c = None" "rule_for rs s RouteAny = None" "rule_for rs RouteAny c = None"
    using that unfolding ranked_def rule_for_def by (simp, intro find_cong_where) (auto simp: routeRank_def find_None_iff)
  show ?thesis unfolding chosen_rule_def r0 using r1 r2 r3
    by (cases "rule_for rs s c"; cases "rule_for rs s RouteAny"; cases "rule_for rs RouteAny c"; cases "rule_for rs RouteAny RouteAny") auto
qed

text \<open>
  The route of a request is the reference's: the providers and the price limit of the first enabled rule for its service and
  country, else for the service in any country, else for any service in the country, else for all, else all providers in their
  order without a limit; a provider asked for by name replaces the providers and keeps the limit.
\<close>

theorem route_reference:
  "ResolveRoute lower rs defaults service country preferred =
    (let rule = chosen_rule rs (lower (trim_space service)) (trim_space country) in
     \<lparr>rt_Providers = (if \<not> blank preferred then [trim_space preferred] else case rule of Some r \<Rightarrow> rr_Providers r | None \<Rightarrow> defaults),
      rt_RuleID = (case rule of Some r \<Rightarrow> rr_ID r | None \<Rightarrow> []),
      rt_MaxUnitPriceText = (case rule of Some r \<Rightarrow> MaxUnitPriceText r | None \<Rightarrow> [])\<rparr>)"
proof -
  have "best_rule s c None 4 rs = chosen_rule rs s c" for s c
    using best_rule_ranked [of 4 s c None rs] unfolding ranked_chosen by blast
  then have b: "best_rule (lower (trim_space service)) (trim_space country) None 4 rs = chosen_rule rs (lower (trim_space service)) (trim_space country)" .
  show ?thesis unfolding ResolveRoute_def Let_def blank_def b
    by (cases "chosen_rule rs (lower (trim_space service)) (trim_space country)"; cases "trim_space preferred = []") simp_all
qed

section \<open>Balances\<close>

lemma comparable_None:
  assumes "row \<in> set rows" "cs_Count row \<noteq> 0" "cs_Currency row \<noteq> c \<or> cs_UnknownCount row > 0"
  shows "comparable_row c b rows = None"
  using assms by (induction rows arbitrary: b) auto

definition cost_row :: "(string \<Rightarrow> rat option) \<Rightarrow> CostEvent list \<Rightarrow> string \<Rightarrow> CostSummary" where
  "cost_row numeric es c = (let g = filter (\<lambda>e. ce_Currency e = c) es in
     \<lparr>cs_Currency = c, cs_Sum = sum_list (map (amount_of numeric) g), cs_Count = int (length g),
      cs_UnknownCount = int (length (filter (\<lambda>e. ce_AmountText e = []) g))\<rparr>)"

lemma by_currency_rows: "by_currency numeric es = map (cost_row numeric es) (sort (remdups (map ce_Currency es)))"
  by (simp add: by_currency_def cost_row_def)

lemma set_distinct_single: "distinct xs \<Longrightarrow> set xs = {c} \<Longrightarrow> xs = [c]"
  by (cases xs; cases "tl xs") auto

lemma comparable_by_currency:
  "comparable_row c None (by_currency numeric es) =
    (if \<exists>e \<in> set es. ce_Currency e \<noteq> c \<or> ce_AmountText e = [] then None
     else if es = [] then Some None else Some (Some (cost_row numeric es c)))"
proof (cases "\<exists>e \<in> set es. ce_Currency e \<noteq> c \<or> ce_AmountText e = []")
  case True
  then obtain e where e: "e \<in> set es" "ce_Currency e \<noteq> c \<or> ce_AmountText e = []" by blast
  let ?row = "cost_row numeric es (ce_Currency e)"
  have "?row \<in> set (by_currency numeric es)" using e by (simp add: by_currency_rows)
  moreover have "cs_Count ?row \<noteq> 0" using e by (auto simp: cost_row_def Let_def filter_empty_conv)
  moreover have "cs_Currency ?row \<noteq> c \<or> cs_UnknownCount ?row > 0"
    using e by (auto simp: cost_row_def Let_def filter_empty_conv)
  ultimately show ?thesis using comparable_None True by simp
next
  case False
  then have cur: "\<forall>e \<in> set es. ce_Currency e = c" and known: "\<forall>e \<in> set es. ce_AmountText e \<noteq> []" by auto
  show ?thesis
  proof (cases es)
    case Nil
    then show ?thesis by (simp add: by_currency_def)
  next
    case (Cons d ds)
    have "set (remdups (map ce_Currency es)) = {c}" using cur Cons by auto
    then have "remdups (map ce_Currency es) = [c]"
      by (rule set_distinct_single [OF distinct_remdups])
    then have "by_currency numeric es = [cost_row numeric es c]" by (simp add: by_currency_rows)
    moreover have "cs_Count (cost_row numeric es c) \<noteq> 0" "cs_Currency (cost_row numeric es c) = c" "cs_UnknownCount (cost_row numeric es c) = 0"
      using cur known Cons by (auto simp: cost_row_def Let_def filter_empty_conv)
    ultimately show ?thesis using False Cons by simp
  qed
qed

text \<open>
  C24. Reconciliation is exact. With nobody interfering, a drift of a provider's balance is reported exactly when there are two
  snapshots with readable amounts, every cost recorded between them has an amount and the currency of the later snapshot, and the
  balance fell by more than the sum of those costs and five hundredths.
\<close>

theorem reconcile_exact:
  assumes "quiet x"
  shows "reconcileBalance x l provider db = (db, Inr (case ListRecentBalanceSnapshots provider 2 db of
      latest # previous # _ \<Rightarrow>
        (let costs = window_costs provider (TakenAt previous) (TakenAt latest) db in
         case (sx_numeric x (bs_AmountText previous), sx_numeric x (bs_AmountText latest)) of
           (Some before, Some after) \<Rightarrow>
             if (\<forall>e \<in> set costs. ce_Currency e = bs_Currency latest \<and> ce_AmountText e \<noteq> [])
               \<and> before - after > sum_list (map (amount_of (sx_numeric x)) costs) + 1 / 20
             then [sms_alert AlertBalanceDrift provider provider SmsWarning] else []
         | _ \<Rightarrow> [])
    | _ \<Rightarrow> []))"
proof (cases "\<exists>latest previous rest. ListRecentBalanceSnapshots provider 2 db = latest # previous # rest")
  case True
  then obtain latest previous rest where s: "ListRecentBalanceSnapshots provider 2 db = latest # previous # rest" by blast
  let ?es = "window_costs provider (TakenAt previous) (TakenAt latest) db"
  show ?thesis
  proof (cases "\<exists>e \<in> set ?es. ce_Currency e \<noteq> bs_Currency latest \<or> ce_AmountText e = []")
    case True
    then show ?thesis using assms s
      by (auto simp: reconcileBalance_def sbind_pair reading_def SumCostEventsByCurrency_def comparable_by_currency Let_def split: option.splits)
  next
    case False
    then have c: "\<forall>e \<in> set ?es. ce_Currency e = bs_Currency latest \<and> ce_AmountText e \<noteq> []" by auto
    then have f: "filter (\<lambda>e. ce_Currency e = bs_Currency latest) ?es = ?es" by (simp add: filter_id_conv)
    have d: "drifted before after z \<longleftrightarrow> before - after > z + 1 / 20" for before after z
      by (auto simp: drifted_def Let_def reconcile_tolerance_def)
    show ?thesis using assms s False c
      by (auto simp: reconcileBalance_def sbind_pair reading_def SumCostEventsByCurrency_def comparable_by_currency cost_row_def f d Let_def split: option.splits)
  qed
next
  case False
  then show ?thesis using assms
    by (auto simp: reconcileBalance_def sbind_pair reading_def split: list.splits)
qed


text \<open>A drift: the balance falls from 9 to 5 while nothing was bought.\<close>

theorem reconcile_exact_witness:
  "snd (reconcileBalance (sms_demo_context 3) [] ProviderHero (sms_demo_db\<lparr>snapshots :=
     [\<lparr>bs_ID = ''1'', bs_Provider = ProviderHero, bs_AmountText = ''9'', bs_Currency = [], TakenAt = 1\<rparr>,
      \<lparr>bs_ID = ''2'', bs_Provider = ProviderHero, bs_AmountText = ''5'', bs_Currency = [], TakenAt = 2\<rparr>]\<rparr>))
   = Inr [sms_alert AlertBalanceDrift ProviderHero ProviderHero SmsWarning]"
  unfolding reconcile_exact [OF quiet_demo] by code_simp

section \<open>Scenarios\<close>

text \<open>
  A request bought at the second provider because the first was switched off; once the first is switched on, asking again with the same
  identifier buys there as well, because the provider whose attempt would be replayed comes later in the route.
\<close>

theorem request_replay_buys_again:
  "calls (sms_history [(sms_demo_context 2, sms_demo_service hero_sells sms62_sells, CmdRequest ''q'' sms_demo_request),
      (sms_demo_context 3, sms_demo_service hero_sells sms62_sells, CmdEnable ProviderHero True),
      (sms_demo_context 4, sms_demo_service hero_sells sms62_sells, CmdRequest ''q'' sms_demo_request)] sms_demo_db)
    = [(''q'' @ [CHR 0x00] @ ProviderSMS62, ProviderSMS62), (''q'' @ [CHR 0x00] @ ProviderHero, ProviderHero)]"
  by code_simp

text \<open>
  When the statement that stores the verdict of an accepted purchase fails, the request takes it for a provider that was not asked and
  buys from the next one: two purchases in one request, and the answer names the second only.
\<close>

theorem request_spends_twice_when_verdict_not_stored:
  "calls (sms_run ((sms_demo_context 2)\<lparr>sx_fails := (\<lambda>l. l = [3, 0, 2, 6])\<rparr>) (sms_demo_service hero_sells sms62_sells) (CmdRequest ''q'' sms_demo_request)
      (sms_run (sms_demo_context 1) (sms_demo_service hero_sells sms62_sells) (CmdEnable ProviderHero True) sms_demo_db))
    = [(''q'' @ [CHR 0x00] @ ProviderHero, ProviderHero), (''q'' @ [CHR 0x00] @ ProviderSMS62, ProviderSMS62)]"
  by code_simp

end
