(* ===== verification/Spec2Isabelle.thy ===== *)
theory Spec2Isabelle
  imports Prelude Go_Strings Money Amortization Accounts Subscriptions Runway Profit RateLimit RateStore
    RateKey Actions Approval Kernel Registry Poll Budget Guard Go_Map Invoice Ledger Ledger_Books
    Ops Alerts Alert_Rounds Alert_Rules Alert_Centre Audit_Log Audit_Chain Audit_Sink
    Publishing Publishing_Actions Publishing_Laws Rollup Rollup_Policies Rollup_Laws
    Sms Sms_Service Sms_Routing Sms_Alerts Sms_Laws Sms_Request_Laws Sms_Centre_Laws
begin

text \<open>
  A model of the core of the operations platform, in Isabelle/HOL, translated from the Go
  sources. File names below are relative to \<open>src/platform/internal/platform/\<close> unless they
  start with \<open>src/\<close>.

  \<^bold>\<open>The program.\<close> The platform watches and operates a number of upstream systems. Its
  own decisions, as opposed to its SQL, HTTP and file handling, are taken in a few packages.
  Every change goes through the \<open>action\<close> kernel as an action: the kernel checks the caller, the
  parameters, the scope and the risk of the action, refers the dangerous ones to the approval
  centre (\<open>approval\<close>), runs the others, and records every attempt twice, as a run and as an
  audit event. Calls from outside are limited by \<open>ratelimit\<close>. Readers of upstream systems
  (\<open>connector\<close>) run under a budget and a polling schedule, for the connections that the
  \<open>registry\<close> has validated. The \<open>finance\<close> and \<open>money\<close> packages compute with what the
  readers bring in: amounts, exchange ratios, daily cost, profit and runway. The observations
  readers leave (\<open>ops\<close>) are rolled up by day and judged by the rules of the alert centre (\<open>alerts\<close>), which opens,
  merges and resolves alerts round by round. Audit events, those of the kernel among them, end in
  a hash chain (\<open>audit\<close>). Content is drafted, versioned and released by \<open>publishing\<close>. Numbers that
  receive text messages are bought from two providers by \<open>sms\<close>, which keeps a ledger of everything that can cost money. Beside the platform stands the invoice service
  (\<open>src/invoice/backend/internal/\<close>), whose ledger reserves paid amounts for invoice requests.

  \<^bold>\<open>The theories.\<close> One theory holds one component; each map entry of the manifest gives the
  lines a definition translates.

  \<^item> \<open>Prelude\<close>: 64-bit integers of Go (an \<open>int\<close> with explicit \<open>wrap64\<close>), its truncating
    division, instants, results as \<open>error + value\<close>, and the simp collections
    \<open>int64_defs\<close> and \<open>result_simps\<close>. \<open>Go_Strings\<close>: what is used of \<open>strings\<close> and
    \<open>strconv\<close>; a Go string is its list of bytes.
  \<^item> \<open>Money\<close> (\<open>money/money.go\<close>, \<open>money/ratio.go\<close>, \<open>money/amortize.go\<close>): parsing of decimal
    amounts, rescaling, fixed-point ratios, half-up division, instalments. Rounding is compared
    with the reference \<open>round_half_up\<close>; the locale \<open>instalment_plan\<close> is the contract between
    a split amount and its users.
  \<^item> \<open>Amortization\<close> (\<open>finance/amortization.go\<close>), \<open>Subscriptions\<close> (\<open>finance/subscription.go\<close>),
    \<open>Accounts\<close> (\<open>finance/account.go\<close>, \<open>secrets/ref.go\<close>, the business day of
    \<open>finance/profit.go\<close>), \<open>Runway\<close> (\<open>finance/runway.go\<close>, \<open>finance/balance.go\<close>) and
    \<open>Profit\<close> (\<open>finance/profit.go\<close>): the daily cost of a payment with refunds, the cost of an
    account, validation, days left of a balance, totals of ledger rows.
  \<^item> \<open>RateLimit\<close> (\<open>ratelimit/gcra.go\<close>, \<open>ratelimit/types.go\<close>), \<open>RateStore\<close>
    (\<open>ratelimit/memory.go\<close>), \<open>RateKey\<close> (\<open>ratelimit/key.go\<close>): one decision of the limiter, the
    process-local store with its sweep, the bytes that identify a bucket. The locale
    \<open>debt_store\<close> is the contract of a store; the limiter's guarantee is proved in it and
    inherited by the memory store through an interpretation.
  \<^item> \<open>Actions\<close> (\<open>principal/principal.go\<close>, \<open>action/risk.go\<close>, \<open>action/errors.go\<close>,
    \<open>action/schema.go\<close>, \<open>action/definition.go\<close>), \<open>Approval\<close> (\<open>approval/approval.go\<close>,
    \<open>approval/service.go\<close>, \<open>approval/store_pg.go\<close>) and \<open>Kernel\<close> (\<open>action/kernel.go\<close>,
    \<open>action/approval_execute.go\<close>, \<open>action/audit.go\<close>, \<open>InsertRun\<close> of \<open>action/store.go\<close>): the
    two execution paths with every check, and the approval centre as a state machine over the
    table of requests (an \<open>inductive\<close> step relation with its reachable states). The locale
    \<open>approval_gateway\<close> is the interface the kernel calls, and the approval service interprets it.
  \<^item> \<open>Registry\<close> (\<open>registry/environment.go\<close>, \<open>registry/errors.go\<close>,
    \<open>registry/connector.go\<close>), \<open>Poll\<close> (\<open>connector/backoff.go\<close>), \<open>Budget\<close>
    (\<open>connector/budget_policy.go\<close>) and \<open>Guard\<close> (\<open>connector/budget.go\<close>): what a stored
    connector or connection satisfies, the polling schedule, the budget policy with its default,
    and the guard of one run.
  \<^item> \<open>Go_Map\<close>: Go maps as association lists, with what they share. \<open>Invoice\<close>
    (\<open>src/invoice/backend/internal/domain/types.go\<close>), \<open>Ledger\<close> and \<open>Ledger_Books\<close>
    (\<open>src/invoice/backend/internal/ledger/service.go\<close>): funding lots, requests and their validation, the
    in-memory ledger with all its operations under the mutex, and its books: what is reserved,
    issued and left of every lot, over all sequences of operations.
  \<^item> \<open>Ops\<close> (\<open>ops/freshness.go\<close>): what an observation says and how fresh it is. \<open>Alerts\<close>
    (\<open>alerts/alert.go\<close>, \<open>alerts/store.go\<close>, \<open>alerts/reconcile.go\<close>): the table of alerts with
    one operation per statement, and a round of the reconciler; \<open>Alert_Rounds\<close>: what a round
    does to the table. \<open>Alert_Rules\<close> (\<open>alerts/rules.go\<close>, \<open>alerts/rules_cards.go\<close>): the rules
    that turn observations and runways into findings, over a record of sources;
    \<open>Alert_Centre\<close>: rules and rounds together.
  \<^item> \<open>Audit_Log\<close> (\<open>audit/event.go\<close>, \<open>audit/store.go\<close>, \<open>audit/anchor.go\<close>, \<open>audit/redact.go\<close>):
    canonical bytes, appending, verifying, signed roots, redaction; \<open>Audit_Chain\<close>: what the
    chain guarantees; \<open>Audit_Sink\<close> (\<open>audit/actionsink.go\<close>): the kernel's events on their way
    into the chain.
  \<^item> \<open>Publishing\<close> (\<open>publishing/model.go\<close>, \<open>publishing/store_pg.go\<close>, \<open>publishing/service.go\<close>): channels, drafts, assets and
    publish records, one operation per store method over the state of the tables;
    \<open>Publishing_Actions\<close> (\<open>publishing/actions.go\<close>): the actions registered with the kernel and
    their handlers; \<open>Publishing_Laws\<close>: the invariant of the tables and what publishing does.
  \<^item> \<open>Rollup\<close> (\<open>ops/rollup.go\<close>, \<open>ops/rollup_policy.go\<close>): the policies of metrics and the accumulator that
    summarises the samples of one day; \<open>Rollup_Policies\<close>: a loaded policy set; \<open>Rollup_Laws\<close>: each part
    of the accumulator against its reference on the list of samples.
  \<^item> \<open>Sms\<close> (\<open>sms/model.go\<close>, \<open>sms/registry.go\<close>, \<open>sms/classify.go\<close>, \<open>sms/store_pg.go\<close>): the ledger of operations and the
    other tables of the centre for received text messages, one operation per statement, and the context a procedure
    runs in; \<open>Sms_Service\<close> (\<open>sms/service.go\<close>, \<open>sms/extras.go\<close>, \<open>sms/cost.go\<close>, \<open>sms/import.go\<close>): buying, renting, cancelling,
    receiving codes, review by a person; \<open>Sms_Routing\<close> (\<open>sms/routing.go\<close>, \<open>sms/quota.go\<close>, \<open>sms/request.go\<close>): requests that try the
    providers of a route; \<open>Sms_Alerts\<close> (\<open>sms/probe.go\<close>, \<open>sms/reconcile.go\<close>, \<open>sms/alerts.go\<close>). \<open>Sms_Laws\<close>: every procedure as a
    sequence of statements and the invariant of the ledger; \<open>Sms_Request_Laws\<close>: the verdict on a purchase, what a request
    spends, replays and quotas; \<open>Sms_Centre_Laws\<close>: routes, balances and two scenarios.

  \<^bold>\<open>What is shown.\<close> The kernel runs no handler without an actor, valid parameters, the scope
  and a risk that does not need approval; an approved request runs at most once, with the
  parameters that were voted on, and every attempt leaves its records or a logged gap. A request
  is approved only by enough distinct voters other than its author, and what was submitted never
  changes. The limiter admits no more than a burst plus its rate, in one bucket and through the
  store. Amounts are parsed, rescaled and divided exactly or refused; instalments and daily costs
  sum to the payment. The polling interval stays in its bounds and returns to its base after
  enough successes; a run never exceeds its budget, its cursors never repeat, and complete
  coverage is claimed only when no limit was hit. No lot is ever invoiced beyond what was paid
  into it, and confirming an invoice books all of it or nothing. After a round the active alerts
  are those of the findings, an acknowledgement survives repeated hits, the table's constraints
  hold throughout, and the failure rule equals its reference on the history of samples.
  Appending keeps the audit chain linked and free of sensitive values, verification accepts
  exactly the ranges described, and two verified histories with one last hash agree unless they
  exhibit a collision of the hash. Every interleaving of the publishing
  operations keeps a draft's revisions without gaps and every publish record pinned to one of them,
  and a handler that fails changes nothing. A day rolled up, at once or in portions, equals its reference:
  counts, numbers, currencies and coverage; a loaded policy set covers the registered metrics
  exactly. However its procedures, their failures and other processes interleave, the centre for text messages sends an
  operation upstream at most once; a purchase fails exactly on a definite rejection; a request spends at most once
  and its replay sends nothing, under hypotheses whose necessity two computed scenarios show; a balance drift is
  reported exactly when the books do not explain it.

  \<^bold>\<open>Bounds and effects.\<close> Machine integers keep their width wherever the code may wrap. No
  recursion needs fuel: loops over lists and digits are structural. Operations under a mutex or
  in a transaction are one step each, so interleavings of callers are the sequences of these
  steps. Where a procedure issues several statements without a common transaction, the argument
  \<open>other\<close> or \<open>others\<close>, or the context's \<open>sx_other\<close>, is what other processes do to the tables between two of them; the
  wording of a finding is the argument \<open>say\<close>. Clocks, random identifiers and the answers of remote stores are arguments. JSON, SHA-256,
  HMAC, the UUID syntax, HTTP dates and the regular expression engine are library code: the first
  ones are parameters, the expressions used are written out as predicates on strings.

  \<^bold>\<open>Not modelled.\<close> The SQL behind the stores beyond the statements the state machines
  translate, HTTP handlers and clients, jobs and commands, encryption and sessions, file and mail
  delivery, the notification channels of the alert centre, the export of the audit chain to
  archives, the PostgreSQL twin of the invoice ledger, the action handlers and provider clients of the centre for text messages, the texts of error messages, metrics and logs. The manifest lists every component with
  what is left out of it.
\<close>

end
